(* ===== verification/Prelude.thy ===== *)
theory Prelude
  imports Main "HOL-Library.Word" "HOL-Library.State_Monad" "HOL-Library.List_Lexorder"
    "HOL-Library.Sublist" "HOL-Library.Product_Lexorder"
begin

text \<open>
  Shared vocabulary of the development: the machine integers of the C++ sources, the memory
  image of an integer on the little-endian hosts the project targets (x86\_64), the byte-order
  functions of \<^verbatim>\<open>arpa/inet.h\<close> the sources call, the two loop shapes that the sources use over a
  stateful object, and generic facts on lists, maps and the state monad.  The collections
  \<open>wire\<close> and \<open>mon\<close> carry the component proofs.
\<close>

unbundle bit_operations_syntax

named_theorems wire "the bytes that operations put on the wire"
named_theorems mon "running stateful operations"

type_synonym byte = "8 word"
type_synonym u8 = "8 word"
type_synonym u16 = "16 word"
type_synonym u32 = "32 word"
type_synonym u64 = "64 word"
type_synonym bytes = "byte list"

section \<open>Integers as bytes\<close>

text \<open>
  \<open>be_bytes n w\<close> are the low \<open>n\<close> bytes of a word, most significant first; \<open>be_word\<close> reads such
  a list back.  \<open>mem_image\<close> and \<open>mem_load\<close> are what \<^verbatim>\<open>memcpy\<close> between an integer object and a
  character buffer does on a little-endian host.
\<close>

primrec be_bytes :: "nat \<Rightarrow> 'a::len word \<Rightarrow> bytes" where
  "be_bytes 0 w = []"
| "be_bytes (Suc n) w = ucast (drop_bit (8 * n) w) # be_bytes n w"

definition be_word :: "bytes \<Rightarrow> 'a::len word" where
  "be_word bs = foldl (\<lambda>acc b. push_bit 8 acc OR ucast b) 0 bs"

definition mem_image :: "nat \<Rightarrow> 'a::len word \<Rightarrow> bytes" where
  "mem_image n w = rev (be_bytes n w)"

definition mem_load :: "bytes \<Rightarrow> 'a::len word" where
  "mem_load bs = be_word (rev bs)"

text \<open>The byte-order functions of the C library on a little-endian host.\<close>

definition htons :: "u16 \<Rightarrow> u16" where
  "htons w = be_word (rev (be_bytes 2 w))"

definition ntohs :: "u16 \<Rightarrow> u16" where
  "ntohs w = be_word (rev (be_bytes 2 w))"

definition htonl :: "u32 \<Rightarrow> u32" where
  "htonl w = be_word (rev (be_bytes 4 w))"

definition ntohl :: "u32 \<Rightarrow> u32" where
  "ntohl w = be_word (rev (be_bytes 4 w))"

section \<open>Loops over a stateful object\<close>

text \<open>
  \<open>for_each f xs\<close> is a range-for statement whose body is \<open>f\<close>; \<open>collect n m\<close> is the loop
  \<^verbatim>\<open>for (i = 0; i < n; ++i) v.push_back(m());\<close>.
\<close>

primrec for_each :: "('a \<Rightarrow> ('s, unit) state) \<Rightarrow> 'a list \<Rightarrow> ('s, unit) state" where
  "for_each f [] = State_Monad.return ()"
| "for_each f (x # xs) = do { f x; for_each f xs }"

primrec collect :: "nat \<Rightarrow> ('s, 'a) state \<Rightarrow> ('s, 'a list) state" where
  "collect 0 m = State_Monad.return []"
| "collect (Suc n) m = do { x \<leftarrow> m; xs \<leftarrow> collect n m; State_Monad.return (x # xs) }"

section \<open>Text as bytes\<close>

text \<open>
  A \<^verbatim>\<open>std::string\<close> is a list of bytes; \<open>lit\<close> turns a string literal of the source into one,
  \<open>to_string\<close> is \<^verbatim>\<open>std::to_string\<close> of an unsigned integer and \<open>to_hex\<close> the conversion \<^verbatim>\<open>%x\<close>.
\<close>

definition lit :: "string \<Rightarrow> bytes" where
  "lit cs = map of_char cs"

definition digit :: "nat \<Rightarrow> byte" where
  "digit d = of_nat (if d < 10 then 48 + d else 87 + d)"

fun digits :: "nat \<Rightarrow> nat \<Rightarrow> bytes" where
  "digits base n = (if base < 2 \<or> n < base then [digit n] else digits base (n div base) @ [digit (n mod base)])"

declare digits.simps [simp del]

definition to_string :: "nat \<Rightarrow> bytes" where
  "to_string n = digits 10 n"

definition to_string_int :: "int \<Rightarrow> bytes" where
  "to_string_int i = (if i < 0 then lit ''-'' @ digits 10 (nat (- i)) else digits 10 (nat i))"

definition to_hex :: "nat \<Rightarrow> bytes" where
  "to_hex n = digits 16 n"

section \<open>Facts on bytes\<close>

lemma length_digits: "2 \<le> base \<Longrightarrow> n < base ^ Suc k \<Longrightarrow> length (digits base n) \<le> Suc k"
proof (induction k arbitrary: n)
  case 0
  then show ?case by (simp add: digits.simps [of base n])
next
  case (Suc k)
  show ?case
  proof (cases "n < base")
    case False
    have "n div base < base ^ Suc k"
      using Suc.prems by (simp add: less_mult_imp_div_less mult.commute)
    from Suc.IH [OF Suc.prems(1) this] Suc.prems False show ?thesis
      by (simp add: digits.simps [of base n])
  qed (simp add: digits.simps [of base n])
qed

lemma length_to_string: "n < 10 ^ Suc k \<Longrightarrow> length (to_string n) \<le> Suc k"
  and length_to_hex: "n < 16 ^ Suc k \<Longrightarrow> length (to_hex n) \<le> Suc k"
  by (simp_all add: to_string_def to_hex_def length_digits del: power_Suc)

lemma length_lit [simp]: "length (lit cs) = length cs"
  by (simp add: lit_def)

lemma length_be_bytes [simp]: "length (be_bytes n w) = n"
  by (induction n) auto

lemma length_mem_image [simp]: "length (mem_image n w) = n"
  by (simp add: mem_image_def)

lemma foldl_be_bytes:
  fixes w a :: "'a::len word"
  assumes "8 \<le> LENGTH('a)"
  shows "foldl (\<lambda>acc b. push_bit 8 acc OR ucast b) a (be_bytes n w) =
    push_bit (8 * n) a OR take_bit (8 * n) w"
proof (induction n arbitrary: a)
  case 0
  then show ?case by simp
next
  case (Suc n)
  show ?case
    by (simp add: Suc.IH) (rule bit_word_eqI, auto simp: bit_simps ac_simps not_less)
qed

lemma be_word_be_bytes:
  fixes w :: "'a::len word"
  shows "8 \<le> LENGTH('a) \<Longrightarrow> be_word (be_bytes n w) = take_bit (8 * n) w"
  by (simp add: be_word_def foldl_be_bytes)

lemma be_bytes_take_bit: "n \<le> m \<Longrightarrow> be_bytes n (take_bit (8 * m) w) = be_bytes n w"
proof (induction n)
  case (Suc n)
  have "(ucast (drop_bit (8 * n) (take_bit (8 * m) w)) :: byte) = ucast (drop_bit (8 * n) w)"
    using Suc.prems by (intro bit_word_eqI) (auto simp: bit_simps)
  with Suc show ?case by simp
qed simp

lemma be_bytes_snoc:
  fixes a :: "'a::len word" and b :: byte
  assumes "8 * Suc n \<le> LENGTH('a)"
  shows "be_bytes (Suc n) (push_bit 8 a OR ucast b) = be_bytes n a @ [b]"
  using assms
proof (induction n)
  case 0
  then show ?case by (auto intro!: bit_word_eqI simp: bit_simps)
next
  case (Suc n)
  have "(ucast (drop_bit (8 * Suc n) (push_bit 8 a OR ucast b)) :: byte) =
      ucast (drop_bit (8 * n) a)"
    using Suc.prems by (intro bit_word_eqI) (auto simp: bit_simps dest: bit_imp_le_length)
  with Suc show ?case by simp
qed

lemma be_bytes_be_word:
  assumes "length bs = n" and "8 * n \<le> LENGTH('a::len)"
  shows "be_bytes n (be_word bs :: 'a word) = bs"
  using assms
proof (induction bs arbitrary: n rule: rev_induct)
  case (snoc b bs)
  then have "be_bytes (Suc (length bs)) (be_word (bs @ [b]) :: 'a word) = be_bytes (length bs) (be_word bs :: 'a word) @ [b]"
    by (simp only: be_word_def foldl_append foldl.simps) (rule be_bytes_snoc, simp)
  with snoc show ?case by simp
qed simp

lemma be_bytes_inject:
  fixes v w :: "'a::len word"
  assumes "LENGTH('a) = 8 * n" and "0 < n"
  shows "be_bytes n v = be_bytes n w \<longleftrightarrow> v = w"
proof
  assume "be_bytes n v = be_bytes n w"
  then have "(be_word (be_bytes n v) :: 'a word) = be_word (be_bytes n w)" by simp
  with assms show "v = w" by (simp add: be_word_be_bytes take_bit_word_eq_self)
qed simp

lemma be_bytes_ucast:
  fixes v :: "'a::len word"
  shows "8 * m \<le> LENGTH('b) \<Longrightarrow> be_bytes m (ucast v :: 'b::len word) = be_bytes m v"
proof (induction m)
  case (Suc m)
  have "(ucast (drop_bit (8 * m) (ucast v :: 'b word)) :: byte) = ucast (drop_bit (8 * m) v)"
    using Suc.prems by (intro bit_word_eqI) (auto simp: bit_simps dest: bit_imp_le_length)
  with Suc show ?case by simp
qed simp

lemma be_bytes_split:
  fixes v :: "'a::len word"
  assumes "8 * n \<le> LENGTH('b)" and "8 * m \<le> LENGTH('c)"
  shows "be_bytes (n + m) v =
    be_bytes n (ucast (drop_bit (8 * m) v) :: 'b::len word) @ be_bytes m (ucast v :: 'c::len word)"
  using assms(1)
proof (induction n)
  case 0
  then show ?case by (simp add: be_bytes_ucast assms(2))
next
  case (Suc n)
  have "(ucast (drop_bit (8 * n) (ucast (drop_bit (8 * m) v) :: 'b word)) :: byte) =
      ucast (drop_bit (8 * (n + m)) v)"
    using Suc.prems by (intro bit_word_eqI) (auto simp: bit_simps algebra_simps dest: bit_imp_le_length)
  with Suc show ?case by simp
qed

lemma mem_load_image: "mem_load (mem_image n w) = be_word (be_bytes n w)"
  by (simp add: mem_load_def mem_image_def)

text \<open>What the swapped integer looks like in memory: the big-endian bytes of the original.\<close>

lemma mem_image_htons [wire]: "mem_image 2 (htons w) = be_bytes 2 w"
  by (simp add: mem_image_def htons_def be_bytes_be_word)

lemma mem_image_htonl [wire]: "mem_image 4 (htonl w) = be_bytes 4 w"
  by (simp add: mem_image_def htonl_def be_bytes_be_word)

lemma ntohs_mem_load [wire]: "length bs = 2 \<Longrightarrow> ntohs (mem_load bs) = be_word bs"
  by (simp add: ntohs_def mem_load_def be_bytes_be_word)

lemma ntohl_mem_load [wire]: "length bs = 4 \<Longrightarrow> ntohl (mem_load bs) = be_word bs"
  by (simp add: ntohl_def mem_load_def be_bytes_be_word)

lemma be_word_u16 [wire]: "be_word (be_bytes 2 w) = (w :: u16)"
  and be_word_u32 [wire]: "be_word (be_bytes 4 w') = (w' :: u32)"
  and be_word_u64 [wire]: "be_word (be_bytes 8 w'') = (w'' :: u64)"
  by (simp_all add: be_word_be_bytes take_bit_word_eq_self)

lemma ntohs_htons [simp]: "ntohs (htons w) = w"
  by (simp add: ntohs_def htons_def be_bytes_be_word be_word_u16)

lemma ntohl_htonl [simp]: "ntohl (htonl w) = w"
  by (simp add: ntohl_def htonl_def be_bytes_be_word be_word_u32)

section \<open>Facts on loops, lists and maps\<close>

lemma unat_of_nat_u32 [simp]: "n < 2 ^ 32 \<Longrightarrow> unat (of_nat n :: u32) = n"
  by (simp add: unat_of_nat)

lemma not_bit_nat: "(n :: nat) < 2 ^ m \<Longrightarrow> m \<le> k \<Longrightarrow> \<not> bit n k"
  by (metis bit_iff_odd div_less even_zero less_le_trans one_le_numeral power_increasing)

lemma unat_less: "unat (w :: 'a::len word) < 2 ^ LENGTH('a)"
  by (rule unsigned_less)

lemma unat_u16_less: "unat (w :: u16) < 2 ^ 16"
  and unat_u32_less: "unat (v :: u32) < 2 ^ 32"
  and unat_u64_less: "unat (u :: u64) < 2 ^ 64"
  using unat_less [of w] unat_less [of v] unat_less [of u] by simp_all

lemma sint_u32_nonneg:
  assumes "unat (w :: u32) < 2 ^ 31"
  shows "0 \<le> sint w"
proof -
  have "\<not> bit (unat w) 31" using assms by (rule not_bit_nat) simp
  then have "\<not> bit (uint w) 31" by (simp add: bit_unsigned_iff)
  then show ?thesis by (simp add: sint_uint)
qed

lemma unat_ucast_small:
  "unat (w :: 'a::len word) < 2 ^ LENGTH('b) \<Longrightarrow> unat (ucast w :: 'b::len word) = unat w"
  by (simp add: unsigned_ucast_eq unsigned_take_bit_eq take_bit_nat_eq_self)

lemma scast_nonneg:
  assumes "unat (w :: u32) < 2 ^ 31"
  shows "unat (scast w :: u64) = unat w"
proof -
  have b: "\<not> bit w k" if "31 \<le> k" for k
    using not_bit_nat [OF assms that] by (simp add: bit_unsigned_iff bit_imp_le_length)
  have "(scast w :: u64) = ucast w"
    by (intro bit_word_eqI) (use b in \<open>auto simp: bit_simps min_def not_less_eq_eq\<close>)
  moreover have "unat w < 2 ^ LENGTH(64)" using assms by simp
  ultimately show ?thesis by (simp only: unat_ucast_small)
qed

lemma run_collect_Suc [mon]:
  "run_state (collect (Suc n) m) s =
    (case run_state m s of (x, s') \<Rightarrow>
       (case run_state (collect n m) s' of (xs, s'') \<Rightarrow> (x # xs, s'')))"
  by (simp split: prod.split)

lemma length_collect: "length (fst (run_state (collect n m) s)) = n"
  by (induction n arbitrary: s) (auto split: prod.split simp: case_prod_beta)

lemma collect_fixpoint:
  "run_state m s = (x, s) \<Longrightarrow> run_state (collect n m) s = (replicate n x, s)"
  by (induction n) auto

lemma suffix_trans: "suffix xs ys \<Longrightarrow> suffix ys zs \<Longrightarrow> suffix xs zs"
  by (auto simp: suffix_def)

end
