(* ===== verification/Memchunk.thy ===== *)
theory Memchunk
  imports Prelude
begin

text \<open>
  The growable byte buffer \<^verbatim>\<open>zbf::memchunk\<close> (\<^verbatim>\<open>src/zbf/memchunk.hpp\<close>) that holds the bytes
  received on a connection.  Its three counters are 32-bit words whose additions wrap; the heap
  block behind \<^verbatim>\<open>buffer\<close> is a list of bytes, \<open>None\<close> for a null pointer.  A copy that leaves a
  block is the error value \<open>OutOfBounds\<close>, a division by a zero \<^verbatim>\<open>blocksize\<close> is \<open>DivByZero\<close>.  The
  allocator is a parameter: which requests succeed and what fresh memory contains.

  The buffer refines a byte queue: \<open>contents\<close> is the abstraction, \<^verbatim>\<open>push\<close> appends and \<^verbatim>\<open>pop\<close>
  drops from the front.  The refinement needs that the 32-bit sum does not wrap; what happens
  when it does is proved too.
\<close>

datatype memerr = OutOfBounds | DivByZero

text \<open>The exceptions of the standard library that the code can let escape, and the faults above.\<close>

datatype std_exception = out_of_range | length_error | mem_error memerr

record allocator =
  alloc_ok :: "u32 \<Rightarrow> bool"
  fresh :: "nat \<Rightarrow> byte"

record memchunk =
  buffer :: "bytes option"
  buffersize :: u32
  datasize :: u32
  blocksize :: u32

definition zbf_malloc :: "allocator \<Rightarrow> u32 \<Rightarrow> bytes option" where
  "zbf_malloc al n = (if alloc_ok al n then Some (map (fresh al) [0..<unat n]) else None)"

definition zbf_realloc :: "allocator \<Rightarrow> bytes option \<Rightarrow> u32 \<Rightarrow> bytes option" where
  "zbf_realloc al p n =
    (if alloc_ok al n then
       (case p of None \<Rightarrow> Some (map (fresh al) [0..<unat n])
        | Some b \<Rightarrow> Some (take (unat n) b @ map (fresh al) [length b..<unat n]))
     else None)"

definition memchunk_new :: "allocator \<Rightarrow> u32 \<Rightarrow> memchunk" where
  "memchunk_new al blksz =
    \<lparr>buffer = zbf_malloc al blksz, buffersize = blksz, datasize = 0, blocksize = blksz\<rparr>"

text \<open>\<open>memcpy b off d n\<close> copies \<open>n\<close> bytes of \<open>d\<close> to offset \<open>off\<close> of block \<open>b\<close>.\<close>

definition memcpy :: "bytes \<Rightarrow> nat \<Rightarrow> bytes \<Rightarrow> nat \<Rightarrow> memerr + bytes" where
  "memcpy b off d n =
    (if length d < n \<or> length b < off + n then Inl OutOfBounds
     else Inr (take off b @ take n d @ drop (off + n) b))"

definition memmove_down :: "bytes \<Rightarrow> nat \<Rightarrow> nat \<Rightarrow> memerr + bytes" where
  "memmove_down b off n =
    (if length b < off + n then Inl OutOfBounds
     else Inr (take n (drop off b) @ drop n b))"

definition grow :: "allocator \<Rightarrow> u32 \<Rightarrow> memchunk \<Rightarrow> memerr + memchunk" where
  "grow al target_datasize c =
    (if target_datasize > buffersize c then
       (if blocksize c = 0 then Inl DivByZero
        else let bs = (target_datasize div blocksize c + 1) * blocksize c in
          Inr (c\<lparr>buffersize := bs, buffer := zbf_realloc al (buffer c) bs\<rparr>))
     else Inr c)"

definition push :: "allocator \<Rightarrow> bytes option \<Rightarrow> u32 \<Rightarrow> memchunk \<Rightarrow> memerr + int \<times> memchunk" where
  "push al dat sz c =
    (case dat of
       None \<Rightarrow> Inr (-1, c)
     | Some d \<Rightarrow>
       if sz = 0 then Inr (-1, c)
       else let target_datasize = datasize c + sz in
         (case grow al target_datasize c of
            Inl e \<Rightarrow> Inl e
          | Inr c' \<Rightarrow>
            (case buffer c' of
               None \<Rightarrow> Inr (-2, c')
             | Some b \<Rightarrow>
               (case memcpy b (unat (datasize c')) d (unat sz) of
                  Inl e \<Rightarrow> Inl e
                | Inr b' \<Rightarrow>
                  Inr (sint target_datasize, c'\<lparr>buffer := Some b', datasize := target_datasize\<rparr>)))))"

text \<open>\<^verbatim>\<open>pop\<close> reaches the buffer only when it holds data; a null buffer there would be a fault.\<close>

definition pop :: "u32 \<Rightarrow> memchunk \<Rightarrow> memerr + int \<times> memchunk" where
  "pop sz c =
    (if sz > datasize c \<or> sz = 0 then Inr (-1, c)
     else (case buffer c of
       None \<Rightarrow> Inl OutOfBounds
     | Some b \<Rightarrow>
       (case (if sz = datasize c
              then (if length b < unat (datasize c) then Inl OutOfBounds
                    else Inr (replicate (unat (datasize c)) 0 @ drop (unat (datasize c)) b))
              else memmove_down b (unat sz) (unat (datasize c - sz))) of
          Inl e \<Rightarrow> Inl e
        | Inr b' \<Rightarrow> Inr (sint (datasize c - sz), c\<lparr>buffer := Some b', datasize := datasize c - sz\<rparr>))))"

section \<open>Invariant and abstraction\<close>

definition chunk_inv :: "memchunk \<Rightarrow> bool" where
  "chunk_inv c \<longleftrightarrow> 0 < blocksize c \<and> datasize c \<le> buffersize c \<and>
    (\<forall>b. buffer c = Some b \<longrightarrow> length b = unat (buffersize c))"

definition contents :: "memchunk \<Rightarrow> bytes" where
  "contents c = (case buffer c of None \<Rightarrow> [] | Some b \<Rightarrow> take (unat (datasize c)) b)"

definition cache_ok :: "memchunk \<Rightarrow> bool" where
  "cache_ok c \<longleftrightarrow> chunk_inv c \<and> buffer c \<noteq> None"

lemma chunk_invI:
  "0 < blocksize c \<Longrightarrow> datasize c \<le> buffersize c \<Longrightarrow>
   (\<And>b. buffer c = Some b \<Longrightarrow> length b = unat (buffersize c)) \<Longrightarrow> chunk_inv c"
  by (simp add: chunk_inv_def)

lemma memchunk_new_inv: "0 < blksz \<Longrightarrow> chunk_inv (memchunk_new al blksz)"
  by (auto simp: chunk_inv_def memchunk_new_def zbf_malloc_def split: if_splits)

lemma memchunk_new_contents: "contents (memchunk_new al blksz) = []"
  by (simp add: contents_def memchunk_new_def split: option.split)

text \<open>The new capacity is the next multiple of the block size above the target.\<close>

lemma grow_size:
  fixes t b :: u32
  assumes "0 < b" and "unat t + unat b < 2 ^ 32"
  shows "unat ((t div b + 1) * b) = (unat t div unat b + 1) * unat b"
    and "unat t < unat ((t div b + 1) * b)"
proof -
  let ?q = "unat t div unat b"
  have b: "0 < unat b" using assms(1) by (simp add: word_gt_0 unat_gt_0)
  have le: "(?q + 1) * unat b \<le> unat t + unat b" by (simp add: algebra_simps)
  have "?q + 1 \<le> (?q + 1) * unat b" using b by (cases "unat b") simp_all
  then have q: "?q + 1 < 2 ^ 32" using le assms(2) by linarith
  have s: "unat (t div b + 1) = ?q + 1"
    using q by (subst unat_plus_if') (simp add: unat_div)
  show "unat ((t div b + 1) * b) = (?q + 1) * unat b"
    using le_less_trans [OF le assms(2)] by (subst unat_mult_lem [THEN iffD1]) (simp_all add: s)
  then show "unat t < unat ((t div b + 1) * b)"
    using b by (simp add: mult.commute) (metis div_mod_decomp add.commute mod_less_divisor mult.commute nat_add_left_cancel_less)
qed

lemma grow_ok:
  assumes "chunk_inv c" and "unat t + unat (blocksize c) < 2 ^ 32" and "\<And>n. alloc_ok al n"
    and "buffer c = Some b" and "datasize c \<le> t"
  shows "\<exists>c' b'. grow al t c = Inr c' \<and> buffer c' = Some b' \<and> length b' = unat (buffersize c') \<and>
    t \<le> buffersize c' \<and> datasize c' = datasize c \<and> blocksize c' = blocksize c \<and>
    take (unat (datasize c)) b' = take (unat (datasize c)) b"
proof (cases "t > buffersize c")
  case False
  with assms show ?thesis by (auto simp: grow_def chunk_inv_def not_less)
next
  case True
  let ?bs = "(t div blocksize c + 1) * blocksize c"
  have bc: "0 < blocksize c" "length b = unat (buffersize c)" "unat (datasize c) \<le> unat (buffersize c)"
    using assms(1,4) by (auto simp: chunk_inv_def word_le_nat_alt)
  have lt: "unat t < unat ?bs" by (rule grow_size(2) [OF bc(1) assms(2)])
  moreover have "unat (buffersize c) < unat t" using True by (simp add: word_less_nat_alt)
  ultimately show ?thesis
    using True bc assms(3,4) by (simp add: grow_def Let_def zbf_realloc_def word_le_nat_alt)
qed

lemma memcpy_ok:
  "length d = n \<Longrightarrow> off + n \<le> length b \<Longrightarrow> memcpy b off d n = Inr (take off b @ d @ drop (off + n) b)"
  by (simp add: memcpy_def)

lemma cache_okE:
  assumes "cache_ok c"
  obtains b where "buffer c = Some b" "length b = unat (buffersize c)" "unat (datasize c) \<le> length b"
    "contents c = take (unat (datasize c)) b" "length (contents c) = unat (datasize c)"
  using assms by (auto simp: cache_ok_def chunk_inv_def contents_def word_le_nat_alt)

lemma length_contents: "cache_ok c \<Longrightarrow> length (contents c) = unat (datasize c)"
  by (erule cache_okE)

lemma memchunk_new_ok: "0 < blksz \<Longrightarrow> alloc_ok al blksz \<Longrightarrow> cache_ok (memchunk_new al blksz)"
  using memchunk_new_inv [of blksz al] by (simp add: cache_ok_def memchunk_new_def zbf_malloc_def)

section \<open>Refinement of a byte queue\<close>

lemma push_ok:
  assumes "cache_ok c" and "d \<noteq> []" and "\<And>n. alloc_ok al n"
    and "unat (datasize c) + length d + unat (blocksize c) < 2 ^ 32"
  shows "\<exists>c'. push al (Some d) (of_nat (length d)) c = Inr (sint (datasize c'), c') \<and> cache_ok c' \<and>
    contents c' = contents c @ d \<and> blocksize c' = blocksize c"
proof -
  let ?t = "datasize c + of_nat (length d)"
  obtain b where b: "buffer c = Some b" using assms(1) by (auto simp: cache_ok_def)
  have inv: "chunk_inv c" using assms(1) by (simp add: cache_ok_def)
  have n: "unat (of_nat (length d) :: u32) = length d" using assms(4) by simp
  have t: "unat ?t = unat (datasize c) + length d"
    using assms(4) by (subst unat_plus_if') (simp add: n)
  obtain c' b' where g: "grow al ?t c = Inr c'" "buffer c' = Some b'" "length b' = unat (buffersize c')"
      "?t \<le> buffersize c'" "datasize c' = datasize c" "blocksize c' = blocksize c"
      "take (unat (datasize c)) b' = take (unat (datasize c)) b"
    using grow_ok [OF inv _ assms(3) b, of ?t] assms(4) t by (auto simp: word_le_nat_alt)
  let ?b = "take (unat (datasize c)) b' @ d @ drop (unat (datasize c) + length d) b'"
  have len: "unat (datasize c) + length d \<le> length b'"
    using g(3,4) t by (simp add: word_le_nat_alt)
  have sz: "of_nat (length d) \<noteq> (0 :: u32)" using n assms(2) by (auto simp flip: unat_eq_0)
  have "push al (Some d) (of_nat (length d)) c =
      Inr (sint ?t, c'\<lparr>buffer := Some ?b, datasize := ?t\<rparr>)"
    by (simp add: push_def sz g n memcpy_ok [OF refl len] Let_def)
  moreover have "chunk_inv (c'\<lparr>buffer := Some ?b, datasize := ?t\<rparr>)"
    using inv g(3,4,6) len by (intro chunk_invI) (auto simp: chunk_inv_def)
  moreover have "contents (c'\<lparr>buffer := Some ?b, datasize := ?t\<rparr>) = contents c @ d"
    using len by (simp add: contents_def b t g(7) [symmetric] min_absorb2)
  ultimately show ?thesis by (auto simp: g(6) cache_ok_def)
qed

lemma pop_ok:
  assumes "cache_ok c" and "n \<le> datasize c" and "n \<noteq> 0"
  shows "\<exists>c'. pop n c = Inr (sint (datasize c'), c') \<and> cache_ok c' \<and>
    contents c' = drop (unat n) (contents c) \<and> blocksize c' = blocksize c"
proof -
  obtain b where b: "buffer c = Some b" "unat (datasize c) \<le> length b" "length b = unat (buffersize c)"
    using assms(1) by (rule cache_okE)
  let ?m = "unat (datasize c - n)"
  let ?c = "\<lambda>b'. c\<lparr>buffer := Some b', datasize := datasize c - n\<rparr>"
  have le: "unat n \<le> unat (datasize c)" using assms(2) by (simp add: word_le_nat_alt)
  have sub: "?m = unat (datasize c) - unat n" using assms(2) by (simp add: unat_sub)
  have "\<exists>b'. pop n c = Inr (sint (datasize c - n), ?c b') \<and>
      length b' = length b \<and> take ?m b' = drop (unat n) (take (unat (datasize c)) b)"
  proof (cases "n = datasize c")
    case True
    with b assms(3) show ?thesis
      by (intro exI [of _ "replicate (unat (datasize c)) 0 @ drop (unat (datasize c)) b"])
        (simp add: pop_def)
  next
    case False
    with b assms le show ?thesis
      by (intro exI [of _ "take ?m (drop (unat n) b) @ drop ?m b"])
        (auto simp: pop_def memmove_down_def sub drop_take)
  qed
  then obtain b' where b': "pop n c = Inr (sint (datasize c - n), ?c b')"
      "length b' = length b" "take ?m b' = drop (unat n) (take (unat (datasize c)) b)"
    by blast
  moreover have "datasize c - n \<le> buffersize c"
    using b(2,3) sub by (simp add: word_le_nat_alt)
  ultimately show ?thesis
    using assms(1) b by (intro exI [of _ "?c b'"]) (auto simp: cache_ok_def chunk_inv_def contents_def)
qed

text \<open>pushing n bytes whose 32-bit total plus one block does not wrap succeeds, returns the new
  size, keeps the invariant and appends exactly those bytes to the contents.\<close>

theorem push_appends:
  assumes "chunk_inv c" and "buffer c \<noteq> None" and "d \<noteq> []" and "\<And>n. alloc_ok al n"
    and "unat (datasize c) + length d + unat (blocksize c) < 2 ^ 32"
  shows "\<exists>c'. push al (Some d) (of_nat (length d)) c = Inr (sint (datasize c'), c') \<and> chunk_inv c' \<and>
    buffer c' \<noteq> None \<and> contents c' = contents c @ d \<and> blocksize c' = blocksize c"
  using push_ok [of c d al] assms by (auto simp: cache_ok_def)

theorem push_appends_witness:
  "\<exists>c'. push \<lparr>alloc_ok = \<lambda>_. True, fresh = \<lambda>_. 205\<rparr> (Some [7, 8, 9]) (of_nat (length [7, 8, 9 :: byte]))
      \<lparr>buffer = Some [5, 6, 205, 205], buffersize = 4, datasize = 2, blocksize = 4\<rparr> =
      Inr (sint (datasize c'), c') \<and> chunk_inv c' \<and> buffer c' \<noteq> None \<and>
    contents c' = contents \<lparr>buffer = Some [5, 6, 205, 205], buffersize = 4, datasize = 2, blocksize = 4\<rparr>
      @ [7, 8, 9] \<and>
    blocksize c' = blocksize \<lparr>buffer = Some [5, 6, 205, 205], buffersize = 4, datasize = 2, blocksize = 4\<rparr>"
  by (rule push_appends) (simp_all add: chunk_inv_def)

text \<open>popping n bytes, with n positive and at most the number held, succeeds, returns the number
  of bytes left, keeps the invariant and drops exactly the first n bytes of the contents; any other
  n returns -1 and changes nothing.\<close>

theorem pop_drops:
  assumes "chunk_inv c" and "buffer c \<noteq> None"
  shows "\<exists>c'. pop sz c = Inr (if sz = 0 \<or> datasize c < sz then -1 else sint (datasize c'), c') \<and>
    chunk_inv c' \<and> buffer c' \<noteq> None \<and>
    contents c' = (if sz = 0 \<or> datasize c < sz then contents c else drop (unat sz) (contents c))"
proof (cases "sz = 0 \<or> datasize c < sz")
  case True
  with assms show ?thesis by (auto simp: pop_def)
next
  case False
  with pop_ok [of c sz] assms show ?thesis by (auto simp: cache_ok_def not_less)
qed

theorem pop_drops_witness:
  "\<exists>c'. pop 2 \<lparr>buffer = Some [5, 6, 7, 205], buffersize = 4, datasize = 3, blocksize = 4\<rparr> =
      Inr (if (2 :: u32) = 0 \<or> datasize \<lparr>buffer = Some [5, 6, 7, 205], buffersize = 4, datasize = 3, blocksize = 4\<rparr> < 2
        then -1 else sint (datasize c'), c') \<and>
    chunk_inv c' \<and> buffer c' \<noteq> None \<and>
    contents c' = (if (2 :: u32) = 0 \<or> datasize \<lparr>buffer = Some [5, 6, 7, 205], buffersize = 4, datasize = 3, blocksize = 4\<rparr> < 2
      then contents \<lparr>buffer = Some [5, 6, 7, 205], buffersize = 4, datasize = 3, blocksize = 4\<rparr>
      else drop (unat (2 :: u32)) (contents \<lparr>buffer = Some [5, 6, 7, 205], buffersize = 4, datasize = 3, blocksize = 4\<rparr>))"
  by (rule pop_drops) (simp_all add: chunk_inv_def)

text \<open>when the 32-bit sum of the stored size and the pushed size wraps, the capacity check is
  passed and the copy leaves the heap block.\<close>

theorem push_wraps_out_of_bounds:
  assumes "chunk_inv c" and "buffer c = Some b" and "length d = unat sz" and "sz \<noteq> 0"
    and "2 ^ 32 \<le> unat (datasize c) + unat sz"
  shows "push al (Some d) sz c = Inl OutOfBounds"
proof -
  have "unat (datasize c + sz) = unat (datasize c) + unat sz - 2 ^ 32"
    using assms(5) by (subst unat_plus_if') simp
  moreover have "unat sz < 2 ^ 32" by (rule unat_u32_less)
  ultimately have "\<not> datasize c + sz > buffersize c"
    using assms(1) by (auto simp: chunk_inv_def word_le_nat_alt not_less)
  moreover have "length b < unat (datasize c) + unat sz"
    using assms unat_u32_less [of "buffersize c"] by (simp add: chunk_inv_def)
  ultimately show ?thesis
    using assms(2,3,4) by (simp add: push_def grow_def memcpy_def)
qed

theorem push_wraps_out_of_bounds_witness:
  "push \<lparr>alloc_ok = \<lambda>_. True, fresh = \<lambda>_. 0\<rparr> (Some (replicate (unat (4294967295 :: u32)) 0)) 4294967295
     \<lparr>buffer = Some [1, 2], buffersize = 2, datasize = 2, blocksize = 2\<rparr> = Inl OutOfBounds"
  by (rule push_wraps_out_of_bounds [where b = "[1, 2]"]) (simp_all add: chunk_inv_def)

end
