(* ===== verification/OpensslUtils.thy ===== *)
theory OpensslUtils
  imports Memchunk
begin

text \<open>
  The cryptographic helpers of \<^verbatim>\<open>src/fszm/openssl_utils_v2.hpp\<close>: the symmetric ciphers with their zero
  padding, RSA, Diffie-Hellman over a prime field or an elliptic curve, base64 and hex.  OpenSSL itself is not part of
  the repository: it is the record \<open>openssl\<close> of functions that the definitions take as an argument, one
  field per library call, or per chain of calls whose failures the code treats alike.

  A cipher reads its key and its initial vector from a pointer, as many bytes as the algorithm wants: \<open>c_read\<close>
  is a read at \<^verbatim>\<open>c_str()\<close>, which may go one byte (the terminator) past the string's size and no further.
\<close>

datatype evp_mode = ECB | CBC | CFB | OFB | CTR

datatype evp_cipher = EVP_des evp_mode | EVP_des_ede3 evp_mode | EVP_camellia int evp_mode | EVP_aes int evp_mode

datatype eEncryptType =
    eET_DES_ECB | eET_DES_CBC | eET_DES_CFB | eET_DES_OFB
  | eET_3DES_ECB | eET_3DES_CBC | eET_3DES_CFB | eET_3DES_OFB
  | eET_CAMELLIA_ECB | eET_CAMELLIA_CBC | eET_CAMELLIA_CFB | eET_CAMELLIA_OFB | eET_CAMELLIA_CTR
  | eET_AES_ECB | eET_AES_CBC | eET_AES_CFB | eET_AES_OFB | eET_AES_CTR
  | eET_RSA_PUBLIC_ENC | eET_RSA_PRIVATE_DEC | eET_RSA_PRIVATE_ENC | eET_RSA_PUBLIC_DEC
  | eET_VALUE nat

text \<open>\<open>eET_VALUE n\<close> is the value \<open>n\<close> places after the last enumerator, which a cast of an integer can give.\<close>

definition eET_list :: "eEncryptType list" where
  "eET_list =
    [eET_DES_ECB, eET_DES_CBC, eET_DES_CFB, eET_DES_OFB, eET_3DES_ECB, eET_3DES_CBC, eET_3DES_CFB, eET_3DES_OFB,
     eET_CAMELLIA_ECB, eET_CAMELLIA_CBC, eET_CAMELLIA_CFB, eET_CAMELLIA_OFB, eET_CAMELLIA_CTR,
     eET_AES_ECB, eET_AES_CBC, eET_AES_CFB, eET_AES_OFB, eET_AES_CTR,
     eET_RSA_PUBLIC_ENC, eET_RSA_PRIVATE_DEC, eET_RSA_PRIVATE_ENC, eET_RSA_PUBLIC_DEC]"

definition eET_of_nat :: "nat \<Rightarrow> eEncryptType" where
  "eET_of_nat n = (if n < length eET_list then eET_list ! n else eET_VALUE (n - length eET_list))"

fun eET_to_nat :: "eEncryptType \<Rightarrow> nat" where
  "eET_to_nat (eET_VALUE n) = length eET_list + n"
| "eET_to_nat t = length (takeWhile (\<lambda>x. x \<noteq> t) eET_list)"

type_synonym pkey = nat

record openssl =
  o_alloc :: "u32 \<Rightarrow> bool"
  o_ctx :: "nat \<Rightarrow> bool"
  o_block_size :: "evp_cipher \<Rightarrow> nat"
  o_key_length :: "evp_cipher \<Rightarrow> nat"
  o_iv_length :: "evp_cipher \<Rightarrow> nat"
  o_init :: "bool \<Rightarrow> bool \<Rightarrow> evp_cipher \<Rightarrow> bytes \<Rightarrow> bytes option \<Rightarrow> bool"
  o_update :: "bool \<Rightarrow> evp_cipher \<Rightarrow> bytes \<Rightarrow> bytes option \<Rightarrow> bytes \<Rightarrow> bytes option"
  o_final :: "bool \<Rightarrow> evp_cipher \<Rightarrow> bytes \<Rightarrow> bytes option \<Rightarrow> bytes \<Rightarrow> bytes option"
  o_pkey_size :: "pkey \<Rightarrow> int"
  o_pkey_op :: "eEncryptType \<Rightarrow> pkey \<Rightarrow> bytes \<Rightarrow> (nat \<times> bytes option) option"
  o_dh_paramgen :: "int \<Rightarrow> nat \<Rightarrow> pkey option"
  o_param_check :: "pkey \<Rightarrow> bool"
  o_dh_fromdata :: "bytes \<Rightarrow> bytes \<Rightarrow> bytes option \<Rightarrow> pkey option"
  o_keygen :: "pkey \<Rightarrow> nat \<Rightarrow> pkey option"
  o_public_check :: "pkey \<Rightarrow> bool"
  o_bn_param :: "pkey \<Rightarrow> string \<Rightarrow> bytes option"
  o_ec_keygen :: "int \<Rightarrow> nat \<Rightarrow> pkey option"
  o_octet_pub :: "pkey \<Rightarrow> bytes option"
  o_ec_fromdata :: "int \<Rightarrow> bytes \<Rightarrow> pkey option"
  o_derive :: "pkey \<Rightarrow> pkey \<Rightarrow> bytes option"
  o_EncodeBlock :: "bytes \<Rightarrow> bytes"
  o_DecodeBlock :: "bytes \<Rightarrow> bytes option"

definition c_read :: "nat \<Rightarrow> bytes \<Rightarrow> memerr + bytes" where
  "c_read n s = (if n \<le> length s + 1 then Inr (take n (s @ [0])) else Inl OutOfBounds)"

definition evp_out_len :: "nat \<Rightarrow> u32 \<Rightarrow> u32" where
  "evp_out_len block_size in_len =
    (if block_size > 1 then ((in_len + of_nat block_size - 1) div of_nat block_size) * of_nat block_size else in_len)"

text \<open>Two chances to initialise: when the first fails, the legacy provider is loaded and a new context made.\<close>

definition evp_init :: "openssl \<Rightarrow> bool \<Rightarrow> evp_cipher \<Rightarrow> bytes \<Rightarrow> bytes option \<Rightarrow> int" where
  "evp_init ssl enc cipher k iv =
    (if o_init ssl False enc cipher k iv then 1
     else if \<not> o_ctx ssl 1 then -100
     else if o_init ssl True enc cipher k iv then 1 else 0)"

definition evp_cipher_op ::
  "openssl \<Rightarrow> evp_cipher \<Rightarrow> bytes \<Rightarrow> bytes \<Rightarrow> bytes option \<Rightarrow> bool \<Rightarrow> memerr + int \<times> bytes" where
  "evp_cipher_op ssl cipher in_data in_key in_ivec enc =
    (let in_len = of_nat (length in_data) :: u32; bs = o_block_size ssl cipher;
         out_len = evp_out_len bs in_len; padding = (bs > 1 \<and> out_len > in_len) in
     if \<not> o_alloc ssl out_len then Inr (-100, [])
     else if \<not> o_ctx ssl 0 then Inr (-100, [])
     else
       let input = (if padding then take (unat in_len) in_data @ replicate (unat out_len - unat in_len) 0
                    else take (unat out_len) in_data) in
       case c_read (o_key_length ssl cipher) in_key of Inl e \<Rightarrow> Inl e
       | Inr k \<Rightarrow>
       (case (case in_ivec of None \<Rightarrow> Inr None | Some v \<Rightarrow> map_sum id Some (c_read (o_iv_length ssl cipher) v)) of Inl e \<Rightarrow> Inl e
       | Inr iv \<Rightarrow>
         let rc = evp_init ssl enc cipher k iv in
         if rc = -100 then Inr (-100, [])
         else if rc \<noteq> 1 then Inr (-1, [])
         else (case o_update ssl enc cipher k iv input of None \<Rightarrow> Inr (-1, [])
           | Some w \<Rightarrow>
             (case o_final ssl enc cipher k iv input of None \<Rightarrow> Inr (-1, [])
              | Some f \<Rightarrow> if unat out_len < length w + length f then Inl OutOfBounds
                  else Inr (0, w @ f @ replicate (unat out_len - length w - length f) 0)))))"

section \<open>One function per algorithm and mode\<close>

definition des_encrypt_ecb where
  "des_encrypt_ecb ssl d k enc = evp_cipher_op ssl (EVP_des ECB) d k None enc"
definition des_encrypt_cbc where
  "des_encrypt_cbc ssl d k iv enc = evp_cipher_op ssl (EVP_des CBC) d k (Some iv) enc"
definition des_encrypt_cfb where
  "des_encrypt_cfb ssl d k iv enc = evp_cipher_op ssl (EVP_des CFB) d k (Some iv) enc"
definition des_encrypt_ofb where
  "des_encrypt_ofb ssl d k iv = evp_cipher_op ssl (EVP_des OFB) d k (Some iv) True"
definition des_encrypt_ecb3 where
  "des_encrypt_ecb3 ssl d k enc = evp_cipher_op ssl (EVP_des_ede3 ECB) d k None enc"
definition des_encrypt_cbc3 where
  "des_encrypt_cbc3 ssl d k iv enc = evp_cipher_op ssl (EVP_des_ede3 CBC) d k (Some iv) enc"
definition des_encrypt_cfb3 where
  "des_encrypt_cfb3 ssl d k iv enc = evp_cipher_op ssl (EVP_des_ede3 CFB) d k (Some iv) enc"
definition des_encrypt_ofb3 where
  "des_encrypt_ofb3 ssl d k iv = evp_cipher_op ssl (EVP_des_ede3 OFB) d k (Some iv) True"

definition good_bits :: "int \<Rightarrow> bool" where
  "good_bits bits \<longleftrightarrow> bits = 128 \<or> bits = 192 \<or> bits = 256"

definition camellia_encrypt_ecb where
  "camellia_encrypt_ecb ssl d k bits enc =
    (if good_bits bits then evp_cipher_op ssl (EVP_camellia bits ECB) d k None enc else Inr (-1, []))"
definition camellia_encrypt_cbc where
  "camellia_encrypt_cbc ssl d k bits iv enc =
    (if good_bits bits then evp_cipher_op ssl (EVP_camellia bits CBC) d k (Some iv) enc else Inr (-1, []))"
definition camellia_encrypt_cfb where
  "camellia_encrypt_cfb ssl d k bits iv enc =
    (if good_bits bits then evp_cipher_op ssl (EVP_camellia bits CFB) d k (Some iv) enc else Inr (-1, []))"
definition camellia_encrypt_ofb where
  "camellia_encrypt_ofb ssl d k bits iv =
    (if good_bits bits then evp_cipher_op ssl (EVP_camellia bits OFB) d k (Some iv) True else Inr (-1, []))"
definition camellia_encrypt_ctr where
  "camellia_encrypt_ctr ssl d k bits iv =
    (if good_bits bits then evp_cipher_op ssl (EVP_camellia bits CTR) d k (Some iv) True else Inr (-1, []))"

definition aes_encrypt_ecb where
  "aes_encrypt_ecb ssl d k bits enc =
    (if good_bits bits then evp_cipher_op ssl (EVP_aes bits ECB) d k None enc else Inr (-1, []))"
definition aes_encrypt_cbc where
  "aes_encrypt_cbc ssl d k bits iv enc =
    (if good_bits bits then evp_cipher_op ssl (EVP_aes bits CBC) d k (Some iv) enc else Inr (-1, []))"
definition aes_encrypt_cfb where
  "aes_encrypt_cfb ssl d k bits iv enc =
    (if good_bits bits then evp_cipher_op ssl (EVP_aes bits CFB) d k (Some iv) enc else Inr (-1, []))"
definition aes_encrypt_ofb where
  "aes_encrypt_ofb ssl d k bits iv =
    (if good_bits bits then evp_cipher_op ssl (EVP_aes bits OFB) d k (Some iv) True else Inr (-1, []))"
definition aes_encrypt_ctr where
  "aes_encrypt_ctr ssl d k bits iv =
    (if good_bits bits then evp_cipher_op ssl (EVP_aes bits CTR) d k (Some iv) True else Inr (-1, []))"

text \<open>\<^verbatim>\<open>out_str\<close> is assigned only when the code is 0: the result is \<open>Some\<close> then.\<close>

definition symmetric_encrypt ::
  "openssl \<Rightarrow> bytes \<Rightarrow> bytes \<Rightarrow> bytes \<Rightarrow> eEncryptType \<Rightarrow> bool \<Rightarrow> memerr + int \<times> bytes option" where
  "symmetric_encrypt ssl s k iv t enc =
    (if length k < 8 \<or> length iv < 8 then Inr (-1, None)
     else if (t = eET_3DES_ECB \<or> t = eET_3DES_CBC) \<and> length k < 3 * 8 then Inr (-1, None)
     else map_sum id (\<lambda>(rc, out). (rc, if rc = 0 then Some out else None))
      (case t of
         eET_AES_ECB \<Rightarrow> aes_encrypt_ecb ssl s k 128 enc
       | eET_AES_CBC \<Rightarrow> aes_encrypt_cbc ssl s k 128 iv enc
       | eET_AES_CFB \<Rightarrow> aes_encrypt_cfb ssl s k 128 iv enc
       | eET_AES_OFB \<Rightarrow> aes_encrypt_ofb ssl s k 128 iv
       | eET_AES_CTR \<Rightarrow> aes_encrypt_ctr ssl s k 128 iv
       | eET_CAMELLIA_ECB \<Rightarrow> camellia_encrypt_ecb ssl s k 128 enc
       | eET_CAMELLIA_CBC \<Rightarrow> camellia_encrypt_cbc ssl s k 128 iv enc
       | eET_CAMELLIA_CFB \<Rightarrow> camellia_encrypt_cfb ssl s k 128 iv enc
       | eET_CAMELLIA_OFB \<Rightarrow> camellia_encrypt_ofb ssl s k 128 iv
       | eET_CAMELLIA_CTR \<Rightarrow> camellia_encrypt_ctr ssl s k 128 iv
       | eET_3DES_ECB \<Rightarrow> des_encrypt_ecb3 ssl s k enc
       | eET_3DES_CBC \<Rightarrow> des_encrypt_cbc3 ssl s k iv enc
       | eET_3DES_CFB \<Rightarrow> des_encrypt_cfb3 ssl s k iv enc
       | eET_3DES_OFB \<Rightarrow> des_encrypt_ofb3 ssl s k iv
       | eET_DES_ECB \<Rightarrow> des_encrypt_ecb ssl s k enc
       | eET_DES_CBC \<Rightarrow> des_encrypt_cbc ssl s k iv enc
       | eET_DES_CFB \<Rightarrow> des_encrypt_cfb ssl s k iv enc
       | eET_DES_OFB \<Rightarrow> des_encrypt_ofb ssl s k iv
       | _ \<Rightarrow> Inr (-1, [])))"

section \<open>RSA and key exchange\<close>

text \<open>The outer \<open>None\<close>: no context, no initialisation or no size; the size is allocated, the inner value is the output.\<close>

definition pkey_op :: "openssl \<Rightarrow> eEncryptType \<Rightarrow> pkey \<Rightarrow> bytes \<Rightarrow> int \<times> bytes" where
  "pkey_op ssl t key d =
    (case o_pkey_op ssl t key d of None \<Rightarrow> (-1, [])
     | Some (outlen, r) \<Rightarrow>
       if \<not> o_alloc ssl (of_nat outlen) then (-100, [])
       else (case r of None \<Rightarrow> (-1, []) | Some out \<Rightarrow> (int (length out), out)))"

definition rsa_encrypt :: "openssl \<Rightarrow> bytes \<Rightarrow> pkey option \<Rightarrow> eEncryptType \<Rightarrow> int \<times> bytes" where
  "rsa_encrypt ssl d in_key t =
    (case in_key of None \<Rightarrow> (-1, [])
     | Some key \<Rightarrow>
       if t \<in> {eET_RSA_PUBLIC_ENC, eET_RSA_PRIVATE_DEC, eET_RSA_PRIVATE_ENC, eET_RSA_PUBLIC_DEC}
       then pkey_op ssl t key d else (-1, []))"

definition dh_keygen_from_params :: "openssl \<Rightarrow> nat \<Rightarrow> pkey option \<Rightarrow> pkey option" where
  "dh_keygen_from_params ssl rnd params =
    (case params of None \<Rightarrow> None
     | Some p \<Rightarrow> (case o_keygen ssl p rnd of None \<Rightarrow> None | Some key \<Rightarrow> if o_public_check ssl key then Some key else None))"

definition dh_generate :: "openssl \<Rightarrow> nat \<Rightarrow> int \<Rightarrow> pkey option" where
  "dh_generate ssl rnd prime_len =
    (case o_dh_paramgen ssl prime_len rnd of None \<Rightarrow> None
     | Some params \<Rightarrow> if o_param_check ssl params then dh_keygen_from_params ssl rnd (Some params) else None)"

definition dh_create_params :: "openssl \<Rightarrow> bytes \<Rightarrow> bytes \<Rightarrow> pkey option" where
  "dh_create_params ssl p g =
    (case o_dh_fromdata ssl p g None of None \<Rightarrow> None | Some dh \<Rightarrow> if o_param_check ssl dh then Some dh else None)"

definition dh_generate_from :: "openssl \<Rightarrow> nat \<Rightarrow> bytes \<Rightarrow> bytes \<Rightarrow> pkey option" where
  "dh_generate_from ssl rnd p g =
    (if p = [] \<or> g = [] then None
     else (case dh_create_params ssl p g of None \<Rightarrow> None | Some params \<Rightarrow> dh_keygen_from_params ssl rnd (Some params)))"

definition dh_export :: "openssl \<Rightarrow> pkey option \<Rightarrow> string \<Rightarrow> bytes" where
  "dh_export ssl key name =
    (case key of None \<Rightarrow> [] | Some k \<Rightarrow> (case o_bn_param ssl k name of None \<Rightarrow> [] | Some out \<Rightarrow> out))"

text \<open>A derived key longer than the caller's buffer is refused.\<close>

definition pkey_derive_shared :: "openssl \<Rightarrow> pkey \<Rightarrow> pkey \<Rightarrow> int \<Rightarrow> int \<times> bytes" where
  "pkey_derive_shared ssl own peer len =
    (case o_derive ssl own peer of None \<Rightarrow> (-1, [])
     | Some out \<Rightarrow> if int (length out) \<le> len then (int (length out), out) else (-1, []))"

definition dh_compute_sharekey :: "openssl \<Rightarrow> pkey option \<Rightarrow> bytes \<Rightarrow> int \<Rightarrow> int \<times> bytes" where
  "dh_compute_sharekey ssl dh peer_pub len =
    (case dh of None \<Rightarrow> (-1, [])
     | Some d \<Rightarrow>
       if peer_pub = [] then (-1, [])
       else (case (o_bn_param ssl d ''p'', o_bn_param ssl d ''g'') of
           (Some p, Some g) \<Rightarrow>
             (case o_dh_fromdata ssl p g (Some peer_pub) of None \<Rightarrow> (-1, []) | Some peer \<Rightarrow> pkey_derive_shared ssl d peer len)
         | _ \<Rightarrow> (-1, [])))"

definition ecc_create :: "openssl \<Rightarrow> nat \<Rightarrow> int \<Rightarrow> int \<times> pkey option" where
  "ecc_create ssl rnd curve_nid =
    (case o_ec_keygen ssl curve_nid rnd of None \<Rightarrow> (-1, None) | Some key \<Rightarrow> (1, Some key))"

definition ecc_export_pubkey :: "openssl \<Rightarrow> pkey option \<Rightarrow> bytes" where
  "ecc_export_pubkey ssl key =
    (case key of None \<Rightarrow> [] | Some k \<Rightarrow> (case o_octet_pub ssl k of None \<Rightarrow> [] | Some out \<Rightarrow> out))"

definition ecc_import_pubkey :: "openssl \<Rightarrow> int \<Rightarrow> bytes \<Rightarrow> pkey option" where
  "ecc_import_pubkey ssl curve_nid pub = (if pub = [] then None else o_ec_fromdata ssl curve_nid pub)"

definition ecc_compute_sharekey :: "openssl \<Rightarrow> pkey option \<Rightarrow> int \<Rightarrow> bytes \<Rightarrow> int \<Rightarrow> int \<times> bytes" where
  "ecc_compute_sharekey ssl key curve_nid peer_pub len =
    (case key of None \<Rightarrow> (-1, [])
     | Some k \<Rightarrow>
       if peer_pub = [] then (-1, [])
       else (case ecc_import_pubkey ssl curve_nid peer_pub of None \<Rightarrow> (-1, [])
         | Some peer \<Rightarrow> pkey_derive_shared ssl k peer len))"

section \<open>Text encodings\<close>

definition hex_digit :: "bool \<Rightarrow> nat \<Rightarrow> byte" where
  "hex_digit upper d = of_nat (if d < 10 then 48 + d else (if upper then 55 else 87) + d)"

definition hex2string :: "bytes \<Rightarrow> bool \<Rightarrow> bytes" where
  "hex2string d upper = concat (map (\<lambda>b. [hex_digit upper (unat b div 16), hex_digit upper (unat b mod 16)]) d)"

definition base64_encode :: "openssl \<Rightarrow> bytes \<Rightarrow> bytes" where
  "base64_encode ssl input =
    (if input = [] then []
     else let out = o_EncodeBlock ssl input in
       if out \<noteq> [] \<and> last out = 10 then butlast out else out)"

text \<open>
  \<^verbatim>\<open>EVP_DecodeBlock\<close> returns -1 for a malformed input; \<^verbatim>\<open>resize\<close> with a negative number converts it to a
  huge \<^verbatim>\<open>size_t\<close> and throws \<^verbatim>\<open>std::length_error\<close>.
\<close>

definition b64_padding :: "bytes \<Rightarrow> nat" where
  "b64_padding input = (if last input = 61 then 1 else 0) +
    (if 2 \<le> length input \<and> input ! (length input - 2) = 61 then 1 else 0)"

definition base64_decode :: "openssl \<Rightarrow> bytes \<Rightarrow> std_exception + bytes" where
  "base64_decode ssl input =
    (if input = [] then Inr []
     else let padding = b64_padding input; r = o_DecodeBlock ssl input;
              len = (case r of None \<Rightarrow> -1 | Some out \<Rightarrow> int (length out)) in
       if len - int padding < 0 then Inl length_error
       else Inr (take (nat (len - int padding)) (the r)))"

section \<open>What is relied on of OpenSSL, and the padding\<close>

fun mode_of :: "evp_cipher \<Rightarrow> evp_mode" where
  "mode_of (EVP_des m) = m"
| "mode_of (EVP_des_ede3 m) = m"
| "mode_of (EVP_camellia bits m) = m"
| "mode_of (EVP_aes bits m) = m"

fun sym_cipher :: "eEncryptType \<Rightarrow> evp_cipher option" where
  "sym_cipher eET_DES_ECB = Some (EVP_des ECB)"
| "sym_cipher eET_DES_CBC = Some (EVP_des CBC)"
| "sym_cipher eET_DES_CFB = Some (EVP_des CFB)"
| "sym_cipher eET_DES_OFB = Some (EVP_des OFB)"
| "sym_cipher eET_3DES_ECB = Some (EVP_des_ede3 ECB)"
| "sym_cipher eET_3DES_CBC = Some (EVP_des_ede3 CBC)"
| "sym_cipher eET_3DES_CFB = Some (EVP_des_ede3 CFB)"
| "sym_cipher eET_3DES_OFB = Some (EVP_des_ede3 OFB)"
| "sym_cipher eET_CAMELLIA_ECB = Some (EVP_camellia 128 ECB)"
| "sym_cipher eET_CAMELLIA_CBC = Some (EVP_camellia 128 CBC)"
| "sym_cipher eET_CAMELLIA_CFB = Some (EVP_camellia 128 CFB)"
| "sym_cipher eET_CAMELLIA_OFB = Some (EVP_camellia 128 OFB)"
| "sym_cipher eET_CAMELLIA_CTR = Some (EVP_camellia 128 CTR)"
| "sym_cipher eET_AES_ECB = Some (EVP_aes 128 ECB)"
| "sym_cipher eET_AES_CBC = Some (EVP_aes 128 CBC)"
| "sym_cipher eET_AES_CFB = Some (EVP_aes 128 CFB)"
| "sym_cipher eET_AES_OFB = Some (EVP_aes 128 OFB)"
| "sym_cipher eET_AES_CTR = Some (EVP_aes 128 CTR)"
| "sym_cipher t = None"

definition zero_pad :: "nat \<Rightarrow> bytes \<Rightarrow> bytes" where
  "zero_pad bs s = s @ replicate ((length s + bs - 1) div bs * bs - length s) 0"

text \<open>
  The documented behaviour of a cipher, when memory and contexts can be had.  Initialised with a key of its size, and, except in ECB
  mode, a vector of its size, it maps whole blocks to as many bytes and back; in the two keystream
  modes encryption is its own inverse.  The length is an \<^verbatim>\<open>int\<close> of the library.  For a cipher with blocks the code
  switches padding off, so that the final step adds nothing and fails when a partial block is left.
\<close>

definition iv_fits :: "openssl \<Rightarrow> evp_cipher \<Rightarrow> bytes option \<Rightarrow> bool" where
  "iv_fits ssl c iv \<longleftrightarrow> (case iv of None \<Rightarrow> mode_of c = ECB | Some v \<Rightarrow> length v = o_iv_length ssl c)"

definition evp_laws :: "openssl \<Rightarrow> evp_cipher \<Rightarrow> bool" where
  "evp_laws ssl c \<longleftrightarrow> (\<forall>n. o_alloc ssl n) \<and> o_ctx ssl 0 \<and> o_ctx ssl 1 \<and>
    0 < o_block_size ssl c \<and> o_block_size ssl c \<le> 32 \<and>
    (\<forall>k iv. length k = o_key_length ssl c \<and> iv_fits ssl c iv \<longrightarrow>
      (\<forall>enc. o_init ssl False enc c k iv \<or> o_init ssl True enc c k iv) \<and>
      (\<forall>enc x. o_final ssl enc c k iv x = (if o_block_size ssl c dvd length x then Some [] else None)) \<and>
      (\<forall>x. o_block_size ssl c dvd length x \<and> length x < 2 ^ 31 \<longrightarrow>
        (\<exists>y. o_update ssl True c k iv x = Some y \<and> length y = length x \<and>
          o_update ssl (mode_of c = OFB \<or> mode_of c = CTR) c k iv y = Some x)))"

definition key_ok :: "openssl \<Rightarrow> eEncryptType \<Rightarrow> evp_cipher \<Rightarrow> bytes \<Rightarrow> bytes \<Rightarrow> bool" where
  "key_ok ssl t c k iv \<longleftrightarrow> 8 \<le> length k \<and> 8 \<le> length iv \<and> o_key_length ssl c \<le> length k \<and> o_iv_length ssl c \<le> length iv \<and>
    (t = eET_3DES_ECB \<or> t = eET_3DES_CBC \<longrightarrow> 24 \<le> length k)"

lemma round_up_bounds:
  assumes "0 < (bs :: nat)"
  shows "n \<le> (n + bs - 1) div bs * bs" and "(n + bs - 1) div bs * bs < n + bs"
proof -
  have "(n + bs - 1) div bs * bs + (n + bs - 1) mod bs = n + bs - 1" by simp
  moreover have "(n + bs - 1) mod bs < bs" using assms by simp
  ultimately show "n \<le> (n + bs - 1) div bs * bs" and "(n + bs - 1) div bs * bs < n + bs" using assms by linarith+
qed

lemma unat_evp_out_len:
  assumes "0 < bs" and "bs \<le> 32" and "n < 2 ^ 31 + 32"
  shows "unat (evp_out_len bs (of_nat n)) = (n + bs - 1) div bs * bs"
proof (cases "bs > 1")
  case True
  let ?q = "(n + bs - 1) div bs"
  have b: "?q * bs < 2 ^ 32" using round_up_bounds(2) [OF assms(1), of n] assms(2,3) by simp
  have e: "(of_nat n + of_nat bs - 1 :: u32) = of_nat (n + bs - 1)" using assms(1) by (simp add: of_nat_diff)
  have "unat (of_nat (n + bs - 1) :: u32) = n + bs - 1" "unat (of_nat bs :: u32) = bs"
    using assms by (intro unat_of_nat_u32; simp)+
  then have "(of_nat n + of_nat bs - 1 :: u32) div of_nat bs = of_nat ?q"
    unfolding e word_arith_nat_div by simp
  then have "evp_out_len bs (of_nat n) = of_nat (?q * bs)" using True by (simp add: evp_out_len_def)
  then show ?thesis using unat_of_nat_u32 [OF b] by simp
next
  case False
  then have "bs = 1" using assms(1) by simp
  then show ?thesis using assms(3) by (simp add: evp_out_len_def)
qed

lemma length_zero_pad: "0 < bs \<Longrightarrow> length (zero_pad bs s) = (length s + bs - 1) div bs * bs"
  using round_up_bounds(1) [of bs "length s"] by (simp add: zero_pad_def)

lemma zero_pad_whole: "0 < bs \<Longrightarrow> bs dvd length s \<Longrightarrow> zero_pad bs s = s"
proof -
  assume bs: "0 < bs" and "bs dvd length s"
  then obtain j where j: "length s = bs * j" by (auto elim: dvdE)
  have "(bs - 1 + j * bs) div bs = j + (bs - 1) div bs" using bs by (intro div_mult_self1) simp
  moreover have "bs * j + bs - 1 = bs - 1 + j * bs" using bs by (simp add: mult.commute)
  ultimately show ?thesis using bs by (simp add: zero_pad_def j mult.commute)
qed

lemma evp_cipher_op_ok:
  assumes "evp_laws ssl c" and "length s < 2 ^ 31 + 32"
    and "o_key_length ssl c \<le> length k" and "case iv of None \<Rightarrow> mode_of c = ECB | Some v \<Rightarrow> o_iv_length ssl c \<le> length v"
    and "o_update ssl enc c (take (o_key_length ssl c) k) (map_option (take (o_iv_length ssl c)) iv)
      (zero_pad (o_block_size ssl c) s) = Some w" and "length w = length (zero_pad (o_block_size ssl c) s)"
  shows "evp_cipher_op ssl c s k iv enc = Inr (0, w)"
proof -
  let ?bs = "o_block_size ssl c" and ?n = "length s"
  have bs: "0 < ?bs" "?bs \<le> 32" using assms(1) by (simp_all add: evp_laws_def)
  have out: "unat (evp_out_len ?bs (of_nat ?n)) = length (zero_pad ?bs s)"
    using unat_evp_out_len [OF bs assms(2)] length_zero_pad [OF bs(1)] by simp
  have inl: "unat (of_nat ?n :: u32) = ?n" using assms(2) by simp
  have input: "(if ?bs > 1 \<and> evp_out_len ?bs (of_nat ?n) > (of_nat ?n :: u32)
      then take ?n s @ replicate (length (zero_pad ?bs s) - ?n) 0 else take (length (zero_pad ?bs s)) s) = zero_pad ?bs s"
  proof (cases "evp_out_len ?bs (of_nat ?n) > (of_nat ?n :: u32)")
    case True
    then have "?bs > 1" by (rule contrapos_pp) (simp add: evp_out_len_def)
    with True show ?thesis using bs(1) by (simp add: length_zero_pad) (simp add: zero_pad_def)
  next
    case False
    then have "length (zero_pad ?bs s) \<le> ?n" using out inl by (simp add: word_less_nat_alt)
    then show ?thesis using False by (simp add: zero_pad_def)
  qed
  have k: "c_read (o_key_length ssl c) k = Inr (take (o_key_length ssl c) k)"
    using assms(3) by (simp add: c_read_def)
  have v: "(case iv of None \<Rightarrow> Inr None | Some v \<Rightarrow> map_sum id Some (c_read (o_iv_length ssl c) v)) =
      Inr (map_option (take (o_iv_length ssl c)) iv)"
    using assms(4) by (auto simp: c_read_def split: option.split)
  let ?k = "take (o_key_length ssl c) k" and ?iv = "map_option (take (o_iv_length ssl c)) iv"
  have "length ?k = o_key_length ssl c \<and> iv_fits ssl c ?iv" using assms(3,4) by (auto simp: iv_fits_def split: option.splits)
  then have law: "o_init ssl False enc c ?k ?iv \<or> o_init ssl True enc c ?k ?iv"
      "?bs dvd length x \<Longrightarrow> o_final ssl enc c ?k ?iv x = Some []" for x
    using assms(1) unfolding evp_laws_def by (blast, metis)
  have i: "evp_init ssl enc c ?k ?iv = 1"
    using law(1) assms(1) unfolding evp_laws_def evp_init_def by auto
  have f: "o_alloc ssl n" "o_ctx ssl 0" "o_final ssl enc c ?k ?iv (zero_pad ?bs s) = Some []" for n
    using assms(1) law(2) by (simp_all add: evp_laws_def length_zero_pad)
  show ?thesis
    unfolding evp_cipher_op_def Let_def out inl input k v using i assms(5,6) by (simp add: f)
qed

lemma symmetric_encrypt_dispatch:
  assumes "sym_cipher t = Some c" and "key_ok ssl t c k iv"
  shows "symmetric_encrypt ssl s k iv t enc = map_sum id (\<lambda>(rc, out). (rc, if rc = 0 then Some out else None))
    (evp_cipher_op ssl c s k (if mode_of c = ECB then None else Some iv) (enc \<or> mode_of c = OFB \<or> mode_of c = CTR))"
  using assms
  by (cases t) (auto simp: symmetric_encrypt_def key_ok_def good_bits_def des_encrypt_ecb_def des_encrypt_cbc_def des_encrypt_cfb_def
    des_encrypt_ofb_def des_encrypt_ecb3_def des_encrypt_cbc3_def des_encrypt_cfb3_def des_encrypt_ofb3_def
    camellia_encrypt_ecb_def camellia_encrypt_cbc_def camellia_encrypt_cfb_def camellia_encrypt_ofb_def camellia_encrypt_ctr_def
    aes_encrypt_ecb_def aes_encrypt_cbc_def aes_encrypt_cfb_def aes_encrypt_ofb_def aes_encrypt_ctr_def)

lemma symmetric_encrypt_inverse:
  assumes "sym_cipher t = Some c" and "key_ok ssl t c k iv" and "evp_laws ssl c" and "length s \<le> 2 ^ 31 - 32"
  shows "\<exists>e. symmetric_encrypt ssl s k iv t True = Inr (0, Some e) \<and> length e = length (zero_pad (o_block_size ssl c) s) \<and>
    symmetric_encrypt ssl e k iv t False = Inr (0, Some (zero_pad (o_block_size ssl c) s))"
proof -
  let ?bs = "o_block_size ssl c" and ?k = "take (o_key_length ssl c) k"
    and ?iv = "map_option (take (o_iv_length ssl c)) (if mode_of c = ECB then None else Some iv)"
    and ?p = "zero_pad (o_block_size ssl c) s"
  have bs: "0 < ?bs" "?bs \<le> 32" using assms(3) by (simp_all add: evp_laws_def)
  have d: "?bs dvd length ?p" by (simp add: length_zero_pad [OF bs(1)])
  have l: "length ?p < 2 ^ 31"
    using round_up_bounds(2) [OF bs(1), of "length s"] bs(2) assms(4) by (simp add: length_zero_pad [OF bs(1)])
  have ko: "o_key_length ssl c \<le> length k"
      "case (if mode_of c = ECB then None else Some iv) of None \<Rightarrow> mode_of c = ECB | Some v \<Rightarrow> o_iv_length ssl c \<le> length v"
    using assms(2) by (auto simp: key_ok_def)
  then have "length ?k = o_key_length ssl c \<and> iv_fits ssl c ?iv" by (auto simp: iv_fits_def)
  then obtain e where e: "o_update ssl True c ?k ?iv ?p = Some e" "length e = length ?p"
      "o_update ssl (mode_of c = OFB \<or> mode_of c = CTR) c ?k ?iv e = Some ?p"
    using assms(3) d l unfolding evp_laws_def by metis
  have "evp_cipher_op ssl c s k (if mode_of c = ECB then None else Some iv) True = Inr (0, e)"
    using assms(4) e(1,2) by (intro evp_cipher_op_ok [OF assms(3) _ ko]) simp_all
  moreover have "evp_cipher_op ssl c e k (if mode_of c = ECB then None else Some iv) (mode_of c = OFB \<or> mode_of c = CTR) = Inr (0, ?p)"
    using l e(2,3) d zero_pad_whole [OF bs(1), of e] by (intro evp_cipher_op_ok [OF assms(3) _ ko]) simp_all
  ultimately show ?thesis
    using e(2) symmetric_encrypt_dispatch [OF assms(1,2)] by simp
qed

lemma eET_of_to_nat: "eET_of_nat (eET_to_nat t) = t"
  by (cases t) (simp_all add: eET_of_nat_def eET_list_def)

section \<open>Properties\<close>

text \<open>
  C28: Every symmetric cipher of the class inverts: with a key and a vector at least as long as the
  algorithm wants, and a text whose padded length is an int, encryption succeeds, and decryption with the same parameters returns the text followed by
  the zero bytes that fill up the last block; in a mode without blocks, exactly the text.
\<close>
theorem symmetric_roundtrip:
  assumes "sym_cipher t = Some c" and "key_ok ssl t c k iv" and "evp_laws ssl c" and "length s \<le> 2 ^ 31 - 32"
  shows "\<exists>e. symmetric_encrypt ssl s k iv t True = Inr (0, Some e) \<and>
    symmetric_encrypt ssl e k iv t False = Inr (0, Some (zero_pad (o_block_size ssl c) s)) \<and>
    (o_block_size ssl c = 1 \<longrightarrow> zero_pad (o_block_size ssl c) s = s)"
  using symmetric_encrypt_inverse [OF assms] by (auto simp: zero_pad_def)

text \<open>An instance of the library for the examples: a cipher reverses its blocks and fails on a partial block, every other call succeeds.\<close>

definition sample_openssl :: openssl where
  "sample_openssl = \<lparr>
     o_alloc = \<lambda>_. True, o_ctx = \<lambda>_. True,
     o_block_size = \<lambda>c. if mode_of c = ECB \<or> mode_of c = CBC then 16 else 1,
     o_key_length = \<lambda>_. 16, o_iv_length = \<lambda>_. 16,
     o_init = \<lambda>_ _ _ _ _. True, o_update = \<lambda>_ _ _ _ x. Some (rev x), o_final = \<lambda>_ c _ _ x. if (if mode_of c = ECB \<or> mode_of c = CBC then 16 else 1) dvd length x then Some [] else None,
     o_pkey_size = \<lambda>_. 64,
     o_pkey_op = \<lambda>t _ d. if t = eET_RSA_PUBLIC_ENC then Some (64, Some (d @ replicate (63 - length d) 0 @ [of_nat (length d)]))
       else Some (64, Some (take (unat (last d)) d)),
     o_dh_paramgen = \<lambda>_ _. Some 0, o_param_check = \<lambda>_. True, o_dh_fromdata = \<lambda>_ _ _. Some 0,
     o_keygen = \<lambda>_ _. Some 0, o_public_check = \<lambda>_. True, o_bn_param = \<lambda>_ _. Some [2],
     o_ec_keygen = \<lambda>_ r. Some r, o_octet_pub = \<lambda>k. Some [of_nat k], o_ec_fromdata = \<lambda>_ p. Some (unat (hd p)),
     o_derive = \<lambda>a b. Some (replicate 32 (of_nat (a * b))),
     o_EncodeBlock = id, o_DecodeBlock = \<lambda>_. None\<rparr>"

lemma sample_evp_laws: "evp_laws sample_openssl c"
  by (simp add: evp_laws_def sample_openssl_def)

theorem symmetric_roundtrip_witness:
  "\<exists>e. symmetric_encrypt sample_openssl [1, 2] (replicate 16 7) (replicate 16 8) eET_AES_CBC True = Inr (0, Some e) \<and>
    symmetric_encrypt sample_openssl e (replicate 16 7) (replicate 16 8) eET_AES_CBC False =
      Inr (0, Some (zero_pad (o_block_size sample_openssl (EVP_aes 128 CBC)) [1, 2]))"
  using symmetric_roundtrip [of eET_AES_CBC "EVP_aes 128 CBC" sample_openssl "replicate 16 7" "replicate 16 8" "[1, 2]"]
    sample_evp_laws [of "EVP_aes 128 CBC"]
  by (auto simp: key_ok_def sample_openssl_def)

text \<open>
  The length check of \<^verbatim>\<open>symmetric_encrypt\<close> is too weak for AES and Camellia: it accepts a key of eight
  bytes, and the cipher then reads the algorithm's sixteen bytes beyond the end of the string.
\<close>
theorem short_key_overread:
  assumes "sym_cipher t = Some (EVP_aes 128 m)" and "o_alloc ssl (evp_out_len (o_block_size ssl (EVP_aes 128 m)) (of_nat (length s)))"
    and "o_ctx ssl 0" and "o_key_length ssl (EVP_aes 128 m) = 16"
    and "8 \<le> length k" and "length k < 15" and "8 \<le> length iv"
  shows "symmetric_encrypt ssl s k iv t enc = Inl OutOfBounds"
proof -
  have "evp_cipher_op ssl (EVP_aes 128 m) s k v e = Inl OutOfBounds" for v e
    using assms(2-6) by (simp add: evp_cipher_op_def Let_def c_read_def)
  then show ?thesis using assms(1,5,7)
    by (cases t) (auto simp: symmetric_encrypt_def good_bits_def aes_encrypt_ecb_def aes_encrypt_cbc_def
        aes_encrypt_cfb_def aes_encrypt_ofb_def aes_encrypt_ctr_def)
qed

theorem short_key_overread_witness:
  "symmetric_encrypt sample_openssl [1, 2] (replicate 8 7) (replicate 16 8) eET_AES_CFB True = Inl OutOfBounds"
  by (rule short_key_overread [where m = CFB]) (simp_all add: sample_openssl_def)

text \<open>
  Decoding a malformed base64 text does not give an empty result: \<^verbatim>\<open>EVP_DecodeBlock\<close> reports -1, and
  the negative size makes \<^verbatim>\<open>resize\<close> throw, whatever the padding.
\<close>
theorem base64_decode_throws:
  assumes "input \<noteq> []" and "o_DecodeBlock ssl input = None"
  shows "base64_decode ssl input = Inl length_error"
  using assms by (simp add: base64_decode_def)

theorem base64_decode_throws_witness: "base64_decode sample_openssl (lit ''a'') = Inl length_error"
  by (rule base64_decode_throws) (simp_all add: lit_def sample_openssl_def)

end
