(* ===== verification/RandomUtils.thy ===== *)
theory RandomUtils
  imports Memchunk
begin

text \<open>
  \<^verbatim>\<open>src/fszm/random_utils.hpp\<close>.  The random engine of the thread is a parameter: \<open>rng n lo hi\<close> is the n-th
  number it draws, from the closed interval that \<^verbatim>\<open>std::uniform_int_distribution\<close> was given.  The number
  of draws so far is passed through.
\<close>

type_synonym rng = "nat \<Rightarrow> int \<Rightarrow> int \<Rightarrow> int"

datatype RandomStringType = Numbers | Letters | CapitalLetters | LowercaseLetters | NumbersAndLetters
  | NumbersAndCapitalLetters | NumbersAndLowercaseLetters | VisibleCharsThin | VisibleChars

definition INT_MAX :: int where "INT_MAX = 2 ^ 31 - 1"

definition randomNumber_any :: "rng \<Rightarrow> nat \<Rightarrow> int \<times> nat" where
  "randomNumber_any r n = (r n 0 INT_MAX, Suc n)"

definition randomNumber :: "rng \<Rightarrow> int \<Rightarrow> nat \<Rightarrow> int \<times> nat" where
  "randomNumber r upper n = (if upper \<le> 0 then (0, n) else (r n 0 (upper - 1), Suc n))"

definition randomNumber_between :: "rng \<Rightarrow> int \<Rightarrow> int \<Rightarrow> nat \<Rightarrow> int \<times> nat" where
  "randomNumber_between r lo hi n =
    (let (lo, hi) = (if lo > hi then (hi, lo) else (lo, hi)) in (r n lo hi, Suc n))"

text \<open>\<^verbatim>\<open>source.at(n)\<close> throws when the index is out of range.\<close>

fun random_chars :: "rng \<Rightarrow> bytes \<Rightarrow> nat \<Rightarrow> nat \<Rightarrow> bytes \<Rightarrow> std_exception + bytes \<times> nat" where
  "random_chars r source 0 n result = Inr (result, n)"
| "random_chars r source (Suc k) n result =
    (case randomNumber r (int (length source)) n of (i, n') \<Rightarrow>
       if i < 0 \<or> int (length source) \<le> i then Inl out_of_range
       else random_chars r source k n' (result @ [source ! nat i]))"

definition randomString_from :: "rng \<Rightarrow> bytes \<Rightarrow> int \<Rightarrow> nat \<Rightarrow> std_exception + bytes \<times> nat" where
  "randomString_from r source len n =
    (if source = [] \<or> len \<le> 0 then Inr ([], n) else random_chars r source (nat len) n [])"

definition NUMBERS :: bytes where "NUMBERS = lit ''0123456789''"
definition LOWER_CASE_LETTERS :: bytes where "LOWER_CASE_LETTERS = lit ''abcdefghijklmnopqrstuvwxyz''"
definition CAPITAL_LETTERS :: bytes where "CAPITAL_LETTERS = lit ''ABCDEFGHIJKLMNOPQRSTUVWXYZ''"
definition LETTERS :: bytes where "LETTERS = LOWER_CASE_LETTERS @ CAPITAL_LETTERS"
definition NUMBERS_AND_LETTERS :: bytes where "NUMBERS_AND_LETTERS = NUMBERS @ LOWER_CASE_LETTERS @ CAPITAL_LETTERS"
definition NUMBERS_AND_CAPLETTERS :: bytes where "NUMBERS_AND_CAPLETTERS = NUMBERS @ CAPITAL_LETTERS"
definition NUMBERS_AND_LOWLETTERS :: bytes where "NUMBERS_AND_LOWLETTERS = NUMBERS @ LOWER_CASE_LETTERS"
definition VISIBLE_CHARS_THIN :: bytes where
  "VISIBLE_CHARS_THIN = NUMBERS_AND_LETTERS @ lit ''~!@#$%^&*()_-+={}[]|:;,.<>?''"
definition VISIBLE_CHARS :: bytes where
  "VISIBLE_CHARS = VISIBLE_CHARS_THIN @ [96, 34, 39, 92, 47, 32]"

definition char_source :: "RandomStringType \<Rightarrow> bytes" where
  "char_source st = (case st of
     Numbers \<Rightarrow> NUMBERS | Letters \<Rightarrow> LETTERS | CapitalLetters \<Rightarrow> CAPITAL_LETTERS
   | LowercaseLetters \<Rightarrow> LOWER_CASE_LETTERS | NumbersAndLetters \<Rightarrow> NUMBERS_AND_LETTERS
   | NumbersAndCapitalLetters \<Rightarrow> NUMBERS_AND_CAPLETTERS | NumbersAndLowercaseLetters \<Rightarrow> NUMBERS_AND_LOWLETTERS
   | VisibleCharsThin \<Rightarrow> VISIBLE_CHARS_THIN | VisibleChars \<Rightarrow> VISIBLE_CHARS)"

definition randomString :: "rng \<Rightarrow> RandomStringType \<Rightarrow> int \<Rightarrow> nat \<Rightarrow> std_exception + bytes \<times> nat" where
  "randomString r st len n = randomString_from r (char_source st) len n"

text \<open>The law of the distribution: it stays in its interval.\<close>

definition rng_ok :: "rng \<Rightarrow> bool" where
  "rng_ok r \<longleftrightarrow> (\<forall>n lo hi. lo \<le> hi \<longrightarrow> lo \<le> r n lo hi \<and> r n lo hi \<le> hi)"

lemma random_chars_ok:
  assumes "rng_ok r" and "source \<noteq> []"
  shows "\<exists>cs. random_chars r source k n acc = Inr (acc @ cs, n + k) \<and> length cs = k \<and> set cs \<subseteq> set source"
proof (induction k arbitrary: n acc)
  case (Suc k)
  let ?i = "r n 0 (int (length source) - 1)"
  have l: "0 < length source" using assms(2) by simp
  then have i: "0 \<le> ?i" "?i < int (length source)"
    using assms(1) unfolding rng_ok_def by (force, smt (verit) of_nat_0_less_iff)
  obtain cs where cs: "random_chars r source k (Suc n) (acc @ [source ! nat ?i]) = Inr ((acc @ [source ! nat ?i]) @ cs, Suc n + k)"
      "length cs = k" "set cs \<subseteq> set source"
    using Suc.IH by blast
  have "source ! nat ?i \<in> set source" using i by (intro nth_mem) simp
  then show ?case
    using i l cs by (intro exI [of _ "source ! nat ?i # cs"]) (simp add: randomNumber_def)
qed simp

lemma char_source_nonempty: "char_source st \<noteq> []"
  by (cases st) (simp_all add: char_source_def NUMBERS_def LETTERS_def CAPITAL_LETTERS_def LOWER_CASE_LETTERS_def
      NUMBERS_AND_LETTERS_def NUMBERS_AND_CAPLETTERS_def NUMBERS_AND_LOWLETTERS_def VISIBLE_CHARS_THIN_def VISIBLE_CHARS_def lit_def)

lemma randomString_ok:
  assumes "rng_ok r"
  shows "\<exists>cs. randomString r st len n = Inr (cs, n + nat len) \<and> length cs = nat len \<and> set cs \<subseteq> set (char_source st)"
  using random_chars_ok [OF assms char_source_nonempty, of st "nat len" n "[]"]
  by (auto simp: randomString_def randomString_from_def char_source_nonempty)

text \<open>
  A random string has the wanted length and only characters of its class, and making it never throws;
  a negative length gives the empty string.
\<close>
theorem randomString_correct:
  assumes "rng_ok r"
  shows "\<exists>cs. randomString r st len n = Inr (cs, n + nat len) \<and> length cs = nat len \<and> set cs \<subseteq> set (char_source st)"
  using assms by (rule randomString_ok)

theorem randomString_correct_witness:
  "\<exists>cs. randomString (\<lambda>n lo hi. lo) NumbersAndLetters 32 0 = Inr (cs, 0 + nat 32) \<and> length cs = nat 32 \<and>
    set cs \<subseteq> set (char_source NumbersAndLetters)"
  by (rule randomString_correct) (simp add: rng_ok_def)

end
