(* ===== verification/Serialize.thy ===== *)
theory Serialize
  imports Prelude
begin

text \<open>
  The binary serializer \<^verbatim>\<open>fszm::serialize_helper\<close> (\<^verbatim>\<open>src/fszm/serialize_helper.hpp\<close>).  The object
  is the record \<open>serialize_helper\<close> with the input buffer \<^verbatim>\<open>_stringbuf\<close> and the output stream
  \<^verbatim>\<open>_oss\<close>; every method is a computation of the state monad over it, in the order of the source.
  A \<^verbatim>\<open>double\<close> or \<^verbatim>\<open>float\<close> is its bit pattern, since the source copies the bits.

  The locale \<open>codec\<close> is the contract of a pair of methods: what is written, and that reading it
  back gives the value and leaves the rest of the input.  Every pair of the class is interpreted.
  The locale \<open>reader\<close> says that a reading method consumes a prefix of the input and never writes,
  whatever the input.
\<close>

record serialize_helper =
  stringbuf :: bytes
  oss :: bytes

type_synonym 'a ser = "(serialize_helper, 'a) state"

text \<open>The container types of the header; a \<^verbatim>\<open>StringMap\<close> is a \<^verbatim>\<open>std::map\<close>, kept sorted by key.\<close>

type_synonym DataRow = "bytes list"
type_synonym DataTable = "DataRow list"
type_synonym DataTables = "DataTable list"
type_synonym FieldsType = "u32 list"
type_synonym StringMap = "(bytes \<times> bytes) list"
type_synonym ScoreArray = "(u64 \<times> bytes) list"

definition serialize_helper_new :: "bytes \<Rightarrow> serialize_helper" where
  "serialize_helper_new buffer = \<lparr>stringbuf = buffer, oss = []\<rparr>"

definition data :: "bytes ser" where
  "data = State (\<lambda>h. (oss h, h))"

definition reset :: "bytes \<Rightarrow> unit ser" where
  "reset buffer = State (\<lambda>h. ((), h\<lparr>stringbuf := buffer, oss := []\<rparr>))"

definition oss_write :: "bytes \<Rightarrow> unit ser" where
  "oss_write bs = State (\<lambda>h. ((), h\<lparr>oss := oss h @ bs\<rparr>))"

section \<open>Integers\<close>

definition serialize_uint8 :: "u8 \<Rightarrow> unit ser" where
  "serialize_uint8 v = oss_write (mem_image 1 v)"

definition deserialize_uint8 :: "u8 ser" where
  "deserialize_uint8 = State (\<lambda>h.
     if length (stringbuf h) < 1 then (0, h)
     else let val_str = take 1 (stringbuf h) in
       (val_str ! 0, h\<lparr>stringbuf := drop 1 (stringbuf h)\<rparr>))"

definition serialize_uint16 :: "u16 \<Rightarrow> unit ser" where
  "serialize_uint16 local = oss_write (mem_image 2 (htons local))"

definition deserialize_uint16 :: "u16 ser" where
  "deserialize_uint16 = State (\<lambda>h.
     if length (stringbuf h) < 2 then (0, h)
     else let val_str = take 2 (stringbuf h) in
       (ntohs (mem_load val_str), h\<lparr>stringbuf := drop 2 (stringbuf h)\<rparr>))"

definition serialize_uint32 :: "u32 \<Rightarrow> unit ser" where
  "serialize_uint32 local = oss_write (mem_image 4 (htonl local))"

definition deserialize_uint32 :: "u32 ser" where
  "deserialize_uint32 = State (\<lambda>h.
     if length (stringbuf h) < 4 then (0, h)
     else let val_str = take 4 (stringbuf h) in
       (ntohl (mem_load val_str), h\<lparr>stringbuf := drop 4 (stringbuf h)\<rparr>))"

definition serialize_uint64 :: "u64 \<Rightarrow> unit ser" where
  "serialize_uint64 v = do {
     serialize_uint32 (ucast (drop_bit 32 v));
     serialize_uint32 (ucast v)
   }"

definition deserialize_uint64 :: "u64 ser" where
  "deserialize_uint64 = do {
     h \<leftarrow> State_Monad.get;
     if length (stringbuf h) < 8 then State_Monad.return 0
     else do {
       high \<leftarrow> deserialize_uint32;
       low \<leftarrow> deserialize_uint32;
       State_Monad.return (push_bit 32 (ucast high) OR ucast low)
     }
   }"

text \<open>The signed variants reinterpret the bits of the unsigned ones.\<close>

definition serialize_int8 :: "u8 \<Rightarrow> unit ser" where
  "serialize_int8 v = serialize_uint8 v"

definition deserialize_int8 :: "u8 ser" where
  "deserialize_int8 = deserialize_uint8"

definition serialize_int16 :: "u16 \<Rightarrow> unit ser" where
  "serialize_int16 v = serialize_uint16 v"

definition deserialize_int16 :: "u16 ser" where
  "deserialize_int16 = deserialize_uint16"

definition serialize_int32 :: "u32 \<Rightarrow> unit ser" where
  "serialize_int32 v = serialize_uint32 v"

definition deserialize_int32 :: "u32 ser" where
  "deserialize_int32 = deserialize_uint32"

definition serialize_int64 :: "u64 \<Rightarrow> unit ser" where
  "serialize_int64 v = serialize_uint64 v"

definition deserialize_int64 :: "u64 ser" where
  "deserialize_int64 = deserialize_uint64"

section \<open>Booleans and floating-point bit patterns\<close>

definition serialize_bool :: "bool \<Rightarrow> unit ser" where
  "serialize_bool v = serialize_uint8 (if v then 1 else 0)"

definition deserialize_bool :: "bool ser" where
  "deserialize_bool = do { v \<leftarrow> deserialize_uint8; State_Monad.return (v = 1) }"

definition serialize_double :: "u64 \<Rightarrow> unit ser" where
  "serialize_double bits = serialize_uint64 bits"

definition deserialize_double :: "u64 ser" where
  "deserialize_double = deserialize_uint64"

definition serialize_float :: "u32 \<Rightarrow> unit ser" where
  "serialize_float bits = serialize_uint32 bits"

definition deserialize_float :: "u32 ser" where
  "deserialize_float = deserialize_uint32"

section \<open>Strings and containers\<close>

definition serialize_str :: "bytes \<Rightarrow> unit ser" where
  "serialize_str s = do { serialize_uint32 (of_nat (length s)); oss_write s }"

definition deserialize_str :: "bytes ser" where
  "deserialize_str = do {
     size \<leftarrow> deserialize_uint32;
     h \<leftarrow> State_Monad.get;
     if length (stringbuf h) < unat size then State_Monad.return []
     else do {
       State_Monad.set (h\<lparr>stringbuf := drop (unat size) (stringbuf h)\<rparr>);
       State_Monad.return (take (unat size) (stringbuf h))
     }
   }"

definition serialize_row :: "DataRow \<Rightarrow> unit ser" where
  "serialize_row row = do { serialize_uint32 (of_nat (length row)); for_each serialize_str row }"

definition deserialize_row :: "DataRow ser" where
  "deserialize_row = do { size \<leftarrow> deserialize_uint32; collect (unat size) deserialize_str }"

definition serialize_table :: "DataTable \<Rightarrow> unit ser" where
  "serialize_table tab = do { serialize_uint32 (of_nat (length tab)); for_each serialize_row tab }"

definition deserialize_table :: "DataTable ser" where
  "deserialize_table = do { size \<leftarrow> deserialize_uint32; collect (unat size) deserialize_row }"

definition serialize_tables :: "DataTables \<Rightarrow> unit ser" where
  "serialize_tables tabs = do { serialize_uint32 (of_nat (length tabs)); for_each serialize_table tabs }"

definition deserialize_tables :: "DataTables ser" where
  "deserialize_tables = do { size \<leftarrow> deserialize_uint32; collect (unat size) deserialize_table }"

definition serialize_fields_type :: "FieldsType \<Rightarrow> unit ser" where
  "serialize_fields_type fts = do { serialize_uint32 (of_nat (length fts)); for_each serialize_uint32 fts }"

definition deserialize_fields_type :: "FieldsType ser" where
  "deserialize_fields_type = do { size \<leftarrow> deserialize_uint32; collect (unat size) deserialize_uint32 }"

text \<open>\<open>sm_put\<close> is the assignment \<^verbatim>\<open>map[key] = val\<close> on the sorted map.\<close>

fun sm_put :: "'k::linorder \<Rightarrow> 'v \<Rightarrow> ('k \<times> 'v) list \<Rightarrow> ('k \<times> 'v) list" where
  "sm_put k v [] = [(k, v)]"
| "sm_put k v ((k', v') # m) =
     (if k < k' then (k, v) # (k', v') # m
      else if k = k' then (k, v) # m
      else (k', v') # sm_put k v m)"

definition serialize_string_map :: "StringMap \<Rightarrow> unit ser" where
  "serialize_string_map m = do {
     serialize_uint32 (of_nat (length m));
     for_each (\<lambda>kv. do { serialize_str (fst kv); serialize_str (snd kv) }) m
   }"

primrec string_map_loop :: "nat \<Rightarrow> StringMap \<Rightarrow> StringMap ser" where
  "string_map_loop 0 m = State_Monad.return m"
| "string_map_loop (Suc n) m = do {
     key \<leftarrow> deserialize_str;
     v \<leftarrow> deserialize_str;
     string_map_loop n (sm_put key v m)
   }"

definition deserialize_string_map :: "StringMap ser" where
  "deserialize_string_map = do { size \<leftarrow> deserialize_uint32; string_map_loop (unat size) [] }"

definition serialize_score_array :: "ScoreArray \<Rightarrow> unit ser" where
  "serialize_score_array arr = do {
     serialize_uint32 (of_nat (length arr));
     for_each (\<lambda>item. do { serialize_double (fst item); serialize_str (snd item) }) arr
   }"

definition deserialize_score_array :: "ScoreArray ser" where
  "deserialize_score_array = do {
     size \<leftarrow> deserialize_uint32;
     collect (unat size) (do {
       score \<leftarrow> deserialize_double;
       v \<leftarrow> deserialize_str;
       State_Monad.return (score, v)
     })
   }"

section \<open>The wire format, as a specification\<close>

text \<open>
  What each method is meant to put on the wire: fixed-width integers most significant byte
  first, strings and containers with a 32-bit count in front.
\<close>

definition enc_bool :: "bool \<Rightarrow> bytes" where
  "enc_bool b = [if b then 1 else 0]"

definition enc_str :: "bytes \<Rightarrow> bytes" where
  "enc_str s = be_bytes 4 (of_nat (length s) :: u32) @ s"

definition enc_list :: "('a \<Rightarrow> bytes) \<Rightarrow> 'a list \<Rightarrow> bytes" where
  "enc_list e xs = be_bytes 4 (of_nat (length xs) :: u32) @ concat (map e xs)"

definition enc_pair :: "('a \<Rightarrow> bytes) \<Rightarrow> ('b \<Rightarrow> bytes) \<Rightarrow> 'a \<times> 'b \<Rightarrow> bytes" where
  "enc_pair e f p = e (fst p) @ f (snd p)"

text \<open>The counts must fit the 32-bit size field.\<close>

definition ok_str :: "bytes \<Rightarrow> bool" where
  "ok_str s \<longleftrightarrow> length s < 2 ^ 32"

definition ok_list :: "('a \<Rightarrow> bool) \<Rightarrow> 'a list \<Rightarrow> bool" where
  "ok_list p xs \<longleftrightarrow> length xs < 2 ^ 32 \<and> list_all p xs"

definition ok_map :: "StringMap \<Rightarrow> bool" where
  "ok_map m \<longleftrightarrow> ok_list (\<lambda>kv. ok_str (fst kv) \<and> ok_str (snd kv)) m \<and> sorted_wrt (<) (map fst m)"

abbreviation enc_row :: "DataRow \<Rightarrow> bytes" where "enc_row \<equiv> enc_list enc_str"
abbreviation enc_table :: "DataTable \<Rightarrow> bytes" where "enc_table \<equiv> enc_list enc_row"
abbreviation enc_tables :: "DataTables \<Rightarrow> bytes" where "enc_tables \<equiv> enc_list enc_table"
abbreviation ok_row :: "DataRow \<Rightarrow> bool" where "ok_row \<equiv> ok_list ok_str"
abbreviation ok_table :: "DataTable \<Rightarrow> bool" where "ok_table \<equiv> ok_list ok_row"
abbreviation ok_tables :: "DataTables \<Rightarrow> bool" where "ok_tables \<equiv> ok_list ok_table"

section \<open>The contracts\<close>

locale codec =
  fixes ser :: "'a \<Rightarrow> unit ser"
    and deser :: "'a ser"
    and enc :: "'a \<Rightarrow> bytes"
    and ok :: "'a \<Rightarrow> bool"
  assumes ser_enc: "run_state (ser x) h = ((), h\<lparr>oss := oss h @ enc x\<rparr>)"
    and deser_enc: "ok x \<Longrightarrow> stringbuf h = enc x @ r \<Longrightarrow>
      run_state deser h = (x, h\<lparr>stringbuf := r\<rparr>)"
begin

lemma deser_enc_upd:
  "ok x \<Longrightarrow> run_state deser (h\<lparr>stringbuf := enc x @ r\<rparr>) = (x, h\<lparr>stringbuf := r\<rparr>)"
  by (subst deser_enc [where r = r]) simp_all

lemma roundtrip:
  "ok x \<Longrightarrow> fst (run_state deser
     (serialize_helper_new (fst (run_state (do { ser x; data }) (serialize_helper_new []))))) = x"
  by (simp add: ser_enc serialize_helper_new_def data_def deser_enc [where r = "[]"])

lemma prefix_free:
  assumes "ok x" and "ok y" and "enc x @ r = enc y @ t"
  shows "x = y \<and> r = t"
proof -
  let ?h = "serialize_helper_new (enc x @ r)"
  have "run_state deser ?h = (x, ?h\<lparr>stringbuf := r\<rparr>)"
    using assms(1) by (rule deser_enc) (simp add: serialize_helper_new_def)
  moreover have "run_state deser ?h = (y, ?h\<lparr>stringbuf := t\<rparr>)"
    using assms(2) by (rule deser_enc) (simp add: serialize_helper_new_def assms(3))
  ultimately show ?thesis
    by (metis Pair_inject serialize_helper.select_convs(1) serialize_helper.surjective
        serialize_helper.update_convs(1))
qed

lemma ser_each:
  "run_state (for_each ser xs) h = ((), h\<lparr>oss := oss h @ concat (map enc xs)\<rparr>)"
  by (induction xs arbitrary: h) (simp_all add: ser_enc)

lemma deser_each:
  "list_all ok xs \<Longrightarrow> stringbuf h = concat (map enc xs) @ r \<Longrightarrow>
   run_state (collect (length xs) deser) h = (xs, h\<lparr>stringbuf := r\<rparr>)"
proof (induction xs arbitrary: h)
  case Nil
  then show ?case by (cases h) simp
next
  case (Cons x xs)
  let ?h = "h\<lparr>stringbuf := concat (map enc xs) @ r\<rparr>"
  from Cons.prems have "run_state deser h = (x, ?h)"
    by (intro deser_enc) simp_all
  moreover have "run_state (collect (length xs) deser) ?h = (xs, ?h\<lparr>stringbuf := r\<rparr>)"
    using Cons.prems by (intro Cons.IH) simp_all
  ultimately show ?case by simp
qed

end

text \<open>
  Reading consumes: the contract of a single reading method on any input, truncated or hostile.
\<close>

locale reader =
  fixes m :: "'a ser"
  assumes consumes: "suffix (stringbuf (snd (run_state m h))) (stringbuf h)"
    and keeps_oss: "oss (snd (run_state m h)) = oss h"
begin

lemma consumes_length: "length (stringbuf (snd (run_state m h))) \<le> length (stringbuf h)"
  by (rule suffix_length_le [OF consumes])

end

section \<open>Every pair of methods is a codec\<close>

lemmas ser_defs [mon] = oss_write_def data_def serialize_uint8_def deserialize_uint8_def
  serialize_uint16_def deserialize_uint16_def serialize_uint32_def deserialize_uint32_def

interpretation u8: codec serialize_uint8 deserialize_uint8 "\<lambda>v. [v]" "\<lambda>_. True"
  by unfold_locales (simp_all add: mon mem_image_def)

interpretation u16: codec serialize_uint16 deserialize_uint16 "be_bytes 2" "\<lambda>_. True"
  by unfold_locales (simp_all add: mon wire)

interpretation u32: codec serialize_uint32 deserialize_uint32 "be_bytes 4" "\<lambda>_. True"
  by unfold_locales (simp_all add: mon wire)

lemma be_bytes_u64_split:
  "be_bytes 8 (v :: u64) = be_bytes 4 (ucast (drop_bit 32 v) :: u32) @ be_bytes 4 (ucast v :: u32)"
  using be_bytes_split [where n = 4 and m = 4 and v = v and 'b = 32 and 'c = 32] by simp

lemma u64_join: "push_bit 32 (ucast (ucast (drop_bit 32 v) :: u32)) OR ucast (ucast v :: u32) = (v :: u64)"
  by (intro bit_word_eqI) (auto simp: bit_simps)

interpretation u64: codec serialize_uint64 deserialize_uint64 "be_bytes 8" "\<lambda>_. True"
proof
  fix x :: u64 and h
  show "run_state (serialize_uint64 x) h = ((), h\<lparr>oss := oss h @ be_bytes 8 x\<rparr>)"
    by (simp add: serialize_uint64_def u32.ser_enc be_bytes_u64_split)
next
  fix x :: u64 and h :: serialize_helper and r
  assume "stringbuf h = be_bytes 8 x @ r"
  then show "run_state deserialize_uint64 h = (x, h\<lparr>stringbuf := r\<rparr>)"
    by (simp add: deserialize_uint64_def be_bytes_u64_split u64_join
        u32.deser_enc [where x = "ucast (drop_bit 32 x)" and r = "be_bytes 4 (ucast x) @ r"]
        u32.deser_enc_upd)
qed

interpretation bool: codec serialize_bool deserialize_bool enc_bool "\<lambda>_. True"
proof
  fix x h
  show "run_state (serialize_bool x) h = ((), h\<lparr>oss := oss h @ enc_bool x\<rparr>)"
    by (simp add: serialize_bool_def u8.ser_enc enc_bool_def)
next
  fix x and h :: serialize_helper and r
  assume "stringbuf h = enc_bool x @ r"
  then show "run_state deserialize_bool h = (x, h\<lparr>stringbuf := r\<rparr>)"
    by (simp add: deserialize_bool_def enc_bool_def
        u8.deser_enc [where x = "if x then 1 else 0" and r = r] split: if_splits)
qed

interpretation dbl: codec serialize_double deserialize_double "be_bytes 8" "\<lambda>_. True"
  unfolding serialize_double_def deserialize_double_def by unfold_locales (simp_all add: u64.ser_enc u64.deser_enc)

interpretation flt: codec serialize_float deserialize_float "be_bytes 4" "\<lambda>_. True"
  unfolding serialize_float_def deserialize_float_def by unfold_locales (simp_all add: u32.ser_enc u32.deser_enc)

interpretation i8: codec serialize_int8 deserialize_int8 "\<lambda>v. [v]" "\<lambda>_. True"
  unfolding serialize_int8_def deserialize_int8_def by unfold_locales (simp_all add: u8.ser_enc u8.deser_enc)

interpretation i16: codec serialize_int16 deserialize_int16 "be_bytes 2" "\<lambda>_. True"
  unfolding serialize_int16_def deserialize_int16_def by unfold_locales (simp_all add: u16.ser_enc u16.deser_enc)

interpretation i32: codec serialize_int32 deserialize_int32 "be_bytes 4" "\<lambda>_. True"
  unfolding serialize_int32_def deserialize_int32_def by unfold_locales (simp_all add: u32.ser_enc u32.deser_enc)

interpretation i64: codec serialize_int64 deserialize_int64 "be_bytes 8" "\<lambda>_. True"
  unfolding serialize_int64_def deserialize_int64_def by unfold_locales (simp_all add: u64.ser_enc u64.deser_enc)

interpretation str: codec serialize_str deserialize_str enc_str ok_str
proof
  fix x h
  show "run_state (serialize_str x) h = ((), h\<lparr>oss := oss h @ enc_str x\<rparr>)"
    by (simp add: serialize_str_def u32.ser_enc enc_str_def oss_write_def)
next
  fix x and h :: serialize_helper and r
  assume "ok_str x" and "stringbuf h = enc_str x @ r"
  then show "run_state deserialize_str h = (x, h\<lparr>stringbuf := r\<rparr>)"
    by (simp add: deserialize_str_def enc_str_def ok_str_def
        u32.deser_enc [where x = "of_nat (length x)" and r = "x @ r"])
qed

text \<open>A count followed by the elements is a codec whenever the element is one.\<close>

context codec
begin

lemma counted_ser:
  "run_state (do { serialize_uint32 (of_nat (length xs)); for_each ser xs }) h =
    ((), h\<lparr>oss := oss h @ enc_list enc xs\<rparr>)"
  by (simp add: u32.ser_enc ser_each enc_list_def)

lemma counted_deser:
  assumes "ok_list ok xs" and "stringbuf h = enc_list enc xs @ r"
  shows "run_state (do { size \<leftarrow> deserialize_uint32; collect (unat size) deser }) h =
    (xs, h\<lparr>stringbuf := r\<rparr>)"
  using assms deser_each [of xs "h\<lparr>stringbuf := concat (map enc xs) @ r\<rparr>" r]
  by (simp add: enc_list_def ok_list_def
      u32.deser_enc [where x = "of_nat (length xs)" and r = "concat (map enc xs) @ r"])

end

interpretation row: codec serialize_row deserialize_row enc_row ok_row
  unfolding serialize_row_def deserialize_row_def
  by unfold_locales (rule str.counted_ser, rule str.counted_deser)

interpretation table: codec serialize_table deserialize_table enc_table ok_table
  unfolding serialize_table_def deserialize_table_def
  by unfold_locales (rule row.counted_ser, rule row.counted_deser)

interpretation tables: codec serialize_tables deserialize_tables enc_tables ok_tables
  unfolding serialize_tables_def deserialize_tables_def
  by unfold_locales (rule table.counted_ser, rule table.counted_deser)

interpretation fields: codec serialize_fields_type deserialize_fields_type
    "enc_list (be_bytes 4)" "ok_list (\<lambda>_. True)"
  unfolding serialize_fields_type_def deserialize_fields_type_def
  by unfold_locales (rule u32.counted_ser, rule u32.counted_deser)

interpretation score: codec "\<lambda>item. do { serialize_double (fst item); serialize_str (snd item) }"
    "do { score \<leftarrow> deserialize_double; v \<leftarrow> deserialize_str; State_Monad.return (score, v) }"
    "enc_pair (be_bytes 8) enc_str" "\<lambda>p. ok_str (snd p)"
proof
  fix x :: "u64 \<times> bytes" and h :: serialize_helper and r
  assume "ok_str (snd x)" and "stringbuf h = enc_pair (be_bytes 8) enc_str x @ r"
  then show "run_state (do { score \<leftarrow> deserialize_double; v \<leftarrow> deserialize_str;
      State_Monad.return (score, v) }) h = (x, h\<lparr>stringbuf := r\<rparr>)"
    by (simp add: enc_pair_def dbl.deser_enc [where x = "fst x" and r = "enc_str (snd x) @ r"]
        str.deser_enc_upd)
qed (simp add: dbl.ser_enc str.ser_enc enc_pair_def)

interpretation scores: codec serialize_score_array deserialize_score_array
    "enc_list (enc_pair (be_bytes 8) enc_str)" "ok_list (\<lambda>p. ok_str (snd p))"
  unfolding serialize_score_array_def deserialize_score_array_def
  by unfold_locales (rule score.counted_ser, rule score.counted_deser)

text \<open>The map: elements arrive in key order, so each assignment appends.\<close>

lemma sm_put_snoc: "\<forall>k' \<in> fst ` set m. k' < k \<Longrightarrow> sm_put k v m = m @ [(k, v)]"
  by (induction m) force+

lemma string_map_loop_enc:
  "list_all (\<lambda>kv. ok_str (fst kv) \<and> ok_str (snd kv)) m \<Longrightarrow>
   sorted_wrt (<) (map fst (acc @ m)) \<Longrightarrow>
   stringbuf h = concat (map (enc_pair enc_str enc_str) m) @ r \<Longrightarrow>
   run_state (string_map_loop (length m) acc) h = (acc @ m, h\<lparr>stringbuf := r\<rparr>)"
proof (induction m arbitrary: acc h)
  case Nil
  then show ?case by (cases h) simp
next
  case (Cons kv m)
  let ?t = "concat (map (enc_pair enc_str enc_str) m) @ r"
  have "run_state deserialize_str h = (fst kv, h\<lparr>stringbuf := enc_str (snd kv) @ ?t\<rparr>)"
    using Cons.prems by (intro str.deser_enc) (simp_all add: enc_pair_def [of _ _ kv])
  moreover have "sm_put (fst kv) (snd kv) acc = acc @ [kv]"
    using Cons.prems(2) by (subst sm_put_snoc) (auto simp: sorted_wrt_append)
  moreover have "run_state (string_map_loop (length m) (acc @ [kv])) (h\<lparr>stringbuf := ?t\<rparr>) =
      ((acc @ [kv]) @ m, h\<lparr>stringbuf := ?t\<rparr>\<lparr>stringbuf := r\<rparr>)"
    using Cons.prems by (intro Cons.IH) simp_all
  ultimately show ?case
    using Cons.prems(1) by (simp add: str.deser_enc_upd)
qed

interpretation kvpair: codec "\<lambda>kv. do { serialize_str (fst kv); serialize_str (snd kv) }"
    "do { k \<leftarrow> deserialize_str; v \<leftarrow> deserialize_str; State_Monad.return (k, v) }"
    "enc_pair enc_str enc_str" "\<lambda>kv. ok_str (fst kv) \<and> ok_str (snd kv)"
proof
  fix x :: "bytes \<times> bytes" and h :: serialize_helper and r
  assume "ok_str (fst x) \<and> ok_str (snd x)" and "stringbuf h = enc_pair enc_str enc_str x @ r"
  then show "run_state (do { k \<leftarrow> deserialize_str; v \<leftarrow> deserialize_str;
      State_Monad.return (k, v) }) h = (x, h\<lparr>stringbuf := r\<rparr>)"
    by (simp add: enc_pair_def str.deser_enc [where x = "fst x" and r = "enc_str (snd x) @ r"]
        str.deser_enc_upd)
qed (simp add: str.ser_enc enc_pair_def)

interpretation smap: codec serialize_string_map deserialize_string_map
    "enc_list (enc_pair enc_str enc_str)" ok_map
proof
  fix x :: StringMap and h
  show "run_state (serialize_string_map x) h =
      ((), h\<lparr>oss := oss h @ enc_list (enc_pair enc_str enc_str) x\<rparr>)"
    unfolding serialize_string_map_def by (rule kvpair.counted_ser)
next
  fix x :: StringMap and h :: serialize_helper and r
  let ?b = "concat (map (enc_pair enc_str enc_str) x) @ r"
  assume "ok_map x" and "stringbuf h = enc_list (enc_pair enc_str enc_str) x @ r"
  then show "run_state deserialize_string_map h = (x, h\<lparr>stringbuf := r\<rparr>)"
    using string_map_loop_enc [of x "[]" "h\<lparr>stringbuf := ?b\<rparr>" r]
    by (simp add: deserialize_string_map_def ok_map_def ok_list_def enc_list_def
        u32.deser_enc [where x = "of_nat (length x)" and r = ?b])
qed

section \<open>Every reading method only consumes\<close>

lemma reader_return [intro]: "reader (State_Monad.return x)"
  by unfold_locales simp_all

lemma reader_bind [intro]:
  assumes "reader m" and "\<And>x. reader (k x)"
  shows "reader (State_Monad.bind m k)"
proof
  fix h
  obtain x h' where m: "run_state m h = (x, h')" by fastforce
  have "suffix (stringbuf (snd (run_state (k x) h'))) (stringbuf h')"
    and "suffix (stringbuf h') (stringbuf h)"
    using reader.consumes [OF assms(2), of x h'] reader.consumes [OF assms(1), of h] m by simp_all
  then show "suffix (stringbuf (snd (run_state (State_Monad.bind m k) h))) (stringbuf h)"
    by (simp add: m suffix_trans)
  show "oss (snd (run_state (State_Monad.bind m k) h)) = oss h"
    using reader.keeps_oss [OF assms(2), of x h'] reader.keeps_oss [OF assms(1), of h] m by simp
qed

lemma reader_collect [intro]: "reader m \<Longrightarrow> reader (collect n m)"
  by (induction n) auto

lemma reader_uint32 [intro]: "reader deserialize_uint32"
  by unfold_locales (simp_all add: mon Let_def suffix_drop)

lemma reader_uint64 [intro]: "reader deserialize_uint64"
proof -
  have "reader (do { high \<leftarrow> deserialize_uint32; low \<leftarrow> deserialize_uint32;
      State_Monad.return (push_bit 32 (ucast high) OR ucast low :: u64) })" (is "reader ?m")
    by blast
  then show ?thesis
    by (auto simp: deserialize_uint64_def reader_def State_Monad.get_def)
qed

lemma reader_str [intro]: "reader deserialize_str"
proof -
  have "reader (do { h \<leftarrow> State_Monad.get;
      if length (stringbuf h) < unat (size :: u32) then State_Monad.return []
      else do { State_Monad.set (h\<lparr>stringbuf := drop (unat size) (stringbuf h)\<rparr>);
        State_Monad.return (take (unat size) (stringbuf h)) } })" for size
    by unfold_locales (simp_all add: State_Monad.get_def State_Monad.set_def suffix_drop)
  then show ?thesis unfolding deserialize_str_def by blast
qed

interpretation str_reader: reader deserialize_str by (rule reader_str)

interpretation row_reader: reader deserialize_row
  unfolding deserialize_row_def by blast

lemma reader_row [intro]: "reader deserialize_row" by unfold_locales

interpretation table_reader: reader deserialize_table
  unfolding deserialize_table_def by blast

lemma reader_table [intro]: "reader deserialize_table" by unfold_locales

interpretation tables_reader: reader deserialize_tables
  unfolding deserialize_tables_def by blast

interpretation fields_reader: reader deserialize_fields_type
  unfolding deserialize_fields_type_def by blast

lemma reader_map_loop [intro]: "reader (string_map_loop n m)"
  by (induction n arbitrary: m) auto

interpretation smap_reader: reader deserialize_string_map
  unfolding deserialize_string_map_def by blast

interpretation scores_reader: reader deserialize_score_array
  unfolding deserialize_score_array_def deserialize_double_def by blast

section \<open>Properties\<close>

text \<open>a database result set (a list of tables) survives serialization: reading back what was written
  gives the same tables and leaves no bytes over, for sizes that fit the 32-bit counts; the bytes are
  those of the wire format.\<close>

theorem tables_roundtrip:
  assumes "ok_tables t"
  shows "run_state (do { serialize_tables t; data }) (serialize_helper_new []) =
      (enc_tables t, \<lparr>stringbuf = [], oss = enc_tables t\<rparr>) \<and>
    run_state deserialize_tables (serialize_helper_new (enc_tables t)) = (t, \<lparr>stringbuf = [], oss = []\<rparr>)"
  using tables.deser_enc [OF assms, of "serialize_helper_new (enc_tables t)" "[]"]
  by (simp add: tables.ser_enc serialize_helper_new_def data_def)

theorem tables_roundtrip_witness:
  "run_state (do { serialize_tables [[[[1], []]], []]; data }) (serialize_helper_new []) =
      (enc_tables [[[[1], []]], []], \<lparr>stringbuf = [], oss = enc_tables [[[[1], []]], []]\<rparr>) \<and>
    run_state deserialize_tables (serialize_helper_new (enc_tables [[[[1], []]], []])) =
      ([[[[1], []]], []], \<lparr>stringbuf = [], oss = []\<rparr>)"
  by (rule tables_roundtrip) (simp add: ok_list_def ok_str_def)

text \<open>a string map survives serialization, followed by any further input, which is left unread.\<close>

theorem string_map_roundtrip:
  assumes "ok_map m"
  shows "run_state deserialize_string_map
      (serialize_helper_new (fst (run_state (do { serialize_string_map m; data }) (serialize_helper_new [])) @ r)) =
    (m, serialize_helper_new r)"
  using smap.deser_enc [OF assms, of "serialize_helper_new (enc_list (enc_pair enc_str enc_str) m @ r)" r]
  by (simp add: smap.ser_enc serialize_helper_new_def data_def)

theorem string_map_roundtrip_witness:
  "run_state deserialize_string_map
      (serialize_helper_new (fst (run_state (do { serialize_string_map [([1], [2]), ([1, 0], [])]; data })
        (serialize_helper_new [])) @ [7])) =
    ([([1], [2]), ([1, 0], [])], serialize_helper_new [7])"
  by (rule string_map_roundtrip) (simp add: ok_map_def ok_list_def ok_str_def)

text \<open>a truncated string is read as the empty string: no proper prefix of a serialized string yields
  any of its characters.\<close>

theorem truncated_str_empty:
  assumes "ok_str s" and "strict_prefix q (enc_str s)"
  shows "fst (run_state deserialize_str (serialize_helper_new q)) = []"
proof (cases "length q < 4")
  case True
  then show ?thesis
    by (simp add: deserialize_str_def serialize_helper_new_def deserialize_uint32_def)
next
  case False
  obtain z where z: "enc_str s = q @ z" "z \<noteq> []"
    using assms(2) by (auto simp: strict_prefix_def prefix_def)
  let ?l = "be_bytes 4 (of_nat (length s) :: u32)"
  have "take 4 (q @ z) = ?l" using z(1) by (simp add: enc_str_def flip: z(1))
  then have "take 4 q = ?l" using False by simp
  then obtain q' where q: "q = ?l @ q'" by (metis append_take_drop_id)
  then have "s = q' @ z" using z(1) by (simp add: enc_str_def)
  then have "length q' < length s" using z(2) by simp
  then show ?thesis
    using assms(1) u32.deser_enc [where x = "of_nat (length s)" and h = "serialize_helper_new q" and r = q']
    by (simp add: deserialize_str_def serialize_helper_new_def q ok_str_def)
qed

theorem truncated_str_empty_witness:
  "fst (run_state deserialize_str (serialize_helper_new [0, 0, 0, 2, 65])) = []"
proof (rule truncated_str_empty)
  have "be_bytes 4 (2 :: u32) = [0, 0, 0, 2]" by code_simp
  then show "strict_prefix [0, 0, 0, 2, 65] (enc_str [65, 66])" by (simp add: enc_str_def)
qed (simp add: ok_str_def)

text \<open>the element count of a container is not checked against the input: four bytes of input that
  hold the count n make deserialize_row build n empty strings, for every 32-bit n.\<close>

theorem row_count_amplified:
  "run_state deserialize_row (serialize_helper_new (be_bytes 4 (n :: u32))) =
    (replicate (unat n) [], serialize_helper_new [])"
proof -
  have "run_state deserialize_uint32 (serialize_helper_new (be_bytes 4 n)) = (n, serialize_helper_new [])"
    using u32.deser_enc [where x = n and h = "serialize_helper_new (be_bytes 4 n)" and r = "[]"]
    by (simp add: serialize_helper_new_def)
  moreover have "run_state deserialize_str (serialize_helper_new []) = ([], serialize_helper_new [])"
    by (simp add: deserialize_str_def deserialize_uint32_def serialize_helper_new_def)
  ultimately show ?thesis
    by (simp add: deserialize_row_def collect_fixpoint)
qed

end
