(* ===== verification/Handshake.thy ===== *)
theory Handshake
  imports OpensslUtils RandomUtils Serialize
begin

text \<open>
  The handshake of \<^verbatim>\<open>src/lygc/handshake_helper_v2.hpp\<close>: the two messages with their serialization, and the steps
  of client and server.  The request travels under the server's RSA key, cut into blocks; the response
  under the temporary AES key of the request; both sides then derive the session key.  A key handle is
  the OpenSSL parameter's; \<open>hh_lost\<close> records handles that were overwritten without being freed.
\<close>

type_synonym KeyExchangeType = u8

definition KX_DH :: KeyExchangeType where "KX_DH = 0"
definition KX_ECDH :: KeyExchangeType where "KX_ECDH = 1"

record DHExchangeReq =
  dq_p :: bytes
  dq_g :: bytes
  dq_pubkey :: bytes

record DHExchangeResp =
  ds_pubkey :: bytes

record ECDHExchangeReq =
  eq_curve_nid :: u32
  eq_pubkey :: bytes

record ECDHExchangeResp =
  es_pubkey :: bytes

definition DHExchangeReq_serialize :: "DHExchangeReq \<Rightarrow> unit ser" where
  "DHExchangeReq_serialize r = do { serialize_str (dq_p r); serialize_str (dq_g r); serialize_str (dq_pubkey r) }"

definition DHExchangeReq_deserialize :: "DHExchangeReq ser" where
  "DHExchangeReq_deserialize = do {
     p \<leftarrow> deserialize_str; g \<leftarrow> deserialize_str; pubkey \<leftarrow> deserialize_str;
     State_Monad.return \<lparr>dq_p = p, dq_g = g, dq_pubkey = pubkey\<rparr> }"

definition DHExchangeResp_serialize :: "DHExchangeResp \<Rightarrow> unit ser" where
  "DHExchangeResp_serialize r = serialize_str (ds_pubkey r)"

definition DHExchangeResp_deserialize :: "DHExchangeResp ser" where
  "DHExchangeResp_deserialize = do { pubkey \<leftarrow> deserialize_str; State_Monad.return \<lparr>ds_pubkey = pubkey\<rparr> }"

definition ECDHExchangeReq_serialize :: "ECDHExchangeReq \<Rightarrow> unit ser" where
  "ECDHExchangeReq_serialize r = do { serialize_int32 (eq_curve_nid r); serialize_str (eq_pubkey r) }"

definition ECDHExchangeReq_deserialize :: "ECDHExchangeReq ser" where
  "ECDHExchangeReq_deserialize = do {
     curve_nid \<leftarrow> deserialize_int32; pubkey \<leftarrow> deserialize_str;
     State_Monad.return \<lparr>eq_curve_nid = curve_nid, eq_pubkey = pubkey\<rparr> }"

definition ECDHExchangeResp_serialize :: "ECDHExchangeResp \<Rightarrow> unit ser" where
  "ECDHExchangeResp_serialize r = serialize_str (es_pubkey r)"

definition ECDHExchangeResp_deserialize :: "ECDHExchangeResp ser" where
  "ECDHExchangeResp_deserialize = do { pubkey \<leftarrow> deserialize_str; State_Monad.return \<lparr>es_pubkey = pubkey\<rparr> }"

record HandshakeReq =
  q_kx_type :: KeyExchangeType
  q_dh :: DHExchangeReq
  q_ecdh :: ECDHExchangeReq
  q_temp_symsec :: bytes
  q_temp_symsec_type :: u8

record HandshakeResp =
  s_kx_type :: KeyExchangeType
  s_dh :: DHExchangeResp
  s_ecdh :: ECDHExchangeResp
  s_session_symsec_type :: u8

text \<open>
  Strings start empty.  \<^verbatim>\<open>curve_nid\<close> is not initialised by the code; it is only read when the exchange is
  ECDH, after it was set, so any value will do here.
\<close>

definition no_dh :: DHExchangeReq where "no_dh = \<lparr>dq_p = [], dq_g = [], dq_pubkey = []\<rparr>"
definition no_ecdh :: ECDHExchangeReq where "no_ecdh = \<lparr>eq_curve_nid = 0, eq_pubkey = []\<rparr>"

definition req_getPeerPubkey :: "HandshakeReq \<Rightarrow> bytes" where
  "req_getPeerPubkey q = (if q_kx_type q = KX_ECDH then eq_pubkey (q_ecdh q) else dq_pubkey (q_dh q))"

definition resp_getPeerPubkey :: "HandshakeResp \<Rightarrow> bytes" where
  "resp_getPeerPubkey s = (if s_kx_type s = KX_ECDH then es_pubkey (s_ecdh s) else ds_pubkey (s_dh s))"

definition req_write :: "HandshakeReq \<Rightarrow> unit ser" where
  "req_write q = do {
     serialize_uint8 (q_kx_type q);
     (if q_kx_type q = KX_ECDH then ECDHExchangeReq_serialize (q_ecdh q) else DHExchangeReq_serialize (q_dh q));
     serialize_str (q_temp_symsec q);
     serialize_uint8 (q_temp_symsec_type q) }"

definition req_read :: "HandshakeReq ser" where
  "req_read = do {
     kx \<leftarrow> deserialize_uint8;
     (d, e) \<leftarrow> (if kx = KX_ECDH then do { e \<leftarrow> ECDHExchangeReq_deserialize; State_Monad.return (no_dh, e) }
               else do { d \<leftarrow> DHExchangeReq_deserialize; State_Monad.return (d, no_ecdh) });
     sec \<leftarrow> deserialize_str;
     ty \<leftarrow> deserialize_uint8;
     State_Monad.return \<lparr>q_kx_type = kx, q_dh = d, q_ecdh = e, q_temp_symsec = sec, q_temp_symsec_type = ty\<rparr> }"

definition HandshakeReq_serialize :: "HandshakeReq \<Rightarrow> bytes" where
  "HandshakeReq_serialize q = fst (run_state (do { req_write q; data }) (serialize_helper_new []))"

definition HandshakeReq_deserialize :: "bytes \<Rightarrow> HandshakeReq" where
  "HandshakeReq_deserialize d = fst (run_state req_read (serialize_helper_new d))"

definition resp_write :: "HandshakeResp \<Rightarrow> unit ser" where
  "resp_write s = do {
     serialize_uint8 (s_kx_type s);
     (if s_kx_type s = KX_ECDH then ECDHExchangeResp_serialize (s_ecdh s) else DHExchangeResp_serialize (s_dh s));
     serialize_uint8 (s_session_symsec_type s) }"

definition resp_read :: "HandshakeResp ser" where
  "resp_read = do {
     kx \<leftarrow> deserialize_uint8;
     (d, e) \<leftarrow> (if kx = KX_ECDH then do { e \<leftarrow> ECDHExchangeResp_deserialize; State_Monad.return (\<lparr>ds_pubkey = []\<rparr>, e) }
               else do { d \<leftarrow> DHExchangeResp_deserialize; State_Monad.return (d, \<lparr>es_pubkey = []\<rparr>) });
     ty \<leftarrow> deserialize_uint8;
     State_Monad.return \<lparr>s_kx_type = kx, s_dh = d, s_ecdh = e, s_session_symsec_type = ty\<rparr> }"

definition HandshakeResp_serialize :: "HandshakeResp \<Rightarrow> bytes" where
  "HandshakeResp_serialize s = fst (run_state (do { resp_write s; data }) (serialize_helper_new []))"

definition HandshakeResp_deserialize :: "bytes \<Rightarrow> HandshakeResp" where
  "HandshakeResp_deserialize d = fst (run_state resp_read (serialize_helper_new d))"

section \<open>The helper object\<close>

record handshake_helper =
  hh_dh :: "pkey option"
  hh_ecKey :: "pkey option"
  hh_rsaKey :: "pkey option"
  hh_kx_type :: KeyExchangeType
  hh_ec_curve_nid :: int
  hh_lost :: "pkey list"

definition handshake_helper_new :: handshake_helper where
  "handshake_helper_new = \<lparr>hh_dh = None, hh_ecKey = None, hh_rsaKey = None, hh_kx_type = KX_ECDH, hh_ec_curve_nid = 0, hh_lost = []\<rparr>"

definition lose :: "pkey option \<Rightarrow> pkey list" where
  "lose k = (case k of None \<Rightarrow> [] | Some x \<Rightarrow> [x])"

definition loadRSAKey :: "pkey option \<Rightarrow> handshake_helper \<Rightarrow> bool \<times> handshake_helper" where
  "loadRSAKey loaded hh = (loaded \<noteq> None, hh\<lparr>hh_rsaKey := loaded, hh_lost := hh_lost hh @ lose (hh_rsaKey hh)\<rparr>)"

definition set_ecKey :: "pkey option \<Rightarrow> handshake_helper \<Rightarrow> handshake_helper" where
  "set_ecKey k hh = hh\<lparr>hh_ecKey := k, hh_lost := hh_lost hh @ lose (hh_ecKey hh)\<rparr>"

definition set_dh :: "pkey option \<Rightarrow> handshake_helper \<Rightarrow> handshake_helper" where
  "set_dh k hh = hh\<lparr>hh_dh := k, hh_lost := hh_lost hh @ lose (hh_dh hh)\<rparr>"

definition is_AES :: "eEncryptType \<Rightarrow> bool" where
  "is_AES t \<longleftrightarrow> \<not> (eET_to_nat t < eET_to_nat eET_AES_ECB \<or> eET_to_nat t > eET_to_nat eET_AES_CTR)"

definition creatHSReq ::
  "openssl \<Rightarrow> rng \<Rightarrow> nat \<Rightarrow> KeyExchangeType \<Rightarrow> int \<Rightarrow> eEncryptType \<Rightarrow> handshake_helper \<Rightarrow>
   std_exception + HandshakeReq option \<times> handshake_helper" where
  "creatHSReq ssl r rnd kx_type prime_len tempType hh =
    (if \<not> is_AES tempType then Inr (None, hh)
     else let hh1 = hh\<lparr>hh_kx_type := kx_type\<rparr>;
         finish = (\<lambda>d e hh. map_sum id (\<lambda>(sec, n). (Some \<lparr>q_kx_type = kx_type, q_dh = d, q_ecdh = e, q_temp_symsec = sec,
             q_temp_symsec_type = of_nat (eET_to_nat tempType)\<rparr>, hh)) (randomString r NumbersAndLetters 32 rnd))
       in if kx_type = KX_ECDH then
         (case ecc_create ssl rnd prime_len of (rc, key) \<Rightarrow>
            let hh2 = set_ecKey key hh1 in
            if rc \<noteq> 1 then Inr (None, hh2)
            else finish no_dh \<lparr>eq_curve_nid = word_of_int prime_len, eq_pubkey = ecc_export_pubkey ssl key\<rparr>
                   (hh2\<lparr>hh_ec_curve_nid := prime_len\<rparr>))
       else if prime_len < 512 \<or> prime_len > 4096 then Inr (None, hh1)
       else (let key = dh_generate ssl rnd prime_len; hh2 = set_dh key hh1 in
          case key of None \<Rightarrow> Inr (None, hh2)
          | Some _ \<Rightarrow> finish \<lparr>dq_p = dh_export ssl key ''p'', dq_g = dh_export ssl key ''g'', dq_pubkey = dh_export ssl key ''pub''\<rparr>
               no_ecdh hh2))"

text \<open>
  The block arithmetic is that of \<^verbatim>\<open>size_t\<close>, to which the \<^verbatim>\<open>int\<close> block size is converted; without a loaded
  key \<^verbatim>\<open>EVP_PKEY_size\<close> is 0, so the divisor is 0 when decrypting.
\<close>

fun rsa_blocks ::
  "openssl \<Rightarrow> pkey option \<Rightarrow> eEncryptType \<Rightarrow> bytes \<Rightarrow> int \<Rightarrow> int \<Rightarrow> nat list \<Rightarrow> bytes \<Rightarrow> std_exception + bytes" where
  "rsa_blocks ssl key t d block_in ntimes [] result = Inr result"
| "rsa_blocks ssl key t d block_in ntimes (i # is) result =
    (let pos = word_of_int (int i * block_in) :: u64;
         n = (if int i = ntimes - 1 then of_nat (length d) - pos else word_of_int block_in) in
     if unat pos > length d then Inl out_of_range
     else (case rsa_encrypt ssl (take (unat n) (drop (unat pos) d)) key t of (rc, dst) \<Rightarrow>
       if rc > 0 then rsa_blocks ssl key t d block_in ntimes is (result @ take (nat rc) dst) else Inr []))"

definition rsaEncrypt :: "openssl \<Rightarrow> bytes \<Rightarrow> bool \<Rightarrow> handshake_helper \<Rightarrow> std_exception + bytes" where
  "rsaEncrypt ssl d enc hh =
    (let rsa_len = (case hh_rsaKey hh of None \<Rightarrow> 0 | Some k \<Rightarrow> o_pkey_size ssl k);
         block_in = (if enc then rsa_len - 11 else rsa_len);
         t = (if enc then eET_RSA_PUBLIC_ENC else eET_RSA_PRIVATE_DEC);
         b = word_of_int block_in :: u64 in
     if b = 0 then Inl (mem_error DivByZero)
     else let ntimes = sint (ucast ((of_nat (length d) + b - 1) div b) :: u32) in
       rsa_blocks ssl (hh_rsaKey hh) t d block_in ntimes [0..<nat ntimes] [])"

definition encryptHSReq :: "openssl \<Rightarrow> HandshakeReq \<Rightarrow> handshake_helper \<Rightarrow> std_exception + bytes" where
  "encryptHSReq ssl q hh = rsaEncrypt ssl (HandshakeReq_serialize q) True hh"

definition decryptHSReq :: "openssl \<Rightarrow> bytes \<Rightarrow> handshake_helper \<Rightarrow> std_exception + HandshakeReq option" where
  "decryptHSReq ssl d hh =
    map_sum id (\<lambda>result. if length result > 0 then Some (HandshakeReq_deserialize result) else None) (rsaEncrypt ssl d False hh)"

definition creatHSResp ::
  "openssl \<Rightarrow> nat \<Rightarrow> HandshakeReq \<Rightarrow> eEncryptType \<Rightarrow> handshake_helper \<Rightarrow> HandshakeResp option \<times> handshake_helper" where
  "creatHSResp ssl rnd q sessionType hh =
    (if \<not> is_AES sessionType then (None, hh)
     else let hh1 = hh\<lparr>hh_kx_type := q_kx_type q\<rparr>; ty = of_nat (eET_to_nat sessionType) in
       if q_kx_type q = KX_ECDH then
         (case ecc_create ssl rnd (sint (eq_curve_nid (q_ecdh q))) of (rc, key) \<Rightarrow>
            let hh2 = set_ecKey key hh1 in
            if rc \<noteq> 1 then (None, hh2)
            else (Some \<lparr>s_kx_type = q_kx_type q, s_dh = \<lparr>ds_pubkey = []\<rparr>, s_ecdh = \<lparr>es_pubkey = ecc_export_pubkey ssl key\<rparr>,
                    s_session_symsec_type = ty\<rparr>,
                  hh2\<lparr>hh_ec_curve_nid := sint (eq_curve_nid (q_ecdh q))\<rparr>))
       else (let key = dh_generate_from ssl rnd (dq_p (q_dh q)) (dq_g (q_dh q)); hh2 = set_dh key hh1 in
         case key of None \<Rightarrow> (None, hh2)
         | Some _ \<Rightarrow> (Some \<lparr>s_kx_type = q_kx_type q, s_dh = \<lparr>ds_pubkey = dh_export ssl key ''pub''\<rparr>, s_ecdh = \<lparr>es_pubkey = []\<rparr>,
              s_session_symsec_type = ty\<rparr>, hh2)))"

text \<open>\<^verbatim>\<open>substr(16)\<close> throws when the temporary secret is shorter than sixteen bytes.\<close>

definition temp_cipher :: "openssl \<Rightarrow> bytes \<Rightarrow> bytes \<Rightarrow> eEncryptType \<Rightarrow> bool \<Rightarrow> std_exception + int \<times> bytes option" where
  "temp_cipher ssl d temp_symsec encType enc =
    (if length temp_symsec < 16 then Inl out_of_range
     else map_sum mem_error id (symmetric_encrypt ssl d (take 16 temp_symsec) (drop 16 temp_symsec) encType enc))"

definition encryptHSResp :: "openssl \<Rightarrow> HandshakeResp \<Rightarrow> bytes \<Rightarrow> eEncryptType \<Rightarrow> std_exception + bytes" where
  "encryptHSResp ssl s temp_symsec encType =
    map_sum id (\<lambda>(rc, out). case out of None \<Rightarrow> [] | Some r \<Rightarrow> r) (temp_cipher ssl (HandshakeResp_serialize s) temp_symsec encType True)"

definition decryptHSResp :: "openssl \<Rightarrow> bytes \<Rightarrow> bytes \<Rightarrow> eEncryptType \<Rightarrow> std_exception + HandshakeResp option" where
  "decryptHSResp ssl d temp_symsec encType =
    map_sum id (\<lambda>(rc, out). case out of None \<Rightarrow> None | Some r \<Rightarrow> Some (HandshakeResp_deserialize r))
      (temp_cipher ssl d temp_symsec encType False)"

definition makeShareKey :: "openssl \<Rightarrow> bytes \<Rightarrow> handshake_helper \<Rightarrow> bytes" where
  "makeShareKey ssl peer_pubkey hh =
    (let key = (if hh_kx_type hh = KX_ECDH then hh_ecKey hh else hh_dh hh);
         keyLen = (case key of None \<Rightarrow> 0 | Some k \<Rightarrow> o_pkey_size ssl k) in
     if keyLen > 0 then
       (let (len, out) = (if hh_kx_type hh = KX_ECDH
            then ecc_compute_sharekey ssl (hh_ecKey hh) (hh_ec_curve_nid hh) peer_pubkey keyLen
            else dh_compute_sharekey ssl (hh_dh hh) peer_pubkey keyLen) in
        if len > 0 then take (nat len) out else [])
     else [])"

section \<open>The messages on the wire\<close>

definition enc_req :: "HandshakeReq \<Rightarrow> bytes" where
  "enc_req q = [q_kx_type q] @
    (if q_kx_type q = KX_ECDH then be_bytes 4 (eq_curve_nid (q_ecdh q)) @ enc_str (eq_pubkey (q_ecdh q))
     else enc_str (dq_p (q_dh q)) @ enc_str (dq_g (q_dh q)) @ enc_str (dq_pubkey (q_dh q))) @
    enc_str (q_temp_symsec q) @ [q_temp_symsec_type q]"

definition enc_resp :: "HandshakeResp \<Rightarrow> bytes" where
  "enc_resp s = [s_kx_type s] @
    enc_str (if s_kx_type s = KX_ECDH then es_pubkey (s_ecdh s) else ds_pubkey (s_dh s)) @ [s_session_symsec_type s]"

text \<open>The exchange that is not used is empty.\<close>

definition ok_req :: "HandshakeReq \<Rightarrow> bool" where
  "ok_req q \<longleftrightarrow> ok_str (q_temp_symsec q) \<and>
    (if q_kx_type q = KX_ECDH then ok_str (eq_pubkey (q_ecdh q)) \<and> q_dh q = no_dh
     else ok_str (dq_p (q_dh q)) \<and> ok_str (dq_g (q_dh q)) \<and> ok_str (dq_pubkey (q_dh q)) \<and> q_ecdh q = no_ecdh)"

definition ok_resp :: "HandshakeResp \<Rightarrow> bool" where
  "ok_resp s \<longleftrightarrow> ok_str (resp_getPeerPubkey s) \<and>
    (if s_kx_type s = KX_ECDH then s_dh s = \<lparr>ds_pubkey = []\<rparr> else s_ecdh s = \<lparr>es_pubkey = []\<rparr>)"

interpretation hs_req: codec req_write req_read enc_req ok_req
proof
  fix q and h :: serialize_helper
  show "run_state (req_write q) h = ((), h\<lparr>oss := oss h @ enc_req q\<rparr>)"
    by (simp add: req_write_def enc_req_def ECDHExchangeReq_serialize_def DHExchangeReq_serialize_def
        u8.ser_enc i32.ser_enc str.ser_enc)
next
  fix q and h :: serialize_helper and r
  assume ok: "ok_req q" and b: "stringbuf h = enc_req q @ r"
  let ?tail = "enc_str (q_temp_symsec q) @ [q_temp_symsec_type q] @ r"
  have tl: "run_state deserialize_uint8 (g\<lparr>stringbuf := q_temp_symsec_type q # r\<rparr>) = (q_temp_symsec_type q, g\<lparr>stringbuf := r\<rparr>)" for g
    using u8.deser_enc_upd [where x = "q_temp_symsec_type q" and h = g and r = r] by simp
  have hd: "run_state deserialize_uint8 h = (q_kx_type q, h\<lparr>stringbuf :=
      (if q_kx_type q = KX_ECDH then be_bytes 4 (eq_curve_nid (q_ecdh q)) @ enc_str (eq_pubkey (q_ecdh q))
       else enc_str (dq_p (q_dh q)) @ enc_str (dq_g (q_dh q)) @ enc_str (dq_pubkey (q_dh q))) @ ?tail\<rparr>)"
    using b by (intro u8.deser_enc) (simp_all add: enc_req_def)
  show "run_state req_read h = (q, h\<lparr>stringbuf := r\<rparr>)"
    using ok by (cases "q_kx_type q = KX_ECDH")
      (simp_all add: req_read_def hd ok_req_def ECDHExchangeReq_deserialize_def DHExchangeReq_deserialize_def
        i32.deser_enc_upd str.deser_enc_upd tl)
qed

interpretation hs_resp: codec resp_write resp_read enc_resp ok_resp
proof
  fix s and h :: serialize_helper
  show "run_state (resp_write s) h = ((), h\<lparr>oss := oss h @ enc_resp s\<rparr>)"
    by (simp add: resp_write_def enc_resp_def ECDHExchangeResp_serialize_def DHExchangeResp_serialize_def
        u8.ser_enc str.ser_enc)
next
  fix s and h :: serialize_helper and r
  assume ok: "ok_resp s" and b: "stringbuf h = enc_resp s @ r"
  have tl: "run_state deserialize_uint8 (g\<lparr>stringbuf := s_session_symsec_type s # r\<rparr>) = (s_session_symsec_type s, g\<lparr>stringbuf := r\<rparr>)" for g
    using u8.deser_enc_upd [where x = "s_session_symsec_type s" and h = g and r = r] by simp
  have hd: "run_state deserialize_uint8 h = (s_kx_type s, h\<lparr>stringbuf :=
      enc_str (if s_kx_type s = KX_ECDH then es_pubkey (s_ecdh s) else ds_pubkey (s_dh s)) @ [s_session_symsec_type s] @ r\<rparr>)"
    using b by (intro u8.deser_enc) (simp_all add: enc_resp_def)
  show "run_state resp_read h = (s, h\<lparr>stringbuf := r\<rparr>)"
    using ok by (cases "s_kx_type s = KX_ECDH")
      (simp_all add: resp_read_def hd ok_resp_def resp_getPeerPubkey_def ECDHExchangeResp_deserialize_def
        DHExchangeResp_deserialize_def str.deser_enc_upd tl)
qed

lemma req_roundtrip:
  "HandshakeReq_serialize q = enc_req q"
  "ok_req q \<Longrightarrow> HandshakeReq_deserialize (enc_req q @ r) = q"
  using hs_req.deser_enc [of q "serialize_helper_new (enc_req q @ r)" r]
  by (simp_all add: HandshakeReq_serialize_def HandshakeReq_deserialize_def hs_req.ser_enc serialize_helper_new_def data_def)

lemma resp_roundtrip:
  "HandshakeResp_serialize s = enc_resp s"
  "ok_resp s \<Longrightarrow> HandshakeResp_deserialize (enc_resp s @ r) = s"
  using hs_resp.deser_enc [of s "serialize_helper_new (enc_resp s @ r)" r]
  by (simp_all add: HandshakeResp_serialize_def HandshakeResp_deserialize_def hs_resp.ser_enc serialize_helper_new_def data_def)

section \<open>RSA in blocks\<close>

text \<open>
  The documented behaviour of a key pair of \<open>L\<close> bytes: up to \<open>L - 11\<close> bytes become exactly \<open>L\<close>, and the private
  key gives them back.
\<close>

definition rsa_laws :: "openssl \<Rightarrow> pkey \<Rightarrow> pkey \<Rightarrow> nat \<Rightarrow> bool" where
  "rsa_laws ssl pub pri L \<longleftrightarrow> o_pkey_size ssl pub = int L \<and> o_pkey_size ssl pri = int L \<and> 11 < L \<and> (\<forall>n. o_alloc ssl n) \<and>
    (\<forall>d. d \<noteq> [] \<and> length d \<le> L - 11 \<longrightarrow> (\<exists>n c m. o_pkey_op ssl eET_RSA_PUBLIC_ENC pub d = Some (n, Some c) \<and> length c = L \<and>
      o_pkey_op ssl eET_RSA_PRIVATE_DEC pri c = Some (m, Some d)))"

definition blk :: "nat \<Rightarrow> bytes \<Rightarrow> nat \<Rightarrow> bytes" where
  "blk b d i = take b (drop (i * b) d)"

lemma blk_pos:
  fixes n :: nat
  assumes "0 < b" and "i < (n + b - 1) div b"
  shows "i * b < n" and "i = (n + b - 1) div b - 1 \<Longrightarrow> n - i * b \<le> b"
proof -
  have "Suc i * b \<le> (n + b - 1) div b * b" using assms(2) by (intro mult_right_mono) simp_all
  then show "i * b < n" using round_up_bounds(2) [OF assms(1), of n] by simp
  assume "i = (n + b - 1) div b - 1"
  then have "Suc i = (n + b - 1) div b" using assms(2) by simp
  then have "n \<le> Suc i * b" using round_up_bounds(1) [OF assms(1), of n] by simp
  then show "n - i * b \<le> b" by simp
qed

lemma rsa_block_slice:
  assumes "0 < b" and "length d < 2 ^ 31" and "t = (length d + b - 1) div b" and "i < t" and "b < 2 ^ 31"
    and "pos = (word_of_int (int i * int b) :: u64)"
    and "n = (if int i = int t - 1 then of_nat (length d) - pos else word_of_int (int b))"
  shows "unat pos = i * b" and "take (unat n) (drop (unat pos) d) = blk b d i" and "unat pos \<le> length d"
proof -
  have i: "i * b < length d" "i = t - 1 \<Longrightarrow> length d - i * b \<le> b"
    using blk_pos [OF assms(1), of i "length d"] assms(3,4) by simp_all
  have p: "pos = of_nat (i * b)" using assms(6) by simp
  show pos: "unat pos = i * b" using i(1) assms(2) by (simp add: p unat_of_nat take_bit_nat_eq_self del: of_nat_mult)
  then show "unat pos \<le> length d" using i(1) by simp
  show "take (unat n) (drop (unat pos) d) = blk b d i"
  proof (cases "i = t - 1")
    case True
    then have "n = of_nat (length d - i * b)" using assms(4,7) i(1) by (simp add: p of_nat_diff)
    then have "unat n = length d - i * b" using assms(2) by (simp add: unat_of_nat take_bit_nat_eq_self del: of_nat_diff)
    with True i(2) show ?thesis by (simp add: pos blk_def)
  next
    case False
    then have "int i \<noteq> int t - 1" using assms(4) by linarith
    then have "n = of_nat b" using assms(7) by simp
    then have "unat n = b" using assms(5) by (simp add: unat_of_nat take_bit_nat_eq_self)
    then show ?thesis by (simp add: pos blk_def)
  qed
qed

lemma rsa_blocks_map:
  assumes "0 < b" and "length d < 2 ^ 31" and "t = (length d + b - 1) div b" and "b < 2 ^ 31"
    and "\<And>i. i < t \<Longrightarrow> rsa_encrypt ssl (blk b d i) key ty = (int (length (g i)), g i) \<and> g i \<noteq> []"
    and "set is \<subseteq> {..<t}"
  shows "rsa_blocks ssl key ty d (int b) (int t) is acc = Inr (acc @ concat (map g is))"
  using assms(6)
proof (induction "is" arbitrary: acc)
  case (Cons i "is")
  then have i: "i < t" by simp
  note sl = rsa_block_slice [OF assms(1-3) i assms(4) refl refl]
  have "\<not> length d < unat (word_of_int (int i * int b) :: u64)" using sl(3) by simp
  then show ?case using Cons assms(5) [OF i] unfolding rsa_blocks.simps Let_def sl(2) by simp
qed simp

lemma sint_u32_of_nat:
  assumes "n < 2 ^ 31"
  shows "sint (ucast (of_nat n :: u64) :: u32) = int n"
proof -
  have "unat (of_nat n :: u64) = n" using assms by (simp add: unat_of_nat take_bit_nat_eq_self)
  then have "unat (ucast (of_nat n :: u64) :: u32) = n" using assms by (subst unat_ucast_small) simp_all
  then have "uint (ucast (of_nat n :: u64) :: u32) = int n" by (metis uint_nat)
  then show ?thesis using assms unfolding sint_uint by (simp add: signed_take_bit_int_eq_self)
qed

lemma rsaEncrypt_blocks:
  assumes "hh_rsaKey hh = Some key" and "o_pkey_size ssl key = int (if enc then b + 11 else b)"
    and "0 < b" and "length d < 2 ^ 31" and "b < 2 ^ 31"
    and "\<And>i. i < (length d + b - 1) div b \<Longrightarrow>
      rsa_encrypt ssl (blk b d i) (Some key) (if enc then eET_RSA_PUBLIC_ENC else eET_RSA_PRIVATE_DEC) = (int (length (g i)), g i) \<and> g i \<noteq> []"
  shows "rsaEncrypt ssl d enc hh = Inr (concat (map g [0..<(length d + b - 1) div b]))"
proof -
  let ?t = "(length d + b - 1) div b" and ?w = "of_nat (length d) + of_nat b - 1 :: u64"
  have "?w = of_nat (length d + b - 1)" using assms(3) by (simp add: of_nat_diff)
  then have w: "unat ?w = length d + b - 1" "unat (of_nat b :: u64) = b"
    using assms(4,5) by (simp_all add: unat_of_nat take_bit_nat_eq_self del: of_nat_diff of_nat_add)
  then have dv: "?w div of_nat b = of_nat ?t" by (simp add: word_arith_nat_div)
  have "length d \<le> length d * b" using assms(3) by simp
  then have "length d + b - 1 < Suc (length d) * b" using assms(3) unfolding mult_Suc by linarith
  then have "?t < Suc (length d)" by (rule less_mult_imp_div_less)
  then have t: "?t < 2 ^ 31" using assms(4) by simp
  then have "sint (ucast (of_nat ?t :: u64) :: u32) = int ?t"
    by (simp add: sint_u32_of_nat)
  moreover have "(of_nat b :: u64) \<noteq> 0" using w(2) assms(3) by (metis less_irrefl unat_0)
  moreover have "rsa_blocks ssl (Some key) (if enc then eET_RSA_PUBLIC_ENC else eET_RSA_PRIVATE_DEC) d (int b) (int ?t) [0..<?t] [] =
      Inr ([] @ concat (map g [0..<?t]))"
    using assms(3-6) by (intro rsa_blocks_map) auto
  ultimately show ?thesis
    using assms(1,2) dv by (cases enc) (simp_all add: rsaEncrypt_def Let_def)
qed

lemma concat_blks: "concat (map (blk b d) [0..<t]) = take (t * b) d"
proof (induction t)
  case (Suc t)
  have "take (Suc t * b) d = take (t * b) d @ take b (drop (t * b) d)"
    using take_add [of "t * b" b d] by (simp add: add.commute)
  then show ?case using Suc by (simp add: blk_def)
qed simp

lemma blk_concat:
  assumes "\<And>i. i < t \<Longrightarrow> length (g i) = L" and "i < t"
  shows "blk L (concat (map g [0..<t])) i = g i"
proof -
  have c: "length (concat (map g [0..<j])) = j * L" if "j \<le> t" for j
    using that assms(1) by (induction j) auto
  have "[0..<t] = [0..<i] @ i # [Suc i..<t]"
    using assms(2) upt_add_eq_append [of 0 i "t - i"] by (simp add: upt_conv_Cons)
  then have "concat (map g [0..<t]) = concat (map g [0..<i]) @ g i @ concat (map g [Suc i..<t])" by simp
  then show ?thesis using c [of i] assms by (simp add: blk_def)
qed

lemma rsa_block_inverse:
  assumes "rsa_laws ssl pub pri L" and "d \<noteq> []" and "length d \<le> L - 11"
    and "c = snd (rsa_encrypt ssl d (Some pub) eET_RSA_PUBLIC_ENC)"
  shows "rsa_encrypt ssl d (Some pub) eET_RSA_PUBLIC_ENC = (int (length c), c)" and "length c = L"
    and "rsa_encrypt ssl c (Some pri) eET_RSA_PRIVATE_DEC = (int (length d), d)"
proof -
  obtain n e m where "o_pkey_op ssl eET_RSA_PUBLIC_ENC pub d = Some (n, Some e)" "length e = L"
      "o_pkey_op ssl eET_RSA_PRIVATE_DEC pri e = Some (m, Some d)" "\<forall>n. o_alloc ssl n"
    using assms(1-3) unfolding rsa_laws_def by blast
  then show "rsa_encrypt ssl d (Some pub) eET_RSA_PUBLIC_ENC = (int (length c), c)" and "length c = L"
    and "rsa_encrypt ssl c (Some pri) eET_RSA_PRIVATE_DEC = (int (length d), d)"
    using assms(4) by (simp_all add: rsa_encrypt_def pkey_op_def)
qed

lemma rsa_inverse:
  assumes "rsa_laws ssl pub pri L" and "hh_rsaKey clt = Some pub" and "hh_rsaKey srv = Some pri"
    and "d \<noteq> []" and "length d * L < 2 ^ 31"
  shows "\<exists>e. rsaEncrypt ssl d True clt = Inr e \<and> rsaEncrypt ssl e False srv = Inr d"
proof -
  define b where "b = L - 11"
  define t where "t = (length d + b - 1) div b"
  define c where "c i = snd (rsa_encrypt ssl (blk b d i) (Some pub) eET_RSA_PUBLIC_ENC)" for i
  let ?e = "concat (map c [0..<t])"
  have L: "11 < L" "o_pkey_size ssl pub = int L" "o_pkey_size ssl pri = int L" using assms(1) by (simp_all add: rsa_laws_def)
  have b: "0 < b" "L = b + 11" using L by (simp_all add: b_def)
  have "0 < length d" using assms(4) by simp
  then have "L \<le> length d * L" "length d \<le> length d * L" using L(1) by (simp_all add: Suc_leI)
  then have ld: "length d < 2 ^ 31" "L < 2 ^ 31" using assms(5) by linarith+
  have bi: "rsa_encrypt ssl (blk b d i) (Some pub) eET_RSA_PUBLIC_ENC = (int (length (c i)), c i)" "length (c i) = L"
      "rsa_encrypt ssl (c i) (Some pri) eET_RSA_PRIVATE_DEC = (int (length (blk b d i)), blk b d i)" "blk b d i \<noteq> []" if "i < t" for i
  proof -
    have ne: "blk b d i \<noteq> []" using blk_pos(1) [OF b(1), of i "length d"] that b by (simp add: t_def blk_def)
    moreover have "length (blk b d i) \<le> L - 11" using b by (simp add: blk_def)
    ultimately show "rsa_encrypt ssl (blk b d i) (Some pub) eET_RSA_PUBLIC_ENC = (int (length (c i)), c i)" "length (c i) = L"
      "rsa_encrypt ssl (c i) (Some pri) eET_RSA_PRIVATE_DEC = (int (length (blk b d i)), blk b d i)" "blk b d i \<noteq> []"
      using rsa_block_inverse [OF assms(1), of "blk b d i" "c i"] by (simp_all add: c_def)
  qed
  have "\<And>i. i < t \<Longrightarrow> c i \<noteq> []" using bi(2) L(1) by fastforce
  then have "rsaEncrypt ssl d True clt = Inr ?e"
    using assms(2) L(2) b ld bi(1) unfolding t_def by (intro rsaEncrypt_blocks) (simp_all add: t_def [symmetric])
  moreover have le: "length ?e = t * L"
  proof -
    have "length (concat (map c [0..<j])) = j * L" if "j \<le> t" for j using that bi(2) by (induction j) auto
    then show ?thesis by simp
  qed
  have t: "t \<le> length d"
  proof -
    have "length d \<le> length d * b" using b(1) by simp
    then have "length d + b - 1 < Suc (length d) * b" using b(1) unfolding mult_Suc by linarith
    then show ?thesis unfolding t_def by (metis less_Suc_eq_le less_mult_imp_div_less)
  qed
  then have "t * L \<le> length d * L" by (rule mult_right_mono) simp
  then have e31: "length ?e < 2 ^ 31" unfolding le using assms(5) by (rule le_less_trans)
  have tt: "(length ?e + L - 1) div L = t"
  proof -
    have "(L - 1 + t * L) div L = t + (L - 1) div L" using L(1) by (intro div_mult_self1) simp
    moreover have "t * L + L - 1 = L - 1 + t * L" using L(1) by simp
    ultimately show ?thesis using le L(1) by simp
  qed
  have "rsaEncrypt ssl ?e False srv = Inr (concat (map (blk b d) [0..<(length ?e + L - 1) div L]))"
    using assms(3) L ld e31 bi(3,4) blk_concat [of t c L] bi(2)
    by (intro rsaEncrypt_blocks [where key = pri]) (simp_all add: tt [simplified])
  moreover have "concat (map (blk b d) [0..<t]) = d"
    using round_up_bounds(1) [OF b(1), of "length d"] by (simp add: concat_blks t_def)
  ultimately show ?thesis by (simp only: tt) blast
qed

section \<open>The steps\<close>

lemma is_AES_cases:
  assumes "is_AES t"
  obtains m where "sym_cipher t = Some (EVP_aes 128 m)" "t \<noteq> eET_3DES_ECB" "t \<noteq> eET_3DES_CBC"
  using assms by (cases t) (simp_all add: is_AES_def eET_list_def)

definition aes_laws :: "openssl \<Rightarrow> bool" where
  "aes_laws ssl \<longleftrightarrow> (\<forall>m. evp_laws ssl (EVP_aes 128 m) \<and> o_key_length ssl (EVP_aes 128 m) = 16 \<and> o_iv_length ssl (EVP_aes 128 m) \<le> 16)"

lemma aes_inverse:
  assumes "aes_laws ssl" and "is_AES t" and "length k = 16" and "length iv = 16" and "length s \<le> 2 ^ 31 - 32"
  shows "\<exists>e z. symmetric_encrypt ssl s k iv t True = Inr (0, Some e) \<and> length s \<le> length e \<and>
    symmetric_encrypt ssl e k iv t False = Inr (0, Some (s @ z))"
proof -
  obtain m where m: "sym_cipher t = Some (EVP_aes 128 m)" "t \<noteq> eET_3DES_ECB" "t \<noteq> eET_3DES_CBC"
    using assms(2) by (rule is_AES_cases)
  have "key_ok ssl t (EVP_aes 128 m) k iv" "evp_laws ssl (EVP_aes 128 m)"
    using assms(1,3,4) m(2,3) by (simp_all add: key_ok_def aes_laws_def)
  from symmetric_encrypt_inverse [OF m(1) this assms(5)] show ?thesis by (force simp: zero_pad_def)
qed

lemma temp_cipher_inverse:
  assumes "aes_laws ssl" and "is_AES t" and "length sec = 32" and "length s \<le> 2 ^ 31 - 32"
  shows "\<exists>e z. temp_cipher ssl s sec t True = Inr (0, Some e) \<and> length s \<le> length e \<and>
    temp_cipher ssl e sec t False = Inr (0, Some (s @ z))"
  using aes_inverse [OF assms(1,2), of "take 16 sec" "drop 16 sec" s] assms(3,4) by (auto simp: temp_cipher_def)

lemma hs_resp_delivered:
  assumes "aes_laws ssl" and "is_AES t" and "length sec = 32" and "ok_resp s" and "length (enc_resp s) \<le> 2 ^ 31 - 32"
  shows "\<exists>e. encryptHSResp ssl s sec t = Inr e \<and> e \<noteq> [] \<and> decryptHSResp ssl e sec t = Inr (Some s)"
proof -
  obtain e z where e: "temp_cipher ssl (enc_resp s) sec t True = Inr (0, Some e)" "length (enc_resp s) \<le> length e"
      "temp_cipher ssl e sec t False = Inr (0, Some (enc_resp s @ z))"
    using temp_cipher_inverse [OF assms(1-3,5)] by blast
  have "0 < length (enc_resp s)" by (simp add: enc_resp_def)
  with e have "e \<noteq> []" by auto
  with e assms(4) show ?thesis by (simp add: encryptHSResp_def decryptHSResp_def resp_roundtrip)
qed

lemma hs_request_arrives:
  assumes "rsa_laws ssl pub pri L" and "hh_rsaKey clt = Some pub" and "hh_rsaKey srv = Some pri"
    and "ok_req q" and "length (HandshakeReq_serialize q) * L < 2 ^ 31"
  shows "\<exists>e. encryptHSReq ssl q clt = Inr e \<and> decryptHSReq ssl e srv = Inr (Some q)"
proof -
  have n: "enc_req q \<noteq> []" by (simp add: enc_req_def)
  obtain e where "rsaEncrypt ssl (enc_req q) True clt = Inr e" "rsaEncrypt ssl e False srv = Inr (enc_req q)"
    using rsa_inverse [OF assms(1-3) n] assms(5) by (auto simp: req_roundtrip)
  then show ?thesis
    using n req_roundtrip(2) [OF assms(4), of "[]"] by (simp add: encryptHSReq_def decryptHSReq_def req_roundtrip)
qed

text \<open>
  The handshake request arrives: what the client encrypts under the server's public key, in as many
  RSA blocks as it takes, the server decrypts and decodes to the same request.
\<close>
theorem hs_request_delivered:
  assumes "rsa_laws ssl pub pri L" and "hh_rsaKey clt = Some pub" and "hh_rsaKey srv = Some pri"
    and "ok_req q" and "length (HandshakeReq_serialize q) * L < 2 ^ 31"
  shows "\<exists>e. encryptHSReq ssl q clt = Inr e \<and> decryptHSReq ssl e srv = Inr (Some q)"
  using assms by (rule hs_request_arrives)

lemma sample_rsa_laws: "rsa_laws sample_openssl pub pri 64"
  unfolding rsa_laws_def sample_openssl_def by (auto simp: unat_of_nat take_bit_nat_eq_self)

theorem hs_request_delivered_witness:
  "\<exists>clt srv q e. q_temp_symsec q = replicate 100 3 \<and>
    encryptHSReq sample_openssl q clt = Inr e \<and> decryptHSReq sample_openssl e srv = Inr (Some q)"
proof -
  let ?h = "snd (loadRSAKey (Some 5) handshake_helper_new)"
  let ?q = "\<lparr>q_kx_type = KX_ECDH, q_dh = no_dh, q_ecdh = \<lparr>eq_curve_nid = 415, eq_pubkey = [4, 5]\<rparr>,
    q_temp_symsec = replicate 100 3, q_temp_symsec_type = 14\<rparr>"
  have "\<exists>e. encryptHSReq sample_openssl ?q ?h = Inr e \<and> decryptHSReq sample_openssl e ?h = Inr (Some ?q)"
    by (rule hs_request_delivered [OF sample_rsa_laws])
      (simp_all add: loadRSAKey_def ok_req_def ok_str_def req_roundtrip enc_req_def enc_str_def)
  moreover have "q_temp_symsec ?q = replicate 100 3" by simp
  ultimately show ?thesis by blast
qed

text \<open>
  Decrypting a handshake request before a private key was loaded divides by zero: the block size is
  the size of a null key.
\<close>
theorem no_key_divides_by_zero:
  assumes "hh_rsaKey hh = None"
  shows "decryptHSReq ssl d hh = Inl (mem_error DivByZero)"
  using assms by (simp add: decryptHSReq_def rsaEncrypt_def)

theorem no_key_divides_by_zero_witness:
  "decryptHSReq sample_openssl [1, 2, 3] handshake_helper_new = Inl (mem_error DivByZero)"
  by (rule no_key_divides_by_zero) (simp add: handshake_helper_new_def)

end
