(* ===== verification/TcpMessage.thy ===== *)
theory TcpMessage
  imports Prelude
begin

text \<open>
  Messages and message protocols (\<^verbatim>\<open>src/zbf/tcp_message.hpp\<close>).  The abstract class
  \<^verbatim>\<open>tcp_message_protocol\<close> is a record of its virtual functions, a \<^verbatim>\<open>const tcp_message*\<close> an option.
  \<^verbatim>\<open>default_msg_proto\<close> is the instance with a four-byte header: eight bits of type, 24 bits of
  body size.

  The locale \<open>msg_protocol\<close> states what the transport relies on: the header has a fixed positive
  size and the body size is a function of the header bytes alone.
\<close>

record tcp_message =
  msg_data :: bytes

definition tcp_message_desc :: "tcp_message \<Rightarrow> bytes" where
  "tcp_message_desc m = lit ''sz:'' @ to_string (length (msg_data m))"

record tcp_message_protocol =
  genHeartbeat :: "tcp_message option"
  isHeartbeat :: "tcp_message option \<Rightarrow> bool"
  msg_type :: "tcp_message option \<Rightarrow> u32"
  headerSize :: u32
  bodySize :: "tcp_message option \<Rightarrow> u32"
  MaxBodySize :: u32

definition Type_NaN :: u32 where "Type_NaN = 0x00"
definition Heartbeat :: u32 where "Heartbeat = 0x01"
definition default_MaxBodySize :: u32 where "default_MaxBodySize = 1048576 * 16"

section \<open>The default protocol: header[4] | body[size]\<close>

definition extract_uint32 :: "bytes \<Rightarrow> u32" where
  "extract_uint32 dat = (if length dat < 4 then 0 else ntohl (mem_load (take 4 dat)))"

definition append_uint32 :: "bytes \<Rightarrow> u32 \<Rightarrow> bytes" where
  "append_uint32 dat val = dat @ mem_image 4 (htonl val)"

definition default_type :: "tcp_message option \<Rightarrow> u32" where
  "default_type msg =
    (case msg of None \<Rightarrow> Type_NaN
     | Some m \<Rightarrow> if length (msg_data m) < 4 then Type_NaN
       else drop_bit 24 (extract_uint32 (msg_data m) AND 0xFF000000))"

definition default_bodySize :: "tcp_message option \<Rightarrow> u32" where
  "default_bodySize msg =
    (case msg of None \<Rightarrow> 0
     | Some m \<Rightarrow> if length (msg_data m) < 4 then 0
       else extract_uint32 (msg_data m) AND 0xFFFFFF)"

text \<open>\<^verbatim>\<open>hdr << 24 | body.size()\<close> is computed in \<^verbatim>\<open>size_t\<close> and narrowed to 32 bits.\<close>

definition genMessage :: "u8 \<Rightarrow> bytes \<Rightarrow> tcp_message option" where
  "genMessage ty body =
    (if length body > unat default_MaxBodySize then None
     else let hdr = push_bit 24 (ucast ty :: u32) OR of_nat (length body) in
       Some \<lparr>msg_data = append_uint32 [] hdr @ body\<rparr>)"

definition default_msg_proto :: tcp_message_protocol where
  "default_msg_proto = \<lparr>
     genHeartbeat = genMessage (ucast Heartbeat) [],
     isHeartbeat = (\<lambda>msg. default_type msg = Heartbeat),
     msg_type = default_type,
     headerSize = 4,
     bodySize = default_bodySize,
     MaxBodySize = default_MaxBodySize\<rparr>"

section \<open>The contract of a protocol\<close>

lemma tcp_message_eta [simp]: "\<lparr>msg_data = msg_data m\<rparr> = m"
  by (cases m) simp

definition wf_msg :: "tcp_message_protocol \<Rightarrow> tcp_message \<Rightarrow> bool" where
  "wf_msg p m \<longleftrightarrow> length (msg_data m) = unat (headerSize p) + unat (bodySize p (Some m)) \<and>
     bodySize p (Some m) \<le> MaxBodySize p"

locale msg_protocol =
  fixes p :: tcp_message_protocol
  assumes header_pos: "0 < unat (headerSize p)"
    and bodySize_header: "unat (headerSize p) \<le> length d \<Longrightarrow>
      bodySize p (Some \<lparr>msg_data = d\<rparr>) = bodySize p (Some \<lparr>msg_data = take (unat (headerSize p)) d\<rparr>)"
    and sizes_fit: "unat (headerSize p) + unat (MaxBodySize p) < 2 ^ 32"
    and heartbeat_wf: "\<exists>m. genHeartbeat p = Some m \<and> wf_msg p m \<and> isHeartbeat p (Some m)"
begin

lemma bodySize_append:
  "unat (headerSize p) \<le> length d \<Longrightarrow>
   bodySize p (Some \<lparr>msg_data = d @ r\<rparr>) = bodySize p (Some \<lparr>msg_data = d\<rparr>)"
  using bodySize_header [of d] bodySize_header [of "d @ r"] by simp

lemma wf_not_empty: "wf_msg p m \<Longrightarrow> msg_data m \<noteq> []"
  using header_pos by (auto simp: wf_msg_def)

text \<open>Two well-formed messages at the front of the same bytes are the same message.\<close>

lemma wf_prefix_unique:
  assumes "wf_msg p m" and "wf_msg p m'" and "msg_data m @ r = msg_data m' @ r'"
  shows "m = m' \<and> r = r'"
proof -
  let ?n = "unat (headerSize p)"
  have le: "?n \<le> length (msg_data m)" "?n \<le> length (msg_data m')"
    using assms by (simp_all add: wf_msg_def)
  have "bodySize p (Some \<lparr>msg_data = msg_data m\<rparr>) = bodySize p (Some \<lparr>msg_data = msg_data m'\<rparr>)"
    using bodySize_append [OF le(1), of r] bodySize_append [OF le(2), of r'] assms(3) by simp
  then have "length (msg_data m) = length (msg_data m')"
    using assms by (simp add: wf_msg_def)
  with assms(3) show ?thesis by (simp add: append_eq_append_conv)
qed

end

section \<open>The default protocol meets the contract up to its size field\<close>

lemma extract_append: "extract_uint32 (append_uint32 [] v @ r) = v"
  by (simp add: extract_uint32_def append_uint32_def wire)

lemma length_append_uint32 [simp]: "length (append_uint32 d v) = length d + 4"
  by (simp add: append_uint32_def)

lemma bit_masks:
  "bit (0xFFFFFF :: int) n \<longleftrightarrow> n < 24"
  "bit (0xFF000000 :: int) n \<longleftrightarrow> 24 \<le> n \<and> n < 32"
  "bit (0x1000000 :: int) n \<longleftrightarrow> n = 24"
  "bit (0xFF :: int) n \<longleftrightarrow> n < 8"
proof -
  have "(0xFFFFFF :: int) = mask 24" "(0xFF000000 :: int) = push_bit 24 (mask 8)"
    "(0x1000000 :: int) = push_bit 24 1" "(0xFF :: int) = mask 8"
    by (simp_all add: mask_eq_exp_minus_1 push_bit_eq_mult)
  then show "bit (0xFFFFFF :: int) n \<longleftrightarrow> n < 24" "bit (0xFF000000 :: int) n \<longleftrightarrow> 24 \<le> n \<and> n < 32"
    "bit (0x1000000 :: int) n \<longleftrightarrow> n = 24" "bit (0xFF :: int) n \<longleftrightarrow> n < 8"
    by (auto simp only: bit_simps) auto
qed

lemma low24:
  assumes "n < 2 ^ 24"
  shows "(push_bit 24 (ucast (t :: u8)) OR of_nat n) AND 0xFFFFFF = (of_nat n :: u32)"
  using not_bit_nat [OF assms]
  by (intro bit_word_eqI) (auto simp: bit_simps bit_masks not_less intro: ccontr)

lemma high8:
  assumes "n < 2 ^ 24"
  shows "drop_bit 24 ((push_bit 24 (ucast (t :: u8)) OR of_nat n) AND 0xFF000000) = (ucast t :: u32)"
  using not_bit_nat [OF assms]
  by (intro bit_word_eqI) (auto simp: bit_simps bit_masks not_less dest: bit_imp_le_length)

lemma default_proto_sel [simp]:
  "headerSize default_msg_proto = 4" "bodySize default_msg_proto = default_bodySize"
  "MaxBodySize default_msg_proto = default_MaxBodySize" "msg_type default_msg_proto = default_type"
  "genHeartbeat default_msg_proto = genMessage (ucast Heartbeat) []"
  "isHeartbeat default_msg_proto msg \<longleftrightarrow> default_type msg = Heartbeat"
  by (simp_all add: default_msg_proto_def)

lemma unat_default_MaxBodySize [simp]: "unat default_MaxBodySize = 16777216"
  by (simp add: default_MaxBodySize_def)

lemma genMessage_fields:
  assumes "length body < 2 ^ 24"
  obtains m where "genMessage ty body = Some m" "default_type (Some m) = ucast ty"
    "default_bodySize (Some m) = of_nat (length body)" "drop 4 (msg_data m) = body"
    "length (msg_data m) = 4 + length body"
  using assms that
  by (simp add: genMessage_def Let_def default_type_def default_bodySize_def extract_append low24 high8
      del: drop_bit_and)

lemma default_bodySize_le: "default_bodySize m \<le> default_MaxBodySize"
proof -
  have "w AND 0xFFFFFF \<le> (default_MaxBodySize :: u32)" for w :: u32
    using word_and_le1 [of w "0xFFFFFF"] by (rule order_trans) (simp add: default_MaxBodySize_def)
  then show ?thesis by (simp add: default_bodySize_def split: option.split)
qed

lemma genMessage_wf:
  assumes "length body < 2 ^ 24" and "genMessage ty body = Some m"
  shows "wf_msg default_msg_proto m"
proof -
  obtain m' where "genMessage ty body = Some m'" "default_bodySize (Some m') = of_nat (length body)"
      "length (msg_data m') = 4 + length body"
    using assms(1) by (rule genMessage_fields [where ty = ty])
  then show ?thesis
    using assms default_bodySize_le [of "Some m"] by (simp add: wf_msg_def)
qed

interpretation default_proto: msg_protocol default_msg_proto
proof
  fix d :: bytes
  assume "unat (headerSize default_msg_proto) \<le> length d"
  then show "bodySize default_msg_proto (Some \<lparr>msg_data = d\<rparr>) =
      bodySize default_msg_proto (Some \<lparr>msg_data = take (unat (headerSize default_msg_proto)) d\<rparr>)"
    by (simp add: default_bodySize_def extract_uint32_def)
next
  obtain m where m: "genMessage (ucast Heartbeat) [] = Some m" "default_type (Some m) = Heartbeat"
      "default_bodySize (Some m) = 0" "length (msg_data m) = 4"
    by (rule genMessage_fields [of "[]" "ucast Heartbeat"]) (simp_all add: Heartbeat_def)
  then show "\<exists>m. genHeartbeat default_msg_proto = Some m \<and> wf_msg default_msg_proto m \<and>
      isHeartbeat default_msg_proto (Some m)"
    by (simp add: wf_msg_def)
qed simp_all

section \<open>Properties\<close>

text \<open>a message generated for a type and a body below 16M reads back: the type, the body size and
  the body are those it was made from.\<close>

theorem genMessage_roundtrip:
  assumes "length body < 2 ^ 24"
  shows "\<exists>m. genMessage ty body = Some m \<and> msg_type default_msg_proto (Some m) = ucast ty \<and>
    unat (bodySize default_msg_proto (Some m)) = length body \<and>
    drop (unat (headerSize default_msg_proto)) (msg_data m) = body \<and> wf_msg default_msg_proto m"
proof -
  obtain m where m: "genMessage ty body = Some m" "default_type (Some m) = ucast ty"
      "default_bodySize (Some m) = of_nat (length body)" "drop 4 (msg_data m) = body"
      "length (msg_data m) = 4 + length body"
    using assms by (rule genMessage_fields [where ty = ty])
  then show ?thesis
    using assms genMessage_wf [of body ty m] by (intro exI [of _ m]) simp
qed

theorem genMessage_roundtrip_witness:
  "\<exists>m. genMessage 5 [1, 2, 3] = Some m \<and> msg_type default_msg_proto (Some m) = ucast (5 :: u8) \<and>
    unat (bodySize default_msg_proto (Some m)) = length [1, 2, 3 :: byte] \<and>
    drop (unat (headerSize default_msg_proto)) (msg_data m) = [1, 2, 3] \<and> wf_msg default_msg_proto m"
  by (rule genMessage_roundtrip) simp

text \<open>a body of exactly MaxBodySize bytes passes the size check of genMessage, but its size does
  not fit the 24-bit field: the generated message claims an empty body, and the carry sets the lowest
  bit of the type.\<close>

theorem genMessage_max_body_corrupt:
  assumes "length body = unat default_MaxBodySize"
  shows "\<exists>m. genMessage ty body = Some m \<and> bodySize default_msg_proto (Some m) = 0 \<and>
    msg_type default_msg_proto (Some m) = ucast ty OR 1 \<and> \<not> wf_msg default_msg_proto m"
proof -
  let ?h = "push_bit 24 (ucast ty :: u32) OR 0x1000000"
  let ?m = "\<lparr>msg_data = append_uint32 [] ?h @ body\<rparr>"
  have "?h AND 0xFFFFFF = 0"
    by (intro bit_word_eqI) (auto simp: bit_simps bit_masks)
  moreover have "drop_bit 24 (?h AND 0xFF000000) = ucast ty OR 1"
    by (intro bit_word_eqI) (auto simp: bit_simps bit_masks dest: bit_imp_le_length)
  moreover have "genMessage ty body = Some ?m"
    using assms by (simp add: genMessage_def Let_def)
  ultimately show ?thesis
    using assms by (intro exI [of _ ?m])
      (simp add: default_type_def default_bodySize_def extract_append wf_msg_def del: drop_bit_and)
qed

theorem genMessage_max_body_corrupt_witness:
  "\<exists>m. genMessage 2 (replicate (unat default_MaxBodySize) 0) = Some m \<and>
    bodySize default_msg_proto (Some m) = 0 \<and>
    msg_type default_msg_proto (Some m) = ucast (2 :: u8) OR 1 \<and> \<not> wf_msg default_msg_proto m"
  by (rule genMessage_max_body_corrupt) simp

end
