(* ===== verification/LymsgProtocol.thy ===== *)
theory LymsgProtocol
  imports TcpMessage
begin

text \<open>
  The message protocol of the services (\<^verbatim>\<open>src/lygc/lymsg_protocol.hpp\<close>): the packed 20-byte header
  \<^verbatim>\<open>lymsg_header\<close>, its conversion between host and network order, the protocol class and the helper
  that packs and unpacks messages.  \<open>header_image\<close> and \<open>header_load\<close> are the memory layout that
  \<^verbatim>\<open>#pragma pack(1)\<close> fixes, on a little-endian host; the header is compiled with
  \<^verbatim>\<open>LYMSG_NETWORK_BYTE_ORDER\<close> defined, as the file does.
\<close>

record lymsg_header =
  origin :: u16
  reserve :: u16
  hdr_type :: u32
  serial :: u64
  hdr_size :: u32

definition htonll :: "u64 \<Rightarrow> u64" where
  "htonll host =
    (let lo = ucast (host AND 0xFFFFFFFF) :: u32; hi = ucast (drop_bit 32 host) :: u32
     in push_bit 32 (ucast (htonl lo)) OR ucast (htonl hi))"

definition ntohll :: "u64 \<Rightarrow> u64" where
  "ntohll net =
    (let lo = ucast (net AND 0xFFFFFFFF) :: u32; hi = ucast (drop_bit 32 net) :: u32
     in push_bit 32 (ucast (ntohl hi)) OR ucast (ntohl lo))"

definition hton :: "lymsg_header \<Rightarrow> lymsg_header" where
  "hton header = header\<lparr>
     origin := htons (origin header),
     reserve := htons (reserve header),
     hdr_type := htonl (hdr_type header),
     serial := htonll (serial header),
     hdr_size := htonl (hdr_size header)\<rparr>"

definition ntoh :: "lymsg_header \<Rightarrow> lymsg_header" where
  "ntoh header = header\<lparr>
     origin := ntohs (origin header),
     reserve := ntohs (reserve header),
     hdr_type := ntohl (hdr_type header),
     serial := ntohll (serial header),
     hdr_size := ntohl (hdr_size header)\<rparr>"

definition LYMSG_TYPE_REQ :: u32 where "LYMSG_TYPE_REQ = 0x00000000"
definition LYMSG_TYPE_RESP :: u32 where "LYMSG_TYPE_RESP = 0x80000000"
definition LYMSG_TYPE_ENC :: u32 where "LYMSG_TYPE_ENC = 0x40000000"
definition LYMSG_TYPE_HANDSHAKE :: u32 where "LYMSG_TYPE_HANDSHAKE = 0x00000011"
definition LYMSG_TYPE_DB_MYSQL :: u32 where "LYMSG_TYPE_DB_MYSQL = 0x00000021"
definition LYMSG_TYPE_DB_MONGO :: u32 where "LYMSG_TYPE_DB_MONGO = 0x00000022"
definition LYMSG_TYPE_DB_REDIS :: u32 where "LYMSG_TYPE_DB_REDIS = 0x00000023"
definition LYMSG_TYPE_RESERVE :: u32 where "LYMSG_TYPE_RESERVE = 0x000000FF"

definition sizeof_lymsg_header :: nat where "sizeof_lymsg_header = 20"

definition header_image :: "lymsg_header \<Rightarrow> bytes" where
  "header_image h = mem_image 2 (origin h) @ mem_image 2 (reserve h) @ mem_image 4 (hdr_type h) @
     mem_image 8 (serial h) @ mem_image 4 (hdr_size h)"

definition header_load :: "bytes \<Rightarrow> lymsg_header" where
  "header_load d = \<lparr>
     origin = mem_load (take 2 d),
     reserve = mem_load (take 2 (drop 2 d)),
     hdr_type = mem_load (take 4 (drop 4 d)),
     serial = mem_load (take 8 (drop 8 d)),
     hdr_size = mem_load (take 4 (drop 16 d))\<rparr>"

section \<open>The protocol class\<close>

definition ly_genHeartbeat :: "tcp_message option" where
  "ly_genHeartbeat =
    (let header = \<lparr>origin = 0, reserve = 0, hdr_type = Heartbeat, serial = 0, hdr_size = 0\<rparr>
     in Some \<lparr>msg_data = header_image (hton header)\<rparr>)"

definition ly_type :: "tcp_message option \<Rightarrow> u32" where
  "ly_type msg =
    (case msg of None \<Rightarrow> Type_NaN
     | Some m \<Rightarrow> if length (msg_data m) < sizeof_lymsg_header then Type_NaN
       else ntohl (hdr_type (header_load (msg_data m))))"

definition ly_isHeartbeat :: "tcp_message option \<Rightarrow> bool" where
  "ly_isHeartbeat msg = (case msg of None \<Rightarrow> False | Some m \<Rightarrow> ly_type msg = Heartbeat)"

definition ly_bodySize :: "tcp_message option \<Rightarrow> u32" where
  "ly_bodySize msg =
    (case msg of None \<Rightarrow> 0
     | Some m \<Rightarrow> if length (msg_data m) < sizeof_lymsg_header then 0
       else ntohl (hdr_size (header_load (msg_data m))))"

definition lymsg_protocol :: tcp_message_protocol where
  "lymsg_protocol = \<lparr>
     genHeartbeat = ly_genHeartbeat,
     isHeartbeat = ly_isHeartbeat,
     msg_type = ly_type,
     headerSize = of_nat sizeof_lymsg_header,
     bodySize = ly_bodySize,
     MaxBodySize = default_MaxBodySize\<rparr>"

section \<open>Packing and unpacking\<close>

text \<open>\<^verbatim>\<open>pHdr->size = data.size()\<close> narrows the size to 32 bits.\<close>

definition packMsg :: "lymsg_header \<Rightarrow> bytes \<Rightarrow> tcp_message" where
  "packMsg header dat =
    \<lparr>msg_data = header_image (hton (header\<lparr>hdr_size := of_nat (length dat)\<rparr>)) @ dat\<rparr>"

text \<open>The reference arguments are passed in and returned.\<close>

definition unpackMsg :: "tcp_message option \<Rightarrow> lymsg_header \<Rightarrow> bytes \<Rightarrow> int \<times> lymsg_header \<times> bytes" where
  "unpackMsg msg header dat =
    (case msg of None \<Rightarrow> (-1, header, dat)
     | Some m \<Rightarrow> if length (msg_data m) < sizeof_lymsg_header then (-1, header, dat)
       else (0, ntoh (header_load (msg_data m)), drop sizeof_lymsg_header (msg_data m)))"

definition copyHeader :: "lymsg_header \<Rightarrow> lymsg_header" where
  "copyHeader header = header_load (header_image header)"

definition lymsg_desc :: "lymsg_header \<Rightarrow> bytes" where
  "lymsg_desc h = take 63
    (lit ''['' @ to_string (unat (origin h)) @ lit ''|0x'' @ to_hex (unat (reserve h)) @ lit ''|0x'' @
     to_hex (unat (hdr_type h)) @ lit ''|'' @ to_string (unat (serial h)) @ lit ''|'' @
     to_string (unat (hdr_size h)) @ lit '']'')"

text \<open>The comparison of \<^verbatim>\<open>size_t\<close> with \<^verbatim>\<open>int\<close> converts the latter, so a negative bound is huge.\<close>

definition strBrief :: "bytes \<Rightarrow> int \<Rightarrow> bytes" where
  "strBrief src maxVisiable =
    (let n = unat (word_of_int maxVisiable :: u64) in
     if length src \<le> n then src
     else take n src @ lit ''...'' @ to_string (length src))"

section \<open>Conversions and layout\<close>

text \<open>
  \<^verbatim>\<open>ntohll\<close> swaps the bytes inside each half of the word but not the halves, while \<^verbatim>\<open>htonll\<close> does
  both, so the two are not inverse: \<open>swap32\<close> is what remains.
\<close>

definition swap32 :: "u64 \<Rightarrow> u64" where
  "swap32 w = push_bit 32 w OR drop_bit 32 w"

lemma ucast_low32: "(ucast (w AND 0xFFFFFFFF :: u64) :: u32) = ucast w"
proof -
  have "(0xFFFFFFFF :: u64) = mask 32" by (simp add: mask_eq_exp_minus_1)
  then have "w AND 0xFFFFFFFF = take_bit 32 w" by (simp only: take_bit_eq_mask)
  then show ?thesis by (intro bit_word_eqI) (simp add: bit_simps)
qed

lemma ucast_join:
  "(ucast (push_bit 32 (ucast (h :: u32)) OR ucast (l :: u32) :: u64) :: u32) = l"
  "(ucast (drop_bit 32 (push_bit 32 (ucast (h :: u32)) OR ucast (l :: u32) :: u64)) :: u32) = h"
  by (intro bit_word_eqI; auto simp: bit_simps dest: bit_imp_le_length)+

lemma mem_image_htonll [wire]: "mem_image 8 (htonll w) = be_bytes 8 w"
proof -
  have "be_bytes 8 (htonll w) = be_bytes 4 (htonl (ucast w)) @ be_bytes 4 (htonl (ucast (drop_bit 32 w)))"
    using be_bytes_split [where n = 4 and m = 4 and v = "htonll w" and 'b = 32 and 'c = 32]
    by (simp add: htonll_def Let_def ucast_low32 ucast_join del: drop_bit_or)
  then have "mem_image 8 (htonll w) = be_bytes 4 (ucast (drop_bit 32 w) :: u32) @ be_bytes 4 (ucast w :: u32)"
    using mem_image_htonl [of "ucast w"] mem_image_htonl [of "ucast (drop_bit 32 w)"]
    by (simp add: mem_image_def)
  then show ?thesis
    using be_bytes_split [where n = 4 and m = 4 and v = w and 'b = 32 and 'c = 32] by simp
qed

lemma ntohll_htonll [simp]: "ntohll (htonll w) = swap32 w"
proof -
  have "push_bit 32 (ucast (ucast w :: u32)) OR ucast (ucast (drop_bit 32 w) :: u32) = swap32 w"
    by (intro bit_word_eqI) (auto simp: swap32_def bit_simps dest: bit_imp_le_length)
  then show ?thesis
    by (simp add: ntohll_def htonll_def Let_def ucast_low32 ucast_join del: drop_bit_or)
qed

lemma swap32_swap32 [simp]: "swap32 (swap32 w) = w"
  by (intro bit_word_eqI) (auto simp: swap32_def bit_simps dest: bit_imp_le_length)

lemma ntoh_hton [simp]: "ntoh (hton h) = h\<lparr>serial := swap32 (serial h)\<rparr>"
  by (simp add: ntoh_def hton_def)

lemma length_header_image [simp]: "length (header_image h) = sizeof_lymsg_header"
  by (simp add: header_image_def sizeof_lymsg_header_def)

lemma mem_load_images [simp]:
  "mem_load (mem_image 2 (a :: u16)) = a" "mem_load (mem_image 4 (b :: u32)) = b"
  "mem_load (mem_image 8 (c :: u64)) = c"
  by (simp_all add: mem_load_image wire)

lemma header_load_image [simp]: "header_load (header_image h @ d) = h"
  by (simp add: header_load_def header_image_def)

lemma header_load_take: "20 \<le> n \<Longrightarrow> header_load (take n d) = header_load d"
  by (simp add: header_load_def drop_take min_def)

lemma header_image_hton [wire]:
  "header_image (hton h) = be_bytes 2 (origin h) @ be_bytes 2 (reserve h) @ be_bytes 4 (hdr_type h) @
     be_bytes 8 (serial h) @ be_bytes 4 (hdr_size h)"
  by (simp add: header_image_def hton_def wire)

lemma ly_proto_sel [simp]:
  "genHeartbeat lymsg_protocol = ly_genHeartbeat" "isHeartbeat lymsg_protocol = ly_isHeartbeat"
  "msg_type lymsg_protocol = ly_type" "unat (headerSize lymsg_protocol) = sizeof_lymsg_header"
  "bodySize lymsg_protocol = ly_bodySize" "MaxBodySize lymsg_protocol = default_MaxBodySize"
  by (simp_all add: lymsg_protocol_def sizeof_lymsg_header_def)

lemma packMsg_fields:
  "ly_type (Some (packMsg h d)) = hdr_type h"
  "ly_bodySize (Some (packMsg h d)) = of_nat (length d)"
  "length (msg_data (packMsg h d)) = sizeof_lymsg_header + length d"
  by (simp_all add: packMsg_def ly_type_def ly_bodySize_def hton_def)

lemma packMsg_wf:
  assumes "length d \<le> unat default_MaxBodySize"
  shows "wf_msg lymsg_protocol (packMsg h d)"
proof -
  from assms have "length d < 2 ^ 32" by simp
  with assms show ?thesis
    by (simp add: wf_msg_def packMsg_fields word_le_nat_alt)
qed

interpretation ly_proto: msg_protocol lymsg_protocol
proof
  fix d :: bytes
  assume "unat (headerSize lymsg_protocol) \<le> length d"
  then show "bodySize lymsg_protocol (Some \<lparr>msg_data = d\<rparr>) =
      bodySize lymsg_protocol (Some \<lparr>msg_data = take (unat (headerSize lymsg_protocol)) d\<rparr>)"
    by (simp add: ly_bodySize_def header_load_take sizeof_lymsg_header_def)
next
  show "\<exists>m. genHeartbeat lymsg_protocol = Some m \<and> wf_msg lymsg_protocol m \<and>
      isHeartbeat lymsg_protocol (Some m)"
    using packMsg_wf [of "[]" "\<lparr>origin = 0, reserve = 0, hdr_type = Heartbeat, serial = 0, hdr_size = 0\<rparr>"]
      packMsg_fields(1) [of "\<lparr>origin = 0, reserve = 0, hdr_type = Heartbeat, serial = 0, hdr_size = 0\<rparr>" "[]"]
    by (simp add: ly_genHeartbeat_def ly_isHeartbeat_def packMsg_def Let_def)
qed (simp_all add: sizeof_lymsg_header_def)

section \<open>Properties\<close>

text \<open>unpacking a packed message reports success and gives back the body and every header field
  but the serial number, whose two halves come out swapped; the size field is the length of the
  body.  The bytes on the wire are the fields in order, most significant byte first, then the body.\<close>

theorem unpackMsg_packMsg:
  "unpackMsg (Some (packMsg h d)) h0 d0 =
     (0, h\<lparr>serial := swap32 (serial h), hdr_size := of_nat (length d)\<rparr>, d) \<and>
   msg_data (packMsg h d) = be_bytes 2 (origin h) @ be_bytes 2 (reserve h) @ be_bytes 4 (hdr_type h) @
     be_bytes 8 (serial h) @ be_bytes 4 (of_nat (length d) :: u32) @ d"
proof
  show "unpackMsg (Some (packMsg h d)) h0 d0 =
      (0, h\<lparr>serial := swap32 (serial h), hdr_size := of_nat (length d)\<rparr>, d)"
    by (simp add: unpackMsg_def packMsg_def)
qed (simp add: packMsg_def header_image_hton)

text \<open>a serial number survives packing and unpacking only when its two 32-bit halves are equal: the
  code's 64-bit conversions are not inverse to each other.\<close>

theorem serial_not_preserved:
  "(serial (fst (snd (unpackMsg (Some (packMsg h d)) h0 d0))) = serial h) =
   (ucast (serial h) = (ucast (drop_bit 32 (serial h)) :: u32))"
proof -
  have "swap32 w = w \<longleftrightarrow> ucast w = (ucast (drop_bit 32 w) :: u32)" for w :: u64
  proof
    assume "swap32 w = w"
    then have "ucast (swap32 w) = (ucast w :: u32)" by simp
    moreover have "ucast (swap32 w) = (ucast (drop_bit 32 w) :: u32)"
      by (intro bit_word_eqI) (auto simp: swap32_def bit_simps)
    ultimately show "ucast w = (ucast (drop_bit 32 w) :: u32)" by simp
  next
    assume e: "ucast w = (ucast (drop_bit 32 w) :: u32)"
    have "w = push_bit 32 (ucast (ucast (drop_bit 32 w) :: u32)) OR ucast (ucast w :: u32)"
      by (intro bit_word_eqI) (auto simp: bit_simps)
    also have "\<dots> = push_bit 32 (ucast (ucast w :: u32)) OR ucast (ucast (drop_bit 32 w) :: u32)"
      by (simp add: e)
    also have "\<dots> = swap32 w"
      by (intro bit_word_eqI) (auto simp: swap32_def bit_simps dest: bit_imp_le_length)
    finally show "swap32 w = w" by simp
  qed
  then show ?thesis by (simp add: unpackMsg_def packMsg_def packMsg_fields)
qed

text \<open>the two defects cancel over a request and its reply: a reply packed with the header that was
  unpacked from a request carries the serial number of the request when it is unpacked in turn.\<close>

theorem reply_serial_restored:
  "serial (fst (snd (unpackMsg (Some (packMsg
      (fst (snd (unpackMsg (Some (packMsg h d)) h0 d0))) d')) h1 d1))) = serial h"
  by (simp add: unpackMsg_def packMsg_def packMsg_fields)

text \<open>the text that describes a header always fits the 64-byte buffer: it is never cut, and has at
  most 57 characters.\<close>

theorem lymsg_desc_fits:
  "lymsg_desc h = lit ''['' @ to_string (unat (origin h)) @ lit ''|0x'' @ to_hex (unat (reserve h)) @
     lit ''|0x'' @ to_hex (unat (hdr_type h)) @ lit ''|'' @ to_string (unat (serial h)) @ lit ''|'' @
     to_string (unat (hdr_size h)) @ lit '']'' \<and> length (lymsg_desc h) \<le> 57"
proof -
  have "length (to_string (unat (origin h))) \<le> 5"
    using length_to_string [of "unat (origin h)" 4] unat_u16_less [of "origin h"] by simp
  moreover have "length (to_hex (unat (reserve h))) \<le> 4"
    using length_to_hex [of "unat (reserve h)" 3] unat_u16_less [of "reserve h"] by simp
  moreover have "length (to_hex (unat (hdr_type h))) \<le> 8"
    using length_to_hex [of "unat (hdr_type h)" 7] unat_u32_less [of "hdr_type h"] by simp
  moreover have "length (to_string (unat (serial h))) \<le> 20"
    using length_to_string [of "unat (serial h)" 19] unat_u64_less [of "serial h"] by simp
  moreover have "length (to_string (unat (hdr_size h))) \<le> 10"
    using length_to_string [of "unat (hdr_size h)" 9] unat_u32_less [of "hdr_size h"] by simp
  ultimately show ?thesis by (simp add: lymsg_desc_def)
qed

end
