(* ===== verification/Framing.thy ===== *)
theory Framing
  imports Memchunk LymsgProtocol
begin

text \<open>
  From bytes to messages: \<^verbatim>\<open>_PopMsg\<close> of \<^verbatim>\<open>src/zbf/socket_tcp_v5.hpp\<close>, the loop the I/O threads run on
  it, and the receive path of a connection that appends a chunk to its cache.

  \<open>frames\<close> is the abstract specification, a parser over byte lists.  \<open>PopMsg\<close> on the memory chunk
  refines one step of it, \<open>pop_all\<close> (a loop that ends only because a header is not empty, hence
  an option) refines the whole.  The main theorem is that the way the network cuts a stream of
  well-formed messages into chunks does not matter.
\<close>

definition chunk_read :: "memchunk \<Rightarrow> u32 \<Rightarrow> memerr + bytes" where
  "chunk_read c n =
    (case buffer c of None \<Rightarrow> Inl OutOfBounds
     | Some b \<Rightarrow> if length b < unat n then Inl OutOfBounds else Inr (take (unat n) b))"

definition PopMsg :: "tcp_message_protocol option \<Rightarrow> memchunk \<Rightarrow> memerr + tcp_message option \<times> memchunk" where
  "PopMsg protocol c =
    (case protocol of None \<Rightarrow> Inr (None, c)
     | Some p \<Rightarrow>
       let headerSz = headerSize p in
       if datasize c < headerSz then Inr (None, c)
       else (case chunk_read c headerSz of Inl e \<Rightarrow> Inl e
        | Inr hdr \<Rightarrow>
          let bodySz = bodySize p (Some \<lparr>msg_data = hdr\<rparr>) in
          if bodySz > MaxBodySize p then
            (case pop (datasize c) c of Inl e \<Rightarrow> Inl e | Inr (_, c') \<Rightarrow> Inr (None, c'))
          else
            let totalSz = headerSz + bodySz in
            if datasize c \<ge> totalSz then
              (case chunk_read c totalSz of Inl e \<Rightarrow> Inl e
               | Inr d \<Rightarrow>
                 (case pop totalSz c of Inl e \<Rightarrow> Inl e
                  | Inr (_, c') \<Rightarrow> Inr (Some \<lparr>msg_data = d\<rparr>, c')))
            else Inr (None, c)))"

text \<open>\<^verbatim>\<open>while ((msg = user->getRecvMsg()) != nullptr) dispatchMsg(msg, user);\<close>\<close>

partial_function (option) pop_all ::
  "tcp_message_protocol option \<Rightarrow> memchunk \<Rightarrow> (memerr + tcp_message list \<times> memchunk) option" where
  "pop_all protocol c =
    (case PopMsg protocol c of
       Inl e \<Rightarrow> Some (Inl e)
     | Inr (None, c') \<Rightarrow> Some (Inr ([], c'))
     | Inr (Some m, c') \<Rightarrow>
       Option.bind (pop_all protocol c') (\<lambda>r.
         case r of Inl e \<Rightarrow> Some (Inl e) | Inr (ms, c'') \<Rightarrow> Some (Inr (m # ms, c''))))"

definition MaxPendingSize :: u32 where "MaxPendingSize = 10485760"

text \<open>The body of \<^verbatim>\<open>onRecv\<close> on an open connection: 0, or 2 and 3 for the two failures.\<close>

definition cache_onRecv :: "allocator \<Rightarrow> bytes \<Rightarrow> memchunk \<Rightarrow> memerr + int \<times> memchunk" where
  "cache_onRecv al bs c =
    (case push al (Some bs) (of_nat (length bs)) c of
       Inl e \<Rightarrow> Inl e
     | Inr (rc, c') \<Rightarrow>
       if rc < 0 then Inr (2, c')
       else if datasize c' > MaxPendingSize then Inr (3, c')
       else Inr (0, c'))"

text \<open>
  The read branch of the I/O loop for one chunk: \<open>Inr (Inl rc, c)\<close> when the connection is to be
  closed, otherwise the messages handed to the dispatcher.
\<close>

definition recv_chunk ::
  "allocator \<Rightarrow> tcp_message_protocol option \<Rightarrow> bytes \<Rightarrow> memchunk \<Rightarrow> (memerr + (int + tcp_message list) \<times> memchunk) option" where
  "recv_chunk al protocol bs c =
    (case cache_onRecv al bs c of
       Inl e \<Rightarrow> Some (Inl e)
     | Inr (rc, c') \<Rightarrow>
       if rc \<noteq> 0 then Some (Inr (Inl rc, c'))
       else Option.bind (pop_all protocol c') (\<lambda>r.
         case r of Inl e \<Rightarrow> Some (Inl e) | Inr (ms, c'') \<Rightarrow> Some (Inr (Inr ms, c''))))"

text \<open>A sequence of chunks; the messages delivered are those of the chunks in turn.\<close>

fun recv_chunks ::
  "allocator \<Rightarrow> tcp_message_protocol option \<Rightarrow> bytes list \<Rightarrow> memchunk \<Rightarrow> (memerr + (int + tcp_message list) \<times> memchunk) option" where
  "recv_chunks al protocol [] c = Some (Inr (Inr [], c))"
| "recv_chunks al protocol (bs # bss) c =
    Option.bind (recv_chunk al protocol bs c) (\<lambda>r.
      case r of
        Inl e \<Rightarrow> Some (Inl e)
      | Inr (Inl rc, c') \<Rightarrow> Some (Inr (Inl rc, c'))
      | Inr (Inr ms, c') \<Rightarrow>
        Option.bind (recv_chunks al protocol bss c') (\<lambda>r'.
          case r' of
            Inl e \<Rightarrow> Some (Inl e)
          | Inr (Inl rc, c'') \<Rightarrow> Some (Inr (Inl rc, c''))
          | Inr (Inr ms', c'') \<Rightarrow> Some (Inr (Inr (ms @ ms'), c''))))"

section \<open>The specification\<close>

definition frame1 :: "tcp_message_protocol \<Rightarrow> bytes \<Rightarrow> tcp_message option \<times> bytes" where
  "frame1 p bs =
    (let n = unat (headerSize p) in
     if length bs < n then (None, bs)
     else let b = bodySize p (Some \<lparr>msg_data = take n bs\<rparr>) in
       if MaxBodySize p < b then (None, [])
       else if n + unat b \<le> length bs then (Some \<lparr>msg_data = take (n + unat b) bs\<rparr>, drop (n + unat b) bs)
       else (None, bs))"

function frames :: "tcp_message_protocol \<Rightarrow> bytes \<Rightarrow> tcp_message list \<times> bytes" where
  "frames p bs =
    (if headerSize p = 0 then ([], bs)
     else (case frame1 p bs of
       (None, r) \<Rightarrow> ([], r)
     | (Some m, r) \<Rightarrow> (case frames p r of (ms, r') \<Rightarrow> (m # ms, r'))))"
  by pat_completeness auto
termination
proof (relation "measure (\<lambda>(p, bs). length bs)", goal_cases)
  case (2 p bs x m r)
  then have "0 < unat (headerSize p)" by (simp add: unat_gt_0)
  with 2 show ?case by (auto simp: frame1_def Let_def split: if_splits)
qed simp

declare frames.simps [simp del]

section \<open>Refinement\<close>

lemma chunk_read_contents:
  "cache_ok c \<Longrightarrow> n \<le> datasize c \<Longrightarrow> chunk_read c n = Inr (take (unat n) (contents c))"
  by (erule cache_okE) (simp add: chunk_read_def word_le_nat_alt)

lemma PopMsg_refines:
  assumes "msg_protocol p" and "cache_ok c"
  shows "\<exists>c'. PopMsg (Some p) c = Inr (fst (frame1 p (contents c)), c') \<and> cache_ok c' \<and>
    contents c' = snd (frame1 p (contents c)) \<and> blocksize c' = blocksize c"
proof -
  let ?h = "headerSize p" and ?n = "unat (headerSize p)"
  let ?b = "bodySize p (Some \<lparr>msg_data = take ?n (contents c)\<rparr>)"
  have len: "length (contents c) = unat (datasize c)" by (rule length_contents [OF assms(2)])
  have hp: "?h \<noteq> 0" using msg_protocol.header_pos [OF assms(1)] by auto
  show ?thesis
  proof (cases "datasize c < ?h")
    case True
    with assms(2) len show ?thesis by (auto simp: PopMsg_def frame1_def word_less_nat_alt)
  next
    case False
    then have hdr: "chunk_read c ?h = Inr (take ?n (contents c))" "\<not> length (contents c) < ?n"
      using chunk_read_contents [OF assms(2)] len by (simp_all add: word_less_nat_alt not_less word_le_nat_alt)
    show ?thesis
    proof (cases "?b > MaxBodySize p")
      case True
      have "datasize c \<noteq> 0" using False hp by (auto simp: word_gt_0)
      then obtain c' where "pop (datasize c) c = Inr (sint (datasize c'), c')" "cache_ok c'"
          "contents c' = drop (unat (datasize c)) (contents c)" "blocksize c' = blocksize c"
        using pop_ok [OF assms(2)] by blast
      with True False hdr len show ?thesis by (simp add: PopMsg_def frame1_def)
    next
      case small: False
      have t: "unat (?h + ?b) = ?n + unat ?b"
        using msg_protocol.sizes_fit [OF assms(1)] small
        by (subst unat_plus_if') (simp add: not_less word_le_nat_alt)
      then have tn: "?h + ?b \<noteq> 0" using hp by (metis add_is_0 unat_0 unat_eq_zero)
      show ?thesis
      proof (cases "datasize c \<ge> ?h + ?b")
        case True
        then obtain c' where "pop (?h + ?b) c = Inr (sint (datasize c'), c')" "cache_ok c'"
            "contents c' = drop (?n + unat ?b) (contents c)" "blocksize c' = blocksize c"
          using pop_ok [OF assms(2) _ tn] t by auto
        moreover have "chunk_read c (?h + ?b) = Inr (take (?n + unat ?b) (contents c))"
          using chunk_read_contents [OF assms(2) True] t by simp
        moreover have "?n + unat ?b \<le> length (contents c)"
          using True t len by (simp add: word_le_nat_alt)
        ultimately show ?thesis
          using True False small hdr by (simp add: PopMsg_def frame1_def Let_def)
      next
        case big: False
        then have "\<not> ?n + unat ?b \<le> length (contents c)"
          using t len by (simp add: word_le_nat_alt)
        with big False small hdr assms(2) show ?thesis
          by (simp add: PopMsg_def frame1_def Let_def)
      qed
    qed
  qed
qed

lemma pop_all_refines:
  assumes "msg_protocol p" and "cache_ok c"
  shows "\<exists>c'. pop_all (Some p) c = Some (Inr (fst (frames p (contents c)), c')) \<and> cache_ok c' \<and>
    contents c' = snd (frames p (contents c)) \<and> blocksize c' = blocksize c"
  using assms(2)
proof (induction "length (contents c)" arbitrary: c rule: less_induct)
  case less
  obtain c1 where c1: "PopMsg (Some p) c = Inr (fst (frame1 p (contents c)), c1)" "cache_ok c1"
      "contents c1 = snd (frame1 p (contents c))" "blocksize c1 = blocksize c"
    using PopMsg_refines [OF assms(1) less.prems] by blast
  have hp: "headerSize p \<noteq> 0" using msg_protocol.header_pos [OF assms(1)] by auto
  show ?case
  proof (cases "fst (frame1 p (contents c))")
    case None
    with c1 hp show ?thesis
      by (simp add: pop_all.simps [of "Some p" c] frames.simps [of p "contents c"] case_prod_beta)
  next
    case (Some m)
    have "length (contents c1) < length (contents c)"
      using Some c1(3) msg_protocol.header_pos [OF assms(1)]
      by (auto simp: frame1_def Let_def split: if_splits)
    from less.hyps [OF this c1(2)] obtain c2 where
      "pop_all (Some p) c1 = Some (Inr (fst (frames p (contents c1)), c2))" "cache_ok c2"
      "contents c2 = snd (frames p (contents c1))" "blocksize c2 = blocksize c1" by blast
    with Some c1 hp show ?thesis
      by (simp add: pop_all.simps [of "Some p" c] frames.simps [of p "contents c"] case_prod_beta)
  qed
qed

section \<open>Streams of well-formed messages\<close>

context msg_protocol
begin

lemma frame1_wf: "wf_msg p m \<Longrightarrow> frame1 p (msg_data m @ r) = (Some m, r)"
proof -
  assume m: "wf_msg p m"
  let ?n = "unat (headerSize p)"
  have "?n \<le> length (msg_data m)" using m by (simp add: wf_msg_def)
  then have "bodySize p (Some \<lparr>msg_data = take ?n (msg_data m)\<rparr>) = bodySize p (Some m)"
    using bodySize_header [of "msg_data m"] by simp
  with m show ?thesis by (simp add: frame1_def wf_msg_def Let_def not_less)
qed

lemma frame1_partial:
  assumes "wf_msg p m" and "msg_data m = r @ t" and "t \<noteq> []"
  shows "frame1 p r = (None, r)"
proof (cases "length r < unat (headerSize p)")
  case False
  then have "bodySize p (Some \<lparr>msg_data = take (unat (headerSize p)) r\<rparr>) = bodySize p (Some m)"
    using bodySize_header [of r] bodySize_append [of r t] assms(2) by (metis tcp_message_eta not_less)
  moreover have "length r < unat (headerSize p) + unat (bodySize p (Some m))"
    using assms by (cases t) (simp_all add: wf_msg_def)
  ultimately show ?thesis
    using False assms(1) by (auto simp: frame1_def Let_def wf_msg_def)
qed (simp add: frame1_def)

lemma frames_None: "frame1 p r = (None, r') \<Longrightarrow> frames p r = ([], r')"
  using header_pos by (subst frames.simps) auto

text \<open>What has arrived of a stream is split into its complete messages and a partial one.\<close>

lemma frames_stream:
  assumes "list_all (wf_msg p) ms" and "r @ inp = concat (map msg_data ms)"
  shows "\<exists>k r'. frames p r = (take k ms, r') \<and> r' @ inp = concat (map msg_data (drop k ms)) \<and>
    (case drop k ms of [] \<Rightarrow> r' = [] | m # _ \<Rightarrow> length r' < length (msg_data m))"
  using assms
proof (induction ms arbitrary: r)
  case Nil
  then have "frame1 p r = (None, [])" using header_pos by (simp add: frame1_def)
  with Nil show ?case by (simp add: frames_None)
next
  case (Cons m ms)
  show ?case
  proof (cases "length r < length (msg_data m)")
    case True
    let ?t = "drop (length r) (msg_data m)"
    have "take (length r) (r @ inp) = take (length r) (msg_data m @ concat (map msg_data ms))"
      using Cons.prems(2) by simp
    then have r: "take (length r) (msg_data m) = r" using True by simp
    then have "msg_data m = r @ ?t" by (metis append_take_drop_id)
    then have "frame1 p r = (None, r)"
      using Cons.prems(1) True by (intro frame1_partial [of m r ?t]) simp_all
    with Cons.prems(2) True show ?thesis
      by (intro exI [of _ 0] exI [of _ r]) (simp add: frames_None)
  next
    case False
    have "take (length (msg_data m)) (r @ inp) = take (length (msg_data m)) (msg_data m @ concat (map msg_data ms))"
      using Cons.prems(2) by simp
    then have "take (length (msg_data m)) r = msg_data m" using False by simp
    then obtain r2 where r2: "r = msg_data m @ r2" by (metis append_take_drop_id)
    then have "r2 @ inp = concat (map msg_data ms)" using Cons.prems(2) by simp
    with Cons.IH [of r2] Cons.prems(1) obtain k r' where k: "frames p r2 = (take k ms, r')"
        "r' @ inp = concat (map msg_data (drop k ms))"
        "case drop k ms of [] \<Rightarrow> r' = [] | m # _ \<Rightarrow> length r' < length (msg_data m)"
      by (auto simp only: list.pred_inject)
    have "frames p r = (m # take k ms, r')"
      using header_pos Cons.prems(1) k(1) r2 by (subst frames.simps) (auto simp: frame1_wf)
    with k show ?thesis by (intro exI [of _ "Suc k"] exI [of _ r']) simp
  qed
qed

end

lemma cache_onRecv_ok:
  assumes "cache_ok c" and "bs \<noteq> []" and "\<And>n. alloc_ok al n" and "unat (blocksize c) < 2 ^ 31"
    and "length (contents c) + length bs \<le> unat MaxPendingSize"
  shows "\<exists>c'. cache_onRecv al bs c = Inr (0, c') \<and> cache_ok c' \<and> contents c' = contents c @ bs \<and>
    blocksize c' = blocksize c"
proof -
  have len: "length (contents c) = unat (datasize c)" by (rule length_contents [OF assms(1)])
  then obtain c' where c': "push al (Some bs) (of_nat (length bs)) c = Inr (sint (datasize c'), c')"
      "cache_ok c'" "contents c' = contents c @ bs" "blocksize c' = blocksize c"
    using push_ok [OF assms(1,2,3)] assms(4,5) by (auto simp: MaxPendingSize_def)
  have d: "unat (datasize c') \<le> unat MaxPendingSize"
    using length_contents [OF c'(2)] c'(3) assms(5) by simp
  then have "0 \<le> sint (datasize c')"
    by (intro sint_u32_nonneg) (simp add: MaxPendingSize_def)
  with c' d show ?thesis by (simp add: cache_onRecv_def word_less_nat_alt not_less)
qed

lemma recv_chunks_stream:
  assumes "msg_protocol p" and "\<And>n. alloc_ok al n"
  shows "cache_ok c \<Longrightarrow> unat (blocksize c) < 2 ^ 31 \<Longrightarrow> list_all (wf_msg p) ms \<Longrightarrow>
    contents c @ concat bss = concat (map msg_data ms) \<Longrightarrow> [] \<notin> set bss \<Longrightarrow>
    (case ms of [] \<Rightarrow> contents c = [] | m # _ \<Rightarrow> length (contents c) < length (msg_data m)) \<Longrightarrow>
    \<forall>m \<in> set ms. \<forall>bs \<in> set bss. length (msg_data m) + length bs \<le> unat MaxPendingSize \<Longrightarrow>
    \<exists>c'. recv_chunks al (Some p) bss c = Some (Inr (Inr ms, c')) \<and> cache_ok c' \<and> contents c' = []"
proof (induction bss arbitrary: c ms)
  case Nil
  have "ms = []"
  proof (cases ms)
    case (Cons m ms')
    then have "length (msg_data m) \<le> length (contents c)" using Nil.prems(4) by simp
    with Cons Nil.prems(6) show ?thesis by simp
  qed simp
  with Nil show ?case by simp
next
  case (Cons bs bss)
  have ne: "ms \<noteq> []" using Cons.prems(4,5) by (cases ms) auto
  then have "length (contents c) + length bs \<le> unat MaxPendingSize"
    using Cons.prems(6,7) by (cases ms) fastforce+
  then obtain c1 where c1: "cache_onRecv al bs c = Inr (0, c1)" "cache_ok c1"
      "contents c1 = contents c @ bs" "blocksize c1 = blocksize c"
    using cache_onRecv_ok [of c bs al] Cons.prems assms(2) by auto
  have "contents c1 @ concat bss = concat (map msg_data ms)" using c1(3) Cons.prems(4) by simp
  then obtain k r where k: "frames p (contents c1) = (take k ms, r)"
      "r @ concat bss = concat (map msg_data (drop k ms))"
      "case drop k ms of [] \<Rightarrow> r = [] | m # _ \<Rightarrow> length r < length (msg_data m)"
    using msg_protocol.frames_stream [OF assms(1) Cons.prems(3)] by blast
  then obtain c2 where c2: "pop_all (Some p) c1 = Some (Inr (take k ms, c2))" "cache_ok c2"
      "contents c2 = r" "blocksize c2 = blocksize c1"
    using pop_all_refines [OF assms(1) c1(2)] by auto
  have sub: "set (drop k ms) \<subseteq> set ms" by (rule set_drop_subset)
  have "\<exists>c'. recv_chunks al (Some p) bss c2 = Some (Inr (Inr (drop k ms), c')) \<and> cache_ok c' \<and> contents c' = []"
  proof (rule Cons.IH)
    show "list_all (wf_msg p) (drop k ms)" using Cons.prems(3) sub by (auto simp: list_all_iff)
    show "\<forall>m \<in> set (drop k ms). \<forall>bs \<in> set bss. length (msg_data m) + length bs \<le> unat MaxPendingSize"
      using Cons.prems(7) sub by (meson list.set_intros(2) subsetD)
    show "case drop k ms of [] \<Rightarrow> contents c2 = [] | m # _ \<Rightarrow> length (contents c2) < length (msg_data m)"
      using k(3) unfolding c2(3) .
  qed (use c1 c2 k Cons.prems in simp_all)
  with c1(1) c2(1) show ?case by (auto simp: recv_chunk_def)
qed

section \<open>Properties\<close>

text \<open>C1: however the network cuts a stream of well-formed messages into chunks, a connection with an
  empty cache hands exactly those messages, in order, to the dispatcher and ends with an empty cache,
  provided a message plus a chunk stays within the pending limit of 10M.\<close>

theorem recv_chunks_delivers:
  assumes "msg_protocol p" and "\<And>n. alloc_ok al n" and "cache_ok c" and "contents c = []"
    and "unat (blocksize c) < 2 ^ 31" and "list_all (wf_msg p) ms"
    and "concat bss = concat (map msg_data ms)" and "[] \<notin> set bss"
    and "\<forall>m \<in> set ms. \<forall>bs \<in> set bss. length (msg_data m) + length bs \<le> unat MaxPendingSize"
  shows "\<exists>c'. recv_chunks al (Some p) bss c = Some (Inr (Inr ms, c')) \<and> cache_ok c' \<and> contents c' = []"
proof (rule recv_chunks_stream [OF assms(1,2,3,5,6)])
  show "case ms of [] \<Rightarrow> contents c = [] | m # _ \<Rightarrow> length (contents c) < length (msg_data m)"
    using assms(4,6) msg_protocol.wf_not_empty [OF assms(1)] by (auto split: list.split)
qed (use assms in simp_all)

theorem recv_chunks_delivers_witness:
  "\<exists>c'. recv_chunks \<lparr>alloc_ok = \<lambda>_. True, fresh = \<lambda>_. 0\<rparr> (Some default_msg_proto)
      [[2, 0], [0, 1, 9, 3], [0, 0, 0]]
      (memchunk_new \<lparr>alloc_ok = \<lambda>_. True, fresh = \<lambda>_. 0\<rparr> 1024) =
      Some (Inr (Inr [\<lparr>msg_data = [2, 0, 0, 1, 9]\<rparr>, \<lparr>msg_data = [3, 0, 0, 0]\<rparr>], c')) \<and>
    cache_ok c' \<and> contents c' = []"
proof (rule recv_chunks_delivers)
  show "msg_protocol default_msg_proto" by unfold_locales
  show "cache_ok (memchunk_new \<lparr>alloc_ok = \<lambda>_. True, fresh = \<lambda>_. 0\<rparr> 1024)"
    by (rule memchunk_new_ok) simp_all
  have e: "extract_uint32 [2, 0, 0, 1, 9] = 0x2000001" "extract_uint32 [3, 0, 0, 0] = 0x3000000"
    by (simp_all add: extract_uint32_def ntohl_mem_load be_word_def push_bit_eq_mult)
  show "list_all (wf_msg default_msg_proto) [\<lparr>msg_data = [2, 0, 0, 1, 9]\<rparr>, \<lparr>msg_data = [3, 0, 0, 0]\<rparr>]"
    by (simp add: wf_msg_def default_bodySize_def e default_MaxBodySize_def)
  show "unat (blocksize (memchunk_new \<lparr>alloc_ok = \<lambda>_. True, fresh = \<lambda>_. 0\<rparr> 1024)) < 2 ^ 31"
    by (simp add: memchunk_new_def)
qed (simp_all add: memchunk_new_contents MaxPendingSize_def)

text \<open>the read path always comes to an end and never leaves a heap block: whatever bytes a peer
  sends, the loop over the cache returns, without a memory error, what the specification parser finds,
  and keeps the cache well-formed.\<close>

theorem pop_all_total:
  assumes "msg_protocol p" and "cache_ok c"
  shows "\<exists>c'. pop_all (Some p) c = Some (Inr (fst (frames p (contents c)), c')) \<and> cache_ok c' \<and>
    contents c' = snd (frames p (contents c))"
  using pop_all_refines [OF assms] by blast

theorem pop_all_total_witness:
  "\<exists>c'. pop_all (Some lymsg_protocol) (memchunk_new \<lparr>alloc_ok = \<lambda>_. True, fresh = \<lambda>_. 0\<rparr> 1024) =
      Some (Inr (fst (frames lymsg_protocol (contents (memchunk_new \<lparr>alloc_ok = \<lambda>_. True, fresh = \<lambda>_. 0\<rparr> 1024))), c')) \<and>
    cache_ok c' \<and>
    contents c' = snd (frames lymsg_protocol (contents (memchunk_new \<lparr>alloc_ok = \<lambda>_. True, fresh = \<lambda>_. 0\<rparr> 1024)))"
proof (rule pop_all_total)
  show "msg_protocol lymsg_protocol" by unfold_locales
qed (simp add: memchunk_new_ok)

section \<open>Untrusted bytes\<close>

context msg_protocol
begin

lemma frame1_typed: "frame1 p bs = (Some m, r) \<Longrightarrow> wf_msg p m \<and> bs = msg_data m @ r"
proof -
  assume a: "frame1 p bs = (Some m, r)"
  let ?n = "unat (headerSize p)" and ?b = "bodySize p (Some \<lparr>msg_data = take (unat (headerSize p)) bs\<rparr>)"
  have b: "?n \<le> length bs" "?b \<le> MaxBodySize p" "?n + unat ?b \<le> length bs" "m = \<lparr>msg_data = take (?n + unat ?b) bs\<rparr>" "r = drop (?n + unat ?b) bs"
    using a by (auto simp: frame1_def Let_def split: if_splits)
  then have "bodySize p (Some m) = ?b" using bodySize_header [of "msg_data m"] by simp
  with b show ?thesis by (simp add: wf_msg_def)
qed

lemma frames_typed: "list_all (\<lambda>m. wf_msg p m \<and> length (msg_data m) \<le> length bs) (fst (frames p bs)) \<and> length (snd (frames p bs)) \<le> length bs"
proof (induction "length bs" arbitrary: bs rule: less_induct)
  case less
  show ?case
  proof (cases "fst (frame1 p bs)")
    case None
    then obtain r where r: "frame1 p bs = (None, r)" by (metis prod.collapse)
    have "length r \<le> length bs" using r by (auto simp: frame1_def Let_def split: if_splits)
    then show ?thesis by (simp add: frames_None [OF r])
  next
    case (Some m)
    then obtain r where r: "frame1 p bs = (Some m, r)" by (metis prod.collapse)
    note t = frame1_typed [OF r]
    have "length r < length bs" using t wf_not_empty by simp
    from less.hyps [OF this] show ?thesis
      using t r header_pos by (subst (1 2) frames.simps) (fastforce simp: list_all_iff split: prod.split)
  qed
qed

end

lemma cache_onRecv_any:
  assumes "cache_ok c" and "bs \<noteq> []" and "\<And>n. alloc_ok al n" and "unat (blocksize c) < 2 ^ 31"
    and "length (contents c) \<le> unat MaxPendingSize" and "length bs \<le> unat MaxPendingSize"
  obtains rc c' where "cache_onRecv al bs c = Inr (rc, c')" "rc = 0 \<or> rc = 3" "cache_ok c'" "contents c' = contents c @ bs"
    "blocksize c' = blocksize c" "rc = 0 \<Longrightarrow> length (contents c') \<le> unat MaxPendingSize"
proof -
  have len: "length (contents c) = unat (datasize c)" by (rule length_contents [OF assms(1)])
  then obtain c' where c': "push al (Some bs) (of_nat (length bs)) c = Inr (sint (datasize c'), c')"
      "cache_ok c'" "contents c' = contents c @ bs" "blocksize c' = blocksize c"
    using push_ok [OF assms(1,2,3)] assms(4-6) by (auto simp: MaxPendingSize_def)
  have d: "unat (datasize c') = length (contents c')" by (rule length_contents [OF c'(2), symmetric])
  then have "0 \<le> sint (datasize c')" using c'(3) assms(5,6) by (intro sint_u32_nonneg) (simp add: MaxPendingSize_def)
  with c' d that [of "if datasize c' > MaxPendingSize then 3 else 0" c'] show thesis
    by (auto simp: cache_onRecv_def word_less_nat_alt not_less split: if_splits)
qed

lemma messages_typed:
  assumes "msg_protocol p" and "\<And>n. alloc_ok al n" and "cache_ok c" and "unat (blocksize c) < 2 ^ 31"
    and "length (contents c) \<le> unat MaxPendingSize" and "\<forall>bs \<in> set bss. bs \<noteq> [] \<and> length bs \<le> unat MaxPendingSize"
  shows "\<exists>r c'. recv_chunks al (Some p) bss c = Some (Inr (r, c')) \<and> cache_ok c' \<and>
    (case r of Inl rc \<Rightarrow> rc = 3 | Inr ms \<Rightarrow> list_all (\<lambda>m. wf_msg p m \<and> length (msg_data m) \<le> unat MaxPendingSize) ms)"
  using assms(3-6)
proof (induction bss arbitrary: c)
  case (Cons bs bss)
  have bs: "bs \<noteq> []" "length bs \<le> unat MaxPendingSize" using Cons.prems(4) by auto
  obtain rc c1 where c1: "cache_onRecv al bs c = Inr (rc, c1)" "rc = 0 \<or> rc = 3" "cache_ok c1" "blocksize c1 = blocksize c"
      "rc = 0 \<Longrightarrow> length (contents c1) \<le> unat MaxPendingSize"
    by (rule cache_onRecv_any [OF Cons.prems(1) bs(1) assms(2) Cons.prems(2,3) bs(2)]) blast
  show ?case
  proof (cases "rc = 0")
    case True
    let ?f = "frames p (contents c1)"
    obtain c2 where c2: "pop_all (Some p) c1 = Some (Inr (fst ?f, c2))" "cache_ok c2" "contents c2 = snd ?f" "blocksize c2 = blocksize c1"
      using pop_all_refines [OF assms(1) c1(3)] by blast
    have t: "list_all (\<lambda>m. wf_msg p m \<and> length (msg_data m) \<le> unat MaxPendingSize) (fst ?f)" "length (contents c2) \<le> unat MaxPendingSize"
      using msg_protocol.frames_typed [OF assms(1), of "contents c1"] c1(5) [OF True] c2(3) by (auto simp: list_all_iff)
    obtain r c' where r: "recv_chunks al (Some p) bss c2 = Some (Inr (r, c'))" "cache_ok c'"
        "case r of Inl rc \<Rightarrow> rc = 3 | Inr ms \<Rightarrow> list_all (\<lambda>m. wf_msg p m \<and> length (msg_data m) \<le> unat MaxPendingSize) ms"
      using Cons.IH [of c2] c1 c2 t(2) Cons.prems by auto
    show ?thesis using True c1(1) c2(1) r t(1) by (cases r) (simp_all add: recv_chunk_def)
  qed (use c1 in \<open>simp add: recv_chunk_def\<close>)
qed simp

text \<open>
  C25: Whatever a peer sends, the receiving side stays typed: under either protocol and for any sequence of chunks that fit the pending limit, the loop over the cache
  ends without a memory error; either the connection is closed because the limit is exceeded, or everything that is handed to the dispatcher is a
  well-formed message of the protocol, no longer than the limit, and the cache is well-formed.
\<close>
theorem received_messages_typed:
  assumes "p \<in> {default_msg_proto, lymsg_protocol}" and "\<And>n. alloc_ok al n" and "cache_ok c" and "unat (blocksize c) < 2 ^ 31"
    and "length (contents c) \<le> unat MaxPendingSize" and "\<forall>bs \<in> set bss. bs \<noteq> [] \<and> length bs \<le> unat MaxPendingSize"
  shows "\<exists>r c'. recv_chunks al (Some p) bss c = Some (Inr (r, c')) \<and> cache_ok c' \<and>
    (case r of Inl rc \<Rightarrow> rc = 3 | Inr ms \<Rightarrow> list_all (\<lambda>m. wf_msg p m \<and> length (msg_data m) \<le> unat MaxPendingSize) ms)"
proof -
  have "msg_protocol p" using assms(1) default_proto.msg_protocol_axioms ly_proto.msg_protocol_axioms by auto
  then show ?thesis by (rule messages_typed [OF _ assms(2-6)])
qed

theorem received_messages_typed_witness:
  "\<exists>r c'. recv_chunks \<lparr>alloc_ok = \<lambda>_. True, fresh = \<lambda>_. 0\<rparr> (Some default_msg_proto) [[255, 255, 255], [255, 1]]
      (memchunk_new \<lparr>alloc_ok = \<lambda>_. True, fresh = \<lambda>_. 0\<rparr> 1024) = Some (Inr (r, c')) \<and> cache_ok c' \<and>
    (case r of Inl rc \<Rightarrow> rc = 3 | Inr ms \<Rightarrow> list_all (\<lambda>m. wf_msg default_msg_proto m \<and> length (msg_data m) \<le> unat MaxPendingSize) ms)"
proof (rule received_messages_typed)
  show c: "cache_ok (memchunk_new \<lparr>alloc_ok = \<lambda>_. True, fresh = \<lambda>_. 0\<rparr> 1024)" by (rule memchunk_new_ok) simp_all
  show "length (contents (memchunk_new \<lparr>alloc_ok = \<lambda>_. True, fresh = \<lambda>_. 0\<rparr> 1024)) \<le> unat MaxPendingSize"
    using length_contents [OF c] by (simp add: memchunk_new_def)
qed (simp_all add: memchunk_new_def MaxPendingSize_def)

end
