(* ===== verification/SocketUtils.thy ===== *)
theory SocketUtils
  imports Prelude
begin

text \<open>
  The socket helpers of \<^verbatim>\<open>src/zbf/socket_utils.hpp\<close> that contain logic of their own: the return-code
  convention of \<^verbatim>\<open>recv\<close> and \<^verbatim>\<open>send\<close>, the retry loops, the connect checks and address formatting.
  The kernel is a parameter: \<open>env k\<close> is the outcome of the \<open>k\<close>-th system call, an error number or the
  number of bytes that \<^verbatim>\<open>::send\<close> accepts or \<^verbatim>\<open>::recv\<close> delivers.  The loops
  terminate for every kernel: each turn makes progress or spends one of the bounded retries.
\<close>

datatype errno = EAGAIN | EINTR | EINPROGRESS | EOTHER nat

type_synonym send_env = "nat \<Rightarrow> errno + nat"

definition INVALID_SOCK :: int where "INVALID_SOCK = -1"

definition IS_ERR_AGAIN :: "errno \<Rightarrow> bool" where
  "IS_ERR_AGAIN err \<longleftrightarrow> err = EAGAIN \<or> err = EINTR"

definition sock_recv :: "errno + bytes \<Rightarrow> int" where
  "sock_recv r = (case r of Inl err \<Rightarrow> if IS_ERR_AGAIN err then -2 else -1 | Inr bs \<Rightarrow> int (length bs))"

definition sock_send :: "errno + nat \<Rightarrow> int" where
  "sock_send r = (case r of Inl err \<Rightarrow> if IS_ERR_AGAIN err then -2 else -1 | Inr n \<Rightarrow> int n)"

definition sock_recvfrom :: "errno + bytes \<Rightarrow> int" where
  "sock_recvfrom r = (case r of Inl err \<Rightarrow> if IS_ERR_AGAIN err then -2 else -1 | Inr bs \<Rightarrow> int (length bs))"

definition sock_sendto :: "errno + nat \<Rightarrow> int" where
  "sock_sendto r = (case r of Inl err \<Rightarrow> if IS_ERR_AGAIN err then -2 else -1 | Inr n \<Rightarrow> int n)"

text \<open>
  The body of the loop of \<^verbatim>\<open>send_with_retry_\<close>.  The result is the return code, the bytes the kernel
  accepted and the number of system calls made; \<open>sent\<close> is \<^verbatim>\<open>total_sent\<close> (and \<^verbatim>\<open>offset\<close>), \<open>rest\<close> is
  \<^verbatim>\<open>size - total_sent\<close>.
\<close>

function send_loop :: "send_env \<Rightarrow> bytes \<Rightarrow> nat \<Rightarrow> nat \<Rightarrow> nat \<Rightarrow> nat \<Rightarrow> int \<times> bytes \<times> nat" where
  "send_loop env dat max_retry k sent retry =
    (case env k of
       Inl err \<Rightarrow>
         if IS_ERR_AGAIN err then
           (if Suc retry \<ge> max_retry then (int sent, [], Suc k)
            else send_loop env dat max_retry (Suc k) sent (Suc retry))
         else (-1, [], Suc k)
     | Inr n \<Rightarrow>
         if n = 0 then (0, [], Suc k)
         else if sent + n < length dat then
           (case send_loop env dat max_retry (Suc k) (sent + n) 0 of
              (rc, w, k') \<Rightarrow> (rc, take n (drop sent dat) @ w, k'))
         else (int (length dat), take n (drop sent dat), Suc k))"
  by pat_completeness auto
termination
  by (relation "measures [\<lambda>(_, dat, _, _, sent, _). length dat - sent,
    \<lambda>(_, _, max_retry, _, _, retry). max_retry - retry]") auto

declare send_loop.simps [simp del]

definition send_with_retry :: "send_env \<Rightarrow> bytes \<Rightarrow> nat \<Rightarrow> int \<times> bytes \<times> nat" where
  "send_with_retry env dat max_retry = send_loop env dat max_retry 0 0 0"

text \<open>
  On the receiving side \<open>inp\<close> is the byte stream of the peer that has not been read yet: a
  successful \<^verbatim>\<open>::recv\<close> of at most \<open>left\<close> bytes takes a prefix of it.
\<close>

definition sys_recv :: "send_env \<Rightarrow> nat \<Rightarrow> nat \<Rightarrow> bytes \<Rightarrow> errno + bytes" where
  "sys_recv env k left inp = (case env k of Inl err \<Rightarrow> Inl err | Inr n \<Rightarrow> Inr (take (min n left) inp))"

function recv_retry_loop :: "send_env \<Rightarrow> nat \<Rightarrow> nat \<Rightarrow> nat \<Rightarrow> nat \<Rightarrow> bytes \<Rightarrow> int \<times> bytes" where
  "recv_retry_loop env buf_size max_retry k retry inp =
    (case sys_recv env k buf_size inp of
       Inl err \<Rightarrow>
         if IS_ERR_AGAIN err then
           (if Suc retry \<ge> max_retry then (0, [])
            else recv_retry_loop env buf_size max_retry (Suc k) (Suc retry) inp)
         else (-1, [])
     | Inr bs \<Rightarrow> if bs = [] then (0, []) else (int (length bs), bs))"
  by pat_completeness auto
termination
  by (relation "measure (\<lambda>(_, _, max_retry, _, retry, _). max_retry - retry)") auto

definition recv_with_retry :: "send_env \<Rightarrow> nat \<Rightarrow> nat \<Rightarrow> bytes \<Rightarrow> int \<times> bytes" where
  "recv_with_retry env buf_size max_retry inp = recv_retry_loop env buf_size max_retry 0 0 inp"

text \<open>
  The loop of \<^verbatim>\<open>recv_all\<close>; \<open>got\<close> is what is already in the buffer, so \<^verbatim>\<open>left\<close> is
  \<open>want - length got\<close>.  The result is the return code, the buffer and the unread input.  The retry
  counter is never reset, unlike in \<^verbatim>\<open>send_with_retry_\<close>.
\<close>

function recv_all_loop :: "send_env \<Rightarrow> nat \<Rightarrow> nat \<Rightarrow> bytes \<Rightarrow> nat \<Rightarrow> bytes \<Rightarrow> int \<times> bytes \<times> bytes" where
  "recv_all_loop env want k got retry inp =
    (if length got \<ge> want then (int (length got), got, inp)
     else (case sys_recv env k (want - length got) inp of
       Inl err \<Rightarrow>
         if IS_ERR_AGAIN err then
           (if Suc retry \<ge> 50 then (int (length got), got, inp)
            else recv_all_loop env want (Suc k) got (Suc retry) inp)
         else (-1, got, inp)
     | Inr bs \<Rightarrow>
         if bs = [] then (-2, got, inp)
         else recv_all_loop env want (Suc k) (got @ bs) retry (drop (length bs) inp)))"
  by pat_completeness auto
termination
  by (relation "measures [\<lambda>(_, want, _, got, _). want - length got, \<lambda>(_, _, _, _, retry, _). 50 - retry]")
    (auto simp: diff_less_mono2)

declare recv_retry_loop.simps [simp del] recv_all_loop.simps [simp del]

definition recv_all :: "send_env \<Rightarrow> nat \<Rightarrow> bytes \<Rightarrow> int \<times> bytes \<times> bytes" where
  "recv_all env want inp = recv_all_loop env want 0 [] 0 inp"

definition checkConnError :: "int \<Rightarrow> errno \<Rightarrow> bool" where
  "checkConnError rc err = (if rc = 0 then False else err \<noteq> EINPROGRESS \<and> err \<noteq> EINTR)"

definition checkSockStat :: "int \<Rightarrow> bool \<Rightarrow> bool" where
  "checkSockStat select_rc fd_isset = (if select_rc \<le> 0 then False else fd_isset)"

definition checkSoError :: "bool \<Rightarrow> int \<Rightarrow> int" where
  "checkSoError getsockopt_ok err = (if getsockopt_ok then err else -1)"

text \<open>The port is printed with \<^verbatim>\<open>%d\<close> after promotion, the 32-byte buffer keeps 31 characters.\<close>

definition mergeAddr :: "bytes \<Rightarrow> u16 \<Rightarrow> bytes" where
  "mergeAddr addr port = take 31 (addr @ lit '':'' @ to_string (unat port))"

section \<open>What the loops deliver\<close>

text \<open>A kernel never accepts more than it was offered, nor delivers more than was asked for.\<close>

lemma send_loop_prefix:
  assumes "sent < length dat"
  shows "case send_loop env dat max_retry k sent retry of (rc, w, k') \<Rightarrow>
    (\<exists>n. w = take n (drop sent dat)) \<and> rc \<le> int (length dat) \<and>
    (rc = int (length dat) \<longrightarrow> w = drop sent dat)"
  using assms
proof (induction env dat max_retry k sent retry rule: send_loop.induct)
  case (1 env dat max_retry k sent retry)
  show ?case
  proof (cases "env k")
    case (Inl err)
    with 1 show ?thesis
      by (subst send_loop.simps) (auto intro: exI [of _ 0])
  next
    case (Inr n)
    show ?thesis
    proof (cases "n \<noteq> 0 \<and> sent + n < length dat")
      case True
      obtain rc w k' where r: "send_loop env dat max_retry (Suc k) (sent + n) 0 = (rc, w, k')"
        by (metis prod_cases3)
      have "(\<exists>m. w = take m (drop (sent + n) dat)) \<and> rc \<le> int (length dat) \<and>
          (rc = int (length dat) \<longrightarrow> w = drop (sent + n) dat)"
        using "1.IH"(2) [OF Inr] True by (simp add: r)
      then obtain m where m: "w = take m (drop (sent + n) dat)" "rc \<le> int (length dat)"
          "rc = int (length dat) \<longrightarrow> w = drop (sent + n) dat"
        by blast
      have "take n (drop sent dat) @ take m (drop (sent + n) dat) = take (n + m) (drop sent dat)"
        by (simp add: take_add add.commute [of sent n])
      moreover have "take n (drop sent dat) @ drop (sent + n) dat = drop sent dat"
        by (metis append_take_drop_id drop_drop add.commute)
      ultimately show ?thesis
        using Inr True r m by (subst send_loop.simps) auto
    next
      case False
      with Inr 1 show ?thesis
        by (subst send_loop.simps) (auto intro: exI [of _ 0] exI [of _ "length dat"])
    qed
  qed
qed

lemma sys_recv_prefix: "sys_recv env k left inp = Inr bs \<Longrightarrow> inp = bs @ drop (length bs) inp \<and> length bs \<le> left"
  by (auto simp: sys_recv_def min_def split: sum.splits if_splits)

lemma recv_all_loop_stream:
  assumes "recv_all_loop env want k got retry inp = (rc, got', inp')" and "length got \<le> want"
  shows "got' @ inp' = got @ inp \<and> length got' \<le> want \<and> (rc \<ge> 0 \<longrightarrow> rc = int (length got'))"
  using assms
proof (induction env want k got retry inp arbitrary: rc got' inp' rule: recv_all_loop.induct)
  case (1 env want k got retry inp)
  show ?case
  proof (cases "length got \<ge> want")
    case True
    with 1 show ?thesis by (subst (asm) recv_all_loop.simps) auto
  next
    case False
    show ?thesis
    proof (cases "sys_recv env k (want - length got) inp")
      case (Inl err)
      then show ?thesis
        using "1.prems" "1.IH"(1) [OF False Inl] False
        by (subst (asm) recv_all_loop.simps) (auto split: if_splits)
    next
      case (Inr bs)
      have p: "inp = bs @ drop (length bs) inp" "length bs \<le> want - length got"
        using sys_recv_prefix [OF Inr] by auto
      show ?thesis
      proof (cases "bs = []")
        case True
        with Inr "1.prems" False show ?thesis by (subst (asm) recv_all_loop.simps) auto
      next
        case ne: False
        have "recv_all_loop env want (Suc k) (got @ bs) retry (drop (length bs) inp) = (rc, got', inp')"
          using "1.prems"(1) False Inr ne by (subst (asm) recv_all_loop.simps) simp
        from "1.IH"(2) [OF False Inr ne this] p False show ?thesis by simp
      qed
    qed
  qed
qed

lemma recv_all_stream:
  assumes "recv_all env want inp = (rc, got, rest)"
  shows "got @ rest = inp" "length got \<le> want" "0 \<le> rc \<Longrightarrow> rc = int (length got)"
  using recv_all_loop_stream [of env want 0 "[]" 0 inp rc got rest] assms by (simp_all add: recv_all_def)

lemma send_with_retry_stream:
  assumes "send_with_retry env dat max_retry = (rc, w, k)" and "dat \<noteq> []"
  shows "prefix w dat" "int (length dat) \<le> rc \<Longrightarrow> w = dat"
  using send_loop_prefix [of 0 dat env max_retry 0 0] assms by (auto simp: send_with_retry_def take_is_prefix)

section \<open>Properties\<close>

text \<open>send_with_retry reports the full length only when the kernel took every byte of the buffer
  in order; whatever it reports, what the kernel took is a prefix of the buffer.\<close>

theorem send_with_retry_exact:
  assumes "dat \<noteq> []" and "send_with_retry env dat max_retry = (rc, w, k)"
  shows "prefix w dat \<and> (int (length dat) \<le> rc \<longrightarrow> w = dat)"
  using send_with_retry_stream [OF assms(2,1)] by blast

theorem send_with_retry_exact_witness:
  "\<exists>env. send_with_retry env [1, 2, 3] 10 = (3, [1, 2, 3], 3) \<and> prefix [1, 2, 3] [1, 2, 3 :: byte]"
proof -
  let ?env = "\<lambda>k. if k = 0 then Inr 2 else if k = 1 then Inl EAGAIN else Inr (Suc 0)"
  have "send_with_retry ?env [1, 2, 3] 10 = (3, [1, 2, 3], 3)"
    by (simp add: send_with_retry_def send_loop.simps IS_ERR_AGAIN_def)
  with send_with_retry_exact [OF _ this] show ?thesis by blast
qed

text \<open>recv_all never loses or reorders input: the buffer followed by what is left unread is the
  stream that was there, the buffer never exceeds the requested size, and a return code equal to that
  size means that the buffer holds exactly the next that many bytes.\<close>

theorem recv_all_exact:
  assumes "recv_all env want inp = (rc, got, inp')"
  shows "got @ inp' = inp \<and> length got \<le> want \<and> (rc = int want \<longrightarrow> got = take want inp)"
  using recv_all_stream [OF assms] by auto

theorem recv_all_exact_witness:
  "\<exists>env. recv_all env 3 [1, 2, 3, 4] = (3, [1, 2, 3], [4]) \<and> [1, 2, 3] @ [4] = [1, 2, 3, 4 :: byte] \<and>
    length [1, 2, 3 :: byte] \<le> 3"
proof -
  let ?env = "\<lambda>k. if k = 0 then Inr 2 else if k = 1 then Inl EINTR else Inr 9"
  have "recv_all ?env 3 [1, 2, 3, 4] = (3, [1, 2, 3], [4])"
    by (simp add: recv_all_def recv_all_loop.simps sys_recv_def IS_ERR_AGAIN_def)
  with recv_all_exact [OF this] show ?thesis by blast
qed

end
