(* ===== verification/WriteChannel.thy ===== *)
theory WriteChannel
  imports TcpMessage SocketUtils
begin

text \<open>
  The sending half of a connection in \<^verbatim>\<open>src/zbf/socket_tcp_v5.hpp\<close>, which \<^verbatim>\<open>tcpsock_user\<close> and
  \<^verbatim>\<open>tcpsock_asynclt\<close> share: the queue of messages to write, the flag that mirrors the write interest
  registered with the poller, and \<^verbatim>\<open>_SendMsg\<close> and \<^verbatim>\<open>_SendData\<close>, which the I/O thread runs when the
  socket is writable.  The calls made to \<^verbatim>\<open>socket_poll\<close> are returned as a list, in order.

  Posting threads and the I/O thread interleave: \<^verbatim>\<open>_SendData\<close> holds the lock only while it takes a
  message and while it puts the unsent rest back.  The relation \<open>ch_step\<close> has one step per critical
  section.  The bytes on the wire are always the posted messages in order, and unsent data is never
  left without write interest.
\<close>

datatype send_code = SEND_SUCCESS | SEND_FAIL | SOCK_CLOSED | QUEUE_EMPTY | RECV_FAIL | SEND_TIMEOUT | POOL_INVALID

datatype poll_call = SpEnable int int bool bool | SpAdd int int bool | SpDel int int

record wchan =
  wc_fd :: int
  wc_efd :: int
  wrQueue :: "tcp_message list"
  enableWrite_flag :: bool

definition MaxPendingMsg :: nat where "MaxPendingMsg = 256"

definition enableWrite :: "bool \<Rightarrow> wchan \<Rightarrow> wchan \<times> poll_call list" where
  "enableWrite enable c =
    (if wc_fd c = INVALID_SOCK \<or> wc_efd c = INVALID_SOCK then (c, [])
     else if enableWrite_flag c = (\<not> enable)
     then (c\<lparr>enableWrite_flag := enable\<rparr>, [SpEnable (wc_efd c) (wc_fd c) True enable])
     else (c, []))"

definition post :: "tcp_message \<Rightarrow> wchan \<Rightarrow> int \<times> wchan \<times> poll_call list" where
  "post msg c =
    (if length (wrQueue c) > MaxPendingMsg then (1, c, [])
     else (0, enableWrite True (c\<lparr>wrQueue := wrQueue c @ [msg]\<rparr>)))"

definition joinMonitor :: "int \<Rightarrow> wchan \<Rightarrow> wchan \<times> poll_call list" where
  "joinMonitor efd c =
    (let c' = c\<lparr>enableWrite_flag := False, wc_efd := efd\<rparr> in
     if wrQueue c' \<noteq> [] then enableWrite True c' else (c', []))"

definition leaveMonitor :: "wchan \<Rightarrow> wchan" where
  "leaveMonitor c = c\<lparr>wc_efd := INVALID_SOCK, enableWrite_flag := False\<rparr>"

definition SendMsg :: "errno + nat \<Rightarrow> tcp_message \<Rightarrow> int" where
  "SendMsg r msg = sock_send r"

text \<open>
  \<open>SendData_take\<close> is the first critical section of \<^verbatim>\<open>_SendData\<close>, \<open>SendData_finish\<close> what follows the
  system call: the code, the queue and the bytes the kernel accepted.
\<close>

definition SendData_take :: "tcp_message list \<Rightarrow> (tcp_message \<times> tcp_message list) option" where
  "SendData_take queue = (case queue of [] \<Rightarrow> None | m # ms \<Rightarrow> Some (m, ms))"

definition SendData_finish ::
  "errno + nat \<Rightarrow> tcp_message \<Rightarrow> tcp_message list \<Rightarrow> send_code \<times> tcp_message list \<times> bytes" where
  "SendData_finish r msg queue =
    (let sendlen = SendMsg r msg in
     if sendlen \<le> 0 then
       (if sendlen \<noteq> -2 then (SEND_FAIL, queue, []) else (SEND_SUCCESS, msg # queue, []))
     else if sendlen < int (length (msg_data msg)) then
       (SEND_SUCCESS, \<lparr>msg_data = drop (nat sendlen) (msg_data msg)\<rparr> # queue, take (nat sendlen) (msg_data msg))
     else (SEND_SUCCESS, queue, msg_data msg))"

definition SendData :: "errno + nat \<Rightarrow> tcp_message list \<Rightarrow> send_code \<times> tcp_message list \<times> bytes" where
  "SendData r queue =
    (case SendData_take queue of None \<Rightarrow> (QUEUE_EMPTY, queue, [])
     | Some (msg, rest) \<Rightarrow> SendData_finish r msg rest)"

text \<open>The second critical section of \<^verbatim>\<open>sendData\<close> after an empty queue was seen.\<close>

definition recheck_empty :: "wchan \<Rightarrow> wchan \<times> poll_call list" where
  "recheck_empty c = (if wrQueue c = [] then enableWrite False c else (c, []))"

definition sendData :: "bool \<Rightarrow> errno + nat \<Rightarrow> wchan \<Rightarrow> send_code \<times> wchan \<times> poll_call list \<times> bytes" where
  "sendData closed r c =
    (if closed then (SOCK_CLOSED, c, [], [])
     else (case SendData r (wrQueue c) of (rc, q, w) \<Rightarrow>
       let c' = c\<lparr>wrQueue := q\<rparr> in
       if rc = QUEUE_EMPTY then (case recheck_empty c' of (c'', calls) \<Rightarrow> (rc, c'', calls, w))
       else (rc, c', [], w)))"

section \<open>Interleaving\<close>

text \<open>
  \<open>armed\<close> is the write interest the poller has for the socket, \<open>posted\<close> the messages accepted by
  \<open>post\<close>, \<open>wire\<close> the bytes the kernel accepted; \<open>held\<close> is the message the I/O thread is sending
  outside the lock, \<open>looked\<close> that it has seen an empty queue and is about to look again.
\<close>

record channel =
  ch :: wchan
  armed :: bool
  posted :: "tcp_message list"
  wire :: bytes
  held :: "tcp_message option"
  looked :: bool
  failed :: bool

definition armed_by :: "bool \<Rightarrow> poll_call list \<Rightarrow> bool" where
  "armed_by b calls = foldl (\<lambda>a call. case call of SpEnable _ _ _ w \<Rightarrow> w | SpAdd _ _ w \<Rightarrow> w | SpDel _ _ \<Rightarrow> False) b calls"

inductive ch_step :: "channel \<Rightarrow> channel \<Rightarrow> bool" where
  ch_post: "post m (ch s) = (rc, c', calls) \<Longrightarrow>
    ch_step s (s\<lparr>ch := c', armed := armed_by (armed s) calls,
      posted := posted s @ (if rc = 0 then [m] else [])\<rparr>)"
| ch_take: "\<not> failed s \<Longrightarrow> held s = None \<Longrightarrow> \<not> looked s \<Longrightarrow> SendData_take (wrQueue (ch s)) = Some (m, ms) \<Longrightarrow>
    ch_step s (s\<lparr>ch := (ch s)\<lparr>wrQueue := ms\<rparr>, held := Some m\<rparr>)"
| ch_sent: "held s = Some m \<Longrightarrow> SendData_finish r m (wrQueue (ch s)) = (rc, q, w) \<Longrightarrow>
    (\<And>n. r = Inr n \<Longrightarrow> n \<le> length (msg_data m)) \<Longrightarrow>
    ch_step s (s\<lparr>ch := (ch s)\<lparr>wrQueue := q\<rparr>, held := None, wire := wire s @ w, failed := (rc = SEND_FAIL)\<rparr>)"
| ch_look: "\<not> failed s \<Longrightarrow> held s = None \<Longrightarrow> SendData_take (wrQueue (ch s)) = None \<Longrightarrow>
    ch_step s (s\<lparr>looked := True\<rparr>)"
| ch_recheck: "looked s \<Longrightarrow> recheck_empty (ch s) = (c', calls) \<Longrightarrow>
    ch_step s (s\<lparr>ch := c', armed := armed_by (armed s) calls, looked := False\<rparr>)"

inductive_cases ch_stepE: "ch_step s s'"

text \<open>A channel right after it joined the poller: registered for reading, queue possibly not empty.\<close>

inductive ch_reach :: "channel \<Rightarrow> bool" where
  ch_init: "fd \<noteq> INVALID_SOCK \<Longrightarrow> efd \<noteq> INVALID_SOCK \<Longrightarrow>
    joinMonitor efd \<lparr>wc_fd = fd, wc_efd = INVALID_SOCK, wrQueue = q, enableWrite_flag = b\<rparr> = (c, calls) \<Longrightarrow>
    ch_reach \<lparr>ch = c, armed = armed_by False calls, posted = q, wire = [], held = None, looked = False, failed = False\<rparr>"
| ch_more: "ch_reach s \<Longrightarrow> ch_step s s' \<Longrightarrow> ch_reach s'"

definition held_bytes :: "channel \<Rightarrow> bytes" where
  "held_bytes s = (case held s of None \<Rightarrow> [] | Some m \<Rightarrow> msg_data m)"

definition unsent :: "channel \<Rightarrow> bytes" where
  "unsent s = held_bytes s @ concat (map msg_data (wrQueue (ch s)))"

definition order_inv :: "channel \<Rightarrow> bool" where
  "order_inv s \<longleftrightarrow> (held s = None \<or> \<not> looked s) \<and>
    (if failed s then prefix (wire s) (concat (map msg_data (posted s))) \<and> held s = None \<and> \<not> looked s
     else wire s @ unsent s = concat (map msg_data (posted s)))"

definition wake_inv :: "channel \<Rightarrow> bool" where
  "wake_inv s \<longleftrightarrow> wc_fd (ch s) \<noteq> INVALID_SOCK \<and> wc_efd (ch s) \<noteq> INVALID_SOCK \<and>
     armed s = enableWrite_flag (ch s) \<and> (held s = None \<or> \<not> looked s) \<and>
     (wrQueue (ch s) \<noteq> [] \<or> held s \<noteq> None \<longrightarrow> enableWrite_flag (ch s))"

lemmas ch_defs = post_def SendData_take_def SendData_finish_def SendMsg_def sock_send_def
  recheck_empty_def enableWrite_def joinMonitor_def

lemma finish_bytes:
  assumes "SendData_finish r m queue = (rc, q, w)" and "rc \<noteq> SEND_FAIL"
  shows "w @ concat (map msg_data q) = msg_data m @ concat (map msg_data queue)"
  using assms by (auto simp: SendData_finish_def Let_def split: if_splits)

lemma finish_prefix:
  assumes "SendData_finish r m queue = (SEND_FAIL, q, w)"
  shows "w = []"
  using assms by (auto simp: SendData_finish_def Let_def split: if_splits)

lemma enableWrite_queue [simp]: "wrQueue (fst (enableWrite b c)) = wrQueue c"
  by (simp add: enableWrite_def)

lemma post_queue: "post m c = (rc, c', calls) \<Longrightarrow> wrQueue c' = wrQueue c @ (if rc = 0 then [m] else [])"
  by (auto simp: post_def enableWrite_def split: if_splits)

lemma ch_step_order: "ch_step s s' \<Longrightarrow> order_inv s \<Longrightarrow> order_inv s'"
proof (induction rule: ch_step.induct)
  case (ch_post m s rc c' calls)
  then show ?case
    using post_queue [OF ch_post(1)]
    by (auto simp: order_inv_def unsent_def held_bytes_def simp flip: append_assoc)
next
  case (ch_take s m ms)
  then show ?case
    by (auto simp: order_inv_def unsent_def held_bytes_def SendData_take_def split: list.splits)
next
  case (ch_sent s m r rc q w)
  then have nf: "\<not> failed s" by (auto simp: order_inv_def)
  show ?case
  proof (cases "rc = SEND_FAIL")
    case True
    with ch_sent nf finish_prefix [of r m "wrQueue (ch s)" q w] show ?thesis
      by (auto simp: order_inv_def intro: prefixI [OF sym])
  next
    case False
    with ch_sent nf finish_bytes [OF ch_sent(2)] show ?thesis
      by (auto simp: order_inv_def unsent_def held_bytes_def)
  qed
qed (auto simp: order_inv_def unsent_def held_bytes_def recheck_empty_def enableWrite_def split: if_splits)

lemma ch_step_wake: "ch_step s s' \<Longrightarrow> wake_inv s \<Longrightarrow> wake_inv s'"
proof (induction rule: ch_step.induct)
  case (ch_post m s rc c' calls)
  then show ?case
    by (auto simp: wake_inv_def post_def enableWrite_def armed_by_def split: if_splits)
next
  case (ch_take s m ms)
  then show ?case by (auto simp: wake_inv_def SendData_take_def split: list.splits)
next
  case (ch_sent s m r rc q w)
  then show ?case by (auto simp: wake_inv_def)
next
  case (ch_look s)
  then show ?case by (auto simp: wake_inv_def)
next
  case (ch_recheck s c' calls)
  then show ?case
    by (auto simp: wake_inv_def recheck_empty_def enableWrite_def armed_by_def split: if_splits)
qed

lemma ch_reach_invs: "ch_reach s \<Longrightarrow> order_inv s \<and> wake_inv s"
proof (induction rule: ch_reach.induct)
  case (ch_init fd efd q b c calls)
  then show ?case
    by (auto simp: order_inv_def wake_inv_def unsent_def held_bytes_def joinMonitor_def enableWrite_def
        armed_by_def Let_def split: if_splits)
qed (blast intro: ch_step_order ch_step_wake)

section \<open>Properties\<close>

text \<open>C4: under any interleaving of posting threads with the I/O thread, partial writes included, the
  bytes on the wire are a prefix of the accepted messages laid end to end; until a write fails, the
  bytes on the wire followed by those not yet sent are exactly all of them.\<close>

theorem wire_in_order:
  assumes "ch_reach s"
  shows "prefix (wire s) (concat (map msg_data (posted s))) \<and>
    (failed s \<or> wire s @ unsent s = concat (map msg_data (posted s)))"
  using ch_reach_invs [OF assms] by (auto simp: order_inv_def intro: prefixI [OF sym] split: if_splits)

theorem wire_in_order_witness:
  "\<exists>s. ch_reach s \<and> prefix (wire s) (concat (map msg_data (posted s))) \<and>
    (failed s \<or> wire s @ unsent s = concat (map msg_data (posted s))) \<and> wire s = [1, 2 :: byte]"
proof -
  let ?m = "\<lparr>msg_data = [1, 2, 3]\<rparr>"
  let ?c = "\<lambda>q. \<lparr>wc_fd = 7, wc_efd = 3, wrQueue = q, enableWrite_flag = True\<rparr>"
  let ?s = "\<lambda>q h w. \<lparr>ch = ?c q, armed = True, posted = [?m], wire = w, held = h, looked = False, failed = False\<rparr>"
  have "ch_reach (?s [?m] None [])"
    using ch_init [of 7 3 "[?m]" False "?c [?m]" "[SpEnable 3 7 True True]"]
    by (simp add: joinMonitor_def enableWrite_def INVALID_SOCK_def armed_by_def)
  moreover have "ch_step (?s [?m] None []) (?s [] (Some ?m) [])"
    using ch_take [of "?s [?m] None []" ?m "[]"] by (simp add: SendData_take_def)
  moreover have "ch_step (?s [] (Some ?m) []) (?s [\<lparr>msg_data = [3]\<rparr>] None [1, 2])"
    using ch_sent [of "?s [] (Some ?m) []" ?m "Inr 2" SEND_SUCCESS "[\<lparr>msg_data = [3]\<rparr>]" "[1, 2]"]
    by (simp add: SendData_finish_def SendMsg_def sock_send_def)
  ultimately have "ch_reach (?s [\<lparr>msg_data = [3]\<rparr>] None [1, 2])" by (blast intro: ch_more)
  from wire_in_order [OF this] this show ?thesis
    by (intro exI [of _ "?s [\<lparr>msg_data = [3]\<rparr>] None [1, 2]"]) simp
qed

text \<open>C18: no wake-up is lost: under any interleaving, as long as a byte is unsent the poller has write
  interest for the socket, so the I/O thread will be called again.\<close>

theorem unsent_is_armed:
  assumes "ch_reach s" and "unsent s \<noteq> []"
  shows "armed s"
  using ch_reach_invs [OF assms(1)] assms(2)
  by (auto simp: wake_inv_def unsent_def held_bytes_def split: option.splits)

theorem unsent_is_armed_witness:
  "\<exists>s. ch_reach s \<and> unsent s = [9 :: byte] \<and> armed s"
proof -
  let ?m = "\<lparr>msg_data = [9 :: byte]\<rparr>"
  let ?s = "\<lparr>ch = \<lparr>wc_fd = 7, wc_efd = 3, wrQueue = [?m], enableWrite_flag = True\<rparr>, armed = True, posted = [?m],
    wire = [], held = None, looked = False, failed = False\<rparr>"
  have "ch_reach ?s"
    using ch_init [of 7 3 "[?m]" False "ch ?s" "[SpEnable 3 7 True True]"]
    by (simp add: joinMonitor_def enableWrite_def INVALID_SOCK_def armed_by_def)
  moreover have "unsent ?s = [9]" by (simp add: unsent_def held_bytes_def)
  moreover have "armed ?s" by (rule unsent_is_armed [OF \<open>ch_reach ?s\<close>]) (simp add: unsent_def held_bytes_def)
  ultimately show ?thesis by blast
qed

text \<open>a queue is refused messages only above 256 entries: with 256 entries a message is still
  accepted, so that the queue holds 257; with 257 the message is refused and nothing changes.\<close>

theorem post_bound:
  "(fst (post m c) = 0 \<longleftrightarrow> length (wrQueue c) \<le> 256) \<and>
   wrQueue (fst (snd (post m c))) = wrQueue c @ (if fst (post m c) = 0 then [m] else [])"
  by (auto simp: post_def MaxPendingMsg_def)

end
