(* ===== verification/TcpUser.thy ===== *)
theory TcpUser
  imports Framing WriteChannel
begin

text \<open>
  The server's view of one connection, \<^verbatim>\<open>tcpsock_user\<close> (\<^verbatim>\<open>src/zbf/socket_tcp_v5.hpp\<close>), and the idle timer
  \<^verbatim>\<open>heartbeat_helper\<close> (\<^verbatim>\<open>src/zbf/heartbeat_helper.hpp\<close>).  The descriptor, the poller handle, the write
  queue and the write flag are the write channel; the receive cache is a memory chunk.  The clock
  value a method reads is an argument.
\<close>

record heartbeat_helper =
  hb_threshold :: int
  hb_lastTime :: int

definition heartbeat_new :: "int \<Rightarrow> heartbeat_helper" where
  "heartbeat_new threshold = \<lparr>hb_threshold = threshold, hb_lastTime = 0\<rparr>"

definition hb_update :: "int \<Rightarrow> heartbeat_helper \<Rightarrow> heartbeat_helper" where
  "hb_update now h = h\<lparr>hb_lastTime := now\<rparr>"

definition hb_isExceed :: "int \<Rightarrow> heartbeat_helper \<Rightarrow> bool" where
  "hb_isExceed now h \<longleftrightarrow> now - hb_lastTime h \<ge> hb_threshold h"

record tcpsock_user =
  u_chan :: wchan
  u_seq :: u64
  u_peerAddr :: bytes
  u_peerPort :: u16
  u_recvCache :: memchunk
  u_closed :: bool
  u_started :: bool
  u_hbhelper :: heartbeat_helper
  u_protocol :: "tcp_message_protocol option"

definition UserTimeout :: int where "UserTimeout = 90"
definition user_BufferSize :: u32 where "user_BufferSize = 1024"

definition user_new :: "allocator \<Rightarrow> tcpsock_user" where
  "user_new al = \<lparr>
     u_chan = \<lparr>wc_fd = INVALID_SOCK, wc_efd = INVALID_SOCK, wrQueue = [], enableWrite_flag = False\<rparr>,
     u_seq = 0, u_peerAddr = [], u_peerPort = 0,
     u_recvCache = memchunk_new al user_BufferSize,
     u_closed = False, u_started = False,
     u_hbhelper = heartbeat_new UserTimeout, u_protocol = None\<rparr>"

definition user_init :: "bytes \<Rightarrow> u16 \<Rightarrow> int \<Rightarrow> u64 \<Rightarrow> int \<Rightarrow> tcpsock_user \<Rightarrow> tcpsock_user" where
  "user_init addr port fd seq now u = u\<lparr>
     u_peerAddr := addr, u_peerPort := port, u_chan := (u_chan u)\<lparr>wc_fd := fd\<rparr>, u_seq := seq,
     u_hbhelper := hb_update now (u_hbhelper u)\<rparr>"

definition user_setClose :: "tcpsock_user \<Rightarrow> tcpsock_user" where
  "user_setClose u = u\<lparr>u_closed := True\<rparr>"

definition user_isClosed :: "tcpsock_user \<Rightarrow> bool" where
  "user_isClosed u = u_closed u"

definition user_setStart :: "tcpsock_user \<Rightarrow> tcpsock_user" where
  "user_setStart u = u\<lparr>u_started := True\<rparr>"

definition user_isStarted :: "tcpsock_user \<Rightarrow> bool" where
  "user_isStarted u = u_started u"

definition user_post :: "tcp_message \<Rightarrow> tcpsock_user \<Rightarrow> int \<times> tcpsock_user \<times> poll_call list" where
  "user_post msg u = (case post msg (u_chan u) of (rc, c, calls) \<Rightarrow> (rc, u\<lparr>u_chan := c\<rparr>, calls))"

definition user_joinMonitor :: "int \<Rightarrow> tcpsock_user \<Rightarrow> tcpsock_user \<times> poll_call list" where
  "user_joinMonitor efd u = (case joinMonitor efd (u_chan u) of (c, calls) \<Rightarrow> (u\<lparr>u_chan := c\<rparr>, calls))"

definition user_leaveMonitor :: "tcpsock_user \<Rightarrow> tcpsock_user" where
  "user_leaveMonitor u = u\<lparr>u_chan := leaveMonitor (u_chan u)\<rparr>"

definition user_setProtocol :: "tcp_message_protocol option \<Rightarrow> tcpsock_user \<Rightarrow> tcpsock_user" where
  "user_setProtocol p u = u\<lparr>u_protocol := p\<rparr>"

definition user_sendData :: "errno + nat \<Rightarrow> tcpsock_user \<Rightarrow> send_code \<times> tcpsock_user \<times> poll_call list \<times> bytes" where
  "user_sendData r u =
    (case sendData (user_isClosed u) r (u_chan u) of (rc, c, calls, w) \<Rightarrow> (rc, u\<lparr>u_chan := c\<rparr>, calls, w))"

definition user_onRecv :: "allocator \<Rightarrow> bytes \<Rightarrow> tcpsock_user \<Rightarrow> memerr + int \<times> tcpsock_user" where
  "user_onRecv al bs u =
    (if user_isClosed u then Inr (1, u)
     else (case cache_onRecv al bs (u_recvCache u) of
       Inl e \<Rightarrow> Inl e
     | Inr (rc, c) \<Rightarrow> Inr (rc, u\<lparr>u_recvCache := c\<rparr>)))"

definition user_getRecvMsg :: "int \<Rightarrow> tcpsock_user \<Rightarrow> memerr + tcp_message option \<times> tcpsock_user" where
  "user_getRecvMsg now u =
    (if user_isClosed u then Inr (None, u)
     else (case PopMsg (u_protocol u) (u_recvCache u) of
       Inl e \<Rightarrow> Inl e
     | Inr (msg, c) \<Rightarrow>
       let u' = u\<lparr>u_recvCache := c\<rparr> in
       Inr (msg, if msg \<noteq> None then u'\<lparr>u_hbhelper := hb_update now (u_hbhelper u')\<rparr> else u')))"

partial_function (option) user_recv_loop ::
  "int \<Rightarrow> tcpsock_user \<Rightarrow> (memerr + tcp_message list \<times> tcpsock_user) option" where
  "user_recv_loop now u =
    (case user_getRecvMsg now u of
       Inl e \<Rightarrow> Some (Inl e)
     | Inr (None, u') \<Rightarrow> Some (Inr ([], u'))
     | Inr (Some m, u') \<Rightarrow>
       Option.bind (user_recv_loop now u') (\<lambda>r.
         case r of Inl e \<Rightarrow> Some (Inl e) | Inr (ms, u'') \<Rightarrow> Some (Inr (m # ms, u''))))"

definition user_isExpired :: "int \<Rightarrow> tcpsock_user \<Rightarrow> bool" where
  "user_isExpired now u = hb_isExceed now (u_hbhelper u)"

text \<open>\<^verbatim>\<open>uninit\<close> returns the descriptor it closes.\<close>

definition user_uninit :: "tcpsock_user \<Rightarrow> tcpsock_user \<times> int list" where
  "user_uninit u =
    (let fd = wc_fd (u_chan u) in
     (u\<lparr>u_chan := (u_chan u)\<lparr>wc_fd := INVALID_SOCK, wrQueue := []\<rparr>\<rparr>,
      if fd \<noteq> INVALID_SOCK then [fd] else []))"

definition user_desc :: "bool \<Rightarrow> tcpsock_user \<Rightarrow> bytes" where
  "user_desc brief u = take 63
    (if brief then lit ''seq:'' @ to_string (unat (u_seq u)) @ lit ''|fd:'' @ to_string_int (wc_fd (u_chan u))
     else lit ''seq:'' @ to_string (unat (u_seq u)) @ lit ''|fd:'' @ to_string_int (wc_fd (u_chan u)) @
       lit ''|peer='' @ u_peerAddr u @ lit ''|port:'' @ to_string (unat (u_peerPort u)))"

section \<open>Facts\<close>

text \<open>The loop of the I/O thread on an open user is the loop on its cache.\<close>

lemma user_recv_loop_cache:
  assumes "msg_protocol p" and "u_protocol u = Some p" and "\<not> u_closed u" and "cache_ok (u_recvCache u)"
  shows "\<exists>u'. user_recv_loop now u = Some (Inr (fst (frames p (contents (u_recvCache u))), u')) \<and>
    cache_ok (u_recvCache u') \<and> contents (u_recvCache u') = snd (frames p (contents (u_recvCache u))) \<and>
    u_closed u' = u_closed u \<and> u_chan u' = u_chan u \<and> u_protocol u' = u_protocol u"
  using assms(2-)
proof (induction "length (contents (u_recvCache u))" arbitrary: u rule: less_induct)
  case less
  let ?c = "contents (u_recvCache u)"
  obtain c1 where c1: "PopMsg (Some p) (u_recvCache u) = Inr (fst (frame1 p ?c), c1)" "cache_ok c1"
      "contents c1 = snd (frame1 p ?c)"
    using PopMsg_refines [OF assms(1) less.prems(3)] by blast
  have hp: "headerSize p \<noteq> 0" using msg_protocol.header_pos [OF assms(1)] by auto
  show ?case
  proof (cases "fst (frame1 p ?c)")
    case None
    with c1 hp less.prems show ?thesis
      by (simp add: user_recv_loop.simps [of now u] user_getRecvMsg_def user_isClosed_def
          frames.simps [of p ?c] case_prod_beta)
  next
    case (Some m)
    let ?u1 = "u\<lparr>u_recvCache := c1, u_hbhelper := hb_update now (u_hbhelper u)\<rparr>"
    have "length (contents c1) < length ?c"
      using Some c1(3) msg_protocol.header_pos [OF assms(1)]
      by (auto simp: frame1_def Let_def split: if_splits)
    then obtain u2 where
      "user_recv_loop now ?u1 = Some (Inr (fst (frames p (contents c1)), u2))" "cache_ok (u_recvCache u2)"
      "contents (u_recvCache u2) = snd (frames p (contents c1))" "u_closed u2 = u_closed u"
      "u_chan u2 = u_chan u" "u_protocol u2 = u_protocol u"
      using less.hyps [of ?u1] less.prems c1(2) by auto
    with Some c1 hp less.prems show ?thesis
      by (simp add: user_recv_loop.simps [of now u] user_getRecvMsg_def user_isClosed_def
          frames.simps [of p ?c] case_prod_beta Let_def)
  qed
qed

lemma user_onRecv_frame:
  "user_onRecv al bs u = Inr (rc, u') \<Longrightarrow> u_closed u' = u_closed u \<and> u_chan u' = u_chan u \<and> u_protocol u' = u_protocol u"
  by (auto simp: user_onRecv_def split: if_splits sum.splits)

section \<open>Properties\<close>

text \<open>a user that is closed neither takes input nor delivers messages nor sends: onRecv returns 1,
  getRecvMsg returns no message and sendData reports a closed socket, and none of them changes the user.\<close>

theorem closed_user_inert:
  assumes "u_closed u"
  shows "user_onRecv al bs u = Inr (1, u) \<and> user_getRecvMsg now u = Inr (None, u) \<and>
    user_sendData r u = (SOCK_CLOSED, u, [], [])"
  using assms by (simp add: user_onRecv_def user_getRecvMsg_def user_sendData_def sendData_def user_isClosed_def)

theorem closed_user_inert_witness:
  "user_onRecv \<lparr>alloc_ok = \<lambda>_. True, fresh = \<lambda>_. 0\<rparr> [1] (user_setClose (user_new \<lparr>alloc_ok = \<lambda>_. True, fresh = \<lambda>_. 0\<rparr>)) =
      Inr (1, user_setClose (user_new \<lparr>alloc_ok = \<lambda>_. True, fresh = \<lambda>_. 0\<rparr>)) \<and>
    user_getRecvMsg 5 (user_setClose (user_new \<lparr>alloc_ok = \<lambda>_. True, fresh = \<lambda>_. 0\<rparr>)) =
      Inr (None, user_setClose (user_new \<lparr>alloc_ok = \<lambda>_. True, fresh = \<lambda>_. 0\<rparr>)) \<and>
    user_sendData (Inr 4) (user_setClose (user_new \<lparr>alloc_ok = \<lambda>_. True, fresh = \<lambda>_. 0\<rparr>)) =
      (SOCK_CLOSED, user_setClose (user_new \<lparr>alloc_ok = \<lambda>_. True, fresh = \<lambda>_. 0\<rparr>), [], [])"
  by (rule closed_user_inert) (simp add: user_setClose_def)

end
