(* ===== verification/TcpClient.thy ===== *)
theory TcpClient
  imports TcpUser
begin

text \<open>
  The blocking client, its connection pool and the pool of pools of \<^verbatim>\<open>src/zbf/socket_tcp_v5.hpp\<close>
  (\<^verbatim>\<open>tcpsock_client\<close>, \<^verbatim>\<open>tcpsock_cltpool\<close>, \<^verbatim>\<open>tcpsock_ha_cltpool\<close>).  The outcomes of the system calls of a
  connection attempt are the record \<open>conn_env\<close>, those of one request the record \<open>send_script\<close>; clients
  are objects in the pool's store, referred to by the idle list and the client list.
\<close>

record tcpsock_client =
  cl_serverAddr :: bytes
  cl_serverPort :: u16
  cl_seq :: u64
  cl_fd :: int
  cl_owner :: bytes
  cl_closed :: bool
  cl_hbhelper :: heartbeat_helper

definition HeartbeatTime :: int where "HeartbeatTime = 30"

definition client_new :: "bytes \<Rightarrow> u16 \<Rightarrow> u64 \<Rightarrow> bytes \<Rightarrow> tcpsock_client" where
  "client_new addr port seq owner = \<lparr>
     cl_serverAddr = addr, cl_serverPort = port, cl_seq = seq, cl_fd = INVALID_SOCK, cl_owner = owner,
     cl_closed = False, cl_hbhelper = heartbeat_new HeartbeatTime\<rparr>"

definition client_isConnected :: "tcpsock_client \<Rightarrow> bool" where
  "client_isConnected c \<longleftrightarrow> cl_fd c \<noteq> INVALID_SOCK"

definition client_isClosed :: "tcpsock_client \<Rightarrow> bool" where
  "client_isClosed c = cl_closed c"

definition client_setClose :: "tcpsock_client \<Rightarrow> tcpsock_client" where
  "client_setClose c = c\<lparr>cl_closed := True\<rparr>"

definition client_needHeartbeat :: "int \<Rightarrow> tcpsock_client \<Rightarrow> bool" where
  "client_needHeartbeat now c = hb_isExceed now (cl_hbhelper c)"

definition client_flushAlive :: "int \<Rightarrow> tcpsock_client \<Rightarrow> tcpsock_client" where
  "client_flushAlive now c = c\<lparr>cl_hbhelper := hb_update now (cl_hbhelper c)\<rparr>"

definition client_desc :: "bool \<Rightarrow> tcpsock_client \<Rightarrow> bytes" where
  "client_desc brief c = take 63
    (cl_owner c @ lit ''|seq:'' @ to_string (unat (cl_seq c)) @ lit ''|fd:'' @ to_string_int (cl_fd c) @
     (if brief then [] else lit ''|addr='' @ cl_serverAddr c @ lit ''|port:'' @ to_string (unat (cl_serverPort c))))"

text \<open>Methods that close a descriptor return it.\<close>

definition client_disconnect :: "tcpsock_client \<Rightarrow> tcpsock_client \<times> int list" where
  "client_disconnect c =
    (if cl_fd c \<noteq> INVALID_SOCK then (c\<lparr>cl_fd := INVALID_SOCK\<rparr>, [cl_fd c]) else (c, []))"

record conn_env =
  ce_addrinfo :: bool
  ce_socket :: int
  ce_connect :: int
  ce_errno :: errno
  ce_select :: int
  ce_isset :: bool
  ce_getsockopt_ok :: bool
  ce_soerror :: int
  ce_now :: int

definition connect_rc :: "conn_env \<Rightarrow> int" where
  "connect_rc e =
    (if \<not> ce_addrinfo e then -1
     else if ce_socket e < 0 then -2
     else if ce_connect e = 0 then 0
     else if checkConnError (ce_connect e) (ce_errno e) then -3
     else if \<not> checkSockStat (ce_select e) (ce_isset e) then -4
     else if checkSoError (ce_getsockopt_ok e) (ce_soerror e) \<noteq> 0 then -5
     else 0)"

definition client_connect :: "conn_env \<Rightarrow> tcpsock_client \<Rightarrow> int \<times> tcpsock_client \<times> int list" where
  "client_connect e c =
    (case client_disconnect (c\<lparr>cl_closed := False\<rparr>) of (c1, fds) \<Rightarrow>
       let rc = connect_rc e; fd = (if ce_addrinfo e then ce_socket e else INVALID_SOCK) in
       if rc = 0 then (0, client_flushAlive (ce_now e) (c1\<lparr>cl_fd := fd\<rparr>), fds)
       else (rc, c1, fds @ (if fd \<noteq> INVALID_SOCK then [fd] else [])))"

text \<open>
  One request: the kernel's answers to the sends and to the two receives, and the bytes the peer
  sends.  The result adds the bytes put on the wire and the input left unread.
\<close>

record send_script =
  ss_send :: send_env
  ss_recv_hdr :: send_env
  ss_recv_body :: send_env
  ss_inp :: bytes
  ss_now :: int

definition recv_ack ::
  "tcp_message_protocol \<Rightarrow> send_script \<Rightarrow> (tcp_message \<times> bytes) option" where
  "recv_ack p sc =
    (let headerSz = unat (headerSize p) in
     case recv_all (ss_recv_hdr sc) headerSz (ss_inp sc) of (recvlen, hdr, rest) \<Rightarrow>
       if recvlen \<noteq> int headerSz then None
       else
         let bodySz = bodySize p (Some \<lparr>msg_data = hdr\<rparr>) in
         if bodySz > MaxBodySize p then None
         else if bodySz > 0 then
           (case recv_all (ss_recv_body sc) (unat bodySz) rest of (recvlen', body, rest') \<Rightarrow>
              if recvlen' < int (unat bodySz) then None else Some (\<lparr>msg_data = hdr @ body\<rparr>, rest'))
         else Some (\<lparr>msg_data = hdr\<rparr>, rest))"

definition innerSend ::
  "tcp_message_protocol \<Rightarrow> send_script \<Rightarrow> tcp_message \<Rightarrow> bool \<Rightarrow> tcpsock_client \<Rightarrow>
   send_code \<times> tcp_message option \<times> tcpsock_client \<times> int list \<times> bytes" where
  "innerSend p sc req want_ack c =
    (if \<not> client_isConnected c then (SEND_FAIL, None, c, [], [])
     else
       (case send_with_retry (ss_send sc) (msg_data req) 10 of (rc, w, _) \<Rightarrow>
          if rc < int (length (msg_data req)) then
            (case client_disconnect c of (c', fds) \<Rightarrow> (SEND_FAIL, None, c', fds, w))
          else if \<not> want_ack then (SEND_SUCCESS, None, client_flushAlive (ss_now sc) c, [], w)
          else (case recv_ack p sc of
            None \<Rightarrow> (case client_disconnect c of (c', fds) \<Rightarrow> (RECV_FAIL, None, c', fds, w))
          | Some (res, _) \<Rightarrow> (SEND_SUCCESS, Some res, client_flushAlive (ss_now sc) c, [], w))))"

text \<open>\<^verbatim>\<open>send\<close>: one more try on a new connection when the first write failed.\<close>

definition client_send ::
  "tcp_message_protocol \<Rightarrow> send_script \<Rightarrow> conn_env \<Rightarrow> send_script \<Rightarrow> tcp_message \<Rightarrow> bool \<Rightarrow> tcpsock_client \<Rightarrow>
   send_code \<times> tcp_message option \<times> tcpsock_client" where
  "client_send p sc1 ce sc2 req want_ack c =
    (case innerSend p sc1 req want_ack c of (rc, ack, c1, _, _) \<Rightarrow>
       if rc = SEND_FAIL then
         (case client_connect ce (fst (client_disconnect c1)) of (crc, c2, _) \<Rightarrow>
            if crc = 0 then (case innerSend p sc2 req want_ack c2 of (rc', ack', c3, _, _) \<Rightarrow> (rc', ack', c3))
            else (rc, ack, c2))
       else (rc, ack, c1))"

section \<open>The connection pool\<close>

record tcpsock_cltpool =
  pl_serverAddr :: bytes
  pl_serverPort :: u16
  pl_poolName :: bytes
  pl_poolSize :: int
  pl_clientSeq :: u64
  pl_heap :: "nat \<Rightarrow> tcpsock_client"
  pl_next :: nat
  pl_idleList :: "nat list"
  pl_clients :: "nat list"
  pl_poolInvalid :: bool

definition cltpool_new :: "bytes \<Rightarrow> (nat \<Rightarrow> tcpsock_client) \<Rightarrow> tcpsock_cltpool" where
  "cltpool_new name heap = \<lparr>pl_serverAddr = [], pl_serverPort = 0, pl_poolName = name, pl_poolSize = 0,
     pl_clientSeq = 1, pl_heap = heap, pl_next = 0, pl_idleList = [], pl_clients = [], pl_poolInvalid = False\<rparr>"

definition updatePoolState :: "bool \<Rightarrow> tcpsock_cltpool \<Rightarrow> tcpsock_cltpool" where
  "updatePoolState ok pl = pl\<lparr>pl_poolInvalid := \<not> ok\<rparr>"

definition pool_isInvalid :: "tcpsock_cltpool \<Rightarrow> bool" where
  "pool_isInvalid pl = pl_poolInvalid pl"

text \<open>A new client object; its id is the next address of the store.\<close>

definition alloc_client :: "tcpsock_cltpool \<Rightarrow> nat \<times> tcpsock_cltpool" where
  "alloc_client pl =
    (pl_next pl, pl\<lparr>pl_next := Suc (pl_next pl), pl_clientSeq := pl_clientSeq pl + 1,
       pl_heap := (pl_heap pl)(pl_next pl :=
         client_new (pl_serverAddr pl) (pl_serverPort pl) (pl_clientSeq pl) (pl_poolName pl))\<rparr>)"

definition connect_client :: "conn_env \<Rightarrow> nat \<Rightarrow> tcpsock_cltpool \<Rightarrow> int \<times> tcpsock_cltpool" where
  "connect_client ce i pl =
    (case client_connect ce (pl_heap pl i) of (rc, c, _) \<Rightarrow>
       (rc, updatePoolState (rc = 0) (pl\<lparr>pl_heap := (pl_heap pl)(i := c)\<rparr>)))"

definition createClient :: "conn_env \<Rightarrow> tcpsock_cltpool \<Rightarrow> nat \<times> tcpsock_cltpool" where
  "createClient ce pl = (case alloc_client pl of (i, pl1) \<Rightarrow> (i, snd (connect_client ce i pl1)))"

definition pool_open :: "bytes option \<Rightarrow> u16 \<Rightarrow> int \<Rightarrow> conn_env \<Rightarrow> tcpsock_cltpool \<Rightarrow> int \<times> tcpsock_cltpool" where
  "pool_open serverAddr serverPort poolSize ce pl =
    (case serverAddr of None \<Rightarrow> (-1, pl)
     | Some addr \<Rightarrow>
       if serverPort = 0 \<or> poolSize = 0 then (-1, pl)
       else (case createClient ce (pl\<lparr>pl_serverAddr := addr, pl_serverPort := serverPort, pl_poolSize := poolSize\<rparr>) of
         (i, pl1) \<Rightarrow> (0, pl1\<lparr>pl_clients := pl_clients pl1 @ [i], pl_idleList := pl_idleList pl1 @ [i]\<rparr>)))"

definition pool_close :: "tcpsock_cltpool \<Rightarrow> tcpsock_cltpool \<times> int list" where
  "pool_close pl =
    (pl\<lparr>pl_clients := [], pl_idleList := []\<rparr>,
     concat (map (\<lambda>i. snd (client_disconnect (pl_heap pl i))) (pl_clients pl)))"

text \<open>The comparison of \<^verbatim>\<open>_clients.size()\<close> with the \<^verbatim>\<open>int\<close> pool size is made in \<^verbatim>\<open>size_t\<close>.\<close>

definition below_size :: "tcpsock_cltpool \<Rightarrow> bool" where
  "below_size pl \<longleftrightarrow> (of_nat (length (pl_clients pl)) :: u64) < word_of_int (pl_poolSize pl)"

definition grow_pool :: "conn_env \<Rightarrow> tcpsock_cltpool \<Rightarrow> tcpsock_cltpool" where
  "grow_pool ce pl =
    (if below_size pl \<and> pl_idleList pl = [] then
       (case alloc_client pl of (i, pl1) \<Rightarrow>
          let pl2 = pl1\<lparr>pl_clients := pl_clients pl1 @ [i]\<rparr> in
          (case connect_client ce i pl2 of (rc, pl3) \<Rightarrow>
             if rc = 0 then pl3\<lparr>pl_idleList := pl_idleList pl3 @ [i]\<rparr>
             else pl3\<lparr>pl_clients := remove1 i (pl_clients pl3)\<rparr>))
     else pl)"

definition take_idle :: "tcpsock_cltpool \<Rightarrow> nat option \<times> tcpsock_cltpool" where
  "take_idle pl =
    (case pl_idleList pl of [] \<Rightarrow> (None, pl) | i # is \<Rightarrow> (Some i, pl\<lparr>pl_idleList := is\<rparr>))"

text \<open>\<open>others\<close> is what other threads do to the pool while this one waits on the condition variable.\<close>

definition popIdleClient ::
  "conn_env \<Rightarrow> int \<Rightarrow> (tcpsock_cltpool \<Rightarrow> tcpsock_cltpool) \<Rightarrow> tcpsock_cltpool \<Rightarrow> nat option \<times> tcpsock_cltpool" where
  "popIdleClient ce wait_ms others pl =
    (let pl1 = grow_pool ce pl in
     if pl_idleList pl1 \<noteq> [] then take_idle pl1
     else if wait_ms > 0 then take_idle (others pl1)
     else (None, pl1))"

definition pushClientBack :: "nat \<Rightarrow> tcpsock_cltpool \<Rightarrow> tcpsock_cltpool" where
  "pushClientBack i pl = pl\<lparr>pl_idleList := pl_idleList pl @ [i]\<rparr>"

record pool_script =
  ps_conn :: conn_env
  ps_send1 :: send_script
  ps_reconn :: conn_env
  ps_send2 :: send_script

definition pool_send ::
  "tcp_message_protocol \<Rightarrow> pool_script \<Rightarrow> int \<Rightarrow> (tcpsock_cltpool \<Rightarrow> tcpsock_cltpool) \<Rightarrow> tcp_message \<Rightarrow> bool \<Rightarrow>
   tcpsock_cltpool \<Rightarrow> send_code \<times> tcp_message option \<times> tcpsock_cltpool" where
  "pool_send p sc wait_max others req want_ack pl =
    (case popIdleClient (ps_conn sc) wait_max others pl of
       (None, pl1) \<Rightarrow> (SEND_TIMEOUT, None, pl1)
     | (Some i, pl1) \<Rightarrow>
       (case client_send p (ps_send1 sc) (ps_reconn sc) (ps_send2 sc) req want_ack (pl_heap pl1 i) of
          (rc, ack, c) \<Rightarrow>
          (rc, ack, pushClientBack i (updatePoolState (rc = SEND_SUCCESS)
             (pl1\<lparr>pl_heap := (pl_heap pl1)(i := c)\<rparr>)))))"

text \<open>\<^verbatim>\<open>keepAlive\<close>: the idle clients that are due leave the list, send a heartbeat, and come back last.\<close>

fun heartbeat_all ::
  "tcp_message_protocol \<Rightarrow> (nat \<Rightarrow> pool_script) \<Rightarrow> tcp_message \<Rightarrow> nat list \<Rightarrow> tcpsock_cltpool \<Rightarrow> tcpsock_cltpool" where
  "heartbeat_all p sc hb [] pl = pl"
| "heartbeat_all p sc hb (i # is) pl =
    (case client_send p (ps_send1 (sc i)) (ps_reconn (sc i)) (ps_send2 (sc i)) hb False (pl_heap pl i) of
       (rc, ack, c) \<Rightarrow> heartbeat_all p sc hb is (pl\<lparr>pl_heap := (pl_heap pl)(i := c)\<rparr>))"

definition pool_keepAlive ::
  "tcp_message_protocol \<Rightarrow> (nat \<Rightarrow> pool_script) \<Rightarrow> int \<Rightarrow> tcp_message \<Rightarrow> tcpsock_cltpool \<Rightarrow> tcpsock_cltpool" where
  "pool_keepAlive p sc now hb pl =
    (let due = filter (\<lambda>i. client_needHeartbeat now (pl_heap pl i)) (pl_idleList pl);
         rest = filter (\<lambda>i. \<not> client_needHeartbeat now (pl_heap pl i)) (pl_idleList pl);
         pl1 = heartbeat_all p sc hb due (pl\<lparr>pl_idleList := rest\<rparr>)
     in pl1\<lparr>pl_idleList := pl_idleList pl1 @ due\<rparr>)"

section \<open>The pool of pools\<close>

text \<open>
  The search both \<^verbatim>\<open>getPool\<close> and \<^verbatim>\<open>getClient\<close> make: at most one turn over the vector from a cursor
  that is kept between calls.  A cursor beyond the vector indexes out of bounds.
\<close>

fun rr_search :: "nat \<Rightarrow> ('a \<Rightarrow> bool) \<Rightarrow> 'a list \<Rightarrow> nat \<Rightarrow> memerr + nat option \<times> nat" where
  "rr_search 0 ok xs cursor = Inr (None, cursor)"
| "rr_search (Suc n) ok xs cursor =
    (let cur = (if cursor = length xs then 0 else cursor) in
     if cur \<ge> length xs then Inl OutOfBounds
     else if ok (xs ! cur) then Inr (Some cur, Suc cur)
     else rr_search n ok xs (Suc cur))"

record tcpsock_ha_cltpool =
  hp_cltPools :: "tcpsock_cltpool list"
  hp_poolCursor :: nat

definition addPool :: "tcpsock_cltpool \<Rightarrow> tcpsock_ha_cltpool \<Rightarrow> tcpsock_ha_cltpool" where
  "addPool pool h = h\<lparr>hp_cltPools := hp_cltPools h @ [pool]\<rparr>"

definition addConnectPool ::
  "bytes option \<Rightarrow> u16 \<Rightarrow> int \<Rightarrow> conn_env \<Rightarrow> (nat \<Rightarrow> tcpsock_client) \<Rightarrow> tcpsock_ha_cltpool \<Rightarrow> tcpsock_ha_cltpool" where
  "addConnectPool addr port poolSize ce heap h =
    (case pool_open addr port poolSize ce (cltpool_new (lit ''ha_cltpool'') heap) of
       (rc, pool) \<Rightarrow> if rc = 0 then addPool pool h else h)"

definition clearPools :: "tcpsock_ha_cltpool \<Rightarrow> tcpsock_ha_cltpool" where
  "clearPools h = h\<lparr>hp_cltPools := []\<rparr>"

definition getPool :: "tcpsock_ha_cltpool \<Rightarrow> memerr + nat option \<times> tcpsock_ha_cltpool" where
  "getPool h =
    (case rr_search (length (hp_cltPools h)) (\<lambda>p. \<not> pool_isInvalid p) (hp_cltPools h) (hp_poolCursor h) of
       Inl e \<Rightarrow> Inl e | Inr (i, cur) \<Rightarrow> Inr (i, h\<lparr>hp_poolCursor := cur\<rparr>))"

definition ha_send ::
  "tcp_message_protocol \<Rightarrow> pool_script \<Rightarrow> int \<Rightarrow> (tcpsock_cltpool \<Rightarrow> tcpsock_cltpool) \<Rightarrow> tcp_message \<Rightarrow> bool \<Rightarrow>
   tcpsock_ha_cltpool \<Rightarrow> memerr + send_code \<times> tcp_message option \<times> tcpsock_ha_cltpool" where
  "ha_send p sc wait_max others req want_ack h =
    (case getPool h of Inl e \<Rightarrow> Inl e
     | Inr (None, h') \<Rightarrow> Inr (POOL_INVALID, None, h')
     | Inr (Some i, h') \<Rightarrow>
       (case pool_send p sc wait_max others req want_ack (hp_cltPools h' ! i) of
          (rc, ack, pl) \<Rightarrow> Inr (rc, ack, h'\<lparr>hp_cltPools := (hp_cltPools h')[i := pl]\<rparr>)))"

definition ha_keepAlive ::
  "tcp_message_protocol \<Rightarrow> (nat \<Rightarrow> pool_script) \<Rightarrow> int \<Rightarrow> tcp_message \<Rightarrow> tcpsock_ha_cltpool \<Rightarrow> tcpsock_ha_cltpool" where
  "ha_keepAlive p sc now hb h = h\<lparr>hp_cltPools := map (pool_keepAlive p sc now hb) (hp_cltPools h)\<rparr>"

section \<open>Facts on requests\<close>

lemma recv_ack_wf:
  assumes "msg_protocol p" and "recv_ack p sc = Some (m, rest)"
  shows "wf_msg p m" "msg_data m @ rest = ss_inp sc"
proof -
  let ?n = "unat (headerSize p)"
  obtain rl hdr r1 where h: "recv_all (ss_recv_hdr sc) ?n (ss_inp sc) = (rl, hdr, r1)"
    by (metis prod_cases3)
  note hs = recv_all_stream [OF h]
  have rl: "rl = int ?n" using assms(2) h by (auto simp: recv_ack_def Let_def split: if_splits)
  then have lh: "length hdr = ?n" using hs(3) by (metis of_nat_0_le_iff of_nat_eq_iff)
  let ?b = "bodySize p (Some \<lparr>msg_data = hdr\<rparr>)"
  have small: "?b \<le> MaxBodySize p" using assms(2) h by (auto simp: recv_ack_def Let_def split: if_splits)
  show "wf_msg p m" and "msg_data m @ rest = ss_inp sc"
  proof -
    have "wf_msg p m \<and> msg_data m @ rest = ss_inp sc"
    proof (cases "?b > 0")
      case False
      then have "m = \<lparr>msg_data = hdr\<rparr>" "rest = r1" "?b = 0"
        using assms(2) h rl small by (auto simp: recv_ack_def Let_def word_gt_0 split: if_splits)
      with hs(1) lh small show ?thesis by (simp add: wf_msg_def)
    next
      case True
      obtain rl' body r2 where b: "recv_all (ss_recv_body sc) (unat ?b) r1 = (rl', body, r2)"
        by (metis prod_cases3)
      then have m: "m = \<lparr>msg_data = hdr @ body\<rparr>" "rest = r2" "int (unat ?b) \<le> rl'"
        using assms(2) h rl small True by (auto simp: recv_ack_def Let_def split: if_splits)
      then have "0 \<le> rl'" using of_nat_0_le_iff [of "unat ?b"] by linarith
      then have "int (unat ?b) \<le> int (length body)" using m(3) recv_all_stream(3) [OF b] by metis
      then have "length body = unat ?b" using recv_all_stream(2) [OF b] by linarith
      moreover have "bodySize p (Some \<lparr>msg_data = hdr @ body\<rparr>) = ?b"
        using msg_protocol.bodySize_append [OF assms(1), of hdr body] lh by simp
      ultimately show ?thesis
        using m lh small hs(1) recv_all_stream(1) [OF b] by (simp add: wf_msg_def)
    qed
    then show "wf_msg p m" and "msg_data m @ rest = ss_inp sc" by simp_all
  qed
qed

lemma innerSend_cases:
  assumes "innerSend p sc req want c = (rc, ack, c', fds, w)"
  shows "rc \<noteq> SEND_SUCCESS \<Longrightarrow> \<not> client_isConnected c' \<and> ack = None"
    and "rc = SEND_SUCCESS \<Longrightarrow> cl_fd c' = cl_fd c \<and> client_isConnected c' \<and> (ack = None \<longleftrightarrow> \<not> want)"
  using assms
  by (auto simp: innerSend_def client_disconnect_def client_isConnected_def client_flushAlive_def
      split: if_splits prod.splits option.splits)

lemma innerSend_success:
  assumes "innerSend p sc req want c = (SEND_SUCCESS, ack, c', fds, w)" and "msg_data req \<noteq> []"
  shows "w = msg_data req"
    and "ack = Some m \<Longrightarrow> \<exists>rest. recv_ack p sc = Some (m, rest)"
  using assms
  by (auto simp: innerSend_def dest!: send_with_retry_stream(2)
      split: if_splits prod.splits option.splits)

section \<open>The pool\<close>

definition pool_inv :: "tcpsock_cltpool \<Rightarrow> bool" where
  "pool_inv pl \<longleftrightarrow> distinct (pl_clients pl) \<and> distinct (pl_idleList pl) \<and>
    set (pl_idleList pl) \<subseteq> set (pl_clients pl) \<and> (\<forall>i \<in> set (pl_clients pl). i < pl_next pl) \<and>
    0 < pl_poolSize pl \<and> pl_poolSize pl < 2 ^ 31 \<and> int (length (pl_clients pl)) \<le> pl_poolSize pl"

lemma below_size_less:
  assumes "pool_inv pl"
  shows "below_size pl \<longleftrightarrow> int (length (pl_clients pl)) < pl_poolSize pl"
proof -
  have "unat (word_of_int (pl_poolSize pl) :: u64) = nat (pl_poolSize pl)"
    using assms by (simp add: pool_inv_def unsigned_of_int take_bit_int_eq_self)
  moreover have "unat (of_nat (length (pl_clients pl)) :: u64) = length (pl_clients pl)"
    using assms by (simp add: pool_inv_def unat_of_nat)
  ultimately show ?thesis
    using assms by (simp add: below_size_def word_less_nat_alt pool_inv_def zless_nat_eq_int_zless)
qed

lemma connect_client_frame:
  assumes "connect_client ce i pl = (rc, pl')"
  shows "pl_clients pl' = pl_clients pl \<and> pl_idleList pl' = pl_idleList pl \<and> pl_next pl' = pl_next pl \<and>
    pl_poolSize pl' = pl_poolSize pl"
  using assms by (auto simp: connect_client_def updatePoolState_def split: prod.splits)

lemma grow_pool_inv:
  assumes "pool_inv pl"
  shows "pool_inv (grow_pool ce pl)"
proof (cases "below_size pl \<and> pl_idleList pl = []")
  case True
  let ?i = "pl_next pl"
  obtain pl1 where a: "alloc_client pl = (?i, pl1)" by (simp add: alloc_client_def)
  then have a1: "pl_clients pl1 = pl_clients pl" "pl_idleList pl1 = pl_idleList pl"
      "pl_next pl1 = Suc ?i" "pl_poolSize pl1 = pl_poolSize pl"
    by (auto simp: alloc_client_def)
  obtain rc pl3 where c: "connect_client ce ?i (pl1\<lparr>pl_clients := pl_clients pl1 @ [?i]\<rparr>) = (rc, pl3)"
    by fastforce
  note c1 = connect_client_frame [OF c]
  have new: "?i \<notin> set (pl_clients pl)" using assms by (auto simp: pool_inv_def)
  then have "remove1 ?i (pl_clients pl @ [?i]) = pl_clients pl" by (simp add: remove1_append)
  with True assms a a1 c c1 new below_size_less [OF assms] show ?thesis
    by (auto simp: grow_pool_def pool_inv_def less_Suc_eq)
qed (auto simp: grow_pool_def assms)

lemma take_idle_inv:
  assumes "pool_inv pl" and "take_idle pl = (r, pl')"
  shows "pool_inv pl'" "r = Some i \<Longrightarrow> i \<in> set (pl_clients pl') \<and> i \<notin> set (pl_idleList pl')"
  using assms by (auto simp: take_idle_def pool_inv_def split: list.splits)

lemma popIdleClient_inv:
  assumes "pool_inv pl" and "\<And>q. pool_inv q \<Longrightarrow> pool_inv (others q)"
    and "popIdleClient ce wait others pl = (r, pl')"
  shows "pool_inv pl'" "r = Some i \<Longrightarrow> i \<in> set (pl_clients pl') \<and> i \<notin> set (pl_idleList pl')"
  using assms(3) take_idle_inv [of _ r pl'] grow_pool_inv [OF assms(1), of ce] assms(2)
  by (auto simp: popIdleClient_def Let_def split: if_splits)

lemma pool_inv_heap [simp]:
  "pool_inv (pl\<lparr>pl_heap := h\<rparr>) = pool_inv pl" "pool_inv (updatePoolState b pl) = pool_inv pl"
  by (simp_all add: pool_inv_def updatePoolState_def)

lemma pool_send_inv:
  assumes "pool_inv pl" and "\<And>q. pool_inv q \<Longrightarrow> pool_inv (others q)"
    and "pool_send p sc wait others req want pl = (rc, ack, pl')"
  shows "pool_inv pl'"
proof -
  obtain r pl1 where r: "popIdleClient (ps_conn sc) wait others pl = (r, pl1)" by fastforce
  note i = popIdleClient_inv [OF assms(1,2) r]
  show ?thesis
  proof (cases r)
    case (Some j)
    with i(2) have "j \<in> set (pl_clients pl1)" "j \<notin> set (pl_idleList pl1)" by simp_all
    with i(1) r Some assms(3) show ?thesis
      by (auto simp: pool_send_def pushClientBack_def pool_inv_def updatePoolState_def split: prod.splits)
  qed (use i(1) r assms(3) in \<open>auto simp: pool_send_def\<close>)
qed

lemma heartbeat_all_frame:
  "pl_clients (heartbeat_all p sc hb is pl) = pl_clients pl \<and> pl_idleList (heartbeat_all p sc hb is pl) = pl_idleList pl \<and>
   pl_next (heartbeat_all p sc hb is pl) = pl_next pl \<and> pl_poolSize (heartbeat_all p sc hb is pl) = pl_poolSize pl \<and>
   pl_poolInvalid (heartbeat_all p sc hb is pl) = pl_poolInvalid pl"
  by (induction p sc hb "is" pl rule: heartbeat_all.induct) (auto split: prod.splits)

lemma pool_keepAlive_inv: "pool_inv pl \<Longrightarrow> pool_inv (pool_keepAlive p sc now hb pl)"
  by (auto simp: pool_keepAlive_def Let_def pool_inv_def heartbeat_all_frame)

lemma pool_keepAlive_invalid [simp]: "pl_poolInvalid (pool_keepAlive p sc now hb pl) = pl_poolInvalid pl"
  by (simp add: pool_keepAlive_def Let_def heartbeat_all_frame)

lemma rr_search_ok:
  assumes "cursor \<le> length xs" and "n \<le> length xs"
  shows "\<exists>r cur. rr_search n ok xs cursor = Inr (r, cur) \<and> cur \<le> length xs \<and>
    (\<forall>i. r = Some i \<longrightarrow> i < length xs \<and> ok (xs ! i) \<and> cur = Suc i) \<and>
    (r = None \<longrightarrow> (\<forall>k < n. \<not> ok (xs ! ((cursor + k) mod length xs))))"
  using assms
proof (induction n arbitrary: cursor)
  case (Suc n)
  let ?cur = "if cursor = length xs then 0 else cursor"
  have c: "?cur < length xs" using Suc.prems by auto
  have m: "?cur = cursor mod length xs" using Suc.prems by auto
  show ?case
  proof (cases "ok (xs ! ?cur)")
    case True
    with c show ?thesis by (auto simp: Let_def)
  next
    case False
    obtain r cur where r: "rr_search n ok xs (Suc ?cur) = Inr (r, cur)" "cur \<le> length xs"
        "\<forall>i. r = Some i \<longrightarrow> i < length xs \<and> ok (xs ! i) \<and> cur = Suc i"
        "r = None \<longrightarrow> (\<forall>k < n. \<not> ok (xs ! ((Suc ?cur + k) mod length xs)))"
      using Suc.IH [of "Suc ?cur"] Suc.prems c by auto
    have "\<not> ok (xs ! ((cursor + k) mod length xs))" if "k < Suc n" "r = None" for k
    proof (cases k)
      case 0
      then show ?thesis using False m by simp
    next
      case (Suc j)
      have "(Suc ?cur + j) mod length xs = (cursor + k) mod length xs"
        unfolding m Suc using mod_add_left_eq [of cursor "length xs" "Suc j"] by simp
      with r(4) that Suc show ?thesis by auto
    qed
    with r c False show ?thesis by (auto simp: Let_def)
  qed
qed simp

section \<open>Properties\<close>

text \<open>C26: when a blocking request succeeds, every byte of the request went out in order, and the
  acknowledgement, when one is asked for, is a complete well-formed message: exactly the next bytes the
  peer sent; when it fails, no acknowledgement is returned and the connection is given up.\<close>

theorem innerSend_correct:
  assumes "msg_protocol p" and "msg_data req \<noteq> []" and "innerSend p sc req want c = (rc, ack, c', fds, w)"
  shows "case rc of
      SEND_SUCCESS \<Rightarrow> w = msg_data req \<and> (ack = None \<longleftrightarrow> \<not> want) \<and>
        (\<forall>m. ack = Some m \<longrightarrow> wf_msg p m \<and> prefix (msg_data m) (ss_inp sc))
    | _ \<Rightarrow> ack = None \<and> \<not> client_isConnected c'"
proof (cases "rc = SEND_SUCCESS")
  case True
  have "wf_msg p m \<and> prefix (msg_data m) (ss_inp sc)" if "ack = Some m" for m
    using innerSend_success(2) [OF _ assms(2) that] assms(3) True recv_ack_wf [OF assms(1), of sc m]
    by (metis prefixI)
  with True innerSend_cases(2) [OF assms(3) True] innerSend_success(1) [OF _ assms(2)] assms(3) show ?thesis
    by auto
next
  case False
  with innerSend_cases(1) [OF assms(3) False] show ?thesis by (cases rc) auto
qed

theorem innerSend_correct_witness:
  "\<exists>sc c w. innerSend default_msg_proto sc \<lparr>msg_data = [5, 0, 0, 0]\<rparr> True c =
      (SEND_SUCCESS, Some \<lparr>msg_data = [6, 0, 0, 1, 9]\<rparr>, c, [], w) \<and> w = [5, 0, 0, 0] \<and>
    prefix [6, 0, 0, 1, 9] (ss_inp sc)"
proof -
  let ?sc = "\<lparr>ss_send = \<lambda>_. Inr 4, ss_recv_hdr = \<lambda>_. Inr 4, ss_recv_body = \<lambda>_. Inr 4,
    ss_inp = [6, 0, 0, 1, 9, 7], ss_now = 3\<rparr>"
  let ?c = "client_flushAlive 3 ((client_new [] 80 1 [])\<lparr>cl_fd := 5\<rparr>)"
  let ?m = "\<lparr>msg_data = [6, 0, 0, 1, 9 :: byte]\<rparr>" and ?q = "\<lparr>msg_data = [5, 0, 0, 0 :: byte]\<rparr>"
  have p: "msg_protocol default_msg_proto" by unfold_locales
  have e: "extract_uint32 [6, 0, 0, 1] = 0x6000001"
    by (simp add: extract_uint32_def ntohl_mem_load be_word_def push_bit_eq_mult)
  have "recv_ack default_msg_proto ?sc = Some (?m, [7])"
    by (simp add: recv_ack_def recv_all_def recv_all_loop.simps sys_recv_def default_bodySize_def e
        default_MaxBodySize_def)
  then have r: "innerSend default_msg_proto ?sc ?q True ?c = (SEND_SUCCESS, Some ?m, ?c, [], [5, 0, 0, 0])"
    by (simp add: innerSend_def client_isConnected_def client_flushAlive_def hb_update_def INVALID_SOCK_def
        send_with_retry_def send_loop.simps)
  with innerSend_correct [OF p _ r] show ?thesis by fastforce
qed



text \<open>with a cursor within the vector the search for a pool stays in bounds, and finds no pool only
  when every pool is marked invalid.\<close>

theorem getPool_finds_valid:
  assumes "hp_poolCursor h \<le> length (hp_cltPools h)"
  shows "\<exists>r h'. getPool h = Inr (r, h') \<and> hp_cltPools h' = hp_cltPools h \<and>
    hp_poolCursor h' \<le> length (hp_cltPools h') \<and>
    (case r of Some i \<Rightarrow> i < length (hp_cltPools h) \<and> \<not> pl_poolInvalid (hp_cltPools h ! i)
     | None \<Rightarrow> list_all pl_poolInvalid (hp_cltPools h))"
proof -
  let ?xs = "hp_cltPools h" and ?c = "hp_poolCursor h"
  let ?ok = "\<lambda>p. \<not> pool_isInvalid p"
  obtain r cur where r: "rr_search (length ?xs) ?ok ?xs ?c = Inr (r, cur)" "cur \<le> length ?xs"
      "\<forall>i. r = Some i \<longrightarrow> i < length ?xs \<and> ?ok (?xs ! i) \<and> cur = Suc i"
      "r = None \<longrightarrow> (\<forall>k < length ?xs. \<not> ?ok (?xs ! ((?c + k) mod length ?xs)))"
    using rr_search_ok [OF assms, of "length ?xs" ?ok] by blast
  have "pl_poolInvalid (?xs ! i)" if "r = None" "i < length ?xs" for i
  proof -
    let ?k = "(i + length ?xs - ?c) mod length ?xs"
    have "(?c + ?k) mod length ?xs = i" using assms that(2) by (simp add: mod_add_right_eq)
    moreover have "?k < length ?xs" using that(2) by (intro mod_less_divisor) linarith
    ultimately show ?thesis using r(4) that(1) by (metis pool_isInvalid_def)
  qed
  with r show ?thesis
    by (auto simp: getPool_def pool_isInvalid_def list_all_length split: option.split)
qed

theorem getPool_finds_valid_witness:
  "\<exists>h'. getPool \<lparr>hp_cltPools = [(cltpool_new [] (\<lambda>_. client_new [] 1 1 []))\<lparr>pl_poolInvalid := True\<rparr>,
        cltpool_new [] (\<lambda>_. client_new [] 1 1 [])], hp_poolCursor = 2\<rparr> = Inr (Some 1, h')"
proof -
  let ?p = "cltpool_new [] (\<lambda>_. client_new [] 1 1 [])"
  let ?h = "\<lparr>hp_cltPools = [?p\<lparr>pl_poolInvalid := True\<rparr>, ?p], hp_poolCursor = 2\<rparr>"
  obtain r h' where g: "getPool ?h = Inr (r, h')"
      "case r of Some i \<Rightarrow> i < length (hp_cltPools ?h) \<and> \<not> pl_poolInvalid (hp_cltPools ?h ! i)
       | None \<Rightarrow> list_all pl_poolInvalid (hp_cltPools ?h)"
    using getPool_finds_valid [of ?h] by (force simp: numeral_2_eq_2)
  moreover have "r = Some 1"
    using g(2) by (auto simp: cltpool_new_def less_Suc_eq split: option.splits)
  ultimately show ?thesis by blast
qed

text \<open>once every pool is marked invalid, the group stays so: requests are refused without trying a
  connection, and keepAlive, the only other activity, never clears the mark.\<close>

theorem invalid_pools_stay_invalid:
  assumes "list_all pl_poolInvalid (hp_cltPools h)" and "hp_poolCursor h \<le> length (hp_cltPools h)"
  shows "\<exists>h'. ha_send p sc wait_max others req want h = Inr (POOL_INVALID, None, h') \<and>
      hp_cltPools h' = hp_cltPools h \<and> hp_poolCursor h' \<le> length (hp_cltPools h') \<and>
      list_all pl_poolInvalid (hp_cltPools (ha_keepAlive p sc' now hb h))"
proof -
  let ?ok = "\<lambda>p. \<not> pool_isInvalid p"
  obtain r cur where r: "rr_search (length (hp_cltPools h)) ?ok (hp_cltPools h) (hp_poolCursor h) = Inr (r, cur)"
      "cur \<le> length (hp_cltPools h)" "\<forall>i. r = Some i \<longrightarrow> i < length (hp_cltPools h) \<and> ?ok (hp_cltPools h ! i) \<and> cur = Suc i"
    using rr_search_ok [OF assms(2), of "length (hp_cltPools h)" ?ok] by blast
  then have "r = None"
    using assms(1) by (cases r) (auto simp: list_all_length pool_isInvalid_def)
  moreover have "list_all pl_poolInvalid (hp_cltPools (ha_keepAlive p sc' now hb h))"
    using assms(1) by (simp add: ha_keepAlive_def list_all_iff)
  ultimately show ?thesis using r by (simp add: ha_send_def getPool_def)
qed

theorem invalid_pools_stay_invalid_witness:
  "\<forall>sc. \<exists>h'. ha_send default_msg_proto sc 2000 (\<lambda>q. q) \<lparr>msg_data = [1]\<rparr> True
      \<lparr>hp_cltPools = [(cltpool_new [] (\<lambda>_. client_new [] 1 1 []))\<lparr>pl_poolInvalid := True\<rparr>], hp_poolCursor = 0\<rparr> =
      Inr (POOL_INVALID, None, h')"
  using invalid_pools_stay_invalid
    [of "\<lparr>hp_cltPools = [(cltpool_new [] (\<lambda>_. client_new [] 1 1 []))\<lparr>pl_poolInvalid := True\<rparr>], hp_poolCursor = 0\<rparr>"
      default_msg_proto _ 2000 "\<lambda>q. q" "\<lparr>msg_data = [1]\<rparr>" True]
  by (simp add: cltpool_new_def) blast

end
