(* ===== verification/SafeQueue.thy ===== *)
theory SafeQueue
  imports Prelude "HOL-Library.Multiset"
begin

text \<open>
  The bounded queue between threads, \<^verbatim>\<open>zbf::SafeQueue\<close> (\<^verbatim>\<open>src/zbf/safequeue.hpp\<close>).  Every method body
  under the mutex is one atomic function on the record; \<open>Cap\<close> and \<open>UseCV\<close> are the template
  parameters.  A wait on the condition variable ends in some state of the queue; the function that
  follows the wait is applied to that state, and \<open>pop\<close> returns \<open>None\<close> where it would keep waiting.
  The two polling variants sleep between looks at the queue; \<open>others k\<close> is what the other threads
  do to the queue during the \<open>k\<close>-th sleep.

  The locale \<open>bounded_fifo\<close> is the contract the servers rely on: accepted items come out once, in
  order.
\<close>

datatype SQ_PopCode = SQ_POP_SUCCESS | SQ_TIMEOUT | SQ_EXIT

record 'a safe_queue =
  sq_queue :: "'a list"
  sq_exit :: bool

definition sq_new :: "'a safe_queue" where
  "sq_new = \<lparr>sq_queue = [], sq_exit = False\<rparr>"

text \<open>The result is the returned flag, the queue and whether a waiter is notified.\<close>

definition sq_push :: "nat \<Rightarrow> bool \<Rightarrow> 'a \<Rightarrow> 'a safe_queue \<Rightarrow> bool \<times> 'a safe_queue \<times> bool" where
  "sq_push Cap UseCV item q =
    (if length (sq_queue q) < Cap then (True, q\<lparr>sq_queue := sq_queue q @ [item]\<rparr>, UseCV)
     else (False, q, False))"

definition sq_requeue :: "'a \<Rightarrow> 'a safe_queue \<Rightarrow> 'a safe_queue" where
  "sq_requeue item q = q\<lparr>sq_queue := item # sq_queue q\<rparr>"

definition sq_stop :: "bool \<Rightarrow> 'a safe_queue \<Rightarrow> 'a safe_queue \<times> bool" where
  "sq_stop UseCV q = (q\<lparr>sq_exit := True\<rparr>, UseCV)"

definition sq_is_stop :: "'a safe_queue \<Rightarrow> bool" where
  "sq_is_stop q = sq_exit q"

definition sq_size :: "'a safe_queue \<Rightarrow> nat" where
  "sq_size q = length (sq_queue q)"

definition sq_empty :: "'a safe_queue \<Rightarrow> bool" where
  "sq_empty q = (sq_queue q = [])"

definition sq_raw_pop :: "'a safe_queue \<Rightarrow> 'a option \<times> 'a safe_queue" where
  "sq_raw_pop q = (case sq_queue q of [] \<Rightarrow> (None, q) | x # xs \<Rightarrow> (Some x, q\<lparr>sq_queue := xs\<rparr>))"

definition sq_clear :: "'a safe_queue \<Rightarrow> 'a safe_queue" where
  "sq_clear q = q\<lparr>sq_queue := []\<rparr>"

text \<open>
  \<^verbatim>\<open>pop\<close> and \<^verbatim>\<open>pop_timeout\<close> with the condition variable, from the state in which the wait ends; the
  item is delivered only with the success code.
\<close>

definition sq_pop_cv :: "'a safe_queue \<Rightarrow> (SQ_PopCode \<times> 'a option \<times> 'a safe_queue) option" where
  "sq_pop_cv q =
    (if sq_queue q = [] \<and> \<not> sq_exit q then None
     else if sq_exit q then Some (SQ_EXIT, None, q)
     else Some (SQ_POP_SUCCESS, Some (hd (sq_queue q)), q\<lparr>sq_queue := tl (sq_queue q)\<rparr>))"

definition sq_pop_timeout_cv :: "'a safe_queue \<Rightarrow> SQ_PopCode \<times> 'a option \<times> 'a safe_queue" where
  "sq_pop_timeout_cv q =
    (let ok = (sq_queue q \<noteq> [] \<or> sq_exit q) in
     if sq_exit q then (SQ_EXIT, None, q)
     else if \<not> ok then (SQ_TIMEOUT, None, q)
     else (SQ_POP_SUCCESS, Some (hd (sq_queue q)), q\<lparr>sq_queue := tl (sq_queue q)\<rparr>))"

text \<open>The polling variants.\<close>

partial_function (option) sq_pop_ncv ::
  "(nat \<Rightarrow> 'a safe_queue \<Rightarrow> 'a safe_queue) \<Rightarrow> nat \<Rightarrow> 'a safe_queue \<Rightarrow> (SQ_PopCode \<times> 'a option \<times> 'a safe_queue) option" where
  "sq_pop_ncv others k q =
    (if sq_is_stop q then Some (SQ_EXIT, None, q)
     else (case sq_raw_pop q of
       (Some x, q') \<Rightarrow> Some (SQ_POP_SUCCESS, Some x, q')
     | (None, q') \<Rightarrow> sq_pop_ncv others (Suc k) (others k q')))"

definition SLEEP_TIME :: int where "SLEEP_TIME = 5"

primrec sq_poll_loop ::
  "(nat \<Rightarrow> 'a safe_queue \<Rightarrow> 'a safe_queue) \<Rightarrow> nat \<Rightarrow> nat \<Rightarrow> 'a safe_queue \<Rightarrow> SQ_PopCode \<times> 'a option \<times> 'a safe_queue" where
  "sq_poll_loop others 0 k q =
    (if sq_is_stop q then (SQ_EXIT, None, q)
     else (case sq_raw_pop q of
       (Some x, q') \<Rightarrow> (SQ_POP_SUCCESS, Some x, q')
     | (None, q') \<Rightarrow> (SQ_TIMEOUT, None, q')))"
| "sq_poll_loop others (Suc sleep_times) k q =
    (if sq_is_stop q then (SQ_EXIT, None, q)
     else (case sq_raw_pop q of
       (Some x, q') \<Rightarrow> (SQ_POP_SUCCESS, Some x, q')
     | (None, q') \<Rightarrow> sq_poll_loop others sleep_times (Suc k) (others k q')))"

definition sq_pop_timeout_ncv ::
  "(nat \<Rightarrow> 'a safe_queue \<Rightarrow> 'a safe_queue) \<Rightarrow> int \<Rightarrow> 'a safe_queue \<Rightarrow> SQ_PopCode \<times> 'a option \<times> 'a safe_queue" where
  "sq_pop_timeout_ncv others timeout_ms q =
    sq_poll_loop others (nat (max 1 (timeout_ms div SLEEP_TIME))) 0 q"

definition sq_pop ::
  "bool \<Rightarrow> (nat \<Rightarrow> 'a safe_queue \<Rightarrow> 'a safe_queue) \<Rightarrow> 'a safe_queue \<Rightarrow> (SQ_PopCode \<times> 'a option \<times> 'a safe_queue) option" where
  "sq_pop UseCV others q = (if UseCV then sq_pop_cv q else sq_pop_ncv others 0 q)"

definition sq_pop_timeout ::
  "bool \<Rightarrow> (nat \<Rightarrow> 'a safe_queue \<Rightarrow> 'a safe_queue) \<Rightarrow> int \<Rightarrow> 'a safe_queue \<Rightarrow> SQ_PopCode \<times> 'a option \<times> 'a safe_queue" where
  "sq_pop_timeout UseCV others timeout_ms q =
    (if UseCV then sq_pop_timeout_cv q else sq_pop_timeout_ncv others timeout_ms q)"

section \<open>Interleaved use\<close>

text \<open>
  One label per atomic operation of a thread.  A consumer that got an item holds it until it is done with it or puts it back;
  each of the \<open>W\<close> consumers holds at most one.  The polling variants look at the queue as \<^verbatim>\<open>raw_pop\<close> does.

  The other fields are the history.  \<open>accepted\<close> are the items that were pushed, \<open>passed\<close> those of them that were taken from
  the queue at least once, \<open>returned\<close> those that are in the queue because they were put back, \<open>finished\<close> those a
  consumer is done with, \<open>dropped\<close> those that \<^verbatim>\<open>clear\<close> removed, and \<open>requeues\<close> counts the items put back.
\<close>

datatype 'a sq_label = LPush 'a | LPop | LPopTimeout | LRawPop | LRequeue 'a | LDone 'a | LStop | LClear

record 'a sq_history =
  hq :: "'a safe_queue"
  accepted :: "'a list"
  passed :: "'a list"
  returned :: "'a list"
  held_items :: "'a list"
  finished :: "'a list"
  dropped :: "'a list"
  requeues :: nat

definition sq_begin :: "'a sq_history" where
  "sq_begin = \<lparr>hq = sq_new, accepted = [], passed = [], returned = [], held_items = [], finished = [], dropped = [], requeues = 0\<rparr>"

definition sq_handed :: "'a option \<Rightarrow> 'a safe_queue \<Rightarrow> 'a sq_history \<Rightarrow> 'a sq_history" where
  "sq_handed x q s =
    (case x of
       None \<Rightarrow> s\<lparr>hq := q\<rparr>
     | Some y \<Rightarrow> s\<lparr>hq := q, held_items := y # held_items s, passed := (if returned s = [] then passed s @ [y] else passed s),
         returned := tl (returned s)\<rparr>)"

inductive sq_step :: "nat \<Rightarrow> nat \<Rightarrow> 'a sq_history \<Rightarrow> 'a sq_label \<Rightarrow> 'a sq_history \<Rightarrow> bool" for Cap W where
  step_push: "sq_push Cap UseCV x (hq s) = (ok, q', n) \<Longrightarrow>
    sq_step Cap W s (LPush x) (s\<lparr>hq := q', accepted := accepted s @ (if ok then [x] else [])\<rparr>)"
| step_pop: "length (held_items s) < W \<Longrightarrow> sq_pop_cv (hq s) = Some (rc, x, q') \<Longrightarrow> sq_step Cap W s LPop (sq_handed x q' s)"
| step_pop_timeout: "length (held_items s) < W \<Longrightarrow> sq_pop_timeout_cv (hq s) = (rc, x, q') \<Longrightarrow>
    sq_step Cap W s LPopTimeout (sq_handed x q' s)"
| step_raw: "length (held_items s) < W \<Longrightarrow> sq_raw_pop (hq s) = (x, q') \<Longrightarrow> sq_step Cap W s LRawPop (sq_handed x q' s)"
| step_requeue: "x \<in> set (held_items s) \<Longrightarrow>
    sq_step Cap W s (LRequeue x) (s\<lparr>hq := sq_requeue x (hq s), held_items := remove1 x (held_items s), returned := x # returned s,
      requeues := Suc (requeues s)\<rparr>)"
| step_done: "x \<in> set (held_items s) \<Longrightarrow>
    sq_step Cap W s (LDone x) (s\<lparr>held_items := remove1 x (held_items s), finished := x # finished s\<rparr>)"
| step_stop: "sq_stop UseCV (hq s) = (q', n) \<Longrightarrow> sq_step Cap W s LStop (s\<lparr>hq := q'\<rparr>)"
| step_clear: "sq_step Cap W s LClear (s\<lparr>hq := sq_clear (hq s), dropped := dropped s @ sq_queue (hq s),
      passed := accepted s, returned := []\<rparr>)"

inductive_cases sq_stepE: "sq_step Cap W s l s'"

inductive sq_reach :: "nat \<Rightarrow> nat \<Rightarrow> 'a sq_history \<Rightarrow> bool" for Cap W where
  reach_init: "sq_reach Cap W sq_begin"
| reach_step: "sq_reach Cap W s \<Longrightarrow> sq_step Cap W s l s' \<Longrightarrow> sq_reach Cap W s'"

section \<open>The contract\<close>

locale bounded_fifo =
  fixes put :: "'a \<Rightarrow> 'q \<Rightarrow> bool \<times> 'q"
    and get :: "'q \<Rightarrow> 'a option \<times> 'q"
    and items :: "'q \<Rightarrow> 'a list"
    and cap :: nat
  assumes put_law: "put x q = (ok, q') \<Longrightarrow>
      ok = (length (items q) < cap) \<and> items q' = items q @ (if ok then [x] else [])"
    and get_law: "get q = (r, q') \<Longrightarrow>
      (case r of None \<Rightarrow> items q = [] \<and> items q' = [] | Some y \<Rightarrow> items q = y # items q')"
begin

fun put_all :: "'a list \<Rightarrow> 'q \<Rightarrow> 'q" where
  "put_all [] q = q"
| "put_all (x # xs) q = put_all xs (snd (put x q))"

fun get_n :: "nat \<Rightarrow> 'q \<Rightarrow> 'a list \<times> 'q" where
  "get_n 0 q = ([], q)"
| "get_n (Suc n) q =
    (case get q of (None, q') \<Rightarrow> ([], q') | (Some y, q') \<Rightarrow> (case get_n n q' of (ys, q'') \<Rightarrow> (y # ys, q'')))"

lemma put_bound: "length (items q) \<le> cap \<Longrightarrow> length (items (snd (put x q))) \<le> cap"
  using put_law [of x q] by (cases "put x q") auto

lemma items_put_all:
  "length (items q) + length xs \<le> cap \<Longrightarrow> items (put_all xs q) = items q @ xs"
proof (induction xs arbitrary: q)
  case (Cons x xs)
  obtain ok q' where p: "put x q = (ok, q')" by (cases "put x q")
  with put_law [OF p] Cons.prems have "items q' = items q @ [x]" by simp
  with Cons.IH [of q'] Cons.prems p show ?case by simp
qed simp

lemma get_n_items: "get_n n q = (ys, q') \<Longrightarrow> ys = take n (items q) \<and> items q' = drop n (items q)"
proof (induction n arbitrary: q ys q')
  case (Suc n)
  obtain x q1 where g: "get q = (x, q1)" by (cases "get q")
  with get_law [OF g] Suc show ?case by (auto split: option.splits prod.splits)
qed simp

text \<open>What is put within the capacity is what comes out, in order.\<close>

lemma fifo:
  assumes "items q = []" and "length xs \<le> cap"
  shows "fst (get_n (length xs) (put_all xs q)) = xs"
  using items_put_all [of q xs] get_n_items [of "length xs" "put_all xs q"] assms
  by (cases "get_n (length xs) (put_all xs q)") simp

end

interpretation sq: bounded_fifo "\<lambda>x q. (fst (sq_push Cap UseCV x q), fst (snd (sq_push Cap UseCV x q)))"
    sq_raw_pop sq_queue Cap
  by unfold_locales (auto simp: sq_push_def sq_raw_pop_def split: if_splits list.splits option.splits)

section \<open>Invariants of interleaved use\<close>

text \<open>What every way of taking an item does.\<close>

lemma handed_cases:
  assumes "(sq_pop_cv q = Some (rc, x, q') \<or> sq_pop_timeout_cv q = (rc, x, q')) \<or> sq_raw_pop q = (x, q')"
  shows "case x of None \<Rightarrow> q' = q | Some y \<Rightarrow> sq_queue q = y # sq_queue q' \<and> sq_exit q' = sq_exit q"
  using assms by (auto simp: sq_pop_cv_def sq_pop_timeout_cv_def sq_raw_pop_def Let_def split: if_splits list.splits)

definition sq_inv :: "nat \<Rightarrow> nat \<Rightarrow> 'a sq_history \<Rightarrow> bool" where
  "sq_inv Cap W s \<longleftrightarrow> (\<exists>waiting. accepted s = passed s @ waiting \<and> sq_queue (hq s) = returned s @ waiting) \<and>
     mset (accepted s) = mset (sq_queue (hq s)) + mset (held_items s) + mset (finished s) + mset (dropped s) \<and>
     length (held_items s) \<le> W \<and> length (sq_queue (hq s)) + length (held_items s) \<le> Cap + W \<and>
     (requeues s = 0 \<longrightarrow> returned s = [] \<and> length (sq_queue (hq s)) \<le> Cap)"

lemma sq_inv_begin: "sq_inv Cap W sq_begin"
  by (simp add: sq_inv_def sq_begin_def sq_new_def)

lemma sq_inv_handed:
  assumes "sq_inv Cap W s" and "length (held_items s) < W"
    and "case x of None \<Rightarrow> q' = hq s | Some y \<Rightarrow> sq_queue (hq s) = y # sq_queue q' \<and> sq_exit q' = sq_exit (hq s)"
  shows "sq_inv Cap W (sq_handed x q' s)"
proof (cases x)
  case None
  with assms show ?thesis by (simp add: sq_handed_def)
next
  case (Some y)
  with assms show ?thesis by (cases "returned s") (auto simp: sq_inv_def sq_handed_def)
qed

lemma sq_inv_step: "sq_step Cap W s l s' \<Longrightarrow> sq_inv Cap W s \<Longrightarrow> sq_inv Cap W s'"
proof (induction rule: sq_step.induct)
  case (step_push UseCV x s ok q' n)
  then show ?case by (auto simp: sq_inv_def sq_push_def split: if_splits)
next
  case (step_pop s rc x q')
  then show ?case using sq_inv_handed handed_cases by blast
next
  case (step_pop_timeout s rc x q')
  then show ?case using sq_inv_handed handed_cases by blast
next
  case (step_raw s x q')
  then show ?case using sq_inv_handed handed_cases by blast
next
  case (step_requeue x s)
  then obtain n where "length (held_items s) = Suc n" by (cases "held_items s") auto
  with step_requeue show ?case by (auto simp: sq_inv_def sq_requeue_def length_remove1)
next
  case (step_done x s)
  then have "0 < length (held_items s)" by (cases "held_items s") auto
  with step_done show ?case by (auto simp: sq_inv_def length_remove1)
next
  case (step_stop UseCV s q' n)
  then show ?case by (auto simp: sq_inv_def sq_stop_def)
next
  case (step_clear s)
  then show ?case by (auto simp: sq_inv_def sq_clear_def)
qed

lemma sq_step_stays_stopped: "sq_step Cap W s l s' \<Longrightarrow> sq_exit (hq s) \<Longrightarrow> sq_exit (hq s')"
  by (erule sq_stepE)
    (auto simp: sq_push_def sq_pop_timeout_cv_def sq_pop_cv_def sq_raw_pop_def sq_stop_def sq_requeue_def sq_clear_def sq_handed_def Let_def
      split: if_splits list.splits option.splits)

section \<open>Properties\<close>

text \<open>C16: under any interleaving of producers, of \<open>W\<close> consumers that take items in any of the three ways and put back or finish what
  they took, of \<^verbatim>\<open>clear\<close> and of \<^verbatim>\<open>stop\<close>: the items that were never taken are the last ones accepted, in the order of
  acceptance, behind the items that were put back, the last of these first; nothing is lost or doubled, every
  accepted item is in the queue, with one consumer, finished or dropped; the queue holds at most its
  capacity and one item for every consumer that holds none, and at most its capacity as long as nothing was put
  back.\<close>

theorem sq_fifo_interleaved:
  assumes "sq_reach Cap W s"
  shows "(\<exists>waiting. accepted s = passed s @ waiting \<and> sq_queue (hq s) = returned s @ waiting) \<and>
    mset (accepted s) = mset (sq_queue (hq s)) + mset (held_items s) + mset (finished s) + mset (dropped s) \<and>
    length (sq_queue (hq s)) + length (held_items s) \<le> Cap + W \<and>
    (requeues s = 0 \<longrightarrow> returned s = [] \<and> length (sq_queue (hq s)) \<le> Cap)"
proof -
  have "sq_inv Cap W s" using assms by induction (auto intro: sq_inv_begin sq_inv_step)
  then show ?thesis by (simp add: sq_inv_def)
qed

theorem sq_fifo_interleaved_witness:
  "\<exists>s. sq_reach 2 1 s \<and> sq_queue (hq s) = [5 :: nat, 6, 7] \<and> passed s = [5] \<and> returned s = [5] \<and>
    (\<exists>waiting. accepted s = [5] @ waiting \<and> [5, 6, 7] = [5] @ waiting) \<and> length (sq_queue (hq s)) \<le> 2 + 1"
proof -
  let ?q = "\<lambda>xs. \<lparr>sq_queue = xs, sq_exit = False\<rparr> :: nat safe_queue"
  let ?s = "\<lambda>q acc pas ret hol n. \<lparr>hq = ?q q, accepted = acc, passed = pas, returned = ret, held_items = hol, finished = [], dropped = [], requeues = n\<rparr>"
  have a: "sq_step 2 1 sq_begin (LPush 5) (?s [5] [5] [] [] [] 0)"
    using step_push [of 2 True 5 sq_begin True "?q [5]" True 1] by (simp add: sq_push_def sq_begin_def sq_new_def)
  have b: "sq_step 2 1 (?s [5] [5] [] [] [] 0) LPop (?s [] [5] [5] [] [5] 0)"
    using step_pop [of "?s [5] [5] [] [] [] 0" 1 SQ_POP_SUCCESS "Some 5" "?q []" 2] by (simp add: sq_pop_cv_def sq_handed_def)
  have c: "sq_step 2 1 (?s [] [5] [5] [] [5] 0) (LPush 6) (?s [6] [5, 6] [5] [] [5] 0)"
    using step_push [of 2 True 6 "?s [] [5] [5] [] [5] 0" True "?q [6]" True 1] by (simp add: sq_push_def)
  have d: "sq_step 2 1 (?s [6] [5, 6] [5] [] [5] 0) (LPush 7) (?s [6, 7] [5, 6, 7] [5] [] [5] 0)"
    using step_push [of 2 True 7 "?s [6] [5, 6] [5] [] [5] 0" True "?q [6, 7]" True 1] by (simp add: sq_push_def)
  have e: "sq_step 2 1 (?s [6, 7] [5, 6, 7] [5] [] [5] 0) (LRequeue 5) (?s [5, 6, 7] [5, 6, 7] [5] [5] [] 1)"
    using step_requeue [of 5 "?s [6, 7] [5, 6, 7] [5] [] [5] 0" 2 1] by (simp add: sq_requeue_def)
  have r: "sq_reach 2 1 (?s [5, 6, 7] [5, 6, 7] [5] [5] [] 1)" by (rule reach_step [OF reach_step [OF reach_step [OF reach_step [OF reach_step [OF reach_init a] b] c] d] e])
  from sq_fifo_interleaved [OF r] r show ?thesis by (intro exI [of _ "?s [5, 6, 7] [5, 6, 7] [5] [5] [] 1"]) simp
qed

text \<open>once a queue is stopped every pop reports the exit code and takes nothing, even when items are
  queued; the items stay for the final drain.\<close>

theorem sq_stop_wins:
  "sq_pop_timeout_cv (fst (sq_stop UseCV q)) = (SQ_EXIT, None, fst (sq_stop UseCV q)) \<and>
   sq_pop_cv (fst (sq_stop UseCV q)) = Some (SQ_EXIT, None, fst (sq_stop UseCV q)) \<and>
   sq_pop_timeout_ncv others t (fst (sq_stop UseCV q)) = (SQ_EXIT, None, fst (sq_stop UseCV q)) \<and>
   sq_queue (fst (sq_stop UseCV q)) = sq_queue q"
proof -
  have "sq_poll_loop others n k p = (SQ_EXIT, None, p)" if "sq_exit p" for n k and p :: "'a safe_queue"
    using that by (cases n) (simp_all add: sq_is_stop_def)
  then show ?thesis
    by (simp add: sq_stop_def sq_pop_timeout_cv_def sq_pop_cv_def sq_pop_timeout_ncv_def)
qed

text \<open>an item put back at the front is not counted against the capacity: requeueing into a full
  queue leaves it above its capacity, with the item first.\<close>

theorem sq_requeue_exceeds:
  assumes "length (sq_queue q) = Cap"
  shows "length (sq_queue (sq_requeue x q)) = Suc Cap \<and> fst (sq_raw_pop (sq_requeue x q)) = Some x \<and>
    fst (sq_push Cap UseCV y (sq_requeue x q)) = False"
  using assms by (simp add: sq_requeue_def sq_raw_pop_def sq_push_def)

theorem sq_requeue_exceeds_witness:
  "length (sq_queue (sq_requeue 1 \<lparr>sq_queue = [2, 3 :: nat], sq_exit = False\<rparr>)) = Suc 2 \<and>
   fst (sq_raw_pop (sq_requeue 1 \<lparr>sq_queue = [2, 3 :: nat], sq_exit = False\<rparr>)) = Some 1 \<and>
   fst (sq_push 2 True 9 (sq_requeue 1 \<lparr>sq_queue = [2, 3 :: nat], sq_exit = False\<rparr>)) = False"
  by (rule sq_requeue_exceeds) simp

end
