(* ===== verification/TcpServer.thy ===== *)
theory TcpServer
  imports TcpUser SafeQueue "HOL-Library.AList"
begin

text \<open>
  The server of \<^verbatim>\<open>src/zbf/socket_tcp_v5.hpp\<close>: connection table, message lanes, the I/O thread, the monitor
  thread and the worker threads.  Users are shared objects: \<open>sv_heap\<close> is the store, \<open>sv_fd2user\<close> and
  \<open>sv_users\<close> hold references to it, and a weak reference in a queued message is live as long as one of
  them (or the monitor) still holds the user.  The calls to the poller, the closed descriptors and the
  virtual callbacks are logged in order.  What the kernel answers is the record \<open>io_env\<close>.
\<close>

record message_swimlane =
  lane_msgTypes :: "u32 list"
  lane_threads :: u64

record WorkerIdGroup =
  grp_workerIds :: "int list"
  grp_cursor :: nat

record TcpMsgPtr =
  ptr_msg :: tcp_message
  ptr_user :: nat

datatype user_event = OnConnect nat | OnRecvMsg nat tcp_message | OnDisconnect nat

text \<open>How far \<^verbatim>\<open>createUser\<close> has come with the user it is building: in the descriptor table; in the
  monitor's list as well; started.\<close>

datatype create_phase = Published | Listed | Started

record tcpsock_server =
  sv_protocol :: tcp_message_protocol
  sv_efd :: int
  sv_listenFds :: "int list"
  sv_userSeq :: u64
  sv_shutdown :: bool
  sv_recvQueues :: "TcpMsgPtr safe_queue option list"
  sv_users :: "nat list"
  sv_heap :: "nat \<Rightarrow> tcpsock_user"
  sv_next :: nat
  sv_fd2user :: "(int \<times> nat) list"
  sv_workerIds :: "int list"
  sv_msgTyp2WkIdGrp :: "(u32 \<times> WorkerIdGroup) list"
  sv_maxConnections :: int
  sv_held :: "nat option"
  sv_creating :: "(nat \<times> create_phase) option"
  sv_events :: "user_event list"
  sv_calls :: "poll_call list"
  sv_closedFds :: "int list"

record io_event =
  ev_fd :: int
  ev_read :: bool
  ev_write :: bool
  ev_error :: bool
  ev_eof :: bool

record io_env =
  io_accept :: int
  io_peer :: "(bytes \<times> u16) option"
  io_spadd_ok :: bool
  io_recv :: "errno + bytes"
  io_send :: "errno + nat"
  io_now :: int

definition ThdIdBase :: int where "ThdIdBase = 200"
definition DefaultMsgType :: u32 where "DefaultMsgType = 0"
definition DefaultMaxConns :: int where "DefaultMaxConns = 6000"
definition server_MaxPendingMsg :: nat where "server_MaxPendingMsg = 512"

definition workerId :: "int \<Rightarrow> int" where "workerId i = ThdIdBase + 10 + i"
definition workerIndex :: "int \<Rightarrow> int" where "workerIndex thdId = thdId - ThdIdBase - 11"

definition server_new :: "tcp_message_protocol \<Rightarrow> (nat \<Rightarrow> tcpsock_user) \<Rightarrow> tcpsock_server" where
  "server_new p heap = \<lparr>
     sv_protocol = p, sv_efd = INVALID_SOCK, sv_listenFds = [], sv_userSeq = 1, sv_shutdown = False,
     sv_recvQueues = replicate 64 None, sv_users = [], sv_heap = heap, sv_next = 0, sv_fd2user = [],
     sv_workerIds = [], sv_msgTyp2WkIdGrp = [], sv_maxConnections = DefaultMaxConns, sv_held = None, sv_creating = None,
     sv_events = [], sv_calls = [], sv_closedFds = []\<rparr>"

section \<open>Opening and closing\<close>

text \<open>What the system calls of \<^verbatim>\<open>open\<close> return, in the order they are made.\<close>

record open_env =
  oe_addrinfo :: bool
  oe_socket :: int
  oe_reuseaddr :: int
  oe_reuseport :: int
  oe_bind :: int
  oe_listen :: int
  oe_spcreate :: int
  oe_spadd_ok :: bool

definition open_rc :: "open_env \<Rightarrow> int \<Rightarrow> int" where
  "open_rc e efd =
    (if \<not> oe_addrinfo e then -1
     else if oe_socket e < 0 then -2
     else if oe_reuseaddr e \<noteq> 0 then -3
     else if oe_reuseport e \<noteq> 0 then -3
     else if oe_bind e \<noteq> 0 then -4
     else if oe_listen e \<noteq> 0 then -5
     else if efd = INVALID_SOCK \<and> oe_spcreate e = -1 then -6
     else if \<not> oe_spadd_ok e then -7
     else 0)"

definition server_open :: "open_env \<Rightarrow> tcpsock_server \<Rightarrow> int \<times> tcpsock_server" where
  "server_open e s =
    (let rc = open_rc e (sv_efd s);
         reached_poll = (rc \<in> {0, -6, -7});
         s1 = (if reached_poll \<and> sv_efd s = INVALID_SOCK then s\<lparr>sv_efd := oe_spcreate e\<rparr> else s);
         fd = (if rc = -1 then INVALID_SOCK else oe_socket e)
     in if rc = 0
        then (0, s1\<lparr>sv_listenFds := List.insert fd (sv_listenFds s1),
                 sv_calls := sv_calls s1 @ [SpAdd (sv_efd s1) fd False]\<rparr>)
        else (rc, if fd \<noteq> INVALID_SOCK then s1\<lparr>sv_closedFds := sv_closedFds s1 @ [fd]\<rparr> else s1))"

fun server_open_all :: "open_env list \<Rightarrow> tcpsock_server \<Rightarrow> int \<times> tcpsock_server" where
  "server_open_all [] s = (0, s)"
| "server_open_all (e # es) s =
    (case server_open e s of (rc, s1) \<Rightarrow>
       (case server_open_all es s1 of (cnt, s2) \<Rightarrow> (cnt + (if rc = 0 then 1 else 0), s2)))"

definition server_close :: "tcpsock_server \<Rightarrow> tcpsock_server" where
  "server_close s = s\<lparr>
     sv_closedFds := sv_closedFds s @ sv_listenFds s, sv_listenFds := [],
     sv_efd := INVALID_SOCK, sv_fd2user := [], sv_users := []\<rparr>"

section \<open>Lanes\<close>

text \<open>The sum is kept in an \<^verbatim>\<open>int\<close>: each \<^verbatim>\<open>size_t\<close> is added and the result narrowed to 32 bits.\<close>

definition totalNeed :: "message_swimlane list \<Rightarrow> u32" where
  "totalNeed lanes = foldl (\<lambda>t l. t + ucast (lane_threads l)) 0 lanes"

definition set_types :: "u32 list \<Rightarrow> WorkerIdGroup \<Rightarrow> (u32 \<times> WorkerIdGroup) list \<Rightarrow> (u32 \<times> WorkerIdGroup) list" where
  "set_types types grp m = foldl (\<lambda>m t. AList.update t grp m) m types"

fun config_lanes ::
  "int list \<Rightarrow> message_swimlane list \<Rightarrow> nat \<Rightarrow> (u32 \<times> WorkerIdGroup) list \<Rightarrow> memerr + nat \<times> (u32 \<times> WorkerIdGroup) list" where
  "config_lanes ids [] pos m = Inr (pos, m)"
| "config_lanes ids (lane # lanes) pos m =
    (if lane_msgTypes lane = [] \<or> lane_threads lane = 0 then config_lanes ids lanes pos m
     else let n = unat (lane_threads lane) in
       if pos + n > length ids then Inl OutOfBounds
       else config_lanes ids lanes (pos + n)
         (set_types (lane_msgTypes lane) \<lparr>grp_workerIds = take n (drop pos ids), grp_cursor = 0\<rparr> m))"

definition configSwimlanes :: "message_swimlane list \<Rightarrow> tcpsock_server \<Rightarrow> memerr + tcpsock_server" where
  "configSwimlanes lanes s =
    (let ids = sv_workerIds s;
         r = (if (scast (totalNeed lanes) :: u64) \<ge> of_nat (length ids) then Inr (0, [])
              else config_lanes ids lanes 0 [])
     in case r of Inl e \<Rightarrow> Inl e
        | Inr (pos, m) \<Rightarrow>
          Inr (s\<lparr>sv_msgTyp2WkIdGrp :=
            AList.update DefaultMsgType \<lparr>grp_workerIds = drop pos ids, grp_cursor = 0\<rparr> m\<rparr>))"

text \<open>\<^verbatim>\<open>start\<close>: the worker ids are appended and their queues created, then the lanes are configured.\<close>

definition clamp_workers :: "int \<Rightarrow> nat" where
  "clamp_workers workerNum = nat (min (max workerNum 2) 64)"

definition server_start :: "int \<Rightarrow> message_swimlane list \<Rightarrow> tcpsock_server \<Rightarrow> memerr + tcpsock_server" where
  "server_start workerNum lanes s =
    (let n = clamp_workers workerNum in
     configSwimlanes lanes (s\<lparr>sv_shutdown := False,
       sv_workerIds := sv_workerIds s @ map (\<lambda>i. workerId (int i)) [1..<Suc n],
       sv_recvQueues := replicate n (Some sq_new) @ drop n (sv_recvQueues s)\<rparr>))"

text \<open>\<^verbatim>\<open>stop\<close> stops the queue of every worker; a missing queue there would be a null pointer.\<close>

definition server_stop :: "tcpsock_server \<Rightarrow> memerr + tcpsock_server" where
  "server_stop s =
    (let n = length (sv_workerIds s); qs = sv_recvQueues s in
     if n > length qs \<or> None \<in> set (take n qs) then Inl OutOfBounds
     else Inr (s\<lparr>sv_shutdown := True,
       sv_recvQueues := map (map_option (\<lambda>q. fst (sq_stop True q))) (take n qs) @ drop n qs\<rparr>))"

text \<open>The tail of \<^verbatim>\<open>serveUtilStop\<close>, after the threads are joined: the queues are drained and released.\<close>

definition serveUtilStop :: "tcpsock_server \<Rightarrow> tcpsock_server" where
  "serveUtilStop s =
    (let n = length (sv_workerIds s) in
     s\<lparr>sv_recvQueues := replicate (min n (length (sv_recvQueues s))) None @ drop n (sv_recvQueues s)\<rparr>)"

definition setMaxConnections :: "int \<Rightarrow> tcpsock_server \<Rightarrow> tcpsock_server" where
  "setMaxConnections m s = s\<lparr>sv_maxConnections := m\<rparr>"

definition currentConnections :: "tcpsock_server \<Rightarrow> int" where
  "currentConnections s = int (length (sv_fd2user s))"

section \<open>Users\<close>

definition upd_user :: "nat \<Rightarrow> (tcpsock_user \<Rightarrow> tcpsock_user) \<Rightarrow> tcpsock_server \<Rightarrow> tcpsock_server" where
  "upd_user uid f s = s\<lparr>sv_heap := (sv_heap s)(uid := f (sv_heap s uid))\<rparr>"

text \<open>
  \<^verbatim>\<open>createUser\<close> runs on the I/O thread without one lock around it.  Up to the insertion into \<^verbatim>\<open>_fd2user\<close>
  nobody else can see the user; from there on the monitor can run between any two of its statements,
  so the rest is three more steps.
\<close>

definition createUser :: "allocator \<Rightarrow> int \<Rightarrow> io_env \<Rightarrow> tcpsock_server \<Rightarrow> nat option \<times> tcpsock_server" where
  "createUser al fd env s =
    (case io_peer env of None \<Rightarrow> (None, s)
     | Some (addr, port) \<Rightarrow>
       if \<not> io_spadd_ok env then (None, s)
       else
         let uid = sv_next s;
             u0 = user_init addr port fd (sv_userSeq s) (io_now env) (user_new al);
             (u1, calls) = user_joinMonitor (sv_efd s) u0;
             u2 = user_setProtocol (Some (sv_protocol s)) u1
         in (Some uid, s\<lparr>
              sv_next := Suc uid, sv_userSeq := sv_userSeq s + 1,
              sv_heap := (sv_heap s)(uid := u2),
              sv_fd2user := AList.update fd uid (sv_fd2user s),
              sv_calls := sv_calls s @ SpAdd (sv_efd s) fd False # calls,
              sv_creating := Some (uid, Published)\<rparr>))"

definition createUser_next :: "tcpsock_server \<Rightarrow> tcpsock_server" where
  "createUser_next s =
    (case sv_creating s of
       None \<Rightarrow> s
     | Some (uid, Published) \<Rightarrow> s\<lparr>sv_users := sv_users s @ [uid], sv_creating := Some (uid, Listed)\<rparr>
     | Some (uid, Listed) \<Rightarrow> (upd_user uid user_setStart s)\<lparr>sv_creating := Some (uid, Started)\<rparr>
     | Some (uid, Started) \<Rightarrow> s\<lparr>sv_events := sv_events s @ [OnConnect uid], sv_creating := None\<rparr>)"

definition findUser :: "int \<Rightarrow> tcpsock_server \<Rightarrow> nat option" where
  "findUser fd s = map_of (sv_fd2user s) fd"

definition closeUser :: "int \<Rightarrow> tcpsock_server \<Rightarrow> int \<times> tcpsock_server" where
  "closeUser fd s =
    (case map_of (sv_fd2user s) fd of
       None \<Rightarrow> (-1, s)
     | Some uid \<Rightarrow>
       if \<not> user_isClosed (sv_heap s uid) then
         (0, (upd_user uid (user_leaveMonitor \<circ> user_setClose) s)\<lparr>
               sv_calls := sv_calls s @ [SpDel (sv_efd s) fd],
               sv_fd2user := AList.delete fd (sv_fd2user s)\<rparr>)
       else (1, s))"

definition onIOError :: "int \<Rightarrow> tcpsock_server \<Rightarrow> int \<times> tcpsock_server" where
  "onIOError fd s = closeUser fd s"

definition popFrontUser :: "tcpsock_server \<Rightarrow> nat option \<times> tcpsock_server" where
  "popFrontUser s = (case sv_users s of [] \<Rightarrow> (None, s) | u # us \<Rightarrow> (Some u, s\<lparr>sv_users := us\<rparr>))"

definition pushUserBack :: "nat \<Rightarrow> tcpsock_server \<Rightarrow> tcpsock_server" where
  "pushUserBack uid s = s\<lparr>sv_users := sv_users s @ [uid]\<rparr>"

section \<open>Dispatch and the three kinds of threads\<close>

definition dispatchMsg :: "tcp_message \<Rightarrow> nat \<Rightarrow> tcpsock_server \<Rightarrow> memerr + tcpsock_server" where
  "dispatchMsg msg uid s =
    (let t = msg_type (sv_protocol s) (Some msg);
         msgType = (if map_of (sv_msgTyp2WkIdGrp s) t = None then DefaultMsgType else t);
         grp = (case map_of (sv_msgTyp2WkIdGrp s) msgType of
                  None \<Rightarrow> \<lparr>grp_workerIds = [], grp_cursor = 0\<rparr> | Some g \<Rightarrow> g)
     in if grp_cursor grp \<ge> length (grp_workerIds grp) then Inl OutOfBounds
        else
          let wkId = grp_workerIds grp ! grp_cursor grp;
              cur = Suc (grp_cursor grp);
              grp' = grp\<lparr>grp_cursor := if cur = length (grp_workerIds grp) then 0 else cur\<rparr>;
              s' = s\<lparr>sv_msgTyp2WkIdGrp := AList.update msgType grp' (sv_msgTyp2WkIdGrp s)\<rparr>;
              i = workerIndex wkId
          in if i < 0 \<or> i \<ge> int (length (sv_recvQueues s)) then Inl OutOfBounds
             else (case sv_recvQueues s ! nat i of
               None \<Rightarrow> Inl OutOfBounds
             | Some q \<Rightarrow>
               let q' = fst (snd (sq_push server_MaxPendingMsg True \<lparr>ptr_msg = msg, ptr_user = uid\<rparr> q))
               in Inr (s'\<lparr>sv_recvQueues := (sv_recvQueues s)[nat i := Some q']\<rparr>)))"

fun dispatch_all :: "tcp_message list \<Rightarrow> nat \<Rightarrow> tcpsock_server \<Rightarrow> memerr + tcpsock_server" where
  "dispatch_all [] uid s = Inr s"
| "dispatch_all (m # ms) uid s =
    (case dispatchMsg m uid s of Inl e \<Rightarrow> Inl e | Inr s' \<Rightarrow> dispatch_all ms uid s')"

text \<open>The body of the I/O thread for one event on a listening socket.\<close>

definition on_listen_event :: "allocator \<Rightarrow> io_env \<Rightarrow> io_event \<Rightarrow> tcpsock_server \<Rightarrow> tcpsock_server" where
  "on_listen_event al env ev s =
    (if ev_read ev then
       (let conn = io_accept env in
        if conn < 0 then s
        else if currentConnections s \<ge> sv_maxConnections s then s\<lparr>sv_closedFds := sv_closedFds s @ [conn]\<rparr>
        else (case createUser al conn env s of
                (None, s') \<Rightarrow> s'\<lparr>sv_closedFds := sv_closedFds s' @ [conn]\<rparr>
              | (Some _, s') \<Rightarrow> s'))
     else s)"

definition dispatch_received ::
  "nat \<Rightarrow> tcpsock_server \<Rightarrow> memerr + tcp_message list \<times> tcpsock_user \<Rightarrow> memerr + tcpsock_server" where
  "dispatch_received uid s r =
    (case r of Inl e \<Rightarrow> Inl e | Inr (ms, u) \<Rightarrow> dispatch_all ms uid (upd_user uid (\<lambda>_. u) s))"

definition on_read :: "allocator \<Rightarrow> io_env \<Rightarrow> int \<Rightarrow> tcpsock_server \<Rightarrow> (memerr + tcpsock_server) option" where
  "on_read al env fd s =
    (let recvLen = sock_recv (io_recv env) in
     if recvLen > 0 then
       (case io_recv env of Inl _ \<Rightarrow> Some (Inr s)
        | Inr bs \<Rightarrow>
          (case findUser fd s of None \<Rightarrow> Some (Inr s)
           | Some uid \<Rightarrow>
             (case user_onRecv al bs (sv_heap s uid) of
                Inl e \<Rightarrow> Some (Inl e)
              | Inr (rc, u) \<Rightarrow>
                let s1 = upd_user uid (\<lambda>_. u) s in
                if rc \<noteq> 0 then Some (Inr (snd (onIOError fd s1)))
                else map_option (dispatch_received uid s1) (user_recv_loop (io_now env) u))))
     else if recvLen = -2 then Some (Inr s)
     else Some (Inr (snd (onIOError fd s))))"

definition on_write :: "io_env \<Rightarrow> int \<Rightarrow> tcpsock_server \<Rightarrow> tcpsock_server" where
  "on_write env fd s =
    (case findUser fd s of None \<Rightarrow> s
     | Some uid \<Rightarrow>
       (case user_sendData (io_send env) (sv_heap s uid) of (rc, u, calls, w) \<Rightarrow>
         let s1 = (upd_user uid (\<lambda>_. u) s)\<lparr>sv_calls := sv_calls s @ calls\<rparr> in
         if rc = SEND_FAIL then snd (onIOError fd s1) else s1))"

definition handle_event :: "allocator \<Rightarrow> io_env \<Rightarrow> io_event \<Rightarrow> tcpsock_server \<Rightarrow> (memerr + tcpsock_server) option" where
  "handle_event al env ev s =
    (if ev_fd ev \<in> set (sv_listenFds s) then Some (Inr (on_listen_event al env ev s))
     else if ev_read ev then on_read al env (ev_fd ev) s
     else if ev_write ev then Some (Inr (on_write env (ev_fd ev) s))
     else if ev_error ev \<or> ev_eof ev then Some (Inr (snd (onIOError (ev_fd ev) s)))
     else Some (Inr s))"

text \<open>The monitor takes a user out of the list and later finishes with it.\<close>

definition monitor_take :: "tcpsock_server \<Rightarrow> tcpsock_server" where
  "monitor_take s = (case popFrontUser s of (h, s') \<Rightarrow> s'\<lparr>sv_held := h\<rparr>)"

definition monitor_finish :: "int \<Rightarrow> tcpsock_server \<Rightarrow> tcpsock_server" where
  "monitor_finish now s =
    (case sv_held s of None \<Rightarrow> s
     | Some uid \<Rightarrow>
       let s1 = (if user_isExpired now (sv_heap s uid)
                 then snd (closeUser (wc_fd (u_chan (sv_heap s uid))) s) else s);
           s2 = s1\<lparr>sv_held := None\<rparr>
       in if user_isClosed (sv_heap s2 uid)
          then s2\<lparr>sv_events := sv_events s2 @ [OnDisconnect uid]\<rparr>
          else pushUserBack uid s2)"

definition user_alive :: "tcpsock_server \<Rightarrow> nat \<Rightarrow> bool" where
  "user_alive s uid \<longleftrightarrow> uid \<in> set (sv_users s) \<or> sv_held s = Some uid \<or> uid \<in> snd ` set (sv_fd2user s) \<or>
    uid \<in> fst ` set_option (sv_creating s)"

text \<open>One turn of a worker on its queue; \<open>None\<close> when it leaves its loop.\<close>

definition worker_step :: "nat \<Rightarrow> tcpsock_server \<Rightarrow> (memerr + tcpsock_server) option" where
  "worker_step i s =
    (if i \<ge> length (sv_recvQueues s) then Some (Inl OutOfBounds)
     else (case sv_recvQueues s ! i of
       None \<Rightarrow> Some (Inl OutOfBounds)
     | Some q \<Rightarrow>
       (case sq_pop_timeout_cv q of
          (SQ_EXIT, _, _) \<Rightarrow> None
        | (SQ_TIMEOUT, _, _) \<Rightarrow> Some (Inr s)
        | (SQ_POP_SUCCESS, None, _) \<Rightarrow> Some (Inr s)
        | (SQ_POP_SUCCESS, Some ptr, q') \<Rightarrow>
          let s' = s\<lparr>sv_recvQueues := (sv_recvQueues s)[i := Some q']\<rparr>;
              msg = ptr_msg ptr; uid = ptr_user ptr
          in if \<not> user_alive s' uid then Some (Inr s')
             else if isHeartbeat (sv_protocol s') (Some msg) then Some (Inr s')
             else if user_isClosed (sv_heap s' uid) then Some (Inr s')
             else Some (Inr (s'\<lparr>sv_events := sv_events s' @ [OnRecvMsg uid msg]\<rparr>)))))"

section \<open>Reachable states\<close>

text \<open>
  The steps of the threads, after \<^verbatim>\<open>open\<close> on any number of ports and \<^verbatim>\<open>start\<close>.  While the I/O thread is
  inside \<^verbatim>\<open>createUser\<close> it handles no other event; the monitor and the workers go on.  The kernel never
  returns from \<^verbatim>\<open>accept\<close> a descriptor that is still open, and a user's descriptor is open as long as the
  user is alive.  Any thread may post to a live user, and the server may be stopped at any time.

  The monitor's clock is free.  With \<open>timely\<close> it is only assumed that \<^verbatim>\<open>createUser\<close> itself takes less
  than the time a silent user is allowed: nobody expires who is not yet connected.
\<close>

definition fd_unused :: "tcpsock_server \<Rightarrow> int \<Rightarrow> bool" where
  "fd_unused s fd \<longleftrightarrow> (\<forall>uid. user_alive s uid \<longrightarrow> wc_fd (u_chan (sv_heap s uid)) \<noteq> fd)"

inductive srv_step :: "allocator \<Rightarrow> bool \<Rightarrow> tcpsock_server \<Rightarrow> tcpsock_server \<Rightarrow> bool" for al timely where
  sv_io: "sv_creating s = None \<Longrightarrow> handle_event al env ev s = Some (Inr s') \<Longrightarrow>
    fd_unused s (io_accept env) \<Longrightarrow> srv_step al timely s s'"
| sv_create: "srv_step al timely s (createUser_next s)"
| sv_take: "sv_held s = None \<Longrightarrow> srv_step al timely s (monitor_take s)"
| sv_finish: "(\<And>uid ph. timely \<Longrightarrow> sv_held s = Some uid \<Longrightarrow> sv_creating s = Some (uid, ph) \<Longrightarrow>
      \<not> user_isExpired now (sv_heap s uid)) \<Longrightarrow> srv_step al timely s (monitor_finish now s)"
| sv_work: "worker_step i s = Some (Inr s') \<Longrightarrow> srv_step al timely s s'"
| sv_post: "user_alive s uid \<Longrightarrow> srv_step al timely s (upd_user uid (\<lambda>u. fst (snd (user_post m u))) s)"
| sv_stop: "server_stop s = Inr s' \<Longrightarrow> srv_step al timely s s'"

inductive srv_reach :: "allocator \<Rightarrow> bool \<Rightarrow> tcpsock_server \<Rightarrow> bool" for al timely where
  sv_init: "server_open_all es (setMaxConnections mc (server_new p heap)) = (cnt, s) \<Longrightarrow>
    server_start n lanes s = Inr s' \<Longrightarrow> srv_reach al timely s'"
| sv_more: "srv_reach al timely s \<Longrightarrow> srv_step al timely s s' \<Longrightarrow> srv_reach al timely s'"

text \<open>The users that still are the monitor's business: the one it holds, its list, and the one that
  \<^verbatim>\<open>createUser\<close> is about to put there.\<close>

definition unlisted :: "tcpsock_server \<Rightarrow> nat list" where
  "unlisted s = (case sv_creating s of Some (uid, Published) \<Rightarrow> [uid] | _ \<Rightarrow> [])"

definition listed :: "tcpsock_server \<Rightarrow> nat list" where
  "listed s = (case sv_held s of None \<Rightarrow> [] | Some u \<Rightarrow> [u]) @ sv_users s @ unlisted s"

definition user_fd :: "tcpsock_server \<Rightarrow> nat \<Rightarrow> int" where
  "user_fd s uid = wc_fd (u_chan (sv_heap s uid))"

definition conn_inv :: "tcpsock_server \<Rightarrow> bool" where
  "conn_inv s \<longleftrightarrow> distinct (map fst (sv_fd2user s)) \<and> distinct (listed s) \<and>
    (\<forall>fd uid. (fd, uid) \<in> set (sv_fd2user s) \<longrightarrow>
      \<not> u_closed (sv_heap s uid) \<and> wc_fd (u_chan (sv_heap s uid)) = fd \<and> uid \<in> set (listed s)) \<and>
    (\<forall>uid \<in> set (listed s). uid < sv_next s \<and>
      (\<not> u_closed (sv_heap s uid) \<longrightarrow> (wc_fd (u_chan (sv_heap s uid)), uid) \<in> set (sv_fd2user s)))"

definition event_inv :: "tcpsock_server \<Rightarrow> bool" where
  "event_inv s \<longleftrightarrow> (\<forall>uid. OnDisconnect uid \<in> set (sv_events s) \<longrightarrow> uid \<notin> set (listed s) \<and> uid < sv_next s) \<and>
    (\<forall>uid. count_list (sv_events s) (OnDisconnect uid) \<le> 1)"

definition limit_inv :: "tcpsock_server \<Rightarrow> bool" where
  "limit_inv s \<longleftrightarrow> length (sv_fd2user s) \<le> nat (sv_maxConnections s)"

definition srv_inv :: "tcpsock_server \<Rightarrow> bool" where
  "srv_inv s \<longleftrightarrow> conn_inv s \<and> event_inv s \<and> limit_inv s"

lemmas srv_inv_defs = srv_inv_def conn_inv_def event_inv_def limit_inv_def listed_def unlisted_def

lemma AList_update_fresh: "k \<notin> fst ` set al \<Longrightarrow> AList.update k v al = al @ [(k, v)]"
  by (induction al) auto

lemma srv_inv_queues [simp]:
  "srv_inv (s\<lparr>sv_msgTyp2WkIdGrp := x\<rparr>) = srv_inv s" "srv_inv (s\<lparr>sv_recvQueues := y\<rparr>) = srv_inv s"
  "srv_inv (s\<lparr>sv_calls := c\<rparr>) = srv_inv s" "srv_inv (s\<lparr>sv_closedFds := d\<rparr>) = srv_inv s"
  "srv_inv (s\<lparr>sv_workerIds := w\<rparr>) = srv_inv s" "srv_inv (s\<lparr>sv_shutdown := b\<rparr>) = srv_inv s"
  by (simp_all add: srv_inv_defs)

lemma srv_inv_recv_event [simp]:
  "srv_inv (s\<lparr>sv_recvQueues := y, sv_events := sv_events s @ [OnRecvMsg u m]\<rparr>) = srv_inv s"
  by (simp add: srv_inv_defs)

text \<open>Work on a user that keeps its descriptor and whether it is closed.\<close>

lemma srv_inv_upd_user:
  assumes "srv_inv s" and "u_closed (f (sv_heap s uid)) = u_closed (sv_heap s uid)"
    and "wc_fd (u_chan (f (sv_heap s uid))) = wc_fd (u_chan (sv_heap s uid))"
  shows "srv_inv (upd_user uid f s)"
  using assms by (auto simp: srv_inv_defs upd_user_def)

lemma conn_invI:
  assumes "distinct (map fst (sv_fd2user s))" and "distinct (listed s)"
    and "\<And>fd uid. (fd, uid) \<in> set (sv_fd2user s) \<Longrightarrow>
      \<not> u_closed (sv_heap s uid) \<and> wc_fd (u_chan (sv_heap s uid)) = fd \<and> uid \<in> set (listed s)"
    and "\<And>uid. uid \<in> set (listed s) \<Longrightarrow> uid < sv_next s"
    and "\<And>uid. uid \<in> set (listed s) \<Longrightarrow> \<not> u_closed (sv_heap s uid) \<Longrightarrow>
      (wc_fd (u_chan (sv_heap s uid)), uid) \<in> set (sv_fd2user s)"
  shows "conn_inv s"
  using assms by (simp add: conn_inv_def)

lemma conn_invE:
  assumes "srv_inv s"
  shows "distinct (map fst (sv_fd2user s))" "distinct (listed s)"
    and "uid \<in> set (listed s) \<Longrightarrow> uid < sv_next s"
    and "uid \<in> set (listed s) \<Longrightarrow> \<not> u_closed (sv_heap s uid) \<Longrightarrow>
      (wc_fd (u_chan (sv_heap s uid)), uid) \<in> set (sv_fd2user s)"
  using assms by (auto simp: srv_inv_def conn_inv_def)

lemma conn_invD:
  assumes "srv_inv s" and "(fd, uid) \<in> set (sv_fd2user s)"
  shows "\<not> u_closed (sv_heap s uid)" "wc_fd (u_chan (sv_heap s uid)) = fd" "uid \<in> set (listed s)"
  using assms by (auto simp: srv_inv_def conn_inv_def)

lemma closeUser_inv:
  assumes "srv_inv s"
  shows "srv_inv (snd (closeUser fd s))"
proof (cases "map_of (sv_fd2user s) fd")
  case None
  with assms show ?thesis by (simp add: closeUser_def)
next
  case (Some uid)
  let ?s = "snd (closeUser fd s)"
  have m: "(fd, uid) \<in> set (sv_fd2user s)" by (rule map_of_SomeD [OF Some])
  note u = conn_invD [OF assms m]
  have key: "uid' \<noteq> uid" if "(fd', uid') \<in> set (sv_fd2user s)" "fd' \<noteq> fd" for fd' uid'
    using conn_invD(2) [OF assms that(1)] u(2) that(2) by auto
  have other: "uid' = uid" if "(fd, uid') \<in> set (sv_fd2user s)" for uid'
    using that m assms by (auto simp: srv_inv_def conn_inv_def dest: eq_key_imp_eq_value)
  have s: "?s = s\<lparr>sv_heap := (sv_heap s)(uid := user_leaveMonitor (user_setClose (sv_heap s uid))),
      sv_calls := sv_calls s @ [SpDel (sv_efd s) fd], sv_fd2user := AList.delete fd (sv_fd2user s)\<rparr>"
    using Some u(1) by (simp add: closeUser_def user_isClosed_def upd_user_def)
  have l: "listed ?s = listed s" by (simp add: s listed_def unlisted_def)
  have d: "set (AList.delete fd (sv_fd2user s)) = {(k, v) \<in> set (sv_fd2user s). k \<noteq> fd}"
    by (auto simp: AList.delete_eq)
  have cl: "u_closed (user_leaveMonitor (user_setClose x))" for x
    by (simp add: user_leaveMonitor_def user_setClose_def)
  have h: "sv_heap ?s uid' = (if uid' = uid then user_leaveMonitor (user_setClose (sv_heap s uid)) else sv_heap s uid')" for uid'
    by (simp add: s)
  have f: "sv_fd2user ?s = AList.delete fd (sv_fd2user s)" "sv_next ?s = sv_next s" by (simp_all add: s)
  have "conn_inv ?s"
  proof (rule conn_invI, goal_cases)
    case 1
    then show ?case by (simp only: f) (rule AList.distinct_delete [OF conn_invE(1) [OF assms]])
  next
    case 2
    then show ?case by (simp only: l conn_invE(2) [OF assms])
  next
    case (3 fd' uid')
    then have "(fd', uid') \<in> set (sv_fd2user s)" "fd' \<noteq> fd" by (auto simp: f d)
    with key conn_invD [OF assms] show ?case by (auto simp: h l)
  next
    case (4 uid')
    then show ?case by (simp add: f l conn_invE(3) [OF assms])
  next
    case (5 uid')
    then have "uid' \<noteq> uid" by (auto simp: h cl)
    moreover from this 5 have *: "(wc_fd (u_chan (sv_heap s uid')), uid') \<in> set (sv_fd2user s)"
      by (intro conn_invE(4) [OF assms]) (simp_all add: h l)
    ultimately show ?case using other by (auto simp: f d h)
  qed
  moreover have "event_inv ?s"
    using assms unfolding srv_inv_def event_inv_def l by (simp add: s)
  moreover have "limit_inv ?s"
    using assms length_delete_le [of fd "sv_fd2user s"] by (simp add: s srv_inv_def limit_inv_def)
  ultimately show ?thesis by (simp add: srv_inv_def)
qed

text \<open>What \<^verbatim>\<open>createUser\<close> has done when the user becomes visible.\<close>

lemma createUser_cases:
  assumes "srv_inv s" and "fd_unused s fd"
  obtains "createUser al fd env s = (None, s)"
  | u calls where "\<not> u_closed u" "wc_fd (u_chan u) = fd" "fd \<notin> fst ` set (sv_fd2user s)"
      "createUser al fd env s = (Some (sv_next s), s\<lparr>sv_next := Suc (sv_next s), sv_userSeq := sv_userSeq s + 1,
        sv_heap := (sv_heap s)(sv_next s := u), sv_fd2user := sv_fd2user s @ [(fd, sv_next s)],
        sv_calls := sv_calls s @ calls, sv_creating := Some (sv_next s, Published)\<rparr>)"
proof (cases "io_peer env = None \<or> \<not> io_spadd_ok env")
  case True
  with that(1) show ?thesis by (auto simp: createUser_def split: option.splits)
next
  case False
  then obtain addr port where peer: "io_peer env = Some (addr, port)" "io_spadd_ok env" by fastforce
  let ?u0 = "user_init addr port fd (sv_userSeq s) (io_now env) (user_new al)"
  obtain u1 calls where u1: "user_joinMonitor (sv_efd s) ?u0 = (u1, calls)" by fastforce
  have u1p: "\<not> u_closed u1" "wc_fd (u_chan u1) = fd"
    using u1 by (auto simp: user_joinMonitor_def joinMonitor_def enableWrite_def user_init_def user_new_def
        Let_def split: if_splits)
  have fresh: "fd \<notin> fst ` set (sv_fd2user s)"
  proof
    assume "fd \<in> fst ` set (sv_fd2user s)"
    then obtain uid where m: "(fd, uid) \<in> set (sv_fd2user s)" by force
    then have "user_alive s uid" by (force simp: user_alive_def)
    with assms(2) conn_invD(2) [OF assms(1) m] show False by (auto simp: fd_unused_def)
  qed
  show ?thesis
    by (rule that(2) [of "user_setProtocol (Some (sv_protocol s)) u1" "SpAdd (sv_efd s) fd False # calls"])
      (use peer u1 u1p fresh in \<open>simp_all add: createUser_def AList_update_fresh Let_def user_setProtocol_def\<close>)
qed

lemma createUser_inv:
  assumes "srv_inv s" and "currentConnections s < sv_maxConnections s"
    and "fd_unused s fd" and "sv_creating s = None"
  shows "srv_inv (snd (createUser al fd env s))"
proof (cases rule: createUser_cases [OF assms(1,3), of al env])
  case 1
  with assms(1) show ?thesis by simp
next
  case (2 u calls)
  let ?s = "snd (createUser al fd env s)"
  note s = 2(4)
  have new: "sv_next s \<notin> set (listed s)" using assms(1) by (auto simp: srv_inv_def conn_inv_def)
  have l: "listed ?s = listed s @ [sv_next s]" using assms(4) by (simp add: s listed_def unlisted_def)
  have h: "sv_heap ?s uid = sv_heap s uid" if "uid \<in> set (listed s)" for uid
    using that new by (auto simp: s)
  have old: "uid \<noteq> sv_next s" if "(k, uid) \<in> set (sv_fd2user s)" for k uid
    using conn_invD(3) [OF assms(1) that] new by auto
  have f: "sv_fd2user ?s = sv_fd2user s @ [(fd, sv_next s)]" "sv_next ?s = Suc (sv_next s)"
    "\<not> u_closed (sv_heap ?s (sv_next s))" "wc_fd (u_chan (sv_heap ?s (sv_next s))) = fd"
    using 2(1,2) by (simp_all add: s)
  have "conn_inv ?s"
    unfolding conn_inv_def l
    using assms(1) 2(3) new old f h
    by (auto simp: srv_inv_def conn_inv_def less_SucI conn_invD [OF assms(1)])
  moreover have "event_inv ?s"
    using assms(1) new unfolding srv_inv_def event_inv_def l by (auto simp: s)
  moreover have "limit_inv ?s"
    using assms(2) by (simp add: limit_inv_def s currentConnections_def)
  ultimately show ?thesis by (simp add: srv_inv_def)
qed

lemma dispatchMsg_frame:
  "dispatchMsg m uid s = Inr s' \<Longrightarrow> \<exists>x y. s' = s\<lparr>sv_msgTyp2WkIdGrp := x, sv_recvQueues := y\<rparr>"
  by (auto simp: dispatchMsg_def Let_def split: if_splits option.splits)

lemma dispatch_all_inv: "dispatch_all ms uid s = Inr s' \<Longrightarrow> srv_inv s \<Longrightarrow> srv_inv s'"
proof (induction ms arbitrary: s)
  case (Cons m ms)
  then obtain s1 where "dispatchMsg m uid s = Inr s1" "dispatch_all ms uid s1 = Inr s'"
    by (auto split: sum.splits)
  with Cons dispatchMsg_frame [of m uid s s1] show ?case by auto
qed simp

lemma getRecvMsg_frame:
  "user_getRecvMsg now u = Inr (m, u') \<Longrightarrow> u_closed u' = u_closed u \<and> u_chan u' = u_chan u"
  by (auto simp: user_getRecvMsg_def Let_def split: sum.splits if_splits)

lemma user_recv_loop_frame:
  assumes "user_recv_loop now u = Some r" and "r = Inr (ms, u')"
  shows "u_closed u' = u_closed u \<and> u_chan u' = u_chan u"
proof -
  have "\<forall>ms u'. r = Inr (ms, u') \<longrightarrow> u_closed u' = u_closed u \<and> u_chan u' = u_chan u"
  proof (rule user_recv_loop.raw_induct [OF _ assms(1)], goal_cases)
    case (1 rec now u y)
    show ?case
    proof (cases "user_getRecvMsg now u")
      case (Inr p)
      obtain m u1 where g: "user_getRecvMsg now u = Inr (m, u1)" using Inr by (cases p) simp
      note f = getRecvMsg_frame [OF g]
      show ?thesis
      proof (cases m)
        case (Some m')
        then obtain r1 where r1: "rec now u1 = Some r1" and y: "(case r1 of Inl e \<Rightarrow> Some (Inl e)
            | Inr (ms, u2) \<Rightarrow> Some (Inr (m' # ms, u2))) = Some y"
          using 1(2) g by (auto simp: bind_eq_Some_conv)
        from 1(1) [OF r1] y f show ?thesis by (cases r1) auto
      qed (use 1(2) g f in auto)
    qed (use 1(2) in auto)
  qed
  with assms(2) show ?thesis by blast
qed

lemma sendData_fd: "sendData b r c = (rc, c', calls, w) \<Longrightarrow> wc_fd c' = wc_fd c"
  by (auto simp: sendData_def recheck_empty_def enableWrite_def Let_def split: prod.splits if_splits)

lemma post_fd: "post m c = (rc, c', calls) \<Longrightarrow> wc_fd c' = wc_fd c"
  by (auto simp: post_def enableWrite_def split: if_splits)

lemma on_read_inv:
  assumes "on_read al env fd s = Some (Inr s')" and "srv_inv s"
  shows "srv_inv s'"
proof -
  consider "s' = s" | "s' = snd (onIOError fd s)"
    | uid bs rc u where "findUser fd s = Some uid" "user_onRecv al bs (sv_heap s uid) = Inr (rc, u)"
      "s' = snd (onIOError fd (upd_user uid (\<lambda>_. u) s)) \<or>
       (\<exists>r. user_recv_loop (io_now env) u = Some r \<and>
         dispatch_received uid (upd_user uid (\<lambda>_. u) s) r = Inr s')"
    using assms(1)
    by (auto simp: on_read_def Let_def split: if_split_asm sum.split_asm option.split_asm prod.split_asm)
  then show ?thesis
  proof cases
    case (3 uid bs rc u)
    have u: "srv_inv (upd_user uid (\<lambda>_. u) s)"
      using assms(2) user_onRecv_frame [OF 3(2)] by (intro srv_inv_upd_user) simp_all
    from 3(3) show ?thesis
    proof (elim disjE exE conjE)
      fix r
      assume l: "user_recv_loop (io_now env) u = Some r"
        and dr: "dispatch_received uid (upd_user uid (\<lambda>_. u) s) r = Inr s'"
      then obtain ms u' where r: "r = Inr (ms, u')"
        and d: "dispatch_all ms uid (upd_user uid (\<lambda>_. u') (upd_user uid (\<lambda>_. u) s)) = Inr s'"
        by (cases r) (auto simp: dispatch_received_def)
      have "srv_inv (upd_user uid (\<lambda>_. u') (upd_user uid (\<lambda>_. u) s))"
        using u user_recv_loop_frame [OF l r] by (intro srv_inv_upd_user [OF u]) (simp_all add: upd_user_def)
      with dispatch_all_inv [OF d] show ?thesis by blast
    qed (simp add: onIOError_def closeUser_inv u)
  qed (simp_all add: assms(2) onIOError_def closeUser_inv)
qed

lemma on_write_inv: "srv_inv s \<Longrightarrow> srv_inv (on_write env fd s)"
proof (cases "findUser fd s")
  case (Some uid)
  assume inv: "srv_inv s"
  obtain rc u calls w where r: "user_sendData (io_send env) (sv_heap s uid) = (rc, u, calls, w)"
    by (metis prod_cases4)
  then have "u_closed u = u_closed (sv_heap s uid)" "wc_fd (u_chan u) = wc_fd (u_chan (sv_heap s uid))"
    by (auto simp: user_sendData_def dest: sendData_fd split: prod.splits)
  then have "srv_inv (upd_user uid (\<lambda>_. u) s)"
    using inv by (intro srv_inv_upd_user) simp_all
  then show ?thesis
    by (simp add: on_write_def Some r Let_def onIOError_def closeUser_inv)
qed (simp add: on_write_def)

lemma on_listen_inv:
  assumes "srv_inv s" and "fd_unused s (io_accept env)"
    and "sv_creating s = None"
  shows "srv_inv (on_listen_event al env ev s)"
  using assms(1) createUser_inv [OF assms(1) _ assms(2,3), of al env]
  by (auto simp: on_listen_event_def Let_def split: prod.splits option.splits)

lemma listed_take: "sv_held s = None \<Longrightarrow> listed (monitor_take s) = listed s"
  by (auto simp: monitor_take_def popFrontUser_def listed_def unlisted_def split: list.splits)

lemma monitor_take_inv: "sv_held s = None \<Longrightarrow> srv_inv s \<Longrightarrow> srv_inv (monitor_take s)"
proof -
  assume h: "sv_held s = None" and inv: "srv_inv s"
  have "sv_fd2user (monitor_take s) = sv_fd2user s" "sv_heap (monitor_take s) = sv_heap s"
    "sv_next (monitor_take s) = sv_next s" "sv_events (monitor_take s) = sv_events s"
    "sv_maxConnections (monitor_take s) = sv_maxConnections s"
    by (simp_all add: monitor_take_def popFrontUser_def split: list.split)
  with inv listed_take [OF h] show ?thesis
    by (simp add: srv_inv_def conn_inv_def event_inv_def limit_inv_def)
qed

lemma monitor_release_inv:
  assumes "srv_inv s" and "sv_held s = Some uid"
  shows "srv_inv (if u_closed (sv_heap s uid)
    then s\<lparr>sv_held := None, sv_events := sv_events s @ [OnDisconnect uid]\<rparr>
    else pushUserBack uid (s\<lparr>sv_held := None\<rparr>))"
proof (cases "u_closed (sv_heap s uid)")
  case True
  let ?s = "s\<lparr>sv_held := None, sv_events := sv_events s @ [OnDisconnect uid]\<rparr>"
  have l: "listed s = uid # listed ?s" using assms(2) by (simp add: listed_def unlisted_def)
  have n: "uid \<notin> set (listed ?s)" using conn_invE(2) [OF assms(1)] l by simp
  have e: "OnDisconnect uid \<notin> set (sv_events s)"
    using assms(1) l by (auto simp: srv_inv_def event_inv_def)
  have "conn_inv ?s"
  proof (rule conn_invI, goal_cases)
    case (3 fd uid')
    then have m: "(fd, uid') \<in> set (sv_fd2user s)" by simp
    with conn_invD [OF assms(1) m] True l show ?case by auto
  next
    case (5 uid')
    then show ?case using conn_invE(4) [OF assms(1), of uid'] l by simp
  qed (use conn_invE [OF assms(1)] l in \<open>auto\<close>)
  moreover have "event_inv ?s"
    using assms(1) n e l conn_invE(3) [OF assms(1), of uid] by (auto simp: srv_inv_def event_inv_def count_notin)
  moreover have "limit_inv ?s" using assms(1) by (simp add: srv_inv_def limit_inv_def)
  ultimately show ?thesis using True by (simp add: srv_inv_def)
next
  case False
  let ?s = "pushUserBack uid (s\<lparr>sv_held := None\<rparr>)"
  have l: "listed s = uid # sv_users s @ unlisted s" "listed ?s = sv_users s @ [uid] @ unlisted s"
    using assms(2) by (simp_all add: listed_def unlisted_def pushUserBack_def)
  then have "set (listed ?s) = set (listed s)" "distinct (listed ?s) = distinct (listed s)" by auto
  then have "conn_inv ?s \<and> event_inv ?s \<and> limit_inv ?s"
    using assms(1) by (simp add: srv_inv_def conn_inv_def event_inv_def limit_inv_def pushUserBack_def)
  with False show ?thesis by (simp add: srv_inv_def)
qed

lemma closeUser_held [simp]: "sv_held (snd (closeUser fd s)) = sv_held s"
  by (simp add: closeUser_def upd_user_def split: option.split)

lemma monitor_finish_inv: "srv_inv s \<Longrightarrow> srv_inv (monitor_finish now s)"
proof (cases "sv_held s")
  case (Some uid)
  assume inv: "srv_inv s"
  let ?s1 = "if user_isExpired now (sv_heap s uid) then snd (closeUser (wc_fd (u_chan (sv_heap s uid))) s) else s"
  have "srv_inv ?s1" using inv closeUser_inv by simp
  moreover have "sv_held ?s1 = Some uid" using Some by simp
  moreover have "monitor_finish now s = (if u_closed (sv_heap ?s1 uid)
      then ?s1\<lparr>sv_held := None, sv_events := sv_events ?s1 @ [OnDisconnect uid]\<rparr>
      else pushUserBack uid (?s1\<lparr>sv_held := None\<rparr>))"
    unfolding monitor_finish_def Some Let_def user_isClosed_def by simp
  ultimately show ?thesis
    by (simp only: monitor_release_inv)
qed (simp add: monitor_finish_def)

lemma worker_step_inv: "worker_step i s = Some (Inr s') \<Longrightarrow> srv_inv s \<Longrightarrow> srv_inv s'"
  by (auto simp: worker_step_def Let_def split: if_splits option.splits prod.splits SQ_PopCode.splits)

lemma createUser_next_inv: "srv_inv s \<Longrightarrow> srv_inv (createUser_next s)"
proof -
  assume inv: "srv_inv s"
  show ?thesis
  proof (cases "sv_creating s")
    case (Some c)
    obtain uid ph where c: "sv_creating s = Some (uid, ph)" using Some by (cases c) simp
    show ?thesis
    proof (cases ph)
      case Published
      then show ?thesis using inv c by (simp add: createUser_next_def srv_inv_defs)
    next
      case Listed
      have "srv_inv (upd_user uid user_setStart s)"
        using inv by (rule srv_inv_upd_user) (simp_all add: user_setStart_def)
      with Listed c show ?thesis by (simp add: createUser_next_def srv_inv_defs upd_user_def)
    next
      case Started
      then show ?thesis using inv c by (simp add: createUser_next_def srv_inv_defs)
    qed
  qed (simp add: createUser_next_def inv)
qed

lemma server_stop_inv: "server_stop s = Inr s' \<Longrightarrow> srv_inv s \<Longrightarrow> srv_inv s'"
  by (auto simp: server_stop_def Let_def split: if_splits)

lemma srv_step_inv: "srv_step al timely s s' \<Longrightarrow> srv_inv s \<Longrightarrow> srv_inv s'"
proof (induction rule: srv_step.induct)
  case (sv_io s env ev s')
  then show ?case
    by (auto simp: handle_event_def onIOError_def closeUser_inv on_write_inv on_listen_inv
        dest: on_read_inv split: if_splits)
next
  case (sv_post s uid m)
  then show ?case
    by (intro srv_inv_upd_user) (auto simp: user_post_def split: prod.splits dest: post_fd)
qed (simp_all add: monitor_take_inv monitor_finish_inv worker_step_inv createUser_next_inv server_stop_inv)

text \<open>Opening ports and starting touches none of the tables.\<close>

definition same_tables :: "tcpsock_server \<Rightarrow> tcpsock_server \<Rightarrow> bool" where
  "same_tables s s' \<longleftrightarrow> sv_fd2user s' = sv_fd2user s \<and> sv_users s' = sv_users s \<and> sv_held s' = sv_held s \<and>
    sv_creating s' = sv_creating s \<and> sv_events s' = sv_events s \<and> sv_next s' = sv_next s \<and>
    sv_maxConnections s' = sv_maxConnections s"

lemma server_open_all_frame: "server_open_all es s = (cnt, s') \<Longrightarrow> same_tables s s'"
proof (induction es arbitrary: s cnt)
  case Nil
  then show ?case by (simp add: same_tables_def)
next
  case (Cons e es)
  obtain rc s1 where o: "server_open e s = (rc, s1)" by fastforce
  then have "same_tables s s1" by (auto simp: server_open_def Let_def same_tables_def split: if_splits)
  moreover obtain cnt1 where "server_open_all es s1 = (cnt1, s')" using Cons.prems o by (auto split: prod.splits)
  ultimately show ?case using Cons.IH by (fastforce simp: same_tables_def)
qed

lemma server_start_frame: "server_start n lanes s = Inr s' \<Longrightarrow> same_tables s s' \<and> sv_listenFds s' = sv_listenFds s"
  by (auto simp: server_start_def configSwimlanes_def Let_def same_tables_def split: sum.splits if_splits)

text \<open>So a started server has empty tables and no user.\<close>

lemma started_empty:
  assumes "server_open_all es (setMaxConnections mc (server_new p heap)) = (cnt, s)" and "server_start n lanes s = Inr s'"
  shows "sv_fd2user s' = [] \<and> sv_users s' = [] \<and> sv_held s' = None \<and> sv_creating s' = None \<and> sv_events s' = [] \<and> sv_next s' = 0"
  using server_open_all_frame [OF assms(1)] server_start_frame [OF assms(2)]
  by (auto simp: server_new_def setMaxConnections_def same_tables_def)

lemma srv_reach_inv: "srv_reach al timely s \<Longrightarrow> srv_inv s"
proof (induction rule: srv_reach.induct)
  case (sv_init es mc p heap cnt s n lanes s')
  with started_empty [OF sv_init] show ?case by (simp add: srv_inv_defs)
qed (simp add: srv_step_inv)

section \<open>The order of the callbacks\<close>

definition creating :: "tcpsock_server \<Rightarrow> nat \<Rightarrow> bool" where
  "creating s uid \<longleftrightarrow> uid \<in> fst ` set_option (sv_creating s)"

definition announced :: "user_event list \<Rightarrow> bool" where
  "announced evs \<longleftrightarrow> (\<forall>xs uid ys. evs = xs @ OnDisconnect uid # ys \<longrightarrow> OnConnect uid \<in> set xs)"

definition callback_inv :: "bool \<Rightarrow> tcpsock_server \<Rightarrow> bool" where
  "callback_inv timely s \<longleftrightarrow>
    (\<forall>uid. count_list (sv_events s) (OnConnect uid) = (if uid < sv_next s \<and> \<not> creating s uid then 1 else 0)) \<and>
    (\<forall>uid. creating s uid \<longrightarrow> uid < sv_next s) \<and>
    inj_on (user_fd s) (set (listed s)) \<and>
    (timely \<longrightarrow> announced (sv_events s) \<and> (\<forall>uid. creating s uid \<longrightarrow> uid \<in> set (listed s) \<and> \<not> u_closed (sv_heap s uid)))"

text \<open>Steps that leave the users the monitor knows, their descriptors and the callbacks as they are.\<close>

definition same_line :: "tcpsock_server \<Rightarrow> tcpsock_server \<Rightarrow> bool" where
  "same_line s s' \<longleftrightarrow> sv_events s' = sv_events s \<and> sv_next s' = sv_next s \<and> sv_creating s' = sv_creating s \<and>
    listed s' = listed s \<and> user_fd s' = user_fd s"

lemma same_line_trans: "same_line s s1 \<Longrightarrow> same_line s1 s2 \<Longrightarrow> same_line s s2"
  by (simp add: same_line_def)

lemma same_line_order:
  assumes "same_line s s'" and "\<And>uid. timely \<Longrightarrow> creating s uid \<Longrightarrow> u_closed (sv_heap s' uid) = u_closed (sv_heap s uid)"
  shows "callback_inv timely s \<Longrightarrow> callback_inv timely s'"
  using assms by (auto simp: same_line_def callback_inv_def creating_def)

lemma same_line_upd_user:
  "wc_fd (u_chan (f (sv_heap s uid))) = wc_fd (u_chan (sv_heap s uid)) \<Longrightarrow> same_line s (upd_user uid f s)"
  by (auto simp: same_line_def listed_def unlisted_def upd_user_def user_fd_def fun_eq_iff)

lemma same_line_closeUser: "same_line s (snd (closeUser fd s))"
  by (auto simp: closeUser_def same_line_def listed_def unlisted_def upd_user_def user_fd_def fun_eq_iff
      user_leaveMonitor_def user_setClose_def leaveMonitor_def split: option.split)

lemma same_line_fields:
  "same_line s (s\<lparr>sv_calls := c\<rparr>)" "same_line s (s\<lparr>sv_closedFds := d\<rparr>)"
  "same_line s (s\<lparr>sv_msgTyp2WkIdGrp := x, sv_recvQueues := y\<rparr>)" "same_line s (s\<lparr>sv_recvQueues := y\<rparr>)"
  by (simp_all add: same_line_def listed_def unlisted_def user_fd_def fun_eq_iff)

lemma same_line_dispatch: "dispatch_all ms uid s = Inr s' \<Longrightarrow> same_line s s'"
proof (induction ms arbitrary: s)
  case (Cons m ms)
  then obtain s1 where "dispatchMsg m uid s = Inr s1" "dispatch_all ms uid s1 = Inr s'"
    by (auto split: sum.splits)
  with Cons dispatchMsg_frame [of m uid s s1] show ?case
    by (metis same_line_trans same_line_fields(3))
qed (simp add: same_line_def)

lemma same_line_read:
  assumes "on_read al env fd s = Some (Inr s')"
  shows "same_line s s'"
proof -
  consider "s' = s" | "s' = snd (onIOError fd s)"
    | uid bs rc u where "user_onRecv al bs (sv_heap s uid) = Inr (rc, u)"
      "s' = snd (onIOError fd (upd_user uid (\<lambda>_. u) s)) \<or>
       (\<exists>r. user_recv_loop (io_now env) u = Some r \<and>
         dispatch_received uid (upd_user uid (\<lambda>_. u) s) r = Inr s')"
    using assms
    by (auto simp: on_read_def Let_def split: if_split_asm sum.split_asm option.split_asm prod.split_asm)
  then show ?thesis
  proof cases
    case (3 uid bs rc u)
    have u: "same_line s (upd_user uid (\<lambda>_. u) s)"
      using user_onRecv_frame [OF 3(1)] by (intro same_line_upd_user) simp
    from 3(2) show ?thesis
    proof (elim disjE exE conjE)
      fix r
      assume l: "user_recv_loop (io_now env) u = Some r"
        and dr: "dispatch_received uid (upd_user uid (\<lambda>_. u) s) r = Inr s'"
      then obtain ms u' where r: "r = Inr (ms, u')"
        and d: "dispatch_all ms uid (upd_user uid (\<lambda>_. u') (upd_user uid (\<lambda>_. u) s)) = Inr s'"
        by (cases r) (auto simp: dispatch_received_def)
      have "same_line (upd_user uid (\<lambda>_. u) s) (upd_user uid (\<lambda>_. u') (upd_user uid (\<lambda>_. u) s))"
        using user_recv_loop_frame [OF l r] by (intro same_line_upd_user) (simp add: upd_user_def)
      with u same_line_dispatch [OF d] same_line_trans show ?thesis by blast
    qed (use u same_line_closeUser same_line_trans in \<open>auto simp: onIOError_def\<close>)
  qed (simp_all add: onIOError_def same_line_closeUser, simp add: same_line_def)
qed

lemma same_line_write: "same_line s (on_write env fd s)"
proof (cases "findUser fd s")
  case (Some uid)
  obtain rc u calls w where r: "user_sendData (io_send env) (sv_heap s uid) = (rc, u, calls, w)"
    by (metis prod_cases4)
  then have "wc_fd (u_chan u) = wc_fd (u_chan (sv_heap s uid))"
    by (auto simp: user_sendData_def dest: sendData_fd split: prod.splits)
  then have "same_line s (upd_user uid (\<lambda>_. u) s)" by (rule same_line_upd_user)
  then have "same_line s ((upd_user uid (\<lambda>_. u) s)\<lparr>sv_calls := sv_calls s @ calls\<rparr>)"
    using same_line_fields(1) same_line_trans by blast
  with same_line_closeUser same_line_trans show ?thesis
    by (auto simp: on_write_def Some r Let_def onIOError_def)
qed (simp add: on_write_def same_line_def)

lemma alive_listed: "uid \<in> set (listed s) \<Longrightarrow> user_alive s uid"
  by (cases "sv_creating s") (auto simp: listed_def unlisted_def user_alive_def split: option.splits create_phase.splits)

lemma createUser_order:
  assumes "srv_inv s" and "callback_inv timely s" and "sv_creating s = None"
    and "fd_unused s fd"
  shows "callback_inv timely (snd (createUser al fd env s))"
proof (cases rule: createUser_cases [OF assms(1,4), of al env])
  case 1
  with assms(2) show ?thesis by simp
next
  case (2 u calls)
  let ?s = "snd (createUser al fd env s)"
  note s = 2(4)
  have l: "listed ?s = listed s @ [sv_next s]" using assms(3) by (simp add: s listed_def unlisted_def)
  have new: "sv_next s \<notin> set (listed s)" using assms(1) by (auto simp: srv_inv_def conn_inv_def)
  have c: "creating ?s uid = (uid = sv_next s)" "\<not> creating s uid" for uid
    using assms(3) by (auto simp: s creating_def)
  have fd: "user_fd ?s uid = (if uid = sv_next s then fd else user_fd s uid)" for uid
    using 2(2) by (simp add: s user_fd_def)
  have "inj_on (user_fd ?s) (set (listed s)) = inj_on (user_fd s) (set (listed s))"
    using new by (intro inj_on_cong) (auto simp: fd)
  moreover have "user_fd s uid \<noteq> fd" if "uid \<in> set (listed s)" for uid
    using assms(4) alive_listed [OF that] by (simp add: user_fd_def fd_unused_def)
  ultimately have "inj_on (user_fd ?s) (set (listed ?s))"
    using assms(2) new by (auto simp: l callback_inv_def fd)
  moreover have "sv_events ?s = sv_events s" "sv_next ?s = Suc (sv_next s)" "sv_heap ?s (sv_next s) = u"
    by (simp_all add: s)
  ultimately show ?thesis using assms(2) 2(1) by (auto simp: callback_inv_def c l less_Suc_eq)
qed

lemma announced_snoc: "announced (evs @ [e]) \<longleftrightarrow> announced evs \<and> (\<forall>uid. e = OnDisconnect uid \<longrightarrow> OnConnect uid \<in> set evs)"
proof
  assume a: "announced (evs @ [e])"
  then have "OnConnect uid \<in> set xs" if "evs = xs @ OnDisconnect uid # ys" for xs uid ys
    using that unfolding announced_def by (metis append_Cons append_assoc)
  with a show "announced evs \<and> (\<forall>uid. e = OnDisconnect uid \<longrightarrow> OnConnect uid \<in> set evs)"
    by (auto simp: announced_def)
next
  assume a: "announced evs \<and> (\<forall>uid. e = OnDisconnect uid \<longrightarrow> OnConnect uid \<in> set evs)"
  show "announced (evs @ [e])"
    unfolding announced_def
  proof (intro allI impI)
    fix xs uid ys
    assume "evs @ [e] = xs @ OnDisconnect uid # ys"
    with a show "OnConnect uid \<in> set xs"
      by (cases ys rule: rev_cases) (auto simp: announced_def)
  qed
qed

lemma createUser_next_order: "callback_inv timely s \<Longrightarrow> callback_inv timely (createUser_next s)"
proof (cases "sv_creating s")
  case (Some c)
  assume inv: "callback_inv timely s"
  obtain uid ph where c: "sv_creating s = Some (uid, ph)" using Some by (cases c) simp
  show ?thesis
  proof (cases ph)
    case Published
    then show ?thesis
      using inv c by (simp add: createUser_next_def callback_inv_def creating_def listed_def unlisted_def user_fd_def [abs_def])
  next
    case Listed
    have "user_fd (createUser_next s) = user_fd s" "u_closed (sv_heap (createUser_next s) v) = u_closed (sv_heap s v)"
        "listed (createUser_next s) = listed s" "creating (createUser_next s) = creating s" for v
      using c Listed by (auto simp: createUser_next_def user_fd_def upd_user_def user_setStart_def listed_def unlisted_def creating_def)
    moreover have "sv_events (createUser_next s) = sv_events s" "sv_next (createUser_next s) = sv_next s"
      using c Listed by (simp_all add: createUser_next_def upd_user_def)
    ultimately show ?thesis using inv by (simp add: callback_inv_def)
  next
    case Started
    have "listed (createUser_next s) = listed s" using c Started by (simp add: createUser_next_def listed_def unlisted_def)
    then show ?thesis
      using inv c Started by (auto simp: createUser_next_def callback_inv_def creating_def announced_snoc user_fd_def [abs_def])
  qed
qed (simp add: createUser_next_def)

lemma monitor_release_order:
  assumes "srv_inv s" and "callback_inv timely s" and "sv_held s = Some uid"
  shows "callback_inv timely (if u_closed (sv_heap s uid)
    then s\<lparr>sv_held := None, sv_events := sv_events s @ [OnDisconnect uid]\<rparr>
    else pushUserBack uid (s\<lparr>sv_held := None\<rparr>))"
proof (cases "u_closed (sv_heap s uid)")
  case True
  let ?s = "s\<lparr>sv_held := None, sv_events := sv_events s @ [OnDisconnect uid]\<rparr>"
  have l: "listed s = uid # listed ?s" using assms(3) by (simp add: listed_def unlisted_def)
  have c: "creating ?s = creating s" "user_fd ?s = user_fd s" by (auto simp: creating_def user_fd_def)
  have "OnConnect uid \<in> set (sv_events s)" if timely
  proof (rule ccontr)
    assume "OnConnect uid \<notin> set (sv_events s)"
    then have "count_list (sv_events s) (OnConnect uid) = 0" by simp
    with assms(2) have "\<not> (uid < sv_next s \<and> \<not> creating s uid)"
      unfolding callback_inv_def by (metis one_neq_zero)
    with conn_invE(3) [OF assms(1), of uid] l have "creating s uid" by simp
    with that True assms(2) show False by (simp add: callback_inv_def)
  qed
  moreover have "inj_on (user_fd s) (set (listed ?s))"
    using assms(2) unfolding callback_inv_def l by simp
  moreover have "v \<in> set (listed ?s) \<and> \<not> u_closed (sv_heap s v)" if timely "creating s v" for v
    using assms(2) that True l by (auto simp: callback_inv_def)
  ultimately have "callback_inv timely ?s"
    using assms(2) by (simp add: callback_inv_def c announced_snoc)
  with True show ?thesis by simp
next
  case False
  let ?s = "pushUserBack uid (s\<lparr>sv_held := None\<rparr>)"
  have "set (listed ?s) = set (listed s)" "creating ?s = creating s" "user_fd ?s = user_fd s"
    using assms(3) by (auto simp: listed_def unlisted_def creating_def user_fd_def pushUserBack_def)
  then show ?thesis using False assms(2) by (simp add: callback_inv_def pushUserBack_def)
qed

lemma monitor_finish_order:
  assumes "srv_inv s" and "callback_inv timely s"
    and "\<And>uid ph. timely \<Longrightarrow> sv_held s = Some uid \<Longrightarrow> sv_creating s = Some (uid, ph) \<Longrightarrow> \<not> user_isExpired now (sv_heap s uid)"
  shows "callback_inv timely (monitor_finish now s)"
proof (cases "sv_held s")
  case (Some uid)
  let ?cl = "snd (closeUser (user_fd s uid) s)"
  let ?s1 = "if user_isExpired now (sv_heap s uid) then ?cl else s"
  have "u_closed (sv_heap ?cl v) = u_closed (sv_heap s v)"
    if "timely" "creating s v" and x: "user_isExpired now (sv_heap s uid)" for v
  proof -
    have v: "v \<in> set (listed s)" using assms(2) that(1,2) by (simp add: callback_inv_def)
    have "v \<noteq> uid" using assms(3) [OF that(1) Some] that(2) x by (auto simp: creating_def)
    moreover have "uid \<in> set (listed s)" using Some by (simp add: listed_def)
    ultimately have "user_fd s v \<noteq> user_fd s uid"
      using v assms(2) by (auto simp: callback_inv_def dest: inj_onD)
    then have "map_of (sv_fd2user s) (user_fd s uid) \<noteq> Some v"
      using conn_invD(2) [OF assms(1) map_of_SomeD] by (fastforce simp: user_fd_def)
    then show ?thesis by (auto simp: closeUser_def upd_user_def split: option.split)
  qed
  then have "callback_inv timely ?s1"
    using assms(2) same_line_order [OF same_line_closeUser] by (cases "user_isExpired now (sv_heap s uid)") auto
  moreover have "srv_inv ?s1" using assms(1) closeUser_inv by simp
  moreover have "sv_held ?s1 = Some uid" using Some by simp
  moreover have "monitor_finish now s = (if u_closed (sv_heap ?s1 uid)
      then ?s1\<lparr>sv_held := None, sv_events := sv_events ?s1 @ [OnDisconnect uid]\<rparr>
      else pushUserBack uid (?s1\<lparr>sv_held := None\<rparr>))"
    unfolding monitor_finish_def Some Let_def user_isClosed_def user_fd_def by simp
  ultimately show ?thesis by (simp only: monitor_release_order)
qed (simp add: monitor_finish_def assms(2))

lemma worker_step_order: "worker_step i s = Some (Inr s') \<Longrightarrow> callback_inv timely s \<Longrightarrow> callback_inv timely s'"
  by (auto simp: worker_step_def Let_def callback_inv_def creating_def listed_def unlisted_def user_fd_def [abs_def] announced_snoc
      split: if_splits option.splits prod.splits SQ_PopCode.splits)

lemma handle_event_order:
  assumes "handle_event al env ev s = Some (Inr s')" and "srv_inv s" and "callback_inv timely s" and "sv_creating s = None"
    and "fd_unused s (io_accept env)"
  shows "callback_inv timely s'"
proof -
  note keep = same_line_order [OF _ _ assms(3)]
  have nc: "\<not> creating s uid" for uid using assms(4) by (simp add: creating_def)
  have closed: "callback_inv timely (s2\<lparr>sv_closedFds := d\<rparr>) = callback_inv timely s2" for s2 d
    by (simp add: callback_inv_def creating_def listed_def unlisted_def user_fd_def [abs_def])
  have "callback_inv timely (on_listen_event al env ev s)"
    using assms(3) createUser_order [OF assms(2,3,4,5), of al env]
    by (auto simp: on_listen_event_def Let_def closed split: prod.splits option.splits)
  moreover have "callback_inv timely s2" if "same_line s s2" for s2
    using that nc by (intro keep) auto
  ultimately show ?thesis
    using assms(1,3) same_line_read same_line_write same_line_closeUser
    by (fastforce simp: handle_event_def onIOError_def split: if_splits)
qed

lemma srv_step_order: "srv_step al timely s s' \<Longrightarrow> srv_inv s \<Longrightarrow> callback_inv timely s \<Longrightarrow> callback_inv timely s'"
proof (induction rule: srv_step.induct)
  case (sv_take s)
  then have "same_line s (monitor_take s)" "sv_heap (monitor_take s) = sv_heap s"
    by (simp_all add: same_line_def listed_take) (auto simp: monitor_take_def popFrontUser_def user_fd_def fun_eq_iff split: list.split)
  with sv_take show ?case by (auto intro: same_line_order)
next
  case (sv_post s uid m)
  have "wc_fd (u_chan (fst (snd (user_post m u)))) = wc_fd (u_chan u)" "u_closed (fst (snd (user_post m u))) = u_closed u" for u
    by (auto simp: user_post_def split: prod.splits dest: post_fd)
  with sv_post show ?case
    by (intro same_line_order [OF same_line_upd_user]) (auto simp: upd_user_def)
next
  case (sv_stop s s')
  then show ?case
    by (auto simp: server_stop_def Let_def callback_inv_def creating_def listed_def unlisted_def user_fd_def [abs_def] split: if_splits)
qed (blast intro: handle_event_order createUser_next_order monitor_finish_order worker_step_order)+

lemma srv_reach_order: "srv_reach al timely s \<Longrightarrow> callback_inv timely s"
proof (induction rule: srv_reach.induct)
  case (sv_init es mc p heap cnt s n lanes s')
  with started_empty [OF sv_init] show ?case
    by (simp add: callback_inv_def creating_def announced_def listed_def unlisted_def)
next
  case (sv_more s s')
  then show ?case by (blast intro: srv_step_order srv_reach_inv)
qed

section \<open>Lanes\<close>

definition worker_ok :: "tcpsock_server \<Rightarrow> int \<Rightarrow> bool" where
  "worker_ok s w \<longleftrightarrow> 0 \<le> workerIndex w \<and> nat (workerIndex w) < length (sv_recvQueues s) \<and>
    sv_recvQueues s ! nat (workerIndex w) \<noteq> None"

definition group_ok :: "(int \<Rightarrow> bool) \<Rightarrow> WorkerIdGroup \<Rightarrow> bool" where
  "group_ok ok g \<longleftrightarrow> grp_cursor g < length (grp_workerIds g) \<and> (\<forall>w \<in> set (grp_workerIds g). ok w)"

definition lanes_ok :: "tcpsock_server \<Rightarrow> bool" where
  "lanes_ok s \<longleftrightarrow> map_of (sv_msgTyp2WkIdGrp s) DefaultMsgType \<noteq> None \<and>
    (\<forall>t g. map_of (sv_msgTyp2WkIdGrp s) t = Some g \<longrightarrow> group_ok (worker_ok s) g)"

text \<open>The lane a message is sent down, and the group that serves it.\<close>

definition lane_of :: "tcpsock_server \<Rightarrow> tcp_message \<Rightarrow> u32" where
  "lane_of s m = (let t = msg_type (sv_protocol s) (Some m) in
     if map_of (sv_msgTyp2WkIdGrp s) t = None then DefaultMsgType else t)"

lemma lanes_okE:
  assumes "lanes_ok s"
  obtains g where "map_of (sv_msgTyp2WkIdGrp s) (lane_of s m) = Some g" "group_ok (worker_ok s) g"
proof -
  have "map_of (sv_msgTyp2WkIdGrp s) (lane_of s m) \<noteq> None"
    using assms by (auto simp: lanes_ok_def lane_of_def Let_def)
  with assms that show ?thesis by (auto simp: lanes_ok_def)
qed

definition dispatched :: "tcp_message \<Rightarrow> nat \<Rightarrow> WorkerIdGroup \<Rightarrow> tcpsock_server \<Rightarrow> tcpsock_server" where
  "dispatched m uid g s =
    (let i = nat (workerIndex (grp_workerIds g ! grp_cursor g)) in
     s\<lparr>sv_msgTyp2WkIdGrp := AList.update (lane_of s m)
          (g\<lparr>grp_cursor := Suc (grp_cursor g) mod length (grp_workerIds g)\<rparr>) (sv_msgTyp2WkIdGrp s),
       sv_recvQueues := (sv_recvQueues s)[i := Some (fst (snd
         (sq_push server_MaxPendingMsg True \<lparr>ptr_msg = m, ptr_user = uid\<rparr> (the (sv_recvQueues s ! i)))))]\<rparr>)"

lemma dispatchMsg_ok:
  assumes "map_of (sv_msgTyp2WkIdGrp s) (lane_of s m) = Some g" and "group_ok (worker_ok s) g"
  shows "dispatchMsg m uid s = Inr (dispatched m uid g s)"
proof -
  let ?w = "grp_workerIds g ! grp_cursor g"
  have c: "grp_cursor g < length (grp_workerIds g)" using assms(2) by (simp add: group_ok_def)
  then have "worker_ok s ?w" using assms(2) by (simp add: group_ok_def)
  then have w: "0 \<le> workerIndex ?w" "workerIndex ?w < int (length (sv_recvQueues s))"
      "sv_recvQueues s ! nat (workerIndex ?w) \<noteq> None"
    by (auto simp: worker_ok_def nat_less_iff)
  have "Suc (grp_cursor g) mod length (grp_workerIds g) =
      (if Suc (grp_cursor g) = length (grp_workerIds g) then 0 else Suc (grp_cursor g))"
    using c by simp
  with assms(1) w c show ?thesis
    by (auto simp: dispatchMsg_def dispatched_def lane_of_def Let_def split: option.split)
qed

lemma worker_ok_dispatched: "worker_ok s w \<Longrightarrow> worker_ok (dispatched m uid g s) w"
  by (cases "nat (workerIndex w) = nat (workerIndex (grp_workerIds g ! grp_cursor g))")
    (auto simp: worker_ok_def dispatched_def Let_def)

lemma lanes_ok_dispatched:
  assumes "lanes_ok s" and "group_ok (worker_ok s) g"
  shows "lanes_ok (dispatched m uid g s)"
proof -
  have "length (grp_workerIds g) > 0" using assms(2) by (auto simp: group_ok_def)
  then have g: "group_ok (worker_ok (dispatched m uid g s))
      (g\<lparr>grp_cursor := Suc (grp_cursor g) mod length (grp_workerIds g)\<rparr>)"
    using assms(2) worker_ok_dispatched by (auto simp: group_ok_def)
  have "group_ok (worker_ok (dispatched m uid g s)) g'" if "map_of (sv_msgTyp2WkIdGrp s) t = Some g'" for t g'
    using assms(1) that worker_ok_dispatched by (fastforce simp: lanes_ok_def group_ok_def)
  with g assms(1) show ?thesis
    by (auto simp: lanes_ok_def dispatched_def Let_def AList.update_conv')
qed

lemma unat_totalNeed:
  "unat t + sum_list (map (\<lambda>l. unat (lane_threads l)) lanes) < 2 ^ 32 \<Longrightarrow>
   unat (foldl (\<lambda>t l. t + ucast (lane_threads l)) t lanes) = unat (t :: u32) + sum_list (map (\<lambda>l. unat (lane_threads l)) lanes)"
proof (induction lanes arbitrary: t)
  case (Cons l lanes)
  have "unat (ucast (lane_threads l) :: u32) = unat (lane_threads l)"
    using Cons.prems by (intro unat_ucast_small) simp
  then have "unat (t + ucast (lane_threads l)) = unat t + unat (lane_threads l)"
    using Cons.prems by (subst unat_plus_if') simp
  with Cons show ?case by simp
qed simp

lemma set_types_map:
  "map_of (set_types ts g m) t = (if t \<in> set ts then Some g else map_of m t)"
proof (induction ts arbitrary: m)
  case (Cons a ts)
  then show ?case by (auto simp: set_types_def AList.update_conv')
qed (simp add: set_types_def)

lemma config_lanes_ok:
  assumes "pos + sum_list (map (\<lambda>l. unat (lane_threads l)) lanes) \<le> length ids"
    and "\<forall>t g. map_of m t = Some g \<longrightarrow> group_ok ok g" and "\<forall>w \<in> set ids. ok w"
  shows "\<exists>pos' m'. config_lanes ids lanes pos m = Inr (pos', m') \<and>
    pos' \<le> pos + sum_list (map (\<lambda>l. unat (lane_threads l)) lanes) \<and>
    (\<forall>t g. map_of m' t = Some g \<longrightarrow> group_ok ok g)"
  using assms
proof (induction lanes arbitrary: pos m)
  case (Cons l lanes)
  let ?n = "unat (lane_threads l)"
  let ?g = "\<lparr>grp_workerIds = take ?n (drop pos ids), grp_cursor = 0\<rparr>"
  show ?case
  proof (cases "lane_msgTypes l = [] \<or> lane_threads l = 0")
    case True
    with Cons.IH [of pos m] Cons.prems show ?thesis by fastforce
  next
    case False
    then have "0 < ?n" by (simp add: unat_gt_0)
    moreover have "pos + ?n \<le> length ids" using Cons.prems(1) by simp
    ultimately have "group_ok ok ?g"
      using Cons.prems(3) by (auto simp: group_ok_def dest: in_set_takeD in_set_dropD)
    then have "\<forall>t g. map_of (set_types (lane_msgTypes l) ?g m) t = Some g \<longrightarrow> group_ok ok g"
      using Cons.prems(2) by (simp add: set_types_map)
    then obtain pos' m' where
      "config_lanes ids lanes (pos + ?n) (set_types (lane_msgTypes l) ?g m) = Inr (pos', m')"
      "pos' \<le> pos + ?n + sum_list (map (\<lambda>l. unat (lane_threads l)) lanes)"
      "\<forall>t g. map_of m' t = Some g \<longrightarrow> group_ok ok g"
      using Cons.IH [OF _ _ Cons.prems(3), of "pos + ?n" "set_types (lane_msgTypes l) ?g m"] Cons.prems(1)
      by auto
    with False Cons.prems(1) show ?thesis by (simp add: Let_def not_less)
  qed
qed simp

lemma configSwimlanes_ok:
  assumes "sum_list (map (\<lambda>l. unat (lane_threads l)) lanes) < 2 ^ 31"
    and "sv_workerIds s \<noteq> []" and "length (sv_workerIds s) < 2 ^ 31" and "\<forall>w \<in> set (sv_workerIds s). worker_ok s w"
  shows "\<exists>s'. configSwimlanes lanes s = Inr s' \<and> lanes_ok s'"
proof -
  let ?ids = "sv_workerIds s" and ?sum = "sum_list (map (\<lambda>l. unat (lane_threads l)) lanes)"
  have ok: "worker_ok (s\<lparr>sv_msgTyp2WkIdGrp := x\<rparr>) = worker_ok s" for x
    by (intro ext) (simp add: worker_ok_def)
  have fin: "lanes_ok (s\<lparr>sv_msgTyp2WkIdGrp := AList.update DefaultMsgType
      \<lparr>grp_workerIds = drop pos ?ids, grp_cursor = 0\<rparr> m\<rparr>)"
    if "pos < length ?ids" "\<forall>t g. map_of m t = Some g \<longrightarrow> group_ok (worker_ok s) g" for pos m
  proof -
    have "group_ok (worker_ok s) \<lparr>grp_workerIds = drop pos ?ids, grp_cursor = 0\<rparr>"
      using that(1) assms(4) by (auto simp: group_ok_def dest: in_set_dropD)
    with that(2) show ?thesis by (simp add: lanes_ok_def ok AList.update_conv')
  qed
  show ?thesis
  proof (cases "(scast (totalNeed lanes) :: u64) \<ge> of_nat (length ?ids)")
    case True
    with fin [of 0 "[]"] assms(2) show ?thesis by (simp add: configSwimlanes_def)
  next
    case False
    have t: "unat (totalNeed lanes) = ?sum"
      using unat_totalNeed [of 0 lanes] assms(1) by (simp add: totalNeed_def)
    then have "0 \<le> sint (totalNeed lanes)" using assms(1) by (intro sint_u32_nonneg) simp
    moreover have "?sum < length ?ids"
    proof -
      have "unat (scast (totalNeed lanes) :: u64) = ?sum"
        using scast_nonneg [of "totalNeed lanes"] assms(1) t by simp
      moreover have "unat (of_nat (length ?ids) :: u64) = length ?ids"
        using assms(3) by (simp add: unat_of_nat)
      ultimately show ?thesis using False by (simp add: word_le_nat_alt not_le)
    qed
    ultimately obtain pos m where "config_lanes ?ids lanes 0 [] = Inr (pos, m)" "pos < length ?ids"
        "\<forall>t g. map_of m t = Some g \<longrightarrow> group_ok (worker_ok s) g"
      using config_lanes_ok [of 0 lanes ?ids "[]" "worker_ok s"] assms(4) by fastforce
    with False fin show ?thesis by (simp add: configSwimlanes_def)
  qed
qed

lemma server_start_ok:
  assumes "sum_list (map (\<lambda>l. unat (lane_threads l)) lanes) < 2 ^ 31" and "sv_workerIds s = []"
  shows "\<exists>s'. server_start n lanes s = Inr s' \<and> lanes_ok s'"
proof -
  let ?k = "clamp_workers n"
  let ?s = "s\<lparr>sv_shutdown := False, sv_workerIds := map (\<lambda>i. workerId (int i)) [1..<Suc ?k],
    sv_recvQueues := replicate ?k (Some sq_new) @ drop ?k (sv_recvQueues s)\<rparr>"
  have k: "2 \<le> ?k" "?k \<le> 64" by (auto simp: clamp_workers_def)
  have "worker_ok ?s (workerId (int i))" if "1 \<le> i" "i \<le> ?k" for i
  proof -
    have i: "nat (workerIndex (workerId (int i))) < ?k" "0 \<le> workerIndex (workerId (int i))"
      using that by (simp_all add: workerIndex_def workerId_def nat_less_iff)
    then show ?thesis by (simp add: worker_ok_def nth_append)
  qed
  then have "\<forall>w \<in> set (sv_workerIds ?s). worker_ok ?s w" by auto
  with configSwimlanes_ok [OF assms(1), of ?s] k assms(2) show ?thesis
    by (simp add: server_start_def Let_def)
qed

section \<open>Properties\<close>

text \<open>A server that listens on descriptor 5 and accepts one connection, descriptor 7.\<close>

definition sv_sample_alloc :: allocator where
  "sv_sample_alloc = \<lparr>alloc_ok = \<lambda>_. True, fresh = \<lambda>_. 0\<rparr>"

definition sv_sample_open :: open_env where
  "sv_sample_open = \<lparr>oe_addrinfo = True, oe_socket = 5, oe_reuseaddr = 0, oe_reuseport = 0, oe_bind = 0, oe_listen = 0,
     oe_spcreate = 4, oe_spadd_ok = True\<rparr>"

definition sv_sample_env :: io_env where
  "sv_sample_env = \<lparr>io_accept = 7, io_peer = Some ([1], 80), io_spadd_ok = True, io_recv = Inr [], io_send = Inr 0, io_now = 5\<rparr>"

lemma sv_sample_started:
  obtains s where "srv_reach sv_sample_alloc timely s" "sv_listenFds s = [5]" "sv_fd2user s = []" "sv_users s = []"
    "sv_held s = None" "sv_creating s = None" "sv_events s = []" "sv_next s = 0" "sv_maxConnections s = 10"
proof -
  let ?s = "setMaxConnections 10 (server_new lymsg_protocol (\<lambda>_. user_new sv_sample_alloc))"
  let ?o = "snd (server_open_all [sv_sample_open] ?s)"
  have o: "server_open_all [sv_sample_open] ?s = (1, ?o)" "sv_workerIds ?o = []" "sv_listenFds ?o = [5]" "sv_maxConnections ?o = 10"
    by (simp_all add: server_open_def open_rc_def sv_sample_open_def setMaxConnections_def server_new_def INVALID_SOCK_def Let_def)
  obtain s' where s': "server_start 2 [] ?o = Inr s'"
    using server_start_ok [of "[]" ?o 2] o(2) by auto
  have "sv_listenFds s' = [5] \<and> sv_maxConnections s' = 10"
    using server_start_frame [OF s'] o(3,4) by (auto simp: same_tables_def)
  with that [OF sv_init [OF o(1) s']] started_empty [OF o(1) s'] show ?thesis by simp
qed

text \<open>The new user right after its insertion into the descriptor table.\<close>

lemma sv_sample_published:
  obtains s where "srv_reach sv_sample_alloc timely s" "sv_listenFds s = [5]" "sv_fd2user s = [(7, 0)]" "sv_users s = []"
    "sv_held s = None" "sv_creating s = Some (0, Published)" "sv_events s = []" "\<not> u_closed (sv_heap s 0)"
    "wc_fd (u_chan (sv_heap s 0)) = 7" "u_hbhelper (sv_heap s 0) = hb_update 5 (heartbeat_new UserTimeout)"
proof -
  obtain s where s: "srv_reach sv_sample_alloc timely s" "sv_listenFds s = [5]" "sv_fd2user s = []" "sv_users s = []"
    "sv_held s = None" "sv_creating s = None" "sv_events s = []" "sv_next s = 0" "sv_maxConnections s = 10"
    by (rule sv_sample_started)
  let ?ev = "\<lparr>ev_fd = 5, ev_read = True, ev_write = False, ev_error = False, ev_eof = False\<rparr>"
  let ?s = "snd (createUser sv_sample_alloc 7 sv_sample_env s)"
  have "handle_event sv_sample_alloc sv_sample_env ?ev s = Some (Inr ?s)"
    using s by (simp add: handle_event_def on_listen_event_def currentConnections_def sv_sample_env_def Let_def createUser_def
        split: prod.split)
  moreover have "fd_unused s (io_accept sv_sample_env)" using s by (simp add: user_alive_def fd_unused_def)
  ultimately have "srv_reach sv_sample_alloc timely ?s" using s by (blast intro: sv_more sv_io)
  with that [of ?s] s show ?thesis
    by (simp add: createUser_def sv_sample_env_def user_init_def user_new_def user_joinMonitor_def joinMonitor_def
        enableWrite_def user_setProtocol_def Let_def INVALID_SOCK_def)
qed

lemma sv_sample_connected:
  obtains s where "srv_reach sv_sample_alloc timely s" "sv_listenFds s = [5]" "sv_fd2user s = [(7, 0)]" "sv_users s = [0]"
    "sv_held s = None" "sv_creating s = None" "sv_events s = [OnConnect 0]" "\<not> u_closed (sv_heap s 0)"
    "wc_fd (u_chan (sv_heap s 0)) = 7"
proof -
  obtain s where s: "srv_reach sv_sample_alloc timely s" "sv_listenFds s = [5]" "sv_fd2user s = [(7, 0)]" "sv_users s = []"
    "sv_held s = None" "sv_creating s = Some (0, Published)" "sv_events s = []" "\<not> u_closed (sv_heap s 0)"
    "wc_fd (u_chan (sv_heap s 0)) = 7"
    by (rule sv_sample_published)
  let ?s = "createUser_next (createUser_next (createUser_next s))"
  have "srv_reach sv_sample_alloc timely ?s" using s(1) by (intro sv_more [OF _ sv_create])
  with that [of ?s] s show ?thesis by (simp add: createUser_next_def upd_user_def user_setStart_def)
qed

text \<open>C5: in every state the threads of a server can reach after it has opened any number of ports and
  started, whatever clients and kernel do: each entry of the descriptor table is an open user with that
  descriptor that the monitor watches or that createUser is about to hand to it; every such user that is
  not closed is in the table; no descriptor occurs twice; and the table never exceeds the connection
  limit.\<close>

theorem server_table_consistent:
  assumes "srv_reach al timely s"
  shows "distinct (map fst (sv_fd2user s)) \<and> length (sv_fd2user s) \<le> nat (sv_maxConnections s) \<and>
    (\<forall>fd uid. (fd, uid) \<in> set (sv_fd2user s) =
      (uid \<in> set (listed s) \<and> \<not> u_closed (sv_heap s uid) \<and> wc_fd (u_chan (sv_heap s uid)) = fd))"
  using srv_reach_inv [OF assms] by (auto simp: srv_inv_def conn_inv_def limit_inv_def)

theorem server_table_consistent_witness:
  "\<exists>s. srv_reach sv_sample_alloc True s \<and> sv_fd2user s = [(7, 0)] \<and> sv_events s = [OnConnect 0] \<and>
    length (sv_fd2user s) \<le> nat (sv_maxConnections s) \<and> 0 \<in> set (listed s) \<and> \<not> u_closed (sv_heap s 0)"
proof -
  obtain s where s: "srv_reach sv_sample_alloc True s" "sv_fd2user s = [(7, 0)]" "sv_events s = [OnConnect 0]"
    using sv_sample_connected by blast
  have "0 \<in> set (listed s) \<and> \<not> u_closed (sv_heap s 0)" "length (sv_fd2user s) \<le> nat (sv_maxConnections s)"
    using server_table_consistent [OF s(1)] s(2) by auto
  with s show ?thesis by blast
qed



text \<open>Without that provision the order can be lost: createUser shows the user to the monitor before it
  calls onConnect, and a user that times out in between is disconnected first.\<close>

theorem disconnect_before_connect:
  "\<exists>s. srv_reach sv_sample_alloc False s \<and> sv_events s = [OnDisconnect 0, OnConnect 0]"
proof -
  obtain s where s: "srv_reach sv_sample_alloc False s" "sv_listenFds s = [5]" "sv_fd2user s = [(7, 0)]" "sv_users s = []"
    "sv_held s = None" "sv_creating s = Some (0, Published)" "sv_events s = []" "\<not> u_closed (sv_heap s 0)"
    "wc_fd (u_chan (sv_heap s 0)) = 7" "u_hbhelper (sv_heap s 0) = hb_update 5 (heartbeat_new UserTimeout)"
    by (rule sv_sample_published)
  let ?t = "monitor_take (createUser_next s)"
  let ?m = "monitor_finish 1000 ?t"
  have held: "sv_held (createUser_next s) = None" using s by (simp add: createUser_next_def)
  have "srv_reach sv_sample_alloc False ?t" by (intro sv_more [OF _ sv_take [OF held]] sv_more [OF s(1) sv_create])
  then have "srv_reach sv_sample_alloc False (createUser_next (createUser_next ?m))"
    by (intro sv_more [OF _ sv_create] sv_more [OF _ sv_finish]) simp_all
  moreover have "sv_events (createUser_next (createUser_next ?m)) = [OnDisconnect 0, OnConnect 0]"
    using s by (simp add: createUser_next_def monitor_take_def popFrontUser_def monitor_finish_def user_isExpired_def
        hb_isExceed_def hb_update_def heartbeat_new_def UserTimeout_def closeUser_def user_isClosed_def upd_user_def
        user_leaveMonitor_def user_setClose_def)
  ultimately show ?thesis by blast
qed

text \<open>starting a new server with any lanes whose thread counts add up to less than 2^31 succeeds and
  leaves every lane, the default one included, with at least one worker whose queue exists; asking for
  more threads than there are workers falls back to the default lane.\<close>

theorem server_start_lanes:
  assumes "sum_list (map (\<lambda>l. unat (lane_threads l)) lanes) < 2 ^ 31"
  shows "\<exists>s'. server_start n lanes (server_new p heap) = Inr s' \<and> lanes_ok s'"
  by (rule server_start_ok [OF assms]) (simp add: server_new_def)

theorem server_start_lanes_witness:
  "\<exists>s'. server_start 4 [\<lparr>lane_msgTypes = [0x21], lane_threads = 2\<rparr>]
      (server_new lymsg_protocol (\<lambda>_. user_new \<lparr>alloc_ok = \<lambda>_. True, fresh = \<lambda>_. 0\<rparr>)) = Inr s' \<and> lanes_ok s'"
  by (rule server_start_lanes) simp

text \<open>with configured lanes a message is always dispatched without a fault: it is offered to the
  queue of the worker under the cursor of its lane, the cursor moves on cyclically, and the lanes stay
  well-formed.\<close>

theorem dispatch_round_robin:
  assumes "lanes_ok s"
  shows "\<exists>g. map_of (sv_msgTyp2WkIdGrp s) (lane_of s m) = Some g \<and> grp_cursor g < length (grp_workerIds g) \<and>
    dispatchMsg m uid s = Inr (dispatched m uid g s) \<and> lanes_ok (dispatched m uid g s) \<and>
    map_of (sv_msgTyp2WkIdGrp (dispatched m uid g s)) (lane_of s m) =
      Some (g\<lparr>grp_cursor := Suc (grp_cursor g) mod length (grp_workerIds g)\<rparr>)"
proof -
  obtain g where g: "map_of (sv_msgTyp2WkIdGrp s) (lane_of s m) = Some g" "group_ok (worker_ok s) g"
    using assms by (rule lanes_okE)
  then have "grp_cursor g < length (grp_workerIds g)" by (simp add: group_ok_def)
  with g dispatchMsg_ok [OF g] lanes_ok_dispatched [OF assms g(2)] show ?thesis
    by (simp add: dispatched_def Let_def AList.update_conv')
qed

theorem dispatch_round_robin_witness:
  "\<exists>s g. lanes_ok s \<and> dispatchMsg \<lparr>msg_data = []\<rparr> 0 s = Inr (dispatched \<lparr>msg_data = []\<rparr> 0 g s)"
proof -
  let ?s = "server_new lymsg_protocol (\<lambda>_. user_new \<lparr>alloc_ok = \<lambda>_. True, fresh = \<lambda>_. 0\<rparr>)"
  obtain s' where "lanes_ok s'"
    using server_start_ok [of "[]" ?s 2] by (auto simp: server_new_def)
  with dispatch_round_robin [OF this, of "\<lparr>msg_data = []\<rparr>" 0] show ?thesis by blast
qed

text \<open>until the lanes are configured every dispatch indexes an empty vector: a message that the I/O
  thread reads between its start and configSwimlanes leaves the bounds of the worker list.\<close>

theorem dispatch_before_lanes:
  "dispatchMsg m uid (server_new p heap) = Inl OutOfBounds"
  by (simp add: dispatchMsg_def server_new_def Let_def)

end
