(* ===== verification/AsyncClient.thy ===== *)
theory AsyncClient
  imports TcpClient TcpServer
begin

text \<open>
  The asynchronous clients of \<^verbatim>\<open>src/zbf/socket_tcp_v5.hpp\<close>: \<^verbatim>\<open>tcpsock_asynclt\<close> (a client with a write
  channel and a receive cache), \<^verbatim>\<open>tcpsock_ha_asynclt\<close> (several of them with a cursor) and the manager
  with its I/O, monitor and worker threads.  Objects live in the manager's store; \<open>am_monitorColl\<close> and
  \<open>am_fd2client\<close> are the two references the manager keeps to a client it polls.
\<close>

record tcpsock_asynclt =
  ac_client :: tcpsock_client
  ac_chan :: wchan
  ac_recvCache :: memchunk
  ac_ha :: "nat option"

definition asynclt_new :: "allocator \<Rightarrow> nat option \<Rightarrow> bytes \<Rightarrow> u16 \<Rightarrow> u64 \<Rightarrow> bytes \<Rightarrow> tcpsock_asynclt" where
  "asynclt_new al ha addr port seq owner = \<lparr>
     ac_client = client_new addr port seq owner,
     ac_chan = \<lparr>wc_fd = INVALID_SOCK, wc_efd = INVALID_SOCK, wrQueue = [], enableWrite_flag = False\<rparr>,
     ac_recvCache = memchunk_new al user_BufferSize, ac_ha = ha\<rparr>"

text \<open>The inherited methods act on the client part; the channel reads the same descriptor.\<close>

definition sync_fd :: "tcpsock_asynclt \<Rightarrow> tcpsock_asynclt" where
  "sync_fd a = a\<lparr>ac_chan := (ac_chan a)\<lparr>wc_fd := cl_fd (ac_client a)\<rparr>\<rparr>"

definition asynclt_connect :: "conn_env \<Rightarrow> tcpsock_asynclt \<Rightarrow> int \<times> tcpsock_asynclt" where
  "asynclt_connect e a =
    (case client_connect e (ac_client a) of (rc, c, _) \<Rightarrow> (rc, sync_fd (a\<lparr>ac_client := c\<rparr>)))"

definition asynclt_disconnect :: "tcpsock_asynclt \<Rightarrow> tcpsock_asynclt \<times> int list" where
  "asynclt_disconnect a =
    (case client_disconnect (ac_client a) of (c, fds) \<Rightarrow> (sync_fd (a\<lparr>ac_client := c\<rparr>), fds))"

definition asynclt_post :: "tcp_message \<Rightarrow> tcpsock_asynclt \<Rightarrow> int \<times> tcpsock_asynclt \<times> poll_call list" where
  "asynclt_post msg a = (case post msg (ac_chan a) of (rc, c, calls) \<Rightarrow> (rc, a\<lparr>ac_chan := c\<rparr>, calls))"

definition asynclt_joinMonitor :: "int \<Rightarrow> tcpsock_asynclt \<Rightarrow> tcpsock_asynclt \<times> poll_call list" where
  "asynclt_joinMonitor efd a = (case joinMonitor efd (ac_chan a) of (c, calls) \<Rightarrow> (a\<lparr>ac_chan := c\<rparr>, calls))"

definition asynclt_leaveMonitor :: "tcpsock_asynclt \<Rightarrow> tcpsock_asynclt" where
  "asynclt_leaveMonitor a = a\<lparr>ac_chan := leaveMonitor (ac_chan a)\<rparr>"

definition asynclt_enableWrite :: "bool \<Rightarrow> tcpsock_asynclt \<Rightarrow> tcpsock_asynclt \<times> poll_call list" where
  "asynclt_enableWrite b a = (case enableWrite b (ac_chan a) of (c, calls) \<Rightarrow> (a\<lparr>ac_chan := c\<rparr>, calls))"

definition asynclt_sendData ::
  "int \<Rightarrow> errno + nat \<Rightarrow> tcpsock_asynclt \<Rightarrow> send_code \<times> tcpsock_asynclt \<times> poll_call list \<times> bytes" where
  "asynclt_sendData now r a =
    (case sendData (client_isClosed (ac_client a)) r (ac_chan a) of (rc, c, calls, w) \<Rightarrow>
       (rc, a\<lparr>ac_chan := c, ac_client := if rc = SEND_SUCCESS then client_flushAlive now (ac_client a) else ac_client a\<rparr>,
        calls, w))"

definition asynclt_onRecv :: "allocator \<Rightarrow> bytes \<Rightarrow> tcpsock_asynclt \<Rightarrow> memerr + int \<times> tcpsock_asynclt" where
  "asynclt_onRecv al bs a =
    (if client_isClosed (ac_client a) then Inr (1, a)
     else (case cache_onRecv al bs (ac_recvCache a) of
       Inl e \<Rightarrow> Inl e | Inr (rc, c) \<Rightarrow> Inr (rc, a\<lparr>ac_recvCache := c\<rparr>)))"

definition asynclt_getRecvMsg ::
  "tcp_message_protocol option \<Rightarrow> tcpsock_asynclt \<Rightarrow> memerr + tcp_message option \<times> tcpsock_asynclt" where
  "asynclt_getRecvMsg p a =
    (if client_isClosed (ac_client a) then Inr (None, a)
     else (case PopMsg p (ac_recvCache a) of
       Inl e \<Rightarrow> Inl e | Inr (msg, c) \<Rightarrow> Inr (msg, a\<lparr>ac_recvCache := c\<rparr>)))"

text \<open>The loop around it in the I/O thread; nothing in the loop closes the client.\<close>

definition asynclt_recv_all ::
  "tcp_message_protocol option \<Rightarrow> tcpsock_asynclt \<Rightarrow> (memerr + tcp_message list \<times> tcpsock_asynclt) option" where
  "asynclt_recv_all p a =
    (if client_isClosed (ac_client a) then Some (Inr ([], a))
     else map_option (\<lambda>r. case r of Inl e \<Rightarrow> Inl e | Inr (ms, c) \<Rightarrow> Inr (ms, a\<lparr>ac_recvCache := c\<rparr>))
       (pop_all p (ac_recvCache a)))"

section \<open>Groups of clients\<close>

record tcpsock_ha_asynclt =
  ha_name :: bytes
  ha_clients :: "nat list"
  ha_cltCursor :: nat
  ha_cltSeq :: u64
  ha_workerIdx :: nat

definition ha_asynclt_new :: "bytes \<Rightarrow> tcpsock_ha_asynclt" where
  "ha_asynclt_new name = \<lparr>ha_name = name, ha_clients = [], ha_cltCursor = 0, ha_cltSeq = 1, ha_workerIdx = 0\<rparr>"

record AsyncMsgPtr =
  am_msg :: tcp_message
  am_ha_clt :: nat

record async_client_manager =
  am_efd :: int
  am_protocol :: tcp_message_protocol
  am_shutdown :: bool
  am_workerNum :: nat
  am_clients :: "nat \<Rightarrow> tcpsock_asynclt"
  am_nextClient :: nat
  am_has :: "nat \<Rightarrow> tcpsock_ha_asynclt"
  am_haClients :: "nat list"
  am_monitorColl :: "nat list"
  am_fd2client :: "(int \<times> nat) list"
  am_recvQueues :: "AsyncMsgPtr safe_queue option list"
  am_calls :: "poll_call list"
  am_responses :: "(nat \<times> tcp_message) list"

definition manager_MaxPendingMsg :: nat where "manager_MaxPendingMsg = 512"

definition upd_clt :: "nat \<Rightarrow> tcpsock_asynclt \<Rightarrow> async_client_manager \<Rightarrow> async_client_manager" where
  "upd_clt i a m = m\<lparr>am_clients := (am_clients m)(i := a)\<rparr>"

definition upd_ha :: "nat \<Rightarrow> tcpsock_ha_asynclt \<Rightarrow> async_client_manager \<Rightarrow> async_client_manager" where
  "upd_ha h x m = m\<lparr>am_has := (am_has m)(h := x)\<rparr>"

definition addConnect :: "allocator \<Rightarrow> conn_env \<Rightarrow> nat \<Rightarrow> bytes \<Rightarrow> u16 \<Rightarrow> async_client_manager \<Rightarrow> async_client_manager" where
  "addConnect al e h addr port m =
    (let ha = am_has m h; i = am_nextClient m;
         a = asynclt_new al (Some h) addr port (ha_cltSeq ha) (ha_name ha)
     in upd_ha h (ha\<lparr>ha_cltSeq := ha_cltSeq ha + 1, ha_clients := ha_clients ha @ [i]\<rparr>)
          (upd_clt i (snd (asynclt_connect e a)) (m\<lparr>am_nextClient := Suc i\<rparr>)))"

definition ha_disconnect :: "nat \<Rightarrow> async_client_manager \<Rightarrow> async_client_manager" where
  "ha_disconnect h m = upd_ha h ((am_has m h)\<lparr>ha_clients := []\<rparr>) m"

definition clt_usable :: "async_client_manager \<Rightarrow> nat \<Rightarrow> bool" where
  "clt_usable m i \<longleftrightarrow> client_isConnected (ac_client (am_clients m i)) \<and> \<not> client_isClosed (ac_client (am_clients m i))"

definition getClient :: "nat \<Rightarrow> async_client_manager \<Rightarrow> memerr + nat option \<times> async_client_manager" where
  "getClient h m =
    (let ha = am_has m h in
     case rr_search (length (ha_clients ha)) (clt_usable m) (ha_clients ha) (ha_cltCursor ha) of
       Inl e \<Rightarrow> Inl e
     | Inr (r, cur) \<Rightarrow> Inr (map_option ((!) (ha_clients ha)) r, upd_ha h (ha\<lparr>ha_cltCursor := cur\<rparr>) m))"

text \<open>\<open>POST_SUCCESS\<close> is 0, \<open>POST_FAIL\<close> is 1.\<close>

definition ha_post :: "nat \<Rightarrow> tcp_message \<Rightarrow> async_client_manager \<Rightarrow> memerr + int \<times> async_client_manager" where
  "ha_post h msg m =
    (case getClient h m of Inl e \<Rightarrow> Inl e
     | Inr (None, m1) \<Rightarrow> Inr (1, m1)
     | Inr (Some i, m1) \<Rightarrow>
       (case asynclt_post msg (am_clients m1 i) of (rc, a, calls) \<Rightarrow>
          Inr (if rc = 0 then 0 else 1, (upd_clt i a m1)\<lparr>am_calls := am_calls m1 @ calls\<rparr>)))"

section \<open>The manager\<close>

definition manager_new ::
  "tcp_message_protocol \<Rightarrow> (nat \<Rightarrow> tcpsock_asynclt) \<Rightarrow> (nat \<Rightarrow> tcpsock_ha_asynclt) \<Rightarrow> async_client_manager" where
  "manager_new p clients has = \<lparr>
     am_efd = INVALID_SOCK, am_protocol = p, am_shutdown = False, am_workerNum = 0, am_clients = clients,
     am_nextClient = 0, am_has = has, am_haClients = [], am_monitorColl = [], am_fd2client = [],
     am_recvQueues = replicate 16 None, am_calls = [], am_responses = []\<rparr>"

definition assign_workers :: "nat \<Rightarrow> async_client_manager \<Rightarrow> async_client_manager" where
  "assign_workers n m =
    m\<lparr>am_has := foldl (\<lambda>f (i, h). f(h := (f h)\<lparr>ha_workerIdx := i mod n\<rparr>)) (am_has m)
       (zip [0..<length (am_haClients m)] (am_haClients m))\<rparr>"

definition manager_start :: "int \<Rightarrow> int \<Rightarrow> async_client_manager \<Rightarrow> async_client_manager" where
  "manager_start efd workerNum m =
    (if efd = -1 then m\<lparr>am_efd := efd\<rparr>
     else let n = nat (min (max workerNum 1) 16) in
       assign_workers n (m\<lparr>am_efd := efd, am_workerNum := n,
         am_recvQueues := replicate n (Some sq_new) @ drop n (am_recvQueues m)\<rparr>))"

definition manageClient :: "nat \<Rightarrow> async_client_manager \<Rightarrow> async_client_manager" where
  "manageClient h m =
    (let m1 = (if am_workerNum m > 0
               then upd_ha h ((am_has m h)\<lparr>ha_workerIdx := length (am_haClients m) mod am_workerNum m\<rparr>) m else m)
     in m1\<lparr>am_haClients := am_haClients m1 @ [h]\<rparr>)"

definition manager_stop :: "async_client_manager \<Rightarrow> async_client_manager" where
  "manager_stop m = m\<lparr>am_shutdown := True,
     am_recvQueues := map (map_option (\<lambda>q. fst (sq_stop True q))) (take (am_workerNum m) (am_recvQueues m)) @
       drop (am_workerNum m) (am_recvQueues m)\<rparr>"

definition clearClients :: "async_client_manager \<Rightarrow> async_client_manager" where
  "clearClients m = (foldl (\<lambda>m h. ha_disconnect h m) m (am_haClients m))\<lparr>
     am_haClients := [], am_monitorColl := [], am_fd2client := []\<rparr>"

definition manager_serveUtilStop :: "async_client_manager \<Rightarrow> async_client_manager" where
  "manager_serveUtilStop m =
    (let m1 = clearClients (m\<lparr>am_recvQueues :=
       map (\<lambda>_. None) (take (am_workerNum m) (am_recvQueues m)) @ drop (am_workerNum m) (am_recvQueues m)\<rparr>)
     in m1\<lparr>am_efd := INVALID_SOCK\<rparr>)"

definition isMonitored :: "nat \<Rightarrow> async_client_manager \<Rightarrow> bool" where
  "isMonitored i m \<longleftrightarrow> i \<in> set (am_monitorColl m)"

text \<open>\<^verbatim>\<open>_fd2client.insert\<close> keeps an entry that is already there.\<close>

definition addMonitored :: "bool \<Rightarrow> nat \<Rightarrow> async_client_manager \<Rightarrow> async_client_manager" where
  "addMonitored sp_ok i m =
    (let fd = cl_fd (ac_client (am_clients m i)) in
     if \<not> sp_ok then m
     else (case asynclt_joinMonitor (am_efd m) (am_clients m i) of (a, calls) \<Rightarrow>
       (upd_clt i a m)\<lparr>
         am_calls := am_calls m @ SpAdd (am_efd m) fd False # calls,
         am_monitorColl := List.insert i (am_monitorColl m),
         am_fd2client := (if map_of (am_fd2client m) fd = None then (fd, i) # am_fd2client m else am_fd2client m)\<rparr>))"

definition removeMonitored :: "nat \<Rightarrow> async_client_manager \<Rightarrow> async_client_manager" where
  "removeMonitored i m =
    (let a = asynclt_leaveMonitor (am_clients m i); fd = cl_fd (ac_client a) in
     (upd_clt i (a\<lparr>ac_client := client_setClose (ac_client a)\<rparr>) m)\<lparr>
       am_calls := am_calls m @ [SpDel (am_efd m) fd],
       am_monitorColl := removeAll i (am_monitorColl m),
       am_fd2client := AList.delete fd (am_fd2client m)\<rparr>)"

definition manager_onIOError :: "nat option \<Rightarrow> async_client_manager \<Rightarrow> async_client_manager" where
  "manager_onIOError clt m =
    (case clt of None \<Rightarrow> m | Some i \<Rightarrow> if isMonitored i m then removeMonitored i m else m)"

definition getClientByFd :: "int \<Rightarrow> async_client_manager \<Rightarrow> nat option" where
  "getClientByFd fd m = map_of (am_fd2client m) fd"

definition dispatchAsyncMsg :: "tcp_message \<Rightarrow> nat \<Rightarrow> async_client_manager \<Rightarrow> memerr + async_client_manager" where
  "dispatchAsyncMsg msg i m =
    (case ac_ha (am_clients m i) of None \<Rightarrow> Inr m
     | Some h \<Rightarrow>
       let idx = ha_workerIdx (am_has m h) in
       if idx \<ge> length (am_recvQueues m) then Inl OutOfBounds
       else (case am_recvQueues m ! idx of None \<Rightarrow> Inl OutOfBounds
         | Some q \<Rightarrow> Inr (m\<lparr>am_recvQueues := (am_recvQueues m)[idx :=
             Some (fst (snd (sq_push manager_MaxPendingMsg True \<lparr>am_msg = msg, am_ha_clt = h\<rparr> q)))]\<rparr>)))"

fun dispatchAsync_all :: "tcp_message list \<Rightarrow> nat \<Rightarrow> async_client_manager \<Rightarrow> memerr + async_client_manager" where
  "dispatchAsync_all [] i m = Inr m"
| "dispatchAsync_all (x # xs) i m =
    (case dispatchAsyncMsg x i m of Inl e \<Rightarrow> Inl e | Inr m' \<Rightarrow> dispatchAsync_all xs i m')"

definition manager_on_read ::
  "allocator \<Rightarrow> io_env \<Rightarrow> int \<Rightarrow> async_client_manager \<Rightarrow> (memerr + async_client_manager) option" where
  "manager_on_read al env fd m =
    (let clt = getClientByFd fd m; recvLen = sock_recv (io_recv env) in
     case io_recv env of
       Inl _ \<Rightarrow> if recvLen = -2 then Some (Inr m) else Some (Inr (manager_onIOError clt m))
     | Inr bs \<Rightarrow>
       if bs = [] then Some (Inr (manager_onIOError clt m))
       else (case clt of None \<Rightarrow> Some (Inr m)
         | Some i \<Rightarrow>
           if \<not> isMonitored i m then Some (Inr m)
           else (case asynclt_onRecv al bs (am_clients m i) of
             Inl e \<Rightarrow> Some (Inl e)
           | Inr (rc, a) \<Rightarrow>
             if rc \<noteq> 0 then Some (Inr (manager_onIOError clt (upd_clt i a m)))
             else map_option (\<lambda>r. case r of Inl e \<Rightarrow> Inl e
                 | Inr (ms, a') \<Rightarrow> dispatchAsync_all ms i (upd_clt i a' m))
               (asynclt_recv_all (Some (am_protocol m)) a))))"

definition manager_on_write :: "io_env \<Rightarrow> int \<Rightarrow> async_client_manager \<Rightarrow> async_client_manager" where
  "manager_on_write env fd m =
    (case getClientByFd fd m of None \<Rightarrow> m
     | Some i \<Rightarrow>
       if \<not> isMonitored i m then m
       else (case asynclt_sendData (io_now env) (io_send env) (am_clients m i) of (rc, a, calls, w) \<Rightarrow>
         let m1 = (upd_clt i a m)\<lparr>am_calls := am_calls m @ calls\<rparr> in
         if rc = SEND_FAIL then manager_onIOError (Some i) m1 else m1))"

definition manager_handle_event ::
  "allocator \<Rightarrow> io_env \<Rightarrow> io_event \<Rightarrow> async_client_manager \<Rightarrow> (memerr + async_client_manager) option" where
  "manager_handle_event al env ev m =
    (if ev_read ev then manager_on_read al env (ev_fd ev) m
     else if ev_write ev then Some (Inr (manager_on_write env (ev_fd ev) m))
     else if ev_error ev \<or> ev_eof ev then Some (Inr (manager_onIOError (getClientByFd (ev_fd ev) m) m))
     else Some (Inr m))"

definition checkAlive :: "int \<Rightarrow> nat \<Rightarrow> async_client_manager \<Rightarrow> bool \<times> async_client_manager" where
  "checkAlive now i m =
    (let a = am_clients m i in
     if clt_usable m i \<and> client_needHeartbeat now (ac_client a) then
       (case genHeartbeat (am_protocol m) of None \<Rightarrow> (True, m)
        | Some hb \<Rightarrow> (case asynclt_post hb a of (rc, a', calls) \<Rightarrow>
            (True, (upd_clt i a' m)\<lparr>am_calls := am_calls m @ calls\<rparr>)))
     else (False, m))"

text \<open>What the monitor does for one client in one round.\<close>

definition monitor_client :: "int \<Rightarrow> bool \<Rightarrow> conn_env \<Rightarrow> bool \<Rightarrow> nat \<Rightarrow> async_client_manager \<Rightarrow> async_client_manager" where
  "monitor_client now do_check_alive e sp_ok i m =
    (if \<not> isMonitored i m then
       (if clt_usable m i then addMonitored sp_ok i m
        else (case asynclt_connect e (am_clients m i) of (rc, a) \<Rightarrow>
          let m1 = upd_clt i a m in if rc = 0 then addMonitored sp_ok i m1 else m1))
     else if do_check_alive then snd (checkAlive now i m) else m)"

definition manager_worker :: "nat \<Rightarrow> async_client_manager \<Rightarrow> (memerr + async_client_manager) option" where
  "manager_worker idx m =
    (if idx \<ge> length (am_recvQueues m) then Some (Inl OutOfBounds)
     else (case am_recvQueues m ! idx of None \<Rightarrow> Some (Inl OutOfBounds)
       | Some q \<Rightarrow>
         (case sq_pop_timeout_cv q of
            (SQ_EXIT, _, _) \<Rightarrow> None
          | (SQ_POP_SUCCESS, Some ptr, q') \<Rightarrow>
            Some (Inr (m\<lparr>am_recvQueues := (am_recvQueues m)[idx := Some q'],
              am_responses := am_responses m @ [(am_ha_clt ptr, am_msg ptr)]\<rparr>))
          | _ \<Rightarrow> Some (Inr m))))"

section \<open>Facts\<close>

lemma asynclt_connect_keeps:
  "asynclt_connect e a = (rc, a') \<Longrightarrow> ac_recvCache a' = ac_recvCache a \<and> wrQueue (ac_chan a') = wrQueue (ac_chan a)"
  by (auto simp: asynclt_connect_def sync_fd_def split: prod.splits)

lemma workerIdx_assigned:
  assumes "0 < n" and "i < length hs" and "distinct hs"
  shows "ha_workerIdx (foldl (\<lambda>f (i, h). f(h := (f h)\<lparr>ha_workerIdx := i mod n\<rparr>)) f0 (zip [0..<length hs] hs) (hs ! i)) = i mod n"
  using assms(2,3)
proof (induction hs arbitrary: i rule: rev_induct)
  case (snoc h hs)
  show ?case
  proof (cases "i = length hs")
    case True
    then show ?thesis by simp
  next
    case False
    with snoc.prems have "i < length hs" "hs ! i \<noteq> h" by auto
    with snoc show ?thesis by (auto simp: nth_append)
  qed
qed simp

section \<open>Properties\<close>

text \<open>reconnecting keeps the write queue and the receive cache of the broken connection: when the old
  connection broke in the middle of a message whose header had arrived, the next message handed over is
  the old beginning completed with the first bytes of the new connection's stream.\<close>

theorem reconnect_mixes_streams:
  assumes "msg_protocol p" and "asynclt_connect e a = (0, a')" and "wf_msg p m0"
    and "msg_data m0 = contents (ac_recvCache a) @ t" and "unat (headerSize p) \<le> length (contents (ac_recvCache a))"
    and "length t \<le> length stream"
  shows "wrQueue (ac_chan a') = wrQueue (ac_chan a) \<and>
    frame1 p (contents (ac_recvCache a') @ stream) =
      (Some \<lparr>msg_data = contents (ac_recvCache a) @ take (length t) stream\<rparr>, drop (length t) stream)"
proof -
  let ?r = "contents (ac_recvCache a)" and ?n = "unat (headerSize p)"
  have b: "bodySize p (Some \<lparr>msg_data = take ?n ?r\<rparr>) = bodySize p (Some m0)"
    using msg_protocol.bodySize_header [OF assms(1,5)] msg_protocol.bodySize_append [OF assms(1,5), of t] assms(4)
    by (metis tcp_message_eta)
  have len: "?n + unat (bodySize p (Some m0)) = length ?r + length t"
    using assms(3,4) by (simp add: wf_msg_def)
  have "frame1 p (?r @ stream) = (Some \<lparr>msg_data = ?r @ take (length t) stream\<rparr>, drop (length t) stream)"
    using assms(3,5,6) by (auto simp: frame1_def b len wf_msg_def Let_def)
  then show ?thesis using asynclt_connect_keeps [OF assms(2)] by simp
qed

theorem reconnect_mixes_streams_witness:
  "\<exists>a e a'. asynclt_connect e a = (0, a') \<and>
    frame1 default_msg_proto (contents (ac_recvCache a') @ [5, 0, 0, 0]) = (Some \<lparr>msg_data = [2, 0, 0, 2, 9, 5]\<rparr>, [0, 0, 0])"
proof -
  let ?al = "\<lparr>alloc_ok = \<lambda>_. True, fresh = \<lambda>_. 0\<rparr>"
  let ?a = "(asynclt_new ?al None [] 80 1 [])\<lparr>ac_recvCache :=
    \<lparr>buffer = Some [2, 0, 0, 2, 9, 0, 0, 0], buffersize = 8, datasize = 5, blocksize = 8\<rparr>\<rparr>"
  let ?e = "\<lparr>ce_addrinfo = True, ce_socket = 4, ce_connect = 0, ce_errno = EAGAIN, ce_select = 1, ce_isset = True,
    ce_getsockopt_ok = True, ce_soerror = 0, ce_now = 7\<rparr>"
  obtain a' where c: "asynclt_connect ?e ?a = (0, a')"
    by (simp add: asynclt_connect_def client_connect_def client_disconnect_def connect_rc_def
        asynclt_new_def client_new_def)
  have p: "msg_protocol default_msg_proto" by unfold_locales
  have r: "contents (ac_recvCache ?a) = [2, 0, 0, 2, 9]" by (simp add: contents_def)
  have "extract_uint32 [2, 0, 0, 2, 9, 1] = 0x2000002"
    by (simp add: extract_uint32_def ntohl_mem_load be_word_def push_bit_eq_mult)
  then have w: "wf_msg default_msg_proto \<lparr>msg_data = [2, 0, 0, 2, 9, 1]\<rparr>"
    by (simp add: wf_msg_def default_bodySize_def default_MaxBodySize_def)
  have "frame1 default_msg_proto (contents (ac_recvCache a') @ [5, 0, 0, 0]) =
      (Some \<lparr>msg_data = [2, 0, 0, 2, 9, 5]\<rparr>, [0, 0, 0])"
    using reconnect_mixes_streams [OF p c w, of "[1]" "[5, 0, 0, 0]"] r by simp
  with c show ?thesis by blast
qed

text \<open>every group of clients is served by a worker that exists: after the manager started with
  distinct groups, the i-th group uses worker i modulo the number of workers, and its messages go to an
  existing queue.\<close>

theorem manager_start_workers:
  assumes "efd \<noteq> -1" and "i < length (am_haClients m)" and "distinct (am_haClients m)" and "length (am_recvQueues m) = 16"
  shows "let m' = manager_start efd n m; h = am_haClients m ! i in
    ha_workerIdx (am_has m' h) = i mod am_workerNum m' \<and> 1 \<le> am_workerNum m' \<and> am_workerNum m' \<le> 16 \<and>
    am_recvQueues m' ! ha_workerIdx (am_has m' h) = Some sq_new"
proof -
  define k where "k = nat (min (max n 1) 16)"
  have k: "0 < k" "k \<le> 16" by (auto simp: k_def)
  have i: "i mod k < k" using k(1) by (rule mod_less_divisor)
  define f where "f = foldl (\<lambda>f (i, h). f(h := (f h)\<lparr>ha_workerIdx := i mod k\<rparr>)) (am_has m)
    (zip [0..<length (am_haClients m)] (am_haClients m))"
  have w: "ha_workerIdx (f (am_haClients m ! i)) = i mod k"
    unfolding f_def by (rule workerIdx_assigned [OF k(1) assms(2,3)])
  have "manager_start efd n m = m\<lparr>am_efd := efd, am_workerNum := k,
      am_recvQueues := replicate k (Some sq_new) @ drop k (am_recvQueues m), am_has := f\<rparr>"
    using assms(1) by (simp add: manager_start_def assign_workers_def f_def k_def Let_def)
  with k i w show ?thesis by (simp add: Let_def nth_append)
qed

theorem manager_start_workers_witness:
  "\<exists>m. length (am_haClients m) = 3 \<and>
    (let m' = manager_start 5 2 m; h = am_haClients m ! 2 in
     ha_workerIdx (am_has m' h) = 2 mod am_workerNum m' \<and> 1 \<le> am_workerNum m' \<and> am_workerNum m' \<le> 16 \<and>
     am_recvQueues m' ! ha_workerIdx (am_has m' h) = Some sq_new)"
proof -
  let ?al = "\<lparr>alloc_ok = \<lambda>_. True, fresh = \<lambda>_. 0\<rparr>"
  let ?m = "(manager_new lymsg_protocol (\<lambda>_. asynclt_new ?al None [] 80 1 []) (\<lambda>_. ha_asynclt_new []))\<lparr>
    am_haClients := [7, 8, 9]\<rparr>"
  have "length (am_recvQueues ?m) = 16" by (simp add: manager_new_def)
  then show ?thesis using manager_start_workers [of 5 2 ?m 2] by (intro exI [of _ ?m]) simp
qed

end
