(* ===== verification/PendingStore.thy ===== *)
theory PendingStore
  imports Prelude "HOL-Library.AList"
begin

text \<open>
  Requests that wait for an asynchronous answer.  \<^verbatim>\<open>NetServer\<close> (\<^verbatim>\<open>src/lygc/net_server.hpp\<close>) and the database
  proxies (\<^verbatim>\<open>src/lygc/dbproxy_base.hpp\<close>) keep them in sixteen hash maps, chosen by the low four bits of the
  request id, each under its own lock.  The locale \<open>pending_store\<close> is what the servers rely on: an
  entry is found once, under its own id, and taking it leaves all others.
\<close>

definition shardIdx :: "u64 \<Rightarrow> nat" where
  "shardIdx reqId = unat (reqId AND (16 - 1))"

type_synonym 'c shards = "(u64 \<times> 'c) list list"

definition shards_new :: "'c shards" where
  "shards_new = replicate 16 []"

text \<open>\<^verbatim>\<open>unordered_map::insert\<close> keeps an entry that is already there.\<close>

definition shard_insert :: "u64 \<Rightarrow> 'c \<Rightarrow> 'c shards \<Rightarrow> 'c shards" where
  "shard_insert k v S =
    (let m = S ! shardIdx k in
     if map_of m k = None then S[shardIdx k := (k, v) # m] else S)"

definition shard_take :: "u64 \<Rightarrow> 'c shards \<Rightarrow> 'c option \<times> 'c shards" where
  "shard_take k S =
    (let m = S ! shardIdx k in
     case map_of m k of None \<Rightarrow> (None, S) | Some v \<Rightarrow> (Some v, S[shardIdx k := AList.delete k m]))"

definition shard_purge :: "('c \<Rightarrow> bool) \<Rightarrow> 'c shards \<Rightarrow> 'c shards" where
  "shard_purge gone S = map (filter (\<lambda>(k, v). \<not> gone v)) S"

definition shard_lookup :: "'c shards \<Rightarrow> u64 \<Rightarrow> 'c option" where
  "shard_lookup S k = map_of (S ! shardIdx k) k"

definition shard_ok :: "'c shards \<Rightarrow> bool" where
  "shard_ok S \<longleftrightarrow> length S = 16 \<and> (\<forall>m \<in> set S. distinct (map fst m))"

locale pending_store =
  fixes ok :: "'t \<Rightarrow> bool"
    and lookup :: "'t \<Rightarrow> u64 \<Rightarrow> 'c option"
    and ins :: "u64 \<Rightarrow> 'c \<Rightarrow> 't \<Rightarrow> 't"
    and tak :: "u64 \<Rightarrow> 't \<Rightarrow> 'c option \<times> 't"
    and purge :: "('c \<Rightarrow> bool) \<Rightarrow> 't \<Rightarrow> 't"
  assumes ins_law: "ok t \<Longrightarrow> ok (ins k v t) \<and>
      lookup (ins k v t) = (if lookup t k = None then (lookup t)(k \<mapsto> v) else lookup t)"
    and tak_law: "ok t \<Longrightarrow> ok (snd (tak k t)) \<and> fst (tak k t) = lookup t k \<and>
      lookup (snd (tak k t)) = (lookup t)(k := None)"
    and purge_law: "ok t \<Longrightarrow> ok (purge g t) \<and>
      lookup (purge g t) k = (case lookup t k of None \<Rightarrow> None | Some v \<Rightarrow> if g v then None else Some v)"
begin

lemma take_after_insert:
  "ok t \<Longrightarrow> lookup t k = None \<Longrightarrow> fst (tak k (ins k v t)) = Some v"
  using ins_law [of t k v] tak_law [of "ins k v t" k] by simp

lemma take_twice:
  "ok t \<Longrightarrow> fst (tak k (snd (tak k t))) = None"
  using tak_law [of t k] tak_law [of "snd (tak k t)" k] by simp

lemma take_other:
  "ok t \<Longrightarrow> k' \<noteq> k \<Longrightarrow> fst (tak k' (snd (tak k t))) = fst (tak k' t)"
  using tak_law [of t k] tak_law [of "snd (tak k t)" k'] tak_law [of t k'] by simp

lemma take_purged:
  "ok t \<Longrightarrow> fst (tak k (purge g t)) = (case lookup t k of None \<Rightarrow> None | Some v \<Rightarrow> if g v then None else Some v)"
  using purge_law [of t g k] tak_law [of "purge g t" k] by simp

end

section \<open>The sharded maps are a pending store\<close>

lemma shardIdx_less: "shardIdx k < 16"
proof -
  have "k AND (16 - 1) \<le> 15" using word_and_le1 [of k 15] by simp
  then have "unat (k AND (16 - 1)) \<le> unat (15 :: u64)" by (simp only: word_le_nat_alt)
  then show ?thesis by (simp add: shardIdx_def)
qed

lemma shards_new_ok [simp]: "shard_ok shards_new" "shard_lookup shards_new = (\<lambda>_. None)"
  using shardIdx_less by (auto simp: shard_ok_def shards_new_def shard_lookup_def)

lemma shard_okD: "shard_ok S \<Longrightarrow> distinct (map fst (S ! shardIdx k))"
  using shardIdx_less [of k] by (simp add: shard_ok_def)

lemma shard_ok_update: "shard_ok S \<Longrightarrow> distinct (map fst m) \<Longrightarrow> shard_ok (S[i := m])"
  by (auto simp: shard_ok_def dest: set_update_subset_insert [THEN subsetD])

lemma shard_lookup_update:
  "shard_ok S \<Longrightarrow> shard_lookup (S[shardIdx k := m]) k' =
    (if shardIdx k' = shardIdx k then map_of m k' else shard_lookup S k')"
  using shardIdx_less [of k] by (simp add: shard_lookup_def shard_ok_def)

lemma map_of_filter_distinct:
  "distinct (map fst m) \<Longrightarrow> map_of (filter (\<lambda>(k, v). \<not> g v) m) k =
    (case map_of m k of None \<Rightarrow> None | Some v \<Rightarrow> if g v then None else Some v)"
  by (induction m) (auto split: option.split simp: map_of_eq_None_iff image_iff)

interpretation shard: pending_store shard_ok shard_lookup shard_insert shard_take shard_purge
proof
  fix S :: "'c shards" and k :: u64 and v :: 'c
  assume ok: "shard_ok S"
  have l: "shard_lookup S k = map_of (S ! shardIdx k) k" by (simp add: shard_lookup_def)
  have "k \<notin> fst ` set (S ! shardIdx k)" if "shard_lookup S k = None"
    using that by (simp add: l map_of_eq_None_iff)
  then have "shard_ok (shard_insert k v S)"
    using ok shard_okD [OF ok, of k] by (auto simp: shard_insert_def Let_def l intro!: shard_ok_update)
  moreover have "shard_lookup (shard_insert k v S) k' =
      (if shard_lookup S k = None then (shard_lookup S)(k \<mapsto> v) else shard_lookup S) k'" for k'
    using shard_lookup_update [OF ok] by (auto simp: shard_insert_def Let_def l) (auto simp: shard_lookup_def)
  ultimately show "shard_ok (shard_insert k v S) \<and> shard_lookup (shard_insert k v S) =
      (if shard_lookup S k = None then (shard_lookup S)(k \<mapsto> v) else shard_lookup S)" by blast
next
  fix S :: "'c shards" and k :: u64
  assume ok: "shard_ok S"
  have l: "shard_lookup S k = map_of (S ! shardIdx k) k" by (simp add: shard_lookup_def)
  have "shard_ok (snd (shard_take k S))"
    using ok shard_okD [OF ok, of k]
    by (auto simp: shard_take_def Let_def AList.distinct_delete split: option.split intro!: shard_ok_update)
  moreover have "shard_lookup (snd (shard_take k S)) k' = ((shard_lookup S)(k := None)) k'" for k'
    using shard_lookup_update [OF ok, of k "AList.delete k (S ! shardIdx k)" k']
    by (auto simp: shard_take_def Let_def AList.delete_conv' shard_lookup_def split: option.split)
  ultimately show "shard_ok (snd (shard_take k S)) \<and> fst (shard_take k S) = shard_lookup S k \<and>
      shard_lookup (snd (shard_take k S)) = (shard_lookup S)(k := None)"
    by (auto simp: shard_take_def Let_def l split: option.split)
next
  fix S :: "'c shards" and g :: "'c \<Rightarrow> bool" and k :: u64
  assume ok: "shard_ok S"
  have "shard_ok (shard_purge g S)"
    using ok by (auto simp: shard_ok_def shard_purge_def distinct_map_filter)
  moreover have "shard_lookup (shard_purge g S) k =
      (case shard_lookup S k of None \<Rightarrow> None | Some v \<Rightarrow> if g v then None else Some v)"
    using map_of_filter_distinct [OF shard_okD [OF ok, of k]] shardIdx_less [of k] ok
    by (simp add: shard_purge_def shard_lookup_def shard_ok_def)
  ultimately show "shard_ok (shard_purge g S) \<and> shard_lookup (shard_purge g S) k =
      (case shard_lookup S k of None \<Rightarrow> None | Some v \<Rightarrow> if g v then None else Some v)" by blast
qed

end
