(* ===== verification/NetServer.thy ===== *)
theory NetServer
  imports AsyncClient PendingStore
begin

text \<open>
  The service framework of \<^verbatim>\<open>src/lygc/net_server.hpp\<close>: \<^verbatim>\<open>NetUser\<close> (a connection that unpacks requests and
  answers them), \<^verbatim>\<open>NetServer\<close> (handlers by origin, pending requests in shards) and \<^verbatim>\<open>NetClient\<close> (outgoing
  requests whose handlers wait for the response with the same serial number).

  A user handler is code of the application: it is the parameter \<open>uh\<close>, which may itself call the
  server (to save a pending request).  \<^verbatim>\<open>createResponse\<close> is virtual, \<open>cr\<close> is the override in force.
\<close>

definition SYNC_RESPONSE :: u64 where "SYNC_RESPONSE = 0"
definition NO_RESPONSE :: u64 where "NO_RESPONSE = 1"
definition ASYNC_RESPONSE :: u64 where "ASYNC_RESPONSE = 2"
definition MinRequestId :: u64 where "MinRequestId = 101"

record net_user =
  nu_user :: tcpsock_user
  nu_baseOrigin :: u16
  nu_handler :: "nat option"

record ReqContext =
  rq_user :: nat
  rq_header :: lymsg_header
  rq_data :: bytes

record net_server =
  ns_origin :: u16
  ns_userHandlers :: "(u32 \<times> nat) list"
  ns_reqShards :: "ReqContext shards"
  ns_reqIdCreator :: u64
  ns_users :: "nat \<Rightarrow> net_user"
  ns_alive :: "nat list"
  ns_calls :: "poll_call list"

type_synonym user_handler = "nat \<Rightarrow> nat \<Rightarrow> lymsg_header \<Rightarrow> bytes \<Rightarrow> net_server \<Rightarrow> u64 \<times> bytes \<times> net_server"
type_synonym response_maker = "nat \<Rightarrow> lymsg_header \<Rightarrow> bytes \<Rightarrow> net_server \<Rightarrow> std_exception + tcp_message"

definition net_server_new :: "u16 \<Rightarrow> (nat \<Rightarrow> net_user) \<Rightarrow> net_server" where
  "net_server_new org users = \<lparr>ns_origin = org, ns_userHandlers = [], ns_reqShards = shards_new,
     ns_reqIdCreator = MinRequestId, ns_users = users, ns_alive = [], ns_calls = []\<rparr>"

definition net_createUser :: "allocator \<Rightarrow> net_server \<Rightarrow> net_user" where
  "net_createUser al s = \<lparr>nu_user = user_new al, nu_baseOrigin = ns_origin s, nu_handler = None\<rparr>"

text \<open>The header is cleared before the three fields are set; \<^verbatim>\<open>packMsg\<close> fills in the size.\<close>

definition createResponse :: "u16 \<Rightarrow> lymsg_header \<Rightarrow> bytes \<Rightarrow> tcp_message" where
  "createResponse baseOrigin reqHeader respData =
    packMsg \<lparr>origin = baseOrigin, reserve = 0, hdr_type = hdr_type reqHeader OR LYMSG_TYPE_RESP,
      serial = serial reqHeader, hdr_size = 0\<rparr> respData"

definition net_createResponse :: response_maker where
  "net_createResponse uid reqHeader respData s = Inr (createResponse (nu_baseOrigin (ns_users s uid)) reqHeader respData)"

definition postMsg :: "nat \<Rightarrow> tcp_message \<Rightarrow> net_server \<Rightarrow> net_server" where
  "postMsg uid msg s =
    (case user_post msg (nu_user (ns_users s uid)) of (rc, u, calls) \<Rightarrow>
       s\<lparr>ns_users := (ns_users s)(uid := (ns_users s uid)\<lparr>nu_user := u\<rparr>), ns_calls := ns_calls s @ calls\<rparr>)"

definition registerUserHandler :: "u16 \<Rightarrow> nat \<Rightarrow> net_server \<Rightarrow> net_server" where
  "registerUserHandler org handler s =
    s\<lparr>ns_userHandlers := AList.update (ucast org) handler (ns_userHandlers s)\<rparr>"

definition getUserHandler :: "u16 \<Rightarrow> net_server \<Rightarrow> nat option" where
  "getUserHandler org s = map_of (ns_userHandlers s) (ucast org)"

definition genRequestId :: "net_server \<Rightarrow> u64 \<times> net_server" where
  "genRequestId s = (ns_reqIdCreator s, s\<lparr>ns_reqIdCreator := ns_reqIdCreator s + 1\<rparr>)"

definition saveReqContext :: "u64 \<Rightarrow> nat \<Rightarrow> lymsg_header \<Rightarrow> bytes \<Rightarrow> net_server \<Rightarrow> net_server" where
  "saveReqContext reqId uid reqHeader reqData s =
    s\<lparr>ns_reqShards := shard_insert reqId
        \<lparr>rq_user = uid, rq_header = copyHeader reqHeader, rq_data = reqData\<rparr> (ns_reqShards s)\<rparr>"

definition savePenddingReq :: "nat \<Rightarrow> lymsg_header \<Rightarrow> bytes \<Rightarrow> net_server \<Rightarrow> u64 \<times> net_server" where
  "savePenddingReq uid reqHeader reqData s =
    (case genRequestId s of (reqId, s1) \<Rightarrow> (reqId, saveReqContext reqId uid reqHeader reqData s1))"

definition response :: "response_maker \<Rightarrow> u64 \<Rightarrow> bytes \<Rightarrow> net_server \<Rightarrow> std_exception + int \<times> net_server" where
  "response cr reqId respData s =
    (case shard_take reqId (ns_reqShards s) of (ctx, S) \<Rightarrow>
       let s1 = s\<lparr>ns_reqShards := S\<rparr> in
       case ctx of None \<Rightarrow> Inr (-1, s1)
       | Some c \<Rightarrow>
         if rq_user c \<notin> set (ns_alive s1) then Inr (-1, s1)
         else map_sum id (\<lambda>resp. (0, postMsg (rq_user c) resp s1)) (cr (rq_user c) (rq_header c) respData s1))"

definition cleanupUserContext :: "nat \<Rightarrow> net_server \<Rightarrow> net_server" where
  "cleanupUserContext uid s =
    s\<lparr>ns_reqShards := shard_purge (\<lambda>c. rq_user c \<notin> set (ns_alive s) \<or> rq_user c = uid) (ns_reqShards s)\<rparr>"

section \<open>NetUser\<close>

definition net_onRequest :: "user_handler \<Rightarrow> response_maker \<Rightarrow> nat \<Rightarrow> lymsg_header \<Rightarrow> bytes \<Rightarrow> net_server \<Rightarrow>
   std_exception + net_server" where
  "net_onRequest uh cr uid reqHeader reqData s =
    (let u = ns_users s uid;
         handler = (case nu_handler u of None \<Rightarrow> getUserHandler (origin reqHeader) s | Some h \<Rightarrow> Some h);
         s1 = s\<lparr>ns_users := (ns_users s)(uid := u\<lparr>nu_handler := handler\<rparr>)\<rparr>
     in case handler of None \<Rightarrow> Inr s1
        | Some h \<Rightarrow>
          (case uh h uid reqHeader reqData s1 of (reqId, respData, s2) \<Rightarrow>
             if reqId = SYNC_RESPONSE then map_sum id (\<lambda>m. postMsg uid m s2) (cr uid reqHeader respData s2)
             else if reqId = NO_RESPONSE then map_sum id (\<lambda>m. postMsg uid m s2) (cr uid reqHeader [] s2)
             else Inr s2))"

definition null_header :: lymsg_header where
  "null_header = \<lparr>origin = 0, reserve = 0, hdr_type = 0, serial = 0, hdr_size = 0\<rparr>"

definition net_onRecvMsg ::
  "(nat \<Rightarrow> lymsg_header \<Rightarrow> bytes \<Rightarrow> 's \<Rightarrow> std_exception + 's) \<Rightarrow> nat \<Rightarrow> tcp_message \<Rightarrow> 's \<Rightarrow> std_exception + 's" where
  "net_onRecvMsg onReq uid msg s =
    (case unpackMsg (Some msg) null_header [] of (rc, reqHeader, reqData) \<Rightarrow>
       if rc = 0 then onReq uid reqHeader reqData s else Inr s)"

definition net_onDisconnect :: "nat \<Rightarrow> net_server \<Rightarrow> net_server" where
  "net_onDisconnect uid s = cleanupUserContext uid s"

section \<open>NetClient\<close>

text \<open>The log \<open>nc_called\<close> records which handler (\<open>Some\<close>) or the default responser (\<open>None\<close>) was called.\<close>

record net_client =
  nc_ha :: nat
  nc_localOrigin :: u16
  nc_msgHandlers :: "(u64 \<times> nat) list"
  nc_defaultResponser :: bool
  nc_called :: "(nat option \<times> lymsg_header \<times> bytes) list"

definition net_client_new :: "nat \<Rightarrow> u16 \<Rightarrow> net_client" where
  "net_client_new ha org = \<lparr>nc_ha = ha, nc_localOrigin = org, nc_msgHandlers = [], nc_defaultResponser = False, nc_called = []\<rparr>"

definition attachResponser :: "net_client \<Rightarrow> net_client" where
  "attachResponser c = c\<lparr>nc_defaultResponser := True\<rparr>"

definition handler_insert :: "u64 \<Rightarrow> nat \<Rightarrow> (u64 \<times> nat) list \<Rightarrow> (u64 \<times> nat) list" where
  "handler_insert k h m = (if map_of m k = None then (k, h) # m else m)"

definition net_request ::
  "lymsg_header option \<Rightarrow> bytes \<Rightarrow> nat option \<Rightarrow> net_client \<Rightarrow> async_client_manager \<Rightarrow>
   memerr + int \<times> net_client \<times> async_client_manager" where
  "net_request reqHeader reqData handler c m =
    (case reqHeader of None \<Rightarrow> Inr (-1, c, m)
     | Some h0 \<Rightarrow>
       let h = h0\<lparr>origin := nc_localOrigin c\<rparr>;
           msg = packMsg h reqData;
           c1 = (case handler of None \<Rightarrow> c
                 | Some f \<Rightarrow> c\<lparr>nc_msgHandlers := handler_insert (serial h) f (nc_msgHandlers c)\<rparr>)
       in case ha_post (nc_ha c) msg m of Inl e \<Rightarrow> Inl e
          | Inr (rc, m1) \<Rightarrow>
            Inr (rc, if rc \<noteq> 0 \<and> handler \<noteq> None
                     then c1\<lparr>nc_msgHandlers := AList.delete (serial h) (nc_msgHandlers c1)\<rparr> else c1, m1))"

definition net_onResponse :: "tcp_message \<Rightarrow> net_client \<Rightarrow> net_client" where
  "net_onResponse msg c =
    (case unpackMsg (Some msg) null_header [] of (rc, respHeader, respData) \<Rightarrow>
       if rc \<noteq> 0 then c
       else (case map_of (nc_msgHandlers c) (serial respHeader) of
           Some f \<Rightarrow> c\<lparr>nc_msgHandlers := AList.delete (serial respHeader) (nc_msgHandlers c),
             nc_called := nc_called c @ [(Some f, respHeader, respData)]\<rparr>
         | None \<Rightarrow> if nc_defaultResponser c
             then c\<lparr>nc_called := nc_called c @ [(None, respHeader, respData)]\<rparr> else c))"

section \<open>Facts\<close>

definition net_inv :: "net_server \<Rightarrow> bool" where
  "net_inv s \<longleftrightarrow> shard_ok (ns_reqShards s) \<and>
    (\<forall>k. shard_lookup (ns_reqShards s) k \<noteq> None \<longrightarrow> k < ns_reqIdCreator s)"

definition user_queue :: "nat \<Rightarrow> net_server \<Rightarrow> tcp_message list" where
  "user_queue uid s = wrQueue (u_chan (nu_user (ns_users s uid)))"

lemma copyHeader_id [simp]: "copyHeader h = h"
  using header_load_image [of h "[]"] by (simp add: copyHeader_def)

lemma net_server_new_inv: "net_inv (net_server_new org users)"
  by (simp add: net_inv_def net_server_new_def)

lemma postMsg_queue:
  "user_queue uid (postMsg uid m s) = user_queue uid s @ (if length (user_queue uid s) \<le> MaxPendingMsg then [m] else [])"
  by (auto simp: postMsg_def user_queue_def user_post_def post_def enableWrite_def split: prod.split)

lemma postMsg_queue_other: "uid' \<noteq> uid \<Longrightarrow> user_queue uid' (postMsg uid m s) = user_queue uid' s"
  by (auto simp: postMsg_def user_queue_def split: prod.split)

lemma postMsg_frame [simp]:
  "ns_reqShards (postMsg uid m s) = ns_reqShards s" "ns_alive (postMsg uid m s) = ns_alive s"
  "ns_reqIdCreator (postMsg uid m s) = ns_reqIdCreator s"
  by (simp_all add: postMsg_def split: prod.split)

lemma word_succ_greater:
  fixes k :: u64
  assumes "k \<noteq> -1"
  shows "k < k + 1"
proof -
  have "k < -1" using assms by (simp add: word_order.not_eq_extremum)
  then have "unat k < 2 ^ 64 - 1" unfolding word_less_nat_alt unsigned_minus_1_eq_mask by (simp add: mask_eq_exp_minus_1)
  then have "unat k + 1 < 2 ^ 64" by simp
  then show ?thesis by (simp add: word_less_nat_alt unat_plus_if')
qed

lemma savePenddingReq_spec:
  assumes "net_inv s" and "ns_reqIdCreator s \<noteq> -1" and "savePenddingReq uid h d s = (k, s')"
  shows "net_inv s'" and "shard_lookup (ns_reqShards s) k = None"
    and "shard_lookup (ns_reqShards s') = (shard_lookup (ns_reqShards s))(k \<mapsto> \<lparr>rq_user = uid, rq_header = h, rq_data = d\<rparr>)"
    and "ns_alive s' = ns_alive s" and "ns_users s' = ns_users s"
proof -
  have s': "k = ns_reqIdCreator s" "ns_reqShards s' = shard_insert k \<lparr>rq_user = uid, rq_header = h, rq_data = d\<rparr> (ns_reqShards s)"
      "ns_reqIdCreator s' = k + 1" "ns_alive s' = ns_alive s" "ns_users s' = ns_users s"
    using assms(3) by (auto simp: savePenddingReq_def genRequestId_def saveReqContext_def)
  show n: "shard_lookup (ns_reqShards s) k = None"
    using assms(1) s'(1) by (metis net_inv_def less_irrefl)
  note i = shard.ins_law [of "ns_reqShards s" k "\<lparr>rq_user = uid, rq_header = h, rq_data = d\<rparr>"]
  show l: "shard_lookup (ns_reqShards s') = (shard_lookup (ns_reqShards s))(k \<mapsto> \<lparr>rq_user = uid, rq_header = h, rq_data = d\<rparr>)"
    using assms(1) i n s'(2) by (simp add: net_inv_def)
  have lt: "k < k + 1" using assms(2) s'(1) by (intro word_succ_greater) simp
  show "net_inv s'"
    using assms(1) i l s'(1,2,3) lt by (auto simp: net_inv_def intro: less_trans)
qed (use assms(3) in \<open>auto simp: savePenddingReq_def genRequestId_def saveReqContext_def\<close>)

lemma response_spec:
  assumes "net_inv s"
  shows "response cr k d s =
    (case shard_lookup (ns_reqShards s) k of
       None \<Rightarrow> Inr (-1, s\<lparr>ns_reqShards := snd (shard_take k (ns_reqShards s))\<rparr>)
     | Some c \<Rightarrow>
       let s1 = s\<lparr>ns_reqShards := snd (shard_take k (ns_reqShards s))\<rparr> in
       if rq_user c \<in> set (ns_alive s)
       then map_sum id (\<lambda>resp. (0, postMsg (rq_user c) resp s1)) (cr (rq_user c) (rq_header c) d s1)
       else Inr (-1, s1))"
  using shard.tak_law [of "ns_reqShards s" k] assms
  by (cases "shard_take k (ns_reqShards s)") (auto simp: response_def net_inv_def Let_def split: option.split)

lemma response_forgets:
  assumes "net_inv s" and "response cr k d s = Inr (rc, s')"
  shows "shard_lookup (ns_reqShards s') = (shard_lookup (ns_reqShards s))(k := None)" and "net_inv s'"
proof -
  have S: "ns_reqShards s' = snd (shard_take k (ns_reqShards s))" "ns_reqIdCreator s' = ns_reqIdCreator s"
    using assms(2) by (auto simp: response_spec [OF assms(1)] Let_def map_sum_def split: option.splits if_splits sum.splits)
  then show "shard_lookup (ns_reqShards s') = (shard_lookup (ns_reqShards s))(k := None)" and "net_inv s'"
    using shard.tak_law [of "ns_reqShards s" k] assms(1) by (auto simp: net_inv_def)
qed

lemma net_response_total: "net_inv s \<Longrightarrow> \<exists>rc s'. response net_createResponse k d s = Inr (rc, s')"
  by (auto simp: response_spec Let_def net_createResponse_def split: option.split)

section \<open>Properties\<close>

text \<open>
  C6: A pending request is answered exactly once.  The response that \<^verbatim>\<open>response\<close> queues for the user
  carries the serial number of the request, the request's type with the response bit, the server's
  origin and the given data, as the peer unpacks it (with the serial number's halves exchanged, the
  wire format's own defect); the second call for the same id finds nothing, returns -1 and queues nothing.
\<close>
theorem pending_answered_once:
  assumes "net_inv s" and "ns_reqIdCreator s \<noteq> -1" and "uid \<in> set (ns_alive s)"
    and "length (user_queue uid s) \<le> MaxPendingMsg"
    and "savePenddingReq uid h d s = (k, s1)"
    and "response net_createResponse k r s1 = Inr (rc, s2)"
    and "response net_createResponse k r' s2 = Inr (rc', s3)"
  shows "rc = 0 \<and> rc' = -1 \<and> user_queue uid s3 = user_queue uid s2 \<and>
    (\<exists>m. user_queue uid s2 = user_queue uid s @ [m] \<and>
      unpackMsg (Some m) null_header [] =
        (0, \<lparr>origin = nu_baseOrigin (ns_users s uid), reserve = 0, hdr_type = hdr_type h OR LYMSG_TYPE_RESP,
             serial = swap32 (serial h), hdr_size = of_nat (length r)\<rparr>, r))"
proof -
  note sv = savePenddingReq_spec [OF assms(1,2,5)]
  let ?t = "s1\<lparr>ns_reqShards := snd (shard_take k (ns_reqShards s1))\<rparr>"
  let ?m = "createResponse (nu_baseOrigin (ns_users s uid)) h r"
  have r1: "rc = 0" "s2 = postMsg uid ?m ?t"
    using assms(3,6) sv by (simp_all add: response_spec Let_def net_createResponse_def)
  have "net_inv s2" "shard_lookup (ns_reqShards s2) k = None"
    using response_forgets [OF sv(1) assms(6)] by simp_all
  then have r2: "rc' = -1" "ns_users s3 = ns_users s2"
    using assms(7) by (auto simp: response_spec)
  have "user_queue uid s2 = user_queue uid s @ [?m]"
    using postMsg_queue [of uid ?m ?t] assms(4) sv(5) by (simp add: r1(2) user_queue_def)
  moreover have "unpackMsg (Some ?m) null_header [] =
        (0, \<lparr>origin = nu_baseOrigin (ns_users s uid), reserve = 0, hdr_type = hdr_type h OR LYMSG_TYPE_RESP,
             serial = swap32 (serial h), hdr_size = of_nat (length r)\<rparr>, r)"
    using sv(5) by (simp add: createResponse_def unpackMsg_def packMsg_def)
  ultimately show ?thesis using r1(1) r2 by (simp add: user_queue_def)
qed

theorem pending_answered_once_witness:
  "\<exists>s s1 s2 s3 k. savePenddingReq 3 null_header [1] s = (k, s1) \<and> response net_createResponse k [2] s1 = Inr (0, s2) \<and>
    response net_createResponse k [4] s2 = Inr (-1, s3) \<and> length (user_queue 3 s3) = 1"
proof -
  let ?al = "\<lparr>alloc_ok = \<lambda>_. True, fresh = \<lambda>_. 0\<rparr>"
  let ?s = "(net_server_new 7 (\<lambda>_. \<lparr>nu_user = user_new ?al, nu_baseOrigin = 7, nu_handler = None\<rparr>))\<lparr>ns_alive := [3]\<rparr>"
  have i: "net_inv ?s" "ns_reqIdCreator ?s \<noteq> -1" "3 \<in> set (ns_alive ?s)"
    by (simp_all add: net_inv_def net_server_new_def MinRequestId_def)
  have q: "user_queue 3 ?s = []" by (simp add: user_queue_def net_server_new_def user_new_def)
  obtain k s1 where sv: "savePenddingReq 3 null_header [1] ?s = (k, s1)" by fastforce
  note si = savePenddingReq_spec(1) [OF i(1,2) sv]
  obtain rc s2 where r1: "response net_createResponse k [2] s1 = Inr (rc, s2)"
    using net_response_total [OF si] by blast
  obtain rc' s3 where r2: "response net_createResponse k [4] s2 = Inr (rc', s3)"
    using net_response_total [OF response_forgets(2) [OF si r1]] by blast
  have "rc = 0 \<and> rc' = -1 \<and> length (user_queue 3 s3) = 1"
    using pending_answered_once [OF i _ sv r1 r2] by (auto simp: q)
  with sv r1 r2 show ?thesis by blast
qed


text \<open>
  C31: Once a user has disconnected, no pending request of that user can be answered: \<^verbatim>\<open>response\<close> returns -1
  and queues nothing on any connection, while the pending requests of the other live users stay.
\<close>
theorem disconnect_forgets_pending:
  assumes "net_inv s" and "shard_lookup (ns_reqShards s) k = Some c"
  shows "shard_lookup (ns_reqShards (net_onDisconnect uid s)) k =
      (if rq_user c = uid \<or> rq_user c \<notin> set (ns_alive s) then None else Some c) \<and>
    (rq_user c = uid \<longrightarrow> (\<exists>s'. response cr k r (net_onDisconnect uid s) = Inr (-1, s') \<and> ns_users s' = ns_users s))"
proof -
  let ?g = "\<lambda>c. rq_user c \<notin> set (ns_alive s) \<or> rq_user c = uid"
  have p: "shard_ok (shard_purge ?g (ns_reqShards s))"
    "shard_lookup (shard_purge ?g (ns_reqShards s)) j =
      (case shard_lookup (ns_reqShards s) j of None \<Rightarrow> None | Some v \<Rightarrow> if ?g v then None else Some v)" for j
    using shard.purge_law [of "ns_reqShards s" ?g j] assms(1) by (auto simp: net_inv_def)
  have i: "net_inv (net_onDisconnect uid s)"
    using assms(1) p by (auto simp: net_inv_def net_onDisconnect_def cleanupUserContext_def split: option.splits)
  have l: "shard_lookup (ns_reqShards (net_onDisconnect uid s)) k =
      (if rq_user c = uid \<or> rq_user c \<notin> set (ns_alive s) then None else Some c)"
    using assms(2) p(2) [of k] by (simp add: net_onDisconnect_def cleanupUserContext_def disj_commute)
  have "ns_users (net_onDisconnect uid s) = ns_users s"
    by (simp add: net_onDisconnect_def cleanupUserContext_def)
  then show ?thesis using l by (simp add: response_spec [OF i])
qed

theorem disconnect_forgets_pending_witness:
  "\<exists>s c. shard_lookup (ns_reqShards s) 101 = Some c \<and> rq_user c = 3 \<and>
    shard_lookup (ns_reqShards (net_onDisconnect 3 s)) 101 = None \<and>
    shard_lookup (ns_reqShards (net_onDisconnect 4 s)) 101 = Some c"
proof -
  let ?al = "\<lparr>alloc_ok = \<lambda>_. True, fresh = \<lambda>_. 0\<rparr>"
  let ?s0 = "(net_server_new 7 (\<lambda>_. \<lparr>nu_user = user_new ?al, nu_baseOrigin = 7, nu_handler = None\<rparr>))\<lparr>ns_alive := [3, 4]\<rparr>"
  have i: "net_inv ?s0" by (simp add: net_inv_def net_server_new_def)
  obtain k s where sv: "savePenddingReq 3 null_header [1] ?s0 = (k, s)" by fastforce
  have "k = 101" using sv by (auto simp: savePenddingReq_def genRequestId_def net_server_new_def MinRequestId_def)
  moreover have "ns_reqIdCreator ?s0 \<noteq> -1" by (simp add: net_server_new_def MinRequestId_def)
  note sp = savePenddingReq_spec [OF i this sv]
  ultimately have l: "shard_lookup (ns_reqShards s) 101 = Some \<lparr>rq_user = 3, rq_header = null_header, rq_data = [1]\<rparr>" by simp
  have "ns_alive s = [3, 4]" using sp(4) by simp
  then show ?thesis
    using l disconnect_forgets_pending [OF sp(1) l, of 3] disconnect_forgets_pending [OF sp(1) l, of 4]
    by (intro exI [of _ s] exI [of _ "\<lparr>rq_user = 3, rq_header = null_header, rq_data = [1]\<rparr>"]) simp
qed


lemma net_request_cases:
  assumes "net_request (Some h) d (Some f) c m = Inr (rc, c1, m1)"
  shows "c1 = (if rc = 0 then c\<lparr>nc_msgHandlers := handler_insert (serial h) f (nc_msgHandlers c)\<rparr>
      else c\<lparr>nc_msgHandlers := AList.delete (serial h) (handler_insert (serial h) f (nc_msgHandlers c))\<rparr>)"
  using assms by (auto simp: net_request_def Let_def split: sum.splits if_splits)

lemma map_of_handler_insert:
  "map_of (handler_insert k f m) = (if map_of m k = None then (map_of m)(k \<mapsto> f) else map_of m)"
  by (simp add: handler_insert_def)

lemma map_of_handler_delete: "map_of (AList.delete k m) = (map_of m)(k := None)"
  by (rule AList.delete_conv')

text \<open>
  The handler of a request is called by the first response with its serial number, once: the next
  response with that number finds no handler and goes to the default responser, if there is one.
\<close>
theorem client_handler_once:
  assumes "net_request (Some h) d (Some f) c m = Inr (0, c1, m1)"
    and "map_of (nc_msgHandlers c) (serial h) = None"
    and "unpackMsg (Some r) null_header [] = (0, rh, rd)" and "serial rh = serial h"
    and "c2 = net_onResponse r c1"
  shows "nc_called c2 = nc_called c @ [(Some f, rh, rd)] \<and> map_of (nc_msgHandlers c2) = map_of (nc_msgHandlers c) \<and>
    nc_called (net_onResponse r c2) = nc_called c2 @ (if nc_defaultResponser c then [(None, rh, rd)] else [])"
proof -
  have c1: "c1 = c\<lparr>nc_msgHandlers := handler_insert (serial h) f (nc_msgHandlers c)\<rparr>"
    using net_request_cases [OF assms(1)] by simp
  have c2: "c2 = c\<lparr>nc_msgHandlers := AList.delete (serial h) (handler_insert (serial h) f (nc_msgHandlers c)),
      nc_called := nc_called c @ [(Some f, rh, rd)]\<rparr>"
    using assms(2-5) by (simp add: net_onResponse_def c1 map_of_handler_insert)
  have "map_of (nc_msgHandlers c2) = map_of (nc_msgHandlers c)"
    using assms(2) by (auto simp: c2 map_of_handler_delete map_of_handler_insert)
  moreover have "nc_called (net_onResponse r c2) = nc_called c2 @ (if nc_defaultResponser c then [(None, rh, rd)] else [])"
    using assms(2-4) calculation by (simp add: net_onResponse_def) (simp add: c2)
  ultimately show ?thesis by (simp add: c2)
qed

lemma net_request_posted:
  assumes "ha_clients (am_has m (nc_ha c)) = [i]" and "ha_cltCursor (am_has m (nc_ha c)) = 0" and "clt_usable m i"
    and "wrQueue (ac_chan (am_clients m i)) = []"
  shows "\<exists>c1 m1. net_request (Some h) d f c m = Inr (0, c1, m1)"
  using assms by (cases "enableWrite True (ac_chan (am_clients m i)
      \<lparr>wrQueue := [packMsg (h\<lparr>origin := nc_localOrigin c\<rparr>) d]\<rparr>)")
    (simp add: net_request_def ha_post_def getClient_def asynclt_post_def post_def upd_ha_def Let_def)

lemma unpack_null_header: "unpackMsg (Some (packMsg null_header [])) null_header [] = (0, null_header, [])"
  using header_load_image [of "hton null_header" "[]"]
  by (simp add: unpackMsg_def packMsg_def null_header_def swap32_def)

lemma request_posted_example:
  "\<exists>m c1 m1. net_request (Some h) d (Some f) (net_client_new 0 7) m = Inr (0, c1, m1)"
proof -
  let ?al = "\<lparr>alloc_ok = \<lambda>_. True, fresh = \<lambda>_. 0\<rparr>"
  let ?a = "asynclt_new ?al None [] 80 1 []"
  let ?m = "manager_new lymsg_protocol (\<lambda>_. ?a\<lparr>ac_client := (ac_client ?a)\<lparr>cl_fd := 5\<rparr>\<rparr>)
    (\<lambda>_. (ha_asynclt_new [])\<lparr>ha_clients := [0]\<rparr>)"
  have "\<exists>c1 m1. net_request (Some h) d (Some f) (net_client_new 0 7) ?m = Inr (0, c1, m1)"
    by (rule net_request_posted [of _ _ 0])
      (simp_all add: manager_new_def ha_asynclt_new_def net_client_new_def clt_usable_def client_isConnected_def
        client_isClosed_def asynclt_new_def client_new_def INVALID_SOCK_def)
  then show ?thesis by blast
qed

lemmas request_example = request_posted_example [of null_header "[]" 9]

theorem client_handler_once_witness:
  "\<exists>m c1 m1. net_request (Some null_header) [] (Some 9) (net_client_new 0 7) m = Inr (0, c1, m1) \<and>
    nc_called (net_onResponse (packMsg null_header []) c1) = [(Some 9, null_header, [])]"
proof -
  obtain m c1 m1 where a: "net_request (Some null_header) [] (Some 9) (net_client_new 0 7) m = Inr (0, c1, m1)"
    using request_example by blast
  have u: "unpackMsg (Some (packMsg null_header [])) null_header [] = (0, null_header, [])"
    by (rule unpack_null_header)
  have "nc_called (net_onResponse (packMsg null_header []) c1) = [(Some 9, null_header, [])]"
    using client_handler_once [OF a _ u refl refl] by (simp add: net_client_new_def)
  with a show ?thesis by blast
qed


text \<open>
  A request that reuses the serial number of an outstanding one and cannot be posted takes the
  earlier request's handler with it: the response to the earlier request then reaches no handler.
\<close>
theorem failed_duplicate_loses_handler:
  assumes "map_of (nc_msgHandlers c) (serial h) = Some g"
    and "net_request (Some h) d (Some f) c m = Inr (rc, c1, m1)" and "rc \<noteq> 0"
    and "unpackMsg (Some r) null_header [] = (0, rh, rd)" and "serial rh = serial h"
  shows "map_of (nc_msgHandlers c1) (serial h) = None \<and>
    (\<forall>x \<in> set (nc_called (net_onResponse r c1)). x \<in> set (nc_called c) \<or> fst x = None)"
  using net_request_cases [OF assms(2)] assms
  by (auto simp: map_of_handler_delete map_of_handler_insert net_onResponse_def)

theorem failed_duplicate_loses_handler_witness:
  "\<exists>h c m r c1 m1. map_of (nc_msgHandlers c) (serial h) = Some 8 \<and>
    net_request (Some h) [] (Some 9) c m = Inr (1, c1, m1) \<and> map_of (nc_msgHandlers c1) (serial h) = None \<and>
    r = packMsg h []"
proof -
  let ?h = null_header
  let ?al = "\<lparr>alloc_ok = \<lambda>_. True, fresh = \<lambda>_. 0\<rparr>"
  let ?m = "manager_new lymsg_protocol (\<lambda>_. asynclt_new ?al None [] 80 1 []) (\<lambda>_. ha_asynclt_new [])"
  let ?c = "(net_client_new 0 7)\<lparr>nc_msgHandlers := [(0, 8)]\<rparr>"
  let ?r = "packMsg ?h []"
  have a: "map_of (nc_msgHandlers ?c) (serial ?h) = Some 8" by (simp add: null_header_def)
  obtain c1 m1 where b: "net_request (Some ?h) [] (Some 9) ?c ?m = Inr (1, c1, m1)"
    by (simp add: net_request_def ha_post_def getClient_def manager_new_def ha_asynclt_new_def net_client_new_def Let_def)
  have u: "unpackMsg (Some ?r) null_header [] = (0, ?h, [])"
    by (rule unpack_null_header)
  have "map_of (nc_msgHandlers c1) (serial ?h) = None"
    using failed_duplicate_loses_handler [OF a b _ u] by simp
  with a b show ?thesis by blast
qed



section \<open>A request on its way\<close>

text \<open>The handler that a connection's requests of one origin go to.\<close>

definition handler_for :: "nat \<Rightarrow> u16 \<Rightarrow> net_server \<Rightarrow> nat option" where
  "handler_for uid org s = (case nu_handler (ns_users s uid) of None \<Rightarrow> getUserHandler org s | Some h \<Rightarrow> Some h)"

text \<open>Between two states of the manager one message was appended to the write queue of one connection of a group, and nothing else
  happened to the connections.  There is at most one such message.\<close>

definition posted :: "nat \<Rightarrow> tcp_message \<Rightarrow> async_client_manager \<Rightarrow> async_client_manager \<Rightarrow> bool" where
  "posted ha msg m m1 \<longleftrightarrow> (\<exists>i \<in> set (ha_clients (am_has m ha)).
     wrQueue (ac_chan (am_clients m1 i)) = wrQueue (ac_chan (am_clients m i)) @ [msg] \<and>
     (\<forall>j. j \<noteq> i \<longrightarrow> am_clients m1 j = am_clients m j))"

lemma posted_unique: "posted ha msg m m1 \<Longrightarrow> posted ha msg' m m1 \<Longrightarrow> msg' = msg"
  unfolding posted_def by (metis append_self_conv not_Cons_self2 same_append_eq list.inject)

text \<open>A group that has a usable connection with room in its queue.\<close>

definition ha_ready :: "nat \<Rightarrow> async_client_manager \<Rightarrow> bool" where
  "ha_ready ha m \<longleftrightarrow>
    (case getClient ha m of Inr (Some i, _) \<Rightarrow> length (wrQueue (ac_chan (am_clients m i))) \<le> MaxPendingMsg | _ \<Rightarrow> False)"

lemma rr_search_index: "rr_search n ok xs cursor = Inr (Some k, cur) \<Longrightarrow> k < length xs"
  by (induction n arbitrary: cursor) (auto simp: Let_def split: if_splits)

lemma getClient_some:
  assumes "getClient ha m = Inr (Some i, m1)"
  shows "i \<in> set (ha_clients (am_has m ha)) \<and> am_clients m1 = am_clients m"
proof -
  obtain r cur where r: "rr_search (length (ha_clients (am_has m ha))) (clt_usable m) (ha_clients (am_has m ha)) (ha_cltCursor (am_has m ha)) = Inr (r, cur)"
      "map_option ((!) (ha_clients (am_has m ha))) r = Some i"
    using assms by (auto simp: getClient_def Let_def split: sum.splits prod.splits)
  then obtain k where "r = Some k" "i = ha_clients (am_has m ha) ! k" by auto
  moreover from this have "k < length (ha_clients (am_has m ha))" using r(1) rr_search_index by blast
  ultimately show ?thesis using assms by (auto simp: getClient_def Let_def upd_ha_def split: sum.splits)
qed

lemma ha_post_posted: "ha_post ha msg m = Inr (0, m1) \<Longrightarrow> posted ha msg m m1"
  by (auto simp: ha_post_def posted_def asynclt_post_def post_def enableWrite_def upd_clt_def dest!: getClient_some
      split: sum.splits option.splits prod.splits if_splits intro!: bexI)

lemma net_request_queues:
  "net_request (Some h) d f c m = Inr (0, c1, m1) \<Longrightarrow> posted (nc_ha c) (packMsg (h\<lparr>origin := nc_localOrigin c\<rparr>) d) m m1"
  by (auto simp: net_request_def Let_def dest: ha_post_posted split: sum.splits)

lemma net_request_ready:
  assumes "ha_ready (nc_ha c) m"
  obtains c1 m1 where "net_request (Some h) d f c m = Inr (0, c1, m1)"
proof -
  obtain i m2 where g: "getClient (nc_ha c) m = Inr (Some i, m2)" "length (wrQueue (ac_chan (am_clients m i))) \<le> MaxPendingMsg"
    using assms by (auto simp: ha_ready_def split: sum.splits option.splits)
  then have "\<exists>m1. ha_post (nc_ha c) msg m = Inr (0, m1)" for msg
    using getClient_some [OF g(1)] by (auto simp: ha_post_def asynclt_post_def post_def split: prod.split)
  then obtain m1 where "ha_post (nc_ha c) (packMsg (h\<lparr>origin := nc_localOrigin c\<rparr>) d) m = Inr (0, m1)" by blast
  then show thesis by (auto intro!: that simp: net_request_def Let_def)
qed

lemma unpack_request: "unpackMsg (Some (packMsg h d)) null_header [] = (0, h\<lparr>hdr_size := of_nat (length d), serial := swap32 (serial h)\<rparr>, d)"
  by (simp add: unpackMsg_def packMsg_def)

text \<open>A server whose handler answers at once.\<close>

lemma server_replies:
  assumes "handler_for uid (origin h) s = Some g" and "rh = h\<lparr>hdr_size := of_nat (length d), serial := swap32 (serial h)\<rparr>"
    and "\<And>s. uh g uid rh d s = (SYNC_RESPONSE, r, s)" and "length (user_queue uid s) \<le> MaxPendingMsg"
  obtains s' where "net_onRecvMsg (net_onRequest uh net_createResponse) uid (packMsg h d) s = Inr s'"
    "user_queue uid s' = user_queue uid s @ [createResponse (nu_baseOrigin (ns_users s uid)) rh r]"
proof -
  let ?t = "s\<lparr>ns_users := (ns_users s)(uid := (ns_users s uid)\<lparr>nu_handler := Some g\<rparr>)\<rparr>"
  let ?resp = "createResponse (nu_baseOrigin (ns_users s uid)) rh r"
  have "net_onRecvMsg (net_onRequest uh net_createResponse) uid (packMsg h d) s = Inr (postMsg uid ?resp ?t)"
    using assms(1,3) by (simp add: net_onRecvMsg_def unpack_request net_onRequest_def net_createResponse_def SYNC_RESPONSE_def
        handler_for_def assms(2) Let_def split: option.splits)
  moreover have "user_queue uid (postMsg uid ?resp ?t) = user_queue uid s @ [?resp]"
    using postMsg_queue [of uid ?resp ?t] assms(4) by (simp add: user_queue_def)
  ultimately show thesis by (rule that)
qed

text \<open>The answer to a request of this client, as the client unpacks it.\<close>

lemma client_called:
  assumes "map_of (nc_msgHandlers cc) (serial h) = Some f" and "serial rh = swap32 (serial h)"
  shows "nc_called (net_onResponse (createResponse org rh r) cc) = nc_called cc @
    [(Some f, \<lparr>origin = org, reserve = 0, hdr_type = hdr_type rh OR LYMSG_TYPE_RESP, serial = serial h, hdr_size = of_nat (length r)\<rparr>, r)]"
  using assms by (simp add: net_onResponse_def createResponse_def unpack_request)

text \<open>A group with one connection.\<close>

definition sample_manager :: async_client_manager where
  "sample_manager = (let a = asynclt_new \<lparr>alloc_ok = \<lambda>_. True, fresh = \<lambda>_. 0\<rparr> None [] 80 1 [] in
    manager_new lymsg_protocol (\<lambda>_. a\<lparr>ac_client := (ac_client a)\<lparr>cl_fd := 5\<rparr>\<rparr>) (\<lambda>_. (ha_asynclt_new [])\<lparr>ha_clients := [0]\<rparr>))"

lemma sample_manager_ready: "ha_ready ha sample_manager"
  by (simp add: ha_ready_def getClient_def sample_manager_def manager_new_def ha_asynclt_new_def clt_usable_def client_isConnected_def
      client_isClosed_def asynclt_new_def client_new_def INVALID_SOCK_def Let_def)

text \<open>
  C2: A request and its synchronous answer, end to end.  A request that is posted puts one message on one connection of the client's
  group; the server that takes this message from the connection hands the request, with the client's origin and exactly the client's data, to
  the handler of the connection, whether it is its first request or a later one; and the one response
  queued for that connection, when it reaches the client, calls the handler of that very request, with
  the request's serial number, the server's origin, the request's type marked as a response and the
  handler's data.
\<close>
theorem request_reply_end_to_end:
  assumes "net_request (Some h) d (Some f) c m = Inr (0, c1, m1)"
    and "map_of (nc_msgHandlers c) (serial h) = None"
    and "handler_for uid (nc_localOrigin c) s = Some g"
    and "\<And>s. uh g uid \<lparr>origin = nc_localOrigin c, reserve = reserve h, hdr_type = hdr_type h, serial = swap32 (serial h),
      hdr_size = of_nat (length d)\<rparr> d s = (SYNC_RESPONSE, r, s)"
    and "length (user_queue uid s) \<le> MaxPendingMsg"
  shows "\<exists>req resp s'. posted (nc_ha c) req m m1 \<and>
    net_onRecvMsg (net_onRequest uh net_createResponse) uid req s = Inr s' \<and>
    user_queue uid s' = user_queue uid s @ [resp] \<and>
    nc_called (net_onResponse resp c1) = nc_called c @
      [(Some f, \<lparr>origin = nu_baseOrigin (ns_users s uid), reserve = 0, hdr_type = hdr_type h OR LYMSG_TYPE_RESP,
                 serial = serial h, hdr_size = of_nat (length r)\<rparr>, r)]"
proof -
  let ?h = "h\<lparr>origin := nc_localOrigin c\<rparr>"
  let ?rh = "?h\<lparr>hdr_size := of_nat (length d), serial := swap32 (serial ?h)\<rparr>"
  have rh: "?rh = \<lparr>origin = nc_localOrigin c, reserve = reserve h, hdr_type = hdr_type h, serial = swap32 (serial h), hdr_size = of_nat (length d)\<rparr>"
    by simp
  have uh: "uh g uid ?rh d s = (SYNC_RESPONSE, r, s)" for s unfolding rh by (rule assms(4))
  have g: "handler_for uid (origin ?h) s = Some g" using assms(3) by simp
  obtain s' where "net_onRecvMsg (net_onRequest uh net_createResponse) uid (packMsg ?h d) s = Inr s'"
      "user_queue uid s' = user_queue uid s @ [createResponse (nu_baseOrigin (ns_users s uid)) ?rh r]"
    by (rule server_replies [OF g refl, where uh = uh and r = r, OF uh assms(5)])
  moreover have "map_of (nc_msgHandlers c1) (serial h) = Some f" "nc_called c1 = nc_called c"
    using net_request_cases [OF assms(1)] assms(2) by (simp_all add: map_of_handler_insert)
  ultimately show ?thesis
    using net_request_queues [OF assms(1)] client_called [of c1 h f ?rh "nu_baseOrigin (ns_users s uid)" r] by auto
qed

theorem request_reply_end_to_end_witness:
  "\<exists>m c1 m1 s uh req resp s'. net_request (Some (null_header\<lparr>serial := 6\<rparr>)) [4, 5] (Some 9) (net_client_new 0 7) m = Inr (0, c1, m1) \<and>
    posted 0 req m m1 \<and>
    net_onRecvMsg (net_onRequest uh net_createResponse) 3 req s = Inr s' \<and> user_queue 3 s' = [resp] \<and>
    nc_called (net_onResponse resp c1) = [(Some 9, \<lparr>origin = 2, reserve = 0, hdr_type = LYMSG_TYPE_RESP, serial = 6, hdr_size = 2\<rparr>, [5, 4])]"
proof -
  let ?h = "null_header\<lparr>serial := 6\<rparr>" and ?c = "net_client_new 0 7"
  obtain m c1 m1 where a: "net_request (Some ?h) [4, 5] (Some 9) ?c m = Inr (0, c1, m1)"
    using request_posted_example by blast
  let ?al = "\<lparr>alloc_ok = \<lambda>_. True, fresh = \<lambda>_. 0\<rparr>"
  let ?s = "registerUserHandler 7 5 (net_server_new 2 (\<lambda>_. \<lparr>nu_user = user_new ?al, nu_baseOrigin = 2, nu_handler = None\<rparr>))"
  let ?uh = "\<lambda>(g::nat) (u::nat) (h::lymsg_header) (d::bytes) (s::net_server). (SYNC_RESPONSE, rev d, s)"
  have c: "map_of (nc_msgHandlers ?c) (serial ?h) = None" "nc_localOrigin ?c = 7" "nc_ha ?c = 0" "nc_called ?c = []"
    by (simp_all add: net_client_new_def)
  have s: "handler_for 3 (nc_localOrigin ?c) ?s = Some 5" "length (user_queue 3 ?s) \<le> MaxPendingMsg" "user_queue 3 ?s = []"
      "nu_baseOrigin (ns_users ?s 3) = 2"
    by (simp_all add: handler_for_def getUserHandler_def registerUserHandler_def c(2) AList.update_conv' net_server_new_def
        user_queue_def user_new_def)
  obtain req resp s' where "posted 0 req m m1" "net_onRecvMsg (net_onRequest ?uh net_createResponse) 3 req ?s = Inr s'"
      "user_queue 3 s' = [resp]" "nc_called (net_onResponse resp c1) =
        [(Some 9, \<lparr>origin = 2, reserve = 0, hdr_type = LYMSG_TYPE_RESP, serial = 6, hdr_size = 2\<rparr>, [5, 4])]"
    using request_reply_end_to_end [OF a c(1) s(1), where uh = ?uh and r = "[5, 4]", OF _ s(2)]
    by (auto simp: c s null_header_def)
  with a show ?thesis by blast
qed

end
