(* ===== verification/GateServer.thy ===== *)
theory GateServer
  imports Handshake NetServer
begin

text \<open>
  The gateway of \<^verbatim>\<open>src/lygc/gate_server.hpp\<close>: a \<^verbatim>\<open>NetServer\<close> whose users carry a session key.  A handshake
  message runs the server's steps of the handshake; a message with the encryption flag is decrypted and its
  response encrypted with the session key; any other message is passed on as it is.  An exception that a
  step throws leaves the worker thread (nothing catches it), so it is the result of the handler.
\<close>

record gate_user =
  gu_secret :: bytes
  gu_ivec :: bytes
  gu_enctype :: eEncryptType
  gu_handshakeFin :: bool

definition gate_user_new :: gate_user where
  "gate_user_new = \<lparr>gu_secret = [], gu_ivec = [], gu_enctype = eET_AES_CFB, gu_handshakeFin = False\<rparr>"

definition setHandshakeSuccess :: "bytes \<Rightarrow> eEncryptType \<Rightarrow> gate_user \<Rightarrow> gate_user" where
  "setHandshakeSuccess shareKey sessionType u =
    (if length shareKey \<ge> 32
     then u\<lparr>gu_secret := take 16 shareKey, gu_ivec := take 16 (drop 16 shareKey), gu_enctype := sessionType, gu_handshakeFin := True\<rparr>
     else u\<lparr>gu_handshakeFin := False\<rparr>)"

definition setHandshakeFail :: "gate_user \<Rightarrow> gate_user" where
  "setHandshakeFail u = u\<lparr>gu_handshakeFin := False\<rparr>"

definition isHandshakeDone :: "gate_user \<Rightarrow> bool" where
  "isHandshakeDone u = gu_handshakeFin u"

text \<open>\<open>None\<close> is a failed operation; a read beyond the key is the exception.\<close>

definition gate_decrypt :: "openssl \<Rightarrow> gate_user \<Rightarrow> bytes \<Rightarrow> std_exception + bytes option" where
  "gate_decrypt ssl u d =
    map_sum mem_error (\<lambda>(rc, out). if rc \<noteq> 0 then None else out)
      (symmetric_encrypt ssl d (gu_secret u) (gu_ivec u) (gu_enctype u) False)"

definition gate_encrypt :: "openssl \<Rightarrow> gate_user \<Rightarrow> bytes \<Rightarrow> std_exception + bytes option" where
  "gate_encrypt ssl u d =
    map_sum mem_error (\<lambda>(rc, out). if rc \<noteq> 0 then None else out)
      (symmetric_encrypt ssl d (gu_secret u) (gu_ivec u) (gu_enctype u) True)"

record gate_server =
  gs_net :: net_server
  gs_users :: "nat \<Rightarrow> gate_user"
  gs_serverSide :: handshake_helper
  gs_session_symsec_type :: eEncryptType

definition gate_server_new :: "net_server \<Rightarrow> gate_server" where
  "gate_server_new s = \<lparr>gs_net = s, gs_users = (\<lambda>_. gate_user_new), gs_serverSide = handshake_helper_new,
     gs_session_symsec_type = eET_AES_CFB\<rparr>"

definition gate_createUser :: "allocator \<Rightarrow> nat \<Rightarrow> gate_server \<Rightarrow> gate_server" where
  "gate_createUser al uid g = g\<lparr>
     gs_net := (gs_net g)\<lparr>ns_users := (ns_users (gs_net g))(uid := net_createUser al (gs_net g))\<rparr>,
     gs_users := (gs_users g)(uid := gate_user_new)\<rparr>"

definition loadPrivateKey :: "pkey option \<Rightarrow> gate_server \<Rightarrow> bool \<times> gate_server" where
  "loadPrivateKey loaded g =
    (case loadRSAKey loaded (gs_serverSide g) of (ok, hh) \<Rightarrow> (ok, g\<lparr>gs_serverSide := hh\<rparr>))"

definition setSessionSecType :: "eEncryptType \<Rightarrow> gate_server \<Rightarrow> gate_server" where
  "setSessionSecType t g = g\<lparr>gs_session_symsec_type := t\<rparr>"

text \<open>The result is the response data, the share key and the server's helper.\<close>

definition onHandshake ::
  "openssl \<Rightarrow> nat \<Rightarrow> eEncryptType \<Rightarrow> bytes \<Rightarrow> handshake_helper \<Rightarrow> std_exception + bytes \<times> bytes \<times> handshake_helper" where
  "onHandshake ssl rnd sessionType reqData hh =
    (case decryptHSReq ssl reqData hh of Inl e \<Rightarrow> Inl e
     | Inr None \<Rightarrow> Inr ([], [], hh)
     | Inr (Some q) \<Rightarrow>
       (case creatHSResp ssl rnd q sessionType hh of
          (None, hh1) \<Rightarrow> Inr ([], [], hh1)
        | (Some resp, hh1) \<Rightarrow>
          let shareKey = makeShareKey ssl (req_getPeerPubkey q) hh1 in
          map_sum id (\<lambda>respData. (respData, shareKey, hh1))
            (encryptHSResp ssl resp (q_temp_symsec q) (eET_of_nat (unat (q_temp_symsec_type q))))))"

definition gate_createResponse :: "openssl \<Rightarrow> (nat \<Rightarrow> gate_user) \<Rightarrow> response_maker" where
  "gate_createResponse ssl gu uid reqHeader respData s =
    (case (if hdr_type reqHeader AND LYMSG_TYPE_ENC \<noteq> 0 then
             if isHandshakeDone (gu uid)
             then map_sum id (\<lambda>r. case r of None \<Rightarrow> [] | Some packData \<Rightarrow> packData) (gate_encrypt ssl (gu uid) respData)
             else Inr []
           else Inr respData) of
       Inl e \<Rightarrow> Inl e
     | Inr packData \<Rightarrow> net_createResponse uid reqHeader packData s)"

definition gate_handshake ::
  "openssl \<Rightarrow> nat \<Rightarrow> nat \<Rightarrow> lymsg_header \<Rightarrow> bytes \<Rightarrow> gate_server \<Rightarrow> std_exception + gate_server" where
  "gate_handshake ssl rnd uid reqHeader reqData g =
    map_sum id (\<lambda>(respData, shareKey, hh).
        g\<lparr>gs_serverSide := hh,
          gs_users := (gs_users g)(uid :=
            if respData = [] then setHandshakeFail (gs_users g uid)
            else setHandshakeSuccess shareKey (gs_session_symsec_type g) (gs_users g uid)),
          gs_net := postMsg uid (createResponse (nu_baseOrigin (ns_users (gs_net g) uid)) reqHeader respData) (gs_net g)\<rparr>)
      (onHandshake ssl rnd (gs_session_symsec_type g) reqData (gs_serverSide g))"

definition gate_forward ::
  "openssl \<Rightarrow> user_handler \<Rightarrow> nat \<Rightarrow> lymsg_header \<Rightarrow> bytes \<Rightarrow> gate_server \<Rightarrow> std_exception + gate_server" where
  "gate_forward ssl uh uid reqHeader reqData g =
    map_sum id (\<lambda>s. g\<lparr>gs_net := s\<rparr>)
      (net_onRequest uh (gate_createResponse ssl (gs_users g)) uid reqHeader reqData (gs_net g))"

definition gate_onRequest ::
  "openssl \<Rightarrow> nat \<Rightarrow> user_handler \<Rightarrow> nat \<Rightarrow> lymsg_header \<Rightarrow> bytes \<Rightarrow> gate_server \<Rightarrow> std_exception + gate_server" where
  "gate_onRequest ssl rnd uh uid reqHeader reqData g =
    (if hdr_type reqHeader = LYMSG_TYPE_HANDSHAKE then gate_handshake ssl rnd uid reqHeader reqData g
     else if hdr_type reqHeader AND LYMSG_TYPE_ENC \<noteq> 0 then
       if isHandshakeDone (gs_users g uid) then
         (case gate_decrypt ssl (gs_users g uid) reqData of Inl e \<Rightarrow> Inl e
          | Inr None \<Rightarrow> Inr g
          | Inr (Some decrypted) \<Rightarrow> gate_forward ssl uh uid reqHeader decrypted g)
       else Inr g
     else gate_forward ssl uh uid reqHeader reqData g)"

section \<open>Session keys\<close>

lemma map_sum_InrE: "map_sum f h x = Inr y \<Longrightarrow> (\<And>z. x = Inr z \<Longrightarrow> y = h z \<Longrightarrow> P) \<Longrightarrow> P"
  by (cases x) auto

definition session_ok :: "gate_user \<Rightarrow> bool" where
  "session_ok u \<longleftrightarrow> (gu_handshakeFin u \<longrightarrow> length (gu_secret u) = 16 \<and> length (gu_ivec u) = 16 \<and> is_AES (gu_enctype u))"

definition gate_inv :: "gate_server \<Rightarrow> bool" where
  "gate_inv g \<longleftrightarrow> (\<forall>uid. session_ok (gs_users g uid))"

lemma onHandshake_session_AES:
  assumes "onHandshake ssl rnd t d hh = Inr (r, k, hh')" and "r \<noteq> []"
  shows "is_AES t"
proof (rule ccontr)
  assume n: "\<not> is_AES t"
  then have "creatHSResp ssl rnd q t hh = (None, hh)" for q by (simp add: creatHSResp_def)
  then have "r = []" using assms(1) by (simp add: onHandshake_def split: sum.splits option.splits)
  with assms(2) show False ..
qed

lemma gate_handshake_inv:
  assumes "gate_inv g" and "gate_handshake ssl rnd uid h d g = Inr g'"
  shows "gate_inv g'"
proof -
  obtain r k hh where o: "onHandshake ssl rnd (gs_session_symsec_type g) d (gs_serverSide g) = Inr (r, k, hh)"
    using assms(2) unfolding gate_handshake_def by (elim map_sum_InrE) (auto split: prod.splits)
  let ?u = "if r = [] then setHandshakeFail (gs_users g uid) else setHandshakeSuccess k (gs_session_symsec_type g) (gs_users g uid)"
  have "session_ok ?u"
    using onHandshake_session_AES [OF o] by (simp add: session_ok_def setHandshakeFail_def setHandshakeSuccess_def)
  moreover have "gs_users g' = (gs_users g)(uid := ?u)" using assms(2) by (auto simp: gate_handshake_def o)
  ultimately show ?thesis using assms(1) unfolding gate_inv_def by (metis fun_upd_apply)
qed

lemma gate_forward_users: "gate_forward ssl uh uid h d g = Inr g' \<Longrightarrow> gs_users g' = gs_users g"
  unfolding gate_forward_def by (elim map_sum_InrE) simp

lemma gate_onRequest_inv:
  assumes "gate_inv g" and "gate_onRequest ssl rnd uh uid h d g = Inr g'"
  shows "gate_inv g'"
proof (cases "hdr_type h = LYMSG_TYPE_HANDSHAKE")
  case True
  then show ?thesis using assms gate_handshake_inv by (simp add: gate_onRequest_def)
next
  case False
  then have "gs_users g' = gs_users g"
    using assms(2) gate_forward_users by (auto simp: gate_onRequest_def split: if_splits sum.splits option.splits)
  then show ?thesis using assms(1) by (simp add: gate_inv_def)
qed

lemma gate_no_fault:
  assumes "aes_laws ssl" and "session_ok u" and "isHandshakeDone u" and "length d \<le> 2 ^ 31 - 32"
  shows "\<exists>e z. gate_encrypt ssl u d = Inr (Some e) \<and> gate_decrypt ssl u e = Inr (Some (d @ z))"
  using aes_inverse [OF assms(1), of "gu_enctype u" "gu_secret u" "gu_ivec u" d] assms(2-4)
  by (auto simp: session_ok_def isHandshakeDone_def gate_encrypt_def gate_decrypt_def)

section \<open>The handshake, both sides\<close>

text \<open>
  Key agreement on a curve: the exported public keys of two pairs import again, and each side derives the
  same secret, which fits the buffer of either key's size.
\<close>

definition ec_laws :: "openssl \<Rightarrow> bool" where
  "ec_laws ssl \<longleftrightarrow> (\<forall>nid r r' a b. o_ec_keygen ssl nid r = Some a \<and> o_ec_keygen ssl nid r' = Some b \<longrightarrow>
    (\<exists>pa pb a' b' sk. o_octet_pub ssl a = Some pa \<and> o_octet_pub ssl b = Some pb \<and> pa \<noteq> [] \<and> pb \<noteq> [] \<and>
      length pa < 2 ^ 16 \<and> length pb < 2 ^ 16 \<and> o_ec_fromdata ssl nid pa = Some a' \<and> o_ec_fromdata ssl nid pb = Some b' \<and>
      o_derive ssl a b' = Some sk \<and> o_derive ssl b a' = Some sk \<and> sk \<noteq> [] \<and>
      int (length sk) \<le> o_pkey_size ssl a \<and> int (length sk) \<le> o_pkey_size ssl b))"

text \<open>On the curve P-256, whose number is 415, a secret derived from an own key and an imported one has 32 bytes.\<close>

definition p256_laws :: "openssl \<Rightarrow> bool" where
  "p256_laws ssl \<longleftrightarrow> (\<forall>r a p b k. o_ec_keygen ssl 415 r = Some a \<and> o_ec_fromdata ssl 415 p = Some b \<and>
    o_derive ssl a b = Some k \<longrightarrow> length k = 32)"

lemma creatHSReq_ecdh:
  assumes "creatHSReq ssl r rnd KX_ECDH nid t clt = Inr (Some q, c1)"
  obtains a sec n where "is_AES t" "o_ec_keygen ssl nid rnd = Some a" "randomString r NumbersAndLetters 32 rnd = Inr (sec, n)"
    "q = \<lparr>q_kx_type = KX_ECDH, q_dh = no_dh, q_ecdh = \<lparr>eq_curve_nid = word_of_int nid, eq_pubkey = ecc_export_pubkey ssl (Some a)\<rparr>,
       q_temp_symsec = sec, q_temp_symsec_type = of_nat (eET_to_nat t)\<rparr>"
    "c1 = (set_ecKey (Some a) (clt\<lparr>hh_kx_type := KX_ECDH\<rparr>))\<lparr>hh_ec_curve_nid := nid\<rparr>"
  using assms by (auto simp: creatHSReq_def ecc_create_def Let_def split: if_splits option.splits elim!: map_sum_InrE)

lemma sint_word_of_int: "0 \<le> nid \<Longrightarrow> nid < 2 ^ 31 \<Longrightarrow> sint (word_of_int nid :: u32) = nid"
  unfolding sint_uint by (simp add: uint_word_of_int signed_take_bit_int_eq_self)

lemma unat_enc_type: "is_AES t \<Longrightarrow> eET_of_nat (unat (of_nat (eET_to_nat t) :: u8)) = t"
  by (cases t) (simp_all add: is_AES_def eET_list_def eET_of_nat_def)

lemma share_key_ecdh:
  assumes "hh_kx_type hh = KX_ECDH" and "hh_ecKey hh = Some a" and "hh_ec_curve_nid hh = nid" and "pb \<noteq> []"
    and "o_ec_fromdata ssl nid pb = Some b'" and "o_derive ssl a b' = Some sk" and "sk \<noteq> []"
    and "int (length sk) \<le> o_pkey_size ssl a"
  shows "makeShareKey ssl pb hh = sk"
proof -
  have "0 < o_pkey_size ssl a" using assms(7,8) by (smt (verit) length_greater_0_conv of_nat_0_less_iff)
  then show ?thesis
    using assms by (simp add: makeShareKey_def ecc_compute_sharekey_def ecc_import_pubkey_def pkey_derive_shared_def)
qed

text \<open>
  The handshake succeeds and both sides hold the same key.  The request that a client creates for an
  elliptic-curve exchange and encrypts is accepted by the gateway; the gateway's answer is not empty, the
  client decrypts it, and the session key the client then derives is the one the gateway derived; the client
  learns the gateway's session cipher.
\<close>
lemma handshake_agreement:
  assumes "aes_laws ssl" and "rsa_laws ssl pub pri L" and "ec_laws ssl" and "rng_ok r"
    and "hh_rsaKey clt = Some pub" and "hh_rsaKey srv = Some pri"
    and "creatHSReq ssl r rnd KX_ECDH nid temp clt = Inr (Some q, c1)" and "0 \<le> nid" and "nid < 2 ^ 31"
    and "length (HandshakeReq_serialize q) * L < 2 ^ 31"
    and "o_ec_keygen ssl nid rnd' = Some b" and "is_AES sess"
  shows "\<exists>e d k srv' resp. encryptHSReq ssl q c1 = Inr e \<and> onHandshake ssl rnd' sess e srv = Inr (d, k, srv') \<and> d \<noteq> [] \<and>
    decryptHSResp ssl d (q_temp_symsec q) temp = Inr (Some resp) \<and>
    makeShareKey ssl (resp_getPeerPubkey resp) c1 = k \<and> (\<exists>a p b'. o_ec_keygen ssl nid rnd = Some a \<and> o_ec_fromdata ssl nid p = Some b' \<and> o_derive ssl a b' = Some k) \<and>
    eET_of_nat (unat (s_session_symsec_type resp)) = sess"
proof -
  from assms(7) obtain a sec n where c: "is_AES temp" "o_ec_keygen ssl nid rnd = Some a"
      "randomString r NumbersAndLetters 32 rnd = Inr (sec, n)"
      "q = \<lparr>q_kx_type = KX_ECDH, q_dh = no_dh, q_ecdh = \<lparr>eq_curve_nid = word_of_int nid, eq_pubkey = ecc_export_pubkey ssl (Some a)\<rparr>,
         q_temp_symsec = sec, q_temp_symsec_type = of_nat (eET_to_nat temp)\<rparr>"
      "c1 = (set_ecKey (Some a) (clt\<lparr>hh_kx_type := KX_ECDH\<rparr>))\<lparr>hh_ec_curve_nid := nid\<rparr>"
    by (rule creatHSReq_ecdh)
  obtain pa pb a' b' sk where k: "o_octet_pub ssl a = Some pa" "o_octet_pub ssl b = Some pb" "pa \<noteq> []" "pb \<noteq> []"
      "length pa < 2 ^ 16" "length pb < 2 ^ 16" "o_ec_fromdata ssl nid pa = Some a'" "o_ec_fromdata ssl nid pb = Some b'"
      "o_derive ssl a b' = Some sk" "o_derive ssl b a' = Some sk" "sk \<noteq> []"
      "int (length sk) \<le> o_pkey_size ssl a" "int (length sk) \<le> o_pkey_size ssl b"
    using assms(3) c(2) assms(11) unfolding ec_laws_def by metis
  have sec: "length sec = 32" using randomString_ok [OF assms(4), of NumbersAndLetters 32 rnd] c(3) by auto
  have okq: "ok_req q" using sec k(1,5) by (simp add: c(4) ok_req_def ok_str_def ecc_export_pubkey_def)
  have "hh_rsaKey c1 = Some pub" using assms(5) by (simp add: c(5) set_ecKey_def)
  then obtain e where e: "encryptHSReq ssl q c1 = Inr e" "decryptHSReq ssl e srv = Inr (Some q)"
    using hs_request_arrives [OF assms(2) _ assms(6) okq assms(10)] by blast
  let ?resp = "\<lparr>s_kx_type = KX_ECDH, s_dh = \<lparr>ds_pubkey = []\<rparr>, s_ecdh = \<lparr>es_pubkey = pb\<rparr>, s_session_symsec_type = of_nat (eET_to_nat sess)\<rparr>"
  let ?srv = "(set_ecKey (Some b) (srv\<lparr>hh_kx_type := KX_ECDH\<rparr>))\<lparr>hh_ec_curve_nid := nid\<rparr>"
  have cr: "creatHSResp ssl rnd' q sess srv = (Some ?resp, ?srv)"
    using assms(8,9,11,12) k(2) by (simp add: creatHSResp_def c(4) ecc_create_def ecc_export_pubkey_def sint_word_of_int)
  have okr: "ok_resp ?resp" "length (enc_resp ?resp) \<le> 2 ^ 31 - 32"
    using k(6) by (simp_all add: ok_resp_def ok_str_def resp_getPeerPubkey_def enc_resp_def enc_str_def)
  obtain d where d: "encryptHSResp ssl ?resp sec temp = Inr d" "d \<noteq> []" "decryptHSResp ssl d sec temp = Inr (Some ?resp)"
    using hs_resp_delivered [OF assms(1) c(1) sec okr] by blast
  have "makeShareKey ssl pa ?srv = sk" "makeShareKey ssl pb c1 = sk"
    using k share_key_ecdh [of ?srv b nid pa ssl a' sk] share_key_ecdh [of c1 a nid pb ssl b' sk]
    by (simp_all add: c(5) set_ecKey_def)
  then show ?thesis
    using e d cr c(2) k(1,8,9) unat_enc_type [OF c(1)] unat_enc_type [OF assms(12)]
    by (simp add: onHandshake_def c(4) req_getPeerPubkey_def resp_getPeerPubkey_def ecc_export_pubkey_def) blast
qed

lemma sample_aes_laws: "aes_laws sample_openssl"
  using sample_evp_laws by (simp add: aes_laws_def) (simp add: sample_openssl_def)

lemma sample_ec_laws: "ec_laws sample_openssl"
  by (simp add: ec_laws_def sample_openssl_def)

lemma sample_p256_laws: "p256_laws sample_openssl"
  by (auto simp: p256_laws_def sample_openssl_def)

section \<open>Requests at the gateway\<close>

inductive gate_reach :: "openssl \<Rightarrow> user_handler \<Rightarrow> gate_server \<Rightarrow> bool" for ssl uh where
  start: "gate_reach ssl uh (gate_server_new s)"
| key: "gate_reach ssl uh g \<Longrightarrow> gate_reach ssl uh (snd (loadPrivateKey k g))"
| sess: "gate_reach ssl uh g \<Longrightarrow> gate_reach ssl uh (setSessionSecType t g)"
| user: "gate_reach ssl uh g \<Longrightarrow> gate_reach ssl uh (gate_createUser al uid g)"
| request: "gate_reach ssl uh g \<Longrightarrow> gate_onRequest ssl rnd uh uid h d g = Inr g' \<Longrightarrow> gate_reach ssl uh g'"

lemma gate_reach_inv: "gate_reach ssl uh g \<Longrightarrow> gate_inv g"
proof (induction rule: gate_reach.induct)
  case (request g rnd uid h d g')
  then show ?case by (rule_tac gate_onRequest_inv)
qed (simp_all add: gate_inv_def gate_server_new_def gate_user_new_def session_ok_def loadPrivateKey_def
    setSessionSecType_def gate_createUser_def split: prod.split)

text \<open>
  C30: A session is always complete: from a fresh gateway on, whatever requests arrive, what the gateway
  encrypts for a user whose handshake is finished decrypts under the same session to the data followed by the
  padding of the cipher; neither direction can fail or read beyond a key.
\<close>
theorem session_always_usable:
  assumes "gate_reach ssl uh g" and "aes_laws ssl" and "isHandshakeDone (gs_users g uid)" and "length d \<le> 2 ^ 31 - 32"
  shows "\<exists>e z. gate_encrypt ssl (gs_users g uid) d = Inr (Some e) \<and> gate_decrypt ssl (gs_users g uid) e = Inr (Some (d @ z))"
  using gate_no_fault [OF assms(2) _ assms(3,4)] gate_reach_inv [OF assms(1)] by (simp add: gate_inv_def)

text \<open>A user's handler for the examples: it answers with the request's data.\<close>

definition echo :: user_handler where
  "echo f uid h d s = (SYNC_RESPONSE, d, s)"

definition sample_net :: net_server where
  "sample_net = registerUserHandler 7 0 (net_server_new 2
     (\<lambda>_. \<lparr>nu_user = user_new \<lparr>alloc_ok = \<lambda>_. True, fresh = \<lambda>_. 0\<rparr>, nu_baseOrigin = 2, nu_handler = None\<rparr>))"

lemma sample_net_queue: "user_queue uid sample_net = []"
  by (simp add: user_queue_def sample_net_def registerUserHandler_def net_server_new_def user_new_def)

lemma sample_handshake:
  "\<exists>g. gate_reach sample_openssl echo g \<and> isHandshakeDone (gs_users g 3) \<and> gu_enctype (gs_users g 3) = eET_AES_CFB \<and>
    nu_handler (ns_users (gs_net g) 3) = None \<and> getUserHandler 7 (gs_net g) = Some 0 \<and>
    length (user_queue 3 (gs_net g)) \<le> MaxPendingMsg"
proof -
  let ?h = "snd (loadRSAKey (Some 5) handshake_helper_new)"
  let ?q = "\<lparr>q_kx_type = KX_ECDH, q_dh = no_dh, q_ecdh = \<lparr>eq_curve_nid = 415, eq_pubkey = [7]\<rparr>,
    q_temp_symsec = replicate 32 1, q_temp_symsec_type = 15\<rparr>"
  have h: "hh_rsaKey ?h = Some 5" by (simp add: loadRSAKey_def)
  obtain e where e: "decryptHSReq sample_openssl e ?h = Inr (Some ?q)"
    using hs_request_arrives [OF sample_rsa_laws h h, of ?q]
    by (auto simp: ok_req_def ok_str_def req_roundtrip enc_req_def enc_str_def)
  let ?resp = "\<lparr>s_kx_type = KX_ECDH, s_dh = \<lparr>ds_pubkey = []\<rparr>, s_ecdh = \<lparr>es_pubkey = [9]\<rparr>, s_session_symsec_type = 15\<rparr>"
  have t: "is_AES eET_AES_CFB" by (simp add: is_AES_def eET_list_def)
  obtain hh where hh: "creatHSResp sample_openssl 9 ?q eET_AES_CFB ?h = (Some ?resp, hh)" "hh_kx_type hh = KX_ECDH"
      "hh_ecKey hh = Some 9" "hh_ec_curve_nid hh = 415"
    by (simp add: creatHSResp_def ecc_create_def t set_ecKey_def eET_list_def)
      (simp add: sample_openssl_def ecc_export_pubkey_def)
  obtain d where d: "encryptHSResp sample_openssl ?resp (replicate 32 1) eET_AES_CFB = Inr d" "d \<noteq> []"
    using hs_resp_delivered [OF sample_aes_laws t, of "replicate 32 1" ?resp]
    by (auto simp: ok_resp_def ok_str_def resp_getPeerPubkey_def enc_resp_def enc_str_def)
  have k: "makeShareKey sample_openssl [7] hh = replicate 32 63"
    by (rule share_key_ecdh [OF hh(2-4), of _ _ 7]) (simp_all add: sample_openssl_def)
  let ?g = "snd (loadPrivateKey (Some 5) (gate_server_new sample_net))"
  have g: "gs_serverSide ?g = ?h" "gs_session_symsec_type ?g = eET_AES_CFB"
    by (simp_all add: loadPrivateKey_def gate_server_new_def split: prod.split)
  have o: "onHandshake sample_openssl 9 eET_AES_CFB e ?h = Inr (d, replicate 32 63, hh)"
    using d(1) k by (simp add: onHandshake_def e hh(1) req_getPeerPubkey_def eET_of_nat_def eET_list_def)
  let ?hd = "null_header\<lparr>hdr_type := LYMSG_TYPE_HANDSHAKE\<rparr>" and ?m = "createResponse 2 (null_header\<lparr>hdr_type := LYMSG_TYPE_HANDSHAKE\<rparr>) d"
  have n: "gs_net ?g = sample_net" "nu_baseOrigin (ns_users sample_net 3) = 2" "nu_handler (ns_users sample_net 3) = None"
    by (simp_all add: loadPrivateKey_def gate_server_new_def sample_net_def registerUserHandler_def net_server_new_def split: prod.split)
  obtain g' where g': "gate_onRequest sample_openssl 9 echo 3 ?hd e ?g = Inr g'"
      "isHandshakeDone (gs_users g' 3)" "gu_enctype (gs_users g' 3) = eET_AES_CFB" "gs_net g' = postMsg 3 ?m sample_net"
    using d(2) by (simp add: gate_onRequest_def gate_handshake_def g o setHandshakeSuccess_def isHandshakeDone_def n)
  have "nu_handler (ns_users (postMsg 3 ?m sample_net) 3) = None"
    using n(3) by (simp add: postMsg_def split: prod.split)
  moreover have "getUserHandler 7 (postMsg 3 ?m sample_net) = Some 0"
    by (simp add: postMsg_def getUserHandler_def sample_net_def registerUserHandler_def net_server_new_def AList.update_conv' split: prod.split)
  moreover have "length (user_queue 3 (postMsg 3 ?m sample_net)) \<le> MaxPendingMsg"
    by (simp add: postMsg_queue sample_net_queue MaxPendingMsg_def)
  ultimately show ?thesis
    using gate_reach.request [OF gate_reach.key [OF gate_reach.start] g'(1)] g'(2-4) by metis
qed

theorem session_always_usable_witness:
  "\<exists>g e z. gate_reach sample_openssl echo g \<and> isHandshakeDone (gs_users g 3) \<and>
    gate_encrypt sample_openssl (gs_users g 3) [1, 2] = Inr (Some e) \<and>
    gate_decrypt sample_openssl (gs_users g 3) e = Inr (Some ([1, 2] @ z))"
proof -
  obtain g where g: "gate_reach sample_openssl echo g" "isHandshakeDone (gs_users g 3)"
    using sample_handshake by blast
  from session_always_usable [OF g(1) sample_aes_laws g(2), of "[1, 2]"] g show ?thesis by fastforce
qed

lemma gate_exact:
  assumes "aes_laws ssl" and "session_ok u" and "isHandshakeDone u" and "gu_enctype u = eET_AES_CFB"
    and "o_block_size ssl (EVP_aes 128 CFB) = 1" and "length d \<le> 2 ^ 31 - 32"
  shows "\<exists>e. gate_encrypt ssl u d = Inr (Some e) \<and> gate_decrypt ssl u e = Inr (Some d)"
proof -
  have "key_ok ssl eET_AES_CFB (EVP_aes 128 CFB) (gu_secret u) (gu_ivec u)" "evp_laws ssl (EVP_aes 128 CFB)"
    using assms(1-3) by (simp_all add: key_ok_def aes_laws_def session_ok_def isHandshakeDone_def)
  from symmetric_encrypt_inverse [OF _ this assms(6)] show ?thesis
    using assms(4,5) by (auto simp: gate_encrypt_def gate_decrypt_def zero_pad_whole)
qed

lemma gate_serves:
  assumes "isHandshakeDone (gs_users g uid)" "hdr_type h AND LYMSG_TYPE_ENC \<noteq> 0" "hdr_type h \<noteq> LYMSG_TYPE_HANDSHAKE"
    and "handler_for uid (origin h) (gs_net g) = Some f" "\<And>s. uh f uid h d s = (SYNC_RESPONSE, r, s)"
    and "length (user_queue uid (gs_net g)) \<le> MaxPendingMsg"
    and "gate_decrypt ssl (gs_users g uid) c = Inr (Some d)" "gate_encrypt ssl (gs_users g uid) r = Inr (Some body)"
  obtains g' where "gate_onRequest ssl rnd uh uid h c g = Inr g'"
    "user_queue uid (gs_net g') = user_queue uid (gs_net g) @ [createResponse (nu_baseOrigin (ns_users (gs_net g) uid)) h body]"
proof -
  let ?s = "gs_net g"
  let ?t = "?s\<lparr>ns_users := (ns_users ?s)(uid := (ns_users ?s uid)\<lparr>nu_handler := Some f\<rparr>)\<rparr>"
  let ?m = "createResponse (nu_baseOrigin (ns_users ?s uid)) h body"
  have "gate_createResponse ssl (gs_users g) uid h r ?t = Inr ?m"
    using assms(1,2,8) by (simp add: gate_createResponse_def net_createResponse_def)
  then have "gate_onRequest ssl rnd uh uid h c g = Inr (g\<lparr>gs_net := postMsg uid ?m ?t\<rparr>)"
    using assms(1-5,7) by (simp add: gate_onRequest_def gate_forward_def net_onRequest_def handler_for_def SYNC_RESPONSE_def Let_def)
  moreover have "user_queue uid (postMsg uid ?m ?t) = user_queue uid ?s @ [?m]"
    using postMsg_queue [of uid ?m ?t] assms(6) by (simp add: user_queue_def)
  ultimately show thesis using that by simp
qed

text \<open>
  An encrypted request is served in full secrecy: under a finished session with the default cipher, the
  handler receives exactly the data that the client encrypted, and the one response the gateway queues
  carries a body that decrypts under the session key to exactly the handler's answer.
\<close>
theorem encrypted_exchange:
  assumes "gate_reach ssl uh g" and "aes_laws ssl" and "o_block_size ssl (EVP_aes 128 CFB) = 1"
    and "isHandshakeDone (gs_users g uid)" and "gu_enctype (gs_users g uid) = eET_AES_CFB"
    and "hdr_type h AND LYMSG_TYPE_ENC \<noteq> 0" and "hdr_type h \<noteq> LYMSG_TYPE_HANDSHAKE"
    and "nu_handler (ns_users (gs_net g) uid) = None" and "getUserHandler (origin h) (gs_net g) = Some f"
    and "\<And>s. uh f uid h d s = (SYNC_RESPONSE, r, s)"
    and "length (user_queue uid (gs_net g)) \<le> MaxPendingMsg" and "length d \<le> 2 ^ 31 - 32" and "length r \<le> 2 ^ 31 - 32"
    and "gate_encrypt ssl (gs_users g uid) d = Inr (Some c)"
  shows "\<exists>g' m body rh. gate_onRequest ssl rnd uh uid h c g = Inr g' \<and>
    user_queue uid (gs_net g') = user_queue uid (gs_net g) @ [m] \<and>
    unpackMsg (Some m) null_header [] = (0, rh, body) \<and> gate_decrypt ssl (gs_users g uid) body = Inr (Some r)"
proof -
  let ?u = "gs_users g uid"
  have "session_ok ?u" using gate_reach_inv [OF assms(1)] by (simp add: gate_inv_def)
  note ex = gate_exact [OF assms(2) this assms(4,5,3)]
  have dec: "gate_decrypt ssl ?u c = Inr (Some d)" using ex [OF assms(12)] assms(14) by auto
  obtain body where b: "gate_encrypt ssl ?u r = Inr (Some body)" "gate_decrypt ssl ?u body = Inr (Some r)"
    using ex [OF assms(13)] by auto
  let ?m = "createResponse (nu_baseOrigin (ns_users (gs_net g) uid)) h body"
  have hf: "handler_for uid (origin h) (gs_net g) = Some f" using assms(8,9) by (simp add: handler_for_def)
  obtain g' where "gate_onRequest ssl rnd uh uid h c g = Inr g'" "user_queue uid (gs_net g') = user_queue uid (gs_net g) @ [?m]"
    by (rule gate_serves [where uh = uh and f = f and d = d and r = r, OF assms(4,6,7) hf assms(10,11) dec b(1)])
  moreover obtain rh where "unpackMsg (Some ?m) null_header [] = (0, rh, body)"
    by (simp add: createResponse_def unpackMsg_def packMsg_def)
  ultimately show ?thesis using b(2) by blast
qed

theorem encrypted_exchange_witness:
  "\<exists>g c g' m body rh. isHandshakeDone (gs_users g 3) \<and>
    gate_encrypt sample_openssl (gs_users g 3) [1, 2] = Inr (Some c) \<and>
    gate_onRequest sample_openssl 0 echo 3 (null_header\<lparr>origin := 7, hdr_type := LYMSG_TYPE_ENC\<rparr>) c g = Inr g' \<and>
    user_queue 3 (gs_net g') = user_queue 3 (gs_net g) @ [m] \<and>
    unpackMsg (Some m) null_header [] = (0, rh, body) \<and> gate_decrypt sample_openssl (gs_users g 3) body = Inr (Some [1, 2])"
proof -
  obtain g where g: "gate_reach sample_openssl echo g" "isHandshakeDone (gs_users g 3)" "gu_enctype (gs_users g 3) = eET_AES_CFB"
      "nu_handler (ns_users (gs_net g) 3) = None" "getUserHandler 7 (gs_net g) = Some 0"
      "length (user_queue 3 (gs_net g)) \<le> MaxPendingMsg"
    using sample_handshake by blast
  let ?h = "null_header\<lparr>origin := 7, hdr_type := LYMSG_TYPE_ENC\<rparr>"
  have b: "o_block_size sample_openssl (EVP_aes 128 CFB) = 1" by (simp add: sample_openssl_def)
  have h: "hdr_type ?h AND LYMSG_TYPE_ENC \<noteq> 0" "hdr_type ?h \<noteq> LYMSG_TYPE_HANDSHAKE" "getUserHandler (origin ?h) (gs_net g) = Some 0"
    using g(5) by (simp_all add: LYMSG_TYPE_ENC_def LYMSG_TYPE_HANDSHAKE_def)
  have "session_ok (gs_users g 3)" using gate_reach_inv [OF g(1)] by (simp add: gate_inv_def)
  then obtain c where c: "gate_encrypt sample_openssl (gs_users g 3) [1, 2] = Inr (Some c)"
    using gate_exact [OF sample_aes_laws _ g(2,3) b, of "[1, 2]"] by auto
  have "\<exists>g' m body rh. gate_onRequest sample_openssl 0 echo 3 ?h c g = Inr g' \<and>
      user_queue 3 (gs_net g') = user_queue 3 (gs_net g) @ [m] \<and>
      unpackMsg (Some m) null_header [] = (0, rh, body) \<and> gate_decrypt sample_openssl (gs_users g 3) body = Inr (Some [1, 2])"
    by (rule encrypted_exchange [OF g(1) sample_aes_laws b g(2,3) h(1,2) g(4) h(3) _ g(6) _ _ c]) (simp_all add: echo_def)
  with c g(2) show ?thesis by blast
qed

text \<open>
  Encryption is not enforced: a request without the encryption flag from a user that never shook hands
  reaches the handler as it is, and the answer goes back in the clear, while a request with the flag from
  such a user is dropped and changes nothing.
\<close>
theorem plain_requests_bypass:
  assumes "\<not> isHandshakeDone (gs_users g uid)" and "hdr_type h \<noteq> LYMSG_TYPE_HANDSHAKE"
    and "nu_handler (ns_users (gs_net g) uid) = None" and "getUserHandler (origin h) (gs_net g) = Some f"
    and "\<And>s. uh f uid h d s = (SYNC_RESPONSE, r, s)" and "length (user_queue uid (gs_net g)) \<le> MaxPendingMsg"
  shows "if hdr_type h AND LYMSG_TYPE_ENC \<noteq> 0 then gate_onRequest ssl rnd uh uid h d g = Inr g
    else (\<exists>g' m rh. gate_onRequest ssl rnd uh uid h d g = Inr g' \<and> user_queue uid (gs_net g') = user_queue uid (gs_net g) @ [m] \<and>
      unpackMsg (Some m) null_header [] = (0, rh, r))"
proof -
  let ?s = "gs_net g"
  let ?t = "?s\<lparr>ns_users := (ns_users ?s)(uid := (ns_users ?s uid)\<lparr>nu_handler := Some f\<rparr>)\<rparr>"
  let ?m = "createResponse (nu_baseOrigin (ns_users ?s uid)) h r"
  have q: "user_queue uid (postMsg uid ?m ?t) = user_queue uid ?s @ [?m]"
    using postMsg_queue [of uid ?m ?t] assms(6) by (simp add: user_queue_def)
  have on: "gate_onRequest ssl rnd uh uid h d g = Inr (g\<lparr>gs_net := postMsg uid ?m ?t\<rparr>)" if "hdr_type h AND LYMSG_TYPE_ENC = 0"
    using assms that by (simp add: gate_onRequest_def gate_forward_def net_onRequest_def gate_createResponse_def
        net_createResponse_def SYNC_RESPONSE_def Let_def)
  obtain rh where "unpackMsg (Some ?m) null_header [] = (0, rh, r)"
    by (simp add: createResponse_def unpackMsg_def packMsg_def)
  with on q show ?thesis using assms(1,2) by (auto simp: gate_onRequest_def)
qed

theorem plain_requests_bypass_witness:
  "\<exists>g g' m rh. gate_onRequest sample_openssl 0 echo 3 (null_header\<lparr>origin := 7\<rparr>) [1, 2] g = Inr g' \<and>
    \<not> isHandshakeDone (gs_users g 3) \<and> user_queue 3 (gs_net g') = [m] \<and> unpackMsg (Some m) null_header [] = (0, rh, [1, 2])"
proof -
  let ?g = "gate_server_new sample_net" and ?h = "null_header\<lparr>origin := 7\<rparr>"
  have a: "\<not> isHandshakeDone (gs_users ?g 3)" by (simp add: gate_server_new_def gate_user_new_def isHandshakeDone_def)
  have b: "hdr_type ?h \<noteq> LYMSG_TYPE_HANDSHAKE" "hdr_type ?h AND LYMSG_TYPE_ENC = 0" by (simp_all add: null_header_def LYMSG_TYPE_HANDSHAKE_def)
  have c: "nu_handler (ns_users (gs_net ?g) 3) = None" "getUserHandler (origin ?h) (gs_net ?g) = Some 0"
    by (simp_all add: gate_server_new_def sample_net_def registerUserHandler_def net_server_new_def getUserHandler_def AList.update_conv')
  have q: "user_queue 3 (gs_net ?g) = []" by (simp add: gate_server_new_def sample_net_queue)
  have "\<exists>g' m rh. gate_onRequest sample_openssl 0 echo 3 ?h [1, 2] ?g = Inr g' \<and>
      user_queue 3 (gs_net g') = user_queue 3 (gs_net ?g) @ [m] \<and> unpackMsg (Some m) null_header [] = (0, rh, [1, 2])"
    using plain_requests_bypass [OF a b(1) c, of echo "[1, 2]" "[1, 2]"] b(2) q by (simp add: echo_def)
  with a q show ?thesis by auto
qed

text \<open>
  A well-encrypted handshake request can stop the gateway: when the temporary secret it carries is
  shorter than sixteen bytes, as it also is when the request was cut short, the gateway throws
  \<^verbatim>\<open>std::out_of_range\<close> out of the handler once the key exchange itself went well.
\<close>
theorem short_secret_throws:
  assumes "rsa_laws ssl pub pri L" and "hh_rsaKey clt = Some pub" and "hh_rsaKey (gs_serverSide g) = Some pri"
    and "ok_req q" and "length (HandshakeReq_serialize q) * L < 2 ^ 31" and "length (q_temp_symsec q) < 16"
    and "q_kx_type q = KX_ECDH" and "o_ec_keygen ssl (sint (eq_curve_nid (q_ecdh q))) rnd = Some b"
    and "is_AES (gs_session_symsec_type g)" and "hdr_type h = LYMSG_TYPE_HANDSHAKE"
  shows "\<exists>e. encryptHSReq ssl q clt = Inr e \<and> gate_onRequest ssl rnd uh uid h e g = Inl out_of_range"
proof -
  obtain e where e: "encryptHSReq ssl q clt = Inr e" "decryptHSReq ssl e (gs_serverSide g) = Inr (Some q)"
    using hs_request_arrives [OF assms(1-5)] by blast
  obtain resp hh where "creatHSResp ssl rnd q (gs_session_symsec_type g) (gs_serverSide g) = (Some resp, hh)"
    using assms(7-9) by (simp add: creatHSResp_def ecc_create_def)
  then have "onHandshake ssl rnd (gs_session_symsec_type g) e (gs_serverSide g) = Inl out_of_range"
    using e(2) assms(6) by (simp add: onHandshake_def encryptHSResp_def temp_cipher_def)
  then show ?thesis using e(1) assms(10) by (simp add: gate_onRequest_def gate_handshake_def)
qed

theorem short_secret_throws_witness:
  "\<exists>clt q g e. encryptHSReq sample_openssl q clt = Inr e \<and> q_temp_symsec q = [] \<and>
    gate_onRequest sample_openssl 9 echo 3 (null_header\<lparr>hdr_type := LYMSG_TYPE_HANDSHAKE\<rparr>) e g = Inl out_of_range"
proof -
  let ?q = "\<lparr>q_kx_type = KX_ECDH, q_dh = no_dh, q_ecdh = \<lparr>eq_curve_nid = 415, eq_pubkey = []\<rparr>,
    q_temp_symsec = [], q_temp_symsec_type = 0\<rparr>"
  let ?g = "snd (loadPrivateKey (Some 5) (gate_server_new sample_net))"
  have "\<exists>e. encryptHSReq sample_openssl ?q (snd (loadRSAKey (Some 5) handshake_helper_new)) = Inr e \<and>
      gate_onRequest sample_openssl 9 echo 3 (null_header\<lparr>hdr_type := LYMSG_TYPE_HANDSHAKE\<rparr>) e ?g = Inl out_of_range"
    by (rule short_secret_throws [OF sample_rsa_laws [of 5 5], where b = 9])
      (simp_all add: loadRSAKey_def loadPrivateKey_def gate_server_new_def ok_req_def ok_str_def req_roundtrip enc_req_def
        enc_str_def is_AES_def eET_list_def, simp add: sample_openssl_def)
  moreover have "q_temp_symsec ?q = []" by simp
  ultimately show ?thesis by blast
qed

end
