(* ===== verification/DbReq.thy ===== *)
theory DbReq
  imports Serialize Memchunk
begin

text \<open>
  The database requests and responses that travel between the servers: \<^verbatim>\<open>src/wjp/mysql_client_req.hpp\<close>,
  \<^verbatim>\<open>src/wjp/redis_client_req.hpp\<close> and \<^verbatim>\<open>src/wjp/mongo_client_req.hpp\<close>.  Every pair of methods is a codec over
  \<open>Serialize\<close>.  A request type is the byte that is sent; a BSON document is its bytes, and the test of
  \<^verbatim>\<open>bson_new_from_data\<close> whether bytes are a document is the parameter \<open>bson_ok\<close>.
\<close>

section \<open>MySQL\<close>

text \<open>What a C function sees of a string: the bytes before the first zero.\<close>

definition c_str :: "bytes \<Rightarrow> bytes" where
  "c_str s = takeWhile (\<lambda>b. b \<noteq> 0) s"

definition execQuery :: u8 where "execQuery = 0"
definition execRealQuery :: u8 where "execRealQuery = 1"
definition execQueryForResult :: u8 where "execQueryForResult = 2"
definition execStatement :: u8 where "execStatement = 3"
definition mysqlReqNone :: u8 where "mysqlReqNone = 4"

record mysql_stmt_req_params =
  sp_params :: DataTable
  sp_paramCols :: u32
  sp_resultCols :: u32

record mysql_client_req =
  mq_version :: u16
  mq_type :: u8
  mq_db_slot :: u8
  mq_sql :: bytes
  mq_transaction :: bool
  mq_stmt_param :: "mysql_stmt_req_params option"
  mq_req_id :: u64
  mq_retry_times :: int

definition mysql_client_req_new :: "u8 \<Rightarrow> u8 \<Rightarrow> bytes \<Rightarrow> bool \<Rightarrow> mysql_client_req" where
  "mysql_client_req_new ty db_slot sql transaction = \<lparr>mq_version = 0, mq_type = ty, mq_db_slot = db_slot, mq_sql = sql,
     mq_transaction = transaction, mq_stmt_param = None, mq_req_id = 0, mq_retry_times = 0\<rparr>"

text \<open>A null \<^verbatim>\<open>sql\<close> is \<open>None\<close>; the variant with a length reads that many bytes at the pointer.\<close>

definition newQuery :: "u8 \<Rightarrow> bytes option \<Rightarrow> bool \<Rightarrow> mysql_client_req option" where
  "newQuery db_slot sql transaction = map_option (\<lambda>s. mysql_client_req_new execQuery db_slot s transaction) sql"

definition newQuery_len :: "u8 \<Rightarrow> bytes option \<Rightarrow> nat \<Rightarrow> bool \<Rightarrow> memerr + mysql_client_req option" where
  "newQuery_len db_slot sql len transaction =
    (case sql of None \<Rightarrow> Inr None
     | Some s \<Rightarrow> if length s < len then Inl OutOfBounds
         else Inr (Some (mysql_client_req_new execRealQuery db_slot (take len s) transaction)))"

definition newQueryForResult :: "u8 \<Rightarrow> bytes option \<Rightarrow> mysql_client_req option" where
  "newQueryForResult db_slot sql = map_option (\<lambda>s. mysql_client_req_new execQueryForResult db_slot s False) sql"

definition newStatement :: "u8 \<Rightarrow> bytes option \<Rightarrow> DataTable \<Rightarrow> u32 \<Rightarrow> u32 \<Rightarrow> bool \<Rightarrow> mysql_client_req option" where
  "newStatement db_slot sql params paramCols resultCols transaction =
    map_option (\<lambda>s. (mysql_client_req_new execStatement db_slot s transaction)\<lparr>mq_stmt_param :=
      Some \<lparr>sp_params = params, sp_paramCols = paramCols, sp_resultCols = resultCols\<rparr>\<rparr>) sql"

definition mysql_req_write :: "mysql_client_req \<Rightarrow> unit ser" where
  "mysql_req_write q = do {
     serialize_uint16 (mq_version q);
     serialize_int8 (mq_type q);
     serialize_uint8 (mq_db_slot q);
     serialize_str (mq_sql q);
     serialize_bool (mq_transaction q);
     serialize_bool (mq_stmt_param q \<noteq> None);
     (case mq_stmt_param q of None \<Rightarrow> State_Monad.return ()
      | Some p \<Rightarrow> do { serialize_table (sp_params p); serialize_int32 (sp_paramCols p); serialize_int32 (sp_resultCols p) }) }"

definition mysql_req_read :: "mysql_client_req ser" where
  "mysql_req_read = do {
     version \<leftarrow> deserialize_uint16;
     ty \<leftarrow> deserialize_int8;
     db_slot \<leftarrow> deserialize_uint8;
     sql \<leftarrow> deserialize_str;
     transaction \<leftarrow> deserialize_bool;
     param_exist \<leftarrow> deserialize_bool;
     p \<leftarrow> (if param_exist then do {
             params \<leftarrow> deserialize_table; paramCols \<leftarrow> deserialize_int32; resultCols \<leftarrow> deserialize_int32;
             State_Monad.return (Some \<lparr>sp_params = params, sp_paramCols = paramCols, sp_resultCols = resultCols\<rparr>) }
           else State_Monad.return None);
     State_Monad.return \<lparr>mq_version = version, mq_type = ty, mq_db_slot = db_slot, mq_sql = sql,
       mq_transaction = transaction, mq_stmt_param = p, mq_req_id = 0, mq_retry_times = 0\<rparr> }"

definition mysql_req_serialize :: "mysql_client_req \<Rightarrow> bytes" where
  "mysql_req_serialize q = fst (run_state (do { mysql_req_write q; data }) (serialize_helper_new []))"

definition mysql_req_deserialize :: "bytes \<Rightarrow> mysql_client_req" where
  "mysql_req_deserialize d = fst (run_state mysql_req_read (serialize_helper_new d))"

definition mysql_req_desc :: "mysql_client_req \<Rightarrow> bytes" where
  "mysql_req_desc q = lit ''{ver='' @ to_string (unat (mq_version q)) @ lit '',db='' @ to_string (unat (mq_db_slot q)) @
    lit '',type='' @ to_string_int (sint (mq_type q)) @ lit '',sql='' @ mq_sql q @ lit '',req='' @
    to_string (unat (mq_req_id q)) @ lit ''}''"

record mysql_client_resp =
  mr_version :: u16
  mr_req_id :: u64
  mr_rc :: u32
  mr_results :: DataTables
  mr_fieldsType :: FieldsType

definition mysql_client_resp_new :: "u64 \<Rightarrow> mysql_client_resp" where
  "mysql_client_resp_new reqId = \<lparr>mr_version = 0, mr_req_id = reqId, mr_rc = -1, mr_results = [], mr_fieldsType = []\<rparr>"

definition mysql_resp_write :: "mysql_client_resp \<Rightarrow> unit ser" where
  "mysql_resp_write s = do {
     serialize_uint16 (mr_version s);
     serialize_int64 (mr_req_id s);
     serialize_int32 (mr_rc s);
     serialize_tables (mr_results s);
     serialize_fields_type (mr_fieldsType s) }"

definition mysql_resp_read :: "mysql_client_resp ser" where
  "mysql_resp_read = do {
     version \<leftarrow> deserialize_uint16;
     req_id \<leftarrow> deserialize_int64;
     rc \<leftarrow> deserialize_int32;
     results \<leftarrow> deserialize_tables;
     fieldsType \<leftarrow> deserialize_fields_type;
     State_Monad.return \<lparr>mr_version = version, mr_req_id = req_id, mr_rc = rc, mr_results = results, mr_fieldsType = fieldsType\<rparr> }"

definition mysql_resp_serialize :: "mysql_client_resp \<Rightarrow> bytes" where
  "mysql_resp_serialize s = fst (run_state (do { mysql_resp_write s; data }) (serialize_helper_new []))"

definition mysql_resp_deserialize :: "bytes \<Rightarrow> mysql_client_resp" where
  "mysql_resp_deserialize d = fst (run_state mysql_resp_read (serialize_helper_new d))"

section \<open>Redis\<close>

definition execCommandStat :: u8 where "execCommandStat = 0"
definition execCommandInt :: u8 where "execCommandInt = 1"
definition execCommandStr :: u8 where "execCommandStr = 2"
definition execCommandSA :: u8 where "execCommandSA = 3"
definition execCommandSM :: u8 where "execCommandSM = 4"
definition execCommandSCA :: u8 where "execCommandSCA = 5"
definition redisReqNone :: u8 where "redisReqNone = 6"

record redis_client_req =
  rdq_version :: u16
  rdq_type :: u8
  rdq_db_slot :: u8
  rdq_argv :: "bytes list"
  rdq_req_id :: u64
  rdq_retry_times :: int

definition redis_req_write :: "redis_client_req \<Rightarrow> unit ser" where
  "redis_req_write q = do {
     serialize_uint16 (rdq_version q);
     serialize_int8 (rdq_type q);
     serialize_uint8 (rdq_db_slot q);
     serialize_int32 (of_nat (length (rdq_argv q)));
     for_each serialize_str (rdq_argv q) }"

text \<open>The count is signed here: a negative one reads no arguments.\<close>

definition redis_req_read :: "redis_client_req ser" where
  "redis_req_read = do {
     version \<leftarrow> deserialize_uint16;
     ty \<leftarrow> deserialize_int8;
     db_slot \<leftarrow> deserialize_uint8;
     argc \<leftarrow> deserialize_int32;
     argv \<leftarrow> collect (nat (sint argc)) deserialize_str;
     State_Monad.return \<lparr>rdq_version = version, rdq_type = ty, rdq_db_slot = db_slot, rdq_argv = argv, rdq_req_id = 0, rdq_retry_times = 0\<rparr> }"

definition redis_req_serialize :: "redis_client_req \<Rightarrow> bytes" where
  "redis_req_serialize q = fst (run_state (do { redis_req_write q; data }) (serialize_helper_new []))"

definition redis_req_deserialize :: "bytes \<Rightarrow> redis_client_req" where
  "redis_req_deserialize d = fst (run_state redis_req_read (serialize_helper_new d))"

fun join_space :: "bytes list \<Rightarrow> bytes" where
  "join_space [] = []"
| "join_space [a] = a"
| "join_space (a # as) = a @ lit '' '' @ join_space as"

definition redis_req_desc :: "redis_client_req \<Rightarrow> bytes" where
  "redis_req_desc q = lit ''{ver='' @ to_string (unat (rdq_version q)) @ lit '',db='' @ to_string (unat (rdq_db_slot q)) @
    lit '',type='' @ to_string_int (sint (rdq_type q)) @ lit '',argv='' @ join_space (rdq_argv q) @ lit '',req='' @
    to_string (unat (rdq_req_id q)) @ lit ''}''"

record redis_client_resp =
  rr_version :: u16
  rr_req_id :: u64
  rr_type :: u8
  rr_rc :: u32
  rr_resStat :: bool
  rr_resInt :: u64
  rr_resStr :: bytes
  rr_resSA :: DataRow
  rr_resSM :: StringMap
  rr_resSCA :: ScoreArray

definition redis_client_resp_new :: redis_client_resp where
  "redis_client_resp_new = \<lparr>rr_version = 0, rr_req_id = 0, rr_type = redisReqNone, rr_rc = -1, rr_resStat = False, rr_resInt = 0,
     rr_resStr = [], rr_resSA = [], rr_resSM = [], rr_resSCA = []\<rparr>"

definition redis_resp_write :: "redis_client_resp \<Rightarrow> unit ser" where
  "redis_resp_write s = do {
     serialize_uint16 (rr_version s);
     serialize_int64 (rr_req_id s);
     serialize_int8 (rr_type s);
     serialize_int32 (rr_rc s);
     (if rr_type s = execCommandStat then serialize_int8 (if rr_resStat s then 1 else 0)
      else if rr_type s = execCommandInt then serialize_int64 (rr_resInt s)
      else if rr_type s = execCommandStr then serialize_str (rr_resStr s)
      else if rr_type s = execCommandSA then serialize_row (rr_resSA s)
      else if rr_type s = execCommandSM then serialize_string_map (rr_resSM s)
      else if rr_type s = execCommandSCA then serialize_score_array (rr_resSCA s)
      else State_Monad.return ()) }"

definition redis_resp_read :: "redis_client_resp ser" where
  "redis_resp_read = do {
     version \<leftarrow> deserialize_uint16;
     req_id \<leftarrow> deserialize_int64;
     ty \<leftarrow> deserialize_int8;
     rc \<leftarrow> deserialize_int32;
     let s = redis_client_resp_new\<lparr>rr_version := version, rr_req_id := req_id, rr_type := ty, rr_rc := rc\<rparr> in
     if ty = execCommandStat then do { v \<leftarrow> deserialize_int8; State_Monad.return (s\<lparr>rr_resStat := (v \<noteq> 0)\<rparr>) }
     else if ty = execCommandInt then do { v \<leftarrow> deserialize_int64; State_Monad.return (s\<lparr>rr_resInt := v\<rparr>) }
     else if ty = execCommandStr then do { v \<leftarrow> deserialize_str; State_Monad.return (s\<lparr>rr_resStr := v\<rparr>) }
     else if ty = execCommandSA then do { v \<leftarrow> deserialize_row; State_Monad.return (s\<lparr>rr_resSA := v\<rparr>) }
     else if ty = execCommandSM then do { v \<leftarrow> deserialize_string_map; State_Monad.return (s\<lparr>rr_resSM := v\<rparr>) }
     else if ty = execCommandSCA then do { v \<leftarrow> deserialize_score_array; State_Monad.return (s\<lparr>rr_resSCA := v\<rparr>) }
     else State_Monad.return s }"

definition redis_resp_serialize :: "redis_client_resp \<Rightarrow> bytes" where
  "redis_resp_serialize s = fst (run_state (do { redis_resp_write s; data }) (serialize_helper_new []))"

definition redis_resp_deserialize :: "bytes \<Rightarrow> redis_client_resp" where
  "redis_resp_deserialize d = fst (run_state redis_resp_read (serialize_helper_new d))"

section \<open>Mongo\<close>

definition dropDatabase :: u8 where "dropDatabase = 0"
definition dropCollection :: u8 where "dropCollection = 1"
definition insertOne :: u8 where "insertOne = 2"
definition insertMany :: u8 where "insertMany = 3"
definition updateOne :: u8 where "updateOne = 4"
definition updateMany :: u8 where "updateMany = 5"
definition replaceOne :: u8 where "replaceOne = 6"
definition deleteOne :: u8 where "deleteOne = 7"
definition deleteMany :: u8 where "deleteMany = 8"
definition mongo_find :: u8 where "mongo_find = 9"
definition mongo_command :: u8 where "mongo_command = 10"
definition bulkExecute :: u8 where "bulkExecute = 11"
definition execTransaction :: u8 where "execTransaction = 12"
definition mongoReqNone :: u8 where "mongoReqNone = 13"

type_synonym bson = "bytes option"

definition serialize_bson :: "bson \<Rightarrow> unit ser" where
  "serialize_bson v = do {
     serialize_bool (v \<noteq> None);
     (case v of None \<Rightarrow> State_Monad.return () | Some bin \<Rightarrow> serialize_str bin) }"

definition deserialize_bson :: "(bytes \<Rightarrow> bool) \<Rightarrow> bson ser" where
  "deserialize_bson bson_ok = do {
     exist \<leftarrow> deserialize_bool;
     if exist then do { bin \<leftarrow> deserialize_str; State_Monad.return (if bson_ok bin then Some bin else None) }
     else State_Monad.return None }"

text \<open>
  A request with its list of further requests is the list of its nodes, the head first; \<^verbatim>\<open>mult_write\<close> and
  \<^verbatim>\<open>mwrite_size\<close> are one list.  The read preferences cannot be sent and are not part of a node.
\<close>

record mongo_client_req =
  gq_version :: u16
  gq_type :: u8
  gq_db_slot :: u8
  gq_collName :: bytes
  gq_opts :: bson
  gq_query :: bson
  gq_write :: bson
  gq_mult_write :: "bson list"
  gq_req_id :: u64
  gq_retry_times :: int

definition mongo_client_req_new :: "u8 \<Rightarrow> u8 \<Rightarrow> mongo_client_req" where
  "mongo_client_req_new ty db_slot = \<lparr>gq_version = 0, gq_type = ty, gq_db_slot = db_slot, gq_collName = [], gq_opts = None,
     gq_query = None, gq_write = None, gq_mult_write = [], gq_req_id = 0, gq_retry_times = 0\<rparr>"

definition newDropDB :: "u8 \<Rightarrow> mongo_client_req list" where
  "newDropDB db_slot = [mongo_client_req_new dropDatabase db_slot]"
definition newDropColl :: "u8 \<Rightarrow> bytes \<Rightarrow> mongo_client_req list" where
  "newDropColl db_slot collName = [(mongo_client_req_new dropCollection db_slot)\<lparr>gq_collName := collName\<rparr>]"
definition newInsertOne :: "u8 \<Rightarrow> bytes \<Rightarrow> bson \<Rightarrow> bson \<Rightarrow> mongo_client_req list" where
  "newInsertOne db_slot collName doc opts =
    [(mongo_client_req_new insertOne db_slot)\<lparr>gq_collName := collName, gq_write := doc, gq_opts := opts\<rparr>]"
definition newInsertMany :: "u8 \<Rightarrow> bytes \<Rightarrow> bson list \<Rightarrow> bson \<Rightarrow> mongo_client_req list" where
  "newInsertMany db_slot collName docs opts =
    [(mongo_client_req_new insertMany db_slot)\<lparr>gq_collName := collName, gq_mult_write := docs, gq_opts := opts\<rparr>]"
definition newFind :: "u8 \<Rightarrow> bytes \<Rightarrow> bson \<Rightarrow> bson \<Rightarrow> mongo_client_req list" where
  "newFind db_slot collName query opts =
    [(mongo_client_req_new mongo_find db_slot)\<lparr>gq_collName := collName, gq_query := query, gq_opts := opts\<rparr>]"
definition newUpdate :: "u8 \<Rightarrow> bytes \<Rightarrow> bson \<Rightarrow> bson \<Rightarrow> u8 \<Rightarrow> bson \<Rightarrow> mongo_client_req list" where
  "newUpdate db_slot collName query w ty opts =
    [(mongo_client_req_new ty db_slot)\<lparr>gq_collName := collName, gq_query := query, gq_write := w, gq_opts := opts\<rparr>]"
definition newDelete :: "u8 \<Rightarrow> bytes \<Rightarrow> bson \<Rightarrow> u8 \<Rightarrow> bson \<Rightarrow> mongo_client_req list" where
  "newDelete db_slot collName query ty opts =
    [(mongo_client_req_new ty db_slot)\<lparr>gq_collName := collName, gq_query := query, gq_opts := opts\<rparr>]"
definition newCommand :: "u8 \<Rightarrow> bson \<Rightarrow> bson \<Rightarrow> mongo_client_req list" where
  "newCommand db_slot cmd opts = [(mongo_client_req_new mongo_command db_slot)\<lparr>gq_write := cmd, gq_opts := opts\<rparr>]"
definition newBulk :: "u8 \<Rightarrow> bytes \<Rightarrow> bson \<Rightarrow> mongo_client_req list" where
  "newBulk db_slot collName opts = [(mongo_client_req_new bulkExecute db_slot)\<lparr>gq_collName := collName, gq_opts := opts\<rparr>]"
definition newTransaction :: "u8 \<Rightarrow> mongo_client_req list" where
  "newTransaction db_slot = [mongo_client_req_new execTransaction db_slot]"

definition mongo_append :: "mongo_client_req list \<Rightarrow> mongo_client_req list \<Rightarrow> mongo_client_req list" where
  "mongo_append head req = head @ req"

definition serialize_one :: "mongo_client_req \<Rightarrow> unit ser" where
  "serialize_one q = do {
     serialize_uint16 (gq_version q);
     serialize_int8 (gq_type q);
     serialize_uint8 (gq_db_slot q);
     serialize_str (gq_collName q);
     serialize_bson (gq_opts q);
     serialize_bson (gq_query q);
     serialize_bson (gq_write q);
     serialize_uint32 (of_nat (length (gq_mult_write q)));
     for_each serialize_bson (gq_mult_write q) }"

definition deserialize_one :: "(bytes \<Rightarrow> bool) \<Rightarrow> mongo_client_req ser" where
  "deserialize_one bson_ok = do {
     version \<leftarrow> deserialize_uint16;
     ty \<leftarrow> deserialize_int8;
     db_slot \<leftarrow> deserialize_uint8;
     collName \<leftarrow> deserialize_str;
     opts \<leftarrow> deserialize_bson bson_ok;
     query \<leftarrow> deserialize_bson bson_ok;
     w \<leftarrow> deserialize_bson bson_ok;
     mwrite_size \<leftarrow> deserialize_uint32;
     mult_write \<leftarrow> collect (unat mwrite_size) (deserialize_bson bson_ok);
     State_Monad.return \<lparr>gq_version = version, gq_type = ty, gq_db_slot = db_slot, gq_collName = collName, gq_opts = opts,
       gq_query = query, gq_write = w, gq_mult_write = mult_write, gq_req_id = 0, gq_retry_times = 0\<rparr> }"

fun mongo_req_write :: "mongo_client_req list \<Rightarrow> unit ser" where
  "mongo_req_write [] = State_Monad.return ()"
| "mongo_req_write (q # qs) = do { serialize_one q; serialize_bool (qs \<noteq> []); mongo_req_write qs }"

definition mongo_req_serialize :: "mongo_client_req list \<Rightarrow> bytes" where
  "mongo_req_serialize qs = fst (run_state (do { mongo_req_write qs; data }) (serialize_helper_new []))"

text \<open>The loop of \<^verbatim>\<open>deserialize\<close> ends: each further node costs at least the byte that announced it.\<close>

lemma reader_uint16 [intro]: "reader deserialize_uint16"
  by unfold_locales (auto simp: deserialize_uint16_def suffix_drop)

lemma reader_uint8 [intro]: "reader deserialize_uint8"
  by unfold_locales (auto simp: deserialize_uint8_def suffix_drop)

lemma reader_bool [intro]: "reader deserialize_bool"
  unfolding deserialize_bool_def by (intro reader_bind reader_uint8 reader_return)

lemma reader_bson [intro]: "reader (deserialize_bson bson_ok)"
proof -
  have "reader (do { bin \<leftarrow> deserialize_str; State_Monad.return (if bson_ok bin then Some bin else None) })"
    by (intro reader_bind reader_str reader_return)
  then show ?thesis unfolding deserialize_bson_def by (intro reader_bind reader_bool) (auto intro: reader_return)
qed

interpretation bson_reader: reader "deserialize_bson bson_ok" for bson_ok by (rule reader_bson)

lemma reader_one [intro]: "reader (deserialize_one bson_ok)"
  unfolding deserialize_one_def deserialize_int8_def
  by (intro reader_bind reader_uint16 reader_uint8 reader_str reader_bson reader_uint32 reader_collect reader_return)

interpretation one_reader: reader "deserialize_one bson_ok" for bson_ok by (rule reader_one)

lemma bool_consumes:
  "run_state deserialize_bool h = (True, h') \<Longrightarrow> length (stringbuf h') < length (stringbuf h)"
  by (auto simp: deserialize_bool_def deserialize_uint8_def split: if_splits)

lemma chain_decreases:
  assumes "run_state (deserialize_one bson_ok) h = (q, h1)" and "run_state deserialize_bool h1 = (True, h2)"
  shows "length (stringbuf h2) < length (stringbuf h)"
  using one_reader.consumes_length [of bson_ok h] bool_consumes [OF assms(2)] assms(1) by simp

function mongo_chain :: "(bytes \<Rightarrow> bool) \<Rightarrow> serialize_helper \<Rightarrow> mongo_client_req list \<times> serialize_helper" where
  "mongo_chain bson_ok h =
    (case run_state (deserialize_one bson_ok) h of (q, h1) \<Rightarrow>
     case run_state deserialize_bool h1 of (another, h2) \<Rightarrow>
       if another then (case mongo_chain bson_ok h2 of (qs, h3) \<Rightarrow> (q # qs, h3)) else ([q], h2))"
  by pat_completeness auto
termination
  by (relation "measure (\<lambda>(ok, h). length (stringbuf h))") (auto dest: sym intro: chain_decreases)

declare mongo_chain.simps [simp del]

definition mongo_req_deserialize :: "(bytes \<Rightarrow> bool) \<Rightarrow> bytes \<Rightarrow> mongo_client_req list" where
  "mongo_req_deserialize bson_ok d = fst (mongo_chain bson_ok (serialize_helper_new d))"

definition mongo_req_desc :: "mongo_client_req \<Rightarrow> bytes" where
  "mongo_req_desc q = lit ''{ver='' @ to_string (unat (gq_version q)) @ lit '',db='' @ to_string (unat (gq_db_slot q)) @
    lit '',type='' @ to_string_int (sint (gq_type q)) @ lit '',coll='' @ gq_collName q @ lit '',req='' @
    to_string (unat (gq_req_id q)) @ lit ''}''"

record mongo_client_resp =
  gr_version :: u16
  gr_req_id :: u64
  gr_rc :: u32
  gr_reply :: bson
  gr_result_docs :: "bson list"

definition mongo_client_resp_new :: "u64 \<Rightarrow> mongo_client_resp" where
  "mongo_client_resp_new reqId = \<lparr>gr_version = 0, gr_req_id = reqId, gr_rc = -1, gr_reply = None, gr_result_docs = []\<rparr>"

definition mongo_resp_write :: "mongo_client_resp \<Rightarrow> unit ser" where
  "mongo_resp_write s = do {
     serialize_uint16 (gr_version s);
     serialize_int64 (gr_req_id s);
     serialize_int32 (gr_rc s);
     serialize_bson (gr_reply s);
     serialize_uint32 (of_nat (length (gr_result_docs s)));
     for_each serialize_bson (gr_result_docs s) }"

definition mongo_resp_read :: "(bytes \<Rightarrow> bool) \<Rightarrow> mongo_client_resp ser" where
  "mongo_resp_read bson_ok = do {
     version \<leftarrow> deserialize_uint16;
     req_id \<leftarrow> deserialize_int64;
     rc \<leftarrow> deserialize_int32;
     reply \<leftarrow> deserialize_bson bson_ok;
     size \<leftarrow> deserialize_uint32;
     docs \<leftarrow> collect (unat size) (deserialize_bson bson_ok);
     State_Monad.return \<lparr>gr_version = version, gr_req_id = req_id, gr_rc = rc, gr_reply = reply, gr_result_docs = docs\<rparr> }"

definition mongo_resp_serialize :: "mongo_client_resp \<Rightarrow> bytes" where
  "mongo_resp_serialize s = fst (run_state (do { mongo_resp_write s; data }) (serialize_helper_new []))"

definition mongo_resp_deserialize :: "(bytes \<Rightarrow> bool) \<Rightarrow> bytes \<Rightarrow> mongo_client_resp" where
  "mongo_resp_deserialize bson_ok d = fst (run_state (mongo_resp_read bson_ok) (serialize_helper_new d))"

section \<open>Every message is a codec\<close>

lemma u8_upd [simp]:
  "run_state deserialize_uint8 (h\<lparr>stringbuf := v # r\<rparr>) = (v, h\<lparr>stringbuf := r\<rparr>)"
  "run_state deserialize_int8 (h\<lparr>stringbuf := v # r\<rparr>) = (v, h\<lparr>stringbuf := r\<rparr>)"
  using u8.deser_enc_upd [where x = v and h = h and r = r] i8.deser_enc_upd [where x = v and h = h and r = r] by simp_all

lemma stringbuf_split: "stringbuf h = e @ r \<Longrightarrow> h = h\<lparr>stringbuf := e @ r\<rparr>"
  by (cases h) simp

lemmas codec_ser = u8.ser_enc i8.ser_enc u16.ser_enc u32.ser_enc i32.ser_enc i64.ser_enc bool.ser_enc str.ser_enc row.ser_enc
  table.ser_enc tables.ser_enc fields.ser_enc smap.ser_enc scores.ser_enc str.ser_each

lemmas codec_deser = u16.deser_enc_upd u32.deser_enc_upd i32.deser_enc_upd i64.deser_enc_upd bool.deser_enc_upd str.deser_enc_upd
  row.deser_enc_upd table.deser_enc_upd tables.deser_enc_upd fields.deser_enc_upd smap.deser_enc_upd scores.deser_enc_upd

definition enc_mysql_req :: "mysql_client_req \<Rightarrow> bytes" where
  "enc_mysql_req q = be_bytes 2 (mq_version q) @ [mq_type q] @ [mq_db_slot q] @ enc_str (mq_sql q) @ enc_bool (mq_transaction q) @
    (case mq_stmt_param q of None \<Rightarrow> enc_bool False
     | Some p \<Rightarrow> enc_bool True @ enc_table (sp_params p) @ be_bytes 4 (sp_paramCols p) @ be_bytes 4 (sp_resultCols p))"

definition ok_mysql_req :: "mysql_client_req \<Rightarrow> bool" where
  "ok_mysql_req q \<longleftrightarrow> ok_str (mq_sql q) \<and> mq_req_id q = 0 \<and> mq_retry_times q = 0 \<and>
    (case mq_stmt_param q of None \<Rightarrow> True | Some p \<Rightarrow> ok_table (sp_params p))"

interpretation mysql_req: codec mysql_req_write mysql_req_read enc_mysql_req ok_mysql_req
proof
  fix q and h :: serialize_helper
  show "run_state (mysql_req_write q) h = ((), h\<lparr>oss := oss h @ enc_mysql_req q\<rparr>)"
    by (simp add: mysql_req_write_def enc_mysql_req_def codec_ser split: option.split)
next
  fix q and h :: serialize_helper and r
  assume ok: "ok_mysql_req q" and "stringbuf h = enc_mysql_req q @ r"
  then have "h = h\<lparr>stringbuf := enc_mysql_req q @ r\<rparr>" by (intro stringbuf_split)
  moreover have "run_state mysql_req_read (h\<lparr>stringbuf := enc_mysql_req q @ r\<rparr>) = (q, h\<lparr>stringbuf := r\<rparr>)"
    using ok by (cases "mq_stmt_param q") (simp_all add: mysql_req_read_def enc_mysql_req_def ok_mysql_req_def codec_deser)
  ultimately show "run_state mysql_req_read h = (q, h\<lparr>stringbuf := r\<rparr>)" by simp
qed

definition enc_mysql_resp :: "mysql_client_resp \<Rightarrow> bytes" where
  "enc_mysql_resp s = be_bytes 2 (mr_version s) @ be_bytes 8 (mr_req_id s) @ be_bytes 4 (mr_rc s) @ enc_tables (mr_results s) @
    enc_list (be_bytes 4) (mr_fieldsType s)"

definition ok_mysql_resp :: "mysql_client_resp \<Rightarrow> bool" where
  "ok_mysql_resp s \<longleftrightarrow> ok_tables (mr_results s) \<and> ok_list (\<lambda>_. True) (mr_fieldsType s)"

interpretation mysql_resp: codec mysql_resp_write mysql_resp_read enc_mysql_resp ok_mysql_resp
proof
  fix q and h :: serialize_helper
  show "run_state (mysql_resp_write q) h = ((), h\<lparr>oss := oss h @ enc_mysql_resp q\<rparr>)"
    by (simp add: mysql_resp_write_def enc_mysql_resp_def codec_ser)
next
  fix q and h :: serialize_helper and r
  assume ok: "ok_mysql_resp q" and "stringbuf h = enc_mysql_resp q @ r"
  then have "h = h\<lparr>stringbuf := enc_mysql_resp q @ r\<rparr>" by (intro stringbuf_split)
  moreover have "run_state mysql_resp_read (h\<lparr>stringbuf := enc_mysql_resp q @ r\<rparr>) = (q, h\<lparr>stringbuf := r\<rparr>)"
    using ok by (simp add: mysql_resp_read_def enc_mysql_resp_def ok_mysql_resp_def codec_deser)
  ultimately show "run_state mysql_resp_read h = (q, h\<lparr>stringbuf := r\<rparr>)" by simp
qed

definition enc_redis_req :: "redis_client_req \<Rightarrow> bytes" where
  "enc_redis_req q = be_bytes 2 (rdq_version q) @ [rdq_type q] @ [rdq_db_slot q] @
    be_bytes 4 (of_nat (length (rdq_argv q)) :: u32) @ concat (map enc_str (rdq_argv q))"

definition ok_redis_req :: "redis_client_req \<Rightarrow> bool" where
  "ok_redis_req q \<longleftrightarrow> length (rdq_argv q) < 2 ^ 31 \<and> list_all ok_str (rdq_argv q) \<and> rdq_req_id q = 0 \<and> rdq_retry_times q = 0"

lemma nat_sint_of_nat:
  assumes "n < 2 ^ 31"
  shows "nat (sint (of_nat n :: u32)) = n"
proof -
  have "unat (of_nat n :: u32) = n" using assms by simp
  then have "uint (of_nat n :: u32) = int n" by (metis uint_nat)
  then show ?thesis using assms unfolding sint_uint by (simp add: signed_take_bit_int_eq_self)
qed

lemma strs_upd:
  "list_all ok_str xs \<Longrightarrow> run_state (collect (length xs) deserialize_str) (h\<lparr>stringbuf := concat (map enc_str xs) @ r\<rparr>) =
    (xs, h\<lparr>stringbuf := r\<rparr>)"
  by (subst str.deser_each [where r = r]) simp_all

interpretation redis_req: codec redis_req_write redis_req_read enc_redis_req ok_redis_req
proof
  fix q and h :: serialize_helper
  show "run_state (redis_req_write q) h = ((), h\<lparr>oss := oss h @ enc_redis_req q\<rparr>)"
    by (simp add: redis_req_write_def enc_redis_req_def codec_ser)
next
  fix q and h :: serialize_helper and r
  assume ok: "ok_redis_req q" and "stringbuf h = enc_redis_req q @ r"
  then have "h = h\<lparr>stringbuf := enc_redis_req q @ r\<rparr>" by (intro stringbuf_split)
  moreover have "run_state redis_req_read (h\<lparr>stringbuf := enc_redis_req q @ r\<rparr>) = (q, h\<lparr>stringbuf := r\<rparr>)"
    using ok by (simp add: redis_req_read_def enc_redis_req_def ok_redis_req_def codec_deser nat_sint_of_nat strs_upd)
  ultimately show "run_state redis_req_read h = (q, h\<lparr>stringbuf := r\<rparr>)" by simp
qed

definition enc_redis_resp :: "redis_client_resp \<Rightarrow> bytes" where
  "enc_redis_resp s = be_bytes 2 (rr_version s) @ be_bytes 8 (rr_req_id s) @ [rr_type s] @ be_bytes 4 (rr_rc s) @
    (if rr_type s = execCommandStat then [if rr_resStat s then 1 else 0]
     else if rr_type s = execCommandInt then be_bytes 8 (rr_resInt s)
     else if rr_type s = execCommandStr then enc_str (rr_resStr s)
     else if rr_type s = execCommandSA then enc_row (rr_resSA s)
     else if rr_type s = execCommandSM then enc_list (enc_pair enc_str enc_str) (rr_resSM s)
     else if rr_type s = execCommandSCA then enc_list (enc_pair (be_bytes 8) enc_str) (rr_resSCA s)
     else [])"

text \<open>Only the result of the response's type is sent; the others keep their initial values.\<close>

definition only_result :: "redis_client_resp \<Rightarrow> redis_client_resp" where
  "only_result s = redis_client_resp_new\<lparr>rr_version := rr_version s, rr_req_id := rr_req_id s, rr_type := rr_type s, rr_rc := rr_rc s,
     rr_resStat := (rr_type s = execCommandStat \<and> rr_resStat s), rr_resInt := (if rr_type s = execCommandInt then rr_resInt s else 0),
     rr_resStr := (if rr_type s = execCommandStr then rr_resStr s else []), rr_resSA := (if rr_type s = execCommandSA then rr_resSA s else []),
     rr_resSM := (if rr_type s = execCommandSM then rr_resSM s else []), rr_resSCA := (if rr_type s = execCommandSCA then rr_resSCA s else [])\<rparr>"

definition ok_redis_resp :: "redis_client_resp \<Rightarrow> bool" where
  "ok_redis_resp s \<longleftrightarrow> only_result s = s \<and> ok_str (rr_resStr s) \<and> ok_row (rr_resSA s) \<and> ok_map (rr_resSM s) \<and>
    ok_list (\<lambda>p. ok_str (snd p)) (rr_resSCA s)"

lemmas redis_types = execCommandStat_def execCommandInt_def execCommandStr_def execCommandSA_def execCommandSM_def execCommandSCA_def

interpretation redis_resp: codec redis_resp_write redis_resp_read enc_redis_resp ok_redis_resp
proof
  fix q and h :: serialize_helper
  show "run_state (redis_resp_write q) h = ((), h\<lparr>oss := oss h @ enc_redis_resp q\<rparr>)"
    by (simp add: redis_resp_write_def enc_redis_resp_def codec_ser)
next
  fix q and h :: serialize_helper and r
  assume ok: "ok_redis_resp q" and "stringbuf h = enc_redis_resp q @ r"
  then have "h = h\<lparr>stringbuf := enc_redis_resp q @ r\<rparr>" by (intro stringbuf_split)
  moreover have f: "ok_str (rr_resStr q)" "ok_row (rr_resSA q)" "ok_map (rr_resSM q)" "ok_list (\<lambda>p. ok_str (snd p)) (rr_resSCA q)"
    using ok by (simp_all add: ok_redis_resp_def)
  moreover have "run_state redis_resp_read (h\<lparr>stringbuf := enc_redis_resp q @ r\<rparr>) = (only_result q, h\<lparr>stringbuf := r\<rparr>)"
    using f by (simp add: redis_resp_read_def enc_redis_resp_def codec_deser only_result_def redis_client_resp_new_def
        redis_types Let_def)
  ultimately show "run_state redis_resp_read h = (q, h\<lparr>stringbuf := r\<rparr>)" using ok by (simp add: ok_redis_resp_def)
qed

definition enc_bson :: "bson \<Rightarrow> bytes" where
  "enc_bson v = (case v of None \<Rightarrow> enc_bool False | Some bin \<Rightarrow> enc_bool True @ enc_str bin)"

definition ok_bson :: "(bytes \<Rightarrow> bool) \<Rightarrow> bson \<Rightarrow> bool" where
  "ok_bson bson_ok v \<longleftrightarrow> (case v of None \<Rightarrow> True | Some bin \<Rightarrow> ok_str bin \<and> bson_ok bin)"

interpretation bson: codec serialize_bson "deserialize_bson bson_ok" enc_bson "ok_bson bson_ok" for bson_ok
proof
  fix v and h :: serialize_helper
  show "run_state (serialize_bson v) h = ((), h\<lparr>oss := oss h @ enc_bson v\<rparr>)"
    by (simp add: serialize_bson_def enc_bson_def codec_ser split: option.split)
next
  fix v and h :: serialize_helper and r
  assume ok: "ok_bson bson_ok v" and "stringbuf h = enc_bson v @ r"
  then have "h = h\<lparr>stringbuf := enc_bson v @ r\<rparr>" by (intro stringbuf_split)
  moreover have "run_state (deserialize_bson bson_ok) (h\<lparr>stringbuf := enc_bson v @ r\<rparr>) = (v, h\<lparr>stringbuf := r\<rparr>)"
    using ok by (cases v) (simp_all add: deserialize_bson_def enc_bson_def ok_bson_def codec_deser)
  ultimately show "run_state (deserialize_bson bson_ok) h = (v, h\<lparr>stringbuf := r\<rparr>)" by simp
qed

lemma bsons_upd:
  "list_all (ok_bson bson_ok) xs \<Longrightarrow>
    run_state (collect (length xs) (deserialize_bson bson_ok)) (h\<lparr>stringbuf := concat (map enc_bson xs) @ r\<rparr>) = (xs, h\<lparr>stringbuf := r\<rparr>)"
  by (subst bson.deser_each [where r = r]) simp_all

definition enc_one :: "mongo_client_req \<Rightarrow> bytes" where
  "enc_one q = be_bytes 2 (gq_version q) @ [gq_type q] @ [gq_db_slot q] @ enc_str (gq_collName q) @ enc_bson (gq_opts q) @
    enc_bson (gq_query q) @ enc_bson (gq_write q) @ enc_list enc_bson (gq_mult_write q)"

definition ok_one :: "(bytes \<Rightarrow> bool) \<Rightarrow> mongo_client_req \<Rightarrow> bool" where
  "ok_one bson_ok q \<longleftrightarrow> ok_str (gq_collName q) \<and> ok_bson bson_ok (gq_opts q) \<and> ok_bson bson_ok (gq_query q) \<and> ok_bson bson_ok (gq_write q) \<and>
    ok_list (ok_bson bson_ok) (gq_mult_write q) \<and> gq_req_id q = 0 \<and> gq_retry_times q = 0"

interpretation one: codec serialize_one "deserialize_one bson_ok" enc_one "ok_one bson_ok" for bson_ok
proof
  fix q and h :: serialize_helper
  show "run_state (serialize_one q) h = ((), h\<lparr>oss := oss h @ enc_one q\<rparr>)"
    by (simp add: serialize_one_def enc_one_def enc_list_def codec_ser bson.ser_enc bson.ser_each)
next
  fix q and h :: serialize_helper and r
  assume ok: "ok_one bson_ok q" and "stringbuf h = enc_one q @ r"
  then have "h = h\<lparr>stringbuf := enc_one q @ r\<rparr>" by (intro stringbuf_split)
  moreover have "run_state (deserialize_one bson_ok) (h\<lparr>stringbuf := enc_one q @ r\<rparr>) = (q, h\<lparr>stringbuf := r\<rparr>)"
    using ok by (simp add: deserialize_one_def enc_one_def ok_one_def codec_deser bson.deser_enc_upd enc_list_def ok_list_def bsons_upd)
  ultimately show "run_state (deserialize_one bson_ok) h = (q, h\<lparr>stringbuf := r\<rparr>)" by simp
qed

fun enc_chain :: "mongo_client_req list \<Rightarrow> bytes" where
  "enc_chain [] = []"
| "enc_chain (q # qs) = enc_one q @ enc_bool (qs \<noteq> []) @ enc_chain qs"

lemma mongo_req_write_enc: "run_state (mongo_req_write qs) h = ((), h\<lparr>oss := oss h @ enc_chain qs\<rparr>)"
  by (induction qs arbitrary: h) (simp_all add: one.ser_enc bool.ser_enc)

lemma mongo_chain_enc:
  "qs \<noteq> [] \<Longrightarrow> list_all (ok_one bson_ok) qs \<Longrightarrow>
    mongo_chain bson_ok (h\<lparr>stringbuf := enc_chain qs @ r\<rparr>) = (qs, h\<lparr>stringbuf := r\<rparr>)"
proof (induction qs)
  case (Cons q qs)
  then show ?case
    by (cases "qs = []") (simp_all add: mongo_chain.simps one.deser_enc_upd bool.deser_enc_upd)
qed simp

definition enc_mongo_resp :: "mongo_client_resp \<Rightarrow> bytes" where
  "enc_mongo_resp s = be_bytes 2 (gr_version s) @ be_bytes 8 (gr_req_id s) @ be_bytes 4 (gr_rc s) @ enc_bson (gr_reply s) @
    enc_list enc_bson (gr_result_docs s)"

definition ok_mongo_resp :: "(bytes \<Rightarrow> bool) \<Rightarrow> mongo_client_resp \<Rightarrow> bool" where
  "ok_mongo_resp bson_ok s \<longleftrightarrow> ok_bson bson_ok (gr_reply s) \<and> ok_list (ok_bson bson_ok) (gr_result_docs s)"

interpretation mongo_resp: codec mongo_resp_write "mongo_resp_read bson_ok" enc_mongo_resp "ok_mongo_resp bson_ok" for bson_ok
proof
  fix q and h :: serialize_helper
  show "run_state (mongo_resp_write q) h = ((), h\<lparr>oss := oss h @ enc_mongo_resp q\<rparr>)"
    by (simp add: mongo_resp_write_def enc_mongo_resp_def enc_list_def codec_ser bson.ser_enc bson.ser_each)
next
  fix q and h :: serialize_helper and r
  assume ok: "ok_mongo_resp bson_ok q" and "stringbuf h = enc_mongo_resp q @ r"
  then have "h = h\<lparr>stringbuf := enc_mongo_resp q @ r\<rparr>" by (intro stringbuf_split)
  moreover have "run_state (mongo_resp_read bson_ok) (h\<lparr>stringbuf := enc_mongo_resp q @ r\<rparr>) = (q, h\<lparr>stringbuf := r\<rparr>)"
    using ok by (simp add: mongo_resp_read_def enc_mongo_resp_def ok_mongo_resp_def codec_deser bson.deser_enc_upd enc_list_def ok_list_def bsons_upd)
  ultimately show "run_state (mongo_resp_read bson_ok) h = (q, h\<lparr>stringbuf := r\<rparr>)" by simp
qed

section \<open>Properties\<close>

text \<open>The requests decode to themselves; the codecs of the responses give the same for them.\<close>

lemma mysql_req_roundtrip: "ok_mysql_req q \<Longrightarrow> mysql_req_deserialize (mysql_req_serialize q) = q"
  using mysql_req.roundtrip by (simp add: mysql_req_serialize_def mysql_req_deserialize_def)

lemma mysql_resp_roundtrip: "ok_mysql_resp q \<Longrightarrow> mysql_resp_deserialize (mysql_resp_serialize q) = q"
  using mysql_resp.roundtrip by (simp add: mysql_resp_serialize_def mysql_resp_deserialize_def)

lemma redis_req_roundtrip: "ok_redis_req q \<Longrightarrow> redis_req_deserialize (redis_req_serialize q) = q"
  using redis_req.roundtrip by (simp add: redis_req_serialize_def redis_req_deserialize_def)

lemma redis_resp_roundtrip: "ok_redis_resp q \<Longrightarrow> redis_resp_deserialize (redis_resp_serialize q) = q"
  using redis_resp.roundtrip by (simp add: redis_resp_serialize_def redis_resp_deserialize_def)

lemma mongo_resp_roundtrip: "ok_mongo_resp bson_ok q \<Longrightarrow> mongo_resp_deserialize bson_ok (mongo_resp_serialize q) = q"
  using mongo_resp.roundtrip by (simp add: mongo_resp_serialize_def mongo_resp_deserialize_def)

lemma mongo_req_roundtrip:
  assumes "qs \<noteq> []" and "list_all (ok_one bson_ok) qs"
  shows "mongo_req_deserialize bson_ok (mongo_req_serialize qs) = qs"
  using mongo_chain_enc [OF assms, where h = "serialize_helper_new []" and r = "[]"]
  by (simp add: mongo_req_deserialize_def mongo_req_serialize_def mongo_req_write_enc serialize_helper_new_def data_def)



end
