(* ===== verification/DbPool.thy ===== *)
theory DbPool
  imports SafeQueue "HOL-Library.Multiset"
begin

text \<open>
  The worker pools in front of the databases.  \<^verbatim>\<open>mysql_client_pool\<close> and \<^verbatim>\<open>redis_client_pool\<close>
  (\<^verbatim>\<open>src/wjp/mysql_client.hpp\<close>, \<^verbatim>\<open>src/wjp/redis_client.hpp\<close>) are one text with the names of the client,
  the request and the response exchanged; \<open>pool_ops\<close> holds what differs: the two fields of a request
  that the pool changes, opening a client, its connection flag, \<^verbatim>\<open>handleRequest\<close> and \<^verbatim>\<open>retryFailure\<close>.

  A worker is a program counter.  Each step of \<open>worker_step\<close> is one section under a mutex, or one call
  outside of every mutex; \<open>pool_reach\<close> interleaves the steps of all workers with submissions and
  \<^verbatim>\<open>stop\<close>.  Clients are allocated objects: \<open>cp_objs\<close> is the heap, and deleting a client removes it.  The
  iteration order of the hash map \<^verbatim>\<open>_clt2idle\<close> is unspecified; the order of the list stands for it.

  The locale \<open>worker_pool\<close> is what the proofs need of the steps of a worker, whatever its program counters
  are.  Shown in it: a client is used by one worker at a time and is never used after it was deleted, every
  accepted request is answered at most once and, when the workers have nothing left to do, exactly once,
  no request is taken from the queue more than four times, and what is answered is the request that was submitted, with at most
  its retry count changed.  The locale \<open>pooled\<close> is the contract between the
  workers of this theory and their requests; with it the workers satisfy \<open>worker_pool\<close>.
\<close>

record ('q, 'r, 'c, 'e) pool_ops =
  q_id :: "'q \<Rightarrow> u64"
  q_set_id :: "u64 \<Rightarrow> 'q \<Rightarrow> 'q"
  q_retry :: "'q \<Rightarrow> int"
  q_set_retry :: "int \<Rightarrow> 'q \<Rightarrow> 'q"
  r_id :: "'r \<Rightarrow> u64"
  c_new :: 'c
  c_open :: "'e \<Rightarrow> 'c \<Rightarrow> int \<times> 'c"
  c_connState :: "'c \<Rightarrow> bool"
  c_handle :: "'e \<Rightarrow> 'q \<Rightarrow> 'c \<Rightarrow> 'r \<times> 'c"
  q_failure :: "'q \<Rightarrow> 'r"

text \<open>Where a worker stands: before the pop, before \<^verbatim>\<open>getIdleClient\<close>, connecting a new client, with the result
  of \<^verbatim>\<open>getIdleClient\<close>, after \<^verbatim>\<open>handleRequest\<close>, left the loop.\<close>

datatype 'q worker_pc = WPop | WGet 'q | WOpen 'q nat | WGot 'q "nat option" | WDone nat | WExit

record ('q, 'r, 'c, 'w) client_pool =
  cp_reqId :: u64
  cp_queue :: "'q safe_queue"
  cp_clt2idle :: "(nat \<times> bool) list"
  cp_objs :: "nat \<Rightarrow> 'c option"
  cp_nextObj :: nat
  cp_poolSize :: int
  cp_workers :: "'w list"
  cp_responses :: "('q \<times> 'r) list"

definition MinReqId :: u64 where "MinReqId = 100"
definition PoolIsBusy :: u64 where "PoolIsBusy = 1"
definition MaxPendingReq :: nat where "MaxPendingReq = 256"
definition MaxRetryTimes :: int where "MaxRetryTimes = 3"

definition pool_new :: "('q, 'r, 'c, 'w) client_pool" where
  "pool_new = \<lparr>cp_reqId = MinReqId, cp_queue = sq_new, cp_clt2idle = [], cp_objs = (\<lambda>_. None), cp_nextObj = 0,
     cp_poolSize = 0, cp_workers = [], cp_responses = []\<rparr>"

definition pool_start :: "int \<Rightarrow> ('q, 'r, 'c, 'q worker_pc) client_pool \<Rightarrow> int \<times> ('q, 'r, 'c, 'q worker_pc) client_pool" where
  "pool_start poolSize p =
    (let n = min (max poolSize 1) 16 in
     (0, p\<lparr>cp_poolSize := n, cp_workers := cp_workers p @ replicate (nat n) WPop\<rparr>))"

definition pool_submit ::
  "('q, 'r, 'c, 'e) pool_ops \<Rightarrow> 'q \<Rightarrow> ('q, 'r, 'c, 'w) client_pool \<Rightarrow> u64 \<times> ('q, 'r, 'c, 'w) client_pool" where
  "pool_submit ops req p =
    (let rc = cp_reqId p in
     case sq_push MaxPendingReq True (q_set_id ops rc req) (cp_queue p) of (ok, queue, _) \<Rightarrow>
       (if ok then rc else PoolIsBusy, p\<lparr>cp_reqId := cp_reqId p + 1, cp_queue := queue\<rparr>))"

text \<open>\<^verbatim>\<open>getIdleClient\<close>: the section under the mutex, and the part after it when a client was made.\<close>

fun take_idle :: "(nat \<times> bool) list \<Rightarrow> (nat \<times> (nat \<times> bool) list) option" where
  "take_idle [] = None"
| "take_idle ((clt, idle) # rest) =
    (if idle then Some (clt, (clt, False) # rest)
     else map_option (\<lambda>(c, l). (c, (clt, idle) # l)) (take_idle rest))"

datatype idle_result = IdleClient nat | NewClient nat | NoClient

definition getIdleClient_take :: "('q, 'r, 'c, 'e) pool_ops \<Rightarrow> ('q, 'r, 'c, 'w) client_pool \<Rightarrow> idle_result \<times> ('q, 'r, 'c, 'w) client_pool" where
  "getIdleClient_take ops p =
    (case take_idle (cp_clt2idle p) of
       Some (clt, l) \<Rightarrow> (IdleClient clt, p\<lparr>cp_clt2idle := l\<rparr>)
     | None \<Rightarrow>
         if int (length (cp_clt2idle p)) < cp_poolSize p then
           (let newClt = cp_nextObj p in
            (NewClient newClt, p\<lparr>cp_clt2idle := cp_clt2idle p @ [(newClt, False)],
               cp_objs := (cp_objs p)(newClt \<mapsto> c_new ops), cp_nextObj := Suc newClt\<rparr>))
         else (NoClient, p))"

definition erase_client :: "nat \<Rightarrow> ('q, 'r, 'c, 'w) client_pool \<Rightarrow> ('q, 'r, 'c, 'w) client_pool" where
  "erase_client clt p =
    p\<lparr>cp_clt2idle := filter (\<lambda>(c, _). c \<noteq> clt) (cp_clt2idle p), cp_objs := (cp_objs p)(clt := None)\<rparr>"

definition getIdleClient_open ::
  "('q, 'r, 'c, 'e) pool_ops \<Rightarrow> 'e \<Rightarrow> nat \<Rightarrow> ('q, 'r, 'c, 'w) client_pool \<Rightarrow> nat option \<times> ('q, 'r, 'c, 'w) client_pool" where
  "getIdleClient_open ops e newClt p =
    (case c_open ops e (the (cp_objs p newClt)) of (rc, c) \<Rightarrow>
       if rc = 0 then (Some newClt, p\<lparr>cp_objs := (cp_objs p)(newClt \<mapsto> c)\<rparr>)
       else (None, erase_client newClt p))"

definition markClientIdle :: "nat \<Rightarrow> ('q, 'r, 'c, 'w) client_pool \<Rightarrow> ('q, 'r, 'c, 'w) client_pool" where
  "markClientIdle clt p = p\<lparr>cp_clt2idle := map (\<lambda>(c, idle). (c, idle \<or> c = clt)) (cp_clt2idle p)\<rparr>"

definition closeClient :: "nat \<Rightarrow> ('q, 'r, 'c, 'w) client_pool \<Rightarrow> ('q, 'r, 'c, 'w) client_pool" where
  "closeClient clt p = erase_client clt p"

definition set_pc :: "nat \<Rightarrow> 'w \<Rightarrow> ('q, 'r, 'c, 'w) client_pool \<Rightarrow> ('q, 'r, 'c, 'w) client_pool" where
  "set_pc i pc p = p\<lparr>cp_workers := (cp_workers p)[i := pc]\<rparr>"

text \<open>A request that found no usable client: reported as failed, or put back in front of the queue.\<close>

definition retry_request :: "('q, 'r, 'c, 'e) pool_ops \<Rightarrow> 'q \<Rightarrow> ('q, 'r, 'c, 'w) client_pool \<Rightarrow> ('q, 'r, 'c, 'w) client_pool" where
  "retry_request ops req p =
    (if q_retry ops req \<ge> MaxRetryTimes then p\<lparr>cp_responses := cp_responses p @ [(req, q_failure ops req)]\<rparr>
     else p\<lparr>cp_queue := sq_requeue (q_set_retry ops (q_retry ops req + 1) req) (cp_queue p)\<rparr>)"

definition worker_step :: "('q, 'r, 'c, 'e) pool_ops \<Rightarrow> 'e \<Rightarrow> nat \<Rightarrow> ('q, 'r, 'c, 'q worker_pc) client_pool \<Rightarrow> ('q, 'r, 'c, 'q worker_pc) client_pool" where
  "worker_step ops e i p =
    (case cp_workers p ! i of
       WPop \<Rightarrow>
         (case sq_pop_timeout_cv (cp_queue p) of
            (SQ_POP_SUCCESS, Some req, queue) \<Rightarrow> set_pc i (WGet req) (p\<lparr>cp_queue := queue\<rparr>)
          | (SQ_EXIT, _, _) \<Rightarrow> set_pc i WExit p
          | _ \<Rightarrow> p)
     | WGet req \<Rightarrow>
         (case getIdleClient_take ops p of
            (IdleClient clt, p') \<Rightarrow> set_pc i (WGot req (Some clt)) p'
          | (NewClient clt, p') \<Rightarrow> set_pc i (WOpen req clt) p'
          | (NoClient, p') \<Rightarrow> set_pc i (WGot req None) p')
     | WOpen req newClt \<Rightarrow> (case getIdleClient_open ops e newClt p of (clt, p') \<Rightarrow> set_pc i (WGot req clt) p')
     | WGot req (Some clt) \<Rightarrow>
         (if c_connState ops (the (cp_objs p clt)) then
            (case c_handle ops e req (the (cp_objs p clt)) of (resp, c) \<Rightarrow>
               set_pc i (WDone clt) (p\<lparr>cp_objs := (cp_objs p)(clt \<mapsto> c), cp_responses := cp_responses p @ [(req, resp)]\<rparr>))
          else set_pc i (WGot req None) (closeClient clt p))
     | WGot req None \<Rightarrow> set_pc i WPop (retry_request ops req p)
     | WDone clt \<Rightarrow>
         set_pc i WPop (if c_connState ops (the (cp_objs p clt)) then markClientIdle clt p else closeClient clt p)
     | WExit \<Rightarrow> p)"

definition pool_stop :: "('q, 'r, 'c, 'w) client_pool \<Rightarrow> ('q, 'r, 'c, 'w) client_pool" where
  "pool_stop p = p\<lparr>cp_queue := fst (sq_stop True (cp_queue p))\<rparr>"

text \<open>\<^verbatim>\<open>serveUtilStop\<close> joins the workers, so it goes on once all of them left their loops; \<open>None\<close> is waiting.\<close>

definition pool_serveUtilStop :: "('q, 'r, 'c, 'q worker_pc) client_pool \<Rightarrow> ('q, 'r, 'c, 'q worker_pc) client_pool option" where
  "pool_serveUtilStop p =
    (if list_all (\<lambda>w. w = WExit) (cp_workers p) then
       Some (p\<lparr>cp_workers := [], cp_queue := sq_clear (cp_queue p), cp_clt2idle := [],
         cp_objs := (\<lambda>c. if c \<in> fst ` set (cp_clt2idle p) then None else cp_objs p c)\<rparr>)
     else None)"

section \<open>Interleavings\<close>

text \<open>
  \<open>pool_reach ops step wpop p0 p acc subs pops\<close>: started as \<open>p0\<close>, the pool reached \<open>p\<close> by steps of its workers,
  submissions and \<^verbatim>\<open>stop\<close>; \<open>acc\<close> are the identifiers that \<^verbatim>\<open>submit\<close> returned for the accepted requests, \<open>subs\<close> counts the submissions
  and \<open>pops\<close> are the identifiers of the requests taken from the queue, in order.  \<open>wpop\<close> is the program counter before the pop.  A submitted
  request is fresh: its retry count is zero, as the constructors and readers leave it.
\<close>

definition pops_now :: "'w \<Rightarrow> nat \<Rightarrow> ('q, 'r, 'c, 'w) client_pool \<Rightarrow> bool" where
  "pops_now wpop i p \<longleftrightarrow> cp_workers p ! i = wpop \<and> sq_queue (cp_queue p) \<noteq> [] \<and> \<not> sq_exit (cp_queue p)"

inductive pool_reach ::
  "('q, 'r, 'c, 'e) pool_ops \<Rightarrow> ('e \<Rightarrow> nat \<Rightarrow> ('q, 'r, 'c, 'w) client_pool \<Rightarrow> ('q, 'r, 'c, 'w) client_pool) \<Rightarrow> 'w \<Rightarrow>
   ('q, 'r, 'c, 'w) client_pool \<Rightarrow> ('q, 'r, 'c, 'w) client_pool \<Rightarrow> u64 list \<Rightarrow> nat \<Rightarrow> u64 list \<Rightarrow> bool" for ops step wpop p0 where
  pr_start: "pool_reach ops step wpop p0 p0 [] 0 []"
| pr_submit: "pool_reach ops step wpop p0 p acc subs pops \<Longrightarrow> q_retry ops req = 0 \<Longrightarrow> pool_submit ops req p = (rc, p') \<Longrightarrow>
    pool_reach ops step wpop p0 p' (if sq_size (cp_queue p) < MaxPendingReq then acc @ [rc] else acc) (Suc subs) pops"
| pr_worker: "pool_reach ops step wpop p0 p acc subs pops \<Longrightarrow> i < length (cp_workers p) \<Longrightarrow>
    pool_reach ops step wpop p0 (step e i p) acc subs
      (if pops_now wpop i p then pops @ [q_id ops (hd (sq_queue (cp_queue p)))] else pops)"
| pr_stop: "pool_reach ops step wpop p0 p acc subs pops \<Longrightarrow> pool_reach ops step wpop p0 (pool_stop p) acc subs pops"

text \<open>The requests that the workers are working on; \<open>fl\<close> gives those of one program counter.\<close>

abbreviation flight :: "('w \<Rightarrow> 'q list) \<Rightarrow> ('q, 'r, 'c, 'w) client_pool \<Rightarrow> 'q list" where
  "flight fl p \<equiv> concat (map fl (cp_workers p))"

text \<open>Ownership of the clients.\<close>

definition busy :: "(nat \<times> bool) list \<Rightarrow> nat multiset" where
  "busy l = mset (map fst (filter (\<lambda>(c, idle). \<not> idle) l))"

definition table_ok ::
  "('c \<Rightarrow> bool) \<Rightarrow> (nat \<times> bool) list \<Rightarrow> (nat \<Rightarrow> 'c option) \<Rightarrow> nat \<Rightarrow> nat multiset \<Rightarrow> bool" where
  "table_ok conn l objs n H \<longleftrightarrow>
     distinct (map fst l) \<and> busy l = H \<and> dom objs = set (map fst l) \<and> (\<forall>c \<in> set (map fst l). c < n) \<and>
     (\<forall>c. (c, True) \<in> set l \<longrightarrow> conn (the (objs c)))"

definition clients_ok :: "('c \<Rightarrow> bool) \<Rightarrow> ('w \<Rightarrow> nat list) \<Rightarrow> ('q, 'r, 'c, 'w) client_pool \<Rightarrow> bool" where
  "clients_ok conn hl p \<longleftrightarrow>
     table_ok conn (cp_clt2idle p) (cp_objs p) (cp_nextObj p) (mset (concat (map hl (cp_workers p))))"

definition size_ok :: "nat \<Rightarrow> ('w \<Rightarrow> 'q list) \<Rightarrow> ('q, 'r, 'c, 'w) client_pool \<Rightarrow> bool" where
  "size_ok n fl p \<longleftrightarrow> cp_poolSize p = int n \<and> int (length (cp_clt2idle p)) \<le> cp_poolSize p \<and> length (cp_workers p) = n \<and>
     length (sq_queue (cp_queue p)) + length (flight fl p) \<le> MaxPendingReq + length (cp_workers p)"

definition fresh_ids :: "u64 list \<Rightarrow> nat \<Rightarrow> bool" where
  "fresh_ids acc subs \<longleftrightarrow> (\<exists>ks. acc = map (\<lambda>k. MinReqId + of_nat k) ks \<and> sorted_wrt (<) ks \<and> (\<forall>k \<in> set ks. k < subs))"

definition answers_ok :: "('q, 'r, 'c, 'e) pool_ops \<Rightarrow> ('w \<Rightarrow> 'q list) \<Rightarrow> u64 list \<Rightarrow> nat \<Rightarrow> ('q, 'r, 'c, 'w) client_pool \<Rightarrow> bool" where
  "answers_ok ops fl acc subs p \<longleftrightarrow>
     mset acc = mset (map (q_id ops) (sq_queue (cp_queue p) @ flight fl p @ map fst (cp_responses p))) \<and>
     (\<forall>(q, r) \<in> set (cp_responses p). r_id ops r = q_id ops q) \<and>
     cp_reqId p = MinReqId + of_nat subs \<and>
     fresh_ids acc subs"

definition budget :: "('q, 'r, 'c, 'e) pool_ops \<Rightarrow> nat \<Rightarrow> 'q list \<Rightarrow> nat" where
  "budget ops k qs = sum_list (map (\<lambda>q. nat (int k - q_retry ops q)) qs)"

definition retry_ok :: "('q, 'r, 'c, 'e) pool_ops \<Rightarrow> 'q \<Rightarrow> bool" where
  "retry_ok ops q \<longleftrightarrow> 0 \<le> q_retry ops q \<and> q_retry ops q \<le> MaxRetryTimes"

text \<open>What is left to the request \<open>k\<close>, of the four times it may be taken.\<close>

definition retries_ok :: "('q, 'r, 'c, 'e) pool_ops \<Rightarrow> ('w \<Rightarrow> 'q list) \<Rightarrow> u64 list \<Rightarrow> u64 list \<Rightarrow> ('q, 'r, 'c, 'w) client_pool \<Rightarrow> bool" where
  "retries_ok ops fl acc pops p \<longleftrightarrow>
     list_all (retry_ok ops) (sq_queue (cp_queue p)) \<and> list_all (retry_ok ops) (flight fl p) \<and>
     list_all (retry_ok ops) (map fst (cp_responses p)) \<and>
     (\<forall>k. count_list pops k + budget ops 4 (filter (\<lambda>q. q_id ops q = k) (sq_queue (cp_queue p))) +
       budget ops 3 (filter (\<lambda>q. q_id ops q = k) (flight fl p)) \<le> 4 * count_list acc k)"

text \<open>The steps the workers have left, and runs in which every step is one of a worker that can go on.\<close>

definition work :: "('q, 'r, 'c, 'e) pool_ops \<Rightarrow> ('w \<Rightarrow> nat) \<Rightarrow> ('q, 'r, 'c, 'w) client_pool \<Rightarrow> nat" where
  "work ops wt p = 8 * budget ops 4 (sq_queue (cp_queue p)) + sum_list (map wt (cp_workers p))"

definition runnable :: "'w \<Rightarrow> 'w \<Rightarrow> ('q, 'r, 'c, 'w) client_pool \<Rightarrow> nat \<Rightarrow> bool" where
  "runnable wpop wexit p i \<longleftrightarrow> i < length (cp_workers p) \<and> cp_workers p ! i \<noteq> wexit \<and>
     (cp_workers p ! i = wpop \<longrightarrow> sq_queue (cp_queue p) \<noteq> [])"

inductive busy_run ::
  "('e \<Rightarrow> nat \<Rightarrow> ('q, 'r, 'c, 'w) client_pool \<Rightarrow> ('q, 'r, 'c, 'w) client_pool) \<Rightarrow> 'w \<Rightarrow> 'w \<Rightarrow>
   ('q, 'r, 'c, 'w) client_pool \<Rightarrow> nat \<Rightarrow> ('q, 'r, 'c, 'w) client_pool \<Rightarrow> bool" for step wpop wexit p where
  br_refl: "busy_run step wpop wexit p 0 p"
| br_step: "busy_run step wpop wexit p n p' \<Longrightarrow> runnable wpop wexit p' i \<Longrightarrow> busy_run step wpop wexit p (Suc n) (step e i p')"

section \<open>Facts on the client table and on program counters\<close>

lemma busy_simps [simp]:
  "busy [] = {#}"
  "busy ((c, idle) # l) = (if idle then busy l else add_mset c (busy l))"
  "busy (l @ l') = busy l + busy l'"
  by (simp_all add: busy_def)

lemma busy_subset: "c \<in># busy l \<Longrightarrow> (c, False) \<in> set l"
  by (induction l) (auto split: if_splits)

lemma take_idle_Some:
  "take_idle l = Some (c, l') \<Longrightarrow> map fst l' = map fst l \<and> busy l' = add_mset c (busy l) \<and>
    (c, True) \<in> set l \<and> (\<forall>d. (d, True) \<in> set l' \<longrightarrow> (d, True) \<in> set l)"
  by (induction l arbitrary: l' rule: take_idle.induct) (auto split: if_splits)

lemma take_idle_length: "take_idle l = Some (c, l') \<Longrightarrow> length l' = length l"
  by (metis length_map take_idle_Some)

lemma take_idle_None: "take_idle l = None \<Longrightarrow> (c, True) \<notin> set l"
  by (induction l rule: take_idle.induct) (auto split: if_splits)

lemma not_busy: "c \<notin> fst ` set l \<Longrightarrow> c \<notin># busy l"
  by (force dest: busy_subset)

lemma busy_erase: "distinct (map fst l) \<Longrightarrow> busy (filter (\<lambda>(c, _). c \<noteq> d) l) = busy l - {#d#}"
  by (induction l) (auto simp: not_busy diff_single_trivial dest: not_busy split: if_splits)

lemma busy_mark: "distinct (map fst l) \<Longrightarrow> busy (map (\<lambda>(c, idle). (c, idle \<or> c = d)) l) = busy l - {#d#}"
  by (induction l) (auto simp: not_busy diff_single_trivial dest: not_busy split: if_splits)

lemma fst_mark [simp]: "map fst (map (\<lambda>(c, idle). (c, idle \<or> c = d)) l) = map fst l"
  by (induction l) auto

lemma table_busy: "table_ok conn l objs n H \<Longrightarrow> c \<in># H \<Longrightarrow> (c, False) \<in> set l \<and> (c, True) \<notin> set l"
  by (auto simp: table_ok_def dest: busy_subset eq_key_imp_eq_value)

lemma table_new:
  "table_ok conn l objs n H \<Longrightarrow> table_ok conn (l @ [(n, False)]) (objs(n \<mapsto> c)) (Suc n) (add_mset n H)"
  by (fastforce simp: table_ok_def)

lemma table_take: "table_ok conn l objs n H \<Longrightarrow> take_idle l = Some (c, l') \<Longrightarrow> table_ok conn l' objs n (add_mset c H)"
  unfolding table_ok_def by (metis take_idle_Some)

lemma table_update:
  assumes "table_ok conn l objs n H" and "c \<in># H"
  shows "table_ok conn l (objs(c \<mapsto> x)) n H"
  using assms table_busy [OF assms] by (fastforce simp: table_ok_def image_iff)

lemma table_erase: "table_ok conn l objs n H \<Longrightarrow> table_ok conn (filter (\<lambda>(c, _). c \<noteq> d) l) (objs(d := None)) n (H - {#d#})"
  by (auto simp: table_ok_def busy_erase distinct_map_filter image_iff)

lemma table_mark:
  "table_ok conn l objs n H \<Longrightarrow> conn (the (objs c)) \<Longrightarrow>
    table_ok conn (map (\<lambda>(d, idle). (d, idle \<or> d = c)) l) objs n (H - {#c#})"
  unfolding table_ok_def fst_mark by (auto simp: busy_mark)

lemma worker_split:
  assumes "i < length ws"
  obtains as bs where "ws = as @ ws ! i # bs" and "\<And>w. ws[i := w] = as @ w # bs"
  using assms that [of "take i ws" "drop (Suc i) ws"] by (metis id_take_nth_drop upd_conv_take_nth_drop)

lemma budget_simps [simp]:
  "budget ops k [] = 0"
  "budget ops k (q # qs) = nat (int k - q_retry ops q) + budget ops k qs"
  "budget ops k (qs @ qs') = budget ops k qs + budget ops k qs'"
  by (simp_all add: budget_def)

lemma budget_mset: "mset qs = mset qs' \<Longrightarrow> budget ops k qs = budget ops k qs'"
  by (metis budget_def mset_map sum_mset_sum_list)

lemma budget_add: "mset qs = add_mset q (mset qs') \<Longrightarrow> budget ops k qs = nat (int k - q_retry ops q) + budget ops k qs'"
  using budget_mset [of qs "q # qs'" ops k] by simp

lemma budget_filter_mset: "mset qs = mset qs' \<Longrightarrow> budget ops k (filter P qs) = budget ops k (filter P qs')"
  by (rule budget_mset) simp

lemma budget_filter_add:
  "mset qs = add_mset q (mset qs') \<Longrightarrow>
    budget ops k (filter P qs) = (if P q then nat (int k - q_retry ops q) else 0) + budget ops k (filter P qs')"
  using budget_filter_mset [of qs "q # qs'" ops k P] by simp

lemma list_all_mset: "mset qs = mset qs' \<Longrightarrow> list_all P qs = list_all P qs'"
  by (metis list_all_iff set_mset_mset)

lemma list_all_add: "mset qs = add_mset q (mset qs') \<Longrightarrow> list_all P qs \<longleftrightarrow> P q \<and> list_all P qs'"
  using list_all_mset [of qs "q # qs'" P] by simp

lemma mset_add_length: "mset qs = add_mset q (mset qs') \<Longrightarrow> length qs = Suc (length qs')"
  by (metis size_add_mset size_mset)

lemma flight_length:
  assumes "\<And>w. length (fl w) \<le> 1"
  shows "length (concat (map fl ws)) \<le> length ws"
proof (induction ws)
  case (Cons w ws)
  then show ?case using assms [of w] by auto
qed simp

lemma fresh_ids_Suc: "fresh_ids acc subs \<Longrightarrow> fresh_ids acc (Suc subs)"
  unfolding fresh_ids_def by (metis less_SucI)

lemma fresh_ids_snoc: "fresh_ids acc subs \<Longrightarrow> fresh_ids (acc @ [MinReqId + of_nat subs]) (Suc subs)"
proof -
  assume "fresh_ids acc subs"
  then obtain ks where "acc = map (\<lambda>k. MinReqId + of_nat k) ks" "sorted_wrt (<) ks" "\<forall>k \<in> set ks. k < subs"
    by (auto simp: fresh_ids_def)
  then show ?thesis by (auto simp: fresh_ids_def sorted_wrt_append less_Suc_eq intro!: exI [of _ "ks @ [subs]"])
qed

lemma fresh_ids_distinct:
  assumes "fresh_ids acc subs" and "subs \<le> 2 ^ 64"
  shows "distinct acc"
proof -
  obtain ks where ks: "acc = map (\<lambda>k. MinReqId + of_nat k) ks" "sorted_wrt (<) ks" "\<forall>k \<in> set ks. k < subs"
    using assms by (auto simp: fresh_ids_def)
  then have "take_bit 64 k = k" if "k \<in> set ks" for k
    using assms(2) that by (metis order_less_le_trans take_bit_nat_eq_self_iff)
  then have "inj_on (\<lambda>k. MinReqId + of_nat k :: u64) (set ks)"
    by (auto intro!: inj_onI simp: word_of_nat_eq_iff)
  then show ?thesis using ks by (simp add: distinct_map strict_sorted_iff)
qed

text \<open>What one worker step does to the requests: it takes one from the queue, moves nothing, answers one or
  puts one back.\<close>

inductive effect :: "('q, 'r, 'c, 'e) pool_ops \<Rightarrow> ('w \<Rightarrow> 'q list) \<Rightarrow> ('q, 'r, 'c, 'w) client_pool \<Rightarrow> bool \<Rightarrow> ('q, 'r, 'c, 'w) client_pool \<Rightarrow> bool" for ops fl p where
  ef_pop: "sq_queue (cp_queue p) = q # sq_queue (cp_queue p') \<Longrightarrow> mset (flight fl p') = add_mset q (mset (flight fl p)) \<Longrightarrow>
    cp_responses p' = cp_responses p \<Longrightarrow> effect ops fl p True p'"
| ef_none: "sq_queue (cp_queue p') = sq_queue (cp_queue p) \<Longrightarrow> mset (flight fl p') = mset (flight fl p) \<Longrightarrow>
    cp_responses p' = cp_responses p \<Longrightarrow> effect ops fl p False p'"
| ef_answer: "sq_queue (cp_queue p') = sq_queue (cp_queue p) \<Longrightarrow> mset (flight fl p) = add_mset q (mset (flight fl p')) \<Longrightarrow>
    cp_responses p' = cp_responses p @ [(q, r)] \<Longrightarrow> r_id ops r = q_id ops q \<Longrightarrow> effect ops fl p False p'"
| ef_requeue: "sq_queue (cp_queue p') = q_set_retry ops (q_retry ops q + 1) q # sq_queue (cp_queue p) \<Longrightarrow>
    mset (flight fl p) = add_mset q (mset (flight fl p')) \<Longrightarrow> q_retry ops q < MaxRetryTimes \<Longrightarrow>
    cp_responses p' = cp_responses p \<Longrightarrow> effect ops fl p False p'"

definition contents :: "('q, 'r, 'c, 'e) pool_ops \<Rightarrow> ('w \<Rightarrow> 'q list) \<Rightarrow> ('q, 'r, 'c, 'w) client_pool \<Rightarrow> 'q list" where
  "contents ops fl p = map (q_set_retry ops 0) (sq_queue (cp_queue p) @ flight fl p @ map fst (cp_responses p))"

lemma pool_reach_trans:
  assumes "pool_reach ops step wpop p0 p acc subs pops" and "pool_reach ops step wpop p p' acc' subs' pops'"
  shows "pool_reach ops step wpop p0 p' (acc @ acc') (subs + subs') (pops @ pops')"
  using assms(2)
proof (induction rule: pool_reach.induct)
  case pr_start
  with assms(1) show ?case by simp
next
  case (pr_submit p2 acc2 subs2 pops2 req rc p3)
  from pool_reach.pr_submit [OF pr_submit.IH pr_submit.hyps(2,3)] show ?case by (simp split: if_splits)
next
  case (pr_worker p2 acc2 subs2 pops2 i e)
  from pool_reach.pr_worker [OF pr_worker.IH pr_worker.hyps(2), of e] show ?case by (simp split: if_splits)
next
  case (pr_stop p2 acc2 subs2 pops2)
  from pool_reach.pr_stop [OF pr_stop.IH] show ?case .
qed

lemma distinct_count_list: "distinct xs \<Longrightarrow> count_list xs k = (if k \<in> set xs then 1 else 0)"
  by (induction xs) auto

section \<open>The contract of the workers\<close>

locale worker_pool =
  fixes ops :: "('q, 'r, 'c, 'e) pool_ops"
    and step :: "'e \<Rightarrow> nat \<Rightarrow> ('q, 'r, 'c, 'w) client_pool \<Rightarrow> ('q, 'r, 'c, 'w) client_pool"
    and wpop wexit :: 'w
    and fl :: "'w \<Rightarrow> 'q list" and hl :: "'w \<Rightarrow> nat list" and wt :: "'w \<Rightarrow> nat"
    and conn :: "'c \<Rightarrow> bool"
    and p0 :: "('q, 'r, 'c, 'w) client_pool" and n :: nat
  assumes set_id: "q_id ops (q_set_id ops x q) = x" "q_retry ops (q_set_id ops x q) = q_retry ops q"
    and set_retry: "q_id ops (q_set_retry ops k q) = q_id ops q" "q_retry ops (q_set_retry ops k q) = k"
      "q_set_retry ops j (q_set_retry ops k q) = q_set_retry ops j q"
    and start: "p0 = pool_new\<lparr>cp_poolSize := int n, cp_workers := replicate n wpop\<rparr>" "0 < n" "n \<le> 16" "wpop \<noteq> wexit"
    and rest: "fl wpop = []" "fl wexit = []" "hl wpop = []" "length (fl w) \<le> 1"
    and step_frame: "cp_reqId (step e i p) = cp_reqId p \<and> cp_poolSize (step e i p) = cp_poolSize p \<and>
      length (cp_workers (step e i p)) = length (cp_workers p) \<and> sq_exit (cp_queue (step e i p)) = sq_exit (cp_queue p)"
    and step_effect: "i < length (cp_workers p) \<Longrightarrow> effect ops fl p (pops_now wpop i p) (step e i p)"
    and step_clients: "i < length (cp_workers p) \<Longrightarrow> clients_ok conn hl p \<Longrightarrow> clients_ok conn hl (step e i p)"
    and step_table: "int (length (cp_clt2idle p)) \<le> cp_poolSize p \<Longrightarrow> int (length (cp_clt2idle (step e i p))) \<le> cp_poolSize p"
    and step_stays: "\<not> sq_exit (cp_queue p) \<Longrightarrow> wexit \<notin> set (cp_workers p) \<Longrightarrow> wexit \<notin> set (cp_workers (step e i p))"
    and step_work: "runnable wpop wexit p i \<Longrightarrow> \<not> sq_exit (cp_queue p) \<Longrightarrow> list_all (retry_ok ops) (sq_queue (cp_queue p)) \<Longrightarrow>
      work ops wt (step e i p) < work ops wt p"
begin

lemma clients_reach: "pool_reach ops step wpop p0 p acc subs pops \<Longrightarrow> clients_ok conn hl p"
proof (induction rule: pool_reach.induct)
  case pr_start
  show ?case using rest by (simp add: start(1) clients_ok_def table_ok_def pool_new_def map_replicate_const)
next
  case pr_submit
  then show ?case by (auto simp: clients_ok_def pool_submit_def Let_def split: prod.splits)
next
  case pr_worker
  then show ?case by (simp add: step_clients)
next
  case pr_stop
  then show ?case by (simp add: clients_ok_def pool_stop_def)
qed

lemma size_reach: "pool_reach ops step wpop p0 p acc subs pops \<Longrightarrow> size_ok n fl p"
proof (induction rule: pool_reach.induct)
  case pr_start
  show ?case using rest by (auto simp: start(1) size_ok_def pool_new_def sq_new_def map_replicate_const)
next
  case (pr_submit p acc subs pops req rc p')
  then show ?case using flight_length [of fl "cp_workers p"] rest
    by (auto simp: size_ok_def pool_submit_def sq_push_def MaxPendingReq_def Let_def split: if_splits)
next
  case (pr_worker p acc subs pops i e)
  have "length (sq_queue (cp_queue (step e i p))) + length (flight fl (step e i p)) \<le>
      length (sq_queue (cp_queue p)) + length (flight fl p)"
    using step_effect [OF pr_worker.hyps(2), of e] by cases (auto dest: mset_eq_length mset_add_length)
  then show ?case using pr_worker.IH step_frame [of e i p] step_table [of p e i] by (auto simp: size_ok_def)
next
  case pr_stop
  then show ?case by (auto simp: size_ok_def pool_stop_def sq_stop_def)
qed

lemma answers_reach: "pool_reach ops step wpop p0 p acc subs pops \<Longrightarrow> answers_ok ops fl acc subs p"
proof (induction rule: pool_reach.induct)
  case pr_start
  show ?case using rest by (simp add: start(1) answers_ok_def fresh_ids_def pool_new_def sq_new_def map_replicate_const)
next
  case (pr_submit p acc subs pops req rc p')
  then show ?case using fresh_ids_Suc [of acc subs] fresh_ids_snoc [of acc subs]
    by (auto simp: answers_ok_def pool_submit_def sq_push_def sq_size_def set_id Let_def split: if_splits)
next
  case (pr_worker p acc subs pops i e)
  show ?case using step_effect [OF pr_worker.hyps(2), of e] pr_worker.IH step_frame [of e i p]
    by cases (auto simp: answers_ok_def set_retry)
next
  case pr_stop
  then show ?case by (simp add: answers_ok_def pool_stop_def sq_stop_def)
qed

lemma retries_okD:
  "retries_ok ops fl acc pops p \<Longrightarrow> count_list pops k + budget ops 4 (filter (\<lambda>q. q_id ops q = k) (sq_queue (cp_queue p))) +
    budget ops 3 (filter (\<lambda>q. q_id ops q = k) (flight fl p)) \<le> 4 * count_list acc k"
  by (simp add: retries_ok_def)

lemma retries_reach: "pool_reach ops step wpop p0 p acc subs pops \<Longrightarrow> retries_ok ops fl acc pops p"
proof (induction rule: pool_reach.induct)
  case pr_start
  show ?case using rest by (simp add: start(1) retries_ok_def pool_new_def sq_new_def map_replicate_const)
next
  case (pr_submit p acc subs pops req rc p')
  then show ?case
    by (auto simp: retries_ok_def retry_ok_def pool_submit_def sq_push_def sq_size_def set_id MaxRetryTimes_def Let_def add.assoc split: if_splits)
next
  case (pr_worker p acc subs pops i e)
  show ?case using step_effect [OF pr_worker.hyps(2), of e]
  proof cases
    case (ef_pop q)
    have "retry_ok ops q" using ef_pop(2) pr_worker.IH by (simp add: retries_ok_def)
    then have "count_list (pops @ [q_id ops q]) k + budget ops 4 (filter (\<lambda>q. q_id ops q = k) (sq_queue (cp_queue (step e i p)))) +
        budget ops 3 (filter (\<lambda>q. q_id ops q = k) (flight fl (step e i p))) \<le> 4 * count_list acc k" for k
      using retries_okD [OF pr_worker.IH, of k]
      by (cases "q_id ops q = k") (auto simp: ef_pop(2) budget_filter_add [OF ef_pop(3)] retry_ok_def MaxRetryTimes_def)
    with ef_pop pr_worker.IH show ?thesis by (simp add: retries_ok_def list_all_add [OF ef_pop(3)])
  next
    case ef_none
    with pr_worker.IH show ?thesis by (auto simp: retries_ok_def budget_filter_mset [OF ef_none(3)] list_all_mset [OF ef_none(3)])
  next
    case (ef_answer q r)
    have "count_list pops k + budget ops 4 (filter (\<lambda>q. q_id ops q = k) (sq_queue (cp_queue p))) +
        budget ops 3 (filter (\<lambda>q. q_id ops q = k) (flight fl (step e i p))) \<le> 4 * count_list acc k" for k
      using retries_okD [OF pr_worker.IH, of k] by (simp add: budget_filter_add [OF ef_answer(3)])
    with ef_answer pr_worker.IH show ?thesis by (simp add: retries_ok_def list_all_add [OF ef_answer(3)])
  next
    case (ef_requeue q)
    have "retry_ok ops q" using pr_worker.IH by (simp add: retries_ok_def list_all_add [OF ef_requeue(3)])
    moreover have "count_list pops k + budget ops 4 (filter (\<lambda>q. q_id ops q = k) (sq_queue (cp_queue (step e i p)))) +
        budget ops 3 (filter (\<lambda>q. q_id ops q = k) (flight fl (step e i p))) \<le> 4 * count_list acc k" for k
      using retries_okD [OF pr_worker.IH, of k]
      by (cases "q_id ops q = k") (auto simp: ef_requeue(2) set_retry budget_filter_add [OF ef_requeue(3)])
    ultimately show ?thesis using ef_requeue pr_worker.IH
      by (simp add: retries_ok_def retry_ok_def MaxRetryTimes_def set_retry list_all_add [OF ef_requeue(3)])
  qed
next
  case pr_stop
  then show ?case by (simp add: retries_ok_def pool_stop_def sq_stop_def)
qed

lemma running_workers: "pool_reach ops step wpop p0 p acc subs pops \<Longrightarrow> \<not> sq_exit (cp_queue p) \<Longrightarrow> wexit \<notin> set (cp_workers p)"
proof (induction rule: pool_reach.induct)
  case pr_start
  then show ?case using start(4) by (auto simp: start(1) pool_new_def)
next
  case (pr_submit p acc subs pops req rc p')
  then show ?case by (auto simp: pool_submit_def sq_push_def Let_def split: if_splits)
next
  case (pr_worker p acc subs pops i e)
  then show ?case using step_frame [of e i p] step_stays by blast
next
  case (pr_stop p acc subs pops)
  then show ?case by (simp add: pool_stop_def sq_stop_def)
qed

lemma busy_run_reach:
  assumes "busy_run step wpop wexit p m p'" and "pool_reach ops step wpop p0 p acc subs pops" and "\<not> sq_exit (cp_queue p)"
  shows "\<not> sq_exit (cp_queue p') \<and> m + work ops wt p' \<le> work ops wt p \<and> (\<exists>pops'. pool_reach ops step wpop p0 p' acc subs pops')"
  using assms(1)
proof (induction rule: busy_run.induct)
  case br_refl
  with assms show ?case by auto
next
  case (br_step m p' i e)
  then obtain pops' where r: "pool_reach ops step wpop p0 p' acc subs pops'" by blast
  then have "pool_reach ops step wpop p0 (step e i p') acc subs
      (if pops_now wpop i p' then pops' @ [q_id ops (hd (sq_queue (cp_queue p')))] else pops')"
    using pr_worker [OF r] br_step.hyps by (simp add: runnable_def)
  moreover have "work ops wt (step e i p') < work ops wt p'"
    using step_work br_step retries_reach [OF r] by (auto simp: retries_ok_def)
  ultimately show ?case using br_step step_frame [of e i p'] by auto
qed

lemma stuck_answered:
  assumes r: "pool_reach ops step wpop p0 p acc subs pops" and x: "\<not> sq_exit (cp_queue p)" and s: "\<And>i. \<not> runnable wpop wexit p i"
  shows "mset (map (q_id ops \<circ> fst) (cp_responses p)) = mset acc"
proof -
  have w: "cp_workers p \<noteq> []" using size_reach [OF r] start by (auto simp: size_ok_def)
  have "\<forall>i < length (cp_workers p). cp_workers p ! i = wpop \<and> sq_queue (cp_queue p) = []"
    using s running_workers [OF r x] by (metis nth_mem runnable_def)
  then have "\<forall>w \<in> set (cp_workers p). w = wpop" and "sq_queue (cp_queue p) = []"
    using w by (auto simp: in_set_conv_nth) 
  moreover from this have "flight fl p = []" using rest by auto
  ultimately show ?thesis using answers_reach [OF r] by (simp add: answers_ok_def)
qed

lemma stop_accounts:
  assumes r: "pool_reach ops step wpop p0 p acc subs pops" and s: "\<forall>w \<in> set (cp_workers p). w = wexit"
  shows "mset (map (q_id ops \<circ> fst) (cp_responses p)) + mset (map (q_id ops) (sq_queue (cp_queue p))) = mset acc \<and>
    dom (cp_objs p) = fst ` set (cp_clt2idle p)"
proof -
  have "dom (cp_objs p) = fst ` set (cp_clt2idle p)" using clients_reach [OF r] by (simp add: clients_ok_def table_ok_def)
  moreover have "flight fl p = []" using s rest by auto
  ultimately show ?thesis using answers_reach [OF r] by (simp add: answers_ok_def ac_simps)
qed

lemma response_ids:
  "answers_ok ops fl acc subs p \<Longrightarrow> map (r_id ops \<circ> snd) (cp_responses p) = map (q_id ops \<circ> fst) (cp_responses p)"
  by (auto simp: answers_ok_def)

lemma answered_at_most_once:
  assumes r: "pool_reach ops step wpop p0 p acc subs pops" and s: "subs \<le> 2 ^ 64"
  shows "distinct acc \<and> distinct (map (r_id ops \<circ> snd) (cp_responses p)) \<and>
    set (map (r_id ops \<circ> snd) (cp_responses p)) \<subseteq> set acc \<and>
    (\<forall>(q, r) \<in> set (cp_responses p). r_id ops r = q_id ops q) \<and>
    (\<forall>k. count_list pops k \<le> (if k \<in> set acc then 4 else 0))"
proof -
  note ok = answers_reach [OF r]
  let ?rs = "map (r_id ops \<circ> snd) (cp_responses p)"
  have d: "distinct acc" using ok s fresh_ids_distinct by (auto simp: answers_ok_def)
  have m: "mset acc = mset (?rs @ map (q_id ops) (sq_queue (cp_queue p) @ flight fl p))"
    using ok unfolding response_ids [OF ok] by (simp add: answers_ok_def ac_simps)
  then have "distinct ?rs" using d by (metis distinct_append mset_eq_imp_distinct_iff)
  moreover have "set ?rs \<subseteq> set acc" using mset_eq_setD [OF m] by simp
  moreover have "count_list pops k \<le> (if k \<in> set acc then 4 else 0)" for k
  proof -
    have "count_list pops k \<le> 4 * count_list acc k"
      using retries_reach [OF r] unfolding retries_ok_def by (meson add_leD1)
    then show ?thesis using distinct_count_list [OF d, of k] by auto
  qed
  ultimately show ?thesis using d ok by (auto simp: answers_ok_def)
qed

text \<open>The requests in a pool, apart from their retry counts: steps of the workers lose and change none of them.\<close>

lemma contents_step:
  assumes "i < length (cp_workers p)"
  shows "mset (contents ops fl (step e i p)) = mset (contents ops fl p)"
  using step_effect [OF assms, of e] by cases (auto simp: contents_def set_retry)

lemma contents_reach: "pool_reach ops step wpop p1 p acc subs pops \<Longrightarrow> mset (contents ops fl p1) \<subseteq># mset (contents ops fl p)"
proof (induction rule: pool_reach.induct)
  case (pr_submit p acc subs pops req rc p')
  then have "mset (contents ops fl p) \<subseteq># mset (contents ops fl p')"
    by (auto simp: contents_def pool_submit_def sq_push_def Let_def split: if_splits)
  with pr_submit show ?case by (meson subset_mset.order_trans)
next
  case (pr_worker p acc subs pops i e)
  then show ?case by (simp add: contents_step)
qed (simp_all add: contents_def pool_stop_def sq_stop_def)

lemma answers_submitted:
  assumes p: "pool_reach ops step wpop p0 p acc subs pops" and req: "q_retry ops req = 0" "sq_size (cp_queue p) < MaxPendingReq"
    and sub: "pool_submit ops req p = (k, p1)" and later: "pool_reach ops step wpop p1 p2 acc' subs' pops'"
    and bound: "Suc (subs + subs') \<le> 2 ^ 64" and ans: "(q, r) \<in> set (cp_responses p2)" "q_id ops q = k"
  shows "q_set_retry ops 0 q = q_set_retry ops 0 (q_set_id ops k req)"
proof -
  have k: "k = cp_reqId p" and q1: "q_set_id ops k req \<in> set (sq_queue (cp_queue p1))"
    using sub req(2) by (auto simp: pool_submit_def sq_push_def sq_size_def Let_def split: if_splits)
  have "pool_reach ops step wpop p0 p1 (acc @ [k]) (Suc subs) pops"
    using pr_submit [OF p req(1) sub] req(2) by simp
  from pool_reach_trans [OF this later] have r: "pool_reach ops step wpop p0 p2 ((acc @ [k]) @ acc') (Suc subs + subs') (pops @ pops')" .
  let ?L = "sq_queue (cp_queue p2) @ flight fl p2 @ map fst (cp_responses p2)"
  have "distinct ((acc @ [k]) @ acc')" using answered_at_most_once [OF r] bound by simp
  moreover have "mset ((acc @ [k]) @ acc') = mset (map (q_id ops) ?L)" using answers_reach [OF r] by (simp only: answers_ok_def)
  ultimately have d: "distinct (map (q_id ops) ?L)" by (metis mset_eq_imp_distinct_iff)
  have "q_set_retry ops 0 (q_set_id ops k req) \<in># mset (contents ops fl p1)" using q1 by (auto simp: contents_def)
  then have "q_set_retry ops 0 (q_set_id ops k req) \<in># mset (contents ops fl p2)"
    using contents_reach [OF later] by (rule mset_subset_eqD [rotated])
  then obtain q2 where q2: "q2 \<in> set ?L" "q_set_retry ops 0 q2 = q_set_retry ops 0 (q_set_id ops k req)"
    unfolding contents_def set_mset_mset set_map by (metis imageE)
  have "q \<in> set ?L" using ans(1) by force
  moreover have "q_id ops q2 = q_id ops q" using q2(2) ans(2) set_id(1) set_retry(1) by metis
  ultimately have "q2 = q" using d q2(1) by (metis distinct_map inj_onD)
  then show ?thesis using q2(2) by simp
qed

lemma completes:
  assumes "pool_reach ops step wpop p0 p acc subs pops" and "\<not> sq_exit (cp_queue p)" and "busy_run step wpop wexit p m p'"
  shows "m \<le> work ops wt p \<and> ((\<forall>i. \<not> runnable wpop wexit p' i) \<longrightarrow> mset (map (r_id ops \<circ> snd) (cp_responses p')) = mset acc)"
proof -
  obtain pops' where b: "\<not> sq_exit (cp_queue p')" "m + work ops wt p' \<le> work ops wt p" and r: "pool_reach ops step wpop p0 p' acc subs pops'"
    using busy_run_reach [OF assms(3,1,2)] by blast
  then show ?thesis using stuck_answered [OF r b(1)] unfolding response_ids [OF answers_reach [OF r]] by auto
qed

lemma clients_exclusive:
  assumes r: "pool_reach ops step wpop p0 p acc subs pops"
  shows "distinct (concat (map hl (cp_workers p))) \<and> (\<forall>c \<in> set (concat (map hl (cp_workers p))). cp_objs p c \<noteq> None) \<and>
    (\<forall>c. (c, True) \<in> set (cp_clt2idle p) \<longrightarrow> c \<notin> set (concat (map hl (cp_workers p))) \<and> conn (the (cp_objs p c))) \<and>
    length (cp_clt2idle p) \<le> 16 \<and> card (dom (cp_objs p)) = length (cp_clt2idle p)"
proof -
  let ?h = "concat (map hl (cp_workers p))" and ?l = "cp_clt2idle p"
  have t: "table_ok (conn) ?l (cp_objs p) (cp_nextObj p) (mset ?h)"
    using clients_reach [OF r] by (simp add: clients_ok_def)
  then have "mset ?h = mset (map fst (filter (\<lambda>(c, idle). \<not> idle) ?l))" and d: "distinct (map fst ?l)" and o: "dom (cp_objs p) = set (map fst ?l)"
    by (simp_all add: table_ok_def busy_def)
  then have "distinct ?h" by (metis distinct_map_filter mset_eq_imp_distinct_iff)
  moreover have "cp_objs p c \<noteq> None" if "c \<in> set ?h" for c
    using table_busy [OF t, of c] o that by (metis domIff fst_conv image_eqI list.set_map set_mset_mset)
  moreover have "c \<notin> set ?h \<and> conn (the (cp_objs p c))" if "(c, True) \<in> set ?l" for c
    using table_busy [OF t, of c] that t by (auto simp: table_ok_def simp del: set_concat)
  moreover have "card (dom (cp_objs p)) = length ?l" using d o by (metis distinct_card length_map)
  moreover have "length ?l \<le> 16" using size_reach [OF r] start by (auto simp: size_ok_def)
  ultimately show ?thesis by blast
qed

end

section \<open>The workers of the MySQL and Redis pools\<close>

fun held :: "'q worker_pc \<Rightarrow> nat list" where
  "held (WOpen _ c) = [c]"
| "held (WGot _ (Some c)) = [c]"
| "held (WDone c) = [c]"
| "held _ = []"

fun in_flight :: "'q worker_pc \<Rightarrow> 'q list" where
  "in_flight (WGet q) = [q]"
| "in_flight (WOpen q _) = [q]"
| "in_flight (WGot q _) = [q]"
| "in_flight _ = []"

fun weight :: "('q, 'r, 'c, 'e) pool_ops \<Rightarrow> 'q worker_pc \<Rightarrow> nat" where
  "weight ops (WGet q) = 8 * nat (3 - q_retry ops q) + 5"
| "weight ops (WOpen q _) = 8 * nat (3 - q_retry ops q) + 4"
| "weight ops (WGot q (Some _)) = 8 * nat (3 - q_retry ops q) + 3"
| "weight ops (WGot q None) = 8 * nat (3 - q_retry ops q) + 2"
| "weight ops (WDone _) = 1"
| "weight ops _ = 0"

definition pool_workers :: "int \<Rightarrow> nat" where
  "pool_workers psz = nat (min (max psz 1) 16)"

locale pooled =
  fixes ops :: "('q, 'r, 'c, 'e) pool_ops"
  assumes set_id: "q_id ops (q_set_id ops i q) = i" "q_retry ops (q_set_id ops i q) = q_retry ops q"
    and set_retry: "q_id ops (q_set_retry ops n q) = q_id ops q" "q_retry ops (q_set_retry ops n q) = n"
      "q_set_retry ops j (q_set_retry ops n q) = q_set_retry ops j q"
    and handle_id: "r_id ops (fst (c_handle ops e q c)) = q_id ops q"
    and failure_id: "r_id ops (q_failure ops q) = q_id ops q"
begin

lemma clients_worker:
  assumes ok: "clients_ok (c_connState ops) held p" and i: "i < length (cp_workers p)"
  shows "clients_ok (c_connState ops) held (worker_step ops e i p)"
proof -
  obtain as bs where w: "cp_workers p = as @ cp_workers p ! i # bs" "\<And>w. (cp_workers p)[i := w] = as @ w # bs"
    using worker_split [OF i] by blast
  let ?H = "mset (concat (map held as)) + mset (concat (map held bs))"
  have t: "table_ok (c_connState ops) (cp_clt2idle p) (cp_objs p) (cp_nextObj p) (mset (held (cp_workers p ! i)) + ?H)"
    using ok unfolding clients_ok_def by (subst (asm) w(1)) (simp add: ac_simps)
  show ?thesis
  proof (cases "cp_workers p ! i")
    case WPop
    with t show ?thesis
      by (auto simp: worker_step_def sq_pop_timeout_cv_def Let_def set_pc_def clients_ok_def w(2))
        (use ok in \<open>simp add: clients_ok_def\<close>)
  next
    case (WGet q)
    with t show ?thesis
      by (auto simp: worker_step_def getIdleClient_take_def Let_def set_pc_def clients_ok_def w(2)
          split: option.splits intro: table_take table_new)
  next
    case (WOpen q c)
    with t table_update [OF t, of c] table_erase [OF t, of c] show ?thesis
      by (auto simp: worker_step_def getIdleClient_open_def erase_client_def set_pc_def clients_ok_def w(2) split: prod.splits)
  next
    case (WGot q r)
    show ?thesis
    proof (cases r)
      case None
      with WGot t show ?thesis by (simp add: worker_step_def retry_request_def set_pc_def clients_ok_def w(2))
    next
      case (Some c)
      with WGot t table_update [OF t, of c] table_erase [OF t, of c] show ?thesis
        by (auto simp: worker_step_def closeClient_def erase_client_def set_pc_def clients_ok_def w(2) split: prod.splits)
    qed
  next
    case (WDone c)
    with t table_mark [OF t, of c] table_erase [OF t, of c] show ?thesis
      by (auto simp: worker_step_def markClientIdle_def closeClient_def erase_client_def set_pc_def clients_ok_def w(2))
  next
    case WExit
    with ok show ?thesis by (simp add: worker_step_def)
  qed
qed

lemma worker_frame:
  "cp_reqId (worker_step ops e i p) = cp_reqId p \<and> cp_poolSize (worker_step ops e i p) = cp_poolSize p \<and>
   length (cp_workers (worker_step ops e i p)) = length (cp_workers p) \<and>
   sq_exit (cp_queue (worker_step ops e i p)) = sq_exit (cp_queue p)"
  by (auto simp: worker_step_def set_pc_def sq_pop_timeout_cv_def Let_def getIdleClient_take_def getIdleClient_open_def
      erase_client_def closeClient_def markClientIdle_def retry_request_def sq_requeue_def
      split: worker_pc.splits option.splits prod.splits)

lemma worker_effect:
  assumes i: "i < length (cp_workers p)"
  shows "effect ops in_flight p (pops_now WPop i p) (worker_step ops e i p)"
proof -
  obtain as bs where w: "cp_workers p = as @ cp_workers p ! i # bs" "\<And>w. (cp_workers p)[i := w] = as @ w # bs"
    using worker_split [OF i] by blast
  let ?F = "mset (concat (map in_flight as)) + mset (concat (map in_flight bs))"
  have t: "mset (flight in_flight p) = mset (in_flight (cp_workers p ! i)) + ?F"
    by (subst w(1)) (simp add: ac_simps)
  show ?thesis
  proof (cases "cp_workers p ! i")
    case WPop
    show ?thesis
    proof (cases "pops_now WPop i p")
      case True
      then obtain q qs where "sq_queue (cp_queue p) = q # qs" by (auto simp: pops_now_def neq_Nil_conv)
      with True WPop t show ?thesis
        by (intro ef_pop [where q = q, THEN back_subst [of "\<lambda>b. effect ops in_flight p b _"]])
          (auto simp: worker_step_def pops_now_def sq_pop_timeout_cv_def set_pc_def w(2))
    next
      case False
      with WPop t show ?thesis
        by (auto simp: worker_step_def pops_now_def sq_pop_timeout_cv_def set_pc_def w(2) intro!: ef_none)
    qed
  next
    case (WGet q)
    with t show ?thesis
      by (auto simp: worker_step_def pops_now_def getIdleClient_take_def Let_def set_pc_def w(2) split: option.splits intro!: ef_none)
  next
    case (WOpen q c)
    with t show ?thesis
      by (auto simp: worker_step_def pops_now_def getIdleClient_open_def erase_client_def set_pc_def w(2) split: prod.splits intro!: ef_none)
  next
    case (WGot q r)
    show ?thesis
    proof (cases r)
      case None
      with WGot t show ?thesis
        by (auto simp: worker_step_def pops_now_def retry_request_def sq_requeue_def set_pc_def w(2) failure_id
            intro: ef_answer [where q = q] ef_requeue [where q = q])
    next
      case (Some c)
      with WGot t show ?thesis using handle_id [of e q "the (cp_objs p c)"]
        by (auto simp: worker_step_def pops_now_def closeClient_def erase_client_def set_pc_def w(2) split: prod.splits
            intro: ef_answer [where q = q] ef_none)
    qed
  next
    case (WDone c)
    with t show ?thesis
      by (auto simp: worker_step_def pops_now_def markClientIdle_def closeClient_def erase_client_def set_pc_def w(2) intro!: ef_none)
  next
    case WExit
    with t show ?thesis by (auto simp: worker_step_def pops_now_def intro!: ef_none)
  qed
qed

text \<open>An answer is what \<^verbatim>\<open>handleRequest\<close> returned for the request, or the report that it failed too often.\<close>

lemma worker_answer:
  assumes "cp_responses (worker_step ops e i p) = cp_responses p @ [(q, r)]"
  shows "r = q_failure ops q \<or> (\<exists>c. r = fst (c_handle ops e q c))"
  using assms
  by (auto simp: worker_step_def set_pc_def sq_pop_timeout_cv_def Let_def getIdleClient_take_def getIdleClient_open_def
      erase_client_def closeClient_def markClientIdle_def retry_request_def
      split: worker_pc.splits option.splits prod.splits if_splits) (metis fst_conv)+

lemma worker_table_length:
  assumes "int (length (cp_clt2idle p)) \<le> cp_poolSize p"
  shows "int (length (cp_clt2idle (worker_step ops e i p))) \<le> cp_poolSize p"
proof -
  have f: "int (length (filter P (cp_clt2idle p))) \<le> cp_poolSize p" for P
    using assms length_filter_le [of P "cp_clt2idle p"] by linarith
  show ?thesis
  proof (cases "cp_workers p ! i")
    case (WGet q)
    with assms show ?thesis
      by (auto simp: worker_step_def getIdleClient_take_def Let_def set_pc_def dest: take_idle_length split: option.splits)
  qed (use assms f in \<open>auto simp: worker_step_def set_pc_def sq_pop_timeout_cv_def Let_def getIdleClient_open_def erase_client_def
      closeClient_def markClientIdle_def retry_request_def split: option.splits prod.splits\<close>)
qed

lemma work_decreases:
  assumes r: "runnable WPop WExit p i" and x: "\<not> sq_exit (cp_queue p)" and ok: "list_all (retry_ok ops) (sq_queue (cp_queue p))"
  shows "work ops (weight ops) (worker_step ops e i p) < work ops (weight ops) p"
proof -
  have i: "i < length (cp_workers p)" using r by (simp add: runnable_def)
  obtain as bs where w: "cp_workers p = as @ cp_workers p ! i # bs" "\<And>w. (cp_workers p)[i := w] = as @ w # bs"
    using worker_split [OF i] by blast
  let ?W = "sum_list (map (weight ops) as) + sum_list (map (weight ops) bs)"
  have t: "work ops (weight ops) p = 8 * budget ops 4 (sq_queue (cp_queue p)) + weight ops (cp_workers p ! i) + ?W"
    unfolding work_def by (subst w(1)) simp
  show ?thesis
  proof (cases "cp_workers p ! i")
    case WPop
    then obtain q qs where "sq_queue (cp_queue p) = q # qs" using r by (auto simp: runnable_def neq_Nil_conv)
    with WPop t x ok show ?thesis
      by (auto simp: worker_step_def sq_pop_timeout_cv_def set_pc_def work_def w(2) retry_ok_def MaxRetryTimes_def)
  next
    case (WGet q)
    with t show ?thesis
      by (auto simp: worker_step_def getIdleClient_take_def Let_def set_pc_def work_def w(2) split: option.splits)
  next
    case (WOpen q c)
    with t show ?thesis
      by (auto simp: worker_step_def getIdleClient_open_def erase_client_def set_pc_def work_def w(2) split: prod.splits option.splits)
  next
    case (WGot q r)
    with t show ?thesis
      by (cases r) (auto simp: worker_step_def retry_request_def sq_requeue_def closeClient_def erase_client_def set_retry set_pc_def
          work_def w(2) MaxRetryTimes_def split: prod.splits)
  next
    case (WDone c)
    with t show ?thesis
      by (simp add: worker_step_def markClientIdle_def closeClient_def erase_client_def set_pc_def work_def w(2))
  qed (use r in \<open>simp add: runnable_def\<close>)
qed

lemma worker_stays:
  "\<not> sq_exit (cp_queue p) \<Longrightarrow> WExit \<notin> set (cp_workers p) \<Longrightarrow> WExit \<notin> set (cp_workers (worker_step ops e i p))"
  by (auto simp: worker_step_def set_pc_def sq_pop_timeout_cv_def getIdleClient_take_def getIdleClient_open_def erase_client_def
      closeClient_def markClientIdle_def retry_request_def Let_def
      split: worker_pc.splits option.splits prod.splits if_splits dest!: set_update_subset_insert [THEN subsetD])

end

sublocale pooled \<subseteq> workers: worker_pool ops "worker_step ops" WPop WExit in_flight held "weight ops" "c_connState ops"
    "snd (pool_start psz pool_new)" "pool_workers psz" for psz
proof unfold_locales
  show "snd (pool_start psz pool_new) = pool_new\<lparr>cp_poolSize := int (pool_workers psz), cp_workers := replicate (pool_workers psz) WPop\<rparr>"
    by (simp add: pool_start_def pool_workers_def pool_new_def Let_def max_def min_def)
  show "0 < pool_workers psz" "pool_workers psz \<le> 16" by (auto simp: pool_workers_def)
  show "length (in_flight w) \<le> 1" for w :: "'q worker_pc" by (cases w) auto
qed (use set_id set_retry worker_frame worker_effect clients_worker worker_table_length worker_stays work_decreases in auto)

end
