(* ===== verification/MysqlClient.thy ===== *)
theory MysqlClient
  imports DbReq DbPool
begin

text \<open>
  The MySQL client of \<^verbatim>\<open>src/wjp/mysql_client.hpp\<close>.  The MySQL library is not part of the repository: what its
  calls return is an argument of each operation, a return code and an error number per call; the result
  of an operation lists the texts sent with \<^verbatim>\<open>mysql_query\<close> or \<^verbatim>\<open>mysql_real_query\<close>.
\<close>

type_synonym outcome = "int \<times> int"

record mysql_client =
  my_client :: bool
  my_connState :: bool

definition mysql_client_new :: mysql_client where
  "mysql_client_new = \<lparr>my_client = False, my_connState = False\<rparr>"

definition CR_CONNECTION_ERROR :: int where "CR_CONNECTION_ERROR = 2002"
definition CR_SERVER_GONE_ERROR :: int where "CR_SERVER_GONE_ERROR = 2006"
definition CR_SERVER_LOST :: int where "CR_SERVER_LOST = 2013"
definition MYSQL_NO_DATA :: int where "MYSQL_NO_DATA = 100"

definition mysql_connect :: "bool \<Rightarrow> bool \<Rightarrow> mysql_client \<Rightarrow> int \<times> mysql_client" where
  "mysql_connect init_ok connect_ok c =
    (if \<not> init_ok then (-1, c\<lparr>my_client := False\<rparr>)
     else if connect_ok then (0, c\<lparr>my_client := True, my_connState := True\<rparr>)
     else (-1, c\<lparr>my_client := False\<rparr>))"

definition mysql_disconnect :: "mysql_client \<Rightarrow> mysql_client" where
  "mysql_disconnect c = c\<lparr>my_client := False, my_connState := False\<rparr>"

definition flushConnState :: "int \<Rightarrow> mysql_client \<Rightarrow> mysql_client" where
  "flushConnState err c =
    (if err = CR_CONNECTION_ERROR \<or> err = CR_SERVER_LOST \<or> err = CR_SERVER_GONE_ERROR then c\<lparr>my_connState := False\<rparr> else c)"

definition after_call :: "outcome \<Rightarrow> mysql_client \<Rightarrow> mysql_client" where
  "after_call r c = (if fst r \<noteq> 0 then flushConnState (snd r) c else c)"

definition isEmptyString :: "bytes \<Rightarrow> bool" where
  "isEmptyString s \<longleftrightarrow> s = [] \<or> hd s = 0"

definition BEGIN :: bytes where "BEGIN = lit ''begin;''"
definition COMMIT :: bytes where "COMMIT = lit ''commit;''"
definition ROLLBACK :: bytes where "ROLLBACK = lit ''rollback;''"

record raw_env =
  re_begin :: outcome
  re_query :: outcome
  re_end :: "bytes \<Rightarrow> outcome"

definition rawQuery :: "raw_env \<Rightarrow> bytes \<Rightarrow> bool \<Rightarrow> mysql_client \<Rightarrow> int \<times> mysql_client \<times> bytes list" where
  "rawQuery e sql transaction c =
    (if isEmptyString sql \<or> \<not> my_client c then (-1, c, [])
     else if transaction \<and> fst (re_begin e) \<noteq> 0 then (-2, flushConnState (snd (re_begin e)) c, [BEGIN])
     else
       let rc = fst (re_query e); c1 = after_call (re_query e) c in
       if transaction then
         (let trans = (if rc = 0 then COMMIT else ROLLBACK); r = re_end e trans in
          (if rc = 0 then fst r else rc, after_call r c1, [BEGIN, sql, trans]))
       else (rc, c1, [sql]))"

definition execQuery_text :: "raw_env \<Rightarrow> bytes \<Rightarrow> bool \<Rightarrow> mysql_client \<Rightarrow> int \<times> mysql_client \<times> bytes list" where
  "execQuery_text e sql transaction c = rawQuery e sql transaction c"

definition execQuery_real :: "raw_env \<Rightarrow> bytes \<Rightarrow> bool \<Rightarrow> mysql_client \<Rightarrow> int \<times> mysql_client \<times> bytes list" where
  "execQuery_real e sql transaction c = (if length sql = 0 then (-1, c, []) else rawQuery e sql transaction c)"

text \<open>A field is \<open>None\<close> when the row pointer is null; \<open>None\<close> for the whole result is a failed \<^verbatim>\<open>mysql_store_result\<close>.\<close>

record result_env =
  qe_query :: outcome
  qe_store :: "bytes option list list option"
  qe_errno :: int

definition execQuery_table :: "result_env \<Rightarrow> bytes \<Rightarrow> mysql_client \<Rightarrow> int \<times> DataTable \<times> mysql_client \<times> bytes list" where
  "execQuery_table e sql c =
    (if isEmptyString sql \<or> \<not> my_client c then (-1, [], c, [])
     else if fst (qe_query e) \<noteq> 0 then (fst (qe_query e), [], flushConnState (snd (qe_query e)) c, [sql])
     else (case qe_store e of
         Some rows \<Rightarrow> (0, map (map (\<lambda>f. case f of None \<Rightarrow> [] | Some d \<Rightarrow> d)) rows, c, [sql])
       | None \<Rightarrow> (0, [], flushConnState (qe_errno e) c, [sql])))"

section \<open>Result buffers of a prepared statement\<close>

text \<open>
  The values of \<^verbatim>\<open>enum_field_types\<close> that the code names, as the MySQL headers document them, and the type and
  declared length of a result column.  The size of \<^verbatim>\<open>MYSQL_TIME\<close> differs between library versions and is an argument.
\<close>

definition MYSQL_TYPE_TINY :: u32 where "MYSQL_TYPE_TINY = 1"
definition MYSQL_TYPE_SHORT :: u32 where "MYSQL_TYPE_SHORT = 2"
definition MYSQL_TYPE_LONG :: u32 where "MYSQL_TYPE_LONG = 3"
definition MYSQL_TYPE_FLOAT :: u32 where "MYSQL_TYPE_FLOAT = 4"
definition MYSQL_TYPE_DOUBLE :: u32 where "MYSQL_TYPE_DOUBLE = 5"
definition MYSQL_TYPE_LONGLONG :: u32 where "MYSQL_TYPE_LONGLONG = 8"
definition MYSQL_TYPE_DATE :: u32 where "MYSQL_TYPE_DATE = 10"
definition MYSQL_TYPE_TIME :: u32 where "MYSQL_TYPE_TIME = 11"
definition MYSQL_TYPE_DATETIME :: u32 where "MYSQL_TYPE_DATETIME = 12"
definition MYSQL_TYPE_VARCHAR :: u32 where "MYSQL_TYPE_VARCHAR = 15"
definition MYSQL_TYPE_JSON :: u32 where "MYSQL_TYPE_JSON = 245"
definition MYSQL_TYPE_TINY_BLOB :: u32 where "MYSQL_TYPE_TINY_BLOB = 249"
definition MYSQL_TYPE_MEDIUM_BLOB :: u32 where "MYSQL_TYPE_MEDIUM_BLOB = 250"
definition MYSQL_TYPE_LONG_BLOB :: u32 where "MYSQL_TYPE_LONG_BLOB = 251"
definition MYSQL_TYPE_BLOB :: u32 where "MYSQL_TYPE_BLOB = 252"
definition MYSQL_TYPE_VAR_STRING :: u32 where "MYSQL_TYPE_VAR_STRING = 253"
definition MYSQL_TYPE_STRING :: u32 where "MYSQL_TYPE_STRING = 254"

definition MAX_STRING_SIZE :: nat where "MAX_STRING_SIZE = 65536"
definition MAX_BLOB_SIZE :: nat where "MAX_BLOB_SIZE = 16 * 1048576"

record column_meta =
  fm_type :: u32
  fm_length :: nat

definition is_blob :: "u32 \<Rightarrow> bool" where
  "is_blob t \<longleftrightarrow> t \<in> {MYSQL_TYPE_BLOB, MYSQL_TYPE_LONG_BLOB, MYSQL_TYPE_MEDIUM_BLOB, MYSQL_TYPE_TINY_BLOB}"

definition blob_buffer :: "nat \<Rightarrow> u32 \<times> nat" where
  "blob_buffer len = (MYSQL_TYPE_BLOB, if len > 0 \<and> len < MAX_BLOB_SIZE then len else MAX_BLOB_SIZE)"

definition string_buffer :: "nat \<Rightarrow> u32 \<times> nat" where
  "string_buffer len = (MYSQL_TYPE_STRING, if len > 0 \<and> len < MAX_STRING_SIZE then len + 1 else MAX_STRING_SIZE)"

text \<open>The switches of \<^verbatim>\<open>bindStmtOut\<close> and \<^verbatim>\<open>bindStmtOutSimple\<close>: the type a column is bound as and the size of its buffer.\<close>

definition out_buffer :: "nat \<Rightarrow> column_meta \<Rightarrow> u32 \<times> nat" where
  "out_buffer time_size f =
    (let t = fm_type f in
     if t = MYSQL_TYPE_TINY then (MYSQL_TYPE_TINY, 1)
     else if t = MYSQL_TYPE_SHORT then (MYSQL_TYPE_SHORT, 2)
     else if t = MYSQL_TYPE_LONG then (MYSQL_TYPE_LONG, 4)
     else if t = MYSQL_TYPE_LONGLONG then (MYSQL_TYPE_LONGLONG, 8)
     else if t = MYSQL_TYPE_FLOAT then (MYSQL_TYPE_FLOAT, 4)
     else if t = MYSQL_TYPE_DOUBLE then (MYSQL_TYPE_DOUBLE, 8)
     else if t = MYSQL_TYPE_DATE \<or> t = MYSQL_TYPE_TIME \<or> t = MYSQL_TYPE_DATETIME then (t, time_size)
     else if is_blob t then blob_buffer (fm_length f)
     else string_buffer (fm_length f))"

definition out_buffer_simple :: "column_meta \<Rightarrow> u32 \<times> nat" where
  "out_buffer_simple f =
    (let t = fm_type f in
     if t = MYSQL_TYPE_VARCHAR \<or> t = MYSQL_TYPE_STRING \<or> t = MYSQL_TYPE_VAR_STRING \<or> t = MYSQL_TYPE_JSON
       then string_buffer (fm_length f)
     else if is_blob t then blob_buffer (fm_length f)
     else (MYSQL_TYPE_STRING, 32))"

text \<open>The metadata, \<open>None\<close> for a null pointer, and what \<^verbatim>\<open>mysql_stmt_bind_result\<close> returns for the bound buffers.\<close>

definition bind_columns ::
  "(column_meta \<Rightarrow> u32 \<times> nat) \<Rightarrow> column_meta list option \<Rightarrow> ((u32 \<times> nat) list \<Rightarrow> int) \<Rightarrow> int \<Rightarrow> FieldsType \<Rightarrow>
   int \<times> bytes list \<times> FieldsType" where
  "bind_columns buf meta bind_result resultCols fieldsType =
    (case meta of
       None \<Rightarrow> (-1, [], fieldsType)
     | Some columns \<Rightarrow>
         if int (length columns) \<noteq> resultCols then (-2, [], fieldsType)
         else (bind_result (map buf columns), map (\<lambda>f. replicate (snd (buf f)) 0) columns,
           if fieldsType = [] then map fm_type columns else fieldsType))"

definition bindStmtOut ::
  "nat \<Rightarrow> column_meta list option \<Rightarrow> ((u32 \<times> nat) list \<Rightarrow> int) \<Rightarrow> int \<Rightarrow> FieldsType \<Rightarrow> int \<times> bytes list \<times> FieldsType" where
  "bindStmtOut time_size = bind_columns (out_buffer time_size)"

definition bindStmtOutSimple ::
  "column_meta list option \<Rightarrow> ((u32 \<times> nat) list \<Rightarrow> int) \<Rightarrow> int \<Rightarrow> FieldsType \<Rightarrow> int \<times> bytes list \<times> FieldsType" where
  "bindStmtOutSimple = bind_columns out_buffer_simple"

section \<open>Prepared statements\<close>

text \<open>
  What the library answers for one row of parameters.  A fetched column says whether it is null, its real
  length, and the bytes that \<^verbatim>\<open>mysql_stmt_fetch\<close> has for it, which go to the bound buffer as far as they fit.
\<close>

type_synonym fetched_column = "bool \<times> nat \<times> bytes"

record row_env =
  rw_bind :: int
  rw_time_size :: nat
  rw_meta :: "column_meta list option"
  rw_bind_result :: "(u32 \<times> nat) list \<Rightarrow> int"
  rw_exec :: outcome
  rw_store :: int
  rw_num_rows :: int
  rw_fetch :: "nat \<Rightarrow> int \<times> (nat \<Rightarrow> fetched_column)"

definition write_column :: "fetched_column \<Rightarrow> bytes \<Rightarrow> bytes" where
  "write_column col buf = (case col of (is_null, real_length, d) \<Rightarrow> if is_null then buf else take (length buf) d @ drop (length d) buf)"

definition read_column :: "fetched_column \<Rightarrow> bytes \<Rightarrow> bytes" where
  "read_column col buf = (case col of (is_null, real_length, d) \<Rightarrow> if is_null then [] else take (min real_length (length buf)) buf)"

definition write_row :: "(nat \<Rightarrow> fetched_column) \<Rightarrow> bytes list \<Rightarrow> bytes list" where
  "write_row cols string_data = map (\<lambda>j. write_column (cols j) (string_data ! j)) [0..<length string_data]"

definition fetched_row :: "(nat \<Rightarrow> fetched_column) \<Rightarrow> bytes list \<Rightarrow> DataRow" where
  "fetched_row cols string_data = map (\<lambda>j. read_column (cols j) (string_data ! j)) [0..<length string_data]"

fun fetch_rows :: "(nat \<Rightarrow> int \<times> (nat \<Rightarrow> fetched_column)) \<Rightarrow> nat \<Rightarrow> nat \<Rightarrow> bytes list \<Rightarrow> DataTable \<Rightarrow> int + DataTable" where
  "fetch_rows f 0 k string_data result = Inr result"
| "fetch_rows f (Suc n) k string_data result =
    (case f k of (fetch_rc, cols) \<Rightarrow>
       if fetch_rc = 1 then Inl (-9)
       else if fetch_rc = MYSQL_NO_DATA then Inr result
       else let sd = write_row cols string_data in fetch_rows f n (Suc k) sd (result @ [fetched_row cols sd]))"

text \<open>
  What reaches the server: a text query, or an execution with the parameter buffers as they are bound, each
  string with its terminator.
\<close>

datatype wire = Query bytes | Execute "bytes list"

definition bound_params :: "DataRow \<Rightarrow> bytes list" where
  "bound_params param = map (\<lambda>p. p @ [0]) param"

definition stmt_row ::
  "row_env \<Rightarrow> bool \<Rightarrow> DataRow \<Rightarrow> int \<Rightarrow> DataTables \<Rightarrow> FieldsType \<Rightarrow> mysql_client \<Rightarrow>
   (int + DataTables) \<times> FieldsType \<times> mysql_client \<times> wire list" where
  "stmt_row e bindOutSimple param resultCols results fieldsType c =
    (if rw_bind e \<noteq> 0 then (Inl (-5), fieldsType, c, [])
     else if resultCols > 0 then
       (case (if bindOutSimple then bindStmtOutSimple (rw_meta e) (rw_bind_result e) resultCols fieldsType
              else bindStmtOut (rw_time_size e) (rw_meta e) (rw_bind_result e) resultCols fieldsType) of
          (rc, string_data, ft) \<Rightarrow>
            if rc \<noteq> 0 then (Inl (-6), ft, c, [])
            else if fst (rw_exec e) \<noteq> 0 then (Inl (-7), ft, flushConnState (snd (rw_exec e)) c, [Execute (bound_params param)])
            else if rw_store e \<noteq> 0 then (Inl (-8), ft, c, [Execute (bound_params param)])
            else (case fetch_rows (rw_fetch e) (nat (rw_num_rows e)) 0 string_data [] of
                Inl code \<Rightarrow> (Inl code, ft, c, [Execute (bound_params param)])
              | Inr result \<Rightarrow> (Inr (results @ [result]), ft, c, [Execute (bound_params param)])))
     else if fst (rw_exec e) \<noteq> 0 then
       (Inl (-10), fieldsType, flushConnState (snd (rw_exec e)) c, [Execute (bound_params param)])
     else (Inr results, fieldsType, c, [Execute (bound_params param)]))"

fun stmt_loop ::
  "(nat \<Rightarrow> row_env) \<Rightarrow> bool \<Rightarrow> int \<Rightarrow> nat \<Rightarrow> DataTable \<Rightarrow> DataTables \<Rightarrow> FieldsType \<Rightarrow> mysql_client \<Rightarrow>
   (int + DataTables) \<times> FieldsType \<times> mysql_client \<times> wire list" where
  "stmt_loop rows simple resultCols m [] results ft c = (Inr results, ft, c, [])"
| "stmt_loop rows simple resultCols m (param # ps) results ft c =
    (case stmt_row (rows m) simple param resultCols results ft c of
       (Inl rc, ft', c', w) \<Rightarrow> (Inl rc, ft', c', w)
     | (Inr results', ft', c', w) \<Rightarrow>
         (case stmt_loop rows simple resultCols (Suc m) ps results' ft' c' of (r, ft'', c'', w') \<Rightarrow> (r, ft'', c'', w @ w')))"

record stmt_env =
  st_begin :: outcome
  st_init :: bool
  st_prepare :: outcome
  st_rows :: "nat \<Rightarrow> row_env"
  st_end :: "bytes \<Rightarrow> outcome"

definition valid_params :: "int \<Rightarrow> DataTable \<Rightarrow> DataTable" where
  "valid_params paramCols params = filter (\<lambda>p. int (length p) = paramCols) params"

text \<open>The body up to the label \<^verbatim>\<open>exit\<close>: \<open>Inl\<close> is the code the jump sets.\<close>

definition stmt_body ::
  "stmt_env \<Rightarrow> bool \<Rightarrow> DataTable \<Rightarrow> int \<Rightarrow> int \<Rightarrow> FieldsType \<Rightarrow> mysql_client \<Rightarrow>
   (int + DataTables) \<times> FieldsType \<times> mysql_client \<times> wire list" where
  "stmt_body e simple params paramCols resultCols fieldsType c =
    (if \<not> st_init e then (Inl (-3), fieldsType, c, [])
     else if fst (st_prepare e) \<noteq> 0 then (Inl (-4), fieldsType, flushConnState (snd (st_prepare e)) c, [])
     else if valid_params paramCols params = [] then (Inl (-11), fieldsType, c, [])
     else stmt_loop (st_rows e) simple resultCols 0 (valid_params paramCols params) [] [] c)"

definition execStatement_full ::
  "stmt_env \<Rightarrow> bytes \<Rightarrow> DataTable \<Rightarrow> int \<Rightarrow> int \<Rightarrow> bool \<Rightarrow> bool \<Rightarrow> mysql_client \<Rightarrow>
   int \<times> DataTables \<times> FieldsType \<times> mysql_client \<times> wire list" where
  "execStatement_full e sql params paramCols resultCols transaction bindOutSimple c =
    (if isEmptyString sql \<or> \<not> my_client c then (-1, [], [], c, [])
     else if transaction \<and> fst (st_begin e) \<noteq> 0 then (-2, [], [], flushConnState (snd (st_begin e)) c, [Query BEGIN])
     else (case stmt_body e bindOutSimple params paramCols resultCols [] c of (r, ft, c1, w) \<Rightarrow>
       let rc = (case r of Inl code \<Rightarrow> code | Inr _ \<Rightarrow> 0);
           results = (case r of Inl _ \<Rightarrow> [] | Inr rs \<Rightarrow> rs);
           ft' = (case r of Inl _ \<Rightarrow> [] | Inr _ \<Rightarrow> ft) in
       if transaction then
         (let trans = (if rc = 0 then COMMIT else ROLLBACK); t = st_end e trans in
          (if fst t \<noteq> 0 \<and> rc = 0 then fst t else rc, results, ft', after_call t c1, Query BEGIN # w @ [Query trans]))
       else (rc, results, ft', c1, w)))"

definition execStatement_row ::
  "stmt_env \<Rightarrow> bytes \<Rightarrow> DataRow \<Rightarrow> int \<Rightarrow> bool \<Rightarrow> mysql_client \<Rightarrow> int \<times> DataTable option \<times> FieldsType \<times> mysql_client \<times> wire list" where
  "execStatement_row e sql param resultCols transaction c =
    (case execStatement_full e sql [param] (int (length param)) resultCols transaction True c of (rc, results, ft, c', sent) \<Rightarrow>
       (rc, if rc = 0 \<and> results \<noteq> [] then Some (hd results) else None, ft, c', sent))"

definition execStatement_table :: "stmt_env \<Rightarrow> bytes \<Rightarrow> DataTable \<Rightarrow> int \<Rightarrow> bool \<Rightarrow> mysql_client \<Rightarrow> int \<times> mysql_client \<times> wire list" where
  "execStatement_table e sql params paramCols transaction c =
    (case execStatement_full e sql params paramCols 0 transaction True c of (rc, _, _, c', sent) \<Rightarrow> (rc, c', sent))"

definition execStatement_one :: "stmt_env \<Rightarrow> bytes \<Rightarrow> DataRow \<Rightarrow> bool \<Rightarrow> mysql_client \<Rightarrow> int \<times> mysql_client \<times> wire list" where
  "execStatement_one e sql param transaction c = execStatement_table e sql [param] (int (length param)) transaction c"

definition setTransactionIsolation :: "raw_env \<Rightarrow> bytes \<Rightarrow> mysql_client \<Rightarrow> int \<times> mysql_client \<times> bytes list" where
  "setTransactionIsolation e level c =
    (if isEmptyString level \<or> \<not> my_client c then (-1, c, [])
     else execQuery_text e (lit ''SET SESSION TRANSACTION ISOLATION LEVEL '' @ level @ lit '';'') False c)"

section \<open>One request\<close>

record mysql_env =
  me_raw :: raw_env
  me_result :: result_env
  me_stmt :: stmt_env

definition RESP_RC_PARAM_INVALID :: int where "RESP_RC_PARAM_INVALID = 1001"
definition RESP_RC_TYPE_INVALID :: int where "RESP_RC_TYPE_INVALID = 1002"
definition RESP_RC_NO_AVAIL_CLT :: int where "RESP_RC_NO_AVAIL_CLT = 1003"

definition mysql_handleRequest :: "mysql_env \<Rightarrow> mysql_client_req \<Rightarrow> mysql_client \<Rightarrow> mysql_client_resp \<times> mysql_client" where
  "mysql_handleRequest e q c =
    (let resp = mysql_client_resp_new (mq_req_id q) in
     if mq_type q = execQuery then
       (case execQuery_text (me_raw e) (c_str (mq_sql q)) (mq_transaction q) c of (rc, c', _) \<Rightarrow> (resp\<lparr>mr_rc := word_of_int rc\<rparr>, c'))
     else if mq_type q = execRealQuery then
       (case execQuery_real (me_raw e) (mq_sql q) (mq_transaction q) c of (rc, c', _) \<Rightarrow> (resp\<lparr>mr_rc := word_of_int rc\<rparr>, c'))
     else if mq_type q = execQueryForResult then
       (case execQuery_table (me_result e) (c_str (mq_sql q)) c of (rc, table, c', _) \<Rightarrow>
          (resp\<lparr>mr_rc := word_of_int rc, mr_results := if rc = 0 then [table] else []\<rparr>, c'))
     else if mq_type q = execStatement then
       (case mq_stmt_param q of
          Some p \<Rightarrow>
            (case execStatement_full (me_stmt e) (c_str (mq_sql q)) (sp_params p) (sint (sp_paramCols p)) (sint (sp_resultCols p))
                    (mq_transaction q) True c of (rc, results, ft, c', _) \<Rightarrow>
               (resp\<lparr>mr_rc := word_of_int rc, mr_results := results, mr_fieldsType := ft\<rparr>, c'))
        | None \<Rightarrow> (resp\<lparr>mr_rc := word_of_int RESP_RC_PARAM_INVALID\<rparr>, c))
     else (resp\<lparr>mr_rc := word_of_int RESP_RC_TYPE_INVALID\<rparr>, c))"

definition mysql_retryFailure :: "mysql_client_req \<Rightarrow> mysql_client_resp" where
  "mysql_retryFailure q = (mysql_client_resp_new (mq_req_id q))\<lparr>mr_rc := word_of_int RESP_RC_NO_AVAIL_CLT\<rparr>"

section \<open>Facts\<close>

text \<open>
  What must go well for one row, in terms of the answers of the library alone, and the code that is set for the first thing that does
  not: binding the parameters, binding the result columns, the execution, storing the result and fetching its rows until
  they end.
\<close>

definition columns_bound :: "row_env \<Rightarrow> bool \<Rightarrow> int \<Rightarrow> bool" where
  "columns_bound e simple cols \<longleftrightarrow> (\<exists>columns. rw_meta e = Some columns \<and> int (length columns) = cols \<and>
     rw_bind_result e (map (if simple then out_buffer_simple else out_buffer (rw_time_size e)) columns) = 0)"

definition fetch_fails :: "(nat \<Rightarrow> int \<times> (nat \<Rightarrow> fetched_column)) \<Rightarrow> nat \<Rightarrow> nat \<Rightarrow> bool" where
  "fetch_fails f n k \<longleftrightarrow> (\<exists>j < n. fst (f (k + j)) = 1 \<and> (\<forall>i < j. fst (f (k + i)) \<noteq> MYSQL_NO_DATA))"

definition row_code :: "bool \<Rightarrow> int \<Rightarrow> row_env \<Rightarrow> int" where
  "row_code simple cols e =
    (if rw_bind e \<noteq> 0 then -5
     else if cols > 0 then
       (if \<not> columns_bound e simple cols then -6
        else if fst (rw_exec e) \<noteq> 0 then -7
        else if rw_store e \<noteq> 0 then -8
        else if fetch_fails (rw_fetch e) (nat (rw_num_rows e)) 0 then -9 else 0)
     else if fst (rw_exec e) \<noteq> 0 then -10 else 0)"

lemma fetch_fails_Suc:
  "fetch_fails f (Suc n) k \<longleftrightarrow> fst (f k) = 1 \<or> fst (f k) \<noteq> MYSQL_NO_DATA \<and> fetch_fails f n (Suc k)"
  by (simp add: fetch_fails_def Ex_less_Suc2 All_less_Suc2) blast

lemma fetch_rows_code: "if fetch_fails f n k then fetch_rows f n k sd acc = Inl (-9) else (\<exists>t. fetch_rows f n k sd acc = Inr t)"
proof (induction f n k sd acc rule: fetch_rows.induct)
  case (1 f k sd acc)
  then show ?case by (simp add: fetch_fails_def)
next
  case (2 f n k sd acc)
  obtain x cols where f: "f k = (x, cols)" by fastforce
  show ?case
  proof (cases "x = 1 \<or> x = MYSQL_NO_DATA")
    case True
    with f show ?thesis by (auto simp: fetch_fails_Suc MYSQL_NO_DATA_def)
  next
    case False
    with 2 [OF f [symmetric] _ _ refl] f show ?thesis by (auto simp: fetch_fails_Suc Let_def)
  qed
qed

text \<open>
  A column comes out as the prefix of its value that fits the bound buffer, the whole value exactly when it
  is not longer than the buffer; whatever earlier rows left in the buffer never shows.
\<close>

lemma fetched_column_prefix:
  "read_column (False, length d, d) (write_column (False, length d, d) buf) = take (length buf) d"
  by (simp add: read_column_def write_column_def min_def)

lemma fetched_column_whole:
  "read_column (False, length d, d) (write_column (False, length d, d) buf) = d \<longleftrightarrow> length d \<le> length buf"
  by (simp add: fetched_column_prefix)

lemma write_row_length [simp]: "map length (write_row cols sd) = map length sd"
  by (rule nth_equalityI) (auto simp: write_row_def write_column_def split: prod.splits)

lemma fetched_row_width [simp]: "length (fetched_row cols sd) = length sd"
  by (simp add: fetched_row_def)

lemma fetch_rows_width:
  "fetch_rows f n k sd acc = Inr t \<Longrightarrow> \<forall>row \<in> set acc. length row = length sd \<Longrightarrow> \<forall>row \<in> set t. length row = length sd"
proof (induction f n k sd acc rule: fetch_rows.induct)
  case (2 f n k sd acc)
  have "length (write_row cols sd) = length sd" for cols by (simp add: write_row_def)
  with 2 show ?case by (fastforce simp: Let_def split: prod.splits if_splits)
qed simp

lemma bind_columns_rc:
  "bind_columns buf meta bind_result cols ft = (rc, sd, ft') \<Longrightarrow>
    rc = 0 \<longleftrightarrow> (\<exists>columns. meta = Some columns \<and> int (length columns) = cols \<and> bind_result (map buf columns) = 0)"
  by (auto simp: bind_columns_def split: option.splits if_splits)

lemma stmt_row_outcome:
  assumes "stmt_row e simple p cols rs ft c = (r, ft', c', w)"
  shows "r = (if row_code simple cols e = 0 then Inr (projr r) else Inl (row_code simple cols e))"
    and "w = (if row_code simple cols e \<in> {-5, -6} then [] else [Execute (bound_params p)])"
    and "r = Inr rs' \<Longrightarrow> length rs' = length rs + (if cols > 0 then 1 else 0)"
proof -
  obtain rc sd ft1 where b: "(if simple then bindStmtOutSimple (rw_meta e) (rw_bind_result e) cols ft
      else bindStmtOut (rw_time_size e) (rw_meta e) (rw_bind_result e) cols ft) = (rc, sd, ft1)" by (metis prod_cases3)
  then have rc: "rc = 0 \<longleftrightarrow> columns_bound e simple cols"
    by (auto simp: columns_bound_def bindStmtOutSimple_def bindStmtOut_def dest: bind_columns_rc split: if_splits)
  show "r = (if row_code simple cols e = 0 then Inr (projr r) else Inl (row_code simple cols e))"
    and "w = (if row_code simple cols e \<in> {-5, -6} then [] else [Execute (bound_params p)])"
    using assms fetch_rows_code [of "rw_fetch e" "nat (rw_num_rows e)" 0 sd "[]"]
    by (auto simp: stmt_row_def row_code_def b rc split: if_splits sum.splits)
  show "r = Inr rs' \<Longrightarrow> length rs' = length rs + (if cols > 0 then 1 else 0)"
    using assms by (auto simp: stmt_row_def b split: if_splits sum.splits)
qed

text \<open>The loop ends with the first row that fails, or has executed all of them.\<close>

definition loop_outcome :: "(nat \<Rightarrow> int) \<Rightarrow> DataTable \<Rightarrow> int + nat \<Rightarrow> wire list \<Rightarrow> bool" where
  "loop_outcome code ps r w \<longleftrightarrow>
    (case r of
       Inr _ \<Rightarrow> (\<forall>j < length ps. code j = 0) \<and> w = map (Execute \<circ> bound_params) ps
     | Inl rc \<Rightarrow> \<exists>m < length ps. (\<forall>j < m. code j = 0) \<and> code m = rc \<and> rc \<noteq> 0 \<and>
         w = map (Execute \<circ> bound_params) (take (if rc \<in> {-5, -6} then m else Suc m) ps))"

lemma stmt_loop_outcome:
  "stmt_loop rows simple cols m ps rs ft c = (r, ft', c', w) \<Longrightarrow>
    loop_outcome (\<lambda>j. row_code simple cols (rows (m + j))) ps (map_sum (\<lambda>x. x) length r) w \<and>
    (\<forall>rs'. r = Inr rs' \<longrightarrow> length rs' = length rs + (if cols > 0 then length ps else 0))"
proof (induction rows simple cols m ps rs ft c arbitrary: r ft' c' w rule: stmt_loop.induct)
  case (2 rows simple cols m p ps rs ft c)
  let ?code = "\<lambda>m. row_code simple cols (rows m)"
  obtain r1 ft1 c1 w1 where x: "stmt_row (rows m) simple p cols rs ft c = (r1, ft1, c1, w1)"
    by (cases "stmt_row (rows m) simple p cols rs ft c")
  note o = stmt_row_outcome [OF x]
  show ?case
  proof (cases r1)
    case (Inl rc)
    with o(1) have "?code m = rc" "rc \<noteq> 0" by (auto split: if_splits)
    with 2 x Inl o(2) show ?thesis by (auto simp: loop_outcome_def intro!: exI [of _ 0])
  next
    case (Inr rs')
    obtain r2 ft2 c2 w2 where y: "stmt_loop rows simple cols (Suc m) ps rs' ft1 c1 = (r2, ft2, c2, w2)"
      by (cases "stmt_loop rows simple cols (Suc m) ps rs' ft1 c1")
    have z: "r = r2" "w = w1 @ w2" using "2.prems" x y Inr by (auto simp: comp_def)
    have c0: "?code m = 0" using o(1) Inr by (auto split: if_splits)
    then have w1: "w1 = [Execute (bound_params p)]" using o(2) by simp
    have I: "loop_outcome (\<lambda>j. ?code (Suc m + j)) ps (map_sum (\<lambda>x. x) length r2) w2"
        "\<forall>rs2. r2 = Inr rs2 \<longrightarrow> length rs2 = length rs' + (if cols > 0 then length ps else 0)"
      using "2.IH" [OF x [symmetric] Inr refl refl, OF y] by simp_all
    have "loop_outcome (\<lambda>j. ?code (m + j)) (p # ps) (map_sum (\<lambda>x. x) length r) w"
    proof (cases r2)
      case (Inl rc)
      with I(1) obtain k where k: "k < length ps" "\<forall>j < k. ?code (Suc m + j) = 0" "?code (Suc m + k) = rc" "rc \<noteq> 0"
          "w2 = map (Execute \<circ> bound_params) (take (if rc \<in> {-5, -6} then k else Suc k) ps)"
        by (auto simp: loop_outcome_def)
      have "?code (m + j) = 0" if "j < Suc k" for j using that c0 k(2) by (cases j) auto
      with k Inl z w1 show ?thesis by (auto simp: loop_outcome_def intro!: exI [of _ "Suc k"])
    next
      case (Inr rs2)
      with I(1) have "?code (m + j) = 0" if "j < Suc (length ps)" for j using that c0 by (cases j) (auto simp: loop_outcome_def)
      with Inr I(1) z w1 show ?thesis by (simp add: loop_outcome_def)
    qed
    moreover have "length rs' = length rs + (if cols > 0 then 1 else 0)" using o(3) Inr by blast
    ultimately show ?thesis using I(2) z by auto
  qed
qed (simp add: loop_outcome_def)

lemma commit_not_rollback: "COMMIT \<noteq> ROLLBACK"
  by (simp add: COMMIT_def ROLLBACK_def lit_def)

text \<open>
  C14: A prepared statement in a transaction is all or nothing.  If preparing succeeds, there are rows with the declared number of
  parameters, and every answer of the library to each of them is a success (binding, execution, result and fetches), all
  of them are executed in order, a commit is sent, and what it returns is reported.  Otherwise the rows before the first failure have been executed, and the
  failing one if the failure came after its execution, then a rollback is sent; no results are returned and the code
  says which step failed first.
\<close>
theorem statement_all_or_nothing:
  assumes "\<not> isEmptyString sql" and "my_client c" and "fst (st_begin e) = 0"
    and "execStatement_full e sql params paramCols resultCols True simple c = (rc, results, ft, c', sent)"
    and "ps = valid_params paramCols params" and "code = (\<lambda>m. row_code simple resultCols (st_rows e m))"
  shows "st_init e \<and> fst (st_prepare e) = 0 \<and> ps \<noteq> [] \<and> (\<forall>m < length ps. code m = 0) \<and>
      sent = Query BEGIN # map (Execute \<circ> bound_params) ps @ [Query COMMIT] \<and> rc = fst (st_end e COMMIT) \<and>
      length results = (if resultCols > 0 then length ps else 0) \<or>
    (\<exists>k. sent = Query BEGIN # map (Execute \<circ> bound_params) (take k ps) @ [Query ROLLBACK] \<and> results = [] \<and> ft = [] \<and>
      (\<not> st_init e \<and> rc = -3 \<and> k = 0 \<or> st_init e \<and> fst (st_prepare e) \<noteq> 0 \<and> rc = -4 \<and> k = 0 \<or>
       st_init e \<and> fst (st_prepare e) = 0 \<and> ps = [] \<and> rc = -11 \<or>
       st_init e \<and> fst (st_prepare e) = 0 \<and> (\<exists>m < length ps. (\<forall>j < m. code j = 0) \<and> code m \<noteq> 0 \<and> rc = code m \<and>
         k = (if rc \<in> {-5, -6} then m else Suc m))))"
proof (cases "st_init e \<and> fst (st_prepare e) = 0 \<and> ps \<noteq> []")
  case False
  then show ?thesis using assms(1-5)
    by (auto simp: execStatement_full_def stmt_body_def Let_def split: if_splits intro!: exI [of _ 0])
next
  case True
  obtain r ft1 c1 w where l: "stmt_loop (st_rows e) simple resultCols 0 ps [] [] c = (r, ft1, c1, w)"
    by (cases "stmt_loop (st_rows e) simple resultCols 0 ps [] [] c")
  then have b: "stmt_body e simple params paramCols resultCols [] c = (r, ft1, c1, w)"
    using True assms(5) by (simp add: stmt_body_def)
  have o: "loop_outcome code ps (map_sum (\<lambda>x. x) length r) w"
      "\<forall>rs. r = Inr rs \<longrightarrow> length rs = (if resultCols > 0 then length ps else 0)"
    using stmt_loop_outcome [OF l] by (auto simp: assms(6))
  show ?thesis
  proof (cases r)
    case (Inl x)
    then obtain m where m: "m < length ps" "\<forall>j < m. code j = 0" "code m = x" "x \<noteq> 0"
        "w = map (Execute \<circ> bound_params) (take (if x \<in> {-5, -6} then m else Suc m) ps)"
      using o(1) by (auto simp: loop_outcome_def)
    have "rc = x" "results = []" "ft = []" "sent = Query BEGIN # w @ [Query ROLLBACK]"
      using assms(1-4) b Inl m(4) by (auto simp: execStatement_full_def Let_def)
    with m True show ?thesis by (intro disjI2 exI [of _ "if x \<in> {-5, -6} then m else Suc m"]) auto
  next
    case (Inr rs)
    then have "\<forall>m < length ps. code m = 0" "w = map (Execute \<circ> bound_params) ps"
      using o(1) by (auto simp: loop_outcome_def)
    moreover have "rc = fst (st_end e COMMIT)" "results = rs" "sent = Query BEGIN # w @ [Query COMMIT]"
      using assms(1-4) b Inr by (auto simp: execStatement_full_def Let_def split: if_splits)
    ultimately show ?thesis using True o(2) Inr by blast
  qed
qed

text \<open>A row whose execution returns \<open>rc\<close>.\<close>

definition sample_row :: "int \<Rightarrow> row_env" where
  "sample_row rc = \<lparr>rw_bind = 0, rw_time_size = 40, rw_meta = None, rw_bind_result = \<lambda>_. 0, rw_exec = (rc, 1062), rw_store = 0,
    rw_num_rows = 0, rw_fetch = \<lambda>_. (0, \<lambda>_. (True, 0, []))\<rparr>"

theorem statement_all_or_nothing_witness:
  "\<exists>e c rc results ft c' sent. execStatement_full e (lit ''x'') [[[1]], [[2]], []] 1 0 True True c = (rc, results, ft, c', sent) \<and>
    rc = -10 \<and> sent = [Query BEGIN, Execute (bound_params [[1]]), Execute (bound_params [[2]]), Query ROLLBACK]"
proof -
  let ?e = "\<lparr>st_begin = (0, 0), st_init = True, st_prepare = (0, 0), st_rows = \<lambda>m. sample_row (int m), st_end = \<lambda>_. (0, 0)\<rparr>"
  let ?c = "\<lparr>my_client = True, my_connState = True\<rparr>" and ?ps = "[[[1]], [[2]], []]"
  obtain rc results ft c' sent where x: "execStatement_full ?e (lit ''x'') ?ps 1 0 True True ?c = (rc, results, ft, c', sent)"
    by (cases "execStatement_full ?e (lit ''x'') ?ps 1 0 True True ?c") auto
  have v: "[[[1]], [[2]]] = valid_params 1 ?ps" by (simp add: valid_params_def)
  have ne: "\<not> isEmptyString (lit ''x'')" by (simp add: isEmptyString_def lit_def)
  have code: "row_code True 0 (sample_row (int m)) = (if m = 0 then 0 else -10)" for m
    by (simp add: row_code_def sample_row_def)
  from statement_all_or_nothing [OF ne _ _ x v refl]
  obtain m where "m < 2" "\<forall>j < m. j = 0" "m \<noteq> 0" "rc = -10"
      "sent = Query BEGIN # map (Execute \<circ> bound_params) (take (Suc m) [[[1]], [[2]]]) @ [Query ROLLBACK]"
    by (auto simp: code less_2_cases_iff split: if_splits)
  moreover from this have "m = 1" by linarith
  ultimately have "rc = -10" "sent = [Query BEGIN, Execute (bound_params [[1]]), Execute (bound_params [[2]]), Query ROLLBACK]" by simp_all
  with x show ?thesis by blast
qed

section \<open>The pool\<close>

text \<open>
  \<^verbatim>\<open>mysql_client_pool\<close>: the generic pool with the MySQL client.  The environment of a step says how the calls
  of that step turn out.
\<close>

record mysql_pool_env =
  mp_env :: mysql_env
  mp_init :: bool
  mp_connect :: bool

definition mysql_pool_ops :: "(mysql_client_req, mysql_client_resp, mysql_client, mysql_pool_env) pool_ops" where
  "mysql_pool_ops =
    \<lparr>q_id = mq_req_id, q_set_id = (\<lambda>i q. q\<lparr>mq_req_id := i\<rparr>), q_retry = mq_retry_times, q_set_retry = (\<lambda>n q. q\<lparr>mq_retry_times := n\<rparr>),
     r_id = mr_req_id, c_new = mysql_client_new, c_open = (\<lambda>e c. mysql_connect (mp_init e) (mp_connect e) c),
     c_connState = my_connState, c_handle = (\<lambda>e q c. mysql_handleRequest (mp_env e) q c), q_failure = mysql_retryFailure\<rparr>"

type_synonym mysql_client_pool = "(mysql_client_req, mysql_client_resp, mysql_client, mysql_client_req worker_pc) client_pool"

abbreviation mysql_reach :: "int \<Rightarrow> mysql_client_pool \<Rightarrow> u64 list \<Rightarrow> nat \<Rightarrow> u64 list \<Rightarrow> bool" where
  "mysql_reach psz \<equiv> pool_reach mysql_pool_ops (worker_step mysql_pool_ops) WPop (snd (pool_start psz pool_new))"

abbreviation mysql_busy_run :: "mysql_client_pool \<Rightarrow> nat \<Rightarrow> mysql_client_pool \<Rightarrow> bool" where
  "mysql_busy_run \<equiv> busy_run (worker_step mysql_pool_ops) WPop WExit"

abbreviation mysql_work :: "mysql_client_pool \<Rightarrow> nat" where
  "mysql_work \<equiv> work mysql_pool_ops (weight mysql_pool_ops)"

text \<open>\<^verbatim>\<open>mysql_client_pool::execQuery\<close> runs in the thread of the caller, without a worker.\<close>

definition pool_getIdleClient :: "mysql_pool_env \<Rightarrow> mysql_client_pool \<Rightarrow> nat option \<times> mysql_client_pool" where
  "pool_getIdleClient e p =
    (case getIdleClient_take mysql_pool_ops p of
       (IdleClient clt, p') \<Rightarrow> (Some clt, p')
     | (NewClient clt, p') \<Rightarrow> getIdleClient_open mysql_pool_ops e clt p'
     | (NoClient, p') \<Rightarrow> (None, p'))"

definition pool_execQuery :: "mysql_pool_env \<Rightarrow> bytes \<Rightarrow> bool \<Rightarrow> mysql_client_pool \<Rightarrow> int \<times> mysql_client_pool" where
  "pool_execQuery e sql transaction p =
    (case pool_getIdleClient e p of
       (None, p1) \<Rightarrow> (-1, p1)
     | (Some clt, p1) \<Rightarrow>
         (case execQuery_text (me_raw (mp_env e)) sql transaction (the (cp_objs p1 clt)) of (rc, c, _) \<Rightarrow>
            let p2 = p1\<lparr>cp_objs := (cp_objs p1)(clt \<mapsto> c)\<rparr> in
            (rc, if my_connState c then markClientIdle clt p2 else closeClient clt p2)))"

interpretation mysql_pool: pooled mysql_pool_ops
  by unfold_locales
    (auto simp: mysql_pool_ops_def mysql_handleRequest_def mysql_retryFailure_def mysql_client_resp_new_def Let_def
      split: prod.splits option.splits)

lemma getIdleClient_table:
  assumes t: "table_ok my_connState (cp_clt2idle p) (cp_objs p) (cp_nextObj p) H" and g: "pool_getIdleClient e p = (r, p')"
  shows "table_ok my_connState (cp_clt2idle p') (cp_objs p') (cp_nextObj p') (H + mset (case r of None \<Rightarrow> [] | Some c \<Rightarrow> [c])) \<and>
    cp_workers p' = cp_workers p"
proof (cases "take_idle (cp_clt2idle p)")
  case (Some x)
  with g table_take [OF t, of "fst x" "snd x"] show ?thesis
    by (cases x) (auto simp: pool_getIdleClient_def getIdleClient_take_def)
next
  case None
  let ?n = "cp_nextObj p"
  note new = table_new [OF t, of mysql_client_new]
  have "table_ok my_connState (cp_clt2idle p @ [(?n, False)]) ((cp_objs p)(?n \<mapsto> x)) (Suc ?n) (add_mset ?n H)" for x
    using table_update [OF new, of ?n x] by simp
  with None g t table_erase [OF new, of ?n] show ?thesis
    by (auto simp: pool_getIdleClient_def getIdleClient_take_def getIdleClient_open_def erase_client_def mysql_pool_ops_def Let_def
        split: prod.splits if_splits)
qed

lemma pool_execQuery_keeps_clients:
  assumes ok: "clients_ok my_connState held p" and x: "pool_execQuery e sql transaction p = (rc, p')"
  shows "clients_ok my_connState held p'"
proof -
  let ?H = "mset (concat (map held (cp_workers p)))"
  obtain r p1 where g: "pool_getIdleClient e p = (r, p1)" by (cases "pool_getIdleClient e p")
  have t: "table_ok my_connState (cp_clt2idle p1) (cp_objs p1) (cp_nextObj p1) (?H + mset (case r of None \<Rightarrow> [] | Some c \<Rightarrow> [c]))"
    and w: "cp_workers p1 = cp_workers p"
    using getIdleClient_table [OF _ g] ok by (auto simp: clients_ok_def)
  show ?thesis
  proof (cases r)
    case None
    with g x t w show ?thesis by (simp add: pool_execQuery_def clients_ok_def)
  next
    case (Some clt)
    have u: "table_ok my_connState (cp_clt2idle p1) ((cp_objs p1)(clt \<mapsto> c)) (cp_nextObj p1) (add_mset clt ?H)" for c
      using table_update [OF t, of clt c] Some by simp
    show ?thesis using g x w Some table_mark [OF u, where c = clt] table_erase [OF u, where d = clt]
      by (auto simp: pool_execQuery_def clients_ok_def Let_def markClientIdle_def closeClient_def erase_client_def split: prod.splits)
  qed
qed

lemma mysql_sel [simp]:
  "q_id mysql_pool_ops = mq_req_id" "r_id mysql_pool_ops = mr_req_id" "c_connState mysql_pool_ops = my_connState"
  "q_retry mysql_pool_ops = mq_retry_times" "c_new mysql_pool_ops = mysql_client_new" "q_failure mysql_pool_ops = mysql_retryFailure"
  "q_set_id mysql_pool_ops i q = q\<lparr>mq_req_id := i\<rparr>" "q_set_retry mysql_pool_ops n q = q\<lparr>mq_retry_times := n\<rparr>"
  "c_open mysql_pool_ops e c = mysql_connect (mp_init e) (mp_connect e) c"
  "c_handle mysql_pool_ops e q c = mysql_handleRequest (mp_env e) q c"
  by (simp_all add: mysql_pool_ops_def)

text \<open>One request through a pool of one worker, with a database that accepts everything.\<close>

definition sample_mysql_env :: mysql_pool_env where
  "sample_mysql_env =
    \<lparr>mp_env = \<lparr>me_raw = \<lparr>re_begin = (0, 0), re_query = (0, 0), re_end = \<lambda>_. (0, 0)\<rparr>,
        me_result = \<lparr>qe_query = (0, 0), qe_store = None, qe_errno = 0\<rparr>,
        me_stmt = \<lparr>st_begin = (0, 0), st_init = True, st_prepare = (0, 0),
          st_rows = \<lambda>_. sample_row 0, st_end = \<lambda>_. (0, 0)\<rparr>\<rparr>,
     mp_init = True, mp_connect = True\<rparr>"

definition sample_mysql_start :: mysql_client_pool where
  "sample_mysql_start = snd (pool_submit mysql_pool_ops (mysql_client_req_new execQuery 0 (lit ''x'') False) (snd (pool_start 1 pool_new)))"

lemma sample_mysql_reach: "mysql_reach 1 sample_mysql_start [100] 1 []"
proof -
  let ?q = "mysql_client_req_new execQuery 0 (lit ''x'') False" and ?p = "snd (pool_start 1 pool_new) :: mysql_client_pool"
  have "q_retry mysql_pool_ops ?q = 0" by (simp add: mysql_client_req_new_def)
  moreover have "pool_submit mysql_pool_ops ?q ?p = (100, sample_mysql_start)"
    by (simp add: sample_mysql_start_def pool_submit_def sq_push_def sq_new_def pool_start_def pool_new_def Let_def MaxPendingReq_def MinReqId_def)
  ultimately show ?thesis using pr_submit [OF pr_start, of mysql_pool_ops ?q ?p _ sample_mysql_start "worker_step mysql_pool_ops" WPop]
    by (auto simp: sq_size_def sq_new_def pool_start_def pool_new_def Let_def MaxPendingReq_def MinReqId_def)
qed

lemma sample_mysql_run:
  "\<exists>p. mysql_busy_run sample_mysql_start 5 p \<and> (\<forall>i. \<not> runnable WPop WExit p i)"
proof -
  let ?s = "worker_step mysql_pool_ops sample_mysql_env 0"
  note defs = sample_mysql_start_def pool_submit_def pool_start_def pool_new_def sq_push_def sq_new_def worker_step_def set_pc_def
    sq_pop_timeout_cv_def getIdleClient_take_def getIdleClient_open_def mysql_connect_def mysql_client_new_def sample_mysql_env_def
    mysql_handleRequest_def mysql_client_req_new_def mysql_client_resp_new_def execQuery_text_def rawQuery_def c_str_def lit_def
    isEmptyString_def after_call_def markClientIdle_def MaxPendingReq_def MinReqId_def Let_def
  have "mysql_busy_run sample_mysql_start (Suc (Suc (Suc (Suc (Suc 0))))) (?s (?s (?s (?s (?s sample_mysql_start)))))"
    by (intro br_refl br_step) (simp_all add: runnable_def defs)
  moreover have "\<not> runnable WPop WExit (?s (?s (?s (?s (?s sample_mysql_start))))) i" for i
    by (cases i) (simp_all add: runnable_def defs)
  moreover have five: "(5 :: nat) = Suc (Suc (Suc (Suc (Suc 0))))" by simp
  ultimately show ?thesis unfolding five by blast
qed

text \<open>
  C9: However the workers of a MySQL pool, the threads that submit requests and \<^verbatim>\<open>stop\<close> interleave, and however
  connecting and executing turn out, the identifiers that \<^verbatim>\<open>submit\<close> returned for accepted requests are different, no request is answered twice and nothing is answered that was not
  accepted; every response carries the identifier that \<^verbatim>\<open>submit\<close> returned for its request; and each single request
  is taken from the queue at most four times (as long as the 64-bit identifiers do not wrap).
\<close>
theorem mysql_pool_answers_at_most_once:
  assumes "mysql_reach psz p acc subs pops" and "subs \<le> 2 ^ 64"
  shows "distinct acc \<and> distinct (map (mr_req_id \<circ> snd) (cp_responses p)) \<and>
    set (map (mr_req_id \<circ> snd) (cp_responses p)) \<subseteq> set acc \<and>
    (\<forall>(q, r) \<in> set (cp_responses p). mr_req_id r = mq_req_id q) \<and>
    (\<forall>k. count_list pops k \<le> (if k \<in> set acc then 4 else 0))"
  using mysql_pool.workers.answered_at_most_once [OF assms] by simp

theorem mysql_pool_answers_at_most_once_witness:
  "\<exists>p pops. mysql_reach 1 p [100] 1 pops \<and> cp_responses p \<noteq> [] \<and>
    distinct (map (mr_req_id \<circ> snd) (cp_responses p)) \<and> set (map (mr_req_id \<circ> snd) (cp_responses p)) \<subseteq> {100} \<and> count_list pops 100 \<le> 4"
proof -
  obtain p where "mysql_busy_run sample_mysql_start 5 p" "\<forall>i. \<not> runnable WPop WExit p i" using sample_mysql_run by blast
  moreover have x: "\<not> sq_exit (cp_queue sample_mysql_start)"
    by (simp add: sample_mysql_start_def pool_submit_def pool_start_def pool_new_def sq_push_def sq_new_def MaxPendingReq_def Let_def)
  ultimately obtain pops where r: "mysql_reach 1 p [100] 1 pops" and m: "mset (map (mr_req_id \<circ> snd) (cp_responses p)) = mset [100]"
    using mysql_pool.workers.busy_run_reach [OF _ sample_mysql_reach] mysql_pool.workers.completes [OF sample_mysql_reach] by force
  then have "cp_responses p \<noteq> []" by auto
  moreover have "count_list pops 100 \<le> 4" using mysql_pool_answers_at_most_once [OF r] by (auto split: if_splits)
  ultimately show ?thesis using r mysql_pool_answers_at_most_once [OF r] by auto
qed

text \<open>
  C8: A MySQL pool that is not stopped finishes its work: from any reachable state the workers can take at most
  \<open>work\<close> steps before new requests arrive, whatever the database does, and when no worker can go on every
  accepted request has been answered, exactly once.
\<close>
theorem mysql_pool_completes:
  assumes "mysql_reach psz p acc subs pops" and "\<not> sq_exit (cp_queue p)" and "mysql_busy_run p n p'"
  shows "n \<le> mysql_work p \<and>
    ((\<forall>i. \<not> runnable WPop WExit p' i) \<longrightarrow> mset (map (mr_req_id \<circ> snd) (cp_responses p')) = mset acc)"
  using mysql_pool.workers.completes [OF assms] by simp

theorem mysql_pool_completes_witness:
  "\<exists>p. mysql_busy_run sample_mysql_start 5 p \<and> 5 \<le> mysql_work sample_mysql_start \<and>
    mset (map (mr_req_id \<circ> snd) (cp_responses p)) = {#100#}"
proof -
  obtain p where p: "mysql_busy_run sample_mysql_start 5 p" "\<forall>i. \<not> runnable WPop WExit p i" using sample_mysql_run by blast
  have x: "\<not> sq_exit (cp_queue sample_mysql_start)"
    by (simp add: sample_mysql_start_def pool_submit_def pool_start_def pool_new_def sq_push_def sq_new_def MaxPendingReq_def Let_def)
  with mysql_pool_completes [OF sample_mysql_reach x p(1)] p show ?thesis by auto
qed

end
