(* ===== verification/RedisClient.thy ===== *)
theory RedisClient
  imports DbReq DbPool
begin

text \<open>
  The Redis client and its pool, \<^verbatim>\<open>src/wjp/redis_client.hpp\<close>.  The hiredis library is not part of the
  repository: what its calls return is an argument, \<open>connect_env\<close> for one connection attempt and
  \<open>command_env\<close> for one command with the reconnection it may need.  A result lists how often the
  command was sent.  A \<^verbatim>\<open>double\<close> is its bit pattern; \<open>strtod\<close>, \<open>of_integer\<close> and \<open>fmt\<close> are the conversions of
  the C library from text, from an integer and to text.
\<close>

datatype redisReply =
    RString "bytes option" | RArray "redisReply list" | RInteger int | RNil | RStatus "bytes option"
  | RError "bytes option" | ROther int

record redis_client =
  rd_context :: bool
  rd_connState :: bool
  rd_auth_str :: bytes

record connect_env =
  ce_context :: bool
  ce_err :: int
  ce_settimeout :: "int \<times> int"
  ce_auth :: "redisReply option \<times> int"

record command_env =
  xe_connect :: connect_env
  xe_reply :: "redisReply option \<times> int"
  xe_reconnect :: connect_env
  xe_retry :: "redisReply option \<times> int"

definition REDIS_ERR :: int where "REDIS_ERR = -1"
definition REDIS_ERR_OOM :: int where "REDIS_ERR_OOM = 5"
definition REDIS_REPLY_ERROR :: int where "REDIS_REPLY_ERROR = 6"
definition ExecSuccess :: int where "ExecSuccess = 0"
definition ExecKeyNotExist :: int where "ExecKeyNotExist = 10001"
definition ExecUnexpectedType :: int where "ExecUnexpectedType = 10002"

definition redis_client_new :: redis_client where
  "redis_client_new = \<lparr>rd_context = False, rd_connState = False, rd_auth_str = []\<rparr>"

definition redis_close :: "redis_client \<Rightarrow> redis_client" where
  "redis_close c = c\<lparr>rd_context := False, rd_connState := False\<rparr>"

fun is_error_reply :: "redisReply \<Rightarrow> bool" where
  "is_error_reply (RError _) = True"
| "is_error_reply _ = False"

text \<open>The result is the return code, the value written through \<^verbatim>\<open>err\<close> and the client.\<close>

definition redis_connect :: "connect_env \<Rightarrow> redis_client \<Rightarrow> int \<times> int \<times> redis_client" where
  "redis_connect e c0 =
    (let c = redis_close c0 in
     if \<not> ce_context e then (-1, REDIS_ERR_OOM, c)
     else if ce_err e \<noteq> 0 then (-2, ce_err e, c)
     else if fst (ce_settimeout e) = REDIS_ERR then (-3, snd (ce_settimeout e), c)
     else if rd_auth_str c = [] then (0, 0, c\<lparr>rd_context := True, rd_connState := True\<rparr>)
     else (case ce_auth e of (reply, ctx_err) \<Rightarrow>
       if reply = None \<or> is_error_reply (the reply) \<or> ctx_err \<noteq> 0
       then (-4, if ctx_err \<noteq> 0 then ctx_err else REDIS_REPLY_ERROR, c)
       else (0, 0, c\<lparr>rd_context := True, rd_connState := True\<rparr>)))"

definition redis_open :: "bytes \<Rightarrow> connect_env \<Rightarrow> redis_client \<Rightarrow> int \<times> int \<times> redis_client" where
  "redis_open auth_str e c = redis_connect e (c\<lparr>rd_auth_str := auth_str\<rparr>)"

definition redis_setTimeout :: "int \<Rightarrow> redis_client \<Rightarrow> int" where
  "redis_setTimeout lib_rc c = (if \<not> rd_context c then -1 else lib_rc)"

section \<open>One command\<close>

text \<open>What follows the (second) reply.\<close>

definition command_finish ::
  "redisReply option \<Rightarrow> int \<Rightarrow> nat \<Rightarrow> redis_client \<Rightarrow> redisReply option \<times> int \<times> redis_client \<times> nat" where
  "command_finish reply ctx_err sent c =
    (if reply = None \<or> ctx_err \<noteq> 0 then
       (None, if ctx_err \<noteq> 0 then ctx_err else REDIS_REPLY_ERROR, redis_close c, sent)
     else if is_error_reply (the reply) then (None, REDIS_REPLY_ERROR, c, sent)
     else (reply, 0, c\<lparr>rd_connState := True\<rparr>, sent))"

definition command_send :: "command_env \<Rightarrow> redis_client \<Rightarrow> redisReply option \<times> int \<times> redis_client \<times> nat" where
  "command_send e c =
    (case xe_reply e of
       (Some reply, ctx_err) \<Rightarrow> command_finish (Some reply) ctx_err 1 c
     | (None, _) \<Rightarrow>
         (case redis_connect (xe_reconnect e) c of (rc, err, c1) \<Rightarrow>
            if rc \<noteq> 0 then (None, err, c1, 1)
            else command_finish (fst (xe_retry e)) (snd (xe_retry e)) 2 c1))"

text \<open>The last component counts how often the arguments were sent.  \<open>srv args\<close> is what the library and the
  server answer to these arguments.\<close>

type_synonym redis_world = "bytes list \<Rightarrow> command_env"

definition execCommand :: "redis_world \<Rightarrow> bytes list \<Rightarrow> redis_client \<Rightarrow> redisReply option \<times> int \<times> redis_client \<times> nat" where
  "execCommand srv args c =
    (if \<not> rd_context c then
       (case redis_connect (xe_connect (srv args)) c of (rc, err, c1) \<Rightarrow>
          if rc \<noteq> 0 then (None, err, c1, 0) else command_send (srv args) c1)
     else command_send (srv args) c)"

definition getReplyStr :: "bytes option \<Rightarrow> bytes" where
  "getReplyStr s = (case s of Some b \<Rightarrow> b | None \<Rightarrow> [])"

text \<open>Each of the following gives the result, the value written through \<^verbatim>\<open>ec\<close> and the client.\<close>

definition exec_stat :: "redis_world \<Rightarrow> bytes list \<Rightarrow> redis_client \<Rightarrow> bool \<times> int \<times> redis_client" where
  "exec_stat srv args c =
    (case execCommand srv args c of
       (Some (RStatus s), _, c', _) \<Rightarrow> (case s of Some b \<Rightarrow> take 2 b = lit ''OK'' | None \<Rightarrow> False, ExecSuccess, c')
     | (Some RNil, _, c', _) \<Rightarrow> (False, ExecKeyNotExist, c')
     | (Some _, _, c', _) \<Rightarrow> (False, ExecUnexpectedType, c')
     | (None, err, c', _) \<Rightarrow> (False, err, c'))"

text \<open>The integer of the reply is stored in an \<^verbatim>\<open>int\<close>.\<close>

definition exec_int :: "redis_world \<Rightarrow> bytes list \<Rightarrow> redis_client \<Rightarrow> int \<times> int \<times> redis_client" where
  "exec_int srv args c =
    (case execCommand srv args c of
       (Some (RInteger i), _, c', _) \<Rightarrow> (sint (word_of_int i :: u32), ExecSuccess, c')
     | (Some RNil, _, c', _) \<Rightarrow> (0, ExecKeyNotExist, c')
     | (Some _, _, c', _) \<Rightarrow> (0, ExecUnexpectedType, c')
     | (None, err, c', _) \<Rightarrow> (0, err, c'))"

definition exec_str :: "redis_world \<Rightarrow> bytes list \<Rightarrow> redis_client \<Rightarrow> bytes \<times> int \<times> redis_client" where
  "exec_str srv args c =
    (case execCommand srv args c of
       (Some (RString s), _, c', _) \<Rightarrow> (getReplyStr s, ExecSuccess, c')
     | (Some RNil, _, c', _) \<Rightarrow> ([], ExecKeyNotExist, c')
     | (Some _, _, c', _) \<Rightarrow> ([], ExecUnexpectedType, c')
     | (None, err, c', _) \<Rightarrow> ([], err, c'))"

fun sa_element :: "redisReply \<Rightarrow> bytes list" where
  "sa_element (RString s) = [getReplyStr s]"
| "sa_element (RInteger i) = [to_string_int i]"
| "sa_element _ = []"

definition exec_sa :: "redis_world \<Rightarrow> bytes list \<Rightarrow> redis_client \<Rightarrow> DataRow \<times> int \<times> redis_client" where
  "exec_sa srv args c =
    (case execCommand srv args c of
       (Some (RArray rs), _, c', _) \<Rightarrow> (concat (map sa_element rs), ExecSuccess, c')
     | (Some RNil, _, c', _) \<Rightarrow> ([], ExecKeyNotExist, c')
     | (Some _, _, c', _) \<Rightarrow> ([], ExecUnexpectedType, c')
     | (None, err, c', _) \<Rightarrow> ([], err, c'))"

text \<open>The text of an element of a map or of a score array; other types leave the variables as they are.\<close>

fun element_text :: "redisReply \<Rightarrow> bytes option" where
  "element_text (RString s) = Some (getReplyStr s)"
| "element_text (RInteger i) = Some (to_string_int i)"
| "element_text RNil = Some []"
| "element_text _ = None"

fun sm_loop :: "redisReply list \<Rightarrow> nat \<Rightarrow> bytes \<Rightarrow> StringMap \<Rightarrow> StringMap" where
  "sm_loop [] i key result = result"
| "sm_loop (r # rs) i key result =
    (case element_text r of
       None \<Rightarrow> sm_loop rs (Suc i) key result
     | Some t \<Rightarrow> if i mod 2 = 0 then sm_loop rs (Suc i) t result else sm_loop rs (Suc i) key (sm_put key t result))"

definition exec_sm :: "redis_world \<Rightarrow> bytes list \<Rightarrow> redis_client \<Rightarrow> StringMap \<times> int \<times> redis_client" where
  "exec_sm srv args c =
    (case execCommand srv args c of
       (Some (RArray rs), _, c', _) \<Rightarrow> (sm_loop rs 0 [] [], ExecSuccess, c')
     | (Some RNil, _, c', _) \<Rightarrow> ([], ExecKeyNotExist, c')
     | (Some _, _, c', _) \<Rightarrow> ([], ExecUnexpectedType, c')
     | (None, err, c', _) \<Rightarrow> ([], err, c'))"

record float_ops =
  strtod :: "bytes \<Rightarrow> u64"
  of_integer :: "int \<Rightarrow> u64"
  fmt :: "u64 \<Rightarrow> bytes"

fun sca_loop :: "float_ops \<Rightarrow> redisReply list \<Rightarrow> nat \<Rightarrow> bytes \<Rightarrow> ScoreArray \<Rightarrow> ScoreArray" where
  "sca_loop fo [] i str result = result"
| "sca_loop fo (r # rs) i str result =
    (if i mod 2 = 0 then sca_loop fo rs (Suc i) (case element_text r of Some t \<Rightarrow> t | None \<Rightarrow> str) result
     else sca_loop fo rs (Suc i) str (result @
       (case r of
          RString s \<Rightarrow> [(strtod fo (getReplyStr s), str)]
        | RInteger n \<Rightarrow> [(of_integer fo n, str)]
        | RNil \<Rightarrow> if str \<noteq> [] then [(0, str)] else []
        | _ \<Rightarrow> [])))"

definition exec_sca :: "float_ops \<Rightarrow> redis_world \<Rightarrow> bytes list \<Rightarrow> redis_client \<Rightarrow> ScoreArray \<times> int \<times> redis_client" where
  "exec_sca fo srv args c =
    (case execCommand srv (args @ [lit ''WITHSCORES'']) c of
       (Some (RArray rs), _, c', _) \<Rightarrow> (sca_loop fo rs 0 [] [], ExecSuccess, c')
     | (Some RNil, _, c', _) \<Rightarrow> ([], ExecKeyNotExist, c')
     | (Some _, _, c', _) \<Rightarrow> ([], ExecUnexpectedType, c')
     | (None, err, c', _) \<Rightarrow> ([], err, c'))"

section \<open>The commands\<close>

text \<open>Each wrapper builds the arguments of its command; those that return \<^verbatim>\<open>bool\<close> compare the integer with 1.\<close>

definition redis_DEL :: "redis_world \<Rightarrow> bytes \<Rightarrow> redis_client \<Rightarrow> int \<times> int \<times> redis_client" where
  "redis_DEL srv key c = exec_int srv [lit ''DEL'', key] c"

definition redis_EXISTS :: "redis_world \<Rightarrow> bytes \<Rightarrow> redis_client \<Rightarrow> bool \<times> int \<times> redis_client" where
  "redis_EXISTS srv key c = (case exec_int srv [lit ''EXISTS'', key] c of (n, ec, c') \<Rightarrow> (n = 1, ec, c'))"

definition redis_EXPIRE :: "redis_world \<Rightarrow> bytes \<Rightarrow> int \<Rightarrow> redis_client \<Rightarrow> bool \<times> int \<times> redis_client" where
  "redis_EXPIRE srv key seconds c = (case exec_int srv [lit ''EXPIRE'', key, to_string_int seconds] c of (n, ec, c') \<Rightarrow> (n = 1, ec, c'))"

definition redis_PERSIST :: "redis_world \<Rightarrow> bytes \<Rightarrow> redis_client \<Rightarrow> bool \<times> int \<times> redis_client" where
  "redis_PERSIST srv key c = (case exec_int srv [lit ''PERSIST'', key] c of (n, ec, c') \<Rightarrow> (n = 1, ec, c'))"

definition redis_TTL :: "redis_world \<Rightarrow> bytes \<Rightarrow> redis_client \<Rightarrow> int \<times> int \<times> redis_client" where
  "redis_TTL srv key c = exec_int srv [lit ''TTL'', key] c"

definition redis_SET :: "redis_world \<Rightarrow> bytes \<Rightarrow> bytes \<Rightarrow> redis_client \<Rightarrow> bool \<times> int \<times> redis_client" where
  "redis_SET srv key v c = exec_stat srv [lit ''SET'', key, v] c"

definition redis_SETNX :: "redis_world \<Rightarrow> bytes \<Rightarrow> bytes \<Rightarrow> redis_client \<Rightarrow> int \<times> int \<times> redis_client" where
  "redis_SETNX srv key v c = exec_int srv [lit ''SETNX'', key, v] c"

definition redis_GET :: "redis_world \<Rightarrow> bytes \<Rightarrow> redis_client \<Rightarrow> bytes \<times> int \<times> redis_client" where
  "redis_GET srv key c = exec_str srv [lit ''GET'', key] c"

definition redis_MSET :: "redis_world \<Rightarrow> StringMap \<Rightarrow> redis_client \<Rightarrow> bool \<times> int \<times> redis_client" where
  "redis_MSET srv kvs c = exec_stat srv ([lit ''MSET''] @ concat (map (\<lambda>(k, v). [k, v]) kvs)) c"

definition redis_MGET :: "redis_world \<Rightarrow> bytes list \<Rightarrow> redis_client \<Rightarrow> DataRow \<times> int \<times> redis_client" where
  "redis_MGET srv keys c = exec_sa srv ([lit ''MGET''] @ keys) c"

definition redis_HDEL :: "redis_world \<Rightarrow> bytes \<Rightarrow> bytes \<Rightarrow> redis_client \<Rightarrow> int \<times> int \<times> redis_client" where
  "redis_HDEL srv key field c = exec_int srv [lit ''HDEL'', key, field] c"

definition redis_HDEL_all :: "redis_world \<Rightarrow> bytes \<Rightarrow> bytes list \<Rightarrow> redis_client \<Rightarrow> int \<times> int \<times> redis_client" where
  "redis_HDEL_all srv key flds c = exec_int srv ([lit ''HDEL'', key] @ flds) c"

definition redis_HEXISTS :: "redis_world \<Rightarrow> bytes \<Rightarrow> bytes \<Rightarrow> redis_client \<Rightarrow> bool \<times> int \<times> redis_client" where
  "redis_HEXISTS srv key field c = (case exec_int srv [lit ''HEXISTS'', key, field] c of (n, ec, c') \<Rightarrow> (n = 1, ec, c'))"

definition redis_HLEN :: "redis_world \<Rightarrow> bytes \<Rightarrow> redis_client \<Rightarrow> int \<times> int \<times> redis_client" where
  "redis_HLEN srv key c = exec_int srv [lit ''HLEN'', key] c"

definition redis_HSET :: "redis_world \<Rightarrow> bytes \<Rightarrow> bytes \<Rightarrow> bytes \<Rightarrow> redis_client \<Rightarrow> int \<times> int \<times> redis_client" where
  "redis_HSET srv key field v c = exec_int srv [lit ''HSET'', key, field, v] c"

definition redis_HGET :: "redis_world \<Rightarrow> bytes \<Rightarrow> bytes \<Rightarrow> redis_client \<Rightarrow> bytes \<times> int \<times> redis_client" where
  "redis_HGET srv key field c = exec_str srv [lit ''HGET'', key, field] c"

definition redis_HMSET :: "redis_world \<Rightarrow> bytes \<Rightarrow> StringMap \<Rightarrow> redis_client \<Rightarrow> bool \<times> int \<times> redis_client" where
  "redis_HMSET srv key kvs c = exec_stat srv ([lit ''HMSET'', key] @ concat (map (\<lambda>(k, v). [k, v]) kvs)) c"

definition redis_HMGET :: "redis_world \<Rightarrow> bytes \<Rightarrow> bytes list \<Rightarrow> redis_client \<Rightarrow> DataRow \<times> int \<times> redis_client" where
  "redis_HMGET srv key flds c = exec_sa srv ([lit ''HMGET'', key] @ flds) c"

definition redis_HGETALL :: "redis_world \<Rightarrow> bytes \<Rightarrow> redis_client \<Rightarrow> StringMap \<times> int \<times> redis_client" where
  "redis_HGETALL srv key c = exec_sm srv [lit ''HGETALL'', key] c"

definition redis_LINDEX :: "redis_world \<Rightarrow> bytes \<Rightarrow> int \<Rightarrow> redis_client \<Rightarrow> bytes \<times> int \<times> redis_client" where
  "redis_LINDEX srv key index c = exec_str srv [lit ''LINDEX'', key, to_string_int index] c"

definition redis_LLEN :: "redis_world \<Rightarrow> bytes \<Rightarrow> redis_client \<Rightarrow> int \<times> int \<times> redis_client" where
  "redis_LLEN srv key c = exec_int srv [lit ''LLEN'', key] c"

definition redis_LRANGE :: "redis_world \<Rightarrow> bytes \<Rightarrow> int \<Rightarrow> int \<Rightarrow> redis_client \<Rightarrow> DataRow \<times> int \<times> redis_client" where
  "redis_LRANGE srv key start stop c = exec_sa srv [lit ''LRANGE'', key, to_string_int start, to_string_int stop] c"

definition redis_LTRIM :: "redis_world \<Rightarrow> bytes \<Rightarrow> int \<Rightarrow> int \<Rightarrow> redis_client \<Rightarrow> bool \<times> int \<times> redis_client" where
  "redis_LTRIM srv key start stop c = exec_stat srv [lit ''LTRIM'', key, to_string_int start, to_string_int stop] c"

definition redis_LPOP :: "redis_world \<Rightarrow> bytes \<Rightarrow> redis_client \<Rightarrow> bytes \<times> int \<times> redis_client" where
  "redis_LPOP srv key c = exec_str srv [lit ''LPOP'', key] c"

definition redis_LPUSH :: "redis_world \<Rightarrow> bytes \<Rightarrow> bytes \<Rightarrow> redis_client \<Rightarrow> int \<times> int \<times> redis_client" where
  "redis_LPUSH srv key v c = exec_int srv [lit ''LPUSH'', key, v] c"

definition redis_LPUSH_all :: "redis_world \<Rightarrow> bytes \<Rightarrow> bytes list \<Rightarrow> redis_client \<Rightarrow> int \<times> int \<times> redis_client" where
  "redis_LPUSH_all srv key vals c = exec_int srv ([lit ''LPUSH'', key] @ vals) c"

definition redis_RPOP :: "redis_world \<Rightarrow> bytes \<Rightarrow> redis_client \<Rightarrow> bytes \<times> int \<times> redis_client" where
  "redis_RPOP srv key c = exec_str srv [lit ''RPOP'', key] c"

definition redis_RPUSH :: "redis_world \<Rightarrow> bytes \<Rightarrow> bytes \<Rightarrow> redis_client \<Rightarrow> int \<times> int \<times> redis_client" where
  "redis_RPUSH srv key v c = exec_int srv [lit ''RPUSH'', key, v] c"

definition redis_RPUSH_all :: "redis_world \<Rightarrow> bytes \<Rightarrow> bytes list \<Rightarrow> redis_client \<Rightarrow> int \<times> int \<times> redis_client" where
  "redis_RPUSH_all srv key vals c = exec_int srv ([lit ''RPUSH'', key] @ vals) c"

definition redis_SADD :: "redis_world \<Rightarrow> bytes \<Rightarrow> bytes \<Rightarrow> redis_client \<Rightarrow> int \<times> int \<times> redis_client" where
  "redis_SADD srv key v c = exec_int srv [lit ''SADD'', key, v] c"

definition redis_SADD_all :: "redis_world \<Rightarrow> bytes \<Rightarrow> bytes list \<Rightarrow> redis_client \<Rightarrow> int \<times> int \<times> redis_client" where
  "redis_SADD_all srv key vals c = exec_int srv ([lit ''SADD'', key] @ vals) c"

definition redis_SCARD :: "redis_world \<Rightarrow> bytes \<Rightarrow> redis_client \<Rightarrow> int \<times> int \<times> redis_client" where
  "redis_SCARD srv key c = exec_int srv [lit ''SCARD'', key] c"

definition redis_SISMEMBER :: "redis_world \<Rightarrow> bytes \<Rightarrow> bytes \<Rightarrow> redis_client \<Rightarrow> bool \<times> int \<times> redis_client" where
  "redis_SISMEMBER srv key member c = (case exec_int srv [lit ''SISMEMBER'', key, member] c of (n, ec, c') \<Rightarrow> (n = 1, ec, c'))"

text \<open>The members of a \<^verbatim>\<open>std::set\<close>, in order and without repetitions.\<close>

definition redis_SMEMBERS :: "redis_world \<Rightarrow> bytes \<Rightarrow> redis_client \<Rightarrow> bytes list \<times> int \<times> redis_client" where
  "redis_SMEMBERS srv key c = (case exec_sa srv [lit ''SMEMBERS'', key] c of (temp, ec, c') \<Rightarrow> (sort (remdups temp), ec, c'))"

definition redis_SPOP :: "redis_world \<Rightarrow> bytes \<Rightarrow> redis_client \<Rightarrow> bytes \<times> int \<times> redis_client" where
  "redis_SPOP srv key c = exec_str srv [lit ''SPOP'', key] c"

definition redis_SREM :: "redis_world \<Rightarrow> bytes \<Rightarrow> bytes \<Rightarrow> redis_client \<Rightarrow> int \<times> int \<times> redis_client" where
  "redis_SREM srv key v c = exec_int srv [lit ''SREM'', key, v] c"

definition redis_SREM_all :: "redis_world \<Rightarrow> bytes \<Rightarrow> bytes list \<Rightarrow> redis_client \<Rightarrow> int \<times> int \<times> redis_client" where
  "redis_SREM_all srv key vals c = exec_int srv ([lit ''SREM'', key] @ vals) c"

definition redis_ZADD :: "float_ops \<Rightarrow> redis_world \<Rightarrow> bytes \<Rightarrow> u64 \<Rightarrow> bytes \<Rightarrow> redis_client \<Rightarrow> int \<times> int \<times> redis_client" where
  "redis_ZADD fo srv key score member c = exec_int srv [lit ''ZADD'', key, fmt fo score, member] c"

definition redis_ZADD_all :: "float_ops \<Rightarrow> redis_world \<Rightarrow> bytes \<Rightarrow> ScoreArray \<Rightarrow> redis_client \<Rightarrow> int \<times> int \<times> redis_client" where
  "redis_ZADD_all fo srv key members c = exec_int srv ([lit ''ZADD'', key] @ concat (map (\<lambda>(s, m). [fmt fo s, m]) members)) c"

definition redis_ZCARD :: "redis_world \<Rightarrow> bytes \<Rightarrow> redis_client \<Rightarrow> int \<times> int \<times> redis_client" where
  "redis_ZCARD srv key c = exec_int srv [lit ''ZCARD'', key] c"

definition redis_ZCOUNT :: "float_ops \<Rightarrow> redis_world \<Rightarrow> bytes \<Rightarrow> u64 \<Rightarrow> u64 \<Rightarrow> redis_client \<Rightarrow> int \<times> int \<times> redis_client" where
  "redis_ZCOUNT fo srv key lo hi c = exec_int srv [lit ''ZCOUNT'', key, fmt fo lo, fmt fo hi] c"

definition redis_ZRANGE :: "float_ops \<Rightarrow> redis_world \<Rightarrow> bytes \<Rightarrow> int \<Rightarrow> int \<Rightarrow> redis_client \<Rightarrow> ScoreArray \<times> int \<times> redis_client" where
  "redis_ZRANGE fo srv key start stop c = exec_sca fo srv [lit ''ZRANGE'', key, to_string_int start, to_string_int stop] c"

definition redis_ZRANGEBYSCORE :: "float_ops \<Rightarrow> redis_world \<Rightarrow> bytes \<Rightarrow> u64 \<Rightarrow> u64 \<Rightarrow> redis_client \<Rightarrow> ScoreArray \<times> int \<times> redis_client" where
  "redis_ZRANGEBYSCORE fo srv key lo hi c = exec_sca fo srv [lit ''ZRANGEBYSCORE'', key, fmt fo lo, fmt fo hi] c"

definition redis_ZREM :: "redis_world \<Rightarrow> bytes \<Rightarrow> bytes \<Rightarrow> redis_client \<Rightarrow> int \<times> int \<times> redis_client" where
  "redis_ZREM srv key v c = exec_int srv [lit ''ZREM'', key, v] c"

definition redis_ZREM_all :: "redis_world \<Rightarrow> bytes \<Rightarrow> bytes list \<Rightarrow> redis_client \<Rightarrow> int \<times> int \<times> redis_client" where
  "redis_ZREM_all srv key vals c = exec_int srv ([lit ''ZREM'', key] @ vals) c"

definition redis_ZREMRANGEBYSCORE :: "float_ops \<Rightarrow> redis_world \<Rightarrow> bytes \<Rightarrow> u64 \<Rightarrow> u64 \<Rightarrow> redis_client \<Rightarrow> int \<times> int \<times> redis_client" where
  "redis_ZREMRANGEBYSCORE fo srv key lo hi c = exec_int srv [lit ''ZREMRANGEBYSCORE'', key, fmt fo lo, fmt fo hi] c"

definition redis_ZREVRANGE :: "float_ops \<Rightarrow> redis_world \<Rightarrow> bytes \<Rightarrow> int \<Rightarrow> int \<Rightarrow> redis_client \<Rightarrow> ScoreArray \<times> int \<times> redis_client" where
  "redis_ZREVRANGE fo srv key start stop c = exec_sca fo srv [lit ''ZREVRANGE'', key, to_string_int start, to_string_int stop] c"

definition redis_ZREVRANGEBYSCORE :: "float_ops \<Rightarrow> redis_world \<Rightarrow> bytes \<Rightarrow> u64 \<Rightarrow> u64 \<Rightarrow> redis_client \<Rightarrow> ScoreArray \<times> int \<times> redis_client" where
  "redis_ZREVRANGEBYSCORE fo srv key hi lo c = exec_sca fo srv [lit ''ZREVRANGEBYSCORE'', key, fmt fo hi, fmt fo lo] c"

text \<open>\<open>None\<close> is the quiet NaN that a failed command returns.\<close>

definition redis_ZSCORE :: "float_ops \<Rightarrow> redis_world \<Rightarrow> bytes \<Rightarrow> bytes \<Rightarrow> redis_client \<Rightarrow> u64 option \<times> int \<times> redis_client" where
  "redis_ZSCORE fo srv key member c =
    (case exec_str srv [lit ''ZSCORE'', key, member] c of (str, ec, c') \<Rightarrow>
       (if ec \<noteq> 0 then None else Some (strtod fo str), ec, c'))"

section \<open>The pool\<close>

definition redis_RESP_RC_TYPE_INVALID :: int where "redis_RESP_RC_TYPE_INVALID = 1002"
definition redis_RESP_RC_NO_AVAIL_CLT :: int where "redis_RESP_RC_NO_AVAIL_CLT = 1003"

definition rc_of :: "int \<Rightarrow> u32" where
  "rc_of ec = (if ec \<noteq> 0 then -1 else 0)"

definition redis_handleRequest ::
  "float_ops \<Rightarrow> redis_world \<Rightarrow> redis_client_req \<Rightarrow> redis_client \<Rightarrow> redis_client_resp \<times> redis_client" where
  "redis_handleRequest fo srv q c =
    (let resp = redis_client_resp_new\<lparr>rr_req_id := rdq_req_id q, rr_type := rdq_type q\<rparr> in
     if rdq_type q = execCommandStat then
       (case exec_stat srv (rdq_argv q) c of (v, ec, c') \<Rightarrow> (resp\<lparr>rr_resStat := v, rr_rc := rc_of ec\<rparr>, c'))
     else if rdq_type q = execCommandInt then
       (case exec_int srv (rdq_argv q) c of (v, ec, c') \<Rightarrow> (resp\<lparr>rr_resInt := word_of_int v, rr_rc := rc_of ec\<rparr>, c'))
     else if rdq_type q = execCommandStr then
       (case exec_str srv (rdq_argv q) c of (v, ec, c') \<Rightarrow> (resp\<lparr>rr_resStr := v, rr_rc := rc_of ec\<rparr>, c'))
     else if rdq_type q = execCommandSA then
       (case exec_sa srv (rdq_argv q) c of (v, ec, c') \<Rightarrow> (resp\<lparr>rr_resSA := v, rr_rc := rc_of ec\<rparr>, c'))
     else if rdq_type q = execCommandSM then
       (case exec_sm srv (rdq_argv q) c of (v, ec, c') \<Rightarrow> (resp\<lparr>rr_resSM := v, rr_rc := rc_of ec\<rparr>, c'))
     else if rdq_type q = execCommandSCA then
       (case exec_sca fo srv (rdq_argv q) c of (v, ec, c') \<Rightarrow> (resp\<lparr>rr_resSCA := v, rr_rc := rc_of ec\<rparr>, c'))
     else (resp\<lparr>rr_rc := word_of_int redis_RESP_RC_TYPE_INVALID\<rparr>, c))"

definition redis_retryFailure :: "redis_client_req \<Rightarrow> redis_client_resp" where
  "redis_retryFailure q =
    redis_client_resp_new\<lparr>rr_req_id := rdq_req_id q, rr_type := rdq_type q, rr_rc := word_of_int redis_RESP_RC_NO_AVAIL_CLT\<rparr>"

record redis_pool_env =
  rp_world :: redis_world
  rp_connect :: connect_env

definition redis_pool_ops ::
  "float_ops \<Rightarrow> bytes \<Rightarrow> (redis_client_req, redis_client_resp, redis_client, redis_pool_env) pool_ops" where
  "redis_pool_ops fo auth_str =
    \<lparr>q_id = rdq_req_id, q_set_id = (\<lambda>i q. q\<lparr>rdq_req_id := i\<rparr>), q_retry = rdq_retry_times, q_set_retry = (\<lambda>n q. q\<lparr>rdq_retry_times := n\<rparr>),
     r_id = rr_req_id, c_new = redis_client_new,
     c_open = (\<lambda>e c. case redis_open auth_str (rp_connect e) c of (rc, _, c') \<Rightarrow> (rc, c')),
     c_connState = rd_connState, c_handle = (\<lambda>e q c. redis_handleRequest fo (rp_world e) q c), q_failure = redis_retryFailure\<rparr>"

type_synonym redis_client_pool = "(redis_client_req, redis_client_resp, redis_client, redis_client_req worker_pc) client_pool"

text \<open>The methods of \<^verbatim>\<open>redis_client_pool\<close>: those of the generic pool on the Redis client.\<close>

definition redis_pool_start :: "int \<Rightarrow> redis_client_pool \<Rightarrow> int \<times> redis_client_pool" where
  [simp]: "redis_pool_start = pool_start"

definition redis_pool_submit :: "float_ops \<Rightarrow> bytes \<Rightarrow> redis_client_req \<Rightarrow> redis_client_pool \<Rightarrow> u64 \<times> redis_client_pool" where
  [simp]: "redis_pool_submit fo auth_str = pool_submit (redis_pool_ops fo auth_str)"

definition redis_getIdleClient :: "float_ops \<Rightarrow> bytes \<Rightarrow> redis_pool_env \<Rightarrow> redis_client_pool \<Rightarrow> nat option \<times> redis_client_pool" where
  "redis_getIdleClient fo auth_str e p =
    (case getIdleClient_take (redis_pool_ops fo auth_str) p of
       (IdleClient clt, p') \<Rightarrow> (Some clt, p')
     | (NewClient clt, p') \<Rightarrow> getIdleClient_open (redis_pool_ops fo auth_str) e clt p'
     | (NoClient, p') \<Rightarrow> (None, p'))"

definition redis_worker :: "float_ops \<Rightarrow> bytes \<Rightarrow> redis_pool_env \<Rightarrow> nat \<Rightarrow> redis_client_pool \<Rightarrow> redis_client_pool" where
  "redis_worker fo auth_str = worker_step (redis_pool_ops fo auth_str)"

definition redis_pool_stop :: "redis_client_pool \<Rightarrow> redis_client_pool" where
  [simp]: "redis_pool_stop = pool_stop"

definition redis_serveUtilStop :: "redis_client_pool \<Rightarrow> redis_client_pool option" where
  "redis_serveUtilStop = pool_serveUtilStop"

abbreviation redis_reach :: "float_ops \<Rightarrow> bytes \<Rightarrow> int \<Rightarrow> redis_client_pool \<Rightarrow> u64 list \<Rightarrow> nat \<Rightarrow> u64 list \<Rightarrow> bool" where
  "redis_reach fo auth_str psz \<equiv>
    pool_reach (redis_pool_ops fo auth_str) (redis_worker fo auth_str) WPop (snd (redis_pool_start psz pool_new))"

interpretation redis_pool: pooled "redis_pool_ops fo auth_str" for fo auth_str
  by unfold_locales
    (auto simp: redis_pool_ops_def redis_handleRequest_def redis_retryFailure_def redis_client_resp_new_def Let_def
      split: prod.splits)

section \<open>Facts\<close>

text \<open>The contract of the library: a call that fails leaves an error number in the context.\<close>

definition errors_reported :: "connect_env \<Rightarrow> bool" where
  "errors_reported e \<longleftrightarrow> (fst (ce_settimeout e) = REDIS_ERR \<longrightarrow> snd (ce_settimeout e) \<noteq> 0)"

definition linked :: "redis_client \<Rightarrow> bool" where
  "linked c \<longleftrightarrow> rd_connState c = rd_context c"

lemma connect_linked: "redis_connect e c = (rc, err, c') \<Longrightarrow> linked c' \<and> rd_context c' = (rc = 0) \<and> (rc = 0 \<longrightarrow> err = 0) \<and> rd_auth_str c' = rd_auth_str c"
  by (auto simp: redis_connect_def redis_close_def linked_def Let_def split: if_splits prod.splits)

lemma connect_error: "redis_connect e c = (rc, err, c') \<Longrightarrow> errors_reported e \<Longrightarrow> rc \<noteq> 0 \<Longrightarrow> err \<noteq> 0"
  by (auto simp: redis_connect_def errors_reported_def REDIS_ERR_OOM_def REDIS_REPLY_ERROR_def Let_def split: if_splits prod.splits)

lemma connect_rc: "rd_auth_str c = rd_auth_str d \<Longrightarrow> fst (redis_connect e c) = fst (redis_connect e d)"
  by (simp add: redis_connect_def redis_close_def Let_def split: prod.splits)

text \<open>
  What the caller gets and what becomes of the connection, by the last answer of the library: a lost reply or an
  error of the connection closes it; an error reply of the server is an error for the caller and leaves the
  connection open; any other reply is returned.
\<close>

definition command_verdict :: "redisReply option \<times> int \<Rightarrow> redisReply option \<Rightarrow> int \<Rightarrow> redis_client \<Rightarrow> bool" where
  "command_verdict ans r err c' \<longleftrightarrow>
    (case ans of
       (Some reply, ctx_err) \<Rightarrow>
         if ctx_err \<noteq> 0 then r = None \<and> err = ctx_err \<and> \<not> rd_context c'
         else if is_error_reply reply then r = None \<and> err = REDIS_REPLY_ERROR \<and> rd_context c'
         else r = Some reply \<and> err = 0 \<and> rd_context c'
     | (None, _) \<Rightarrow> r = None \<and> err \<noteq> 0 \<and> \<not> rd_context c')"

lemma finish_outcome:
  assumes "command_finish reply ctx_err n c = (r, err, c', sent)" and "linked c" and "rd_context c"
  shows "linked c' \<and> sent = n \<and> command_verdict (reply, ctx_err) r err c'"
  using assms
  by (auto simp: command_finish_def command_verdict_def redis_close_def linked_def REDIS_REPLY_ERROR_def split: if_splits option.splits)

lemma send_outcome:
  assumes s: "command_send e c = (r, err, c', sent)" and l: "linked c" "rd_context c" and e: "errors_reported (xe_reconnect e)"
  shows "linked c' \<and> sent = (if fst (xe_reply e) = None \<and> fst (redis_connect (xe_reconnect e) c) = 0 then 2 else 1) \<and>
    command_verdict (if sent = 2 then xe_retry e else xe_reply e) r err c'"
proof (cases "fst (xe_reply e)")
  case None
  obtain rc er c1 where x: "redis_connect (xe_reconnect e) c = (rc, er, c1)" by (cases "redis_connect (xe_reconnect e) c") auto
  show ?thesis
  proof (cases "rc = 0")
    case True
    then have "linked c1" "rd_context c1" using connect_linked [OF x] by auto
    moreover have "command_finish (fst (xe_retry e)) (snd (xe_retry e)) 2 c1 = (r, err, c', sent)"
      using s None x True by (cases "xe_reply e") (simp add: command_send_def)
    ultimately show ?thesis using finish_outcome [of "fst (xe_retry e)" "snd (xe_retry e)" 2 c1 r err c' sent] None x True
      by (cases "xe_reply e") auto
  next
    case False
    with s None x connect_linked [OF x] connect_error [OF x e] show ?thesis
      by (cases "xe_reply e") (auto simp: command_send_def command_verdict_def)
  qed
next
  case (Some reply)
  with s have "command_finish (Some reply) (snd (xe_reply e)) 1 c = (r, err, c', sent)"
    by (cases "xe_reply e") (simp add: command_send_def)
  with finish_outcome [OF this l] Some show ?thesis by (cases "xe_reply e") auto
qed

text \<open>
  C19: The outcome of a Redis command, whatever connection attempts and replies do.  A client that is not
  connected first connects, and when that fails nothing is sent, an error is reported and the client stays
  closed.  Otherwise the command is sent once, or twice exactly when the first reply was lost and the client could
  reconnect, and the last answer decides: a lost reply or an error of the connection is reported and closes
  the connection, an error reply of the server is reported and keeps the connection open, and any other reply is
  returned over an open connection without an error.  The connection flag always agrees with the
  existence of a context.
\<close>
theorem redis_command_outcome:
  assumes "linked c" and "errors_reported (xe_connect (srv args))" and "errors_reported (xe_reconnect (srv args))"
    and "execCommand srv args c = (r, err, c', sent)"
  shows "linked c' \<and> (r = None) = (err \<noteq> 0) \<and>
    (if \<not> rd_context c \<and> fst (redis_connect (xe_connect (srv args)) c) \<noteq> 0
     then sent = 0 \<and> r = None \<and> \<not> rd_context c'
     else sent = (if fst (xe_reply (srv args)) = None \<and> fst (redis_connect (xe_reconnect (srv args)) c) = 0 then 2 else 1) \<and>
       (case (if sent = 2 then xe_retry (srv args) else xe_reply (srv args)) of
          (None, _) \<Rightarrow> r = None \<and> \<not> rd_context c'
        | (Some reply, ctx_err) \<Rightarrow>
            if ctx_err \<noteq> 0 then r = None \<and> err = ctx_err \<and> \<not> rd_context c'
            else if is_error_reply reply then r = None \<and> err = REDIS_REPLY_ERROR \<and> rd_context c'
            else r = Some reply \<and> rd_context c'))"
proof (cases "rd_context c")
  case True
  with assms have "command_send (srv args) c = (r, err, c', sent)" by (simp add: execCommand_def)
  from send_outcome [OF this] assms True show ?thesis
    by (auto simp: command_verdict_def REDIS_REPLY_ERROR_def split: if_splits option.splits prod.splits)
next
  case False
  obtain rc er c1 where x: "redis_connect (xe_connect (srv args)) c = (rc, er, c1)"
    by (cases "redis_connect (xe_connect (srv args)) c") auto
  show ?thesis
  proof (cases "rc = 0")
    case True
    have "rd_context c1" "linked c1" and a: "rd_auth_str c1 = rd_auth_str c" using connect_linked [OF x] True by auto
    moreover have "command_send (srv args) c1 = (r, err, c', sent)" using assms False x True by (simp add: execCommand_def)
    moreover have "fst (redis_connect (xe_reconnect (srv args)) c1) = fst (redis_connect (xe_reconnect (srv args)) c)"
      using connect_rc [of c1 c] a by simp
    ultimately show ?thesis using send_outcome [of "srv args" c1 r err c' sent] assms x True
      by (auto simp: command_verdict_def REDIS_REPLY_ERROR_def split: if_splits option.splits prod.splits)
  next
    case False
    with assms \<open>\<not> rd_context c\<close> x connect_linked [OF x] connect_error [OF x] show ?thesis
      by (auto simp: execCommand_def)
  qed
qed

definition sample_connect :: connect_env where
  "sample_connect = \<lparr>ce_context = True, ce_err = 0, ce_settimeout = (0, 0), ce_auth = (None, 0)\<rparr>"

theorem redis_command_outcome_witness:
  "\<exists>srv r err c' sent. execCommand srv [lit ''INCR'', lit ''k''] redis_client_new = (r, err, c', sent) \<and>
    sent = 2 \<and> r = None \<and> err = REDIS_REPLY_ERROR \<and> rd_connState c'"
proof -
  let ?srv = "\<lambda>_. \<lparr>xe_connect = sample_connect, xe_reply = (None, 3), xe_reconnect = sample_connect,
    xe_retry = (Some (RError (Some (lit ''ERR''))), 0)\<rparr>"
  let ?a = "[lit ''INCR'', lit ''k'']"
  obtain r err c' sent where x: "execCommand ?srv ?a redis_client_new = (r, err, c', sent)"
    by (cases "execCommand ?srv ?a redis_client_new") auto
  have "linked redis_client_new" "errors_reported sample_connect" "fst (redis_connect sample_connect redis_client_new) = 0"
    by (auto simp: linked_def redis_client_new_def errors_reported_def sample_connect_def REDIS_ERR_def redis_connect_def
        redis_close_def)
  with redis_command_outcome [OF _ _ _ x] have "sent = 2" "r = None" "err = REDIS_REPLY_ERROR" "rd_connState c'"
    by (auto simp: linked_def)
  with x show ?thesis by metis
qed

section \<open>Decoding replies\<close>

lemma sm_loop_pairs:
  "even i \<Longrightarrow> sm_loop (concat (map (\<lambda>(k, v). [RString (Some k), RString (Some v)]) kvs)) i key result =
    foldl (\<lambda>m (k, v). sm_put k v m) result kvs"
  by (induction kvs arbitrary: i key result) (auto simp: getReplyStr_def even_iff_mod_2_eq_zero [symmetric] split: prod.splits)

lemma sca_loop_pairs:
  "even i \<Longrightarrow> sca_loop fo (concat (map (\<lambda>(m, t). [RString (Some m), RString (Some t)]) ms)) i str result =
    result @ map (\<lambda>(m, t). (strtod fo t, m)) ms"
  by (induction ms arbitrary: i str result) (auto simp: getReplyStr_def even_iff_mod_2_eq_zero [symmetric] split: prod.splits)

lemma sm_put_sorted: "sorted_wrt (<) (map fst m) \<Longrightarrow> sorted_wrt (<) (map fst (sm_put k v m)) \<and> set (map fst (sm_put k v m)) = insert k (set (map fst m))"
  by (induction k v m rule: sm_put.induct) force+

lemma sm_put_lookup: "sorted_wrt (<) (map fst m) \<Longrightarrow> map_of (sm_put k v m) = (map_of m)(k \<mapsto> v)"
proof (induction k v m rule: sm_put.induct)
  case (2 k v k' v' m)
  then show ?case by (auto simp: fun_eq_iff)
qed simp

lemma sm_fold:
  "sorted_wrt (<) (map fst m) \<Longrightarrow>
    sorted_wrt (<) (map fst (foldl (\<lambda>m (k, v). sm_put k v m) m kvs)) \<and>
    map_of (foldl (\<lambda>m (k, v). sm_put k v m) m kvs) = map_of m ++ map_of (rev kvs)"
proof (induction kvs arbitrary: m)
  case (Cons kv kvs)
  then show ?case by (cases kv) (auto simp: sm_put_sorted sm_put_lookup fun_eq_iff map_add_def split: option.splits)
qed simp

text \<open>A connected client whose command is answered at once.\<close>

definition replies :: "redis_world \<Rightarrow> bytes list \<Rightarrow> redisReply \<Rightarrow> bool" where
  "replies srv args reply \<longleftrightarrow> xe_reply (srv args) = (Some reply, 0) \<and> \<not> is_error_reply reply"

lemma execCommand_replies:
  "replies srv args reply \<Longrightarrow> rd_context c \<Longrightarrow> execCommand srv args c = (Some reply, 0, c\<lparr>rd_connState := True\<rparr>, 1)"
  by (simp add: replies_def execCommand_def command_send_def command_finish_def)

text \<open>
  The hash and score-set readers decode a server's flat reply: \<^verbatim>\<open>HGETALL\<close> returns a sorted map in which every field
  has its last value, and \<^verbatim>\<open>ZRANGE\<close>, which adds \<^verbatim>\<open>WITHSCORES\<close> to the arguments, returns the members in the
  order of the reply, each with its converted score.
\<close>
theorem redis_flat_replies:
  assumes "rd_context c"
    and "replies srv [lit ''HGETALL'', key] (RArray (concat (map (\<lambda>(k, v). [RString (Some k), RString (Some v)]) kvs)))"
    and "replies srv [lit ''ZRANGE'', key', to_string_int start, to_string_int stop, lit ''WITHSCORES'']
      (RArray (concat (map (\<lambda>(m, t). [RString (Some m), RString (Some t)]) ms)))"
  shows "\<exists>m c'. redis_HGETALL srv key c = (m, ExecSuccess, c') \<and> sorted_wrt (<) (map fst m) \<and> map_of m = map_of (rev kvs) \<and>
    redis_ZRANGE fo srv key' start stop c = (map (\<lambda>(m, t). (strtod fo t, m)) ms, ExecSuccess, c')"
  using execCommand_replies [OF assms(2,1)] execCommand_replies [OF assms(3,1)] sm_fold [of "[]" kvs]
  by (auto simp: redis_HGETALL_def redis_ZRANGE_def exec_sm_def exec_sca_def sm_loop_pairs sca_loop_pairs)

theorem redis_flat_replies_witness:
  "\<exists>srv c m c'. redis_HGETALL srv (lit ''h'') c = (m, ExecSuccess, c') \<and> map_of m (lit ''f'') = Some (lit ''2'')"
proof -
  let ?kvs = "[(lit ''f'', lit ''1''), (lit ''f'', lit ''2'')]"
  let ?flat = "\<lambda>kvs. RArray (concat (map (\<lambda>(k, v). [RString (Some k), RString (Some v)]) kvs))"
  let ?srv = "\<lambda>args. \<lparr>xe_connect = sample_connect, xe_reply = (Some (?flat (if hd args = lit ''HGETALL'' then ?kvs else [])), 0),
    xe_reconnect = sample_connect, xe_retry = (None, 0)\<rparr>"
  let ?c = "\<lparr>rd_context = True, rd_connState = True, rd_auth_str = []\<rparr>"
  have c: "rd_context ?c" by simp
  have h: "replies ?srv [lit ''HGETALL'', lit ''h''] (?flat ?kvs)" by (simp add: replies_def lit_def)
  have z: "replies ?srv [lit ''ZRANGE'', lit ''z'', to_string_int 0, to_string_int 1, lit ''WITHSCORES''] (?flat [])"
    by (simp add: replies_def lit_def)
  obtain m c' where "redis_HGETALL ?srv (lit ''h'') ?c = (m, ExecSuccess, c')" "map_of m = map_of (rev ?kvs)"
    using redis_flat_replies [OF c h z] by blast
  moreover have "map_of (rev ?kvs) (lit ''f'') = Some (lit ''2'')" by simp
  ultimately show ?thesis by metis
qed

text \<open>
  \<^verbatim>\<open>MGET\<close> leaves out the keys that do not exist instead of returning a place for them: the values are those of
  the existing keys in order, so the result lines up with the keys only when all of them exist.
\<close>
theorem mget_drops_missing:
  assumes "rd_context c"
    and "replies srv (lit ''MGET'' # keys) (RArray (map (\<lambda>k. case store k of Some v \<Rightarrow> RString (Some v) | None \<Rightarrow> RNil) keys))"
  shows "\<exists>vs c'. redis_MGET srv keys c = (vs, ExecSuccess, c') \<and> vs = map (\<lambda>k. the (store k)) (filter (\<lambda>k. store k \<noteq> None) keys) \<and>
    (length vs = length keys \<longleftrightarrow> (\<forall>k \<in> set keys. store k \<noteq> None))"
proof -
  have "concat (map (sa_element \<circ> (\<lambda>k. case store k of Some v \<Rightarrow> RString (Some v) | None \<Rightarrow> RNil)) keys) =
      map (\<lambda>k. the (store k)) (filter (\<lambda>k. store k \<noteq> None) keys)"
    by (induction keys) (auto simp: getReplyStr_def split: option.splits)
  moreover have "length (filter (\<lambda>k. store k \<noteq> None) keys) = length keys \<longleftrightarrow> (\<forall>k \<in> set keys. store k \<noteq> None)"
    by (auto simp: filter_id_conv dest: length_filter_less [where P = "\<lambda>k. store k \<noteq> None"])
  ultimately show ?thesis using execCommand_replies [OF assms(2,1)] by (simp add: redis_MGET_def exec_sa_def)
qed

theorem mget_drops_missing_witness:
  "\<exists>srv c vs c'. redis_MGET srv [lit ''a'', lit ''b''] c = (vs, ExecSuccess, c') \<and> vs = [lit ''B'']"
proof -
  let ?store = "[lit ''b'' \<mapsto> lit ''B'']" and ?keys = "[lit ''a'', lit ''b'']"
  let ?r = "RArray (map (\<lambda>k. case ?store k of Some v \<Rightarrow> RString (Some v) | None \<Rightarrow> RNil) ?keys)"
  let ?srv = "\<lambda>args. \<lparr>xe_connect = sample_connect, xe_reply = (Some ?r, 0), xe_reconnect = sample_connect, xe_retry = (None, 0)\<rparr>"
  let ?c = "\<lparr>rd_context = True, rd_connState = True, rd_auth_str = []\<rparr>"
  have "replies ?srv (lit ''MGET'' # ?keys) ?r" by (simp add: replies_def)
  from mget_drops_missing [OF _ this, of ?c] show ?thesis by (auto simp: lit_def)
qed

lemma exec_int_truncates:
  "replies srv args (RInteger i) \<Longrightarrow> rd_context c \<Longrightarrow> fst (exec_int srv args c) = i \<longleftrightarrow> - (2 ^ 31) \<le> i \<and> i < 2 ^ 31"
  by (simp add: exec_int_def execCommand_replies sint_sbintrunc' signed_take_bit_int_eq_self_iff)

section \<open>The pool's clients\<close>

text \<open>
  C15: In every reachable state of a Redis pool, however its workers, submissions and \<^verbatim>\<open>stop\<close> interleave, no client is
  held by two workers, a held client has not been deleted, the idle clients are connected and held by nobody,
  there are never more than sixteen clients, and no client is leaked: those that exist are those of the table.
\<close>
theorem redis_pool_clients_exclusive:
  assumes "redis_reach fo auth_str psz p acc subs pops"
  shows "distinct (concat (map held (cp_workers p))) \<and> (\<forall>c \<in> set (concat (map held (cp_workers p))). cp_objs p c \<noteq> None) \<and>
    (\<forall>c. (c, True) \<in> set (cp_clt2idle p) \<longrightarrow> c \<notin> set (concat (map held (cp_workers p))) \<and> rd_connState (the (cp_objs p c))) \<and>
    length (cp_clt2idle p) \<le> 16 \<and> card (dom (cp_objs p)) = length (cp_clt2idle p)"
  using redis_pool.workers.clients_exclusive [OF assms [unfolded redis_worker_def redis_pool_start_def]] by (simp add: redis_pool_ops_def)

theorem redis_pool_clients_exclusive_witness:
  "\<exists>fo p. redis_reach fo [] 2 p [100] 1 [100] \<and> concat (map held (cp_workers p)) = [0] \<and>
    distinct (concat (map held (cp_workers p))) \<and> cp_objs p 0 \<noteq> None"
proof -
  let ?fo = "\<lparr>strtod = \<lambda>_. 0, of_integer = \<lambda>_. 0, fmt = \<lambda>_. []\<rparr>"
  let ?ops = "redis_pool_ops ?fo []" and ?step = "redis_worker ?fo []"
  let ?q = "\<lparr>rdq_version = 0, rdq_type = execCommandInt, rdq_db_slot = 0, rdq_argv = [lit ''TTL''], rdq_req_id = 0, rdq_retry_times = 0\<rparr>"
  let ?p0 = "snd (redis_pool_start 2 pool_new)"
  let ?p1 = "snd (pool_submit ?ops ?q ?p0)"
  let ?e = "\<lparr>rp_world = \<lambda>_. \<lparr>xe_connect = sample_connect, xe_reply = (None, 0), xe_reconnect = sample_connect, xe_retry = (None, 0)\<rparr>,
    rp_connect = sample_connect\<rparr>"
  note defs = pool_submit_def pool_start_def pool_new_def sq_push_def sq_new_def sq_size_def worker_step_def redis_worker_def set_pc_def
    sq_pop_timeout_cv_def getIdleClient_take_def redis_pool_ops_def MaxPendingReq_def MinReqId_def Let_def numeral_2_eq_2
  have "redis_reach ?fo [] 2 ?p1 [100] 1 []"
    using pr_submit [OF pr_start, of ?ops ?q ?p0 "fst (pool_submit ?ops ?q ?p0)" ?p1 ?step WPop] by (simp add: defs)
  moreover have "0 < length (cp_workers ?p1)" "pops_now WPop 0 ?p1" "q_id ?ops (hd (sq_queue (cp_queue ?p1))) = 100"
    by (simp_all add: pops_now_def defs)
  ultimately have "redis_reach ?fo [] 2 (?step ?e 0 ?p1) [100] 1 [100]"
    using pr_worker [of ?ops ?step WPop ?p0 ?p1 "[100]" 1 "[]" 0 ?e] by simp
  moreover have "0 < length (cp_workers (?step ?e 0 ?p1))" "\<not> pops_now WPop 0 (?step ?e 0 ?p1)"
    by (simp_all add: pops_now_def defs)
  ultimately have r: "redis_reach ?fo [] 2 (?step ?e 0 (?step ?e 0 ?p1)) [100] 1 [100]"
    using pr_worker [of ?ops ?step WPop ?p0 "?step ?e 0 ?p1" "[100]" 1 "[100]" 0 ?e] by simp
  moreover have "concat (map held (cp_workers (?step ?e 0 (?step ?e 0 ?p1)))) = [0]"
    by (simp add: defs)
  ultimately show ?thesis using redis_pool_clients_exclusive [OF r] by (intro exI conjI) auto
qed

end
