(* ===== verification/MongoClient.thy ===== *)
theory MongoClient
  imports DbReq DbPool
begin

text \<open>
  The MongoDB client of \<^verbatim>\<open>src/wjp/mongo_client.hpp\<close>.  The driver is not part of the repository: \<open>ans k\<close> is
  what the \<open>k\<close>-th call of the client to it returns, and \<open>mg_calls\<close> lists the calls with their arguments.
  Collection handles are allocated objects; \<open>mg_live\<close> are those that exist.
\<close>

datatype mongo_call =
    DropDatabase | DropCollection nat | InsertOne nat bson bson | InsertMany nat "bson list" bson
  | Find nat bson bson | UpdateOne nat bson bson bson | UpdateMany nat bson bson bson
  | ReplaceOne nat bson bson bson | DeleteOne nat bson bson | DeleteMany nat bson bson | Command bson bson
  | CreateBulk nat bson | BulkInsert bson bson | BulkUpdateOne bson bson bson | BulkUpdateMany bson bson bson
  | BulkReplaceOne bson bson bson | BulkRemoveOne bson bson | BulkRemoveMany bson bson | BulkExecute | DestroyBulk
  | StartSession | StartTransaction | CommitTransaction | AbortTransaction | DestroySession | WithTransaction
  | CommandSimple bson | SetDBReadPrefs nat bson "int option" | SetCollReadPrefs nat nat bson "int option"

text \<open>\<open>an_ok\<close> is the returned flag, or that the returned pointer is not null; \<open>an_docs\<close> and \<open>an_cursor_err\<close> are
  what the cursor of a query yields.\<close>

record mongo_answer =
  an_ok :: bool
  an_docs :: "bson list"
  an_cursor_err :: bool

record mongo_client =
  mg_client :: bool
  mg_database :: bool
  mg_name2coll :: "(bytes \<times> nat) list"
  mg_seq :: int
  mg_live :: "nat list"
  mg_next :: nat
  mg_calls :: "mongo_call list"

type_synonym mongo_world = "nat \<Rightarrow> mongo_answer"

definition mongo_client_new :: "int \<Rightarrow> mongo_client" where
  "mongo_client_new seq = \<lparr>mg_client = False, mg_database = False, mg_name2coll = [], mg_seq = seq, mg_live = [], mg_next = 0, mg_calls = []\<rparr>"

definition mongo_connect :: "bool \<Rightarrow> mongo_client \<Rightarrow> int \<times> mongo_client" where
  "mongo_connect created c = (if created then 0 else -1, c\<lparr>mg_client := created\<rparr>)"

definition mongo_disconnect :: "mongo_client \<Rightarrow> mongo_client" where
  "mongo_disconnect c = c\<lparr>mg_client := False\<rparr>"

definition mongo_open :: "bool \<Rightarrow> mongo_client \<Rightarrow> int \<times> mongo_client" where
  "mongo_open got c =
    (let c' = (if mg_client c then c\<lparr>mg_database := got\<rparr> else c) in (if mg_database c' then 0 else -1, c'))"

definition clearCachedCollections :: "mongo_client \<Rightarrow> mongo_client" where
  "clearCachedCollections c = c\<lparr>mg_live := filter (\<lambda>h. h \<notin> snd ` set (mg_name2coll c)) (mg_live c), mg_name2coll := []\<rparr>"

definition mongo_close :: "mongo_client \<Rightarrow> mongo_client" where
  "mongo_close c = (clearCachedCollections c)\<lparr>mg_database := False\<rparr>"

definition mongo_attach :: "bool \<Rightarrow> mongo_client \<Rightarrow> int \<times> mongo_client" where
  "mongo_attach got c = mongo_open got (c\<lparr>mg_client := True\<rparr>)"

definition mongo_detach :: "mongo_client \<Rightarrow> mongo_client" where
  "mongo_detach c = (mongo_close c)\<lparr>mg_client := False\<rparr>"

definition getCollection :: "bytes \<Rightarrow> mongo_client \<Rightarrow> nat \<times> mongo_client" where
  "getCollection collName c =
    (case map_of (mg_name2coll c) collName of
       Some coll \<Rightarrow> (coll, c)
     | None \<Rightarrow> (mg_next c, c\<lparr>mg_name2coll := (collName, mg_next c) # mg_name2coll c, mg_live := mg_live c @ [mg_next c],
                 mg_next := Suc (mg_next c)\<rparr>))"

definition lib_call :: "mongo_world \<Rightarrow> mongo_call \<Rightarrow> mongo_client \<Rightarrow> mongo_answer \<times> mongo_client" where
  "lib_call ans call c = (ans (length (mg_calls c)), c\<lparr>mg_calls := mg_calls c @ [call]\<rparr>)"

text \<open>The shape of most operations: zero, or -1 with a line in the log.\<close>

definition rc_call :: "mongo_world \<Rightarrow> mongo_call \<Rightarrow> mongo_client \<Rightarrow> int \<times> mongo_client" where
  "rc_call ans call c = (case lib_call ans call c of (a, c') \<Rightarrow> (if an_ok a then 0 else -1, c'))"

definition clt_dropDatabase :: "mongo_world \<Rightarrow> mongo_client \<Rightarrow> int \<times> mongo_client" where
  "clt_dropDatabase ans c = rc_call ans DropDatabase c"

definition clt_dropCollection :: "mongo_world \<Rightarrow> bytes \<Rightarrow> mongo_client \<Rightarrow> int \<times> mongo_client" where
  "clt_dropCollection ans collName c = (case getCollection collName c of (coll, c') \<Rightarrow> rc_call ans (DropCollection coll) c')"

definition clt_insertOne :: "mongo_world \<Rightarrow> bytes \<Rightarrow> bson \<Rightarrow> bson \<Rightarrow> mongo_client \<Rightarrow> int \<times> mongo_client" where
  "clt_insertOne ans collName doc opts c = (case getCollection collName c of (coll, c') \<Rightarrow> rc_call ans (InsertOne coll doc opts) c')"

definition clt_insertMany :: "mongo_world \<Rightarrow> bytes \<Rightarrow> bson list \<Rightarrow> bson \<Rightarrow> mongo_client \<Rightarrow> int \<times> mongo_client" where
  "clt_insertMany ans collName docs opts c = (case getCollection collName c of (coll, c') \<Rightarrow> rc_call ans (InsertMany coll docs opts) c')"

definition clt_updateOne :: "mongo_world \<Rightarrow> bytes \<Rightarrow> bson \<Rightarrow> bson \<Rightarrow> bson \<Rightarrow> mongo_client \<Rightarrow> int \<times> mongo_client" where
  "clt_updateOne ans collName query upd opts c =
    (case getCollection collName c of (coll, c') \<Rightarrow> rc_call ans (UpdateOne coll query upd opts) c')"

definition clt_updateMany :: "mongo_world \<Rightarrow> bytes \<Rightarrow> bson \<Rightarrow> bson \<Rightarrow> bson \<Rightarrow> mongo_client \<Rightarrow> int \<times> mongo_client" where
  "clt_updateMany ans collName query upd opts c =
    (case getCollection collName c of (coll, c') \<Rightarrow> rc_call ans (UpdateMany coll query upd opts) c')"

definition clt_replaceOne :: "mongo_world \<Rightarrow> bytes \<Rightarrow> bson \<Rightarrow> bson \<Rightarrow> bson \<Rightarrow> mongo_client \<Rightarrow> int \<times> mongo_client" where
  "clt_replaceOne ans collName query repl opts c =
    (case getCollection collName c of (coll, c') \<Rightarrow> rc_call ans (ReplaceOne coll query repl opts) c')"

definition clt_deleteOne :: "mongo_world \<Rightarrow> bytes \<Rightarrow> bson \<Rightarrow> bson \<Rightarrow> mongo_client \<Rightarrow> int \<times> mongo_client" where
  "clt_deleteOne ans collName query opts c =
    (case getCollection collName c of (coll, c') \<Rightarrow> rc_call ans (DeleteOne coll query opts) c')"

definition clt_deleteMany :: "mongo_world \<Rightarrow> bytes \<Rightarrow> bson \<Rightarrow> bson \<Rightarrow> mongo_client \<Rightarrow> int \<times> mongo_client" where
  "clt_deleteMany ans collName query opts c =
    (case getCollection collName c of (coll, c') \<Rightarrow> rc_call ans (DeleteMany coll query opts) c')"

definition clt_command :: "mongo_world \<Rightarrow> bson \<Rightarrow> bson \<Rightarrow> mongo_client \<Rightarrow> int \<times> mongo_client" where
  "clt_command ans cmd opts c = rc_call ans (Command cmd opts) c"

text \<open>A query that cannot start leaves the caller's documents as they are.\<close>

definition clt_find :: "mongo_world \<Rightarrow> bytes \<Rightarrow> bson \<Rightarrow> bson list \<Rightarrow> bson \<Rightarrow> mongo_client \<Rightarrow> int \<times> bson list \<times> mongo_client" where
  "clt_find ans collName query docs opts c =
    (case getCollection collName c of (coll, c1) \<Rightarrow>
     (case lib_call ans (Find coll query opts) c1 of (a, c2) \<Rightarrow>
       if \<not> an_ok a then (-1, docs, c2) else (if an_cursor_err a then -2 else 0, an_docs a, c2)))"

definition clt_find_json :: "(bson \<Rightarrow> bytes) \<Rightarrow> mongo_world \<Rightarrow> bytes \<Rightarrow> bson \<Rightarrow> bytes list \<Rightarrow> bson \<Rightarrow> mongo_client \<Rightarrow> int \<times> bytes list \<times> mongo_client" where
  "clt_find_json json ans collName query docs opts c =
    (case getCollection collName c of (coll, c1) \<Rightarrow>
     (case lib_call ans (Find coll query opts) c1 of (a, c2) \<Rightarrow>
       if \<not> an_ok a then (-1, docs, c2) else (if an_cursor_err a then -2 else 0, map json (an_docs a), c2)))"

definition createBulk :: "mongo_world \<Rightarrow> bytes \<Rightarrow> bson \<Rightarrow> mongo_client \<Rightarrow> bool \<times> mongo_client" where
  "createBulk ans collName opts c =
    (case getCollection collName c of (coll, c1) \<Rightarrow> (case lib_call ans (CreateBulk coll opts) c1 of (a, c2) \<Rightarrow> (an_ok a, c2)))"

definition destroyBulk :: "mongo_world \<Rightarrow> bool \<Rightarrow> mongo_client \<Rightarrow> mongo_client" where
  "destroyBulk ans bulk c = (if bulk then snd (lib_call ans DestroyBulk c) else c)"

text \<open>The operations that only pass their arguments on to the driver.\<close>

definition clt_bulkExecute :: "mongo_world \<Rightarrow> mongo_client \<Rightarrow> int \<times> mongo_client" where
  [simp]: "clt_bulkExecute ans c = rc_call ans BulkExecute c"

definition clt_bulkInsert :: "mongo_world \<Rightarrow> bson \<Rightarrow> bson \<Rightarrow> mongo_client \<Rightarrow> int \<times> mongo_client" where
  [simp]: "clt_bulkInsert ans doc opts c = rc_call ans (BulkInsert doc opts) c"

definition clt_bulkUpdateOne :: "mongo_world \<Rightarrow> bson \<Rightarrow> bson \<Rightarrow> bson \<Rightarrow> mongo_client \<Rightarrow> int \<times> mongo_client" where
  [simp]: "clt_bulkUpdateOne ans query doc opts c = rc_call ans (BulkUpdateOne query doc opts) c"

definition clt_bulkUpdateMany :: "mongo_world \<Rightarrow> bson \<Rightarrow> bson \<Rightarrow> bson \<Rightarrow> mongo_client \<Rightarrow> int \<times> mongo_client" where
  [simp]: "clt_bulkUpdateMany ans query doc opts c = rc_call ans (BulkUpdateMany query doc opts) c"

definition clt_bulkReplaceOne :: "mongo_world \<Rightarrow> bson \<Rightarrow> bson \<Rightarrow> bson \<Rightarrow> mongo_client \<Rightarrow> int \<times> mongo_client" where
  [simp]: "clt_bulkReplaceOne ans query doc opts c = rc_call ans (BulkReplaceOne query doc opts) c"

definition clt_bulkRemoveOne :: "mongo_world \<Rightarrow> bson \<Rightarrow> bson \<Rightarrow> mongo_client \<Rightarrow> int \<times> mongo_client" where
  [simp]: "clt_bulkRemoveOne ans query opts c = rc_call ans (BulkRemoveOne query opts) c"

definition clt_bulkRemoveMany :: "mongo_world \<Rightarrow> bson \<Rightarrow> bson \<Rightarrow> mongo_client \<Rightarrow> int \<times> mongo_client" where
  [simp]: "clt_bulkRemoveMany ans query opts c = rc_call ans (BulkRemoveMany query opts) c"

definition createSession :: "mongo_world \<Rightarrow> mongo_client \<Rightarrow> bool \<times> mongo_client" where
  [simp]: "createSession ans c = (case lib_call ans StartSession c of (a, c') \<Rightarrow> (an_ok a, c'))"

definition destroySession :: "mongo_world \<Rightarrow> bool \<Rightarrow> mongo_client \<Rightarrow> mongo_client" where
  [simp]: "destroySession ans session c = (if session then snd (lib_call ans DestroySession c) else c)"

definition startTransaction :: "mongo_world \<Rightarrow> mongo_client \<Rightarrow> int \<times> mongo_client" where
  [simp]: "startTransaction ans c = rc_call ans StartTransaction c"

definition commitTransaction :: "mongo_world \<Rightarrow> mongo_client \<Rightarrow> int \<times> mongo_client" where
  [simp]: "commitTransaction ans c = rc_call ans CommitTransaction c"

definition rollbackTransaction :: "mongo_world \<Rightarrow> mongo_client \<Rightarrow> int \<times> mongo_client" where
  [simp]: "rollbackTransaction ans c = rc_call ans AbortTransaction c"

definition clt_commandSimple :: "mongo_world \<Rightarrow> bson \<Rightarrow> mongo_client \<Rightarrow> int \<times> mongo_client" where
  "clt_commandSimple ans cmd c = rc_call ans (CommandSimple cmd) c"

text \<open>
  Read preferences: \<^verbatim>\<open>MONGOC_NO_MAX_STALENESS\<close> and \<^verbatim>\<open>MONGOC_SMALLEST_MAX_STALENESS_SECONDS\<close> of the driver
  are -1 and 90; a staleness outside these is not passed on.
\<close>

definition staleness :: "int \<Rightarrow> int option" where
  "staleness max_staleness_seconds =
    (if max_staleness_seconds = -1 \<or> max_staleness_seconds \<ge> 90 then Some max_staleness_seconds else None)"

definition setDBReadPrefs :: "mongo_world \<Rightarrow> nat \<Rightarrow> bson \<Rightarrow> int \<Rightarrow> mongo_client \<Rightarrow> mongo_client" where
  "setDBReadPrefs ans mode tags max_staleness_seconds c =
    snd (lib_call ans (SetDBReadPrefs mode tags (staleness max_staleness_seconds)) c)"

definition setCollReadPrefs :: "mongo_world \<Rightarrow> bytes \<Rightarrow> nat \<Rightarrow> bson \<Rightarrow> int \<Rightarrow> mongo_client \<Rightarrow> mongo_client" where
  "setCollReadPrefs ans collName mode tags max_staleness_seconds c =
    (case getCollection collName c of (coll, c') \<Rightarrow>
       snd (lib_call ans (SetCollReadPrefs coll mode tags (staleness max_staleness_seconds)) c'))"

definition execTransaction_cb :: "mongo_world \<Rightarrow> mongo_client \<Rightarrow> int \<times> mongo_client" where
  "execTransaction_cb ans c =
    (case createSession ans c of (session, c1) \<Rightarrow>
     if \<not> session then (-1, destroySession ans session c1)
     else (case lib_call ans WithTransaction c1 of (a, c2) \<Rightarrow> (if an_ok a then 0 else -2, destroySession ans session c2)))"

definition clt_execTransaction ::
  "mongo_world \<Rightarrow> (mongo_client \<Rightarrow> bool \<times> mongo_client) \<Rightarrow> mongo_client \<Rightarrow> int \<times> mongo_client" where
  "clt_execTransaction ans trans_proc c =
    (case createSession ans c of (session, c1) \<Rightarrow>
     if \<not> session then (-1, destroySession ans session c1)
     else (case startTransaction ans c1 of (st, c2) \<Rightarrow>
       if st \<noteq> 0 then (-2, destroySession ans session c2)
       else (case trans_proc c2 of (exec_success, c3) \<Rightarrow>
         (case (if exec_success then commitTransaction ans c3 else (-1, c3)) of (commit, c4) \<Rightarrow>
           if exec_success \<and> commit = 0 then (0, destroySession ans session c4)
           else (case rollbackTransaction ans c4 of (ab, c5) \<Rightarrow>
             (if ab \<noteq> 0 then -3 else -4, destroySession ans session c5))))))"

section \<open>Requests\<close>

definition mongo_RESP_RC_PARAM_INVALID :: int where "mongo_RESP_RC_PARAM_INVALID = 1001"
definition mongo_RESP_RC_TYPE_INVALID :: int where "mongo_RESP_RC_TYPE_INVALID = 1002"
definition mongo_RESP_RC_NO_AVAIL_CLT :: int where "mongo_RESP_RC_NO_AVAIL_CLT = 1003"
definition mongo_RESP_RC_NOT_SUPPORT :: int where "mongo_RESP_RC_NOT_SUPPORT = 1004"

text \<open>One turn of the loop of \<^verbatim>\<open>transaction_proc\<close>.\<close>

definition transaction_op :: "mongo_world \<Rightarrow> mongo_client_req \<Rightarrow> mongo_client \<Rightarrow> int \<times> mongo_client" where
  "transaction_op ans q c =
    (let coll = c_str (gq_collName q); ty = gq_type q in
     if ty = insertOne then clt_insertOne ans coll (gq_write q) (gq_opts q) c
     else if ty = insertMany then clt_insertMany ans coll (gq_mult_write q) (gq_opts q) c
     else if ty = updateOne then clt_updateOne ans coll (gq_query q) (gq_write q) (gq_opts q) c
     else if ty = updateMany then clt_updateMany ans coll (gq_query q) (gq_write q) (gq_opts q) c
     else if ty = replaceOne then clt_replaceOne ans coll (gq_query q) (gq_write q) (gq_opts q) c
     else if ty = deleteOne then clt_deleteOne ans coll (gq_query q) (gq_opts q) c
     else if ty = deleteMany then clt_deleteMany ans coll (gq_query q) (gq_opts q) c
     else if ty = bulkExecute then (mongo_RESP_RC_NOT_SUPPORT, c)
     else (mongo_RESP_RC_TYPE_INVALID, c))"

fun transaction_proc :: "mongo_world \<Rightarrow> mongo_client_req list \<Rightarrow> mongo_client \<Rightarrow> bool \<times> mongo_client" where
  "transaction_proc ans [] c = (True, c)"
| "transaction_proc ans (q # qs) c =
    (case transaction_op ans q c of (rc, c') \<Rightarrow> if rc \<noteq> 0 then (False, c') else transaction_proc ans qs c')"

fun bulk_inserts :: "mongo_world \<Rightarrow> bson list \<Rightarrow> bson \<Rightarrow> mongo_client \<Rightarrow> int \<times> mongo_client" where
  "bulk_inserts ans [] opts c = (0, c)"
| "bulk_inserts ans (d # ds) opts c =
    (case clt_bulkInsert ans d opts c of (rc, c') \<Rightarrow> if rc \<noteq> 0 then (rc, c') else bulk_inserts ans ds opts c')"

definition bulk_op :: "mongo_world \<Rightarrow> mongo_client_req \<Rightarrow> mongo_client \<Rightarrow> int \<times> mongo_client" where
  "bulk_op ans q c =
    (let ty = gq_type q in
     if ty = insertOne then clt_bulkInsert ans (gq_write q) (gq_opts q) c
     else if ty = insertMany then bulk_inserts ans (gq_mult_write q) (gq_opts q) c
     else if ty = updateOne then clt_bulkUpdateOne ans (gq_query q) (gq_write q) (gq_opts q) c
     else if ty = updateMany then clt_bulkUpdateMany ans (gq_query q) (gq_write q) (gq_opts q) c
     else if ty = replaceOne then clt_bulkReplaceOne ans (gq_query q) (gq_write q) (gq_opts q) c
     else if ty = deleteOne then clt_bulkRemoveOne ans (gq_query q) (gq_opts q) c
     else if ty = deleteMany then clt_bulkRemoveMany ans (gq_query q) (gq_opts q) c
     else (mongo_RESP_RC_TYPE_INVALID, c))"

fun bulk_ops :: "mongo_world \<Rightarrow> mongo_client_req list \<Rightarrow> mongo_client \<Rightarrow> int \<times> mongo_client" where
  "bulk_ops ans [] c = (0, c)"
| "bulk_ops ans (q # qs) c = (case bulk_op ans q c of (rc, c') \<Rightarrow> if rc \<noteq> 0 then (rc, c') else bulk_ops ans qs c')"

definition mongo_bulkExecute :: "mongo_world \<Rightarrow> mongo_client_req \<Rightarrow> mongo_client_req list \<Rightarrow> mongo_client \<Rightarrow> int \<times> mongo_client" where
  "mongo_bulkExecute ans head rest c =
    (case createBulk ans (c_str (gq_collName head)) (gq_opts head) c of (bulk, c1) \<Rightarrow>
     if \<not> bulk then (mongo_RESP_RC_PARAM_INVALID, c1)
     else (case bulk_ops ans rest c1 of (rc, c2) \<Rightarrow>
       (case (if rc = 0 then clt_bulkExecute ans c2 else (rc, c2)) of (rc', c3) \<Rightarrow>
          (rc', destroyBulk ans bulk c3))))"

text \<open>The reply pointer of a fresh response is null, and it is passed by value: no operation can store a reply.\<close>

definition mongo_handleRequest ::
  "mongo_world \<Rightarrow> mongo_client_req \<Rightarrow> mongo_client_req list \<Rightarrow> mongo_client \<Rightarrow> mongo_client_resp \<times> mongo_client" where
  "mongo_handleRequest ans q rest c =
    (let resp = mongo_client_resp_new (gq_req_id q); coll = c_str (gq_collName q); ty = gq_type q;
         answer = (\<lambda>(rc, c'). (resp\<lparr>gr_rc := word_of_int rc\<rparr>, c')) in
     if ty = dropDatabase then answer (clt_dropDatabase ans c)
     else if ty = dropCollection then answer (clt_dropCollection ans coll c)
     else if ty = insertOne then answer (clt_insertOne ans coll (gq_write q) (gq_opts q) c)
     else if ty = insertMany then answer (clt_insertMany ans coll (gq_mult_write q) (gq_opts q) c)
     else if ty = updateOne then answer (clt_updateOne ans coll (gq_query q) (gq_write q) (gq_opts q) c)
     else if ty = updateMany then answer (clt_updateMany ans coll (gq_query q) (gq_write q) (gq_opts q) c)
     else if ty = replaceOne then answer (clt_replaceOne ans coll (gq_query q) (gq_write q) (gq_opts q) c)
     else if ty = deleteOne then answer (clt_deleteOne ans coll (gq_query q) (gq_opts q) c)
     else if ty = deleteMany then answer (clt_deleteMany ans coll (gq_query q) (gq_opts q) c)
     else if ty = mongo_find then
       (case clt_find ans coll (gq_query q) [] (gq_opts q) c of (rc, docs, c') \<Rightarrow>
          (resp\<lparr>gr_rc := word_of_int rc, gr_result_docs := docs\<rparr>, c'))
     else if ty = mongo_command then answer (clt_command ans (gq_write q) (gq_opts q) c)
     else if ty = bulkExecute then answer (mongo_bulkExecute ans q rest c)
     else if ty = execTransaction then answer (clt_execTransaction ans (transaction_proc ans rest) c)
     else answer (mongo_RESP_RC_TYPE_INVALID, c))"

definition mongo_retryFailure :: "mongo_client_req \<Rightarrow> mongo_client_resp" where
  "mongo_retryFailure q = (mongo_client_resp_new (gq_req_id q))\<lparr>gr_rc := word_of_int mongo_RESP_RC_NO_AVAIL_CLT\<rparr>"

section \<open>Transactions\<close>

text \<open>The call to the driver that a request of a transaction asks for, given the handle of its collection; a
  request of another type asks for none.\<close>

definition transaction_call :: "mongo_client_req \<Rightarrow> nat \<Rightarrow> mongo_call option" where
  "transaction_call q h =
    (let ty = gq_type q in
     if ty = insertOne then Some (InsertOne h (gq_write q) (gq_opts q))
     else if ty = insertMany then Some (InsertMany h (gq_mult_write q) (gq_opts q))
     else if ty = updateOne then Some (UpdateOne h (gq_query q) (gq_write q) (gq_opts q))
     else if ty = updateMany then Some (UpdateMany h (gq_query q) (gq_write q) (gq_opts q))
     else if ty = replaceOne then Some (ReplaceOne h (gq_query q) (gq_write q) (gq_opts q))
     else if ty = deleteOne then Some (DeleteOne h (gq_query q) (gq_opts q))
     else if ty = deleteMany then Some (DeleteMany h (gq_query q) (gq_opts q))
     else None)"

text \<open>The call of a request on the collection cached under the name the request has.\<close>

definition asks :: "mongo_client \<Rightarrow> mongo_client_req \<Rightarrow> mongo_call \<Rightarrow> bool" where
  "asks c q call \<longleftrightarrow>
    (case map_of (mg_name2coll c) (c_str (gq_collName q)) of Some h \<Rightarrow> transaction_call q h = Some call | None \<Rightarrow> False)"

definition keeps_collections :: "mongo_client \<Rightarrow> mongo_client \<Rightarrow> bool" where
  "keeps_collections c c' \<longleftrightarrow> map_of (mg_name2coll c) \<subseteq>\<^sub>m map_of (mg_name2coll c')"

lemma keeps_trans: "keeps_collections c d \<Longrightarrow> keeps_collections d e \<Longrightarrow> keeps_collections c e"
  unfolding keeps_collections_def by (rule map_le_trans)

lemma asks_keeps: "asks c q call \<Longrightarrow> keeps_collections c d \<Longrightarrow> asks d q call"
  unfolding asks_def keeps_collections_def map_le_def by (force split: option.splits)

lemmas client_ops = clt_insertOne_def clt_insertMany_def clt_updateOne_def clt_updateMany_def clt_replaceOne_def clt_deleteOne_def
  clt_deleteMany_def clt_dropDatabase_def clt_dropCollection_def clt_command_def

lemma getCollection_calls:
  "getCollection n c = (h, c') \<Longrightarrow> mg_calls c' = mg_calls c \<and> map_of (mg_name2coll c') n = Some h \<and> keeps_collections c c'"
  by (auto simp: getCollection_def keeps_collections_def map_le_def dom_def split: option.splits)

lemma rc_call_calls:
  "rc_call ans call c = (rc, c') \<Longrightarrow>
    mg_calls c' = mg_calls c @ [call] \<and> (rc = 0) = an_ok (ans (length (mg_calls c))) \<and> mg_name2coll c' = mg_name2coll c"
  by (auto simp: rc_call_def lib_call_def split: if_splits)

lemma coll_call:
  assumes "(case getCollection (c_str (gq_collName q)) c of (coll, c1) \<Rightarrow> rc_call ans (f coll) c1) = (rc, c')"
    and "\<And>h. transaction_call q h = Some (f h)"
  shows "\<exists>call. mg_calls c' = mg_calls c @ [call] \<and> asks c' q call \<and> (rc = 0) = an_ok (ans (length (mg_calls c))) \<and> keeps_collections c c'"
proof -
  obtain h c1 where g: "getCollection (c_str (gq_collName q)) c = (h, c1)" by (cases "getCollection (c_str (gq_collName q)) c")
  with assms have "rc_call ans (f h) c1 = (rc, c')" by simp
  from rc_call_calls [OF this] getCollection_calls [OF g] assms(2) show ?thesis
    by (auto simp: asks_def keeps_collections_def)
qed

lemma transaction_op_calls:
  "transaction_op ans q c = (rc, c') \<Longrightarrow>
    (\<exists>call. mg_calls c' = mg_calls c @ [call] \<and> asks c' q call \<and> (rc = 0) = an_ok (ans (length (mg_calls c))) \<and> keeps_collections c c') \<or>
    (rc \<noteq> 0 \<and> c' = c \<and> (\<forall>h. transaction_call q h = None))"
  unfolding transaction_op_def client_ops Let_def
  by (auto simp: mongo_RESP_RC_NOT_SUPPORT_def mongo_RESP_RC_TYPE_INVALID_def transaction_call_def Let_def
      elim!: coll_call split: if_split_asm)

text \<open>
  The calls of a run of requests, when the first of them is the \<open>n\<close>-th call of the client: they are those the
  requests ask for, in order; all but the last were answered with success; and fewer calls than
  requests were made only because the last one failed or the next request has a type that is not supported.
\<close>

definition run_calls :: "mongo_world \<Rightarrow> nat \<Rightarrow> mongo_client \<Rightarrow> mongo_client_req list \<Rightarrow> mongo_call list \<Rightarrow> bool" where
  "run_calls ans n c qs ops \<longleftrightarrow> length ops \<le> length qs \<and> list_all2 (asks c) (take (length ops) qs) ops \<and>
    (\<forall>j. Suc j < length ops \<longrightarrow> an_ok (ans (n + j))) \<and>
    (length ops < length qs \<longrightarrow>
      (ops \<noteq> [] \<and> \<not> an_ok (ans (n + length ops - 1))) \<or> (\<forall>h. transaction_call (qs ! length ops) h = None))"

definition run_succeeded :: "mongo_world \<Rightarrow> nat \<Rightarrow> mongo_client_req list \<Rightarrow> mongo_call list \<Rightarrow> bool" where
  "run_succeeded ans n qs ops \<longleftrightarrow> length ops = length qs \<and> (\<forall>j < length ops. an_ok (ans (n + j)))"

lemma run_calls_Cons:
  "run_calls ans (Suc n) c qs ops \<Longrightarrow> asks c q call \<Longrightarrow> an_ok (ans n) \<Longrightarrow>
    run_calls ans n c (q # qs) (call # ops) \<and> run_succeeded ans n (q # qs) (call # ops) = run_succeeded ans (Suc n) qs ops"
proof -
  assume r: "run_calls ans (Suc n) c qs ops" "asks c q call" and ok: "an_ok (ans n)"
  have s: "(\<forall>j. j < Suc k \<longrightarrow> an_ok (ans (n + j))) \<longleftrightarrow> (\<forall>j < k. an_ok (ans (Suc n + j)))" for k
    using ok by (auto simp: less_Suc_eq_0_disj)
  show ?thesis using r s [of "length ops - 1"] s [of "length ops"] unfolding run_calls_def run_succeeded_def
    by (cases ops) (auto simp: less_Suc_eq_0_disj ok)
qed

lemma transaction_proc_calls:
  "transaction_proc ans qs c = (ok, c') \<Longrightarrow>
    \<exists>ops. mg_calls c' = mg_calls c @ ops \<and> run_calls ans (length (mg_calls c)) c' qs ops \<and>
      ok = run_succeeded ans (length (mg_calls c)) qs ops \<and> keeps_collections c c'"
proof (induction ans qs c arbitrary: ok c' rule: transaction_proc.induct)
  case (1 ans c)
  then show ?case by (auto simp: run_calls_def run_succeeded_def keeps_collections_def)
next
  case (2 ans q qs c)
  obtain rc c1 where x: "transaction_op ans q c = (rc, c1)" by (cases "transaction_op ans q c")
  show ?case
  proof (cases "rc = 0")
    case True
    with transaction_op_calls [OF x] obtain call where call: "mg_calls c1 = mg_calls c @ [call]" "asks c1 q call"
      "an_ok (ans (length (mg_calls c)))" "keeps_collections c c1" by auto
    obtain ops where ops: "mg_calls c' = mg_calls c1 @ ops" "run_calls ans (Suc (length (mg_calls c))) c' qs ops"
      "ok = run_succeeded ans (Suc (length (mg_calls c))) qs ops" "keeps_collections c1 c'"
      using "2.IH" [OF x [symmetric], of ok c'] "2.prems" x True call(1) by auto
    from run_calls_Cons [OF ops(2) asks_keeps [OF call(2) ops(4)] call(3)] ops call keeps_trans [OF call(4) ops(4)]
    show ?thesis by (intro exI [of _ "call # ops"]) auto
  next
    case False
    then have e: "ok = False" "c' = c1" using "2.prems" x by auto
    from transaction_op_calls [OF x] show ?thesis
    proof
      assume "\<exists>call. mg_calls c1 = mg_calls c @ [call] \<and> asks c1 q call \<and> (rc = 0) = an_ok (ans (length (mg_calls c))) \<and> keeps_collections c c1"
      then obtain call where "mg_calls c1 = mg_calls c @ [call]" "asks c1 q call" "\<not> an_ok (ans (length (mg_calls c)))" "keeps_collections c c1"
        using False by auto
      then show ?thesis using e by (intro exI [of _ "[call]"]) (auto simp: run_calls_def run_succeeded_def)
    next
      assume "rc \<noteq> 0 \<and> c1 = c \<and> (\<forall>h. transaction_call q h = None)"
      then show ?thesis using e by (intro exI [of _ "[]"]) (auto simp: run_calls_def run_succeeded_def keeps_collections_def)
    qed
  qed
qed

text \<open>
  C20: The protocol of a MongoDB transaction once the session and the transaction started.  The calls made are
  those the requests ask for, each on the collection of its name and with the options of its request (the session is passed
  to none of them), in order, up to the first that fails.  If all requests were carried out and all
  their calls succeeded the transaction is committed, and the client reports success exactly when the commit
  succeeded too; in every other case the transaction is aborted, after the failed commit if there was one, and the
  code tells whether the abort worked.  The session is destroyed last.
\<close>
theorem mongo_transaction_protocol:
  assumes "an_ok (ans (length (mg_calls c)))" and "an_ok (ans (Suc (length (mg_calls c))))"
    and "clt_execTransaction ans (transaction_proc ans qs) c = (rc, c')"
  shows "\<exists>ops fin. mg_calls c' = mg_calls c @ [StartSession, StartTransaction] @ ops @ fin @ [DestroySession] \<and>
    (let n = length (mg_calls c) + 2; done = n + length ops in
     length ops \<le> length qs \<and> list_all2 (asks c') (take (length ops) qs) ops \<and>
     (\<forall>j. Suc j < length ops \<longrightarrow> an_ok (ans (n + j))) \<and>
     (length ops < length qs \<longrightarrow>
       (ops \<noteq> [] \<and> \<not> an_ok (ans (done - 1))) \<or> (\<forall>h. transaction_call (qs ! length ops) h = None)) \<and>
     (if length ops = length qs \<and> (\<forall>j < length ops. an_ok (ans (n + j)))
      then if an_ok (ans done) then fin = [CommitTransaction] \<and> rc = 0
        else fin = [CommitTransaction, AbortTransaction] \<and> rc = (if an_ok (ans (done + 1)) then -4 else -3)
      else fin = [AbortTransaction] \<and> rc = (if an_ok (ans done) then -4 else -3)))"
proof -
  let ?c2 = "c\<lparr>mg_calls := mg_calls c @ [StartSession, StartTransaction]\<rparr>" and ?n = "length (mg_calls c) + 2"
  obtain ok c3 where t: "transaction_proc ans qs ?c2 = (ok, c3)" by (cases "transaction_proc ans qs ?c2")
  obtain ops where ops: "mg_calls c3 = mg_calls ?c2 @ ops" "run_calls ans ?n c3 qs ops" "ok = run_succeeded ans ?n qs ops"
    using transaction_proc_calls [OF t] by auto
  have x: "(case (if ok then rc_call ans CommitTransaction c3 else (-1, c3)) of (commit, c4) \<Rightarrow>
      if ok \<and> commit = 0 then (0, snd (lib_call ans DestroySession c4))
      else (case rc_call ans AbortTransaction c4 of (ab, c5) \<Rightarrow>
        (if ab \<noteq> 0 then -3 else -4, snd (lib_call ans DestroySession c5)))) = (rc, c')"
    using assms t by (cases ok) (auto simp: clt_execTransaction_def createSession_def startTransaction_def commitTransaction_def
        rollbackTransaction_def destroySession_def lib_call_def rc_call_def split: if_splits)
  have k: "mg_name2coll c' = mg_name2coll c3" using x by (auto simp: rc_call_def lib_call_def split: if_splits)
  then have a: "asks c' = asks c3" by (simp add: asks_def fun_eq_iff)
  have n: "length (mg_calls c3) = ?n + length ops" using ops(1) by simp
  let ?fin = "if ok then (if an_ok (ans (?n + length ops)) then [CommitTransaction] else [CommitTransaction, AbortTransaction])
    else [AbortTransaction]"
  have calls: "mg_calls c' = mg_calls c @ [StartSession, StartTransaction] @ ops @ ?fin @ [DestroySession]"
    using x ops(1) n by (auto simp: rc_call_def lib_call_def split: if_splits)
  have rc: "rc = (if ok then if an_ok (ans (?n + length ops)) then 0 else if an_ok (ans (?n + length ops + 1)) then -4 else -3
      else if an_ok (ans (?n + length ops)) then -4 else -3)"
    using x n by (auto simp: rc_call_def lib_call_def split: if_splits)
  have s: "ok \<longleftrightarrow> length ops = length qs \<and> (\<forall>j < length ops. an_ok (ans (?n + j)))"
    using ops(3) by (simp add: run_succeeded_def)
  show ?thesis
    using ops(2) calls rc s unfolding run_calls_def a Let_def by (intro exI [of _ ops] exI [of _ ?fin]) simp
qed

theorem mongo_transaction_protocol_witness:
  "\<exists>ans qs rc c'. clt_execTransaction ans (transaction_proc ans qs) (mongo_client_new 0) = (rc, c') \<and> length qs = 2 \<and> rc = -4 \<and>
    mg_calls c' = [StartSession, StartTransaction, InsertOne 0 (Some [1]) None, InsertOne 1 (Some [2]) None, AbortTransaction, DestroySession]"
proof -
  let ?ans = "\<lambda>k. \<lparr>an_ok = (k \<noteq> 3), an_docs = [], an_cursor_err = False\<rparr>"
  let ?qs = "newInsertOne 0 (lit ''a'') (Some [1]) None @ newInsertOne 0 (lit ''b'') (Some [2]) None"
  obtain rc c' where x: "clt_execTransaction ?ans (transaction_proc ?ans ?qs) (mongo_client_new 0) = (rc, c')"
    by (cases "clt_execTransaction ?ans (transaction_proc ?ans ?qs) (mongo_client_new 0)")
  have calls: "mg_calls c' = [StartSession, StartTransaction, InsertOne 0 (Some [1]) None, InsertOne 1 (Some [2]) None, AbortTransaction, DestroySession]"
    using x by (auto simp: clt_execTransaction_def createSession_def startTransaction_def rollbackTransaction_def destroySession_def
        lib_call_def rc_call_def mongo_client_new_def newInsertOne_def mongo_client_req_new_def lit_def c_str_def
        transaction_op_def clt_insertOne_def getCollection_def Let_def split: option.splits if_splits)
  have "length (mg_calls (mongo_client_new 0)) = 0" "mg_calls (mongo_client_new 0) = []" "length ?qs = 2"
    by (simp_all add: mongo_client_new_def newInsertOne_def)
  with mongo_transaction_protocol [OF _ _ x] calls have "rc = -4"
    by (auto simp: Let_def append_eq_Cons_conv Cons_eq_append_conv split: if_splits)
  with x calls show ?thesis by (intro exI [of _ ?ans] exI [of _ ?qs]) (auto simp: newInsertOne_def)
qed

section \<open>Collection handles\<close>

fun call_coll :: "mongo_call \<Rightarrow> nat list" where
  "call_coll (DropCollection h) = [h]"
| "call_coll (InsertOne h _ _) = [h]"
| "call_coll (InsertMany h _ _) = [h]"
| "call_coll (Find h _ _) = [h]"
| "call_coll (UpdateOne h _ _ _) = [h]"
| "call_coll (UpdateMany h _ _ _) = [h]"
| "call_coll (ReplaceOne h _ _ _) = [h]"
| "call_coll (DeleteOne h _ _) = [h]"
| "call_coll (DeleteMany h _ _) = [h]"
| "call_coll (CreateBulk h _) = [h]"
| "call_coll (SetCollReadPrefs h _ _ _) = [h]"
| "call_coll _ = []"

definition coll_ok :: "mongo_client \<Rightarrow> bool" where
  "coll_ok c \<longleftrightarrow> set (mg_live c) = snd ` set (mg_name2coll c) \<and> distinct (map fst (mg_name2coll c)) \<and> distinct (map snd (mg_name2coll c)) \<and>
     (\<forall>h \<in> snd ` set (mg_name2coll c). h < mg_next c)"

text \<open>A piece of work on an attached client: the cache stays consistent, no handle is destroyed, and every
  call that names a collection names one that exists.\<close>

definition work_ok :: "mongo_client \<Rightarrow> mongo_client \<Rightarrow> bool" where
  "work_ok c c' \<longleftrightarrow> (coll_ok c \<longrightarrow> coll_ok c' \<and> set (mg_live c) \<subseteq> set (mg_live c') \<and>
     (\<exists>new. mg_calls c' = mg_calls c @ new \<and> set (concat (map call_coll new)) \<subseteq> set (mg_live c')))"

lemma work_refl [intro]: "work_ok c c"
  by (simp add: work_ok_def)

lemma work_trans [trans]:
  assumes "work_ok c c1" and "work_ok c1 c2"
  shows "work_ok c c2"
  unfolding work_ok_def
proof
  assume "coll_ok c"
  with assms obtain n1 n2 where "coll_ok c2" "set (mg_live c) \<subseteq> set (mg_live c1)" "set (mg_live c1) \<subseteq> set (mg_live c2)"
    "mg_calls c1 = mg_calls c @ n1" "mg_calls c2 = mg_calls c1 @ n2"
    "set (concat (map call_coll n1)) \<subseteq> set (mg_live c1)" "set (concat (map call_coll n2)) \<subseteq> set (mg_live c2)"
    unfolding work_ok_def by blast
  then show "coll_ok c2 \<and> set (mg_live c) \<subseteq> set (mg_live c2) \<and>
      (\<exists>new. mg_calls c2 = mg_calls c @ new \<and> set (concat (map call_coll new)) \<subseteq> set (mg_live c2))"
    by (intro conjI exI [of _ "n1 @ n2"]) auto
qed

lemma coll_ok_calls [simp]: "coll_ok (c\<lparr>mg_calls := x\<rparr>) = coll_ok c"
  and coll_ok_links [simp]: "coll_ok (c\<lparr>mg_client := a, mg_database := b\<rparr>) = coll_ok c"
  by (simp_all add: coll_ok_def)

lemma work_lib: "set (call_coll call) \<subseteq> set (mg_live c) \<Longrightarrow> lib_call ans call c = (a, c') \<Longrightarrow> work_ok c c'"
  by (auto simp: work_ok_def lib_call_def)

lemma work_rc: "set (call_coll call) \<subseteq> set (mg_live c) \<Longrightarrow> rc_call ans call c = (rc, c') \<Longrightarrow> work_ok c c'"
  by (auto simp: rc_call_def split: prod.splits intro: work_lib)

lemma work_plain: "rc_call ans call c = (rc, c') \<Longrightarrow> call_coll call = [] \<Longrightarrow> work_ok c c'"
  using work_rc [of call c ans rc c'] by simp

lemma coll_ok_add:
  assumes "coll_ok c" and "n \<notin> fst ` set (mg_name2coll c)"
  shows "coll_ok (c\<lparr>mg_name2coll := (n, mg_next c) # mg_name2coll c, mg_live := mg_live c @ [mg_next c], mg_next := Suc (mg_next c)\<rparr>)"
proof -
  have "mg_next c \<notin> snd ` set (mg_name2coll c)" using assms(1) unfolding coll_ok_def by blast
  with assms show ?thesis unfolding coll_ok_def by (simp add: less_Suc_eq)
qed

lemma work_get:
  assumes "getCollection n c = (h, c')"
  shows "work_ok c c' \<and> (coll_ok c \<longrightarrow> h \<in> set (mg_live c'))"
proof (cases "map_of (mg_name2coll c) n")
  case None
  with assms show ?thesis
    by (auto simp: getCollection_def work_ok_def map_of_eq_None_iff coll_ok_add intro!: exI [of _ "[]"])
next
  case (Some h')
  then have "h' \<in> snd ` set (mg_name2coll c)" by (force dest: map_of_SomeD)
  with Some assms show ?thesis by (auto simp: getCollection_def coll_ok_def)
qed

lemma work_unless: "(coll_ok c \<Longrightarrow> work_ok c c') \<Longrightarrow> work_ok c c'"
  by (auto simp: work_ok_def)

lemma work_coll:
  assumes "(case getCollection n c of (coll, c1) \<Rightarrow> rc_call ans (f coll) c1) = (rc, c')" and "\<And>h. call_coll (f h) = [h]"
  shows "work_ok c c'"
proof (rule work_unless)
  assume ok: "coll_ok c"
  obtain h c1 where g: "getCollection n c = (h, c1)" by (cases "getCollection n c")
  with assms have "rc_call ans (f h) c1 = (rc, c')" by simp
  with work_get [OF g] ok assms(2) show "work_ok c c'" by (metis work_rc work_trans empty_subsetI insert_subset list.simps(15) set_empty)
qed

lemma work_coll':
  "getCollection n c = (h, c1) \<Longrightarrow> rc_call ans call c1 = (rc, c') \<Longrightarrow> call_coll call = [h] \<Longrightarrow> work_ok c c'"
  by (rule work_coll [where n = n and ans = ans and f = "\<lambda>h'. if h' = h then call else DropCollection h'" and rc = rc]) auto

lemma work_op: "transaction_op ans q c = (rc, c') \<Longrightarrow> work_ok c c'"
  unfolding transaction_op_def client_ops Let_def by (auto elim!: work_coll split: if_split_asm)

lemma work_proc: "transaction_proc ans qs c = (ok, c') \<Longrightarrow> work_ok c c'"
  by (induction ans qs c rule: transaction_proc.induct) (auto split: prod.splits if_splits intro: work_trans work_op)

lemma work_inserts: "bulk_inserts ans ds opts c = (rc, c') \<Longrightarrow> work_ok c c'"
  by (induction ans ds opts c rule: bulk_inserts.induct) (auto split: prod.splits if_splits elim: work_plain intro: work_trans [OF work_plain])

lemma work_bulk_op: "bulk_op ans q c = (rc, c') \<Longrightarrow> work_ok c c'"
  unfolding bulk_op_def Let_def by (auto split: if_splits intro: work_inserts elim: work_plain)

lemma work_bulk_ops: "bulk_ops ans qs c = (rc, c') \<Longrightarrow> work_ok c c'"
  by (induction ans qs c rule: bulk_ops.induct) (auto split: prod.splits if_splits intro: work_trans work_bulk_op)

lemma work_bulk: "mongo_bulkExecute ans q rest c = (rc, c') \<Longrightarrow> work_ok c c'"
proof (rule work_unless)
  assume x: "mongo_bulkExecute ans q rest c = (rc, c')" and ok: "coll_ok c"
  let ?n = "c_str (gq_collName q)"
  obtain h c0 where g: "getCollection ?n c = (h, c0)" by (cases "getCollection ?n c")
  define c1 where "c1 = snd (lib_call ans (CreateBulk h (gq_opts q)) c0)"
  have w1: "work_ok c c1" using work_get [OF g] ok work_lib [of "CreateBulk h (gq_opts q)" c0 ans]
    by (metis c1_def call_coll.simps(10) empty_subsetI insert_subset list.simps(15) prod.collapse set_empty work_trans)
  obtain rc2 c2 where b: "bulk_ops ans rest c1 = (rc2, c2)" by (cases "bulk_ops ans rest c1")
  have w2: "work_ok c c2" using w1 work_bulk_ops [OF b] work_trans by blast
  obtain rc3 c3 where e: "rc_call ans BulkExecute c2 = (rc3, c3)" by (cases "rc_call ans BulkExecute c2")
  have w3: "work_ok c c3" using work_trans [OF w2 work_plain [OF e]] by simp
  have w4: "work_ok d (snd (lib_call ans DestroyBulk d))" for d
    using work_lib [of DestroyBulk d ans] by (cases "lib_call ans DestroyBulk d") simp
  show "work_ok c c'"
    using x g b e w1 work_trans [OF w2 w4] work_trans [OF w3 w4]
    by (auto simp: mongo_bulkExecute_def createBulk_def destroyBulk_def c1_def split: prod.splits if_splits)
qed

lemma work_transaction: "clt_execTransaction ans (transaction_proc ans qs) c = (rc, c') \<Longrightarrow> work_ok c c'"
proof -
  assume x: "clt_execTransaction ans (transaction_proc ans qs) c = (rc, c')"
  have l: "work_ok d (snd (lib_call ans call d))" if "call_coll call = []" for call d
    using work_lib [of call d ans] that by (metis empty_subsetI prod.collapse set_empty)
  have r: "work_ok d (snd (rc_call ans call d))" if "call_coll call = []" for call d
    using work_plain [of ans call d] that by (metis prod.collapse)
  define c1 where "c1 = snd (lib_call ans StartSession c)"
  define c2 where "c2 = snd (rc_call ans StartTransaction c1)"
  define c3 where "c3 = snd (transaction_proc ans qs c2)"
  define c4 where "c4 = snd (rc_call ans CommitTransaction c3)"
  have w1: "work_ok c c1" unfolding c1_def by (rule l) simp
  have w2: "work_ok c c2" unfolding c2_def by (rule work_trans [OF w1 r]) simp
  have w3: "work_ok c c3" using work_trans [OF w2 work_proc [of ans qs c2]] unfolding c3_def by (metis prod.collapse)
  have w4: "work_ok c c4" unfolding c4_def by (rule work_trans [OF w3 r]) simp
  have e: "work_ok c d \<Longrightarrow> work_ok c (snd (lib_call ans DestroySession d))" for d by (erule work_trans) (rule l, simp)
  have a: "work_ok c d \<Longrightarrow> work_ok c (snd (rc_call ans AbortTransaction d))" for d by (erule work_trans) (rule r, simp)
  show "work_ok c c'"
    using x w1 e [OF w2] e [OF w4] e [OF a [OF w3]] e [OF a [OF w4]]
    by (auto simp: clt_execTransaction_def c1_def c2_def c3_def c4_def split: prod.splits if_splits)
qed

lemma work_find: "clt_find ans n query docs opts c = (rc, ds, c') \<Longrightarrow> work_ok c c'"
proof (rule work_unless)
  assume x: "clt_find ans n query docs opts c = (rc, ds, c')" and ok: "coll_ok c"
  obtain h c0 where g: "getCollection n c = (h, c0)" by (cases "getCollection n c")
  have "work_ok c (snd (lib_call ans (Find h query opts) c0))"
    using work_get [OF g] ok work_lib [of "Find h query opts" c0 ans]
    by (metis call_coll.simps(4) empty_subsetI insert_subset list.simps(15) prod.collapse set_empty work_trans)
  with x g show "work_ok c c'" by (auto simp: clt_find_def split: prod.splits if_splits)
qed

lemma work_request: "mongo_handleRequest ans q rest c = (resp, c') \<Longrightarrow> work_ok c c'"
  unfolding mongo_handleRequest_def client_ops Let_def
  by (auto split: if_split_asm prod.splits elim: work_coll' work_plain intro: work_find work_bulk work_transaction)

lemma handleRequest_reply: "gr_reply (fst (mongo_handleRequest ans q rest c)) = None \<and> gr_req_id (fst (mongo_handleRequest ans q rest c)) = gq_req_id q"
  by (simp add: mongo_handleRequest_def mongo_client_resp_new_def Let_def case_prod_beta)

text \<open>
  One turn of a worker with an attached client neither leaks nor misuses collection handles: whatever the
  request is and whatever the driver answers, every call of the turn that names a collection names one that
  still exists when the turn ends, and detaching destroys every collection that was created; the client is
  then ready for the next turn.
\<close>
theorem mongo_collections_released:
  assumes "coll_ok c" and "mongo_attach got c = (rc, c1)" and "mongo_handleRequest ans q rest c1 = (resp, c2)"
  shows "\<exists>new. mg_calls c2 = mg_calls c @ new \<and> set (concat (map call_coll new)) \<subseteq> set (mg_live c2) \<and>
    mg_live (mongo_detach c2) = [] \<and> mg_name2coll (mongo_detach c2) = [] \<and> coll_ok (mongo_detach c2) \<and>
    \<not> mg_client (mongo_detach c2) \<and> \<not> mg_database (mongo_detach c2)"
proof -
  have c1: "coll_ok c1" "mg_calls c1 = mg_calls c"
    using assms(1,2) by (auto simp: mongo_attach_def mongo_open_def Let_def split: if_splits)
  then obtain new where "coll_ok c2" "mg_calls c2 = mg_calls c @ new" "set (concat (map call_coll new)) \<subseteq> set (mg_live c2)"
    using work_request [OF assms(3)] by (auto simp: work_ok_def)
  moreover from this(1) have "mg_live (mongo_detach c2) = []"
    unfolding coll_ok_def mongo_detach_def mongo_close_def clearCachedCollections_def by (simp add: filter_empty_conv)
  ultimately show ?thesis
    by (intro exI [of _ new]) (simp add: mongo_detach_def mongo_close_def clearCachedCollections_def coll_ok_def)
qed

theorem mongo_collections_released_witness:
  "\<exists>ans c1 resp c2. mongo_attach True (mongo_client_new 0) = (0, c1) \<and>
    mongo_handleRequest ans (hd (newInsertOne 0 (lit ''a'') (Some [1]) None)) [] c1 = (resp, c2) \<and>
    mg_live c2 = [0] \<and> mg_live (mongo_detach c2) = []"
proof -
  let ?ans = "\<lambda>k. \<lparr>an_ok = True, an_docs = [], an_cursor_err = False\<rparr>"
  let ?q = "hd (newInsertOne 0 (lit ''a'') (Some [1]) None)"
  obtain c1 where a: "mongo_attach True (mongo_client_new 0) = (0, c1)"
    by (simp add: mongo_attach_def mongo_open_def mongo_client_new_def)
  obtain resp c2 where h: "mongo_handleRequest ?ans ?q [] c1 = (resp, c2)" by (cases "mongo_handleRequest ?ans ?q [] c1")
  have "mg_live c2 = [0]" using a h
    by (auto simp: mongo_attach_def mongo_open_def mongo_client_new_def mongo_handleRequest_def newInsertOne_def mongo_client_req_new_def
        clt_insertOne_def getCollection_def rc_call_def lib_call_def Let_def insertOne_def dropDatabase_def dropCollection_def)
  moreover have "coll_ok (mongo_client_new 0)" by (simp add: coll_ok_def mongo_client_new_def)
  ultimately show ?thesis using mongo_collections_released [OF _ a h] a h by blast
qed

end
