(* ===== verification/MongoPool.thy ===== *)
theory MongoPool
  imports MongoClient
begin

text \<open>
  \<^verbatim>\<open>mongo_client_pool\<close> of \<^verbatim>\<open>src/wjp/mongo_client.hpp\<close>.  Its queue, its table of clients and its retries are
  those of \<open>DbPool\<close>; its workers differ: a client is a shell that is attached to a connection of the driver's
  own pool for one request.  A queued request is its first node with the nodes appended to it.  The sequence
  number of a client counts the clients made before it, as does its address in the model.
\<close>

type_synonym mongo_request = "mongo_client_req \<times> mongo_client_req list"

datatype mongo_pc =
    MPop | MRaw mongo_request | MGet mongo_request | MHave mongo_request nat | MMark nat "mongo_request option"
  | MFail mongo_request | MExit

text \<open>What the driver does in a step: whether its pool has a connection, whether the database handle can be had,
  and its answers to the calls of the request.\<close>

record mongo_pool_env =
  mp_try_pop :: bool
  mp_attach :: bool
  mp_ans :: mongo_world

type_synonym mongo_client_pool = "(mongo_request, mongo_client_resp, mongo_client, mongo_pc) client_pool"

definition mongo_pool_ops :: "(mongo_request, mongo_client_resp, mongo_client, mongo_pool_env) pool_ops" where
  "mongo_pool_ops =
    \<lparr>q_id = (\<lambda>(q, _). gq_req_id q), q_set_id = (\<lambda>i (q, rest). (q\<lparr>gq_req_id := i\<rparr>, rest)), q_retry = (\<lambda>(q, _). gq_retry_times q),
     q_set_retry = (\<lambda>n (q, rest). (q\<lparr>gq_retry_times := n\<rparr>, rest)), r_id = gr_req_id, c_new = mongo_client_new 0,
     c_open = (\<lambda>e c. mongo_attach (mp_attach e) c), c_connState = mg_client,
     c_handle = (\<lambda>e (q, rest) c. mongo_handleRequest (mp_ans e) q rest c), q_failure = (\<lambda>(q, _). mongo_retryFailure q)\<rparr>"

record mongo_init_env =
  mi_uri :: bool
  mi_pool :: bool
  mi_api :: bool

definition mongo_initPool :: "mongo_init_env \<Rightarrow> int \<Rightarrow> mongo_client_pool \<Rightarrow> int \<times> mongo_client_pool" where
  "mongo_initPool e poolSize p =
    (if \<not> mi_uri e then -1 else if \<not> mi_pool e then -2 else if \<not> mi_api e then -3 else 0, p\<lparr>cp_poolSize := poolSize\<rparr>)"

definition mongo_start :: "mongo_init_env \<Rightarrow> int \<Rightarrow> mongo_client_pool \<Rightarrow> int \<times> mongo_client_pool" where
  "mongo_start e poolSize p =
    (let n = min (max poolSize 1) 16 in
     case mongo_initPool e n p of (rc, p1) \<Rightarrow>
       if rc \<noteq> 0 then (rc, p1) else (0, p1\<lparr>cp_workers := cp_workers p1 @ replicate (nat n) MPop\<rparr>))"

definition mongo_getIdleClient :: "mongo_client_pool \<Rightarrow> nat option \<times> mongo_client_pool" where
  "mongo_getIdleClient p =
    (case take_idle (cp_clt2idle p) of
       Some (clt, l) \<Rightarrow> (Some clt, p\<lparr>cp_clt2idle := l\<rparr>)
     | None \<Rightarrow>
         if int (length (cp_clt2idle p)) < cp_poolSize p then
           (let dbClt = cp_nextObj p in
            (Some dbClt, p\<lparr>cp_clt2idle := cp_clt2idle p @ [(dbClt, False)],
               cp_objs := (cp_objs p)(dbClt \<mapsto> mongo_client_new (int dbClt)), cp_nextObj := Suc dbClt\<rparr>))
         else (None, p))"

text \<open>Attaching, handling the request and detaching happen outside of every mutex.\<close>

definition mongo_serve :: "mongo_pool_env \<Rightarrow> mongo_request \<Rightarrow> mongo_client \<Rightarrow> mongo_client_resp option \<times> mongo_client" where
  "mongo_serve e req c =
    (case mongo_attach (mp_attach e) c of (rc, c1) \<Rightarrow>
       if rc = 0 then (case mongo_handleRequest (mp_ans e) (fst req) (snd req) c1 of (resp, c2) \<Rightarrow> (Some resp, mongo_detach c2))
       else (None, c1))"

definition mongo_worker_step :: "mongo_pool_env \<Rightarrow> nat \<Rightarrow> mongo_client_pool \<Rightarrow> mongo_client_pool" where
  "mongo_worker_step e i p =
    (case cp_workers p ! i of
       MPop \<Rightarrow>
         (case sq_pop_timeout_cv (cp_queue p) of
            (SQ_POP_SUCCESS, Some req, queue) \<Rightarrow> set_pc i (MRaw req) (p\<lparr>cp_queue := queue\<rparr>)
          | (SQ_EXIT, _, _) \<Rightarrow> set_pc i MExit p
          | _ \<Rightarrow> p)
     | MRaw req \<Rightarrow> set_pc i (if mp_try_pop e then MGet req else MFail req) p
     | MGet req \<Rightarrow>
         (case mongo_getIdleClient p of
            (Some clt, p') \<Rightarrow> set_pc i (MHave req clt) p'
          | (None, p') \<Rightarrow> set_pc i (MFail req) p')
     | MHave req clt \<Rightarrow>
         (case mongo_serve e req (the (cp_objs p clt)) of
            (Some resp, c) \<Rightarrow> set_pc i (MMark clt None) (p\<lparr>cp_objs := (cp_objs p)(clt \<mapsto> c), cp_responses := cp_responses p @ [(req, resp)]\<rparr>)
          | (None, c) \<Rightarrow> set_pc i (MMark clt (Some req)) (p\<lparr>cp_objs := (cp_objs p)(clt \<mapsto> c)\<rparr>))
     | MMark clt unhandled \<Rightarrow>
         set_pc i (case unhandled of None \<Rightarrow> MPop | Some req \<Rightarrow> MFail req) (markClientIdle clt p)
     | MFail req \<Rightarrow> set_pc i MPop (retry_request mongo_pool_ops req p)
     | MExit \<Rightarrow> p)"

definition mongo_serveUtilStop :: "mongo_client_pool \<Rightarrow> mongo_client_pool option" where
  "mongo_serveUtilStop p =
    (if list_all (\<lambda>w. w = MExit) (cp_workers p) then
       Some (p\<lparr>cp_workers := [], cp_queue := sq_clear (cp_queue p), cp_clt2idle := [],
         cp_objs := (\<lambda>c. if c \<in> fst ` set (cp_clt2idle p) then None else cp_objs p c)\<rparr>)
     else None)"

section \<open>The workers satisfy the contract\<close>

fun mongo_flight :: "mongo_pc \<Rightarrow> mongo_request list" where
  "mongo_flight (MRaw q) = [q]"
| "mongo_flight (MGet q) = [q]"
| "mongo_flight (MHave q _) = [q]"
| "mongo_flight (MMark _ (Some q)) = [q]"
| "mongo_flight (MFail q) = [q]"
| "mongo_flight _ = []"

fun mongo_held :: "mongo_pc \<Rightarrow> nat list" where
  "mongo_held (MHave _ c) = [c]"
| "mongo_held (MMark c _) = [c]"
| "mongo_held _ = []"

fun mongo_weight :: "mongo_pc \<Rightarrow> nat" where
  "mongo_weight (MRaw q) = 8 * nat (3 - gq_retry_times (fst q)) + 7"
| "mongo_weight (MGet q) = 8 * nat (3 - gq_retry_times (fst q)) + 6"
| "mongo_weight (MHave q _) = 8 * nat (3 - gq_retry_times (fst q)) + 5"
| "mongo_weight (MMark _ (Some q)) = 8 * nat (3 - gq_retry_times (fst q)) + 4"
| "mongo_weight (MMark _ None) = 1"
| "mongo_weight (MFail q) = 8 * nat (3 - gq_retry_times (fst q)) + 2"
| "mongo_weight _ = 0"

lemma mongo_sel [simp]:
  "q_id mongo_pool_ops = gq_req_id \<circ> fst" "q_retry mongo_pool_ops = gq_retry_times \<circ> fst" "r_id mongo_pool_ops = gr_req_id"
  "q_set_id mongo_pool_ops x q = ((fst q)\<lparr>gq_req_id := x\<rparr>, snd q)" "q_set_retry mongo_pool_ops k q = ((fst q)\<lparr>gq_retry_times := k\<rparr>, snd q)"
  "q_failure mongo_pool_ops q = mongo_retryFailure (fst q)"
  by (auto simp: mongo_pool_ops_def fun_eq_iff case_prod_beta)

lemma mongo_serve_id: "mongo_serve e q c = (Some r, c') \<Longrightarrow> gr_req_id r = gq_req_id (fst q)"
  using handleRequest_reply by (auto simp: mongo_serve_def split: prod.splits if_splits) (metis fst_conv)

lemma mongo_frame:
  "cp_reqId (mongo_worker_step e i p) = cp_reqId p \<and> cp_poolSize (mongo_worker_step e i p) = cp_poolSize p \<and>
   length (cp_workers (mongo_worker_step e i p)) = length (cp_workers p) \<and>
   sq_exit (cp_queue (mongo_worker_step e i p)) = sq_exit (cp_queue p)"
  by (auto simp: mongo_worker_step_def set_pc_def sq_pop_timeout_cv_def Let_def mongo_getIdleClient_def
      markClientIdle_def retry_request_def sq_requeue_def split: mongo_pc.splits option.splits prod.splits)

lemma mongo_table:
  assumes "int (length (cp_clt2idle p)) \<le> cp_poolSize p"
  shows "int (length (cp_clt2idle (mongo_worker_step e i p))) \<le> cp_poolSize p"
proof (cases "cp_workers p ! i")
  case (MGet q)
  with assms show ?thesis
    by (auto simp: mongo_worker_step_def mongo_getIdleClient_def Let_def set_pc_def dest: take_idle_length split: option.splits)
qed (use assms in \<open>auto simp: mongo_worker_step_def set_pc_def sq_pop_timeout_cv_def Let_def markClientIdle_def retry_request_def
    split: option.splits prod.splits\<close>)

lemma mongo_stays:
  "\<not> sq_exit (cp_queue p) \<Longrightarrow> MExit \<notin> set (cp_workers p) \<Longrightarrow> MExit \<notin> set (cp_workers (mongo_worker_step e i p))"
  by (auto simp: mongo_worker_step_def set_pc_def sq_pop_timeout_cv_def mongo_getIdleClient_def markClientIdle_def retry_request_def Let_def
      split: mongo_pc.splits option.splits prod.splits if_splits dest!: set_update_subset_insert [THEN subsetD])

lemma mongo_effect:
  assumes i: "i < length (cp_workers p)"
  shows "effect mongo_pool_ops mongo_flight p (pops_now MPop i p) (mongo_worker_step e i p)"
proof -
  obtain as bs where w: "cp_workers p = as @ cp_workers p ! i # bs" "\<And>w. (cp_workers p)[i := w] = as @ w # bs"
    using worker_split [OF i] by blast
  let ?F = "mset (concat (map mongo_flight as)) + mset (concat (map mongo_flight bs))"
  have t: "mset (flight mongo_flight p) = mset (mongo_flight (cp_workers p ! i)) + ?F"
    by (subst w(1)) (simp add: ac_simps)
  show ?thesis
  proof (cases "cp_workers p ! i")
    case MPop
    show ?thesis
    proof (cases "pops_now MPop i p")
      case True
      then obtain q qs where "sq_queue (cp_queue p) = q # qs" by (auto simp: pops_now_def neq_Nil_conv)
      with True MPop t show ?thesis
        by (intro ef_pop [where q = q, THEN back_subst [of "\<lambda>b. effect mongo_pool_ops mongo_flight p b _"]])
          (auto simp: mongo_worker_step_def pops_now_def sq_pop_timeout_cv_def set_pc_def w(2))
    next
      case False
      with MPop t show ?thesis
        by (auto simp: mongo_worker_step_def pops_now_def sq_pop_timeout_cv_def set_pc_def w(2) intro!: ef_none)
    qed
  next
    case (MRaw q)
    with t show ?thesis by (auto simp: mongo_worker_step_def pops_now_def set_pc_def w(2) intro!: ef_none)
  next
    case (MGet q)
    with t show ?thesis
      by (auto simp: mongo_worker_step_def pops_now_def mongo_getIdleClient_def Let_def set_pc_def w(2) split: option.splits intro!: ef_none)
  next
    case (MHave q c)
    with t show ?thesis
      by (auto simp: mongo_worker_step_def pops_now_def set_pc_def w(2) mongo_serve_id split: prod.splits option.splits
          intro: ef_none ef_answer [where q = q])
  next
    case (MMark c r)
    with t show ?thesis
      by (cases r) (auto simp: mongo_worker_step_def pops_now_def markClientIdle_def set_pc_def w(2) intro!: ef_none)
  next
    case (MFail q)
    with t show ?thesis
      by (auto simp: mongo_worker_step_def pops_now_def retry_request_def sq_requeue_def set_pc_def w(2) mongo_retryFailure_def
          mongo_client_resp_new_def intro: ef_answer [where q = q] ef_requeue [where q = q])
  next
    case MExit
    with t show ?thesis by (auto simp: mongo_worker_step_def pops_now_def intro!: ef_none)
  qed
qed

lemma mongo_clients:
  assumes i: "i < length (cp_workers p)" and ok: "clients_ok (\<lambda>_. True) mongo_held p"
  shows "clients_ok (\<lambda>_. True) mongo_held (mongo_worker_step e i p)"
proof -
  obtain as bs where w: "cp_workers p = as @ cp_workers p ! i # bs" "\<And>w. (cp_workers p)[i := w] = as @ w # bs"
    using worker_split [OF i] by blast
  let ?H = "mset (concat (map mongo_held as)) + mset (concat (map mongo_held bs))"
  have t: "table_ok (\<lambda>_. True) (cp_clt2idle p) (cp_objs p) (cp_nextObj p) (mset (mongo_held (cp_workers p ! i)) + ?H)"
    using ok unfolding clients_ok_def by (subst (asm) w(1)) (simp add: ac_simps)
  show ?thesis
  proof (cases "cp_workers p ! i")
    case MPop
    with t ok show ?thesis
      by (auto simp: mongo_worker_step_def sq_pop_timeout_cv_def set_pc_def clients_ok_def w(2))
  next
    case (MGet q)
    with t show ?thesis
      by (auto simp: mongo_worker_step_def mongo_getIdleClient_def Let_def set_pc_def clients_ok_def w(2)
          split: option.splits intro: table_take table_new)
  next
    case (MHave q c)
    with t table_update [OF t, of c] show ?thesis
      by (auto simp: mongo_worker_step_def set_pc_def clients_ok_def w(2) split: prod.splits option.splits)
  next
    case (MMark c r)
    with t table_mark [OF t, of c] show ?thesis
      by (cases r) (auto simp: mongo_worker_step_def markClientIdle_def set_pc_def clients_ok_def w(2))
  qed (use t ok in \<open>auto simp: mongo_worker_step_def retry_request_def set_pc_def clients_ok_def w(2)\<close>)
qed

lemma mongo_work_decreases:
  assumes r: "runnable MPop MExit p i" and x: "\<not> sq_exit (cp_queue p)" and ok: "list_all (retry_ok mongo_pool_ops) (sq_queue (cp_queue p))"
  shows "work mongo_pool_ops mongo_weight (mongo_worker_step e i p) < work mongo_pool_ops mongo_weight p"
proof -
  have i: "i < length (cp_workers p)" using r by (simp add: runnable_def)
  obtain as bs where w: "cp_workers p = as @ cp_workers p ! i # bs" "\<And>w. (cp_workers p)[i := w] = as @ w # bs"
    using worker_split [OF i] by blast
  let ?W = "sum_list (map mongo_weight as) + sum_list (map mongo_weight bs)"
  have t: "work mongo_pool_ops mongo_weight p = 8 * budget mongo_pool_ops 4 (sq_queue (cp_queue p)) + mongo_weight (cp_workers p ! i) + ?W"
    unfolding work_def by (subst w(1)) simp
  show ?thesis
  proof (cases "cp_workers p ! i")
    case MPop
    then obtain q qs where "sq_queue (cp_queue p) = q # qs" using r by (auto simp: runnable_def neq_Nil_conv)
    with MPop t x ok show ?thesis
      by (auto simp: mongo_worker_step_def sq_pop_timeout_cv_def set_pc_def work_def w(2) retry_ok_def MaxRetryTimes_def)
  next
    case (MGet q)
    with t show ?thesis
      by (auto simp: mongo_worker_step_def mongo_getIdleClient_def Let_def set_pc_def work_def w(2) split: option.splits)
  next
    case (MHave q c)
    with t show ?thesis by (auto simp: mongo_worker_step_def set_pc_def work_def w(2) split: prod.splits option.splits)
  next
    case (MMark c r)
    with t show ?thesis by (cases r) (auto simp: mongo_worker_step_def markClientIdle_def set_pc_def work_def w(2))
  next
    case (MFail q)
    with t show ?thesis
      by (auto simp: mongo_worker_step_def retry_request_def sq_requeue_def set_pc_def work_def w(2) MaxRetryTimes_def)
  qed (use r t in \<open>auto simp: runnable_def mongo_worker_step_def set_pc_def work_def w(2)\<close>)
qed

abbreviation all_ok :: mongo_init_env where
  "all_ok \<equiv> \<lparr>mi_uri = True, mi_pool = True, mi_api = True\<rparr>"

interpretation mongo_pool: worker_pool mongo_pool_ops mongo_worker_step MPop MExit mongo_flight mongo_held mongo_weight "\<lambda>_. True"
    "snd (mongo_start all_ok psz pool_new)" "pool_workers psz" for psz
proof unfold_locales
  show "snd (mongo_start all_ok psz pool_new) = pool_new\<lparr>cp_poolSize := int (pool_workers psz), cp_workers := replicate (pool_workers psz) MPop\<rparr>"
    by (simp add: mongo_start_def mongo_initPool_def pool_workers_def pool_new_def Let_def max_def min_def)
  show "0 < pool_workers psz" "pool_workers psz \<le> 16" by (auto simp: pool_workers_def)
  show "length (mongo_flight w) \<le> 1" for w by (cases w rule: mongo_flight.cases) auto
qed (use mongo_frame mongo_effect mongo_clients mongo_table mongo_stays mongo_work_decreases in auto)

abbreviation mongo_reach :: "int \<Rightarrow> mongo_client_pool \<Rightarrow> u64 list \<Rightarrow> nat \<Rightarrow> u64 list \<Rightarrow> bool" where
  "mongo_reach psz \<equiv> pool_reach mongo_pool_ops mongo_worker_step MPop (snd (mongo_start all_ok psz pool_new))"

text \<open>
  C34: Stopping a MongoDB pool: once \<^verbatim>\<open>serveUtilStop\<close> has joined the workers it deletes every client that exists and
  empties the queue, and the books balance: the accepted requests are those that were answered, once each,
  and those that were still in the queue, which are dropped without a response.
\<close>
theorem mongo_stop_accounts:
  assumes "mongo_reach psz p acc subs pops" and "mongo_serveUtilStop p = Some p'"
  shows "cp_objs p' = Map.empty \<and> sq_queue (cp_queue p') = [] \<and> cp_responses p' = cp_responses p \<and>
    mset (map (gr_req_id \<circ> snd) (cp_responses p')) + mset (map (gq_req_id \<circ> fst) (sq_queue (cp_queue p))) = mset acc"
proof -
  have e: "\<forall>w \<in> set (cp_workers p). w = MExit" and
    p': "p' = p\<lparr>cp_workers := [], cp_queue := sq_clear (cp_queue p), cp_clt2idle := [],
      cp_objs := (\<lambda>c. if c \<in> fst ` set (cp_clt2idle p) then None else cp_objs p c)\<rparr>"
    using assms(2) by (auto simp: mongo_serveUtilStop_def list_all_iff split: if_splits)
  note a = mongo_pool.stop_accounts [OF assms(1) e] and r = mongo_pool.response_ids [OF mongo_pool.answers_reach [OF assms(1)]]
  have "cp_objs p' = Map.empty" using a p' by (auto simp: fun_eq_iff)
  moreover have "mset (map (r_id mongo_pool_ops \<circ> snd) (cp_responses p)) + mset (map (q_id mongo_pool_ops) (sq_queue (cp_queue p))) = mset acc"
    unfolding r using a by blast
  ultimately show ?thesis using p' by (simp add: sq_clear_def)
qed

theorem mongo_stop_accounts_witness:
  "\<exists>p p'. mongo_reach 1 p [100] 1 [] \<and> mongo_serveUtilStop p = Some p' \<and> cp_responses p' = [] \<and>
    mset (map (gq_req_id \<circ> fst) (sq_queue (cp_queue p))) = {#100#}"
proof -
  let ?p0 = "snd (mongo_start all_ok 1 pool_new)" and ?q = "(hd (newDropDB 0), []) :: mongo_request"
  let ?p1 = "snd (pool_submit mongo_pool_ops ?q ?p0)"
  let ?e = "\<lparr>mp_try_pop = True, mp_attach = True, mp_ans = \<lambda>_. \<lparr>an_ok = True, an_docs = [], an_cursor_err = False\<rparr>\<rparr>"
  let ?p2 = "mongo_worker_step ?e 0 (pool_stop ?p1)"
  note defs = pool_submit_def mongo_start_def mongo_initPool_def pool_new_def sq_push_def sq_new_def sq_size_def mongo_worker_step_def set_pc_def
    sq_pop_timeout_cv_def MaxPendingReq_def MinReqId_def Let_def pool_stop_def sq_stop_def newDropDB_def mongo_client_req_new_def
  have "mongo_reach 1 ?p1 [100] 1 []"
    using pr_submit [OF pr_start, of mongo_pool_ops ?q ?p0 "fst (pool_submit mongo_pool_ops ?q ?p0)" ?p1 mongo_worker_step MPop]
    by (simp add: defs)
  then have "mongo_reach 1 (pool_stop ?p1) [100] 1 []" by (rule pr_stop)
  moreover have "0 < length (cp_workers (pool_stop ?p1))" "\<not> pops_now MPop 0 (pool_stop ?p1)" by (simp_all add: pops_now_def defs)
  ultimately have r: "mongo_reach 1 ?p2 [100] 1 []"
    using pr_worker [of mongo_pool_ops mongo_worker_step MPop ?p0 "pool_stop ?p1" "[100]" 1 "[]" 0 ?e] by simp
  obtain p' where s: "mongo_serveUtilStop ?p2 = Some p'" and n: "cp_responses p' = []"
    by (simp add: mongo_serveUtilStop_def defs)
  from mongo_stop_accounts [OF r s] n have "mset (map (gq_req_id \<circ> fst) (sq_queue (cp_queue ?p2))) = {#100#}" by simp
  then show ?thesis using r s n by (intro exI conjI)
qed

end
