(* ===== verification/DbProxy.thy ===== *)
theory DbProxy
  imports NetServer MysqlClient RedisClient MongoPool
begin

text \<open>
  The database proxies (\<^verbatim>\<open>src/lygc/dbproxy_base.hpp\<close>, \<^verbatim>\<open>dbproxy_mysql.hpp\<close>, \<^verbatim>\<open>dbproxy_redis.hpp\<close>,
  \<^verbatim>\<open>dbproxy_mongo.hpp\<close>) and the clients that talk to them (\<^verbatim>\<open>dbclient_mysql.hpp\<close>, \<^verbatim>\<open>dbclient_redis.hpp\<close>,
  \<^verbatim>\<open>dbclient_mongo.hpp\<close>).  A proxy has a worker pool and a store of pending requests per database slot.  The
  three proxies are one text with the names exchanged; \<open>'p\<close> is the type of their pools.

  Submitting a request and saving it as pending are two steps of one thread without a common lock;
  \<open>others\<close> is what the threads of the pool do to the proxy between them.
\<close>

definition MAX_DB_SLOTS :: nat where "MAX_DB_SLOTS = 64"

record PenddingReq =
  pq_user :: nat
  pq_header :: lymsg_header

type_synonym DBCltPoolCtx = "PenddingReq shards"

record 'p db_proxy =
  px_origin :: u16
  px_users :: "nat \<Rightarrow> tcpsock_user"
  px_alive :: "nat list"
  px_calls :: "poll_call list"
  px_poolCtx :: "DBCltPoolCtx option list"
  px_pools :: "'p option list"

definition db_proxy_new :: "u16 \<Rightarrow> (nat \<Rightarrow> tcpsock_user) \<Rightarrow> 'p db_proxy" where
  "db_proxy_new org users = \<lparr>px_origin = org, px_users = users, px_alive = [], px_calls = [],
     px_poolCtx = replicate MAX_DB_SLOTS None, px_pools = replicate MAX_DB_SLOTS None\<rparr>"

definition db_createResponse :: "lymsg_header \<Rightarrow> bytes \<Rightarrow> 'p db_proxy \<Rightarrow> tcp_message" where
  "db_createResponse reqHeader respData s =
    packMsg \<lparr>origin = px_origin s, reserve = 0, hdr_type = hdr_type reqHeader OR LYMSG_TYPE_RESP, serial = serial reqHeader,
      hdr_size = 0\<rparr> respData"

definition db_post :: "nat \<Rightarrow> tcp_message \<Rightarrow> 'p db_proxy \<Rightarrow> 'p db_proxy" where
  "db_post uid msg s =
    (case user_post msg (px_users s uid) of (rc, u, calls) \<Rightarrow>
       s\<lparr>px_users := (px_users s)(uid := u), px_calls := px_calls s @ calls\<rparr>)"

definition registerPoolCtx :: "u8 \<Rightarrow> DBCltPoolCtx \<Rightarrow> 'p db_proxy \<Rightarrow> 'p db_proxy" where
  "registerPoolCtx slot ctx s =
    (if unat slot \<ge> MAX_DB_SLOTS then s else s\<lparr>px_poolCtx := (px_poolCtx s)[unat slot := Some ctx]\<rparr>)"

definition db_savePenddingReq :: "u64 \<Rightarrow> lymsg_header \<Rightarrow> nat \<Rightarrow> u8 \<Rightarrow> 'p db_proxy \<Rightarrow> 'p db_proxy" where
  "db_savePenddingReq dbReqId reqHeader uid db_slot s =
    (if unat db_slot \<ge> MAX_DB_SLOTS then s
     else (case px_poolCtx s ! unat db_slot of
         None \<Rightarrow> s
       | Some ctx \<Rightarrow> s\<lparr>px_poolCtx := (px_poolCtx s)[unat db_slot :=
           Some (shard_insert dbReqId \<lparr>pq_user = uid, pq_header = copyHeader reqHeader\<rparr> ctx)]\<rparr>))"

definition onResponseBase :: "u64 \<Rightarrow> bytes \<Rightarrow> u8 \<Rightarrow> 'p db_proxy \<Rightarrow> 'p db_proxy" where
  "onResponseBase dbReqId respData db_slot s =
    (if unat db_slot \<ge> MAX_DB_SLOTS then s
     else (case px_poolCtx s ! unat db_slot of
         None \<Rightarrow> s
       | Some ctx \<Rightarrow>
           (case shard_take dbReqId ctx of (pendReq, ctx') \<Rightarrow>
              let s1 = s\<lparr>px_poolCtx := (px_poolCtx s)[unat db_slot := Some ctx']\<rparr> in
              case pendReq of
                None \<Rightarrow> s1
              | Some q \<Rightarrow> if pq_user q \<notin> set (px_alive s1) then s1
                  else db_post (pq_user q) (db_createResponse (pq_header q) respData s1) s1)))"

definition cleanupUserPending :: "nat \<Rightarrow> 'p db_proxy \<Rightarrow> 'p db_proxy" where
  "cleanupUserPending uid s =
    s\<lparr>px_poolCtx := map (map_option (shard_purge (\<lambda>q. pq_user q \<notin> set (px_alive s) \<or> pq_user q = uid))) (px_poolCtx s)\<rparr>"

definition db_onDisconnect :: "nat \<Rightarrow> 'p db_proxy \<Rightarrow> 'p db_proxy" where
  "db_onDisconnect uid s = cleanupUserPending uid s"

text \<open>\<^verbatim>\<open>serveUtilStop\<close> after the pools were stopped.\<close>

definition db_releaseContexts :: "'p db_proxy \<Rightarrow> 'p db_proxy" where
  "db_releaseContexts s = s\<lparr>px_poolCtx := replicate MAX_DB_SLOTS None\<rparr>"

section \<open>Submitting\<close>

definition proxy_submit ::
  "('p db_proxy \<Rightarrow> 'p db_proxy) \<Rightarrow> ('q \<Rightarrow> 'p \<Rightarrow> u64 \<times> 'p) \<Rightarrow> u8 \<Rightarrow> 'q \<Rightarrow> lymsg_header \<Rightarrow> nat \<Rightarrow> 'p db_proxy \<Rightarrow> 'p db_proxy" where
  "proxy_submit others psubmit slot req reqHeader uid s =
    (if unat slot \<ge> MAX_DB_SLOTS then s
     else (case px_pools s ! unat slot of
         None \<Rightarrow> s
       | Some pool \<Rightarrow>
           (case psubmit req pool of (dbReqId, pool') \<Rightarrow>
              let s1 = others (s\<lparr>px_pools := (px_pools s)[unat slot := Some pool']\<rparr>) in
              if dbReqId \<noteq> PoolIsBusy then db_savePenddingReq dbReqId reqHeader uid slot s1 else s1)))"

definition proxy_initPools :: "(int \<Rightarrow> 'p) \<Rightarrow> (u8 \<times> int) list \<Rightarrow> 'p db_proxy \<Rightarrow> 'p db_proxy" where
  "proxy_initPools started confs s =
    foldl (\<lambda>s (slot, pool_size). if unat slot \<ge> MAX_DB_SLOTS then s
      else registerPoolCtx slot shards_new (s\<lparr>px_pools := (px_pools s)[unat slot := Some (started pool_size)]\<rparr>)) s confs"

text \<open>The pools that are told to stop and then joined.\<close>

definition proxy_cleanupPools :: "'p db_proxy \<Rightarrow> 'p list \<times> 'p db_proxy" where
  "proxy_cleanupPools s = (map the (filter (\<lambda>x. x \<noteq> None) (px_pools s)), s\<lparr>px_pools := replicate MAX_DB_SLOTS None\<rparr>)"

section \<open>MySQL\<close>

type_synonym DBProxyMySQL = "mysql_client_pool db_proxy"

definition mysql_initPools :: "(u8 \<times> int) list \<Rightarrow> DBProxyMySQL \<Rightarrow> DBProxyMySQL" where
  "mysql_initPools confs s = proxy_initPools (\<lambda>n. snd (pool_start n pool_new)) confs s"

definition mysql_cleanupPools :: "DBProxyMySQL \<Rightarrow> mysql_client_pool list \<times> DBProxyMySQL" where
  "mysql_cleanupPools s = (case proxy_cleanupPools s of (ps, s') \<Rightarrow> (map pool_stop ps, s'))"

definition mysql_submit :: "(DBProxyMySQL \<Rightarrow> DBProxyMySQL) \<Rightarrow> mysql_client_req \<Rightarrow> lymsg_header \<Rightarrow> nat \<Rightarrow> DBProxyMySQL \<Rightarrow> DBProxyMySQL" where
  "mysql_submit others req reqHeader uid s = proxy_submit others (pool_submit mysql_pool_ops) (mq_db_slot req) req reqHeader uid s"

definition mysql_onResponse :: "mysql_client_req \<Rightarrow> mysql_client_resp \<Rightarrow> DBProxyMySQL \<Rightarrow> DBProxyMySQL" where
  "mysql_onResponse req resp s = onResponseBase (mq_req_id req) (mysql_resp_serialize resp) (mq_db_slot req) s"

text \<open>A step of a worker of the slot's pool: \<^verbatim>\<open>handleRequest\<close> and \<^verbatim>\<open>retryFailure\<close> hand each response to the proxy, which is the
  listener of its pools.\<close>

definition mysql_pool_step :: "mysql_pool_env \<Rightarrow> nat \<Rightarrow> u8 \<Rightarrow> DBProxyMySQL \<Rightarrow> DBProxyMySQL" where
  "mysql_pool_step e i slot s =
    (case px_pools s ! unat slot of
       None \<Rightarrow> s
     | Some pool \<Rightarrow>
         (let pool' = worker_step mysql_pool_ops e i pool in
          foldl (\<lambda>s (req, resp). mysql_onResponse req resp s) (s\<lparr>px_pools := (px_pools s)[unat slot := Some pool']\<rparr>)
            (drop (length (cp_responses pool)) (cp_responses pool'))))"

definition mysql_onRecvMsg :: "(DBProxyMySQL \<Rightarrow> DBProxyMySQL) \<Rightarrow> nat \<Rightarrow> tcp_message \<Rightarrow> DBProxyMySQL \<Rightarrow> DBProxyMySQL" where
  "mysql_onRecvMsg others uid msg s =
    (case unpackMsg (Some msg) null_header [] of (rc, reqHeader, reqData) \<Rightarrow>
       if rc \<noteq> 0 then s
       else if hdr_type reqHeader = LYMSG_TYPE_DB_MYSQL then mysql_submit others (mysql_req_deserialize reqData) reqHeader uid s
       else s)"

text \<open>\<^verbatim>\<open>DBClientMySQL::request\<close>; the handler that is registered decodes the response before it calls back.\<close>

definition mysql_request ::
  "lymsg_header \<Rightarrow> mysql_client_req \<Rightarrow> nat \<Rightarrow> net_client \<Rightarrow> async_client_manager \<Rightarrow> memerr + int \<times> net_client \<times> async_client_manager" where
  "mysql_request h req cb c m = net_request (Some (h\<lparr>hdr_type := LYMSG_TYPE_DB_MYSQL\<rparr>)) (mysql_req_serialize req) (Some cb) c m"

definition mysql_callback :: "nat option \<times> lymsg_header \<times> bytes \<Rightarrow> nat option \<times> lymsg_header \<times> mysql_client_resp" where
  "mysql_callback call = (case call of (cb, rh, rd) \<Rightarrow> (cb, rh, mysql_resp_deserialize rd))"

section \<open>Redis\<close>

type_synonym DBProxyRedis = "redis_client_pool db_proxy"

definition redis_initPools :: "(u8 \<times> int) list \<Rightarrow> DBProxyRedis \<Rightarrow> DBProxyRedis" where
  "redis_initPools confs s = proxy_initPools (\<lambda>n. snd (redis_pool_start n pool_new)) confs s"

definition redis_cleanupPools :: "DBProxyRedis \<Rightarrow> redis_client_pool list \<times> DBProxyRedis" where
  "redis_cleanupPools s = (case proxy_cleanupPools s of (ps, s') \<Rightarrow> (map redis_pool_stop ps, s'))"

definition redis_submit ::
  "float_ops \<Rightarrow> bytes \<Rightarrow> (DBProxyRedis \<Rightarrow> DBProxyRedis) \<Rightarrow> redis_client_req \<Rightarrow> lymsg_header \<Rightarrow> nat \<Rightarrow> DBProxyRedis \<Rightarrow> DBProxyRedis" where
  "redis_submit fo auth_str others req reqHeader uid s =
    proxy_submit others (redis_pool_submit fo auth_str) (rdq_db_slot req) req reqHeader uid s"

definition redis_onResponse :: "redis_client_req \<Rightarrow> redis_client_resp \<Rightarrow> DBProxyRedis \<Rightarrow> DBProxyRedis" where
  "redis_onResponse req resp s = onResponseBase (rdq_req_id req) (redis_resp_serialize resp) (rdq_db_slot req) s"

definition redis_onRecvMsg :: "float_ops \<Rightarrow> bytes \<Rightarrow> (DBProxyRedis \<Rightarrow> DBProxyRedis) \<Rightarrow> nat \<Rightarrow> tcp_message \<Rightarrow> DBProxyRedis \<Rightarrow> DBProxyRedis" where
  "redis_onRecvMsg fo auth_str others uid msg s =
    (case unpackMsg (Some msg) null_header [] of (rc, reqHeader, reqData) \<Rightarrow>
       if rc \<noteq> 0 then s
       else if hdr_type reqHeader = LYMSG_TYPE_DB_REDIS then redis_submit fo auth_str others (redis_req_deserialize reqData) reqHeader uid s
       else s)"

definition redis_request ::
  "lymsg_header \<Rightarrow> redis_client_req \<Rightarrow> nat \<Rightarrow> net_client \<Rightarrow> async_client_manager \<Rightarrow> memerr + int \<times> net_client \<times> async_client_manager" where
  "redis_request h req cb c m = net_request (Some (h\<lparr>hdr_type := LYMSG_TYPE_DB_REDIS\<rparr>)) (redis_req_serialize req) (Some cb) c m"

definition redis_callback :: "nat option \<times> lymsg_header \<times> bytes \<Rightarrow> nat option \<times> lymsg_header \<times> redis_client_resp" where
  "redis_callback call = (case call of (cb, rh, rd) \<Rightarrow> (cb, rh, redis_resp_deserialize rd))"

section \<open>Mongo\<close>

text \<open>A decoded request is never empty: its first node carries the slot and the identifier.\<close>

type_synonym DBProxyMongo = "MongoPool.mongo_client_pool db_proxy"

definition mongo_initPools :: "(u8 \<times> int \<times> mongo_init_env) list \<Rightarrow> DBProxyMongo \<Rightarrow> DBProxyMongo" where
  "mongo_initPools confs s =
    foldl (\<lambda>s (slot, pool_size, e). if unat slot \<ge> MAX_DB_SLOTS then s
      else registerPoolCtx slot shards_new
        (s\<lparr>px_pools := (px_pools s)[unat slot := Some (snd (mongo_start e pool_size pool_new))]\<rparr>)) s confs"

definition mongo_cleanupPools :: "DBProxyMongo \<Rightarrow> MongoPool.mongo_client_pool list \<times> DBProxyMongo" where
  "mongo_cleanupPools s = (case proxy_cleanupPools s of (ps, s') \<Rightarrow> (map pool_stop ps, s'))"

definition mongo_submit :: "(DBProxyMongo \<Rightarrow> DBProxyMongo) \<Rightarrow> mongo_request \<Rightarrow> lymsg_header \<Rightarrow> nat \<Rightarrow> DBProxyMongo \<Rightarrow> DBProxyMongo" where
  "mongo_submit others req reqHeader uid s =
    proxy_submit others (pool_submit mongo_pool_ops) (gq_db_slot (fst req)) req reqHeader uid s"

definition mongo_onResponse :: "mongo_client_req \<Rightarrow> mongo_client_resp \<Rightarrow> DBProxyMongo \<Rightarrow> DBProxyMongo" where
  "mongo_onResponse req resp s = onResponseBase (gq_req_id req) (mongo_resp_serialize resp) (gq_db_slot req) s"

definition mongo_onRecvMsg :: "(bytes \<Rightarrow> bool) \<Rightarrow> (DBProxyMongo \<Rightarrow> DBProxyMongo) \<Rightarrow> nat \<Rightarrow> tcp_message \<Rightarrow> DBProxyMongo \<Rightarrow> DBProxyMongo" where
  "mongo_onRecvMsg bson_ok others uid msg s =
    (case unpackMsg (Some msg) null_header [] of (rc, reqHeader, reqData) \<Rightarrow>
       if rc \<noteq> 0 then s
       else if hdr_type reqHeader = LYMSG_TYPE_DB_MONGO then
         (let qs = mongo_req_deserialize bson_ok reqData in mongo_submit others (hd qs, tl qs) reqHeader uid s)
       else s)"

definition mongo_request_send ::
  "lymsg_header \<Rightarrow> mongo_client_req list \<Rightarrow> nat \<Rightarrow> net_client \<Rightarrow> async_client_manager \<Rightarrow> memerr + int \<times> net_client \<times> async_client_manager" where
  "mongo_request_send h qs cb c m = net_request (Some (h\<lparr>hdr_type := LYMSG_TYPE_DB_MONGO\<rparr>)) (mongo_req_serialize qs) (Some cb) c m"

definition mongo_callback :: "(bytes \<Rightarrow> bool) \<Rightarrow> nat option \<times> lymsg_header \<times> bytes \<Rightarrow> nat option \<times> lymsg_header \<times> mongo_client_resp" where
  "mongo_callback bson_ok call = (case call of (cb, rh, rd) \<Rightarrow> (cb, rh, mongo_resp_deserialize bson_ok rd))"

section \<open>Facts\<close>

definition pending :: "'p db_proxy \<Rightarrow> u8 \<Rightarrow> u64 \<Rightarrow> PenddingReq option" where
  "pending s slot k = (case px_poolCtx s ! unat slot of None \<Rightarrow> None | Some ctx \<Rightarrow> shard_lookup ctx k)"

definition px_queue :: "nat \<Rightarrow> 'p db_proxy \<Rightarrow> tcp_message list" where
  "px_queue uid s = wrQueue (u_chan (px_users s uid))"

definition proxy_inv :: "'p db_proxy \<Rightarrow> bool" where
  "proxy_inv s \<longleftrightarrow> length (px_poolCtx s) = MAX_DB_SLOTS \<and> length (px_pools s) = MAX_DB_SLOTS \<and>
     (\<forall>ctx. Some ctx \<in> set (px_poolCtx s) \<longrightarrow> shard_ok ctx)"

text \<open>A slot that is served: it has a pool and a store.\<close>

definition serves :: "'p db_proxy \<Rightarrow> u8 \<Rightarrow> 'p \<Rightarrow> bool" where
  "serves s slot pool \<longleftrightarrow> unat slot < MAX_DB_SLOTS \<and> px_pools s ! unat slot = Some pool \<and> px_poolCtx s ! unat slot \<noteq> None"

lemma db_post_queue:
  "px_queue uid (db_post uid m s) = px_queue uid s @ (if length (px_queue uid s) \<le> MaxPendingMsg then [m] else [])"
  by (auto simp: db_post_def px_queue_def user_post_def post_def enableWrite_def split: prod.split)

lemma db_post_frame [simp]:
  "px_poolCtx (db_post uid m s) = px_poolCtx s" "px_alive (db_post uid m s) = px_alive s" "px_pools (db_post uid m s) = px_pools s"
  "px_origin (db_post uid m s) = px_origin s"
  by (simp_all add: db_post_def split: prod.split)

lemma inv_ctx: "proxy_inv s \<Longrightarrow> unat slot < MAX_DB_SLOTS \<Longrightarrow> px_poolCtx s ! unat slot = Some ctx \<Longrightarrow> shard_ok ctx"
  by (metis nth_mem proxy_inv_def)

lemma inv_update:
  "proxy_inv s \<Longrightarrow> shard_ok ctx \<Longrightarrow> proxy_inv (s\<lparr>px_poolCtx := (px_poolCtx s)[i := Some ctx]\<rparr>)"
  by (auto simp: proxy_inv_def dest!: set_update_subset_insert [THEN subsetD])

lemma save_spec:
  assumes "proxy_inv s" and "unat slot < MAX_DB_SLOTS" and "px_poolCtx s ! unat slot \<noteq> None" and "pending s slot k = None"
  shows "proxy_inv (db_savePenddingReq k h uid slot s)"
    and "pending (db_savePenddingReq k h uid slot s) slot = (pending s slot)(k \<mapsto> \<lparr>pq_user = uid, pq_header = h\<rparr>)"
    and "px_users (db_savePenddingReq k h uid slot s) = px_users s" and "px_alive (db_savePenddingReq k h uid slot s) = px_alive s"
    and "px_pools (db_savePenddingReq k h uid slot s) = px_pools s" and "px_origin (db_savePenddingReq k h uid slot s) = px_origin s"
    and "px_poolCtx (db_savePenddingReq k h uid slot s) ! unat slot \<noteq> None"
proof -
  obtain ctx where c: "px_poolCtx s ! unat slot = Some ctx" using assms(3) by auto
  let ?ctx = "shard_insert k \<lparr>pq_user = uid, pq_header = h\<rparr> ctx"
  have e: "db_savePenddingReq k h uid slot s = s\<lparr>px_poolCtx := (px_poolCtx s)[unat slot := Some ?ctx]\<rparr>"
    using assms(2) c by (simp add: db_savePenddingReq_def)
  have l: "unat slot < length (px_poolCtx s)" using assms(1,2) by (simp add: proxy_inv_def)
  note law = shard.ins_law [OF inv_ctx [OF assms(1,2) c], of k "\<lparr>pq_user = uid, pq_header = h\<rparr>"]
  show "proxy_inv (db_savePenddingReq k h uid slot s)" unfolding e using law by (intro inv_update assms(1)) simp
  show "pending (db_savePenddingReq k h uid slot s) slot = (pending s slot)(k \<mapsto> \<lparr>pq_user = uid, pq_header = h\<rparr>)"
    unfolding e using law assms(4) c l by (auto simp: pending_def fun_eq_iff)
qed (use assms in \<open>auto simp: db_savePenddingReq_def proxy_inv_def split: option.splits\<close>)

lemma response_none:
  assumes "proxy_inv s" and "unat slot < MAX_DB_SLOTS" and "pending s slot k = None"
  shows "proxy_inv (onResponseBase k d slot s)" and "pending (onResponseBase k d slot s) slot = pending s slot"
    and "px_users (onResponseBase k d slot s) = px_users s" and "px_alive (onResponseBase k d slot s) = px_alive s"
    and "(px_poolCtx (onResponseBase k d slot s) ! unat slot = None) = (px_poolCtx s ! unat slot = None)"
proof -
  have l: "unat slot < length (px_poolCtx s)" using assms(1,2) by (simp add: proxy_inv_def)
  have "proxy_inv (onResponseBase k d slot s) \<and> pending (onResponseBase k d slot s) slot = pending s slot \<and>
    px_users (onResponseBase k d slot s) = px_users s \<and> px_alive (onResponseBase k d slot s) = px_alive s \<and>
    (px_poolCtx (onResponseBase k d slot s) ! unat slot = None) = (px_poolCtx s ! unat slot = None)"
  proof (cases "px_poolCtx s ! unat slot")
    case None
    with assms show ?thesis by (simp add: onResponseBase_def)
  next
    case (Some ctx)
    note law = shard.tak_law [OF inv_ctx [OF assms(1,2) Some], of k]
    have n: "shard_lookup ctx k = None" using assms(3) Some by (simp add: pending_def)
    with law have t: "fst (shard_take k ctx) = None" by simp
    then have "onResponseBase k d slot s = s\<lparr>px_poolCtx := (px_poolCtx s)[unat slot := Some (snd (shard_take k ctx))]\<rparr>"
      using assms(2) Some t by (subst onResponseBase_def) (simp add: case_prod_beta Let_def)
    then show ?thesis using law n Some l inv_update [OF assms(1)] by (auto simp: pending_def)
  qed
  then show "proxy_inv (onResponseBase k d slot s)" and "pending (onResponseBase k d slot s) slot = pending s slot"
    and "px_users (onResponseBase k d slot s) = px_users s" and "px_alive (onResponseBase k d slot s) = px_alive s"
    and "(px_poolCtx (onResponseBase k d slot s) ! unat slot = None) = (px_poolCtx s ! unat slot = None)" by blast+
qed

lemma response_some:
  assumes "proxy_inv s" and "unat slot < MAX_DB_SLOTS" and "pending s slot k = Some q" and "pq_user q \<in> set (px_alive s)"
  shows "proxy_inv (onResponseBase k d slot s)" and "pending (onResponseBase k d slot s) slot = (pending s slot)(k := None)"
    and "px_queue (pq_user q) (onResponseBase k d slot s) = px_queue (pq_user q) s @
      (if length (px_queue (pq_user q) s) \<le> MaxPendingMsg then [db_createResponse (pq_header q) d s] else [])"
proof -
  have l: "unat slot < length (px_poolCtx s)" using assms(1,2) by (simp add: proxy_inv_def)
  obtain ctx where c: "px_poolCtx s ! unat slot = Some ctx" using assms(3) by (auto simp: pending_def split: option.splits)
  note law = shard.tak_law [OF inv_ctx [OF assms(1,2) c], of k]
  have n: "shard_lookup ctx k = Some q" using assms(3) c by (simp add: pending_def)
  with law have t: "fst (shard_take k ctx) = Some q" by simp
  let ?s1 = "s\<lparr>px_poolCtx := (px_poolCtx s)[unat slot := Some (snd (shard_take k ctx))]\<rparr>"
  have e: "onResponseBase k d slot s = db_post (pq_user q) (db_createResponse (pq_header q) d ?s1) ?s1"
    using assms(2,4) c t by (subst onResponseBase_def) (simp add: case_prod_beta Let_def)
  have i: "proxy_inv ?s1" using law by (intro inv_update assms(1)) simp
  then show "proxy_inv (onResponseBase k d slot s)" by (simp add: e proxy_inv_def)
  show "pending (onResponseBase k d slot s) slot = (pending s slot)(k := None)"
    using law c l by (auto simp: e pending_def fun_eq_iff)
  show "px_queue (pq_user q) (onResponseBase k d slot s) = px_queue (pq_user q) s @
      (if length (px_queue (pq_user q) s) \<le> MaxPendingMsg then [db_createResponse (pq_header q) d s] else [])"
    by (simp add: e db_post_queue) (simp add: px_queue_def db_createResponse_def)
qed

lemma mysql_submit_spec:
  assumes "proxy_inv s" and "serves s (mq_db_slot q) pool" and "length (sq_queue (cp_queue pool)) < MaxPendingReq"
    and "cp_reqId pool \<noteq> PoolIsBusy"
  shows "mysql_submit others q h uid s = db_savePenddingReq (cp_reqId pool) h uid (mq_db_slot q)
    (others (s\<lparr>px_pools := (px_pools s)[unat (mq_db_slot q) := Some (snd (pool_submit mysql_pool_ops q pool))]\<rparr>))"
  using assms by (simp add: mysql_submit_def proxy_submit_def serves_def pool_submit_def sq_push_def Let_def)

lemma submitted_pool: "length (sq_queue (cp_queue pool)) < MaxPendingReq \<Longrightarrow>
    sq_queue (cp_queue (snd (pool_submit mysql_pool_ops q pool))) = sq_queue (cp_queue pool) @ [q\<lparr>mq_req_id := cp_reqId pool\<rparr>]"
  by (simp add: pool_submit_def sq_push_def Let_def)

lemma pools_inv: "proxy_inv s \<Longrightarrow> proxy_inv (s\<lparr>px_pools := (px_pools s)[i := x]\<rparr>)"
  by (simp add: proxy_inv_def)

lemma received_request:
  "mysql_onRecvMsg others uid (packMsg (h\<lparr>hdr_type := LYMSG_TYPE_DB_MYSQL, origin := org\<rparr>) d) s =
    mysql_submit others (mysql_req_deserialize d)
      (h\<lparr>hdr_type := LYMSG_TYPE_DB_MYSQL, origin := org, hdr_size := of_nat (length d), serial := swap32 (serial h)\<rparr>) uid s"
  by (simp add: mysql_onRecvMsg_def unpackMsg_def packMsg_def)

lemma proxy_new_inv: "proxy_inv (db_proxy_new org users)"
  by (simp add: proxy_inv_def db_proxy_new_def)

lemma initPools_inv: "proxy_inv s \<Longrightarrow> proxy_inv (proxy_initPools started confs s)"
proof (induction confs arbitrary: s)
  case (Cons conf confs)
  obtain slot n where c: "conf = (slot, n)" by (cases conf)
  let ?s = "if unat slot \<ge> MAX_DB_SLOTS then s
    else registerPoolCtx slot shards_new (s\<lparr>px_pools := (px_pools s)[unat slot := Some (started n)]\<rparr>)"
  have "proxy_inv ?s" using Cons.prems pools_inv [OF Cons.prems] inv_update [of "s\<lparr>px_pools := _\<rparr>" shards_new]
    by (auto simp: registerPoolCtx_def)
  with Cons.IH [of ?s] show ?case by (simp add: c proxy_initPools_def)
qed (simp add: proxy_initPools_def)

text \<open>A proxy with one pool of one worker and one connection, and a request for it.\<close>

definition sample_proxy :: DBProxyMySQL where
  "sample_proxy = (mysql_initPools [(0, 1)] (db_proxy_new 9 (\<lambda>_. user_new \<lparr>alloc_ok = \<lambda>_. True, fresh = \<lambda>_. 0\<rparr>)))\<lparr>px_alive := [3]\<rparr>"

definition sample_request :: mysql_client_req where
  "sample_request = mysql_client_req_new execQuery 0 (lit ''x'') False"

lemma sample_proxy_serves:
  "proxy_inv sample_proxy" "serves sample_proxy (mq_db_slot sample_request) (snd (pool_start 1 pool_new))"
  "length (sq_queue (cp_queue (snd (pool_start 1 pool_new) :: mysql_client_pool))) < MaxPendingReq"
  "cp_reqId (snd (pool_start 1 pool_new) :: mysql_client_pool) \<noteq> PoolIsBusy"
  "pending sample_proxy (mq_db_slot sample_request) (cp_reqId (snd (pool_start 1 pool_new) :: mysql_client_pool)) = None"
  "3 \<in> set (px_alive sample_proxy)" "px_queue 3 sample_proxy = []" "px_queue uid sample_proxy = []"
proof -
  show "proxy_inv sample_proxy"
    using initPools_inv [OF proxy_new_inv]
    by (simp add: sample_proxy_def mysql_initPools_def proxy_inv_def)
  note d = sample_proxy_def mysql_initPools_def proxy_initPools_def registerPoolCtx_def db_proxy_new_def MAX_DB_SLOTS_def
    sample_request_def mysql_client_req_new_def
  show "serves sample_proxy (mq_db_slot sample_request) (snd (pool_start 1 pool_new))" by (simp add: serves_def d)
  show "pending sample_proxy (mq_db_slot sample_request) (cp_reqId (snd (pool_start 1 pool_new) :: mysql_client_pool)) = None"
    by (simp add: pending_def d)
  show "3 \<in> set (px_alive sample_proxy)" "px_queue 3 sample_proxy = []" "px_queue uid sample_proxy = []"
    by (simp_all add: d px_queue_def user_new_def)
qed (simp_all add: pool_start_def pool_new_def sq_new_def MaxPendingReq_def PoolIsBusy_def MinReqId_def Let_def)

text \<open>
  The proxy can take request \<open>k\<close> of the connection \<open>uid\<close> for a slot: the slot has a store in which the number is free, and the
  connection is there with room in its queue.  Once the request is saved the proxy is waiting for its response.
\<close>

definition db_ready :: "u8 \<Rightarrow> nat \<Rightarrow> u16 \<Rightarrow> 'p db_proxy \<Rightarrow> bool" where
  "db_ready slot uid org s \<longleftrightarrow> proxy_inv s \<and> unat slot < MAX_DB_SLOTS \<and> px_poolCtx s ! unat slot \<noteq> None \<and>
     uid \<in> set (px_alive s) \<and> length (px_queue uid s) \<le> MaxPendingMsg \<and> px_origin s = org"

definition db_open :: "u8 \<Rightarrow> u64 \<Rightarrow> nat \<Rightarrow> u16 \<Rightarrow> 'p db_proxy \<Rightarrow> bool" where
  "db_open slot k uid org s \<longleftrightarrow> db_ready slot uid org s \<and> pending s slot k = None"

definition db_awaiting :: "u8 \<Rightarrow> u64 \<Rightarrow> nat \<Rightarrow> lymsg_header \<Rightarrow> u16 \<Rightarrow> 'p db_proxy \<Rightarrow> bool" where
  "db_awaiting slot k uid rh org s \<longleftrightarrow> db_ready slot uid org s \<and> pending s slot k = Some \<lparr>pq_user = uid, pq_header = rh\<rparr>"

lemma save_awaiting: "db_open slot k uid org s \<Longrightarrow> db_awaiting slot k uid rh org (db_savePenddingReq k rh uid slot s)"
  using save_spec [of s slot k rh uid] by (auto simp: db_open_def db_awaiting_def db_ready_def px_queue_def)

lemma awaited_answer:
  assumes "db_awaiting slot k uid rh org s"
  shows "pending (onResponseBase k d slot s) slot k = None"
    and "px_queue uid (onResponseBase k d slot s) = px_queue uid s @ [createResponse org rh d]"
  using assms response_some [of s slot k "\<lparr>pq_user = uid, pq_header = rh\<rparr>" d]
  by (simp_all add: db_awaiting_def db_ready_def db_createResponse_def createResponse_def)

text \<open>The proxy's part of a request: it is submitted to the pool of its slot, and saved with the header it came with.\<close>

lemma proxy_accepts:
  assumes "db_open (mq_db_slot q) (cp_reqId pool) uid org s" and "px_pools s ! unat (mq_db_slot q) = Some pool"
    and "length (sq_queue (cp_queue pool)) < MaxPendingReq" and "cp_reqId pool \<noteq> PoolIsBusy" and "ok_mysql_req q"
    and others: "\<And>t. db_open (mq_db_slot q) (cp_reqId pool) uid org t \<Longrightarrow> db_open (mq_db_slot q) (cp_reqId pool) uid org (others t)"
    and "hdr_type h = LYMSG_TYPE_DB_MYSQL"
    and "rh = h\<lparr>hdr_size := of_nat (length (mysql_req_serialize q)), serial := swap32 (serial h)\<rparr>"
  obtains pool1 where "pool_submit mysql_pool_ops q pool = (cp_reqId pool, pool1)"
    "sq_queue (cp_queue pool1) = sq_queue (cp_queue pool) @ [q\<lparr>mq_req_id := cp_reqId pool\<rparr>]"
    "mysql_onRecvMsg others uid (packMsg h (mysql_req_serialize q)) s = db_savePenddingReq (cp_reqId pool) rh uid (mq_db_slot q)
       (others (s\<lparr>px_pools := (px_pools s)[unat (mq_db_slot q) := Some pool1]\<rparr>))"
    "db_awaiting (mq_db_slot q) (cp_reqId pool) uid rh org (mysql_onRecvMsg others uid (packMsg h (mysql_req_serialize q)) s)"
proof -
  let ?slot = "mq_db_slot q" and ?k = "cp_reqId pool"
  obtain pool1 where p: "pool_submit mysql_pool_ops q pool = (?k, pool1)" using assms(3) by (simp add: pool_submit_def sq_push_def Let_def)
  let ?t = "s\<lparr>px_pools := (px_pools s)[unat ?slot := Some pool1]\<rparr>"
  have "proxy_inv s" "serves s ?slot pool" using assms(1,2) by (auto simp: db_open_def db_ready_def serves_def)
  then have r: "mysql_onRecvMsg others uid (packMsg h (mysql_req_serialize q)) s = db_savePenddingReq ?k rh uid ?slot (others ?t)"
    using assms(3-5,7,8) p by (simp add: mysql_onRecvMsg_def unpack_request mysql_req_roundtrip mysql_submit_spec)
  have "db_open ?slot ?k uid org ?t" using assms(1) by (simp add: db_open_def db_ready_def proxy_inv_def pending_def px_queue_def)
  from save_awaiting [OF others [OF this], of rh] r
  have "db_awaiting ?slot ?k uid rh org (mysql_onRecvMsg others uid (packMsg h (mysql_req_serialize q)) s)" by simp
  moreover have "sq_queue (cp_queue pool1) = sq_queue (cp_queue pool) @ [q\<lparr>mq_req_id := ?k\<rparr>]"
    using submitted_pool [OF assms(3), of q] p by simp
  ultimately show thesis using that p r by blast
qed

text \<open>
  A response of the pool to the request that got number \<open>k\<close> answers that request: up to the count of its retries the request is the
  one that was submitted, and the response is what carrying it out on a client gave, or the failure after the last retry.
\<close>

definition answers :: "mysql_pool_env \<Rightarrow> mysql_client_req \<Rightarrow> u64 \<Rightarrow> mysql_client_req \<Rightarrow> mysql_client_resp \<Rightarrow> bool" where
  "answers e q k q2 r \<longleftrightarrow> (\<exists>n. q2 = q\<lparr>mq_req_id := k, mq_retry_times := n\<rparr>) \<and>
     (r = mysql_retryFailure q2 \<or> (\<exists>clt. r = fst (mysql_handleRequest (mp_env e) q2 clt)))"

lemma pool_answers:
  assumes "mysql_reach psz pool acc subs pops" and "length (sq_queue (cp_queue pool)) < MaxPendingReq" and "mq_retry_times q = 0"
    and "pool_submit mysql_pool_ops q pool = (k, pool1)"
    and "pool_reach mysql_pool_ops (worker_step mysql_pool_ops) WPop pool1 pool2 acc2 subs2 pops2" and "Suc (subs + subs2) \<le> 2 ^ 64"
    and "i < length (cp_workers pool2)"
    and "cp_responses (worker_step mysql_pool_ops e i pool2) = cp_responses pool2 @ [(q2, r)]" and "mq_req_id q2 = k"
  shows "answers e q k q2 r"
proof -
  have "q_set_retry mysql_pool_ops 0 q2 = q_set_retry mysql_pool_ops 0 (q_set_id mysql_pool_ops k q)"
    by (rule mysql_pool.workers.answers_submitted [OF assms(1) _ _ assms(4) pr_worker [OF assms(5,7), of e] assms(6), of q2 r])
      (use assms in \<open>simp_all add: sq_size_def\<close>)
  then have e: "q2\<lparr>mq_retry_times := 0\<rparr> = q\<lparr>mq_req_id := k, mq_retry_times := 0\<rparr>" by simp
  have "q2 = (q2\<lparr>mq_retry_times := 0\<rparr>)\<lparr>mq_retry_times := mq_retry_times q2\<rparr>" by simp
  also have "\<dots> = q\<lparr>mq_req_id := k, mq_retry_times := mq_retry_times q2\<rparr>" unfolding e by simp
  finally have "q2 = q\<lparr>mq_req_id := k, mq_retry_times := mq_retry_times q2\<rparr>" .
  moreover have "r = mysql_retryFailure q2 \<or> (\<exists>clt. r = fst (mysql_handleRequest (mp_env e) q2 clt))"
    using mysql_pool.worker_answer [OF assms(8)] by (simp add: mysql_pool_ops_def)
  ultimately show ?thesis unfolding answers_def by blast
qed

lemma pool_step_delivers:
  assumes "db_awaiting slot k uid rh org t" and "px_pools t ! unat slot = Some pool2"
    and "cp_responses (worker_step mysql_pool_ops e i pool2) = cp_responses pool2 @ [(q2, r)]"
    and "mq_req_id q2 = k" and "mq_db_slot q2 = slot"
  shows "pending (mysql_pool_step e i slot t) slot k = None"
    and "px_queue uid (mysql_pool_step e i slot t) = px_queue uid t @ [createResponse org rh (mysql_resp_serialize r)]"
proof -
  let ?t = "t\<lparr>px_pools := (px_pools t)[unat slot := Some (worker_step mysql_pool_ops e i pool2)]\<rparr>"
  have e: "mysql_pool_step e i slot t = onResponseBase k (mysql_resp_serialize r) slot ?t"
    using assms by (simp add: mysql_pool_step_def mysql_onResponse_def)
  have "db_awaiting slot k uid rh org ?t"
    using assms(1) by (simp add: db_awaiting_def db_ready_def proxy_inv_def pending_def px_queue_def)
  from awaited_answer [OF this, of "mysql_resp_serialize r"] show "pending (mysql_pool_step e i slot t) slot k = None"
    and "px_queue uid (mysql_pool_step e i slot t) = px_queue uid t @ [createResponse org rh (mysql_resp_serialize r)]"
    by (simp_all add: e px_queue_def)
qed

lemma mysql_client_called:
  assumes "map_of (nc_msgHandlers cc) (serial h) = Some f" and "serial rh = swap32 (serial h)" and "hdr_type rh = LYMSG_TYPE_DB_MYSQL"
    and "ok_mysql_resp r"
  shows "map mysql_callback (nc_called (net_onResponse (createResponse org rh (mysql_resp_serialize r)) cc)) = map mysql_callback (nc_called cc) @
    [(Some f, \<lparr>origin = org, reserve = 0, hdr_type = LYMSG_TYPE_DB_MYSQL OR LYMSG_TYPE_RESP, serial = serial h,
               hdr_size = of_nat (length (mysql_resp_serialize r))\<rparr>, r)]"
  using client_called [OF assms(1,2), of org "mysql_resp_serialize r"] assms(3) mysql_resp_roundtrip [OF assms(4)]
  by (simp add: mysql_callback_def)

text \<open>
  C7: A database request, end to end.  The message that \<^verbatim>\<open>DBClientMySQL::request\<close> puts on a connection of the service's client, when the
  proxy receives it, is submitted to the pool of its slot as the very request the service made, under a number
  of the pool, and saved as pending, whatever the other threads of the proxy do between the two.  From then on, in
  any state in which the request is still pending and which the pool has reached by any interleaving of its
  workers and of further submissions, the step of a worker that answers that number answers that request, by
  carrying it out on a client or with the failure after the last retry; one message is queued for the connection the
  request came from, the request is pending no more, and the message calls back the function that the service
  registered for that very request, with the pool's response.  (A response before the request is saved is lost:
  see \<open>early_response_lost\<close>.)
\<close>
theorem db_request_end_to_end:
  assumes "mysql_request h q f c m = Inr (0, c1, m1)" and "map_of (nc_msgHandlers c) (serial h) = None" and "ok_mysql_req q"
    and "db_open (mq_db_slot q) (cp_reqId pool) uid org s" and "px_pools s ! unat (mq_db_slot q) = Some pool"
    and "mysql_reach psz pool acc subs pops" and "length (sq_queue (cp_queue pool)) < MaxPendingReq" and "cp_reqId pool \<noteq> PoolIsBusy"
    and "\<forall>t. db_open (mq_db_slot q) (cp_reqId pool) uid org t \<longrightarrow> db_open (mq_db_slot q) (cp_reqId pool) uid org (others t)"
  shows "\<exists>req k pool1 rh. posted (nc_ha c) req m m1 \<and> map_of (nc_msgHandlers c1) (serial h) = Some f \<and>
    pool_submit mysql_pool_ops q pool = (k, pool1) \<and> sq_queue (cp_queue pool1) = sq_queue (cp_queue pool) @ [q\<lparr>mq_req_id := k\<rparr>] \<and>
    mysql_onRecvMsg others uid req s =
      db_savePenddingReq k rh uid (mq_db_slot q) (others (s\<lparr>px_pools := (px_pools s)[unat (mq_db_slot q) := Some pool1]\<rparr>)) \<and>
    db_awaiting (mq_db_slot q) k uid rh org (mysql_onRecvMsg others uid req s) \<and>
    (\<forall>t pool2 acc2 subs2 pops2 e i q2 r.
      db_awaiting (mq_db_slot q) k uid rh org t \<and> px_pools t ! unat (mq_db_slot q) = Some pool2 \<and>
      pool_reach mysql_pool_ops (worker_step mysql_pool_ops) WPop pool1 pool2 acc2 subs2 pops2 \<and> Suc (subs + subs2) \<le> 2 ^ 64 \<and>
      i < length (cp_workers pool2) \<and> cp_responses (worker_step mysql_pool_ops e i pool2) = cp_responses pool2 @ [(q2, r)] \<and>
      mq_req_id q2 = k \<longrightarrow>
      answers e q k q2 r \<and> pending (mysql_pool_step e i (mq_db_slot q) t) (mq_db_slot q) k = None \<and>
      (\<exists>resp. px_queue uid (mysql_pool_step e i (mq_db_slot q) t) = px_queue uid t @ [resp] \<and>
        (\<forall>cc. map_of (nc_msgHandlers cc) (serial h) = Some f \<and> ok_mysql_resp r \<longrightarrow>
          map mysql_callback (nc_called (net_onResponse resp cc)) = map mysql_callback (nc_called cc) @
            [(Some f, \<lparr>origin = org, reserve = 0, hdr_type = LYMSG_TYPE_DB_MYSQL OR LYMSG_TYPE_RESP, serial = serial h,
                       hdr_size = of_nat (length (mysql_resp_serialize r))\<rparr>, r)])))"
proof -
  let ?slot = "mq_db_slot q" and ?k = "cp_reqId pool"
  let ?h = "h\<lparr>hdr_type := LYMSG_TYPE_DB_MYSQL, origin := nc_localOrigin c\<rparr>"
  define rh where "rh = ?h\<lparr>hdr_size := of_nat (length (mysql_req_serialize q)), serial := swap32 (serial ?h)\<rparr>"
  obtain pool1 where a: "pool_submit mysql_pool_ops q pool = (?k, pool1)" "sq_queue (cp_queue pool1) = sq_queue (cp_queue pool) @ [q\<lparr>mq_req_id := ?k\<rparr>]"
      "mysql_onRecvMsg others uid (packMsg ?h (mysql_req_serialize q)) s =
        db_savePenddingReq ?k rh uid ?slot (others (s\<lparr>px_pools := (px_pools s)[unat ?slot := Some pool1]\<rparr>))"
      "db_awaiting ?slot ?k uid rh org (mysql_onRecvMsg others uid (packMsg ?h (mysql_req_serialize q)) s)"
    by (rule proxy_accepts [where others = others, OF assms(4,5,7,8,3) _ _ rh_def]) (use assms(9) in auto)
  have p: "posted (nc_ha c) (packMsg ?h (mysql_req_serialize q)) m m1"
    using net_request_queues [OF assms(1) [unfolded mysql_request_def]] by simp
  have f: "map_of (nc_msgHandlers c1) (serial h) = Some f"
    using net_request_cases [OF assms(1) [unfolded mysql_request_def]] assms(2) by (simp add: map_of_handler_insert)
  have rt: "mq_retry_times q = 0" using assms(3) by (simp add: ok_mysql_req_def)
  have rh: "serial rh = swap32 (serial h)" "hdr_type rh = LYMSG_TYPE_DB_MYSQL" by (simp_all add: rh_def)
  have D: "answers e q ?k q2 r \<and> pending (mysql_pool_step e i ?slot t) ?slot ?k = None \<and>
      (\<exists>resp. px_queue uid (mysql_pool_step e i ?slot t) = px_queue uid t @ [resp] \<and>
        (\<forall>cc. map_of (nc_msgHandlers cc) (serial h) = Some f \<and> ok_mysql_resp r \<longrightarrow>
          map mysql_callback (nc_called (net_onResponse resp cc)) = map mysql_callback (nc_called cc) @
            [(Some f, \<lparr>origin = org, reserve = 0, hdr_type = LYMSG_TYPE_DB_MYSQL OR LYMSG_TYPE_RESP, serial = serial h,
                       hdr_size = of_nat (length (mysql_resp_serialize r))\<rparr>, r)]))"
    if t: "db_awaiting ?slot ?k uid rh org t" "px_pools t ! unat ?slot = Some pool2"
      and w: "pool_reach mysql_pool_ops (worker_step mysql_pool_ops) WPop pool1 pool2 acc2 subs2 pops2" "Suc (subs + subs2) \<le> 2 ^ 64"
        "i < length (cp_workers pool2)"
      and r: "cp_responses (worker_step mysql_pool_ops e i pool2) = cp_responses pool2 @ [(q2, r)]" "mq_req_id q2 = ?k"
    for t pool2 acc2 subs2 pops2 e i q2 r
  proof -
    have an: "answers e q ?k q2 r" by (rule pool_answers [OF assms(6,7) rt a(1) w r])
    then have "mq_db_slot q2 = ?slot" by (auto simp: answers_def)
    note D = pool_step_delivers [OF t r this]
    show ?thesis using an D mysql_client_called [OF _ rh] by blast
  qed
  show ?thesis using a p f D by blast
qed

text \<open>A pool of one worker that was just given a request, and the steps that lead to its answer.\<close>

definition fresh_pool :: "mysql_client_req \<Rightarrow> mysql_client_pool" where
  "fresh_pool q = snd (pool_submit mysql_pool_ops q (snd (pool_start 1 pool_new)))"

lemma fresh_pool_answers:
  defines "w \<equiv> worker_step mysql_pool_ops sample_mysql_env 0"
  shows "pool_submit mysql_pool_ops q (snd (pool_start 1 pool_new)) = (100, fresh_pool q)"
    and "pool_reach mysql_pool_ops (worker_step mysql_pool_ops) WPop (fresh_pool q) (w (w (w (fresh_pool q)))) [] 0 [100]"
    and "0 < length (cp_workers (w (w (w (fresh_pool q)))))"
    and "cp_responses (w (w (w (w (fresh_pool q))))) = cp_responses (w (w (w (fresh_pool q)))) @
      [(q\<lparr>mq_req_id := 100\<rparr>, fst (mysql_handleRequest (mp_env sample_mysql_env) (q\<lparr>mq_req_id := 100\<rparr>) \<lparr>my_client = True, my_connState = True\<rparr>))]"
proof -
  let ?p = "fresh_pool q"
  note defs = fresh_pool_def pool_submit_def pool_start_def pool_new_def sq_push_def sq_new_def worker_step_def set_pc_def
    sq_pop_timeout_cv_def getIdleClient_take_def getIdleClient_open_def mysql_connect_def mysql_client_new_def sample_mysql_env_def
    markClientIdle_def MaxPendingReq_def MinReqId_def Let_def
  show "pool_submit mysql_pool_ops q (snd (pool_start 1 pool_new)) = (100, fresh_pool q)" by (simp add: defs)
  have r: "pool_reach mysql_pool_ops (worker_step mysql_pool_ops) WPop ?p (w p) [] 0
      (if pops_now WPop 0 p then pops @ [mq_req_id (hd (sq_queue (cp_queue p)))] else pops)"
    if "pool_reach mysql_pool_ops (worker_step mysql_pool_ops) WPop ?p p [] 0 pops" "0 < length (cp_workers p)" for p pops
    using pr_worker [OF that, of sample_mysql_env] unfolding w_def mysql_sel by simp
  have "pops_now WPop 0 ?p" "mq_req_id (hd (sq_queue (cp_queue ?p))) = 100" "0 < length (cp_workers ?p)"
    by (simp_all add: pops_now_def defs)
  with r [OF pr_start] have "pool_reach mysql_pool_ops (worker_step mysql_pool_ops) WPop ?p (w ?p) [] 0 [100]" by simp
  moreover have "\<not> pops_now WPop 0 (w ?p)" "0 < length (cp_workers (w ?p))" by (simp_all add: w_def pops_now_def defs)
  ultimately have "pool_reach mysql_pool_ops (worker_step mysql_pool_ops) WPop ?p (w (w ?p)) [] 0 [100]" using r by force
  moreover have "\<not> pops_now WPop 0 (w (w ?p))" "0 < length (cp_workers (w (w ?p)))" by (simp_all add: w_def pops_now_def defs)
  ultimately show "pool_reach mysql_pool_ops (worker_step mysql_pool_ops) WPop ?p (w (w (w ?p))) [] 0 [100]" using r by force
  show "0 < length (cp_workers (w (w (w ?p))))" by (simp add: w_def defs)
  show "cp_responses (w (w (w (w ?p)))) = cp_responses (w (w (w ?p))) @
      [(q\<lparr>mq_req_id := 100\<rparr>, fst (mysql_handleRequest (mp_env sample_mysql_env) (q\<lparr>mq_req_id := 100\<rparr>) \<lparr>my_client = True, my_connState = True\<rparr>))]"
    by (simp add: w_def defs split: prod.split)
qed

lemma sample_request_answer:
  "fst (mysql_handleRequest (mp_env sample_mysql_env) (sample_request\<lparr>mq_req_id := 100\<rparr>) \<lparr>my_client = True, my_connState = True\<rparr>) = (mysql_client_resp_new 100)\<lparr>mr_rc := 0\<rparr>"
  by (simp add: sample_request_def mysql_handleRequest_def mysql_client_req_new_def mysql_client_resp_new_def execQuery_text_def rawQuery_def
      c_str_def lit_def isEmptyString_def after_call_def sample_mysql_env_def Let_def)

lemma sample_db_open: "db_open 0 100 3 9 sample_proxy" "px_pools sample_proxy ! 0 = Some (snd (pool_start 1 pool_new))"
proof -
  have "cp_reqId (snd (pool_start 1 pool_new) :: mysql_client_pool) = 100" "mq_db_slot sample_request = 0"
    by (simp_all add: pool_start_def pool_new_def MinReqId_def Let_def sample_request_def mysql_client_req_new_def)
  moreover have "px_origin sample_proxy = 9"
    by (simp add: sample_proxy_def mysql_initPools_def proxy_initPools_def registerPoolCtx_def db_proxy_new_def)
  ultimately show "db_open 0 100 3 9 sample_proxy" "px_pools sample_proxy ! 0 = Some (snd (pool_start 1 pool_new))"
    using sample_proxy_serves by (simp_all add: db_open_def db_ready_def serves_def)
qed

lemma db_post_other: "uid' \<noteq> uid \<Longrightarrow> db_open slot k uid org t \<Longrightarrow> db_open slot k uid org (db_post uid' msg t)"
  by (simp add: db_open_def db_ready_def proxy_inv_def pending_def px_queue_def) (simp add: db_post_def split: prod.split)

theorem db_request_end_to_end_witness:
  "\<exists>c1 m1 req rh t e resp. mysql_request null_header sample_request 5 (net_client_new 0 7) sample_manager = Inr (0, c1, m1) \<and>
    posted 0 req sample_manager m1 \<and> pool_submit mysql_pool_ops sample_request (snd (pool_start 1 pool_new)) = (100, fresh_pool sample_request) \<and>
    db_awaiting 0 100 3 rh 9 (mysql_onRecvMsg (db_post 4 (packMsg null_header [])) 3 req sample_proxy) \<and>
    db_awaiting 0 100 3 rh 9 t \<and> px_queue 3 (mysql_pool_step e 0 0 t) = px_queue 3 t @ [resp] \<and>
    map (\<lambda>(cb, rh, r). (cb, r)) (map mysql_callback (nc_called (net_onResponse resp c1))) = [(Some 5, (mysql_client_resp_new 100)\<lparr>mr_rc := 0\<rparr>)]"
proof -
  let ?c = "net_client_new 0 7" and ?q = sample_request and ?pool = "snd (pool_start 1 pool_new) :: mysql_client_pool"
  let ?others = "db_post 4 (packMsg null_header []) :: DBProxyMySQL \<Rightarrow> _" and ?r = "(mysql_client_resp_new 100)\<lparr>mr_rc := 0\<rparr>"
  let ?w = "worker_step mysql_pool_ops sample_mysql_env 0"
  let ?pool2 = "?w (?w (?w (fresh_pool sample_request)))"
  have c: "map_of (nc_msgHandlers ?c) (serial null_header) = None" "nc_ha ?c = 0" "nc_called ?c = []" by (simp_all add: net_client_new_def)
  have "ha_ready (nc_ha ?c) sample_manager" by (rule sample_manager_ready)
  from net_request_ready [OF this] obtain c1 m1 where a: "mysql_request null_header ?q 5 ?c sample_manager = Inr (0, c1, m1)"
    unfolding mysql_request_def by metis
  have nc: "nc_called c1 = []" using net_request_cases [OF a [unfolded mysql_request_def]] c(3) by simp
  have ok: "ok_mysql_req ?q" "ok_mysql_resp ?r"
    by (simp_all add: sample_request_def ok_mysql_req_def mysql_client_req_new_def ok_str_def lit_def ok_mysql_resp_def mysql_client_resp_new_def
        ok_list_def)
  have p: "mq_db_slot ?q = 0" "cp_reqId ?pool = 100" "pool_submit mysql_pool_ops ?q ?pool = (100, fresh_pool sample_request)"
    using fresh_pool_answers(1) by (simp_all add: pool_start_def pool_new_def MinReqId_def Let_def sample_request_def mysql_client_req_new_def)
  have o: "\<forall>t. db_open 0 100 3 9 t \<longrightarrow> db_open 0 100 3 9 (?others t)" by (intro allI impI db_post_other) simp_all
  obtain req rh where posted: "posted 0 req sample_manager m1" and f: "map_of (nc_msgHandlers c1) (serial null_header) = Some 5"
    and aw: "db_awaiting 0 100 3 rh 9 (mysql_onRecvMsg ?others 3 req sample_proxy)"
    and step: "\<And>t pool2 acc2 subs2 pops2 e i q2 r.
      db_awaiting 0 100 3 rh 9 t \<and> px_pools t ! 0 = Some pool2 \<and>
      pool_reach mysql_pool_ops (worker_step mysql_pool_ops) WPop (fresh_pool sample_request) pool2 acc2 subs2 pops2 \<and> Suc (0 + subs2) \<le> 2 ^ 64 \<and>
      i < length (cp_workers pool2) \<and> cp_responses (worker_step mysql_pool_ops e i pool2) = cp_responses pool2 @ [(q2, r)] \<and>
      mq_req_id q2 = 100 \<longrightarrow>
      (\<exists>resp. px_queue 3 (mysql_pool_step e i 0 t) = px_queue 3 t @ [resp] \<and>
        (\<forall>cc. map_of (nc_msgHandlers cc) (serial null_header) = Some 5 \<and> ok_mysql_resp r \<longrightarrow>
          map mysql_callback (nc_called (net_onResponse resp cc)) = map mysql_callback (nc_called cc) @
            [(Some 5, \<lparr>origin = 9, reserve = 0, hdr_type = LYMSG_TYPE_DB_MYSQL OR LYMSG_TYPE_RESP, serial = serial null_header,
                       hdr_size = of_nat (length (mysql_resp_serialize r))\<rparr>, r)]))"
    using db_request_end_to_end [where h = null_header and q = ?q and pool = ?pool and uid = 3 and org = 9 and s = sample_proxy and others = ?others
        and psz = 1 and acc = "[]" and subs = 0 and pops = "[]", OF a c(1) ok(1), unfolded p c(2) unat_0, OF sample_db_open pr_start sample_proxy_serves(3)
        sample_proxy_serves(4) [unfolded p] o]
    by (elim exE conjE Pair_inject) (hypsubst, rule that, assumption+, blast)
  let ?t = "(mysql_onRecvMsg ?others 3 req sample_proxy)\<lparr>px_pools := (replicate MAX_DB_SLOTS None)[0 := Some ?pool2]\<rparr>"
  have t: "db_awaiting 0 100 3 rh 9 ?t" "px_pools ?t ! 0 = Some ?pool2"
    using aw by (simp_all add: db_awaiting_def db_ready_def proxy_inv_def pending_def px_queue_def MAX_DB_SLOTS_def)
  moreover obtain resp where "px_queue 3 (mysql_pool_step sample_mysql_env 0 0 ?t) = px_queue 3 ?t @ [resp]"
    "map mysql_callback (nc_called (net_onResponse resp c1)) = map mysql_callback (nc_called c1) @
      [(Some 5, \<lparr>origin = 9, reserve = 0, hdr_type = LYMSG_TYPE_DB_MYSQL OR LYMSG_TYPE_RESP, serial = serial null_header,
                 hdr_size = of_nat (length (mysql_resp_serialize ?r))\<rparr>, ?r)]"
    using step [of ?t ?pool2 "[]" 0 "[100]" 0 sample_mysql_env "?q\<lparr>mq_req_id := 100\<rparr>" ?r] t ok(2) f
      fresh_pool_answers(2-4) [of sample_request, unfolded sample_request_answer] by auto
  then have "px_queue 3 (mysql_pool_step sample_mysql_env 0 0 ?t) = px_queue 3 ?t @ [resp]"
    "map (\<lambda>(cb, rh, r). (cb, r)) (map mysql_callback (nc_called (net_onResponse resp c1))) = [(Some 5, ?r)]"
    by (simp_all add: nc)
  ultimately show ?thesis using a posted p(3) aw
    by (intro exI [of _ c1] exI [of _ m1] exI [of _ req] exI [of _ rh] exI [of _ ?t] exI [of _ sample_mysql_env] exI [of _ resp] conjI)
qed

text \<open>
  The race between submitting and saving: when a worker answers the request before the connection's thread
  has saved it as pending, the response finds nothing and is dropped, the connection receives nothing, and
  the entry that is saved afterwards stays in the store, since the pool answers only once.
\<close>
theorem early_response_lost:
  assumes "proxy_inv s" and "serves s (mq_db_slot q) pool" and "length (sq_queue (cp_queue pool)) < MaxPendingReq"
    and "cp_reqId pool \<noteq> PoolIsBusy" and "pending s (mq_db_slot q) (cp_reqId pool) = None"
    and "s' = mysql_submit (mysql_onResponse (q\<lparr>mq_req_id := cp_reqId pool\<rparr>) r) q h uid s"
  shows "px_queue uid' s' = px_queue uid' s \<and> pending s' (mq_db_slot q) (cp_reqId pool) = Some \<lparr>pq_user = uid, pq_header = h\<rparr>"
proof -
  let ?slot = "mq_db_slot q" and ?k = "cp_reqId pool"
  let ?t = "s\<lparr>px_pools := (px_pools s)[unat ?slot := Some (snd (pool_submit mysql_pool_ops q pool))]\<rparr>"
  let ?u = "onResponseBase ?k (mysql_resp_serialize r) ?slot ?t"
  have t: "proxy_inv ?t" "unat ?slot < MAX_DB_SLOTS" "pending ?t ?slot ?k = None" "px_poolCtx ?t ! unat ?slot \<noteq> None"
    using assms(1,2,5) pools_inv by (auto simp: serves_def pending_def)
  note rn = response_none [OF t(1-3), of "mysql_resp_serialize r"]
  have s': "s' = db_savePenddingReq ?k h uid ?slot ?u"
    using assms by (simp add: mysql_submit_spec mysql_onResponse_def)
  note sv = save_spec [of ?u ?slot ?k h uid]
  show ?thesis using sv rn t by (simp add: s' px_queue_def)
qed

theorem early_response_lost_witness:
  "\<exists>s'. s' = mysql_submit (mysql_onResponse (sample_request\<lparr>mq_req_id := 100\<rparr>) (mysql_client_resp_new 100)) sample_request null_header 3 sample_proxy \<and>
    px_queue 3 s' = [] \<and> pending s' 0 100 = Some \<lparr>pq_user = 3, pq_header = null_header\<rparr>"
  using early_response_lost [OF sample_proxy_serves(1-5) refl, of 3 "mysql_client_resp_new 100" null_header 3]
  by (simp add: sample_proxy_serves(7)) (simp add: sample_request_def mysql_client_req_new_def pool_start_def pool_new_def MinReqId_def Let_def)

end
