(* ===== verification/TimerHelper.thy ===== *)
theory TimerHelper
  imports Prelude
begin

text \<open>
  The timer thread of \<^verbatim>\<open>src/zbf/timer_helper.hpp\<close>.  A task is a number; the environment says what the atomic
  flag \<^verbatim>\<open>_stopped\<close> is each time the thread reads it (\<^verbatim>\<open>stop\<close> is the place from which it is set) and what a task
  returns, given the number of tasks run before.  The state is the table of tasks and what the thread
  keeps: its tick, the number of reads of the flag so far and the tasks it ran.  Tasks do not change the
  table: \<^verbatim>\<open>addTimerTask\<close> takes no lock and is meant for the time before \<^verbatim>\<open>start\<close>.

  Shown: the thread leaves its loop after \<^verbatim>\<open>stop\<close>; with the units of a second and a minute the tasks run by the
  schedule that the intervals promise; which intervals of the other units do not.
\<close>

datatype TickUnit = TenMilliSec | Second | TenSecond | Minute

fun timeSlot :: "TickUnit \<Rightarrow> nat list" where
  "timeSlot TenMilliSec = [1, 2, 3, 5, 10, 20, 30, 50, 100]"
| "timeSlot Second = [1, 2, 3, 5, 10, 15, 20, 30, 60]"
| "timeSlot TenSecond = [1, 2, 3, 6, 9, 12, 18, 30, 60]"
| "timeSlot Minute = [1, 2, 3, 5, 10, 15, 20, 30, 60]"

fun waitMs :: "TickUnit \<Rightarrow> nat" where
  "waitMs TenMilliSec = 10"
| "waitMs Second = 1000"
| "waitMs TenSecond = 10000"
| "waitMs Minute = 60000"

record timer_env =
  te_stopped :: "nat \<Rightarrow> bool"
  te_task :: "nat \<Rightarrow> nat \<Rightarrow> bool"

record timer_helper =
  tm_tickUnit :: TickUnit
  tm_timerTasks :: "u16 \<Rightarrow> nat list"
  tm_tick :: nat
  tm_reads :: nat
  tm_log :: "nat list"

definition timer_helper_new :: "TickUnit \<Rightarrow> timer_helper" where
  "timer_helper_new tickUnit = \<lparr>tm_tickUnit = tickUnit, tm_timerTasks = (\<lambda>_. []), tm_tick = 0, tm_reads = 0, tm_log = []\<rparr>"

text \<open>\<^verbatim>\<open>stop\<close> sets the flag before the read with the given number and waits for the thread to leave its loop.\<close>

definition timer_stop :: "nat \<Rightarrow> timer_env \<Rightarrow> timer_env" where
  "timer_stop k e = e\<lparr>te_stopped := \<lambda>i. k \<le> i \<or> te_stopped e i\<rparr>"

text \<open>The interval is an \<^verbatim>\<open>int\<close>, the key of the table an \<^verbatim>\<open>unsigned short\<close>.\<close>

definition addTimerTask :: "int \<Rightarrow> nat \<Rightarrow> timer_helper \<Rightarrow> timer_helper" where
  "addTimerTask interval task r =
    (let key = word_of_int interval in
     r\<lparr>tm_timerTasks := (tm_timerTasks r)(key := tm_timerTasks r key @ [task])\<rparr>)"

definition read_stopped :: "timer_env \<Rightarrow> timer_helper \<Rightarrow> bool \<times> timer_helper" where
  "read_stopped e r = (te_stopped e (tm_reads r), r\<lparr>tm_reads := Suc (tm_reads r)\<rparr>)"

fun onTicks_loop :: "timer_env \<Rightarrow> u16 \<Rightarrow> nat \<Rightarrow> timer_helper \<Rightarrow> timer_helper" where
  "onTicks_loop e key 0 r = r"
| "onTicks_loop e key (Suc n) r =
    (case read_stopped e r of (stopped, r1) \<Rightarrow>
       if stopped then r1
       else (case tm_timerTasks r1 key of
           [] \<Rightarrow> r1
         | task # rest \<Rightarrow>
             onTicks_loop e key n
               (r1\<lparr>tm_timerTasks := (tm_timerTasks r1)(key := if te_task e task (length (tm_log r1)) then rest @ [task] else rest),
                   tm_log := tm_log r1 @ [task]\<rparr>)))"

definition onTicks :: "timer_env \<Rightarrow> nat \<Rightarrow> timer_helper \<Rightarrow> timer_helper" where
  "onTicks e ticks r = onTicks_loop e (of_nat ticks) (length (tm_timerTasks r (of_nat ticks))) r"

fun slot_loop :: "timer_env \<Rightarrow> nat list \<Rightarrow> timer_helper \<Rightarrow> timer_helper" where
  "slot_loop e [] r = r"
| "slot_loop e (slot # slots) r =
    (case read_stopped e r of (stopped, r1) \<Rightarrow>
       if stopped then r1
       else slot_loop e slots (if tm_tick r1 mod slot = 0 then onTicks e slot r1 else r1))"

text \<open>One turn of the loop after a wait that timed out.\<close>

definition timer_turn :: "timer_env \<Rightarrow> timer_helper \<Rightarrow> timer_helper" where
  "timer_turn e r =
    (let slots = timeSlot (tm_tickUnit r); r1 = slot_loop e slots (r\<lparr>tm_tick := tm_tick r + 1\<rparr>) in
     if tm_tick r1 = last slots then r1\<lparr>tm_tick := 0\<rparr> else r1)"

text \<open>The first turns of \<^verbatim>\<open>timerProc\<close>; the flag says whether it has left the loop.\<close>

fun timerProc :: "timer_env \<Rightarrow> nat \<Rightarrow> timer_helper \<Rightarrow> bool \<times> timer_helper" where
  "timerProc e 0 r = (False, r)"
| "timerProc e (Suc n) r =
    (case read_stopped e r of (stopped, r1) \<Rightarrow> if stopped then (True, r1) else timerProc e n (timer_turn e r1))"

section \<open>The schedule\<close>

text \<open>What the table of intervals promises: the tasks of a slot run in every turn that its interval divides.\<close>

definition due :: "nat \<Rightarrow> nat \<Rightarrow> bool" where
  "due slot i \<longleftrightarrow> slot dvd i"

text \<open>What the tick, which starts again at zero after the last slot, makes of it.\<close>

definition tick_of :: "TickUnit \<Rightarrow> nat \<Rightarrow> nat" where
  "tick_of u i = (i - 1) mod last (timeSlot u) + 1"

definition fires :: "TickUnit \<Rightarrow> nat \<Rightarrow> nat \<Rightarrow> bool" where
  "fires u slot i \<longleftrightarrow> slot dvd tick_of u i"

definition schedule :: "(nat \<Rightarrow> nat \<Rightarrow> bool) \<Rightarrow> nat list \<Rightarrow> (nat \<Rightarrow> nat list) \<Rightarrow> nat \<Rightarrow> nat list" where
  "schedule runs slots tasks n = concat (map (\<lambda>i. concat (map tasks (filter (\<lambda>slot. runs slot i) slots))) [1..<Suc n])"

fun kept :: "timer_env \<Rightarrow> nat \<Rightarrow> nat list \<Rightarrow> nat list" where
  "kept e k [] = []"
| "kept e k (t # ts) = (if te_task e t k then [t] else []) @ kept e (Suc k) ts"

text \<open>
  The tasks of a slot run once each, in order, and those that return true stay, in order.
\<close>

text \<open>What a piece of the thread's work leaves of the state, apart from the reads of the flag.\<close>

definition after :: "(u16 \<Rightarrow> nat list) \<Rightarrow> nat list \<Rightarrow> nat \<Rightarrow> timer_helper \<Rightarrow> timer_helper \<Rightarrow> bool" where
  "after tasks ts tick r r' \<longleftrightarrow> tm_tickUnit r' = tm_tickUnit r \<and> tm_timerTasks r' = tasks \<and> tm_log r' = tm_log r @ ts \<and> tm_tick r' = tick"

lemma onTicks_loop_spec:
  "\<forall>k. \<not> te_stopped e k \<Longrightarrow> tm_timerTasks r key = xs @ ys \<Longrightarrow>
    after ((tm_timerTasks r)(key := ys @ kept e (length (tm_log r)) xs)) xs (tm_tick r) r (onTicks_loop e key (length xs) r)"
proof (induction xs arbitrary: r ys)
  case (Cons t xs)
  let ?keep = "te_task e t (length (tm_log r))"
  let ?r = "r\<lparr>tm_reads := Suc (tm_reads r),
    tm_timerTasks := (tm_timerTasks r)(key := if ?keep then (xs @ ys) @ [t] else xs @ ys), tm_log := tm_log r @ [t]\<rparr>"
  have "tm_timerTasks ?r key = xs @ ys @ (if ?keep then [t] else [])" by simp
  from Cons.IH [OF Cons.prems(1) this] show ?case using Cons.prems by (simp add: read_stopped_def after_def fun_eq_iff)
qed (auto simp: after_def)

lemma onTicks_spec:
  assumes "\<forall>k. \<not> te_stopped e k"
  shows "after ((tm_timerTasks r)(of_nat slot := kept e (length (tm_log r)) (tm_timerTasks r (of_nat slot))))
    (tm_timerTasks r (of_nat slot)) (tm_tick r) r (onTicks e slot r)"
  using onTicks_loop_spec [OF assms, of r "of_nat slot" "tm_timerTasks r (of_nat slot)" "[]"] by (simp add: onTicks_def)

lemma kept_all: "\<forall>t k. te_task e t k \<Longrightarrow> kept e k ts = ts"
  by (induction ts arbitrary: k) auto

abbreviation tasks_of :: "timer_helper \<Rightarrow> nat \<Rightarrow> nat list" where
  "tasks_of r \<equiv> \<lambda>s. tm_timerTasks r (of_nat s)"

lemma slot_loop_spec:
  assumes "\<forall>k. \<not> te_stopped e k" and "\<forall>t k. te_task e t k"
  shows "after (tm_timerTasks r) (concat (map (tasks_of r) (filter (\<lambda>s. s dvd tm_tick r) slots))) (tm_tick r) r (slot_loop e slots r)"
proof (induction slots arbitrary: r)
  case (Cons s slots)
  let ?r1 = "r\<lparr>tm_reads := Suc (tm_reads r)\<rparr>"
  have "after (tm_timerTasks r) (tasks_of r s) (tm_tick r) r (onTicks e s ?r1)"
    using onTicks_spec [OF assms(1), of ?r1 s] by (simp add: kept_all [OF assms(2)] after_def)
  then show ?case using Cons.IH [of ?r1] Cons.IH [of "onTicks e s ?r1"] assms(1)
    by (simp add: after_def read_stopped_def dvd_eq_mod_eq_0)
qed (simp add: after_def)

lemma timeSlot_last: "0 < last (timeSlot u)"
  by (cases u) auto

lemma timer_turn_spec:
  assumes "\<forall>k. \<not> te_stopped e k" and "\<forall>t k. te_task e t k" and "tm_tickUnit r = u" and "tm_tick r = n mod last (timeSlot u)"
  shows "after (tm_timerTasks r) (concat (map (tasks_of r) (filter (\<lambda>s. fires u s (Suc n)) (timeSlot u))))
    (Suc n mod last (timeSlot u)) r (timer_turn e r)"
proof -
  define r1 where "r1 = slot_loop e (timeSlot u) (r\<lparr>tm_tick := tm_tick r + 1\<rparr>)"
  have t: "timer_turn e r = (if tm_tick r1 = last (timeSlot u) then r1\<lparr>tm_tick := 0\<rparr> else r1)"
    by (simp add: timer_turn_def r1_def assms(3))
  have "after (tm_timerTasks r) (concat (map (tasks_of r) (filter (\<lambda>s. fires u s (Suc n)) (timeSlot u)))) (Suc (tm_tick r)) r r1"
    using slot_loop_spec [OF assms(1,2), of "r\<lparr>tm_tick := tm_tick r + 1\<rparr>" "timeSlot u"]
    by (simp add: r1_def after_def fires_def tick_of_def assms(4))
  moreover have "Suc n mod last (timeSlot u) = (if Suc (tm_tick r) = last (timeSlot u) then 0 else Suc (tm_tick r))"
    by (simp add: assms(4) mod_Suc)
  ultimately show ?thesis by (auto simp: t after_def)
qed

lemma timerProc_schedule:
  assumes "\<forall>k. \<not> te_stopped e k" and "\<forall>t k. te_task e t k" and "tm_tickUnit r = u" and "tm_tick r = m mod last (timeSlot u)"
  shows "\<not> fst (timerProc e n r) \<and>
    after (tm_timerTasks r) (concat (map (\<lambda>i. concat (map (tasks_of r) (filter (\<lambda>s. fires u s i) (timeSlot u)))) [Suc m..<Suc (m + n)]))
      ((m + n) mod last (timeSlot u)) r (snd (timerProc e n r))"
  using assms(3,4)
proof (induction n arbitrary: r m)
  case (Suc n)
  let ?r1 = "r\<lparr>tm_reads := Suc (tm_reads r)\<rparr>"
  have t: "after (tm_timerTasks r) (concat (map (tasks_of r) (filter (\<lambda>s. fires u s (Suc m)) (timeSlot u))))
      (Suc m mod last (timeSlot u)) r (timer_turn e ?r1)"
    using timer_turn_spec [OF assms(1,2), of ?r1 u m] Suc.prems by (simp add: after_def)
  have "[Suc m..<Suc (m + Suc n)] = Suc m # [Suc (Suc m)..<Suc (Suc m + n)]" by (simp add: upt_conv_Cons)
  then show ?case using Suc.IH [of "timer_turn e ?r1" "Suc m"] t assms(1) Suc.prems(1)
    by (simp add: after_def read_stopped_def)
qed (simp add: after_def)

section \<open>Stopping\<close>

lemma reads_onTicks_loop: "tm_reads r \<le> tm_reads (onTicks_loop e key n r)"
proof (induction e key n r rule: onTicks_loop.induct)
  case (2 e key n r)
  then show ?case by (fastforce simp: read_stopped_def split: list.splits)
qed simp

lemma reads_slot_loop: "tm_reads r \<le> tm_reads (slot_loop e slots r)"
proof (induction e slots r rule: slot_loop.induct)
  case (2 e slot slots r)
  have "tm_reads x \<le> tm_reads (onTicks e slot x)" for x by (simp add: onTicks_def reads_onTicks_loop)
  from this [of "r\<lparr>tm_reads := Suc (tm_reads r)\<rparr>"] 2 show ?case by (fastforce simp: read_stopped_def)
qed simp

lemma reads_turn: "tm_reads r \<le> tm_reads (timer_turn e r)"
  using reads_slot_loop [of "r\<lparr>tm_tick := tm_tick r + 1\<rparr>" e] by (simp add: timer_turn_def Let_def)

section \<open>Which intervals are kept\<close>

lemma tick_of_dvd:
  assumes "s dvd last (timeSlot u)" and "0 < i"
  shows "fires u s i \<longleftrightarrow> due s i"
proof -
  let ?L = "last (timeSlot u)"
  obtain j where i: "i = Suc j" using assms(2) by (cases i) auto
  have "s dvd j mod ?L + 1 \<longleftrightarrow> s dvd j mod ?L + 1 + ?L * (j div ?L)"
    using dvd_add_left_iff [OF dvd_mult2 [OF assms(1)], of "j mod ?L + 1" "j div ?L"] by simp
  also have "j mod ?L + 1 + ?L * (j div ?L) = i" by (simp add: i)
  finally show ?thesis by (simp add: fires_def due_def tick_of_def i)
qed

text \<open>The first turn after the tick started again shows an interval that does not divide the last slot.\<close>

lemma tick_of_not_dvd:
  assumes "\<not> s dvd last (timeSlot u)" and "0 < s" and "s \<le> last (timeSlot u)"
  shows "fires u s (last (timeSlot u) + s) \<and> \<not> due s (last (timeSlot u) + s)"
proof -
  let ?L = "last (timeSlot u)"
  have "(?L + s - 1) mod ?L = s - 1" using assms(2,3) by (cases s) (simp_all add: mod_if)
  then have "tick_of u (?L + s) = s" using assms(2) by (simp add: tick_of_def)
  moreover have "\<not> s dvd ?L + s" using assms(1) by simp
  ultimately show ?thesis by (simp add: fires_def due_def)
qed

lemma exact_slots: "filter (\<lambda>s. s dvd last (timeSlot u)) (timeSlot u) =
    (case u of TenMilliSec \<Rightarrow> [1, 2, 5, 10, 20, 50, 100] | TenSecond \<Rightarrow> [1, 2, 3, 6, 12, 30, 60] | _ \<Rightarrow> timeSlot u)"
  by (cases u) (auto simp: dvd_eq_mod_eq_0)

lemma slot_bounds: "s \<in> set (timeSlot u) \<Longrightarrow> 0 < s \<and> s \<le> last (timeSlot u)"
  by (cases u) auto

lemma timer_log:
  assumes "\<forall>k. \<not> te_stopped e k" and "\<forall>t k. te_task e t k" and "tm_tick r = 0" and "tm_log r = []"
  shows "tm_log (snd (timerProc e n r)) = schedule (fires (tm_tickUnit r)) (timeSlot (tm_tickUnit r)) (tasks_of r) n"
  using timerProc_schedule [OF assms(1,2) refl, of r 0 n] assms(3,4) by (simp only: schedule_def after_def) simp

lemma schedule_exact:
  assumes "\<forall>s \<in> set (timeSlot u). tasks s \<noteq> [] \<longrightarrow> s dvd last (timeSlot u)"
  shows "schedule (fires u) (timeSlot u) tasks n = schedule due (timeSlot u) tasks n"
proof -
  have "concat (map tasks (filter (\<lambda>s. fires u s i) ss)) = concat (map tasks (filter (\<lambda>s. due s i) ss))"
    if "0 < i" and "set ss \<subseteq> set (timeSlot u)" for i ss
    using that assms tick_of_dvd by (induction ss) auto
  then have "map (\<lambda>i. concat (map tasks (filter (\<lambda>s. fires u s i) (timeSlot u)))) is =
      map (\<lambda>i. concat (map tasks (filter (\<lambda>s. due s i) (timeSlot u)))) is" if "\<forall>i \<in> set is. 0 < i" for "is"
    using that by (induction "is") simp_all
  moreover have "\<forall>i \<in> set [1..<Suc n]. 0 < i" by auto
  ultimately show ?thesis unfolding schedule_def by presburger
qed

text \<open>
  C35: The timer runs its tasks by the reference schedule: when every task asks to be kept, the tasks that ran in the
  first \<open>n\<close> turns are, in order, those whose interval divides the number of the turn, whenever every interval
  in use divides the longest one of the unit, as all intervals of the units of a second and of a minute do.
\<close>
theorem timer_runs_reference_schedule:
  assumes "\<forall>k. \<not> te_stopped e k" and "\<forall>t k. te_task e t k" and "tm_tick r = 0" and "tm_log r = []"
    and "\<forall>s \<in> set (timeSlot (tm_tickUnit r)). tm_timerTasks r (of_nat s) \<noteq> [] \<longrightarrow> s dvd last (timeSlot (tm_tickUnit r))"
  shows "tm_log (snd (timerProc e n r)) = schedule due (timeSlot (tm_tickUnit r)) (\<lambda>s. tm_timerTasks r (of_nat s)) n"
  using timer_log [OF assms(1-4)] schedule_exact [of _ "tasks_of r", OF assms(5)] by simp

text \<open>A second timer with three tasks, two of them in one slot.\<close>

definition sample_timer :: "TickUnit \<Rightarrow> timer_helper" where
  "sample_timer u = addTimerTask 3 8 (addTimerTask 2 7 (addTimerTask 3 9 (timer_helper_new u)))"

theorem timer_runs_reference_schedule_witness:
  "\<exists>e. tm_log (snd (timerProc e 6 (sample_timer Second))) = [7, 9, 8, 7, 7, 9, 8]"
proof -
  let ?e = "\<lparr>te_stopped = \<lambda>_. False, te_task = \<lambda>_ _. True\<rparr>" and ?r = "sample_timer Second"
  have d: "\<forall>s \<in> set (timeSlot (tm_tickUnit ?r)). tm_timerTasks ?r (of_nat s) \<noteq> [] \<longrightarrow> s dvd last (timeSlot (tm_tickUnit ?r))"
    by (simp add: sample_timer_def addTimerTask_def timer_helper_new_def dvd_eq_mod_eq_0)
  have "tm_log (snd (timerProc ?e 6 ?r)) = schedule due (timeSlot (tm_tickUnit ?r)) (tasks_of ?r) 6"
    using timer_runs_reference_schedule [OF _ _ _ _ d, of ?e 6]
    by (simp add: sample_timer_def addTimerTask_def timer_helper_new_def)
  also have "\<dots> = [7, 9, 8, 7, 7, 9, 8]"
    by (simp add: schedule_def due_def sample_timer_def addTimerTask_def timer_helper_new_def upt_rec dvd_eq_mod_eq_0)
  finally show ?thesis by blast
qed
text \<open>
  Stopping the timer: once the flag is set for good, the thread leaves its loop within one turn for each read
  of the flag that came before, and from then on no task is run.
\<close>
theorem timer_stops:
  "fst (timerProc (timer_stop K e) (Suc K) r) \<and> (tm_reads r \<ge> K \<longrightarrow> tm_log (snd (timerProc (timer_stop K e) n r)) = tm_log r)"
proof
  let ?e = "timer_stop K e"
  have "fst (timerProc ?e n r)" if "0 < n" and "K < tm_reads r + n" for n
    using that
  proof (induction n arbitrary: r)
    case (Suc n)
    show ?case
    proof (cases "te_stopped ?e (tm_reads r)")
      case False
      then have "tm_reads r < K" by (simp add: timer_stop_def)
      then have "fst (timerProc ?e n (timer_turn ?e (r\<lparr>tm_reads := Suc (tm_reads r)\<rparr>)))"
        using reads_turn [of "r\<lparr>tm_reads := Suc (tm_reads r)\<rparr>" ?e] Suc.prems by (intro Suc.IH) simp_all
      with False show ?thesis by (simp add: read_stopped_def)
    qed (simp add: read_stopped_def)
  qed simp
  from this [of "Suc K"] show "fst (timerProc ?e (Suc K) r)" by (simp del: timerProc.simps)
  show "tm_reads r \<ge> K \<longrightarrow> tm_log (snd (timerProc ?e n r)) = tm_log r"
    by (cases n) (auto simp: read_stopped_def timer_stop_def)
qed

theorem timer_stops_witness:
  "\<exists>e. fst (timerProc e (Suc 33) (sample_timer Second)) \<and> tm_log (snd (timerProc e (Suc 33) (sample_timer Second))) = [7, 9, 8] \<and>
    tm_log (snd (timerProc e 5 (snd (timerProc e 34 (sample_timer Second))))) = [7, 9, 8]"
proof -
  let ?e = "timer_stop 33 \<lparr>te_stopped = \<lambda>_. False, te_task = \<lambda>_ _. True\<rparr>" and ?r = "sample_timer Second"
  have f: "fst (timerProc ?e (Suc 33) ?r)" using timer_stops [of 33] by blast
  have l: "tm_log (snd (timerProc ?e 34 ?r)) = [7, 9, 8]" "33 \<le> tm_reads (snd (timerProc ?e 34 ?r))" by code_simp+
  then have "tm_log (snd (timerProc ?e 5 (snd (timerProc ?e 34 ?r)))) = [7, 9, 8]" using timer_stops [of 33] by auto
  moreover have "Suc 33 = 34" by simp
  ultimately show ?thesis using f l(1) by metis
qed

section \<open>Intervals that drift\<close>

lemma schedule_Suc:
  "schedule runs slots tasks (Suc n) = schedule runs slots tasks n @ concat (map tasks (filter (\<lambda>s. runs s (Suc n)) slots))"
  by (simp add: schedule_def)

lemma slots_distinct: "distinct (timeSlot u)"
  by (cases u) auto

lemma single_slot:
  assumes "s \<in> set slots" and "distinct slots" and "\<forall>s' \<in> set slots. s' \<noteq> s \<longrightarrow> tasks s' = []"
  shows "concat (map tasks (filter P slots)) = (if P s then tasks s else [])"
  using assms by (induction slots) auto

lemma schedules_differ:
  assumes "s \<in> set (timeSlot u)" and "\<forall>s' \<in> set (timeSlot u). s' \<noteq> s \<longrightarrow> tasks s' = []" and "tasks s \<noteq> []"
    and "\<forall>n. schedule (fires u) (timeSlot u) tasks n = schedule due (timeSlot u) tasks n"
  shows "fires u s (Suc n) \<longleftrightarrow> due s (Suc n)"
  using assms(4) [rule_format, of "Suc n"] assms(4) [rule_format, of n] assms(3)
  by (simp add: schedule_Suc single_slot [OF assms(1) slots_distinct assms(2)] split: if_splits)

text \<open>
  Which intervals the timer keeps: a task that is added with an interval of the table runs by the reference
  schedule for ever, except with the intervals of 30 and 300 milliseconds, of 90 seconds and of three
  minutes of the units of ten milliseconds and ten seconds, which do not divide the longest interval of their
  unit and start again with it.
\<close>
theorem timer_intervals_kept:
  assumes "\<forall>k. \<not> te_stopped e k" and "\<forall>t k. te_task e t k" and "s \<in> set (timeSlot u)"
  shows "(\<forall>n. tm_log (snd (timerProc e n (addTimerTask (int s) t (timer_helper_new u)))) =
      schedule due (timeSlot u) (\<lambda>s'. if s' = s then [t] else []) n) \<longleftrightarrow>
    (u, s) \<notin> {(TenMilliSec, 3), (TenMilliSec, 30), (TenSecond, 9), (TenSecond, 18)}"
proof -
  let ?tasks = "\<lambda>s'. if s' = s then [t] else []" and ?r = "addTimerTask (int s) t (timer_helper_new u)"
  have small: "s' < 2 ^ 16" if "s' \<in> set (timeSlot u)" for s' using that by (cases u) auto
  have "tasks_of ?r s' = ?tasks s'" if "s' \<in> set (timeSlot u)" for s'
    using small [OF that] small [OF assms(3)] by (auto simp: addTimerTask_def timer_helper_new_def word_of_nat_eq_iff take_bit_nat_eq_self)
  then have "schedule runs (timeSlot u) (tasks_of ?r) n = schedule runs (timeSlot u) ?tasks n" for runs n
    unfolding schedule_def by (intro arg_cong [where f = concat] map_cong refl) auto
  then have log: "tm_log (snd (timerProc e n ?r)) = schedule (fires u) (timeSlot u) ?tasks n" for n
    using timer_log [OF assms(1,2), of ?r n] by (simp add: addTimerTask_def timer_helper_new_def)
  have dvd: "s dvd last (timeSlot u) \<longleftrightarrow> (u, s) \<notin> {(TenMilliSec, 3), (TenMilliSec, 30), (TenSecond, 9), (TenSecond, 18)}"
    using assms(3) by (cases u) (auto simp: dvd_eq_mod_eq_0)
  show ?thesis
  proof (cases "s dvd last (timeSlot u)")
    case True
    then show ?thesis using dvd schedule_exact [of u ?tasks] by (simp add: log)
  next
    case False
    obtain m where m: "last (timeSlot u) + s = Suc m" using slot_bounds [OF assms(3)] by (cases "last (timeSlot u) + s") auto
    have "\<not> (\<forall>n. schedule (fires u) (timeSlot u) ?tasks n = schedule due (timeSlot u) ?tasks n)"
      using schedules_differ [OF assms(3), of ?tasks m] tick_of_not_dvd [OF False] slot_bounds [OF assms(3)] by (auto simp: m)
    then show ?thesis using dvd False by (simp add: log)
  qed
qed

theorem timer_intervals_kept_witness:
  "\<exists>e. \<not> (\<forall>n. tm_log (snd (timerProc e n (addTimerTask 9 5 (timer_helper_new TenSecond)))) =
    schedule due (timeSlot TenSecond) (\<lambda>s. if s = 9 then [5] else []) n)"
  using timer_intervals_kept [of "\<lparr>te_stopped = \<lambda>_. False, te_task = \<lambda>_ _. True\<rparr>" 9 TenSecond 5] by auto

end
