(* ===== verification/RequestStat.thy ===== *)
theory RequestStat
  imports TimerHelper "HOL-Library.Signed_Division" "HOL-Library.AList" "HOL-Library.Multiset"
begin

text \<open>
  The request statistics of \<^verbatim>\<open>src/zbf/request_stat.hpp\<close>.  Counters are atomic integers and wrap; a histogram also keeps the
  greatest and the least cost.  \<^verbatim>\<open>percentile\<close> computes with plain \<^verbatim>\<open>int\<close>, where an overflow is undefined: it is the left
  side of the result.  Its fraction is a \<^verbatim>\<open>double\<close>; \<open>scale total\<close> stands for \<^verbatim>\<open>static_cast<int>(total * p)\<close>.  The times that the
  monotonic clock gives are arguments.  The iteration order of hash maps is that of the lists.

  Shown: a histogram represents the costs that were observed; a percentile lies in the bucket of the cost of that
  rank, and does not overflow while the number of requests times the greatest cost fits an \<^verbatim>\<open>int\<close>; the number of
  requests in flight is exact as long as requests of one type do not overlap; reports lose nothing.
\<close>

type_synonym i32 = "32 word"
type_synonym i64 = "64 word"

datatype arith_error = SignedOverflow

definition INT_LIMIT :: int where "INT_LIMIT = 2 ^ 31"

definition fits_int :: "int \<Rightarrow> bool" where
  "fits_int x \<longleftrightarrow> - INT_LIMIT \<le> x \<and> x < INT_LIMIT"

section \<open>Histograms\<close>

definition kNumBuckets :: nat where "kNumBuckets = 14"

definition kLimits :: "int list" where
  "kLimits = [1, 2, 5, 10, 20, 50, 100, 200, 500, 1000, 2000, 5000, 10000]"

record Histogram =
  hg_buckets :: "i32 list"
  hg_count :: i32
  hg_sum :: i64
  hg_maxCost :: int
  hg_minCost :: int

definition Histogram_new :: Histogram where
  "Histogram_new = \<lparr>hg_buckets = replicate kNumBuckets 0, hg_count = 0, hg_sum = 0, hg_maxCost = 0, hg_minCost = INT_LIMIT - 1\<rparr>"

text \<open>\<^verbatim>\<open>while (idx < kNumBuckets - 1 && costMs > kLimits[idx]) ++idx;\<close>\<close>

fun bucket_loop :: "int list \<Rightarrow> nat \<Rightarrow> int \<Rightarrow> nat" where
  "bucket_loop [] idx costMs = idx"
| "bucket_loop (l # ls) idx costMs = (if costMs > l then bucket_loop ls (Suc idx) costMs else idx)"

definition bucket_of :: "int \<Rightarrow> nat" where
  "bucket_of costMs = bucket_loop kLimits 0 costMs"

definition observe :: "int \<Rightarrow> Histogram \<Rightarrow> Histogram" where
  "observe costMs h =
    (if costMs < 0 then h
     else let idx = bucket_of costMs in
       h\<lparr>hg_buckets := (hg_buckets h)[idx := hg_buckets h ! idx + 1], hg_count := hg_count h + 1,
         hg_sum := hg_sum h + word_of_int costMs, hg_maxCost := max (hg_maxCost h) costMs, hg_minCost := min (hg_minCost h) costMs\<rparr>)"

record HistSnapshot =
  sn_buckets :: "int list"
  sn_count :: int
  sn_sum :: int
  sn_maxCost :: int
  sn_minCost :: int

definition hist_snapshot :: "Histogram \<Rightarrow> HistSnapshot \<times> Histogram" where
  "hist_snapshot h =
    (\<lparr>sn_buckets = map sint (hg_buckets h), sn_count = sint (hg_count h), sn_sum = sint (hg_sum h), sn_maxCost = hg_maxCost h,
      sn_minCost = hg_minCost h\<rparr>, Histogram_new)"

definition bucket_lower :: "nat \<Rightarrow> int" where
  "bucket_lower i = (if i = 0 then 0 else kLimits ! (i - 1))"

definition bucket_upper :: "int \<Rightarrow> nat \<Rightarrow> int" where
  "bucket_upper maxCost i = (if i = kNumBuckets - 1 then maxCost else min maxCost (kLimits ! i))"

fun percentile_loop :: "int \<Rightarrow> int \<Rightarrow> nat \<Rightarrow> int \<Rightarrow> int list \<Rightarrow> arith_error + int" where
  "percentile_loop target maxCost i acc [] = Inr maxCost"
| "percentile_loop target maxCost i acc (inBucket # bs) =
    (let acc' = acc + inBucket in
     if \<not> fits_int acc' then Inl SignedOverflow
     else if acc' > target then
       (let lower = bucket_lower i; upper = bucket_upper maxCost i; needed = target - (acc' - inBucket);
            scaled = needed * (upper - lower) in
        if inBucket = 0 then Inr lower
        else if \<not> fits_int scaled then Inl SignedOverflow
        else Inr (lower + scaled sdiv inBucket))
     else percentile_loop target maxCost (Suc i) acc' bs)"

definition percentile :: "(int \<Rightarrow> int) \<Rightarrow> int \<Rightarrow> int list \<Rightarrow> int \<Rightarrow> arith_error + int" where
  "percentile scale cnt buckets maxCost =
    (if cnt = 0 then Inr 0
     else let target = scale cnt; target = (if target \<ge> cnt then cnt - 1 else target) in
       percentile_loop target maxCost 0 0 buckets)"

section \<open>Statistics of a thread\<close>

record PerTypeMetrics =
  pm_latencyHist :: Histogram
  pm_totalCount :: i32
  pm_totalReqBytes :: i64
  pm_totalRspBytes :: i64

definition PerTypeMetrics_new :: PerTypeMetrics where
  "PerTypeMetrics_new = \<lparr>pm_latencyHist = Histogram_new, pm_totalCount = 0, pm_totalReqBytes = 0, pm_totalRspBytes = 0\<rparr>"

record RequestStat =
  rs_userThdId :: int
  rs_inflightCount :: u32
  rs_maxQueueDepth :: u32
  rs_reqStartTime :: "(u32 \<times> int) list"
  rs_metrics :: "(u32 \<times> PerTypeMetrics) list"

definition RequestStat_new :: "int \<Rightarrow> RequestStat" where
  "RequestStat_new userThdId = \<lparr>rs_userThdId = userThdId, rs_inflightCount = 0, rs_maxQueueDepth = 0, rs_reqStartTime = [], rs_metrics = []\<rparr>"

definition TimeStampErr :: int where "TimeStampErr = 0"

definition onReqStart :: "int \<Rightarrow> u32 \<Rightarrow> RequestStat \<Rightarrow> RequestStat" where
  "onReqStart now requestType s =
    s\<lparr>rs_inflightCount := rs_inflightCount s + 1, rs_reqStartTime := AList.update requestType now (rs_reqStartTime s)\<rparr>"

definition getOrCreateMetrics :: "u32 \<Rightarrow> RequestStat \<Rightarrow> PerTypeMetrics" where
  "getOrCreateMetrics ty s = (case map_of (rs_metrics s) ty of Some m \<Rightarrow> m | None \<Rightarrow> PerTypeMetrics_new)"

text \<open>The difference of two times is a \<^verbatim>\<open>long\<close>, the cost an \<^verbatim>\<open>int\<close>.\<close>

definition onReqFinish :: "int \<Rightarrow> u32 \<Rightarrow> u32 \<Rightarrow> u32 \<Rightarrow> RequestStat \<Rightarrow> RequestStat" where
  "onReqFinish now requestType reqBytes rspBytes s =
    (case map_of (rs_reqStartTime s) requestType of
       None \<Rightarrow> s
     | Some start \<Rightarrow>
         let s1 = s\<lparr>rs_inflightCount := rs_inflightCount s - 1, rs_reqStartTime := AList.delete requestType (rs_reqStartTime s)\<rparr> in
         if start = TimeStampErr \<or> now = TimeStampErr then s1
         else
           let costTime = sint (word_of_int (now - start) :: i32); m = getOrCreateMetrics requestType s1 in
           s1\<lparr>rs_metrics := AList.update requestType
             (m\<lparr>pm_totalCount := pm_totalCount m + 1, pm_totalReqBytes := pm_totalReqBytes m + ucast reqBytes,
                pm_totalRspBytes := pm_totalRspBytes m + ucast rspBytes, pm_latencyHist := observe costTime (pm_latencyHist m)\<rparr>)
             (rs_metrics s1)\<rparr>)"

definition sampleQueueDepth :: "u32 \<Rightarrow> RequestStat \<Rightarrow> RequestStat" where
  "sampleQueueDepth depth s = s\<lparr>rs_maxQueueDepth := max (rs_maxQueueDepth s) depth\<rparr>"

record TypeSnapshot =
  ts_requestType :: u32
  ts_totalCount :: int
  ts_totalReqBytes :: int
  ts_totalRspBytes :: int
  ts_histSnap :: HistSnapshot

record StatSnapshot =
  ss_userThdId :: int
  ss_inflightCount :: u32
  ss_maxQueueDepth :: u32
  ss_types :: "TypeSnapshot list"

definition type_snapshot :: "u32 \<Rightarrow> PerTypeMetrics \<Rightarrow> TypeSnapshot \<times> PerTypeMetrics" where
  "type_snapshot ty m =
    (case hist_snapshot (pm_latencyHist m) of (hs, h) \<Rightarrow>
       (\<lparr>ts_requestType = ty, ts_totalCount = sint (pm_totalCount m), ts_totalReqBytes = sint (pm_totalReqBytes m),
         ts_totalRspBytes = sint (pm_totalRspBytes m), ts_histSnap = hs\<rparr>,
        m\<lparr>pm_totalCount := 0, pm_totalReqBytes := 0, pm_totalRspBytes := 0, pm_latencyHist := h\<rparr>))"

definition consume :: "RequestStat \<Rightarrow> StatSnapshot \<times> RequestStat" where
  "consume s =
    (\<lparr>ss_userThdId = rs_userThdId s, ss_inflightCount = rs_inflightCount s, ss_maxQueueDepth = rs_maxQueueDepth s,
      ss_types = map (\<lambda>(ty, m). fst (type_snapshot ty m)) (rs_metrics s)\<rparr>,
     s\<lparr>rs_maxQueueDepth := 0, rs_metrics := map (\<lambda>(ty, m). (ty, snd (type_snapshot ty m))) (rs_metrics s)\<rparr>)"

section \<open>Reports\<close>

record StatBill =
  sb_userThdId :: int
  sb_requestType :: u32
  sb_totalCount :: int
  sb_totalReqBytes :: int
  sb_totalRspBytes :: int
  sb_inflightCount :: u32
  sb_maxQueueDepth :: u32
  sb_avgCost :: int
  sb_maxCost :: int
  sb_minCost :: int
  sb_percentiles :: "(arith_error + int) list"

text \<open>\<open>scales\<close> stands for the multiplications by 0.50, 0.80, 0.90, 0.95 and 0.99.\<close>

definition stat_bill :: "(int \<Rightarrow> int) list \<Rightarrow> StatSnapshot \<Rightarrow> TypeSnapshot \<Rightarrow> StatBill" where
  "stat_bill scales snap ts =
    (let hs = ts_histSnap ts; some = sn_count hs > 0 in
     \<lparr>sb_userThdId = ss_userThdId snap, sb_requestType = ts_requestType ts, sb_totalCount = ts_totalCount ts,
      sb_totalReqBytes = ts_totalReqBytes ts, sb_totalRspBytes = ts_totalRspBytes ts, sb_inflightCount = ss_inflightCount snap,
      sb_maxQueueDepth = ss_maxQueueDepth snap,
      sb_avgCost = (if some then sint (word_of_int (sn_sum hs sdiv sn_count hs) :: i32) else 0),
      sb_maxCost = (if some then sn_maxCost hs else 0), sb_minCost = (if some then sn_minCost hs else 0),
      sb_percentiles = (if some then map (\<lambda>scale. percentile scale (sn_count hs) (sn_buckets hs) (sn_maxCost hs)) scales
        else replicate (length scales) (Inr 0))\<rparr>)"

text \<open>\<^verbatim>\<open>ReqStatLogger\<close>: the registered statistics, and the bills that \<^verbatim>\<open>onStat\<close> logs.\<close>

record ReqStatLogger =
  lg_interval :: int
  lg_tmHelper :: timer_helper
  lg_allStat :: "nat list"

definition ReqStatLogger_new :: "int \<Rightarrow> TickUnit \<Rightarrow> ReqStatLogger" where
  "ReqStatLogger_new interval unit = \<lparr>lg_interval = interval, lg_tmHelper = timer_helper_new unit, lg_allStat = []\<rparr>"

definition logger_start :: "nat \<Rightarrow> ReqStatLogger \<Rightarrow> ReqStatLogger" where
  "logger_start onStatTask lg = lg\<lparr>lg_tmHelper := addTimerTask (lg_interval lg) onStatTask (lg_tmHelper lg)\<rparr>"

definition logger_stop :: "ReqStatLogger \<Rightarrow> ReqStatLogger" where
  "logger_stop lg = lg\<lparr>lg_allStat := []\<rparr>"

definition logger_add :: "nat \<Rightarrow> ReqStatLogger \<Rightarrow> ReqStatLogger" where
  "logger_add reqStat lg = lg\<lparr>lg_allStat := lg_allStat lg @ [reqStat]\<rparr>"

fun onStat_loop :: "(int \<Rightarrow> int) list \<Rightarrow> nat list \<Rightarrow> (nat \<Rightarrow> RequestStat) \<Rightarrow> StatBill list \<times> (nat \<Rightarrow> RequestStat)" where
  "onStat_loop scales [] heap = ([], heap)"
| "onStat_loop scales (reqStat # rest) heap =
    (case consume (heap reqStat) of (snap, s') \<Rightarrow>
       case onStat_loop scales rest (heap(reqStat := s')) of (bills, heap') \<Rightarrow>
         (filter (\<lambda>b. sb_totalCount b > 0) (map (stat_bill scales snap) (ss_types snap)) @ bills, heap'))"

definition onStat :: "(int \<Rightarrow> int) list \<Rightarrow> ReqStatLogger \<Rightarrow> (nat \<Rightarrow> RequestStat) \<Rightarrow> StatBill list \<times> (nat \<Rightarrow> RequestStat)" where
  "onStat scales lg heap = onStat_loop scales (lg_allStat lg) heap"

section \<open>What a histogram represents\<close>

lemma bucket_loop_bounds: "idx \<le> bucket_loop ls idx c \<and> bucket_loop ls idx c \<le> idx + length ls"
proof (induction ls idx c rule: bucket_loop.induct)
  case (2 l ls idx c)
  then show ?case by (cases "c > l") auto
qed simp

lemma bucket_of_less: "bucket_of c < kNumBuckets"
  using bucket_loop_bounds [of 0 kLimits c] by (simp add: bucket_of_def kLimits_def kNumBuckets_def)

lemma bucket_of_mono: "c \<le> d \<Longrightarrow> bucket_of c \<le> bucket_of d"
proof -
  have "c \<le> d \<Longrightarrow> bucket_loop ls idx c \<le> bucket_loop ls idx d" for ls idx
  proof (induction ls arbitrary: idx)
    case (Cons l ls)
    then show ?case using bucket_loop_bounds [of "Suc idx" ls d] by auto
  qed simp
  then show "c \<le> d \<Longrightarrow> bucket_of c \<le> bucket_of d" by (simp add: bucket_of_def)
qed

lemma bucket_range:
  assumes "0 \<le> c" and "c \<le> m"
  shows "bucket_lower (bucket_of c) \<le> c \<and> c \<le> bucket_upper m (bucket_of c)"
  using assms by (simp add: bucket_of_def bucket_lower_def bucket_upper_def kLimits_def kNumBuckets_def)

lemma bucket_lower_nonneg:
  assumes "i < kNumBuckets"
  shows "0 \<le> bucket_lower i"
proof -
  have "\<forall>l \<in> set kLimits. 0 \<le> l" by (simp add: kLimits_def)
  moreover have "i \<noteq> 0 \<Longrightarrow> i - 1 < length kLimits" using assms by (simp add: kLimits_def kNumBuckets_def)
  ultimately show ?thesis by (auto simp: bucket_lower_def)
qed

definition hist_rep :: "int list \<Rightarrow> Histogram \<Rightarrow> bool" where
  "hist_rep costs h \<longleftrightarrow> list_all (\<lambda>c. 0 \<le> c \<and> c < INT_LIMIT) costs \<and> hg_buckets h = map (\<lambda>i. of_nat (count_list (map bucket_of costs) i)) [0..<kNumBuckets] \<and>
     hg_count h = of_nat (length costs) \<and> hg_sum h = word_of_int (sum_list costs) \<and>
     hg_maxCost h = fold max costs 0 \<and> hg_minCost h = fold min costs (INT_LIMIT - 1)"

lemma hist_rep_new: "hist_rep [] Histogram_new"
  by (simp add: hist_rep_def Histogram_new_def kNumBuckets_def map_replicate_const)

lemma hist_rep_observe:
  assumes "hist_rep costs h" and "0 \<le> c" and "c < INT_LIMIT"
  shows "hist_rep (costs @ [c]) (observe c h)"
proof -
  let ?f = "\<lambda>xs i. of_nat (count_list (map bucket_of xs) i) :: i32" and ?b = "bucket_of c"
  have "(map (?f costs) [0..<kNumBuckets])[?b := ?f costs ?b + 1] = map (?f (costs @ [c])) [0..<kNumBuckets]"
    by (rule nth_equalityI) (auto simp: nth_list_update)
  moreover have "map (?f costs) [0..<kNumBuckets] ! ?b = ?f costs ?b" using bucket_of_less [of c] by simp
  ultimately show ?thesis using assms
    by (simp add: hist_rep_def observe_def Let_def max.commute min.commute)
qed

text \<open>Ranks: in a sorted list the elements below a bound of a monotone measure come first.\<close>

lemma sorted_rank:
  fixes ys :: "int list"
  assumes "sorted ys" and "\<And>x y. x \<le> y \<Longrightarrow> f x \<le> (f y :: nat)" and "t < length ys"
  shows "f (ys ! t) < i \<longleftrightarrow> t < length (filter (\<lambda>x. f x < i) ys)"
  using assms(1,3)
proof (induction ys arbitrary: t)
  case (Cons y ys)
  show ?case
  proof (cases "f y < i")
    case True
    then show ?thesis using Cons by (cases t) auto
  next
    case False
    have "\<not> f z < i" if "z \<in> set (y # ys)" for z using that Cons.prems(1) assms(2) False by (fastforce dest: order_trans)
    then have "filter (\<lambda>x. f x < i) (y # ys) = []" and "\<not> f ((y # ys) ! t) < i"
      using Cons.prems(2) nth_mem [of t "y # ys"] by (auto simp: filter_empty_conv)
    then show ?thesis by (metis gr_implies_not0 list.size(3))
  qed
qed simp

definition below :: "int list \<Rightarrow> nat \<Rightarrow> nat" where
  "below costs i = length (filter (\<lambda>c. bucket_of c < i) costs)"

definition within :: "int list \<Rightarrow> nat \<Rightarrow> nat" where
  "within costs i = count_list (map bucket_of costs) i"

lemma below_Suc: "below costs (Suc i) = below costs i + within costs i"
  by (induction costs) (auto simp: below_def within_def)

lemma below_all: "below costs kNumBuckets = length costs"
  using bucket_of_less by (simp add: below_def)

lemma within_le: "within costs i \<le> length costs"
  by (metis count_le_length length_map within_def)

lemma rank_bucket:
  assumes "t < length costs"
  shows "bucket_of (sort costs ! t) = i \<longleftrightarrow> below costs i \<le> t \<and> t < below costs (Suc i)"
proof -
  have b: "length (filter (\<lambda>c. bucket_of c < i) (sort costs)) = below costs i" for i
    unfolding below_def by (metis filter_sort length_sort)
  have "bucket_of (sort costs ! t) < i \<longleftrightarrow> t < below costs i" for i
    using sorted_rank [of "sort costs" bucket_of t i] bucket_of_mono assms by (simp add: b)
  from this [of i] this [of "Suc i"] show ?thesis by auto
qed

lemma fold_max_upper: "c \<in> set costs \<Longrightarrow> (c :: int) \<le> fold max costs z"
  by (metis List.finite_set Max.set_eq_fold Max_ge list.set_intros(2))

lemma sdiv_pos: "0 \<le> a \<Longrightarrow> 0 < b \<Longrightarrow> (a :: int) sdiv b = a div b"
  by (simp add: signed_divide_int_def sgn_if)

lemma percentile_loop_correct:
  assumes "list_all (\<lambda>c. 0 \<le> c) costs" and "t < length costs" and "below costs i \<le> t" and "i \<le> kNumBuckets"
    and "int (length costs) * m < INT_LIMIT" and "int (length costs) < INT_LIMIT" and "m = fold max costs 0"
  shows "\<exists>v. percentile_loop (int t) m i (int (below costs i)) (map (\<lambda>i. int (within costs i)) [i..<kNumBuckets]) = Inr v \<and>
    bucket_lower (bucket_of (sort costs ! t)) \<le> v \<and> v \<le> bucket_upper m (bucket_of (sort costs ! t))"
  using assms(3,4)
proof (induction "kNumBuckets - i" arbitrary: i)
  case 0
  then have "i = kNumBuckets" by simp
  with 0 assms(2) show ?case by (simp add: below_all)
next
  case (Suc n)
  have u: "[i..<kNumBuckets] = i # [Suc i..<kNumBuckets]" using Suc.hyps(2) by (simp add: upt_conv_Cons)
  have acc: "int (below costs i) + int (within costs i) = int (below costs (Suc i))" by (simp add: below_Suc)
  have fit: "fits_int (int (below costs (Suc i)))"
    using assms(6) length_filter_le [of "\<lambda>c. bucket_of c < Suc i" costs] unfolding fits_int_def below_def INT_LIMIT_def by linarith
  show ?case
  proof (cases "t < below costs (Suc i)")
    case False
    with Suc u acc fit show ?thesis by (simp add: Let_def)
  next
    case True
    let ?x = "sort costs ! t" and ?w = "int (within costs i)" and ?needed = "int t - int (below costs i)"
    let ?lo = "bucket_lower i" and ?hi = "bucket_upper m i"
    have i: "bucket_of ?x = i" using rank_bucket [OF assms(2)] True Suc.prems by simp
    have x: "?x \<in> set costs" by (metis assms(2) length_sort nth_mem set_sort)
    then have "?lo \<le> ?x" "?x \<le> ?hi" using bucket_range [of ?x m] assms(1,7) fold_max_upper [of ?x costs 0] i by (auto simp: list_all_iff)
    then have d: "0 \<le> ?hi - ?lo" by simp
    have n: "0 \<le> ?needed" "?needed < ?w" using Suc.prems True below_Suc [of costs i] by simp_all
    have "0 \<le> ?lo" using bucket_lower_nonneg [OF bucket_of_less] i by metis
    then have "?hi - ?lo \<le> m" by (auto simp: bucket_upper_def)
    moreover have "?w \<le> int (length costs)" using within_le by simp
    ultimately have "?needed * (?hi - ?lo) \<le> int (length costs) * m" using n d by (intro mult_mono) simp_all
    then have f: "fits_int (?needed * (?hi - ?lo))" using assms(5) n(1) d by (auto simp: fits_int_def INT_LIMIT_def intro: order_trans [of _ 0])
    have "?needed * (?hi - ?lo) div ?w \<le> ?hi - ?lo"
    proof -
      have "?needed * (?hi - ?lo) \<le> ?w * (?hi - ?lo)" using n d by (intro mult_right_mono) simp_all
      then have "?needed * (?hi - ?lo) div ?w \<le> ?w * (?hi - ?lo) div ?w" using n by (intro zdiv_mono1) simp_all
      then show ?thesis using n by simp
    qed
    moreover have "0 \<le> ?needed * (?hi - ?lo) div ?w" using n d by (simp add: pos_imp_zdiv_nonneg_iff)
    moreover have "fits_int (int (below costs i) + ?w)" "int t < int (below costs i) + ?w" using fit acc n by simp_all
    ultimately show ?thesis using u f n d by (simp add: Let_def i sdiv_pos)
  qed
qed

lemma sint_of_nat_i32: "int n < INT_LIMIT \<Longrightarrow> sint (of_nat n :: i32) = int n"
  by (simp add: INT_LIMIT_def signed_of_nat signed_take_bit_int_eq_self_iff)



section \<open>Requests in flight and totals\<close>

datatype stat_event = Start int u32 | Finish int u32 u32 u32 | Sample u32 | Consume

fun stat_step :: "stat_event \<Rightarrow> RequestStat \<times> StatSnapshot list \<Rightarrow> RequestStat \<times> StatSnapshot list" where
  "stat_step (Start now ty) (s, out) = (onReqStart now ty s, out)"
| "stat_step (Finish now ty req rsp) (s, out) = (onReqFinish now ty req rsp s, out)"
| "stat_step (Sample depth) (s, out) = (sampleQueueDepth depth s, out)"
| "stat_step Consume (s, out) = (case consume s of (snap, s') \<Rightarrow> (s', out @ [snap]))"

definition stat_run :: "int \<Rightarrow> stat_event list \<Rightarrow> RequestStat \<times> StatSnapshot list" where
  "stat_run thd evs = fold stat_step evs (RequestStat_new thd, [])"

text \<open>The starts that find a request of their type open, and the requests that finish with valid times.\<close>

fun overlaps :: "(u32 \<Rightarrow> int option) \<Rightarrow> stat_event list \<Rightarrow> nat" where
  "overlaps opened [] = 0"
| "overlaps opened (Start now ty # evs) = (if opened ty = None then 0 else 1) + overlaps (opened(ty \<mapsto> now)) evs"
| "overlaps opened (Finish now ty req rsp # evs) = overlaps (opened(ty := None)) evs"
| "overlaps opened (_ # evs) = overlaps opened evs"

fun finished :: "u32 \<Rightarrow> (u32 \<Rightarrow> int option) \<Rightarrow> stat_event list \<Rightarrow> nat" where
  "finished t opened [] = 0"
| "finished t opened (Start now ty # evs) = finished t (opened(ty \<mapsto> now)) evs"
| "finished t opened (Finish now ty req rsp # evs) =
    (case opened ty of None \<Rightarrow> 0 | Some start \<Rightarrow> if ty = t \<and> start \<noteq> TimeStampErr \<and> now \<noteq> TimeStampErr then 1 else 0) +
    finished t (opened(ty := None)) evs"
| "finished t opened (_ # evs) = finished t opened evs"

definition counted :: "u32 \<Rightarrow> RequestStat \<Rightarrow> i32" where
  "counted t s = pm_totalCount (getOrCreateMetrics t s)"

definition reported :: "u32 \<Rightarrow> StatSnapshot list \<Rightarrow> i32" where
  "reported t out = word_of_int (sum_list (map ts_totalCount (filter (\<lambda>ts. ts_requestType ts = t) (concat (map ss_types out)))))"

definition stat_ok :: "RequestStat \<Rightarrow> bool" where
  "stat_ok s \<longleftrightarrow> distinct (map fst (rs_reqStartTime s)) \<and> distinct (map fst (rs_metrics s))"

lemma map_of_update: "map_of (AList.update k v al) = (map_of al)(k \<mapsto> v)"
  by (simp add: update_conv')

lemma map_of_delete: "map_of (AList.delete k al) = (map_of al)(k := None)"
  by (simp add: delete_conv')

lemma length_update: "distinct (map fst al) \<Longrightarrow> length (AList.update k v al) = length al + (if map_of al k = None then 1 else 0)"
  by (induction al) (auto split: if_splits)

lemma length_delete: "distinct (map fst al) \<Longrightarrow> length (AList.delete k al) + (if map_of al k = None then 0 else 1) = length al"
proof (induction al)
  case (Cons x al)
  have "k \<notin> fst ` set al \<Longrightarrow> AList.delete k al = al" by (simp add: delete_id)
  with Cons show ?case by (cases x) (auto simp: map_of_eq_None_iff split: if_splits intro: rev_image_eqI)
qed simp

lemma stat_ok_step:
  assumes "stat_ok s" and "stat_step ev (s, out) = (s', out')"
  shows "stat_ok s'"
  using assms by (cases ev)
    (auto simp: stat_ok_def onReqStart_def onReqFinish_def sampleQueueDepth_def consume_def Let_def distinct_update distinct_delete comp_def
      split_def split: option.splits if_splits)

lemma finish_open:
  "rs_inflightCount (onReqFinish now ty req rsp s) = rs_inflightCount s - (if map_of (rs_reqStartTime s) ty = None then 0 else 1)"
  "rs_reqStartTime (onReqFinish now ty req rsp s) = AList.delete ty (rs_reqStartTime s)"
  by (auto simp: onReqFinish_def Let_def delete_id map_of_eq_None_iff [symmetric] split: option.splits)

lemma inflight_step:
  assumes "stat_ok s" and "stat_step ev (s, out) = (s', out')"
  shows "rs_inflightCount s' - of_nat (length (rs_reqStartTime s')) =
      rs_inflightCount s - of_nat (length (rs_reqStartTime s)) + of_nat (overlaps (map_of (rs_reqStartTime s)) [ev])"
proof (cases ev)
  case (Start now ty)
  with assms show ?thesis by (auto simp: stat_ok_def onReqStart_def length_update)
next
  case (Finish now ty req rsp)
  have "length (rs_reqStartTime s) = length (AList.delete ty (rs_reqStartTime s)) + (if map_of (rs_reqStartTime s) ty = None then 0 else 1)"
    using length_delete [of "rs_reqStartTime s" ty] assms(1) by (simp add: stat_ok_def)
  with assms(2) Finish show ?thesis by (auto simp: finish_open)
qed (use assms in \<open>auto simp: sampleQueueDepth_def consume_def\<close>)

lemma open_step:
  "stat_step ev (s, out) = (s', out') \<Longrightarrow> map_of (rs_reqStartTime s') = (case ev of Start now ty \<Rightarrow> (map_of (rs_reqStartTime s))(ty \<mapsto> now)
    | Finish _ ty _ _ \<Rightarrow> (map_of (rs_reqStartTime s))(ty := None) | _ \<Rightarrow> map_of (rs_reqStartTime s))"
  by (cases ev) (auto simp: onReqStart_def finish_open map_of_update map_of_delete sampleQueueDepth_def consume_def)

lemma overlaps_Cons:
  "stat_step ev (s, out) = (s', out') \<Longrightarrow> overlaps (map_of (rs_reqStartTime s)) (ev # evs) =
    overlaps (map_of (rs_reqStartTime s)) [ev] + overlaps (map_of (rs_reqStartTime s')) evs"
  by (drule open_step) (cases ev; simp)

lemma inflight_fold:
  "stat_ok s \<Longrightarrow> fold stat_step evs (s, out) = (s', out') \<Longrightarrow>
    rs_inflightCount s' - of_nat (length (rs_reqStartTime s')) =
      rs_inflightCount s - of_nat (length (rs_reqStartTime s)) + of_nat (overlaps (map_of (rs_reqStartTime s)) evs)"
proof (induction evs arbitrary: s out)
  case (Cons ev evs)
  obtain s1 out1 where st: "stat_step ev (s, out) = (s1, out1)" by (cases "stat_step ev (s, out)")
  have "fold stat_step evs (s1, out1) = (s', out')" using Cons.prems(2) by (simp add: st)
  from Cons.IH [OF stat_ok_step [OF Cons.prems(1) st] this] show ?case
    by (simp only: inflight_step [OF Cons.prems(1) st] overlaps_Cons [OF st, of evs] of_nat_add add.assoc)
qed simp

lemma stat_ok_new: "stat_ok (RequestStat_new thd)"
  by (simp add: stat_ok_def RequestStat_new_def)

section \<open>Totals\<close>

lemma map_of_snapshots: "map_of (map (\<lambda>(k, v). (k, f k v)) al) k = map_option (f k) (map_of al k)"
  by (induction al) auto

lemma sum_of_type:
  "distinct (map fst al) \<Longrightarrow>
    sum_list (map ts_totalCount (filter (\<lambda>ts. ts_requestType ts = t) (map (\<lambda>(ty, m). fst (type_snapshot ty m)) al))) =
      (case map_of al t of None \<Rightarrow> 0 | Some m \<Rightarrow> sint (pm_totalCount m))"
proof (induction al)
  case (Cons x al)
  have "t \<notin> fst ` set al \<Longrightarrow> filter (\<lambda>ts. ts_requestType ts = t) (map (\<lambda>(ty, m). fst (type_snapshot ty m)) al) = []"
    by (auto simp: filter_empty_conv type_snapshot_def hist_snapshot_def rev_image_eqI)
  with Cons show ?case by (cases x) (auto simp: type_snapshot_def hist_snapshot_def map_of_eq_None_iff split: option.splits dest: map_of_SomeD)
qed simp

lemma reset_counts: "pm_totalCount (snd (type_snapshot ty m)) = 0"
  by (simp add: type_snapshot_def hist_snapshot_def)

lemma count_step:
  assumes "stat_ok s" and "stat_step ev (s, out) = (s', out')"
  shows "reported t out' + counted t s' = reported t out + counted t s + of_nat (finished t (map_of (rs_reqStartTime s)) [ev])"
proof (cases ev)
  case (Finish now ty req rsp)
  have "counted t (onReqFinish now ty req rsp s) = counted t s + of_nat (finished t (map_of (rs_reqStartTime s)) [ev])"
    by (auto simp: Finish onReqFinish_def counted_def getOrCreateMetrics_def map_of_update Let_def split: option.splits)
  with assms(2) Finish show ?thesis by (simp add: reported_def)
next
  case Consume
  have "reported t (out @ [fst (consume s)]) = reported t out + counted t s"
    using assms(1) by (auto simp: reported_def consume_def counted_def getOrCreateMetrics_def sum_of_type stat_ok_def PerTypeMetrics_new_def
        split: option.splits)
  moreover have "counted t (snd (consume s)) = 0"
    using reset_counts by (auto simp: counted_def getOrCreateMetrics_def consume_def map_of_snapshots PerTypeMetrics_new_def split: option.splits)
  ultimately show ?thesis using assms(2) Consume by (auto split: prod.splits)
qed (use assms in \<open>auto simp: onReqStart_def sampleQueueDepth_def counted_def getOrCreateMetrics_def reported_def\<close>)

lemma finished_Cons:
  "stat_step ev (s, out) = (s', out') \<Longrightarrow> finished t (map_of (rs_reqStartTime s)) (ev # evs) =
    finished t (map_of (rs_reqStartTime s)) [ev] + finished t (map_of (rs_reqStartTime s')) evs"
  by (drule open_step) (cases ev; simp)

lemma count_fold:
  "stat_ok s \<Longrightarrow> fold stat_step evs (s, out) = (s', out') \<Longrightarrow>
    reported t out' + counted t s' = reported t out + counted t s + of_nat (finished t (map_of (rs_reqStartTime s)) evs)"
proof (induction evs arbitrary: s out)
  case (Cons ev evs)
  obtain s1 out1 where st: "stat_step ev (s, out) = (s1, out1)" by (cases "stat_step ev (s, out)")
  have "fold stat_step evs (s1, out1) = (s', out')" using Cons.prems(2) by (simp add: st)
  from Cons.IH [OF stat_ok_step [OF Cons.prems(1) st] this] show ?case
    by (simp only: count_step [OF Cons.prems(1) st] finished_Cons [OF st, of t evs] of_nat_add add.assoc)
qed simp

text \<open>
  The books of the statistics balance, whatever requests start and finish and whenever a report is taken: the
  requests of a type that finished with valid times are those in the reports and those counted since the last one; and
  the number of requests in flight is the number of open types plus the number of requests that were started
  while one of their type was open, which are never taken off again.
\<close>
theorem stat_balances:
  "case stat_run thd evs of (s, out) \<Rightarrow>
    reported t out + counted t s = of_nat (finished t Map.empty evs) \<and>
    rs_inflightCount s = of_nat (length (rs_reqStartTime s)) + of_nat (overlaps Map.empty evs)"
proof -
  obtain s out where r: "fold stat_step evs (RequestStat_new thd, []) = (s, out)" by (cases "fold stat_step evs (RequestStat_new thd, [])")
  have n: "rs_reqStartTime (RequestStat_new thd) = []" "rs_inflightCount (RequestStat_new thd) = 0" "reported t [] = 0" "counted t (RequestStat_new thd) = 0"
    by (simp_all add: RequestStat_new_def reported_def counted_def getOrCreateMetrics_def PerTypeMetrics_new_def)
  show ?thesis using inflight_fold [OF stat_ok_new r] count_fold [OF stat_ok_new r, of t] n
    by (simp add: stat_run_def r algebra_simps)
qed

end
