(* ===== verification/EventSystem.thy ===== *)
theory EventSystem
  imports Main
begin

text \<open>
  Components that are driven by events: a step function says what an event makes of a state, \<open>None\<close> when the event
  cannot happen in it.  The locale \<open>inductive_invariant\<close> is the contract of an invariant of such a component; the
  components interpret it on their own step functions.
\<close>

inductive reach :: "('e \<Rightarrow> 's \<Rightarrow> 's option) \<Rightarrow> ('s \<Rightarrow> bool) \<Rightarrow> 's \<Rightarrow> bool" for step start where
  reach_start: "start s \<Longrightarrow> reach step start s"
| reach_step: "reach step start s \<Longrightarrow> step e s = Some s' \<Longrightarrow> reach step start s'"

fun run_events :: "('e \<Rightarrow> 's \<Rightarrow> 's option) \<Rightarrow> 'e list \<Rightarrow> 's \<Rightarrow> 's option" where
  "run_events step [] s = Some s"
| "run_events step (e # es) s = (case step e s of None \<Rightarrow> None | Some s' \<Rightarrow> run_events step es s')"

lemma reach_run_from: "reach step start s \<Longrightarrow> run_events step es s = Some s' \<Longrightarrow> reach step start s'"
  by (induction es arbitrary: s) (auto split: option.splits intro: reach_step)

lemma reach_run: "start s \<Longrightarrow> run_events step es s = Some s' \<Longrightarrow> reach step start s'"
  by (rule reach_run_from [OF reach_start])

locale inductive_invariant =
  fixes step :: "'e \<Rightarrow> 's \<Rightarrow> 's option" and start :: "'s \<Rightarrow> bool" and I :: "'s \<Rightarrow> bool"
  assumes at_start: "start s \<Longrightarrow> I s"
    and preserved: "I s \<Longrightarrow> step e s = Some s' \<Longrightarrow> I s'"
begin

lemma holds: "reach step start s \<Longrightarrow> I s"
  by (induction rule: reach.induct) (auto intro: at_start preserved)

lemma holds_after: "I s \<Longrightarrow> run_events step es s = Some s' \<Longrightarrow> I s'"
  by (induction es arbitrary: s) (auto split: option.splits intro: preserved)

end

text \<open>
  A component that implements another one step by step: \<open>spec\<close> is the other, \<open>abs\<close> what a state stands for, and the events that are not
  visible are those the other does not have.
\<close>

locale forward_simulation =
  fixes step :: "'e \<Rightarrow> 's \<Rightarrow> 's option" and I :: "'s \<Rightarrow> bool" and visible :: "'e \<Rightarrow> bool"
    and spec :: "'e \<Rightarrow> 't \<Rightarrow> 't option" and abs :: "'s \<Rightarrow> 't"
  assumes sim_inv: "I s \<Longrightarrow> step e s = Some s' \<Longrightarrow> I s'"
    and sim_visible: "I s \<Longrightarrow> visible e \<Longrightarrow> step e s = Some s' \<Longrightarrow> spec e (abs s) = Some (abs s')"
    and sim_hidden: "I s \<Longrightarrow> \<not> visible e \<Longrightarrow> step e s = Some s' \<Longrightarrow> abs s' = abs s"
begin

lemma simulates: "I s \<Longrightarrow> run_events step es s = Some s' \<Longrightarrow> run_events spec (filter visible es) (abs s) = Some (abs s') \<and> I s'"
proof (induction es arbitrary: s)
  case (Cons e es)
  then obtain t where t: "step e s = Some t" "run_events step es t = Some s'" by (auto split: option.splits)
  from Cons.IH [OF sim_inv [OF Cons.prems(1) t(1)] t(2)] show ?case
    using sim_visible [OF Cons.prems(1) _ t(1)] sim_hidden [OF Cons.prems(1) _ t(1)] by auto
qed simp

end

end
