(* ===== verification/AsioUser.thy ===== *)
theory AsioUser
  imports TcpUser EventSystem "HOL-Library.Sublist"
begin

text \<open>
  The connections of the Boost.Asio build, \<^verbatim>\<open>tcpsock_user\<close> of \<^verbatim>\<open>src/zbf/asio_socket_tcp.hpp\<close>.

  A connection has an I/O strand and a worker strand.  A strand runs the handlers that were posted to it one after
  the other, in the order of posting (the guarantee of \<^verbatim>\<open>asio::strand\<close>), so it is a list of tasks.  At most one
  asynchronous read and one asynchronous write are outstanding; when the library completes one, its handler is
  appended to the I/O strand, with the bytes read or an error code.  \<^verbatim>\<open>async_read\<close> and \<^verbatim>\<open>async_write\<close> succeed only
  with the whole buffer.  \<^verbatim>\<open>operation_aborted\<close> is reported only for a closed socket.  Any thread may post
  messages, stop the connection or call \<^verbatim>\<open>on_tick\<close> between two tasks.

  The state also has what has happened at the borders: the bytes taken off the connection and put on it, the
  messages posted, the calls of the listener, and the log lines that report an overflow of a queue.

  Shown: every message is delivered once and in order and the read queue never holds more than one; messages are
  written in the order of posting and none is left waiting; the order of the listener's calls; and what goes wrong
  when a connection is stopped by its timer.
\<close>

datatype errcode = operation_aborted | try_again | interrupted | message_size | other_error

datatype read_op = ReadHeader | ReadRest bytes nat

datatype io_task =
    StartRead
  | ReadBody bytes "errcode option"
  | HandleRead tcp_message "errcode option"
  | Dispatch
  | WriteData tcp_message
  | HandleWrite "errcode option"

datatype wk_task = Connect | RecvChunk "tcp_message list" | Disconnect

datatype listener_call = OnConnect | OnRecvMsg tcp_message | OnDisconnect

record asio_user =
  au_server_side :: bool
  au_hbhelper :: heartbeat_helper
  au_stop :: bool
  au_pending :: bool
  au_readQueue :: "tcp_message list"
  au_writeQueue :: "tcp_message list"
  au_io_strand :: "io_task list"
  au_worker_strand :: "wk_task list"
  au_open :: bool
  au_read :: "read_op option"
  au_write :: "bytes option"
  au_taken :: bytes
  au_wire :: bytes
  au_posted :: "tcp_message list"
  au_calls :: "listener_call list"
  au_rd_overflows :: nat
  au_wr_overflows :: nat

definition asio_UserTimeout :: int where "asio_UserTimeout = 90"
definition asio_HeartbeatTime :: int where "asio_HeartbeatTime = 30"
definition MaxRdQueueSize :: nat where "MaxRdQueueSize = 256"
definition MaxWrQueueSize :: nat where "MaxWrQueueSize = 256"
definition MaxBatchSize :: nat where "MaxBatchSize = 32"

definition asio_user_new :: "bool \<Rightarrow> asio_user" where
  "asio_user_new server_side =
    \<lparr>au_server_side = server_side, au_hbhelper = heartbeat_new (if server_side then asio_UserTimeout else asio_HeartbeatTime),
     au_stop = False, au_pending = False, au_readQueue = [], au_writeQueue = [], au_io_strand = [], au_worker_strand = [],
     au_open = True, au_read = None, au_write = None, au_taken = [], au_wire = [], au_posted = [], au_calls = [],
     au_rd_overflows = 0, au_wr_overflows = 0\<rparr>"

definition asio_start :: "asio_user \<Rightarrow> asio_user" where
  "asio_start u = u\<lparr>au_worker_strand := au_worker_strand u @ [Connect]\<rparr>"

text \<open>The argument says whether \<^verbatim>\<open>shutdown\<close> returns; when it throws, the socket is not closed.\<close>

definition try_stop :: "bool \<Rightarrow> asio_user \<Rightarrow> bool \<times> asio_user" where
  "try_stop ok u = (if au_stop u then (False, u) else (True, u\<lparr>au_stop := True, au_open := au_open u \<and> \<not> ok\<rparr>))"

definition asio_stop :: "bool \<Rightarrow> asio_user \<Rightarrow> bool \<times> asio_user" where
  "asio_stop ok u = try_stop ok u"

definition handle_error :: "bool \<Rightarrow> asio_user \<Rightarrow> asio_user" where
  "handle_error ok u =
    (case try_stop ok u of (stopped, u') \<Rightarrow>
       if \<not> stopped then u' else u'\<lparr>au_worker_strand := au_worker_strand u' @ [Disconnect]\<rparr>)"

section \<open>Writing\<close>

definition write_data :: "tcp_message \<Rightarrow> asio_user \<Rightarrow> asio_user" where
  "write_data msg u = u\<lparr>au_io_strand := au_io_strand u @ [WriteData msg], au_posted := au_posted u @ [msg]\<rparr>"

definition asio_post :: "tcp_message \<Rightarrow> asio_user \<Rightarrow> asio_user" where
  "asio_post msg u = write_data msg u"

definition do_write :: "asio_user \<Rightarrow> asio_user" where
  "do_write u =
    (if au_writeQueue u = [] \<or> au_stop u then u
     else u\<lparr>au_write := Some (msg_data (hd (au_writeQueue u)))\<rparr>)"

text \<open>The task that \<^verbatim>\<open>write_data\<close> posts.\<close>

definition write_task :: "tcp_message \<Rightarrow> asio_user \<Rightarrow> asio_user" where
  "write_task msg u =
    (if length (au_writeQueue u) < MaxWrQueueSize then
       let wasEmpty = (au_writeQueue u = []);
           u1 = u\<lparr>au_writeQueue := au_writeQueue u @ [msg]\<rparr> in
       if wasEmpty then do_write u1 else u1
     else u\<lparr>au_wr_overflows := au_wr_overflows u + 1\<rparr>)"

definition handle_write :: "int \<Rightarrow> bool \<Rightarrow> errcode option \<Rightarrow> asio_user \<Rightarrow> asio_user" where
  "handle_write now ok ec u =
    (case ec of
       Some operation_aborted \<Rightarrow> u
     | Some e \<Rightarrow> handle_error ok u
     | None \<Rightarrow>
       let u1 = (if au_writeQueue u \<noteq> [] then
                   let u' = u\<lparr>au_writeQueue := tl (au_writeQueue u)\<rparr> in
                   if \<not> au_server_side u' then u'\<lparr>au_hbhelper := hb_update now (au_hbhelper u')\<rparr> else u'
                 else u) in
       if au_writeQueue u1 \<noteq> [] \<and> \<not> au_stop u1 then do_write u1 else u1)"

section \<open>Reading\<close>

definition read_header :: "asio_user \<Rightarrow> asio_user" where
  "read_header u = (if au_stop u then u else u\<lparr>au_read := Some ReadHeader\<rparr>)"

definition schedule_dispatch :: "asio_user \<Rightarrow> asio_user" where
  "schedule_dispatch u =
    (if au_pending u then u
     else u\<lparr>au_pending := True, au_io_strand := au_io_strand u @ [Dispatch]\<rparr>)"

text \<open>The two loops of the task that \<^verbatim>\<open>schedule_dispatch\<close> posts cut the batch into chunks.\<close>

function batch_chunks :: "tcp_message list \<Rightarrow> tcp_message list list" where
  "batch_chunks batch =
    (if batch = [] then [] else take MaxBatchSize batch # batch_chunks (drop MaxBatchSize batch))"
  by pat_completeness auto
termination by (relation "measure length") (auto simp: MaxBatchSize_def)

declare batch_chunks.simps [simp del]

definition dispatch_task :: "asio_user \<Rightarrow> asio_user" where
  "dispatch_task u =
    u\<lparr>au_readQueue := [], au_worker_strand := au_worker_strand u @ map RecvChunk (batch_chunks (au_readQueue u)),
      au_pending := False\<rparr>"

definition handle_read :: "tcp_message_protocol \<Rightarrow> int \<Rightarrow> bool \<Rightarrow> tcp_message \<Rightarrow> errcode option \<Rightarrow> asio_user \<Rightarrow> asio_user" where
  "handle_read p now ok msg ec u =
    (case ec of
       Some operation_aborted \<Rightarrow> u
     | Some e \<Rightarrow> handle_error ok u
     | None \<Rightarrow>
       if au_stop u then u
       else
         let u1 = (if au_server_side u then u\<lparr>au_hbhelper := hb_update now (au_hbhelper u)\<rparr> else u);
             u2 = (if \<not> isHeartbeat p (Some msg) then
                     if length (au_readQueue u1) < MaxRdQueueSize then
                       schedule_dispatch (u1\<lparr>au_readQueue := au_readQueue u1 @ [msg]\<rparr>)
                     else u1\<lparr>au_rd_overflows := au_rd_overflows u1 + 1\<rparr>
                   else u1) in
         read_header u2)"

definition read_body :: "tcp_message_protocol \<Rightarrow> int \<Rightarrow> bool \<Rightarrow> bytes \<Rightarrow> errcode option \<Rightarrow> asio_user \<Rightarrow> asio_user" where
  "read_body p now ok header ec u =
    (case ec of
       Some operation_aborted \<Rightarrow> u
     | Some e \<Rightarrow> handle_error ok u
     | None \<Rightarrow>
       if au_stop u then u
       else
         let bodySz = bodySize p (Some \<lparr>msg_data = header\<rparr>) in
         if bodySz > MaxBodySize p then handle_error ok u
         else if bodySz > 0 then u\<lparr>au_read := Some (ReadRest header (unat bodySz))\<rparr>
         else handle_read p now ok \<lparr>msg_data = header\<rparr> ec u)"

text \<open>The task that \<^verbatim>\<open>start_read\<close> posts.\<close>

definition start_read_task :: "int \<Rightarrow> asio_user \<Rightarrow> asio_user" where
  "start_read_task now u = read_header (u\<lparr>au_hbhelper := hb_update now (au_hbhelper u)\<rparr>)"

definition start_read :: "asio_user \<Rightarrow> asio_user" where
  "start_read u = u\<lparr>au_io_strand := au_io_strand u @ [StartRead]\<rparr>"

definition on_tick :: "tcp_message_protocol \<Rightarrow> int \<Rightarrow> bool \<Rightarrow> asio_user \<Rightarrow> asio_user" where
  "on_tick p now ok u =
    (if au_stop u then u
     else if au_server_side u then
       if hb_isExceed now (au_hbhelper u) then snd (try_stop ok u) else u
     else if hb_isExceed now (au_hbhelper u) then
       (case genHeartbeat p of None \<Rightarrow> u | Some hb \<Rightarrow> asio_post hb u)
     else u)"

section \<open>Events\<close>

fun run_io :: "tcp_message_protocol \<Rightarrow> int \<Rightarrow> bool \<Rightarrow> io_task \<Rightarrow> asio_user \<Rightarrow> asio_user" where
  "run_io p now ok StartRead u = start_read_task now u"
| "run_io p now ok (ReadBody header ec) u = read_body p now ok header ec u"
| "run_io p now ok (HandleRead msg ec) u = handle_read p now ok msg ec u"
| "run_io p now ok Dispatch u = dispatch_task u"
| "run_io p now ok (WriteData msg) u = write_task msg u"
| "run_io p now ok (HandleWrite ec) u = handle_write now ok ec u"

fun task_calls :: "wk_task \<Rightarrow> listener_call list" where
  "task_calls Connect = [OnConnect]"
| "task_calls (RecvChunk ms) = map OnRecvMsg ms"
| "task_calls Disconnect = [OnDisconnect]"

definition run_worker :: "wk_task \<Rightarrow> asio_user \<Rightarrow> asio_user" where
  "run_worker t u =
    (let u1 = u\<lparr>au_calls := au_calls u @ task_calls t\<rparr> in if t = Connect then start_read u1 else u1)"

fun read_size :: "tcp_message_protocol \<Rightarrow> read_op \<Rightarrow> nat" where
  "read_size p ReadHeader = unat (headerSize p)"
| "read_size p (ReadRest header n) = n"

fun read_handler :: "read_op \<Rightarrow> bytes \<Rightarrow> errcode option \<Rightarrow> io_task" where
  "read_handler ReadHeader bs ec = ReadBody bs ec"
| "read_handler (ReadRest header n) bs ec = HandleRead \<lparr>msg_data = header @ bs\<rparr> ec"

definition transferred :: "bool \<Rightarrow> errcode option \<Rightarrow> nat \<Rightarrow> nat \<Rightarrow> bool" where
  "transferred opn ec n sz \<longleftrightarrow> (if ec = None then n = sz else n \<le> sz) \<and> (ec = Some operation_aborted \<longrightarrow> \<not> opn)"

datatype asio_event =
    EvPost tcp_message
  | EvStop bool
  | EvTick int bool
  | EvIo int bool
  | EvWorker
  | EvRead bytes "errcode option"
  | EvWrite nat "errcode option"

fun asio_step :: "tcp_message_protocol \<Rightarrow> asio_event \<Rightarrow> asio_user \<Rightarrow> asio_user option" where
  "asio_step p (EvPost msg) u = Some (asio_post msg u)"
| "asio_step p (EvStop ok) u = Some (snd (asio_stop ok u))"
| "asio_step p (EvTick now ok) u = Some (on_tick p now ok u)"
| "asio_step p (EvIo now ok) u =
    (case au_io_strand u of [] \<Rightarrow> None | t # ts \<Rightarrow> Some (run_io p now ok t (u\<lparr>au_io_strand := ts\<rparr>)))"
| "asio_step p EvWorker u =
    (case au_worker_strand u of [] \<Rightarrow> None | t # ts \<Rightarrow> Some (run_worker t (u\<lparr>au_worker_strand := ts\<rparr>)))"
| "asio_step p (EvRead bs ec) u =
    (case au_read u of None \<Rightarrow> None
     | Some rd \<Rightarrow>
       if transferred (au_open u) ec (length bs) (read_size p rd)
       then Some (u\<lparr>au_read := None, au_taken := au_taken u @ bs, au_io_strand := au_io_strand u @ [read_handler rd bs ec]\<rparr>)
       else None)"
| "asio_step p (EvWrite n ec) u =
    (case au_write u of None \<Rightarrow> None
     | Some buf \<Rightarrow>
       if transferred (au_open u) ec n (length buf)
       then Some (u\<lparr>au_write := None, au_wire := au_wire u @ take n buf, au_io_strand := au_io_strand u @ [HandleWrite ec]\<rparr>)
       else None)"

definition asio_started :: "asio_user \<Rightarrow> bool" where
  "asio_started u \<longleftrightarrow> (\<exists>server_side. u = asio_start (asio_user_new server_side))"

section \<open>The invariant of reading\<close>

fun is_read_task :: "io_task \<Rightarrow> bool" where
  "is_read_task StartRead = True"
| "is_read_task (ReadBody header ec) = True"
| "is_read_task (HandleRead msg ec) = True"
| "is_read_task _ = False"

fun is_aborted :: "io_task \<Rightarrow> bool" where
  "is_aborted (ReadBody header ec) = (ec = Some operation_aborted)"
| "is_aborted (HandleRead msg ec) = (ec = Some operation_aborted)"
| "is_aborted (HandleWrite ec) = (ec = Some operation_aborted)"
| "is_aborted _ = False"

text \<open>The read side has one token: the outstanding read, its handler, or the tasks that start reading.\<close>

definition read_tokens :: "asio_user \<Rightarrow> nat" where
  "read_tokens u = of_bool (au_read u \<noteq> None) + length (filter is_read_task (au_io_strand u)) + count_list (au_worker_strand u) Connect"

definition closed_ok :: "asio_user \<Rightarrow> bool" where
  "closed_ok u \<longleftrightarrow> (au_stop u \<or> au_open u) \<and> (\<forall>t \<in> set (au_io_strand u). is_aborted t \<longrightarrow> au_stop u)"

definition queue_ok :: "asio_user \<Rightarrow> bool" where
  "queue_ok u \<longleftrightarrow> count_list (au_io_strand u) Dispatch = of_bool (au_pending u) \<and> length (au_readQueue u) = of_bool (au_pending u) \<and>
    (au_pending u \<longrightarrow> filter is_read_task (takeWhile (\<lambda>t. t \<noteq> Dispatch) (au_io_strand u)) = []) \<and> au_rd_overflows u = 0"

definition tokens_ok :: "asio_user \<Rightarrow> bool" where
  "tokens_ok u \<longleftrightarrow> read_tokens u \<le> 1 \<and> (\<not> au_stop u \<longrightarrow> read_tokens u = 1)"

text \<open>The bytes of the message in progress.\<close>

fun op_ok :: "tcp_message_protocol \<Rightarrow> read_op \<Rightarrow> bytes \<Rightarrow> bool" where
  "op_ok p ReadHeader rest \<longleftrightarrow> rest = []"
| "op_ok p (ReadRest header n) rest \<longleftrightarrow> rest = header \<and> length header = unat (headerSize p) \<and> 0 < n \<and>
    n = unat (bodySize p (Some \<lparr>msg_data = header\<rparr>)) \<and> bodySize p (Some \<lparr>msg_data = header\<rparr>) \<le> MaxBodySize p"

fun task_ok :: "tcp_message_protocol \<Rightarrow> io_task \<Rightarrow> bytes \<Rightarrow> bool" where
  "task_ok p StartRead rest \<longleftrightarrow> rest = []"
| "task_ok p (ReadBody header None) rest \<longleftrightarrow> rest = header \<and> length header = unat (headerSize p)"
| "task_ok p (HandleRead msg None) rest \<longleftrightarrow> rest = msg_data msg \<and> wf_msg p msg"
| "task_ok p _ rest \<longleftrightarrow> True"

definition progress_ok :: "tcp_message_protocol \<Rightarrow> asio_user \<Rightarrow> bytes \<Rightarrow> bool" where
  "progress_ok p u rest \<longleftrightarrow> (\<forall>rd. au_read u = Some rd \<longrightarrow> op_ok p rd rest) \<and> (\<forall>t \<in> set (au_io_strand u). task_ok p t rest) \<and>
    (Connect \<in> set (au_worker_strand u) \<longrightarrow> rest = [])"

text \<open>The calls made and those that wait in the worker strand; the messages in them.\<close>

definition scheduled :: "asio_user \<Rightarrow> listener_call list" where
  "scheduled u = au_calls u @ concat (map task_calls (au_worker_strand u))"

fun received :: "listener_call list \<Rightarrow> tcp_message list" where
  "received [] = []"
| "received (OnRecvMsg m # cs) = m # received cs"
| "received (_ # cs) = received cs"

abbreviation payload :: "tcp_message_protocol \<Rightarrow> tcp_message list \<Rightarrow> tcp_message list" where
  "payload p \<equiv> filter (\<lambda>m. \<not> isHeartbeat p (Some m))"

definition content_ok :: "tcp_message_protocol \<Rightarrow> asio_user \<Rightarrow> bool" where
  "content_ok p u \<longleftrightarrow> (\<exists>ms rest. au_taken u = concat (map msg_data ms) @ rest \<and> list_all (wf_msg p) ms \<and>
    received (scheduled u) @ au_readQueue u = payload p ms \<and> (\<not> au_stop u \<longrightarrow> progress_ok p u rest))"

definition reading_ok :: "tcp_message_protocol \<Rightarrow> asio_user \<Rightarrow> bool" where
  "reading_ok p u \<longleftrightarrow> closed_ok u \<and> queue_ok u \<and> tokens_ok u \<and> content_ok p u"

lemma received_append [simp]: "received (cs @ ds) = received cs @ received ds"
  by (induction cs rule: received.induct) simp_all

lemma received_map [simp]: "received (map OnRecvMsg ms) = ms"
  by (induction ms) simp_all

lemma concat_batch_chunks [simp]: "concat (batch_chunks ms) = ms"
  by (induction ms rule: batch_chunks.induct) (subst batch_chunks.simps, simp)

lemma received_chunks [simp]: "received (concat (map (task_calls \<circ> RecvChunk) chunks)) = concat chunks"
  by (induction chunks) simp_all

lemma no_connect [simp]: "count_list (map RecvChunk chunks) Connect = 0" "Connect \<notin> RecvChunk ` A"
  by (auto simp: count_list_0_iff)

lemma takeWhile_app: "x \<in> set xs \<Longrightarrow> takeWhile (\<lambda>t. t \<noteq> x) (xs @ ys) = takeWhile (\<lambda>t. t \<noteq> x) xs"
  by (induction xs) auto

lemmas user_ops = try_stop_def asio_stop_def handle_error_def write_data_def asio_post_def do_write_def write_task_def handle_write_def
  read_header_def schedule_dispatch_def dispatch_task_def handle_read_def read_body_def start_read_task_def start_read_def on_tick_def
  run_worker_def Let_def

lemma read_handler_simps [simp]:
  "is_read_task (read_handler rd bs ec)" "is_aborted (read_handler rd bs ec) \<longleftrightarrow> ec = Some operation_aborted" "read_handler rd bs ec \<noteq> Dispatch"
  "read_handler rd bs ec \<noteq> WriteData m" "read_handler rd bs ec \<noteq> HandleWrite ec'"
  by (cases rd; simp)+

lemma error_kinds [simp]:
  "(case e of operation_aborted \<Rightarrow> a | try_again \<Rightarrow> b | interrupted \<Rightarrow> b | message_size \<Rightarrow> b | other_error \<Rightarrow> b) =
    (if e = operation_aborted then a else b)"
  by (cases e) simp_all

text \<open>A tick does nothing, stops the connection or posts a heartbeat.\<close>

lemma tick_cases:
  assumes "asio_step p (EvTick now ok) u = Some u'"
  obtains "u' = u" | "asio_step p (EvStop ok) u = Some u'" | hb where "asio_step p (EvPost hb) u = Some u'"
  using assms by (auto simp: on_tick_def asio_stop_def split: if_splits option.splits)

lemma ioE:
  assumes "asio_step p (EvIo now ok) u = Some u'"
  obtains t ts where "au_io_strand u = t # ts" "u' = run_io p now ok t (u\<lparr>au_io_strand := ts\<rparr>)"
  using assms by (auto split: list.splits)

lemma handle_error_sel [simp]:
  "au_stop (handle_error ok u)"
  "au_worker_strand (handle_error ok u) = au_worker_strand u @ (if au_stop u then [] else [Disconnect])"
  "au_server_side (handle_error ok u) = au_server_side u"
  "au_pending (handle_error ok u) = au_pending u"
  "au_readQueue (handle_error ok u) = au_readQueue u"
  "au_writeQueue (handle_error ok u) = au_writeQueue u"
  "au_io_strand (handle_error ok u) = au_io_strand u"
  "au_read (handle_error ok u) = au_read u"
  "au_write (handle_error ok u) = au_write u"
  "au_taken (handle_error ok u) = au_taken u"
  "au_wire (handle_error ok u) = au_wire u"
  "au_posted (handle_error ok u) = au_posted u"
  "au_calls (handle_error ok u) = au_calls u"
  "au_rd_overflows (handle_error ok u) = au_rd_overflows u"
  "au_wr_overflows (handle_error ok u) = au_wr_overflows u"
  by (auto simp: handle_error_def try_stop_def)

lemma do_write_sel [simp]:
  "au_stop (do_write u) = au_stop u" "au_open (do_write u) = au_open u" "au_worker_strand (do_write u) = au_worker_strand u"
  "au_server_side (do_write u) = au_server_side u"
  "au_pending (do_write u) = au_pending u"
  "au_readQueue (do_write u) = au_readQueue u"
  "au_writeQueue (do_write u) = au_writeQueue u"
  "au_io_strand (do_write u) = au_io_strand u"
  "au_read (do_write u) = au_read u"
  "au_taken (do_write u) = au_taken u"
  "au_wire (do_write u) = au_wire u"
  "au_posted (do_write u) = au_posted u"
  "au_calls (do_write u) = au_calls u"
  "au_rd_overflows (do_write u) = au_rd_overflows u"
  "au_wr_overflows (do_write u) = au_wr_overflows u"
  by (auto simp: do_write_def)

lemma write_task_sel [simp]:
  "au_stop (write_task m u) = au_stop u" "au_open (write_task m u) = au_open u" "au_worker_strand (write_task m u) = au_worker_strand u"
  "au_server_side (write_task m u) = au_server_side u"
  "au_pending (write_task m u) = au_pending u"
  "au_readQueue (write_task m u) = au_readQueue u"
  "au_io_strand (write_task m u) = au_io_strand u"
  "au_read (write_task m u) = au_read u"
  "au_taken (write_task m u) = au_taken u"
  "au_wire (write_task m u) = au_wire u"
  "au_posted (write_task m u) = au_posted u"
  "au_calls (write_task m u) = au_calls u"
  "au_rd_overflows (write_task m u) = au_rd_overflows u"
  by (auto simp: write_task_def Let_def)

lemma handle_write_sel [simp]:
  "au_server_side (handle_write now ok ec u) = au_server_side u"
  "au_pending (handle_write now ok ec u) = au_pending u"
  "au_readQueue (handle_write now ok ec u) = au_readQueue u"
  "au_io_strand (handle_write now ok ec u) = au_io_strand u"
  "au_read (handle_write now ok ec u) = au_read u"
  "au_taken (handle_write now ok ec u) = au_taken u"
  "au_wire (handle_write now ok ec u) = au_wire u"
  "au_posted (handle_write now ok ec u) = au_posted u"
  "au_calls (handle_write now ok ec u) = au_calls u"
  "au_rd_overflows (handle_write now ok ec u) = au_rd_overflows u"
  by (auto simp: handle_write_def Let_def split: option.split)

text \<open>What a write handler can do to the rest of the state.\<close>

lemma handle_write_stop:
  "(au_stop (handle_write now ok ec u) = au_stop u \<and> au_open (handle_write now ok ec u) = au_open u \<and>
      au_worker_strand (handle_write now ok ec u) = au_worker_strand u) \<or>
    (au_stop (handle_write now ok ec u) \<and> \<not> au_stop u \<and> au_worker_strand (handle_write now ok ec u) = au_worker_strand u @ [Disconnect])"
  by (cases ec) (auto simp: handle_write_def Let_def handle_error_def try_stop_def)

lemma handle_read_cases:
  assumes "ec = Some operation_aborted \<longrightarrow> au_stop u"
  obtains (stopped) "au_stop u" "handle_read p now ok msg ec u = u"
  | (failed) "ec \<noteq> None" "handle_read p now ok msg ec u = handle_error ok u"
  | (heartbeat) hb where "ec = None" "\<not> au_stop u" "isHeartbeat p (Some msg)" "handle_read p now ok msg ec u = u\<lparr>au_hbhelper := hb, au_read := Some ReadHeader\<rparr>"
  | (queued) hb where "ec = None" "\<not> au_stop u" "\<not> isHeartbeat p (Some msg)" "length (au_readQueue u) < MaxRdQueueSize"
      "handle_read p now ok msg ec u = schedule_dispatch (u\<lparr>au_hbhelper := hb, au_readQueue := au_readQueue u @ [msg], au_read := Some ReadHeader\<rparr>)"
  | (overflow) "ec = None" "\<not> length (au_readQueue u) < MaxRdQueueSize"
proof (cases ec)
  case None
  consider "au_stop u" | "\<not> au_stop u" "isHeartbeat p (Some msg)" | "\<not> au_stop u" "\<not> isHeartbeat p (Some msg)" "length (au_readQueue u) < MaxRdQueueSize"
    | "\<not> length (au_readQueue u) < MaxRdQueueSize" by blast
  then show ?thesis
  proof cases
    case 2
    then show ?thesis using None heartbeat [of "au_hbhelper (handle_read p now ok msg ec u)"]
      by (simp add: handle_read_def read_header_def Let_def)
  next
    case 3
    then show ?thesis using None queued [of "au_hbhelper (handle_read p now ok msg ec u)"]
      by (simp add: handle_read_def read_header_def Let_def schedule_dispatch_def)
  qed (use None stopped overflow in \<open>auto simp: handle_read_def\<close>)
next
  case (Some e)
  then show ?thesis using assms stopped failed by (cases "e = operation_aborted") (simp_all add: handle_read_def)
qed

lemma read_body_cases:
  assumes "ec = Some operation_aborted \<longrightarrow> au_stop u"
  obtains (stopped) "au_stop u" "read_body p now ok header ec u = u"
  | (failed) "read_body p now ok header ec u = handle_error ok u"
  | (rest) "ec = None" "\<not> au_stop u" "bodySize p (Some \<lparr>msg_data = header\<rparr>) \<le> MaxBodySize p" "bodySize p (Some \<lparr>msg_data = header\<rparr>) > 0"
      "read_body p now ok header ec u = u\<lparr>au_read := Some (ReadRest header (unat (bodySize p (Some \<lparr>msg_data = header\<rparr>))))\<rparr>"
  | (whole) "ec = None" "bodySize p (Some \<lparr>msg_data = header\<rparr>) = 0"
      "read_body p now ok header ec u = handle_read p now ok \<lparr>msg_data = header\<rparr> None u"
proof (cases ec)
  case None
  consider "au_stop u" | "\<not> au_stop u" "bodySize p (Some \<lparr>msg_data = header\<rparr>) > MaxBodySize p"
    | "\<not> au_stop u" "bodySize p (Some \<lparr>msg_data = header\<rparr>) \<le> MaxBodySize p" "bodySize p (Some \<lparr>msg_data = header\<rparr>) > 0"
    | "\<not> au_stop u" "bodySize p (Some \<lparr>msg_data = header\<rparr>) = 0" by (metis word_gt_0 linorder_not_less)
  then show ?thesis
  proof cases
    case 1
    then show ?thesis using None by (intro stopped) (simp_all add: read_body_def)
  next
    case 2
    then show ?thesis using None by (intro failed) (simp add: read_body_def Let_def)
  next
    case 3
    then show ?thesis using None by (intro rest) (simp_all add: read_body_def Let_def not_less)
  next
    case 4
    then show ?thesis using None by (intro whole) (simp_all add: read_body_def Let_def not_less)
  qed
next
  case (Some e)
  then show ?thesis using assms stopped failed by (cases "e = operation_aborted") (simp_all add: read_body_def)
qed

lemma closed_ok_read:
  assumes "closed_ok u" and "ec = Some operation_aborted \<longrightarrow> au_stop u"
  shows "closed_ok (handle_read p now ok msg ec u)"
  using assms(2)
proof (cases rule: handle_read_cases [where p = p and now = now and ok = ok and msg = msg])
  case overflow
  then show ?thesis using assms(1) by (auto simp: handle_read_def closed_ok_def read_header_def Let_def)
qed (use assms(1) in \<open>auto simp: closed_ok_def schedule_dispatch_def\<close>)

lemma closed_ok_task:
  assumes "closed_ok u" and "au_io_strand u = t # ts"
  shows "closed_ok (run_io p now ok t (u\<lparr>au_io_strand := ts\<rparr>))"
proof -
  let ?v = "u\<lparr>au_io_strand := ts\<rparr>"
  have c: "closed_ok ?v" and ab: "is_aborted t \<longrightarrow> au_stop ?v" using assms by (auto simp: closed_ok_def)
  show ?thesis
  proof (cases t)
    case (HandleRead msg ec)
    then show ?thesis using closed_ok_read [OF c] ab by simp
  next
    case (ReadBody header ec)
    then have "ec = Some operation_aborted \<longrightarrow> au_stop ?v" using ab by simp
    then show ?thesis
      by (cases rule: read_body_cases [where p = p and now = now and ok = ok and header = header])
        (use ReadBody c closed_ok_read [OF c] in \<open>auto simp: closed_ok_def\<close>)
  next
    case (HandleWrite ec)
    then show ?thesis using c handle_write_stop [of now ok ec ?v] by (auto simp: closed_ok_def)
  qed (use c in \<open>auto simp: closed_ok_def start_read_task_def read_header_def dispatch_task_def\<close>)
qed

lemma closed_ok_step: "closed_ok u \<Longrightarrow> asio_step p e u = Some u' \<Longrightarrow> closed_ok u'"
proof (cases e)
  case (EvIo now ok)
  assume "closed_ok u" "asio_step p e u = Some u'"
  with closed_ok_task show ?thesis unfolding EvIo by (elim ioE) simp
qed (auto simp: closed_ok_def user_ops transferred_def split: if_splits option.splits list.splits)

text \<open>A read task leaves no token behind when the connection is stopped, and otherwise exactly one.\<close>

definition read_idle :: "asio_user \<Rightarrow> bool" where
  "read_idle u \<longleftrightarrow> read_tokens u = 0 \<and> \<not> au_pending u \<and> au_readQueue u = []"

lemma read_task_idle:
  assumes "queue_ok u" and "tokens_ok u" and "au_io_strand u = t # ts" and "is_read_task t"
  shows "read_idle (u\<lparr>au_io_strand := ts\<rparr>)"
  using assms by (auto simp: read_idle_def queue_ok_def tokens_ok_def read_tokens_def split: if_splits)

lemma queue_ok_handle_read:
  assumes "queue_ok u" and "read_idle u" and "ec = Some operation_aborted \<longrightarrow> au_stop u"
  shows "queue_ok (handle_read p now ok msg ec u)"
  using assms(3)
  by (cases rule: handle_read_cases [where p = p and now = now and ok = ok and msg = msg])
    (use assms(1,2) in \<open>auto simp: queue_ok_def read_idle_def read_tokens_def schedule_dispatch_def MaxRdQueueSize_def takeWhile_append count_list_0_iff\<close>)

lemma tokens_ok_handle_read:
  assumes "read_idle u" and "ec = Some operation_aborted \<longrightarrow> au_stop u"
  shows "tokens_ok (handle_read p now ok msg ec u)"
  using assms(2)
  by (cases rule: handle_read_cases [where p = p and now = now and ok = ok and msg = msg])
    (use assms(1) in \<open>auto simp: tokens_ok_def read_idle_def read_tokens_def schedule_dispatch_def MaxRdQueueSize_def\<close>)

lemma read_step_ok:
  assumes "queue_ok u" and "tokens_ok u" and "closed_ok u" and "au_io_strand u = t # ts" and "is_read_task t"
  shows "queue_ok (run_io p now ok t (u\<lparr>au_io_strand := ts\<rparr>)) \<and> tokens_ok (run_io p now ok t (u\<lparr>au_io_strand := ts\<rparr>))"
proof -
  let ?v = "u\<lparr>au_io_strand := ts\<rparr>"
  have idle: "read_idle ?v" by (rule read_task_idle [OF assms(1,2,4,5)])
  have q: "queue_ok ?v" using assms(1,4,5) idle by (auto simp: queue_ok_def read_idle_def split: if_splits)
  have ab: "is_aborted t \<longrightarrow> au_stop ?v" using assms(3,4) by (auto simp: closed_ok_def)
  show ?thesis
  proof (cases t)
    case StartRead
    then show ?thesis using q idle by (auto simp: user_ops queue_ok_def tokens_ok_def read_idle_def read_tokens_def)
  next
    case (HandleRead msg ec)
    then show ?thesis using queue_ok_handle_read [OF q idle] tokens_ok_handle_read [OF idle] ab by simp
  next
    case (ReadBody header ec)
    then have "ec = Some operation_aborted \<longrightarrow> au_stop ?v" using ab by simp
    then show ?thesis
    proof (cases rule: read_body_cases [where p = p and now = now and ok = ok and header = header])
      case whole
      then show ?thesis using queue_ok_handle_read [OF q idle] tokens_ok_handle_read [OF idle] ReadBody by simp
    qed (use q idle ReadBody in \<open>auto simp: queue_ok_def tokens_ok_def read_idle_def read_tokens_def\<close>)
  qed (use assms(5) in simp_all)
qed

lemma queue_ok_pending: "queue_ok u \<Longrightarrow> au_pending u \<Longrightarrow> Dispatch \<in> set (au_io_strand u)"
  by (rule ccontr) (simp add: queue_ok_def)

lemma structure_step:
  assumes "queue_ok u" and "tokens_ok u" and "closed_ok u" and "asio_step p e u = Some u'"
  shows "queue_ok u' \<and> tokens_ok u'"
proof -
  have stop: "queue_ok v \<and> tokens_ok v" if "asio_step p (EvStop ok) u = Some v" for ok v
    using that assms(1,2) by (auto simp: queue_ok_def tokens_ok_def read_tokens_def try_stop_def asio_stop_def split: if_splits)
  have post: "queue_ok v \<and> tokens_ok v" if "asio_step p (EvPost m) u = Some v" for m v
    using that assms(1,2) queue_ok_pending [OF assms(1)]
    by (auto simp: queue_ok_def tokens_ok_def read_tokens_def asio_post_def write_data_def takeWhile_append)
  show ?thesis
  proof (cases e)
    case (EvIo now ok)
    obtain t ts where t: "au_io_strand u = t # ts" "u' = run_io p now ok t (u\<lparr>au_io_strand := ts\<rparr>)"
      using assms(4) unfolding EvIo by (elim ioE)
    show ?thesis
    proof (cases t)
      case Dispatch
      then show ?thesis using assms(1,2) t
        by (cases "au_pending u") (auto simp: queue_ok_def tokens_ok_def read_tokens_def dispatch_task_def)
    next
      case (WriteData m)
      then show ?thesis using assms(1,2) t by (auto simp: queue_ok_def tokens_ok_def read_tokens_def)
    next
      case (HandleWrite ec)
      then show ?thesis using assms(1,2) t handle_write_stop [of now ok ec "u\<lparr>au_io_strand := ts\<rparr>"]
        by (auto simp: queue_ok_def tokens_ok_def read_tokens_def)
    qed (use read_step_ok [OF assms(1-3) t(1)] t(2) in simp_all)
  next
    case EvWorker
    then obtain t ts where "au_worker_strand u = t # ts" "u' = run_worker t (u\<lparr>au_worker_strand := ts\<rparr>)"
      using assms(4) by (auto split: list.splits)
    with assms(1,2) show ?thesis
      by (cases t) (auto simp: queue_ok_def tokens_ok_def read_tokens_def run_worker_def start_read_def takeWhile_append count_list_0_iff)
  next
    case (EvRead bs ec)
    with assms queue_ok_pending [OF assms(1)] show ?thesis
      by (auto simp: queue_ok_def tokens_ok_def read_tokens_def takeWhile_append split: option.splits if_splits)
  next
    case (EvWrite n ec)
    with assms queue_ok_pending [OF assms(1)] show ?thesis
      by (auto simp: queue_ok_def tokens_ok_def read_tokens_def takeWhile_append split: option.splits if_splits)
  next
    case (EvTick now ok)
    with assms(4) have "asio_step p (EvTick now ok) u = Some u'" by simp
    then show ?thesis by (rule tick_cases) (use assms(1,2) stop post in auto)
  qed (use assms(4) stop post in auto)
qed

section \<open>The messages that were read\<close>

lemma scheduled_simps [simp]:
  "scheduled (u\<lparr>au_io_strand := ts\<rparr>) = scheduled u" "scheduled (u\<lparr>au_read := rd\<rparr>) = scheduled u" "scheduled (u\<lparr>au_hbhelper := hb\<rparr>) = scheduled u"
  "scheduled (u\<lparr>au_readQueue := ms\<rparr>) = scheduled u" "scheduled (u\<lparr>au_pending := b\<rparr>) = scheduled u" "scheduled (u\<lparr>au_taken := bs\<rparr>) = scheduled u"
  "scheduled (u\<lparr>au_posted := ms\<rparr>) = scheduled u" "scheduled (u\<lparr>au_stop := b\<rparr>) = scheduled u" "scheduled (u\<lparr>au_open := b\<rparr>) = scheduled u"
  "scheduled (u\<lparr>au_write := w\<rparr>) = scheduled u" "scheduled (u\<lparr>au_wire := bs\<rparr>) = scheduled u"
  "scheduled (schedule_dispatch u) = scheduled u" "scheduled (write_task m u) = scheduled u"
  by (simp_all add: scheduled_def schedule_dispatch_def)

lemma scheduled_handle_error [simp]: "scheduled (handle_error ok u) = scheduled u @ (if au_stop u then [] else [OnDisconnect])"
  by (simp add: scheduled_def)

lemma scheduled_worker:
  "au_worker_strand u = t # ts \<Longrightarrow> scheduled (run_worker t (u\<lparr>au_worker_strand := ts\<rparr>)) = scheduled u"
  by (simp add: scheduled_def run_worker_def start_read_def Let_def)

lemma content_okI:
  "au_taken u = concat (map msg_data ms) @ rest \<Longrightarrow> list_all (wf_msg p) ms \<Longrightarrow>
   received (scheduled u) @ au_readQueue u = payload p ms \<Longrightarrow> (\<not> au_stop u \<Longrightarrow> progress_ok p u rest) \<Longrightarrow> content_ok p u"
  unfolding content_ok_def by blast

lemma content_okE:
  assumes "content_ok p u"
  obtains ms rest where "au_taken u = concat (map msg_data ms) @ rest" "list_all (wf_msg p) ms"
    "received (scheduled u) @ au_readQueue u = payload p ms" "\<not> au_stop u \<longrightarrow> progress_ok p u rest"
  using assms unfolding content_ok_def by blast

text \<open>A read handler on its own: it takes the finished message into the books and starts the next read.\<close>

definition read_done :: "tcp_message_protocol \<Rightarrow> asio_user \<Rightarrow> tcp_message list \<Rightarrow> bytes \<Rightarrow> bool" where
  "read_done p u ms rest \<longleftrightarrow> au_taken u = concat (map msg_data ms) @ rest \<and> list_all (wf_msg p) ms \<and>
    received (scheduled u) @ au_readQueue u = payload p ms \<and> read_idle u"

lemma idle_progress: "read_idle u \<Longrightarrow> op_ok p rd rest \<Longrightarrow> progress_ok p (u\<lparr>au_read := Some rd\<rparr>) rest"
  apply (auto simp: progress_ok_def read_idle_def read_tokens_def filter_empty_conv count_list_0_iff)
  subgoal for t by (cases t) auto
  done

lemma content_handle_read:
  assumes "read_done p u ms rest" and "ec = Some operation_aborted \<longrightarrow> au_stop u"
    and "ec = None \<Longrightarrow> \<not> au_stop u \<Longrightarrow> rest = msg_data msg \<and> wf_msg p msg"
  shows "content_ok p (handle_read p now ok msg ec u)"
  using assms(2)
proof (cases rule: handle_read_cases [where p = p and now = now and ok = ok and msg = msg])
  case (heartbeat hb)
  then show ?thesis using assms(1,3) idle_progress [of "u\<lparr>au_hbhelper := hb\<rparr>" p ReadHeader "[]"]
    by (intro content_okI [where ms = "ms @ [msg]" and rest = "[]"]) (auto simp: read_done_def read_idle_def read_tokens_def)
next
  case (queued hb)
  let ?v = "u\<lparr>au_hbhelper := hb, au_readQueue := au_readQueue u @ [msg]\<rparr>"
  have "progress_ok p (?v\<lparr>au_read := Some ReadHeader\<rparr>) []"
    using idle_progress [of "u\<lparr>au_hbhelper := hb\<rparr>" p ReadHeader "[]"] assms(1)
    by (auto simp: read_done_def read_idle_def read_tokens_def progress_ok_def)
  then have "progress_ok p (schedule_dispatch (?v\<lparr>au_read := Some ReadHeader\<rparr>)) []"
    by (simp add: progress_ok_def schedule_dispatch_def)
  then show ?thesis using assms(1,3) queued
    by (intro content_okI [where ms = "ms @ [msg]" and rest = "[]"]) (auto simp: read_done_def schedule_dispatch_def)
next
  case overflow
  then show ?thesis using assms(1) by (simp add: read_done_def read_idle_def MaxRdQueueSize_def)
qed (use assms(1) in \<open>auto simp: read_done_def intro!: content_okI [where ms = ms and rest = rest]\<close>)

lemma content_of: "reading_ok p u \<Longrightarrow> content_ok p u"
  by (simp add: reading_ok_def)

text \<open>Steps that leave reading alone.\<close>

lemma content_frame:
  assumes "content_ok p u" and "au_taken u' = au_taken u" and "received (scheduled u') = received (scheduled u)"
    and "au_readQueue u' = au_readQueue u" and "\<not> au_stop u' \<Longrightarrow> \<not> au_stop u \<and> (\<forall>rest. progress_ok p u rest \<longrightarrow> progress_ok p u' rest)"
  shows "content_ok p u'"
  using assms(1) by (rule content_okE) (use assms(2-5) in \<open>auto intro!: content_okI\<close>)

lemma content_read_task:
  assumes "reading_ok p u" and "au_io_strand u = t # ts" and "is_read_task t"
  shows "content_ok p (run_io p now ok t (u\<lparr>au_io_strand := ts\<rparr>))"
proof -
  let ?v = "u\<lparr>au_io_strand := ts\<rparr>"
  obtain ms rest where c: "au_taken u = concat (map msg_data ms) @ rest" "list_all (wf_msg p) ms"
      "received (scheduled u) @ au_readQueue u = payload p ms" "\<not> au_stop u \<longrightarrow> progress_ok p u rest"
    by (rule content_okE [OF content_of [OF assms(1)]])
  have idle: "read_idle ?v" using read_task_idle [OF _ _ assms(2,3)] assms(1) by (simp add: reading_ok_def)
  have rd: "read_done p ?v ms rest" using c(1-3) idle by (simp add: read_done_def)
  have ab: "is_aborted t \<longrightarrow> au_stop ?v" using assms(1,2) by (auto simp: reading_ok_def closed_ok_def)
  have ok: "task_ok p t rest" if "\<not> au_stop u" using c(4) that assms(2) by (simp add: progress_ok_def)
  show ?thesis
  proof (cases t)
    case StartRead
    then have "content_ok p (read_header (?v\<lparr>au_hbhelper := hb\<rparr>))" for hb
      using c idle ok idle_progress [of "?v\<lparr>au_hbhelper := hb\<rparr>" p ReadHeader rest]
      by (intro content_okI [where ms = ms and rest = rest]) (auto simp: read_header_def read_idle_def read_tokens_def)
    then show ?thesis using StartRead by (simp add: start_read_task_def)
  next
    case (HandleRead msg ec)
    have "content_ok p (handle_read p now ok msg ec ?v)"
      using HandleRead ab ok by (intro content_handle_read [OF rd]) auto
    then show ?thesis using HandleRead by simp
  next
    case (ReadBody header ec)
    then have "ec = Some operation_aborted \<longrightarrow> au_stop ?v" using ab by simp
    then show ?thesis
    proof (cases rule: read_body_cases [where p = p and now = now and ok = ok and header = header])
      case whole
      have "content_ok p (handle_read p now ok \<lparr>msg_data = header\<rparr> None ?v)"
        using ok ReadBody whole(1,2) by (intro content_handle_read [OF rd]) (simp_all add: wf_msg_def)
      then show ?thesis using whole ReadBody by simp
    next
      case rest': rest
      have "op_ok p (ReadRest header (unat (bodySize p (Some \<lparr>msg_data = header\<rparr>)))) rest" using ok ReadBody rest' by (auto simp: unat_gt_0 word_gt_0)
      from idle_progress [OF idle this] show ?thesis using c rest' ReadBody
        by (intro content_okI [where ms = ms and rest = rest]) simp_all
    qed (use c ReadBody in \<open>auto intro!: content_okI [where ms = ms and rest = rest]\<close>)
  qed (use assms(3) in simp_all)
qed

lemma content_read_event:
  assumes "reading_ok p u" and "asio_step p (EvRead bs ec) u = Some u'" and "msg_protocol p"
  shows "content_ok p u'"
proof -
  obtain rd where rd: "au_read u = Some rd" "transferred (au_open u) ec (length bs) (read_size p rd)"
      "u' = u\<lparr>au_read := None, au_taken := au_taken u @ bs, au_io_strand := au_io_strand u @ [read_handler rd bs ec]\<rparr>"
    using assms(2) by (auto split: option.splits if_splits)
  obtain ms rest where c: "au_taken u = concat (map msg_data ms) @ rest" "list_all (wf_msg p) ms"
      "received (scheduled u) @ au_readQueue u = payload p ms" "\<not> au_stop u \<longrightarrow> progress_ok p u rest"
    by (rule content_okE [OF content_of [OF assms(1)]])
  have only: "filter is_read_task (au_io_strand u) = []" "Connect \<notin> set (au_worker_strand u)"
    using assms(1) rd(1) by (auto simp: reading_ok_def tokens_ok_def read_tokens_def count_list_0_iff)
  have other: "task_ok p t r" if "t \<in> set (au_io_strand u)" for t r
    using only(1) that by (cases t) (auto simp: filter_empty_conv)
  have "task_ok p (read_handler rd bs ec) (rest @ bs)" if "\<not> au_stop u"
  proof (cases rd)
    case ReadHeader
    then show ?thesis using c(4) that rd(1,2) by (cases ec) (auto simp: progress_ok_def transferred_def)
  next
    case (ReadRest header n)
    have "op_ok p rd rest" using c(4) that rd(1) by (simp add: progress_ok_def)
    with ReadRest msg_protocol.bodySize_append [OF assms(3), of header bs] rd(2) show ?thesis
      by (cases ec) (auto simp: wf_msg_def transferred_def)
  qed
  then have "progress_ok p u' (rest @ bs)" if "\<not> au_stop u" using rd(3) only(2) other that by (auto simp: progress_ok_def)
  then show ?thesis using c rd(3) by (intro content_okI [where ms = ms and rest = "rest @ bs"]) auto
qed

lemma progress_app: "progress_ok p u rest \<Longrightarrow> task_ok p t rest \<Longrightarrow> progress_ok p (u\<lparr>au_io_strand := au_io_strand u @ [t]\<rparr>) rest"
  by (auto simp: progress_ok_def)

lemma content_step:
  assumes "reading_ok p u" and "asio_step p e u = Some u'" and "msg_protocol p"
  shows "content_ok p u'"
proof -
  note c = content_of [OF assms(1)]
  have stop: "content_ok p v" if "asio_step p (EvStop ok) u = Some v" for ok v
    by (rule content_frame [OF c]) (use that in \<open>auto simp: try_stop_def asio_stop_def split: if_splits\<close>)
  have post: "content_ok p v" if "asio_step p (EvPost m) u = Some v" for m v
    by (rule content_frame [OF c]) (use that in \<open>auto simp: asio_post_def write_data_def progress_ok_def\<close>)
  show ?thesis
  proof (cases e)
    case (EvIo now ok)
    obtain t ts where t: "au_io_strand u = t # ts" "u' = run_io p now ok t (u\<lparr>au_io_strand := ts\<rparr>)"
      using assms(2) unfolding EvIo by (elim ioE)
    show ?thesis
    proof (cases t)
      case Dispatch
      have "received (scheduled u') @ au_readQueue u' = received (scheduled u) @ au_readQueue u"
        using t Dispatch by (simp add: dispatch_task_def scheduled_def)
      then show ?thesis using c t Dispatch
        by (elim content_okE) (auto intro!: content_okI simp: dispatch_task_def progress_ok_def)
    next
      case (WriteData m)
      show ?thesis by (rule content_frame [OF c]) (use t WriteData in \<open>auto simp: progress_ok_def\<close>)
    next
      case (HandleWrite ec)
      show ?thesis
        by (rule content_frame [OF c])
          (use t HandleWrite handle_write_stop [of now ok ec "u\<lparr>au_io_strand := ts\<rparr>"] in \<open>auto simp: progress_ok_def scheduled_def\<close>)
    qed (use content_read_task [OF assms(1) t(1)] t(2) in simp_all)
  next
    case EvWorker
    then obtain t ts where t: "au_worker_strand u = t # ts" "u' = run_worker t (u\<lparr>au_worker_strand := ts\<rparr>)"
      using assms(2) by (auto split: list.splits)
    have "progress_ok p u rest \<Longrightarrow> progress_ok p u' rest" for rest
      using t by (cases t) (auto simp: progress_ok_def run_worker_def start_read_def Let_def)
    then show ?thesis
      using t scheduled_worker [OF t(1)] assms(1)
      by (intro content_frame [of p u u']) (auto simp: reading_ok_def run_worker_def start_read_def Let_def split: if_splits)
  next
    case (EvRead bs ec)
    then show ?thesis using content_read_event assms by blast
  next
    case (EvWrite n ec)
    then show ?thesis using assms
      by (intro content_frame [of p u u']) (auto simp: reading_ok_def progress_ok_def split: option.splits if_splits)
  next
    case (EvTick now ok)
    with assms(2) have "asio_step p (EvTick now ok) u = Some u'" by simp
    then show ?thesis by (rule tick_cases) (use c stop post in auto)
  qed (use assms(2) stop post in auto)
qed

lemma reading_ok_start: "asio_started u \<Longrightarrow> reading_ok p u"
  by (auto simp: asio_started_def asio_start_def asio_user_new_def reading_ok_def closed_ok_def queue_ok_def tokens_ok_def read_tokens_def
      scheduled_def progress_ok_def intro!: content_okI [where ms = "[]" and rest = "[]"])

lemma reading_ok_step: "msg_protocol p \<Longrightarrow> reading_ok p u \<Longrightarrow> asio_step p e u = Some u' \<Longrightarrow> reading_ok p u'"
  using content_step closed_ok_step structure_step unfolding reading_ok_def by metis

sublocale msg_protocol \<subseteq> reading: inductive_invariant "asio_step p" asio_started "reading_ok p"
  by unfold_locales (blast intro: reading_ok_start, rule reading_ok_step [OF msg_protocol_axioms])

context msg_protocol
begin

lemmas reading_holds = reading.holds

lemma messages_unique:
  "list_all (wf_msg p) ms \<Longrightarrow> list_all (wf_msg p) sent \<Longrightarrow> concat (map msg_data ms) @ rest = concat (map msg_data sent) @ r \<Longrightarrow>
   length (concat (map msg_data ms)) \<le> length (concat (map msg_data sent)) \<Longrightarrow>
   ms = take (length ms) sent \<and> rest = concat (map msg_data (drop (length ms) sent)) @ r"
proof (induction ms arbitrary: sent)
  case (Cons m ms)
  have "msg_data m \<noteq> []" using Cons.prems(1) wf_not_empty by simp
  then obtain m' sent' where sent: "sent = m' # sent'" using Cons.prems(4) by (cases sent) auto
  then have "m = m' \<and> concat (map msg_data ms) @ rest = concat (map msg_data sent') @ r"
    using wf_prefix_unique [of m m'] Cons.prems(1-3) by simp
  then show ?case using Cons.IH [of sent'] Cons.prems sent by simp
qed simp

text \<open>The messages read so far are the first ones of the stream the peer sends.\<close>

lemma read_messages:
  assumes "reading_ok p u" and "list_all (wf_msg p) sent" and "prefix (au_taken u) (concat (map msg_data sent))"
  obtains k rest where "received (scheduled u) @ au_readQueue u = payload p (take k sent)"
    "au_taken u = concat (map msg_data (take k sent)) @ rest" "\<not> au_stop u \<longrightarrow> progress_ok p u rest"
proof -
  obtain ms rest where c: "au_taken u = concat (map msg_data ms) @ rest" "list_all (wf_msg p) ms"
      "received (scheduled u) @ au_readQueue u = payload p ms" "\<not> au_stop u \<longrightarrow> progress_ok p u rest"
    by (rule content_okE [OF content_of [OF assms(1)]])
  obtain r where r: "concat (map msg_data sent) = concat (map msg_data ms) @ rest @ r" using assms(3) c(1) by (auto simp: prefix_def)
  then have "ms = take (length ms) sent"
    using messages_unique [OF c(2) assms(2), of "rest @ r" "[]"] by simp
  then show ?thesis using that [of "length ms" rest] c by metis
qed

text \<open>All bytes taken and no task left: the message in progress is the empty one.\<close>

lemma all_read:
  assumes "reading_ok p u" and "list_all (wf_msg p) sent" and "au_taken u = concat (map msg_data sent)"
    and "au_io_strand u = []" and "au_worker_strand u = []" and "\<not> au_stop u"
  shows "received (au_calls u) = payload p sent"
proof -
  obtain k rest where k: "received (scheduled u) @ au_readQueue u = payload p (take k sent)"
      "au_taken u = concat (map msg_data (take k sent)) @ rest" "\<not> au_stop u \<longrightarrow> progress_ok p u rest"
    using read_messages [OF assms(1,2)] assms(3) by auto
  obtain rd where rd: "au_read u = Some rd" "op_ok p rd rest"
    using assms(1,4-6) k(3) by (cases "au_read u") (auto simp: reading_ok_def tokens_ok_def read_tokens_def progress_ok_def)
  have "concat (map msg_data (take k sent)) @ rest = concat (map msg_data (take k sent)) @ concat (map msg_data (drop k sent))"
    using k(2) assms(3) by (metis append_take_drop_id concat_append map_append)
  then have rest: "rest = concat (map msg_data (drop k sent))" by simp
  have "drop k sent = []"
  proof (cases "drop k sent")
    case (Cons m ms)
    then have m: "wf_msg p m" using assms(2) by (metis in_set_dropD list.set_intros(1) list_all_iff)
    have data: "rest = msg_data m @ concat (map msg_data ms)" using rest Cons by simp
    show ?thesis
    proof (cases rd)
      case ReadHeader
      then show ?thesis using rd(2) data wf_not_empty [OF m] by simp
    next
      case (ReadRest header n)
      have le: "unat (headerSize p) \<le> length (msg_data m)" using m by (simp add: wf_msg_def)
      have h: "rest = header" "length header = unat (headerSize p)" "0 < n" "n = unat (bodySize p (Some \<lparr>msg_data = header\<rparr>))"
        using rd(2) ReadRest by auto
      then have "msg_data m = header" using data le by (cases "concat (map msg_data ms)") auto
      then show ?thesis using m h by (auto simp: wf_msg_def)
    qed
  qed simp
  moreover have "au_readQueue u = []" using assms(1,4) by (auto simp: reading_ok_def queue_ok_def)
  ultimately show ?thesis using k(1) assms(5) by (simp add: scheduled_def)
qed

end

text \<open>
  C13: Reading in the Boost.Asio build: whatever threads and network do, when the bytes that were read are the beginning of a stream
  of well-formed messages, the messages handed to the listener are the first ones of that stream without the
  heartbeats, in order.  The bounded read queue never overflows, it holds at most one message.  As long as the
  connection is not stopped, a read is outstanding or one of its tasks waits, and when all bytes have been read and the
  strands are empty every message has been delivered.
\<close>
theorem asio_reads_in_order:
  assumes "msg_protocol p" and "reach (asio_step p) asio_started u" and "list_all (wf_msg p) sent"
    and "prefix (au_taken u) (concat (map msg_data sent))"
  shows "prefix (received (au_calls u)) (payload p sent) \<and> au_rd_overflows u = 0 \<and> length (au_readQueue u) \<le> 1 \<and>
    (\<not> au_stop u \<longrightarrow> read_tokens u = 1 \<and>
      (au_taken u = concat (map msg_data sent) \<and> au_io_strand u = [] \<and> au_worker_strand u = [] \<longrightarrow> received (au_calls u) = payload p sent))"
proof -
  have ok: "reading_ok p u" by (rule msg_protocol.reading_holds [OF assms(1,2)])
  obtain k rest where k: "received (scheduled u) @ au_readQueue u = payload p (take k sent)"
    by (rule msg_protocol.read_messages [OF assms(1) ok assms(3,4)])
  have "payload p (take k sent) @ payload p (drop k sent) = payload p sent" by (metis append_take_drop_id filter_append)
  then have "prefix (received (au_calls u)) (payload p sent)" using k by (metis append_assoc prefixI received_append scheduled_def)
  then show ?thesis using ok msg_protocol.all_read [OF assms(1) ok assms(3)]
    by (auto simp: reading_ok_def queue_ok_def tokens_ok_def)
qed

definition sample_events :: "asio_event list" where
  "sample_events = [EvWorker, EvIo 100 True, EvRead [2, 0, 0, 1] None, EvIo 100 True, EvRead [9] None, EvIo 100 True, EvIo 100 True, EvWorker]"

lemma sample_extract: "extract_uint32 [2, 0, 0, 1] = 0x2000001" "extract_uint32 [2, 0, 0, 1, 9] = 0x2000001"
  by (simp_all add: extract_uint32_def ntohl_mem_load be_word_def push_bit_eq_mult)

lemma sample_sizes:
  "default_bodySize (Some \<lparr>msg_data = [2, 0, 0, 1]\<rparr>) = 1" "default_bodySize (Some \<lparr>msg_data = [2, 0, 0, 1, 9]\<rparr>) = 1"
  "default_type (Some \<lparr>msg_data = [2, 0, 0, 1, 9]\<rparr>) = 2"
  by (simp_all add: default_bodySize_def default_type_def sample_extract drop_bit_eq_div)

lemmas evaluate = asio_start_def asio_user_new_def run_worker_def start_read_def start_read_task_def read_header_def hb_update_def heartbeat_new_def
  transferred_def read_body_def handle_read_def schedule_dispatch_def MaxRdQueueSize_def dispatch_task_def batch_chunks.simps MaxBatchSize_def Let_def
  asio_post_def write_data_def write_task_def do_write_def handle_write_def MaxWrQueueSize_def handle_error_def try_stop_def asio_stop_def

theorem asio_reads_in_order_witness:
  "\<exists>u. run_events (asio_step default_msg_proto) sample_events (asio_start (asio_user_new True)) = Some u \<and> au_rd_overflows u = 0 \<and>
    received (au_calls u) = [\<lparr>msg_data = [2, 0, 0, 1, 9]\<rparr>]"
proof -
  let ?m = "\<lparr>msg_data = [2, 0, 0, 1, 9]\<rparr>"
  obtain u where u: "run_events (asio_step default_msg_proto) sample_events (asio_start (asio_user_new True)) = Some u"
    "au_taken u = concat (map msg_data [?m])" "au_io_strand u = []" "au_worker_strand u = []" "\<not> au_stop u"
    by (simp add: sample_events_def evaluate sample_sizes default_MaxBodySize_def Heartbeat_def)
  have "reach (asio_step default_msg_proto) asio_started u"
    using u(1) by (rule reach_run [rotated]) (auto simp: asio_started_def)
  from asio_reads_in_order [OF default_proto.msg_protocol_axioms this, of "[?m]"] u show ?thesis
    by (auto simp: wf_msg_def sample_sizes default_MaxBodySize_def Heartbeat_def)
qed

end
