(* ===== verification/AsioWrite.thy ===== *)
theory AsioWrite
  imports AsioUser
begin

text \<open>
  The connections of the Boost.Asio build, continued: writing, and the calls of the listener.  The model is in \<open>AsioUser\<close>; here are
  the invariants of the write queue and of the sequence of calls, and what they mean for messages and disconnects.
\<close>

section \<open>The invariant of writing\<close>

fun is_write_task :: "io_task \<Rightarrow> bool" where
  "is_write_task (HandleWrite ec) = True"
| "is_write_task _ = False"

fun waiting :: "io_task list \<Rightarrow> tcp_message list" where
  "waiting [] = []"
| "waiting (WriteData m # ts) = m # waiting ts"
| "waiting (_ # ts) = waiting ts"

definition write_tokens :: "asio_user \<Rightarrow> nat" where
  "write_tokens u = of_bool (au_write u \<noteq> None) + length (filter is_write_task (au_io_strand u))"

definition writer_ok :: "asio_user \<Rightarrow> bool" where
  "writer_ok u \<longleftrightarrow> write_tokens u \<le> 1 \<and> (write_tokens u = 1 \<longrightarrow> au_writeQueue u \<noteq> []) \<and>
    (au_writeQueue u \<noteq> [] \<and> \<not> au_stop u \<longrightarrow> write_tokens u = 1) \<and> length (au_writeQueue u) \<le> MaxWrQueueSize"

text \<open>The messages written completely and the part of the front message that is on the wire.\<close>

definition wire_is :: "asio_user \<Rightarrow> tcp_message list \<Rightarrow> bytes \<Rightarrow> bool" where
  "wire_is u dn part \<longleftrightarrow> au_wire u = concat (map msg_data dn) @ part \<and>
    (\<forall>buf. au_write u = Some buf \<longrightarrow> part = [] \<and> buf = msg_data (hd (au_writeQueue u))) \<and>
    (HandleWrite None \<in> set (au_io_strand u) \<longrightarrow> part = msg_data (hd (au_writeQueue u))) \<and>
    (case au_writeQueue u of [] \<Rightarrow> part = [] | m # _ \<Rightarrow> prefix part (msg_data m)) \<and>
    subseq (dn @ au_writeQueue u @ waiting (au_io_strand u)) (au_posted u) \<and>
    (au_wr_overflows u = 0 \<longrightarrow> dn @ au_writeQueue u @ waiting (au_io_strand u) = au_posted u)"

definition writing_ok :: "asio_user \<Rightarrow> bool" where
  "writing_ok u \<longleftrightarrow> closed_ok u \<and> writer_ok u \<and> (\<exists>dn part. wire_is u dn part)"

lemma waiting_append [simp]: "waiting (ts @ us) = waiting ts @ waiting us"
  by (induction ts rule: waiting.induct) simp_all

lemma read_handler_write [simp]: "waiting [read_handler rd bs ec] = []" "is_write_task (read_handler rd bs ec) = False"
  "HandleWrite e \<noteq> read_handler rd bs ec"
  by (cases rd; simp)+

text \<open>Steps that leave writing alone.\<close>

lemma write_frame:
  assumes "writer_ok u \<and> (\<exists>dn part. wire_is u dn part)" and "au_wire v = au_wire u" and "au_write v = au_write u" and "au_writeQueue v = au_writeQueue u"
    and "au_posted v = au_posted u" and "au_wr_overflows v = au_wr_overflows u" and "au_stop u \<longrightarrow> au_stop v"
    and "waiting (au_io_strand v) = waiting (au_io_strand u)" and "filter is_write_task (au_io_strand v) = filter is_write_task (au_io_strand u)"
  shows "writer_ok v \<and> (\<exists>dn part. wire_is v dn part)"
proof -
  have "HandleWrite None \<in> set (au_io_strand w) \<longleftrightarrow> HandleWrite None \<in> set (filter is_write_task (au_io_strand w))" for w by auto
  then have "HandleWrite None \<in> set (au_io_strand v) \<longleftrightarrow> HandleWrite None \<in> set (au_io_strand u)" using assms(9) by metis
  moreover obtain dn part where "wire_is u dn part" using assms(1) by blast
  ultimately have "wire_is v dn part" using assms(2-6,8) by (simp add: wire_is_def)
  moreover have "writer_ok v" using assms(1,3,4,7,9) by (auto simp: writer_ok_def write_tokens_def)
  ultimately show ?thesis by blast
qed

lemma handle_read_writing:
  "au_wire (handle_read p now ok msg ec u) = au_wire u \<and> au_write (handle_read p now ok msg ec u) = au_write u \<and>
   au_writeQueue (handle_read p now ok msg ec u) = au_writeQueue u \<and> au_posted (handle_read p now ok msg ec u) = au_posted u \<and>
   au_wr_overflows (handle_read p now ok msg ec u) = au_wr_overflows u \<and> (au_stop u \<longrightarrow> au_stop (handle_read p now ok msg ec u)) \<and>
   waiting (au_io_strand (handle_read p now ok msg ec u)) = waiting (au_io_strand u) \<and>
   filter is_write_task (au_io_strand (handle_read p now ok msg ec u)) = filter is_write_task (au_io_strand u)"
  by (cases ec) (auto simp: handle_read_def read_header_def schedule_dispatch_def Let_def)

lemma read_task_writing:
  assumes "\<not> is_write_task t" and "\<And>m. t \<noteq> WriteData m"
  shows "au_wire (run_io p now ok t u) = au_wire u \<and> au_write (run_io p now ok t u) = au_write u \<and>
   au_writeQueue (run_io p now ok t u) = au_writeQueue u \<and> au_posted (run_io p now ok t u) = au_posted u \<and>
   au_wr_overflows (run_io p now ok t u) = au_wr_overflows u \<and> (au_stop u \<longrightarrow> au_stop (run_io p now ok t u)) \<and>
   waiting (au_io_strand (run_io p now ok t u)) = waiting (au_io_strand u) \<and>
   filter is_write_task (au_io_strand (run_io p now ok t u)) = filter is_write_task (au_io_strand u)"
proof (cases t)
  case (ReadBody header ec)
  then show ?thesis using handle_read_writing [of p now ok "\<lparr>msg_data = header\<rparr>" ec u]
    by (cases ec) (auto simp: read_body_def Let_def)
qed (use assms handle_read_writing in \<open>auto simp: start_read_task_def read_header_def dispatch_task_def\<close>)

lemma write_task_ok:
  assumes "writer_ok u" and "wire_is u dn part" and "au_io_strand u = WriteData m # ts"
  shows "writer_ok (write_task m (u\<lparr>au_io_strand := ts\<rparr>)) \<and> (\<exists>dn part. wire_is (write_task m (u\<lparr>au_io_strand := ts\<rparr>)) dn part)"
proof (cases "length (au_writeQueue u) < MaxWrQueueSize")
  case True
  have z: "filter is_write_task ts = [] \<and> au_write u = None" if "au_writeQueue u = []"
  proof -
    have "write_tokens u = 0" using that assms(1) by (auto simp: writer_ok_def le_Suc_eq)
    then show ?thesis using assms(3) by (auto simp: write_tokens_def)
  qed
  have "wire_is (write_task m (u\<lparr>au_io_strand := ts\<rparr>)) dn part"
  proof (cases "au_writeQueue u")
    case Nil
    have "HandleWrite None \<notin> set ts" using z [OF Nil] by (auto simp: filter_empty_conv)
    with z [OF Nil] show ?thesis using assms(2,3) True Nil by (auto simp: wire_is_def write_task_def do_write_def Let_def)
  next
    case (Cons m' ms)
    then show ?thesis using assms(2,3) True by (auto simp: wire_is_def write_task_def)
  qed
  moreover have "writer_ok (write_task m (u\<lparr>au_io_strand := ts\<rparr>))"
    using assms True z by (cases "au_writeQueue u") (auto simp: writer_ok_def write_task_def do_write_def Let_def write_tokens_def)
  ultimately show ?thesis by blast
next
  case False
  have "subseq (dn @ au_writeQueue u @ waiting ts) (dn @ au_writeQueue u @ m # waiting ts)" by (intro subseq_append_iff [THEN iffD2] list_emb_append_mono) auto
  then have "subseq (dn @ au_writeQueue u @ waiting ts) (au_posted u)"
    using assms(2,3) subseq_order.order_trans by (fastforce simp: wire_is_def)
  with False assms show ?thesis
    by (intro conjI exI [of _ dn] exI [of _ part]) (auto simp: wire_is_def write_task_def writer_ok_def write_tokens_def split: list.splits)
qed

lemma handle_write_ok:
  assumes "writer_ok u" and "wire_is u dn part" and "closed_ok u" and "au_io_strand u = HandleWrite ec # ts"
  shows "writer_ok (handle_write now ok ec (u\<lparr>au_io_strand := ts\<rparr>)) \<and> (\<exists>dn part. wire_is (handle_write now ok ec (u\<lparr>au_io_strand := ts\<rparr>)) dn part)"
proof -
  have t: "au_write u = None" "filter is_write_task ts = []" "au_writeQueue u \<noteq> []"
    using assms(1,4) by (auto simp: writer_ok_def write_tokens_def split: if_splits)
  then obtain m ms where q: "au_writeQueue u = m # ms" by (cases "au_writeQueue u") auto
  have n: "HandleWrite e \<notin> set ts" for e using t(2) by (auto simp: filter_empty_conv)
  show ?thesis
  proof (cases ec)
    case None
    then have "part = msg_data m" using assms(2,4) q by (auto simp: wire_is_def)
    then have "wire_is (handle_write now ok ec (u\<lparr>au_io_strand := ts\<rparr>)) (dn @ [m]) []"
      using assms(2,4) None q t n by (auto simp: wire_is_def handle_write_def do_write_def Let_def split: list.splits)
    moreover have "writer_ok (handle_write now ok ec (u\<lparr>au_io_strand := ts\<rparr>))"
      using assms(1,4) None q t by (auto simp: writer_ok_def handle_write_def do_write_def Let_def write_tokens_def)
    ultimately show ?thesis by blast
  next
    case (Some e)
    have "e = operation_aborted \<longrightarrow> au_stop u" using assms(3,4) Some by (auto simp: closed_ok_def)
    then have "writer_ok (handle_write now ok ec (u\<lparr>au_io_strand := ts\<rparr>)) \<and> wire_is (handle_write now ok ec (u\<lparr>au_io_strand := ts\<rparr>)) dn part"
      using assms(1,2,4) Some q t n by (auto simp: wire_is_def writer_ok_def write_tokens_def handle_write_def)
    then show ?thesis by blast
  qed
qed

lemma writing_ok_step:
  assumes "writing_ok u" and "asio_step p e u = Some u'"
  shows "writing_ok u'"
proof -
  have w: "writer_ok u \<and> (\<exists>dn part. wire_is u dn part)" and c: "closed_ok u" using assms(1) by (auto simp: writing_ok_def)
  obtain dn part where wi: "wire_is u dn part" using w by blast
  have stop: "writer_ok v \<and> (\<exists>dn part. wire_is v dn part)" if "asio_step p (EvStop ok) u = Some v" for ok v
    by (rule write_frame [OF w]) (use that in \<open>auto simp: try_stop_def asio_stop_def split: if_splits\<close>)
  have post: "writer_ok v \<and> (\<exists>dn part. wire_is v dn part)" if "asio_step p (EvPost m) u = Some v" for m v
  proof -
    have "subseq ((dn @ au_writeQueue u @ waiting (au_io_strand u)) @ [m]) (au_posted u @ [m])"
      using wi by (intro list_emb_append_mono) (auto simp: wire_is_def)
    then have "wire_is v dn part" using that wi by (simp add: wire_is_def asio_post_def write_data_def) auto
    moreover have "writer_ok v" using that w by (auto simp: writer_ok_def write_tokens_def asio_post_def write_data_def)
    ultimately show ?thesis by blast
  qed
  have "writer_ok u' \<and> (\<exists>dn part. wire_is u' dn part)"
  proof (cases e)
    case (EvIo now ok)
    obtain t ts where t: "au_io_strand u = t # ts" "u' = run_io p now ok t (u\<lparr>au_io_strand := ts\<rparr>)"
      using assms(2) unfolding EvIo by (elim ioE)
    show ?thesis
    proof (cases t)
      case (WriteData m)
      then show ?thesis using write_task_ok [OF _ wi] w t by simp
    next
      case (HandleWrite ec)
      then show ?thesis using handle_write_ok [OF _ wi c] w t by simp
    qed (rule write_frame [OF w], use t read_task_writing [of t p now ok "u\<lparr>au_io_strand := ts\<rparr>"] in \<open>simp_all\<close>)+
  next
    case EvWorker
    then show ?thesis using assms(2)
      by (intro write_frame [OF w]) (auto simp: run_worker_def start_read_def Let_def split: list.splits if_splits)
  next
    case (EvRead bs ec)
    then show ?thesis using assms(2)
      by (intro write_frame [OF w]) (auto split: option.splits if_splits)
  next
    case (EvWrite n ec)
    then obtain buf where b: "au_write u = Some buf" "transferred (au_open u) ec n (length buf)"
        "u' = u\<lparr>au_write := None, au_wire := au_wire u @ take n buf, au_io_strand := au_io_strand u @ [HandleWrite ec]\<rparr>"
      using assms(2) by (auto split: option.splits if_splits)
    have q: "au_writeQueue u \<noteq> []" "filter is_write_task (au_io_strand u) = []" using w b(1) by (auto simp: writer_ok_def write_tokens_def)
    have "wire_is u' dn (take n buf)"
      using wi b q by (auto simp: wire_is_def transferred_def filter_empty_conv take_is_prefix split: list.splits if_splits)
    moreover have "writer_ok u'" using w b q by (auto simp: writer_ok_def write_tokens_def)
    ultimately show ?thesis by blast
  next
    case (EvTick now ok)
    with assms(2) have "asio_step p (EvTick now ok) u = Some u'" by simp
    then show ?thesis by (rule tick_cases) (use w stop post in auto)
  qed (use assms(2) stop post in auto)
  then show ?thesis using closed_ok_step [OF c assms(2)] by (simp add: writing_ok_def)
qed

lemma writing_ok_start: "asio_started u \<Longrightarrow> writing_ok u"
  by (auto simp: asio_started_def asio_start_def asio_user_new_def writing_ok_def closed_ok_def writer_ok_def write_tokens_def wire_is_def
      intro!: exI [of _ "[]"])

interpretation writing: inductive_invariant "asio_step p" asio_started writing_ok
  by unfold_locales (blast intro: writing_ok_start, rule writing_ok_step)

text \<open>
  C21: Writing in the Boost.Asio build: whatever threads and network do, the bytes on the wire are whole messages in the order of posting
  and a part of the next one.  At most 256 messages wait, and while none had to be dropped for that, the messages written, queued and
  on their way to the queue are exactly those posted.  A queued message of a connection that is not stopped always
  has a write outstanding or its handler waiting, so none is left behind.
\<close>
theorem asio_writes_in_order:
  assumes "reach (asio_step p) asio_started u"
  shows "\<exists>dn part. au_wire u = concat (map msg_data dn) @ part \<and> prefix part (concat (map msg_data (au_writeQueue u))) \<and>
    subseq (dn @ au_writeQueue u @ waiting (au_io_strand u)) (au_posted u) \<and>
    (au_wr_overflows u = 0 \<longrightarrow> dn @ au_writeQueue u @ waiting (au_io_strand u) = au_posted u) \<and>
    length (au_writeQueue u) \<le> 256 \<and> (au_writeQueue u \<noteq> [] \<and> \<not> au_stop u \<longrightarrow> write_tokens u = 1)"
proof -
  obtain dn part where "wire_is u dn part" "writer_ok u" using writing.holds [OF assms] by (auto simp: writing_ok_def)
  then show ?thesis
    by (intro exI [of _ dn] exI [of _ part]) (auto simp: wire_is_def writer_ok_def MaxWrQueueSize_def split: list.splits)
qed

theorem asio_writes_in_order_witness:
  "\<exists>u. run_events (asio_step default_msg_proto) [EvPost \<lparr>msg_data = [2, 0, 0, 0]\<rparr>, EvPost \<lparr>msg_data = [3, 0, 0, 0]\<rparr>, EvIo 1 True, EvIo 1 True, EvWrite 4 None, EvIo 1 True]
      (asio_start (asio_user_new False)) = Some u \<and> au_wire u = [2, 0, 0, 0] \<and>
    (\<exists>dn part. au_wire u = concat (map msg_data dn) @ part \<and> subseq (dn @ au_writeQueue u @ waiting (au_io_strand u)) (au_posted u)) \<and> write_tokens u = 1"
proof -
  obtain u where u: "run_events (asio_step default_msg_proto)
      [EvPost \<lparr>msg_data = [2, 0, 0, 0]\<rparr>, EvPost \<lparr>msg_data = [3, 0, 0, 0]\<rparr>, EvIo 1 True, EvIo 1 True, EvWrite 4 None, EvIo 1 True]
      (asio_start (asio_user_new False)) = Some u" "au_wire u = [2, 0, 0, 0]" "au_writeQueue u \<noteq> []" "\<not> au_stop u"
    by (simp add: evaluate)
  have "reach (asio_step default_msg_proto) asio_started u"
    using u(1) by (rule reach_run [rotated]) (auto simp: asio_started_def)
  from asio_writes_in_order [OF this] u show ?thesis by auto
qed

section \<open>The calls of the listener\<close>

lemma scheduled_overflow: "scheduled (u\<lparr>au_rd_overflows := n\<rparr>) = scheduled u"
  by (simp add: scheduled_def)

lemma scheduled_read:
  "\<exists>cs. scheduled (handle_read p now ok msg ec u) = scheduled u @ cs \<and> cs \<in> {[], [OnDisconnect]} \<and>
    (cs = [OnDisconnect] \<longrightarrow> \<not> au_stop u \<and> au_stop (handle_read p now ok msg ec u)) \<and> (au_stop u \<longrightarrow> au_stop (handle_read p now ok msg ec u))"
  by (cases ec) (auto simp: handle_read_def read_header_def Let_def scheduled_overflow)

definition appended :: "asio_user \<Rightarrow> asio_user \<Rightarrow> bool" where
  "appended u u' \<longleftrightarrow> (\<exists>cs. scheduled u' = scheduled u @ cs \<and> OnConnect \<notin> set cs \<and>
    (OnDisconnect \<in> set cs \<longrightarrow> cs = [OnDisconnect] \<and> \<not> au_stop u \<and> au_stop u')) \<and> (au_stop u \<longrightarrow> au_stop u')"

lemma appendedI: "scheduled u' = scheduled u @ cs \<Longrightarrow> OnConnect \<notin> set cs \<Longrightarrow>
    (OnDisconnect \<in> set cs \<Longrightarrow> cs = [OnDisconnect] \<and> \<not> au_stop u \<and> au_stop u') \<Longrightarrow> (au_stop u \<Longrightarrow> au_stop u') \<Longrightarrow> appended u u'"
  unfolding appended_def by blast

lemma appended_error: "appended u (handle_error ok (u\<lparr>au_io_strand := ts\<rparr>))"
  by (rule appendedI [where cs = "if au_stop u then [] else [OnDisconnect]"]) auto

lemma appended_same: "scheduled u' = scheduled u \<Longrightarrow> (au_stop u \<Longrightarrow> au_stop u') \<Longrightarrow> appended u u'"
  by (rule appendedI [where cs = "[]"]) auto

lemma appended_read: "appended u (handle_read p now ok msg ec (u\<lparr>au_io_strand := ts\<rparr>))"
proof -
  obtain cs where "scheduled (handle_read p now ok msg ec (u\<lparr>au_io_strand := ts\<rparr>)) = scheduled u @ cs" "cs \<in> {[], [OnDisconnect]}"
    "cs = [OnDisconnect] \<longrightarrow> \<not> au_stop u \<and> au_stop (handle_read p now ok msg ec (u\<lparr>au_io_strand := ts\<rparr>))"
    "au_stop u \<longrightarrow> au_stop (handle_read p now ok msg ec (u\<lparr>au_io_strand := ts\<rparr>))"
    using scheduled_read [of p now ok msg ec "u\<lparr>au_io_strand := ts\<rparr>"] by auto
  then show ?thesis by (intro appendedI [where cs = cs]) auto
qed

lemma appended_task:
  assumes "au_io_strand u = t # ts"
  shows "appended u (run_io p now ok t (u\<lparr>au_io_strand := ts\<rparr>))"
proof (cases t)
  case (ReadBody header ec)
  then show ?thesis using appended_error [of u ok ts] appended_read [of u p now ok "\<lparr>msg_data = header\<rparr>" ec ts]
    by (cases ec) (auto simp: read_body_def Let_def intro: appended_same)
next
  case Dispatch
  then show ?thesis
    by (intro appendedI [where cs = "concat (map (task_calls \<circ> RecvChunk) (batch_chunks (au_readQueue u)))"])
      (auto simp: dispatch_task_def scheduled_def)
next
  case (HandleWrite ec)
  then show ?thesis using appended_error [of u ok ts] handle_write_stop [of now ok ec "u\<lparr>au_io_strand := ts\<rparr>"]
    by (intro appendedI [where cs = "if au_worker_strand (handle_write now ok ec (u\<lparr>au_io_strand := ts\<rparr>)) = au_worker_strand u then [] else [OnDisconnect]"])
      (auto simp: scheduled_def)
qed (use appended_read in \<open>auto simp: start_read_task_def read_header_def intro!: appended_same\<close>)

lemma appended_step:
  assumes "asio_step p e u = Some u'"
  shows "appended u u'"
proof (cases e)
  case (EvIo now ok)
  then show ?thesis using assms appended_task by (auto split: list.splits)
next
  case EvWorker
  then show ?thesis using assms scheduled_worker by (auto simp: run_worker_def start_read_def Let_def intro!: appended_same split: list.splits)
next
  case (EvTick now ok)
  with assms have "asio_step p (EvTick now ok) u = Some u'" by simp
  then show ?thesis
    by (rule tick_cases) (auto simp: try_stop_def asio_stop_def asio_post_def write_data_def intro!: appended_same)
qed (use assms in \<open>auto simp: try_stop_def asio_stop_def asio_post_def write_data_def intro!: appended_same split: option.splits if_splits\<close>)

definition calls_ok :: "asio_user \<Rightarrow> bool" where
  "calls_ok u \<longleftrightarrow> (\<exists>rest. scheduled u = OnConnect # rest \<and> OnConnect \<notin> set rest \<and> count_list rest OnDisconnect \<le> 1 \<and>
    (OnDisconnect \<in> set rest \<longrightarrow> au_stop u))"

lemma calls_ok_step:
  assumes "calls_ok u" and "asio_step p e u = Some u'"
  shows "calls_ok u'"
proof -
  obtain rest cs where r: "scheduled u = OnConnect # rest" "OnConnect \<notin> set rest" "count_list rest OnDisconnect \<le> 1" "OnDisconnect \<in> set rest \<longrightarrow> au_stop u"
    "scheduled u' = scheduled u @ cs" "OnConnect \<notin> set cs" "OnDisconnect \<in> set cs \<longrightarrow> cs = [OnDisconnect] \<and> \<not> au_stop u \<and> au_stop u'" "au_stop u \<longrightarrow> au_stop u'"
    using assms(1) appended_step [OF assms(2)] unfolding calls_ok_def appended_def by blast
  have "count_list (rest @ cs) OnDisconnect \<le> 1"
    using r(3,4,7) by (cases "OnDisconnect \<in> set cs") (auto simp: count_list_0_iff)
  then show ?thesis unfolding calls_ok_def using r by (intro exI [of _ "rest @ cs"]) auto
qed

lemma calls_ok_start: "asio_started u \<Longrightarrow> calls_ok u"
  by (auto simp: asio_started_def asio_start_def asio_user_new_def calls_ok_def scheduled_def)

interpretation calling: inductive_invariant "asio_step p" asio_started calls_ok
  by unfold_locales (blast intro: calls_ok_start, rule calls_ok_step)

text \<open>A stopped connection whose disconnect is not scheduled.\<close>

definition silent :: "asio_user \<Rightarrow> bool" where
  "silent u \<longleftrightarrow> au_stop u \<and> OnDisconnect \<notin> set (scheduled u)"

lemma silent_step:
  assumes "silent u" and "asio_step p e u = Some u'"
  shows "silent u'"
proof -
  obtain cs where "scheduled u' = scheduled u @ cs" "OnDisconnect \<in> set cs \<longrightarrow> \<not> au_stop u" "au_stop u \<longrightarrow> au_stop u'"
    using appended_step [OF assms(2)] unfolding appended_def by blast
  then show ?thesis using assms(1) by (auto simp: silent_def)
qed

interpretation quiet: inductive_invariant "asio_step p" silent silent
  by unfold_locales (assumption, rule silent_step)



text \<open>
  A message can reach the listener after its \<^verbatim>\<open>onDisconnect\<close>: the task that hands messages to the worker does not look at the stop flag,
  and the handler of a failed write may run before it.
\<close>
theorem asio_message_after_disconnect:
  "\<exists>es u. run_events (asio_step default_msg_proto) es (asio_start (asio_user_new True)) = Some u \<and>
    au_calls u = [OnConnect, OnDisconnect, OnRecvMsg \<lparr>msg_data = [2, 0, 0, 1, 9]\<rparr>]"
proof -
  let ?es = "[EvPost \<lparr>msg_data = [3, 0, 0, 0]\<rparr>, EvWorker, EvIo 1 True, EvIo 1 True, EvRead [2, 0, 0, 1] None, EvIo 1 True, EvRead [9] None,
    EvWrite 0 (Some other_error), EvIo 1 True, EvIo 1 True, EvIo 1 True, EvWorker, EvWorker]"
  have "\<exists>u. run_events (asio_step default_msg_proto) ?es (asio_start (asio_user_new True)) = Some u \<and>
      au_calls u = [OnConnect, OnDisconnect, OnRecvMsg \<lparr>msg_data = [2, 0, 0, 1, 9]\<rparr>]"
    by (simp add: evaluate sample_sizes default_MaxBodySize_def Heartbeat_def)
  then show ?thesis by blast
qed

end
