(* ===== verification/AsioServer.thy ===== *)
theory AsioServer
  imports AsioWrite "HOL-Library.Signed_Division"
begin

text \<open>
  The thread pool and the server of the Boost.Asio build, \<^verbatim>\<open>asio_worker\<close> of \<^verbatim>\<open>src/zbf/asio_worker.hpp\<close> and \<^verbatim>\<open>tcpsock_server\<close> of
  \<^verbatim>\<open>src/zbf/asio_socket_tcp.hpp\<close>.  Connections have numbers.  An event is a step of one connection (\<open>AsioUser\<close>) or
  of the server itself: a completed accept, handshake or timer wait, or a call of \<^verbatim>\<open>stop\<close>.  The handler of a handshake
  reads the number of connections and inserts the new one in two sections under the lock, with steps of other
  threads in between; it runs on the only I/O thread, so no second one is between its sections.  All
  connections share one I/O strand; letting their tasks interleave freely allows more runs.

  Shown: the limit of connections holds, every connection behaves as \<open>AsioUser\<close> says, and a connection leaves the table
  exactly by its disconnect; so connections that their timer stopped stay there and fill it up.
\<close>

section \<open>Worker pools\<close>

datatype asio_fault = StrandOutOfRange | DivisionByZero

record asio_worker =
  aw_count :: int
  aw_strand_cursor :: int
  aw_guards :: nat
  aw_threads :: nat

definition asio_worker_new :: "int \<Rightarrow> asio_worker" where
  "asio_worker_new num = \<lparr>aw_count = num, aw_strand_cursor = 0, aw_guards = nat num, aw_threads = 0\<rparr>"

definition worker_start :: "asio_worker \<Rightarrow> asio_worker" where
  "worker_start w = w\<lparr>aw_threads := aw_threads w + nat (aw_count w)\<rparr>"

definition worker_stop :: "asio_worker \<Rightarrow> asio_worker" where
  "worker_stop w = w\<lparr>aw_guards := 0\<rparr>"

definition get_strand :: "asio_worker \<Rightarrow> asio_fault + int \<times> asio_worker" where
  "get_strand w =
    (let c = (if aw_strand_cursor w = aw_count w then 0 else aw_strand_cursor w) in
     if c < 0 \<or> c \<ge> aw_count w then Inl StrandOutOfRange else Inr (c, w\<lparr>aw_strand_cursor := c + 1\<rparr>))"

text \<open>Both \<^verbatim>\<open>get(i)\<close> and \<^verbatim>\<open>get_strand(i)\<close> take the remainder, which has the sign of \<^verbatim>\<open>i\<close>.\<close>

definition get_at :: "int \<Rightarrow> asio_worker \<Rightarrow> asio_fault + int" where
  "get_at i w =
    (if aw_count w = 0 then Inl DivisionByZero
     else let k = i smod aw_count w in if k < 0 \<or> k \<ge> aw_count w then Inl StrandOutOfRange else Inr k)"

section \<open>The server\<close>

record asio_server =
  as_users :: "nat \<Rightarrow> asio_user option"
  as_userQueue :: "nat list"
  as_maxConnections :: int
  as_scanCount :: int
  as_io :: asio_worker
  as_worker :: asio_worker
  as_strand :: "nat \<Rightarrow> int"
  as_next :: nat
  as_accepting :: "nat option"
  as_handshaking :: "nat list"
  as_inserting :: "nat option"
  as_timer :: bool
  as_begun :: "nat list"
  as_stopped :: bool

definition ScanInterval :: int where "ScanInterval = 5"
definition LogEveryNScan :: int where "LogEveryNScan = 12"
definition asio_DefaultMaxConns :: int where "asio_DefaultMaxConns = 6000"

definition asio_server_new :: asio_server where
  "asio_server_new =
    \<lparr>as_users = Map.empty, as_userQueue = [], as_maxConnections = asio_DefaultMaxConns, as_scanCount = 0, as_io = asio_worker_new 1,
     as_worker = asio_worker_new 0, as_strand = (\<lambda>_. 0), as_next = 0, as_accepting = None, as_handshaking = [], as_inserting = None,
     as_timer = False, as_begun = [], as_stopped = False\<rparr>"

definition asio_setMaxConnections :: "int \<Rightarrow> asio_server \<Rightarrow> asio_server" where
  "asio_setMaxConnections mx s = s\<lparr>as_maxConnections := mx\<rparr>"

definition asio_currentConnections :: "asio_server \<Rightarrow> int" where
  "asio_currentConnections s = int (length (as_userQueue s))"

definition do_accept :: "asio_server \<Rightarrow> asio_fault + asio_server" where
  "do_accept s =
    (case get_strand (as_worker s) of
       Inl f \<Rightarrow> Inl f
     | Inr (k, w) \<Rightarrow>
       let i = as_next s in
       Inr (s\<lparr>as_users := (as_users s)(i \<mapsto> asio_user_new True), as_worker := w, as_strand := (as_strand s)(i := k),
              as_next := i + 1, as_accepting := Some i\<rparr>))"

definition fire_timer :: "asio_server \<Rightarrow> asio_server" where
  "fire_timer s = s\<lparr>as_timer := True\<rparr>"

text \<open>The number of workers is between 1 and 32; \<open>listen_ok\<close> is whether \<^verbatim>\<open>do_listen\<close> returns 0.\<close>

definition asio_server_start :: "int \<Rightarrow> bool \<Rightarrow> asio_server \<Rightarrow> asio_fault + asio_server" where
  "asio_server_start workerNum listen_ok s =
    (let n = min (max workerNum 1) 32;
         s1 = s\<lparr>as_worker := worker_start (asio_worker_new n)\<rparr> in
     case (if listen_ok then do_accept s1 else Inr s1) of
       Inl f \<Rightarrow> Inl f
     | Inr s2 \<Rightarrow> Inr (fire_timer (s2\<lparr>as_io := worker_start (as_io s2)\<rparr>)))"

definition handle_accept :: "nat \<Rightarrow> errcode option \<Rightarrow> asio_server \<Rightarrow> asio_fault + asio_server" where
  "handle_accept i ec s =
    (case ec of
       Some e \<Rightarrow> if e = try_again \<or> e = interrupted then do_accept s else Inr s
     | None \<Rightarrow> do_accept (s\<lparr>as_handshaking := i # as_handshaking s\<rparr>))"

definition asio_upd_user :: "nat \<Rightarrow> (asio_user \<Rightarrow> asio_user) \<Rightarrow> asio_server \<Rightarrow> asio_server" where
  "asio_upd_user i f s = s\<lparr>as_users := (as_users s)(i := map_option f (as_users s i))\<rparr>"

text \<open>The handler of the handshake up to the end of the test, and the two sections after it.\<close>

definition handle_handshake :: "nat \<Rightarrow> errcode option \<Rightarrow> bool \<Rightarrow> asio_server \<Rightarrow> asio_server" where
  "handle_handshake i ec ok s =
    (if ec \<noteq> None then asio_upd_user i (\<lambda>u. snd (asio_stop ok u)) s
     else if asio_currentConnections s \<ge> as_maxConnections s then asio_upd_user i (\<lambda>u. snd (asio_stop ok u)) s
     else s\<lparr>as_inserting := Some i\<rparr>)"

definition insert_user :: "nat \<Rightarrow> asio_server \<Rightarrow> asio_server" where
  "insert_user i s =
    asio_upd_user i asio_start (s\<lparr>as_userQueue := List.insert i (as_userQueue s), as_inserting := None, as_begun := i # as_begun s\<rparr>)"

fun tick_users :: "tcp_message_protocol \<Rightarrow> int \<Rightarrow> (nat \<Rightarrow> bool) \<Rightarrow> nat list \<Rightarrow> asio_server \<Rightarrow> asio_server" where
  "tick_users p now ok [] s = s"
| "tick_users p now ok (i # is) s = tick_users p now ok is (asio_upd_user i (on_tick p now (ok i)) s)"

definition on_timer :: "tcp_message_protocol \<Rightarrow> errcode option \<Rightarrow> int \<Rightarrow> (nat \<Rightarrow> bool) \<Rightarrow> asio_server \<Rightarrow> asio_server" where
  "on_timer p ec now ok s =
    (if ec \<noteq> None then s
     else
       let s1 = tick_users p now ok (as_userQueue s) s;
           n = as_scanCount s1 + 1 in
       fire_timer (s1\<lparr>as_scanCount := if n \<ge> LogEveryNScan then 0 else n\<rparr>))"

fun stop_users :: "(nat \<Rightarrow> bool) \<Rightarrow> nat list \<Rightarrow> asio_server \<Rightarrow> asio_server" where
  "stop_users ok [] s = s"
| "stop_users ok (i # is) s = stop_users ok is (asio_upd_user i (\<lambda>u. snd (asio_stop (ok i) u)) s)"

definition asio_server_stop :: "(nat \<Rightarrow> bool) \<Rightarrow> asio_server \<Rightarrow> asio_server" where
  "asio_server_stop ok s =
    (let s1 = stop_users ok (as_userQueue s) (s\<lparr>as_userQueue := []\<rparr>) in
     s1\<lparr>as_io := worker_stop (as_io s1), as_worker := worker_stop (as_worker s1), as_stopped := True\<rparr>)"

text \<open>\<^verbatim>\<open>listener_adapter::onDisconnect\<close> erases the connection after its listener returned.\<close>

definition adapter_onDisconnect :: "nat \<Rightarrow> asio_server \<Rightarrow> asio_server" where
  "adapter_onDisconnect i s = s\<lparr>as_userQueue := remove1 i (as_userQueue s)\<rparr>"

definition asio_user_event :: "tcp_message_protocol \<Rightarrow> nat \<Rightarrow> asio_event \<Rightarrow> asio_server \<Rightarrow> asio_server option" where
  "asio_user_event p i e s =
    (case as_users s i of
       None \<Rightarrow> None
     | Some u \<Rightarrow>
       (case asio_step p e u of
          None \<Rightarrow> None
        | Some u' \<Rightarrow>
          let s1 = s\<lparr>as_users := (as_users s)(i \<mapsto> u')\<rparr> in
          Some (if e = EvWorker \<and> hd (au_worker_strand u) = Disconnect then adapter_onDisconnect i s1 else s1)))"

datatype server_event =
    SvAccept "errcode option"
  | SvHandshake nat "errcode option" bool
  | SvInsert
  | SvTimer "errcode option" int "nat \<Rightarrow> bool"
  | SvStop "nat \<Rightarrow> bool"
  | SvUser nat asio_event

fun is_tick :: "asio_event \<Rightarrow> bool" where
  "is_tick (EvTick now ok) = True"
| "is_tick _ = False"

fun opt_of_sum :: "'a + 'b \<Rightarrow> 'b option" where
  "opt_of_sum (Inl f) = None"
| "opt_of_sum (Inr s) = Some s"

text \<open>The listener learns of a connection after its start, and only the timer calls \<^verbatim>\<open>on_tick\<close>.\<close>

fun server_step :: "tcp_message_protocol \<Rightarrow> server_event \<Rightarrow> asio_server \<Rightarrow> asio_server option" where
  "server_step p (SvAccept ec) s =
    (case as_accepting s of None \<Rightarrow> None | Some i \<Rightarrow> opt_of_sum (handle_accept i ec (s\<lparr>as_accepting := None\<rparr>)))"
| "server_step p (SvHandshake i ec ok) s =
    (if i \<in> set (as_handshaking s) \<and> as_inserting s = None
     then Some (handle_handshake i ec ok (s\<lparr>as_handshaking := remove1 i (as_handshaking s)\<rparr>)) else None)"
| "server_step p SvInsert s = (case as_inserting s of None \<Rightarrow> None | Some i \<Rightarrow> Some (insert_user i s))"
| "server_step p (SvTimer ec now ok) s =
    (if as_timer s \<and> as_inserting s = None then Some (on_timer p ec now ok (s\<lparr>as_timer := False\<rparr>)) else None)"
| "server_step p (SvStop ok) s = Some (asio_server_stop ok s)"
| "server_step p (SvUser i e) s = (if i \<in> set (as_begun s) \<and> \<not> is_tick e then asio_user_event p i e s else None)"

definition server_started :: "int \<Rightarrow> asio_server \<Rightarrow> bool" where
  "server_started mx s \<longleftrightarrow> (\<exists>n listen_ok. asio_server_start n listen_ok (asio_setMaxConnections mx asio_server_new) = Inr s)"

section \<open>The invariant of the server\<close>

lemma tick_users_eq:
  "distinct is \<Longrightarrow> tick_users p now ok is s = s\<lparr>as_users := \<lambda>i. if i \<in> set is then map_option (on_tick p now (ok i)) (as_users s i) else as_users s i\<rparr>"
  by (induction "is" arbitrary: s) (auto simp: asio_upd_user_def fun_eq_iff)

lemma stop_users_eq:
  "distinct is \<Longrightarrow> stop_users ok is s =
    s\<lparr>as_users := \<lambda>i. if i \<in> set is then map_option (\<lambda>u. snd (asio_stop (ok i) u)) (as_users s i) else as_users s i\<rparr>"
  by (induction "is" arbitrary: s) (auto simp: asio_upd_user_def fun_eq_iff)

definition worker_ok :: "asio_worker \<Rightarrow> bool" where
  "worker_ok w \<longleftrightarrow> 1 \<le> aw_count w \<and> 0 \<le> aw_strand_cursor w \<and> aw_strand_cursor w \<le> aw_count w"

lemma get_strand_ok:
  assumes "worker_ok w"
  obtains k w' where "get_strand w = Inr (k, w')" "worker_ok w'" "0 \<le> k" "k < aw_count w"
proof -
  let ?c = "if aw_strand_cursor w = aw_count w then 0 else aw_strand_cursor w"
  have "get_strand w = Inr (?c, w\<lparr>aw_strand_cursor := ?c + 1\<rparr>)" using assms by (auto simp: get_strand_def worker_ok_def Let_def)
  then show ?thesis using that assms by (auto simp: worker_ok_def)
qed

text \<open>The connections that are not started yet.\<close>

definition fresh_ids :: "asio_server \<Rightarrow> nat list" where
  "fresh_ids s = as_handshaking s @ (case as_inserting s of None \<Rightarrow> [] | Some i \<Rightarrow> [i]) @ (case as_accepting s of None \<Rightarrow> [] | Some i \<Rightarrow> [i])"

definition ids_ok :: "asio_server \<Rightarrow> bool" where
  "ids_ok s \<longleftrightarrow> distinct (as_begun s @ fresh_ids s) \<and> (\<forall>i \<in> set (as_begun s @ fresh_ids s). i < as_next s) \<and>
    (\<forall>i \<in> set (fresh_ids s). as_users s i = Some (asio_user_new True))"

definition limit_ok :: "int \<Rightarrow> asio_server \<Rightarrow> bool" where
  "limit_ok mx s \<longleftrightarrow> as_maxConnections s = mx \<and> worker_ok (as_worker s) \<and> distinct (as_userQueue s) \<and> set (as_userQueue s) \<subseteq> set (as_begun s) \<and>
    (as_inserting s = None \<longrightarrow> asio_currentConnections s \<le> max 0 mx) \<and> (as_inserting s \<noteq> None \<longrightarrow> asio_currentConnections s < mx)"

definition conn_ok :: "tcp_message_protocol \<Rightarrow> asio_server \<Rightarrow> nat \<Rightarrow> bool" where
  "conn_ok p s i \<longleftrightarrow> (\<exists>u. as_users s i = Some u \<and> reach (asio_step p) asio_started u \<and>
    (i \<in> set (as_userQueue s) \<longrightarrow> OnDisconnect \<notin> set (au_calls u)) \<and>
    (i \<notin> set (as_userQueue s) \<and> \<not> as_stopped s \<longrightarrow> OnDisconnect \<in> set (au_calls u)))"

definition server_inv :: "tcp_message_protocol \<Rightarrow> int \<Rightarrow> asio_server \<Rightarrow> bool" where
  "server_inv p mx s \<longleftrightarrow> ids_ok s \<and> limit_ok mx s \<and> (\<forall>i \<in> set (as_begun s). conn_ok p s i)"

lemma do_accept_ok:
  assumes "ids_ok s" and "limit_ok mx s" and "as_accepting s = None"
  shows "\<exists>s'. do_accept s = Inr s' \<and> ids_ok s' \<and> limit_ok mx s' \<and> as_begun s' = as_begun s \<and> as_userQueue s' = as_userQueue s \<and>
    as_stopped s' = as_stopped s \<and> as_accepting s' \<noteq> None \<and> (\<forall>i \<in> set (as_begun s). as_users s' i = as_users s i)"
proof -
  obtain k w where w: "get_strand (as_worker s) = Inr (k, w)" "worker_ok w"
    using get_strand_ok [of "as_worker s"] assms(2) unfolding limit_ok_def by metis
  have f: "as_next s \<notin> set (as_begun s @ fresh_ids s)" using assms(1) by (auto simp: ids_ok_def)
  let ?s = "s\<lparr>as_users := (as_users s)(as_next s \<mapsto> asio_user_new True), as_worker := w, as_strand := (as_strand s)(as_next s := k),
    as_next := as_next s + 1, as_accepting := Some (as_next s)\<rparr>"
  have ids: "fresh_ids ?s = fresh_ids s @ [as_next s]" using assms(3) by (simp add: fresh_ids_def split: option.split)
  have "ids_ok ?s" using assms(1) f unfolding ids_ok_def ids by (auto simp: less_Suc_eq)
  moreover have "limit_ok mx ?s" using assms(2) w(2) by (simp add: limit_ok_def asio_currentConnections_def)
  moreover have "do_accept s = Inr ?s" using w(1) by (simp add: do_accept_def Let_def)
  moreover have "\<forall>i \<in> set (as_begun s). as_users ?s i = as_users s i" using f by auto
  ultimately show ?thesis by fastforce
qed

lemma conn_frame:
  "conn_ok p s i \<Longrightarrow> as_users s' i = as_users s i \<Longrightarrow> as_userQueue s' = as_userQueue s \<Longrightarrow> as_stopped s' = as_stopped s \<Longrightarrow> conn_ok p s' i"
  by (simp add: conn_ok_def)

lemma accept_inv:
  assumes "server_inv p mx s" and "as_accepting s = Some i"
  shows "\<exists>s'. handle_accept i ec (s\<lparr>as_accepting := None\<rparr>) = Inr s' \<and> server_inv p mx s'"
proof -
  have i: "ids_ok (s\<lparr>as_accepting := None\<rparr>)" "ids_ok (s\<lparr>as_accepting := None, as_handshaking := i # as_handshaking s\<rparr>)"
    using assms by (auto simp: server_inv_def ids_ok_def fresh_ids_def)
  have l: "limit_ok mx (s\<lparr>as_accepting := None\<rparr>)" "limit_ok mx (s\<lparr>as_accepting := None, as_handshaking := i # as_handshaking s\<rparr>)"
    using assms(1) by (auto simp: server_inv_def limit_ok_def asio_currentConnections_def)
  have c: "conn_ok p s j" if "j \<in> set (as_begun s)" for j using assms(1) that by (simp add: server_inv_def)
  have acc: "\<exists>s'. do_accept t = Inr s' \<and> server_inv p mx s'"
    if "t = s\<lparr>as_accepting := None\<rparr> \<or> t = s\<lparr>as_accepting := None, as_handshaking := i # as_handshaking s\<rparr>" for t
  proof -
    have t: "ids_ok t" "limit_ok mx t" "as_accepting t = None" "as_begun t = as_begun s" "as_userQueue t = as_userQueue s" "as_stopped t = as_stopped s"
        "as_users t = as_users s" using that i l by auto
    obtain s' where s': "do_accept t = Inr s'" "ids_ok s'" "limit_ok mx s'" "as_begun s' = as_begun s" "as_userQueue s' = as_userQueue s"
        "as_stopped s' = as_stopped s" "\<forall>j \<in> set (as_begun s). as_users s' j = as_users s j"
      using do_accept_ok [OF t(1-3)] t(4-7) by auto
    then have "server_inv p mx s'" using c conn_frame [of p s _ s'] by (simp add: server_inv_def)
    with s'(1) show ?thesis by blast
  qed
  have "server_inv p mx (s\<lparr>as_accepting := None\<rparr>)"
    using i(1) l(1) c conn_frame [of p s _ "s\<lparr>as_accepting := None\<rparr>"] by (simp add: server_inv_def)
  then show ?thesis using acc [of "s\<lparr>as_accepting := None\<rparr>"] acc [of "s\<lparr>as_accepting := None, as_handshaking := i # as_handshaking s\<rparr>"]
    by (cases ec) (auto simp: handle_accept_def)
qed

lemma handshake_inv:
  assumes "server_inv p mx s" and "i \<in> set (as_handshaking s)" and "as_inserting s = None"
  shows "server_inv p mx (handle_handshake i ec ok (s\<lparr>as_handshaking := remove1 i (as_handshaking s)\<rparr>))"
proof -
  let ?s = "s\<lparr>as_handshaking := remove1 i (as_handshaking s)\<rparr>"
  have d: "i \<notin> set (as_begun s)" "set (remove1 i (as_handshaking s)) = set (as_handshaking s) - {i}"
    using assms(1,2) by (auto simp: server_inv_def ids_ok_def fresh_ids_def)
  have inv: "server_inv p mx (?s\<lparr>as_inserting := Some i\<rparr>)" if "asio_currentConnections ?s < as_maxConnections ?s"
    using assms that d(2) by (auto simp: server_inv_def ids_ok_def fresh_ids_def limit_ok_def asio_currentConnections_def conn_ok_def split: option.splits)
  have rej: "server_inv p mx (asio_upd_user i f ?s)" for f
    using assms d by (auto simp: server_inv_def ids_ok_def fresh_ids_def limit_ok_def asio_currentConnections_def conn_ok_def asio_upd_user_def split: option.splits)
  show ?thesis using inv rej by (auto simp: handle_handshake_def)
qed

lemma insert_inv:
  assumes "server_inv p mx s" and "as_inserting s = Some i"
  shows "server_inv p mx (insert_user i s)"
proof -
  have u: "as_users s i = Some (asio_user_new True)" "i \<notin> set (as_begun s)"
    using assms by (auto simp: server_inv_def ids_ok_def fresh_ids_def)
  then have q: "i \<notin> set (as_userQueue s)" using assms(1) by (auto simp: server_inv_def limit_ok_def)
  have r: "reach (asio_step p) asio_started (asio_start (asio_user_new True))" by (rule reach_start) (auto simp: asio_started_def)
  have "ids_ok (insert_user i s)"
    using assms u by (auto simp: server_inv_def ids_ok_def fresh_ids_def insert_user_def asio_upd_user_def split: option.splits)
  moreover have "limit_ok mx (insert_user i s)"
    using assms q by (auto simp: server_inv_def limit_ok_def insert_user_def asio_upd_user_def asio_currentConnections_def)
  moreover have "conn_ok p (insert_user i s) i"
    using u q r by (simp add: conn_ok_def insert_user_def asio_upd_user_def asio_start_def asio_user_new_def)
  moreover have "conn_ok p (insert_user i s) j" if "j \<in> set (as_begun s)" for j
    using assms(1) that u(2) by (auto simp: server_inv_def conn_ok_def insert_user_def asio_upd_user_def)
  ultimately show ?thesis by (auto simp: server_inv_def insert_user_def asio_upd_user_def)
qed

text \<open>Events that reach several connections at once.\<close>

lemma users_inv:
  assumes "server_inv p mx s" and "\<And>i u. i \<in> set (as_begun s) \<Longrightarrow> as_users s i = Some u \<Longrightarrow> \<exists>u'. as_users s' i = Some u' \<and>
      (u' = u \<or> (\<exists>e. asio_step p e u = Some u' \<and> au_calls u' = au_calls u))"
    and "\<And>i. i \<in> set (fresh_ids s) \<Longrightarrow> as_users s' i = as_users s i" and "as_userQueue s' = as_userQueue s \<or> as_userQueue s' = [] \<and> as_stopped s'"
    and "as_stopped s \<longrightarrow> as_stopped s'" and "as_stopped s' \<and> \<not> as_stopped s \<longrightarrow> as_userQueue s' = []"
    and "as_begun s' = as_begun s" and "fresh_ids s' = fresh_ids s" and "as_next s' = as_next s" and "as_maxConnections s' = as_maxConnections s"
    and "worker_ok (as_worker s')" and "as_inserting s' = as_inserting s"
  shows "server_inv p mx s'"
proof -
  have "ids_ok s'" using assms(1,3,7-9) by (simp add: server_inv_def ids_ok_def)
  moreover have "limit_ok mx s'"
    using assms(1,4,7,10-12) by (auto simp: server_inv_def limit_ok_def asio_currentConnections_def)
  moreover have "conn_ok p s' i" if i: "i \<in> set (as_begun s)" for i
  proof -
    obtain u where u: "as_users s i = Some u" "reach (asio_step p) asio_started u" "i \<in> set (as_userQueue s) \<longrightarrow> OnDisconnect \<notin> set (au_calls u)"
        "i \<notin> set (as_userQueue s) \<and> \<not> as_stopped s \<longrightarrow> OnDisconnect \<in> set (au_calls u)"
      using assms(1) i by (auto simp: server_inv_def conn_ok_def)
    obtain u' where u': "as_users s' i = Some u'" "u' = u \<or> (\<exists>e. asio_step p e u = Some u' \<and> au_calls u' = au_calls u)"
      using assms(2) [OF i u(1)] by blast
    then have "reach (asio_step p) asio_started u' \<and> au_calls u' = au_calls u" using u(2) by (auto intro: reach_step)
    then show ?thesis using u u'(1) assms(4-6) by (auto simp: conn_ok_def)
  qed
  ultimately show ?thesis using assms(7) by (simp add: server_inv_def)
qed

lemma quiet_events: "au_calls (on_tick p now ok u) = au_calls u" "au_calls (snd (asio_stop ok u)) = au_calls u"
  by (auto simp: on_tick_def asio_stop_def try_stop_def asio_post_def write_data_def split: option.split)

lemma timer_inv:
  assumes "server_inv p mx s"
  shows "server_inv p mx (on_timer p ec now ok (s\<lparr>as_timer := False\<rparr>))"
proof -
  have d: "distinct (as_userQueue s)" "worker_ok (as_worker s)" "set (as_userQueue s) \<inter> set (fresh_ids s) = {}"
    using assms by (auto simp: server_inv_def limit_ok_def ids_ok_def)
  have tick: "asio_step p (EvTick now k) u = Some (on_tick p now k u)" for k u by simp
  show ?thesis
    by (rule users_inv [OF assms])
      (use d quiet_events(1) tick in \<open>auto simp: on_timer_def tick_users_eq fire_timer_def fresh_ids_def Let_def split: option.splits; blast\<close>)+
qed

lemma stop_inv:
  assumes "server_inv p mx s"
  shows "server_inv p mx (asio_server_stop ok s)"
proof -
  have d: "distinct (as_userQueue s)" "worker_ok (as_worker s)" "set (as_userQueue s) \<inter> set (fresh_ids s) = {}"
    using assms by (auto simp: server_inv_def limit_ok_def ids_ok_def)
  have stop: "asio_step p (EvStop k) u = Some (snd (asio_stop k u))" for k u by simp
  show ?thesis
    by (rule users_inv [OF assms])
      (use d quiet_events(2) stop in \<open>auto simp: asio_server_stop_def stop_users_eq worker_stop_def worker_ok_def fresh_ids_def Let_def split: option.splits; blast\<close>)+
qed

text \<open>One step of one connection: only running its disconnect adds that call.\<close>

lemma step_calls:
  assumes "asio_step p e u = Some u'"
  shows "au_calls u' = au_calls u @ (if e = EvWorker then task_calls (hd (au_worker_strand u)) else [])"
proof (cases e)
  case (EvIo now ok)
  obtain t ts where t: "au_io_strand u = t # ts" "u' = run_io p now ok t (u\<lparr>au_io_strand := ts\<rparr>)"
    using assms unfolding EvIo by (elim ioE)
  have hr: "au_calls (handle_read p now ok m ec v) = au_calls v" for m ec v
    by (cases ec) (auto simp: handle_read_def read_header_def schedule_dispatch_def Let_def)
  have "au_calls (read_body p now ok h ec v) = au_calls v" for h ec v
    using hr by (cases ec) (auto simp: read_body_def Let_def)
  with hr t EvIo show ?thesis by (cases t) (auto simp: start_read_task_def read_header_def dispatch_task_def)
next
  case EvWorker
  then show ?thesis using assms by (auto simp: run_worker_def start_read_def Let_def split: list.splits)
next
  case (EvTick now ok)
  then show ?thesis using assms quiet_events(1) by auto
next
  case (EvStop ok)
  then show ?thesis using assms quiet_events(2) by auto
qed (use assms in \<open>auto simp: asio_post_def write_data_def split: option.splits if_splits\<close>)

lemma disconnect_call: "OnDisconnect \<in> set (task_calls t) \<longleftrightarrow> t = Disconnect"
  by (cases t) auto

lemma user_inv:
  assumes "server_inv p mx s" and "i \<in> set (as_begun s)" and "asio_user_event p i e s = Some s'"
  shows "server_inv p mx s'"
proof -
  obtain u u' where u: "as_users s i = Some u" "asio_step p e u = Some u'"
      "s' = (if e = EvWorker \<and> hd (au_worker_strand u) = Disconnect then adapter_onDisconnect i (s\<lparr>as_users := (as_users s)(i \<mapsto> u')\<rparr>)
        else s\<lparr>as_users := (as_users s)(i \<mapsto> u')\<rparr>)"
    using assms(3) by (auto simp: asio_user_event_def Let_def split: option.splits)
  have r: "reach (asio_step p) asio_started u'"
  proof -
    have "conn_ok p s i" using assms(1,2) by (simp add: server_inv_def)
    then show ?thesis using u(1,2) by (auto simp: conn_ok_def intro: reach_step)
  qed
  have d: "distinct (as_userQueue s)" "i \<notin> set (fresh_ids s)" using assms(1,2) by (auto simp: server_inv_def limit_ok_def ids_ok_def)
  have "conn_ok p s' i"
  proof (cases "e = EvWorker \<and> hd (au_worker_strand u) = Disconnect")
    case True
    then show ?thesis using u r d step_calls [OF u(2)] by (auto simp: conn_ok_def adapter_onDisconnect_def)
  next
    case False
    then have "OnDisconnect \<in> set (au_calls u') \<longleftrightarrow> OnDisconnect \<in> set (au_calls u)" using step_calls [OF u(2)] disconnect_call by auto
    then show ?thesis using False u r assms(1,2) by (auto simp: conn_ok_def server_inv_def)
  qed
  moreover have "conn_ok p s' j" if "j \<in> set (as_begun s)" "j \<noteq> i" for j
    using assms(1) that u(3) d(1) by (auto simp: server_inv_def conn_ok_def adapter_onDisconnect_def)
  moreover have "ids_ok s'"
    using assms(1) u(3) d(2) by (auto simp: server_inv_def ids_ok_def fresh_ids_def adapter_onDisconnect_def)
  moreover have "limit_ok mx s'"
    using assms(1) u(3) by (auto simp: server_inv_def limit_ok_def adapter_onDisconnect_def asio_currentConnections_def length_remove1 dest: in_set_takeD notin_set_remove1 split: if_splits)
  moreover have "as_begun s' = as_begun s" using u(3) by (simp add: adapter_onDisconnect_def)
  ultimately show ?thesis unfolding server_inv_def by metis
qed

lemma server_inv_step: "server_inv p mx s \<Longrightarrow> server_step p e s = Some s' \<Longrightarrow> server_inv p mx s'"
proof (cases e)
  case (SvAccept ec)
  assume "server_inv p mx s" "server_step p e s = Some s'"
  with SvAccept obtain i where "as_accepting s = Some i" "opt_of_sum (handle_accept i ec (s\<lparr>as_accepting := None\<rparr>)) = Some s'"
    by (auto split: option.splits)
  moreover from this(1) obtain s2 where "handle_accept i ec (s\<lparr>as_accepting := None\<rparr>) = Inr s2" "server_inv p mx s2"
    using accept_inv [OF \<open>server_inv p mx s\<close>] by blast
  ultimately show ?thesis by simp
qed (auto intro: handshake_inv insert_inv timer_inv stop_inv user_inv split: option.splits if_splits)

lemma server_inv_start: "server_started mx s \<Longrightarrow> server_inv p mx s"
proof -
  assume "server_started mx s"
  then obtain n lk where st: "asio_server_start n lk (asio_setMaxConnections mx asio_server_new) = Inr s" by (auto simp: server_started_def)
  let ?s = "(asio_setMaxConnections mx asio_server_new)\<lparr>as_worker := worker_start (asio_worker_new (min (max n 1) 32))\<rparr>"
  have i: "ids_ok ?s" "limit_ok mx ?s" "as_accepting ?s = None" "as_begun ?s = []"
    by (auto simp: ids_ok_def limit_ok_def fresh_ids_def asio_setMaxConnections_def asio_server_new_def worker_start_def asio_worker_new_def worker_ok_def asio_currentConnections_def)
  obtain s2 where s2: "(if lk then do_accept ?s else Inr ?s) = Inr s2" "ids_ok s2" "limit_ok mx s2" "as_begun s2 = []"
    using do_accept_ok [OF i(1-3)] i by (cases lk) auto
  then have "s = fire_timer (s2\<lparr>as_io := worker_start (as_io s2)\<rparr>)" using st by (simp add: asio_server_start_def Let_def)
  then show ?thesis using s2
    by (auto simp: server_inv_def ids_ok_def fresh_ids_def limit_ok_def fire_timer_def asio_currentConnections_def)
qed

interpretation serving: inductive_invariant "server_step p" "server_started mx" "server_inv p mx"
  by unfold_locales (blast intro: server_inv_start, rule server_inv_step)

section \<open>Connections that their timer stopped\<close>

definition stuck :: "asio_server \<Rightarrow> nat \<Rightarrow> bool" where
  "stuck s i \<longleftrightarrow> i \<in> set (as_userQueue s) \<and> (\<exists>u. as_users s i = Some u \<and> silent u)"

fun is_stop :: "server_event \<Rightarrow> bool" where
  "is_stop (SvStop ok) = True"
| "is_stop _ = False"

lemma silent_tick: "silent u \<Longrightarrow> on_tick p now ok u = u"
  by (simp add: silent_def on_tick_def)

lemma stuck_frame: "stuck s i \<Longrightarrow> as_users s' i = as_users s i \<Longrightarrow> i \<in> set (as_userQueue s') \<Longrightarrow> stuck s' i"
  by (simp add: stuck_def)

lemma stuck_accept:
  assumes "server_inv p mx s" and "as_accepting s = None" and "do_accept s = Inr s'" and "stuck s i"
  shows "stuck s' i"
proof -
  have "i \<in> set (as_begun s)" using assms(1,4) by (auto simp: server_inv_def limit_ok_def stuck_def)
  moreover obtain s2 where "do_accept s = Inr s2" "as_userQueue s2 = as_userQueue s" "\<forall>i \<in> set (as_begun s). as_users s2 i = as_users s i"
    using do_accept_ok [of s mx] assms(1,2) by (auto simp: server_inv_def)
  ultimately show ?thesis using assms(3,4) stuck_frame [OF assms(4), of s'] by (auto simp: stuck_def)
qed

lemma stuck_user:
  assumes "asio_user_event p j e s = Some s'" and "stuck s i"
  shows "stuck s' i"
proof -
  obtain v v' where u: "as_users s j = Some v" "asio_step p e v = Some v'"
      "s' = (if e = EvWorker \<and> hd (au_worker_strand v) = Disconnect then adapter_onDisconnect j (s\<lparr>as_users := (as_users s)(j \<mapsto> v')\<rparr>)
        else s\<lparr>as_users := (as_users s)(j \<mapsto> v')\<rparr>)"
    using assms(1) by (auto simp: asio_user_event_def Let_def split: option.splits)
  show ?thesis
  proof (cases "j = i")
    case True
    then have v: "silent v" "silent v'" using assms(2) u silent_step by (auto simp: stuck_def)
    have "\<not> (e = EvWorker \<and> hd (au_worker_strand v) = Disconnect)"
    proof
      assume "e = EvWorker \<and> hd (au_worker_strand v) = Disconnect"
      then obtain ts where "au_worker_strand v = Disconnect # ts" using u(2) by (auto split: list.splits)
      then show False using v(1) by (simp add: silent_def scheduled_def)
    qed
    then show ?thesis using True u assms(2) v(2) by (auto simp: stuck_def)
  next
    case False
    then show ?thesis using u(3) assms(2) by (auto simp: stuck_def adapter_onDisconnect_def in_set_remove1)
  qed
qed

lemma stuck_step:
  assumes "server_inv p mx s" and "server_step p e s = Some s'" and "\<not> is_stop e" and "stuck s i"
  shows "stuck s' i"
proof -
  have b: "i \<in> set (as_begun s)" using assms(1,4) by (auto simp: server_inv_def limit_ok_def stuck_def)
  have f: "i \<notin> set (fresh_ids s)" using assms(1) b by (auto simp: server_inv_def ids_ok_def)
  show ?thesis
  proof (cases e)
    case (SvAccept ec)
    then obtain j where j: "as_accepting s = Some j" "opt_of_sum (handle_accept j ec (s\<lparr>as_accepting := None\<rparr>)) = Some s'"
      using assms(2) by (auto split: option.splits)
    have inv: "server_inv p mx (s\<lparr>as_accepting := None\<rparr>)" "server_inv p mx (s\<lparr>as_accepting := None, as_handshaking := j # as_handshaking s\<rparr>)"
      using assms(1) j(1) by (auto simp: server_inv_def ids_ok_def fresh_ids_def limit_ok_def asio_currentConnections_def conn_ok_def)
    have st: "stuck (s\<lparr>as_accepting := None\<rparr>) i" "stuck (s\<lparr>as_accepting := None, as_handshaking := j # as_handshaking s\<rparr>) i"
      using assms(4) by (simp_all add: stuck_def)
    have a: "do_accept v = Inr s' \<Longrightarrow> stuck v i \<Longrightarrow> server_inv p mx v \<Longrightarrow> as_accepting v = None \<Longrightarrow> stuck s' i" for v
      using stuck_accept by blast
    show ?thesis
    proof (cases ec)
      case None
      then have "do_accept (s\<lparr>as_accepting := None, as_handshaking := j # as_handshaking s\<rparr>) = Inr s'"
        using j(2) by (cases "do_accept (s\<lparr>as_accepting := None, as_handshaking := j # as_handshaking s\<rparr>)") (auto simp: handle_accept_def)
      then show ?thesis using a inv(2) st(2) by simp
    next
      case (Some x)
      show ?thesis
      proof (cases "x = try_again \<or> x = interrupted")
        case True
        then have "do_accept (s\<lparr>as_accepting := None\<rparr>) = Inr s'"
          using j(2) Some by (cases "do_accept (s\<lparr>as_accepting := None\<rparr>)") (auto simp: handle_accept_def)
        then show ?thesis using a inv(1) st(1) by simp
      next
        case False
        then show ?thesis using j(2) Some st(1) by (simp add: handle_accept_def)
      qed
    qed
  next
    case (SvHandshake j ec ok)
    then have "j \<noteq> i" using assms(2) f by (auto simp: fresh_ids_def split: if_splits)
    then show ?thesis using assms(2,4) SvHandshake
      by (auto simp: handle_handshake_def asio_upd_user_def stuck_def split: if_splits)
  next
    case SvInsert
    then have "as_inserting s \<noteq> Some i" using f by (auto simp: fresh_ids_def)
    then show ?thesis using assms(2,4) SvInsert
      by (auto simp: insert_user_def asio_upd_user_def stuck_def split: option.splits)
  next
    case (SvTimer ec now ok)
    have "distinct (as_userQueue s)" using assms(1) by (simp add: server_inv_def limit_ok_def)
    then show ?thesis using assms(2,4) SvTimer silent_tick
      by (auto simp: on_timer_def tick_users_eq fire_timer_def stuck_def Let_def split: if_splits)
  next
    case (SvUser j ev)
    then show ?thesis using assms(2,4) stuck_user by (auto split: if_splits)
  qed (use assms(3) in simp)
qed

text \<open>A table that stuck connections fill admits nobody.\<close>

lemma full_step:
  assumes "server_inv p mx s" and "server_step p e s = Some s'" and "distinct is" and "\<forall>i \<in> set is. stuck s i" and "mx \<le> int (length is)"
  shows "as_begun s' = as_begun s"
proof -
  have "set is \<subseteq> set (as_userQueue s)" using assms(4) by (auto simp: stuck_def)
  then have "length is \<le> length (as_userQueue s)"
    using assms(1,3) card_mono [of "set (as_userQueue s)" "set is"] by (simp add: server_inv_def limit_ok_def distinct_card)
  then have "as_inserting s = None" using assms(1,5) by (cases "as_inserting s") (auto simp: server_inv_def limit_ok_def asio_currentConnections_def)
  moreover have "do_accept v = Inr s' \<Longrightarrow> as_begun s' = as_begun v" for v
    by (auto simp: do_accept_def Let_def split: sum.splits prod.splits)
  moreover have "handle_accept j ec v = Inr s' \<Longrightarrow> as_begun s' = as_begun v" for j ec v
    using calculation(2) by (cases ec) (fastforce simp: handle_accept_def split: if_splits)+
  moreover have "opt_of_sum x = Some s' \<Longrightarrow> x = Inr s'" for x :: "asio_fault + asio_server" by (cases x) auto
  moreover have "distinct (as_userQueue s)" using assms(1) by (simp add: server_inv_def limit_ok_def)
  ultimately show ?thesis using assms(2)
    by (cases e) (fastforce simp: handle_handshake_def asio_upd_user_def on_timer_def tick_users_eq fire_timer_def asio_server_stop_def stop_users_eq
        asio_user_event_def adapter_onDisconnect_def Let_def split: option.splits if_splits)+
qed

text \<open>
  C22: The table of connections of the Boost.Asio server: its size never exceeds the limit; every started connection has
  a state that \<open>AsioUser\<close> describes, and until the server is stopped it is in the table exactly as long as its
  \<^verbatim>\<open>onDisconnect\<close> has not been called; an accept that completes is always handled.
\<close>
theorem asio_server_table:
  assumes "reach (server_step p) (server_started mx) s"
  shows "asio_currentConnections s \<le> max 0 mx \<and> distinct (as_userQueue s) \<and>
    (\<forall>i \<in> set (as_begun s). \<exists>u. as_users s i = Some u \<and> reach (asio_step p) asio_started u \<and>
      (\<not> as_stopped s \<longrightarrow> (i \<in> set (as_userQueue s) \<longleftrightarrow> OnDisconnect \<notin> set (au_calls u)))) \<and>
    (as_accepting s \<noteq> None \<longrightarrow> (\<exists>s'. server_step p (SvAccept ec) s = Some s'))"
proof -
  have inv: "server_inv p mx s" by (rule serving.holds [OF assms])
  have "\<exists>s'. server_step p (SvAccept ec) s = Some s'" if acc: "as_accepting s \<noteq> None"
  proof -
    obtain i where i: "as_accepting s = Some i" using acc by blast
    from accept_inv [OF inv this] obtain s2 where "handle_accept i ec (s\<lparr>as_accepting := None\<rparr>) = Inr s2" by blast
    then show ?thesis using i by simp
  qed
  moreover have "asio_currentConnections s \<le> max 0 mx" using inv by (cases "as_inserting s") (auto simp: server_inv_def limit_ok_def)
  ultimately show ?thesis using inv by (fastforce simp: server_inv_def limit_ok_def conn_ok_def)
qed

text \<open>
  A connection that its timer stopped is never taken out of the table: whatever happens, short of stopping the
  server, it stays in the table and its \<^verbatim>\<open>onDisconnect\<close> is not called; and when as many such connections are there as
  the limit allows, no further connection is ever admitted.
\<close>
theorem asio_expired_connections_stay:
  assumes "reach (server_step p) (server_started mx) s" and "run_events (server_step p) es s = Some s'" and "\<forall>e \<in> set es. \<not> is_stop e"
    and "distinct is" and "\<forall>i \<in> set is. stuck s i"
  shows "(\<forall>i \<in> set is. i \<in> set (as_userQueue s') \<and> (\<exists>u. as_users s' i = Some u \<and> OnDisconnect \<notin> set (au_calls u))) \<and>
    (mx \<le> int (length is) \<longrightarrow> as_begun s' = as_begun s)"
proof -
  have "(\<forall>i \<in> set is. stuck s' i) \<and> (mx \<le> int (length is) \<longrightarrow> as_begun s' = as_begun s)"
    using assms(2,3,5) serving.holds [OF assms(1)]
  proof (induction es arbitrary: s)
    case (Cons e es)
    then obtain s1 where s1: "server_step p e s = Some s1" "run_events (server_step p) es s1 = Some s'" by (auto split: option.splits)
    have "\<forall>i \<in> set is. stuck s1 i" using stuck_step [OF Cons.prems(4) s1(1)] Cons.prems(2,3) by simp
    moreover have "server_inv p mx s1" by (rule server_inv_step [OF Cons.prems(4) s1(1)])
    ultimately have "(\<forall>i \<in> set is. stuck s' i) \<and> (mx \<le> int (length is) \<longrightarrow> as_begun s' = as_begun s1)"
      using Cons.IH [OF s1(2)] Cons.prems(2) by simp
    then show ?case using full_step [OF Cons.prems(4) s1(1) assms(4) Cons.prems(3)] by simp
  qed simp
  then show ?thesis by (auto simp: stuck_def silent_def scheduled_def)
qed

text \<open>A server with room for one connection, which is accepted, connected and then expires.\<close>

definition sample_server_events :: "server_event list" where
  "sample_server_events = [SvAccept None, SvHandshake 0 None True, SvInsert, SvUser 0 EvWorker, SvUser 0 (EvIo 1 True), SvTimer None 100 (\<lambda>_. True)]"

definition sample_second_events :: "server_event list" where
  "sample_second_events = [SvAccept None, SvHandshake 1 None True]"

lemmas server_evaluate = evaluate asio_server_start_def asio_setMaxConnections_def asio_server_new_def worker_start_def asio_worker_new_def do_accept_def get_strand_def
  fire_timer_def handle_accept_def handle_handshake_def asio_currentConnections_def insert_user_def asio_upd_user_def asio_user_event_def on_timer_def on_tick_def
  hb_isExceed_def asio_UserTimeout_def LogEveryNScan_def

lemma sample_server:
  obtains s0 s s' where "server_started 1 s0" "run_events (server_step default_msg_proto) sample_server_events s0 = Some s"
    "run_events (server_step default_msg_proto) sample_second_events s = Some s'" "stuck s 0" "as_userQueue s = [0]" "as_accepting s \<noteq> None" "as_begun s = [0]"
proof -
  obtain s0 where s0: "asio_server_start 2 True (asio_setMaxConnections 1 asio_server_new) = Inr s0" by (simp add: server_evaluate)
  have "\<exists>s. run_events (server_step default_msg_proto) sample_server_events s0 = Some s \<and> stuck s 0 \<and> as_userQueue s = [0] \<and> as_accepting s \<noteq> None \<and>
      as_begun s = [0] \<and> (\<exists>s'. run_events (server_step default_msg_proto) sample_second_events s = Some s')"
    using s0 by (auto simp: server_evaluate sample_server_events_def sample_second_events_def stuck_def silent_def scheduled_def)
  moreover have "server_started 1 s0" using s0 by (auto simp: server_started_def)
  ultimately show ?thesis using that by blast
qed

theorem asio_server_table_witness:
  "\<exists>s. reach (server_step default_msg_proto) (server_started 1) s \<and> asio_currentConnections s = 1 \<and> asio_currentConnections s \<le> max 0 1 \<and>
    (\<exists>u. as_users s 0 = Some u \<and> OnDisconnect \<notin> set (au_calls u)) \<and> (\<exists>s'. server_step default_msg_proto (SvAccept None) s = Some s')"
proof -
  obtain s0 s s' where s: "server_started 1 s0" "run_events (server_step default_msg_proto) sample_server_events s0 = Some s"
    "as_userQueue s = [0]" "as_accepting s \<noteq> None" "as_begun s = [0]" "stuck s 0" by (rule sample_server)
  have r: "reach (server_step default_msg_proto) (server_started 1) s" using s(1,2) by (rule reach_run)
  from asio_server_table [OF r, of None] s show ?thesis using r
    by (auto simp: asio_currentConnections_def stuck_def silent_def scheduled_def)
qed

theorem asio_expired_connections_stay_witness:
  "\<exists>s s'. reach (server_step default_msg_proto) (server_started 1) s \<and> as_userQueue s = [0] \<and>
    run_events (server_step default_msg_proto) sample_second_events s = Some s' \<and> 0 \<in> set (as_userQueue s') \<and> as_begun s' = as_begun s"
proof -
  obtain s0 s s' where s: "server_started 1 s0" "run_events (server_step default_msg_proto) sample_server_events s0 = Some s"
    "as_userQueue s = [0]" "run_events (server_step default_msg_proto) sample_second_events s = Some s'" "stuck s 0" by (rule sample_server)
  have r: "reach (server_step default_msg_proto) (server_started 1) s" using s(1,2) by (rule reach_run)
  from asio_expired_connections_stay [OF r s(4), of "[0]"] s show ?thesis using r by (auto simp: sample_second_events_def)
qed

text \<open>A connection that is in the table but has not begun to read counts as expired: its last time is still zero.\<close>

lemma new_connection_expires:
  "asio_UserTimeout \<le> now \<Longrightarrow> au_stop (on_tick p now ok (asio_start (asio_user_new True)))"
  by (simp add: on_tick_def asio_start_def asio_user_new_def hb_isExceed_def heartbeat_new_def try_stop_def)

text \<open>After an error other than the two that are retried, no accept is ever started again.\<close>

lemma accept_ends:
  assumes "as_accepting s = None" and "server_step p e s = Some s'"
  shows "as_accepting s' = None"
proof -
  have t: "as_accepting (tick_users p now ok is v) = as_accepting v" for now ok "is" v
    by (induction "is" arbitrary: v) (simp_all add: asio_upd_user_def)
  have st: "as_accepting (stop_users ok is v) = as_accepting v" for ok "is" v
    by (induction "is" arbitrary: v) (simp_all add: asio_upd_user_def)
  show ?thesis using assms
    by (cases e) (auto simp: handle_handshake_def insert_user_def asio_upd_user_def on_timer_def fire_timer_def asio_server_stop_def asio_user_event_def
        adapter_onDisconnect_def Let_def t st split: option.splits if_splits)
qed

end
