(* ===== verification/AsioClient.thy ===== *)
theory AsioClient
  imports AsioServer
begin

text \<open>
  The client of the Boost.Asio build, \<^verbatim>\<open>tcpsock_client\<close> of \<^verbatim>\<open>src/zbf/asio_socket_tcp.hpp\<close>, and the TLS settings
  (\<^verbatim>\<open>make_ssl_context\<close>).  An asynchronous connect is an attempt with the flag \<^verbatim>\<open>done\<close> that its callbacks share, its timer,
  and the calls of its handler; all attempts use the one member \<^verbatim>\<open>_user\<close>.  Callbacks of one attempt come in the order
  resolve, connect, handshake; the timer may expire at any time once.  Dereferencing an empty \<^verbatim>\<open>_user\<close> ends the program,
  recorded in \<open>ac_fault\<close>.

  Shown: a handler is called at most once, and never when the timer comes first; one attempt at a time is safe,
  two that overlap are not.
\<close>

datatype connect_phase = Resolving | Connecting | Handshaking | Over

record connect_attempt =
  ca_phase :: connect_phase
  ca_done :: bool
  ca_timer :: bool
  ca_calls :: "int list"

datatype client_fault = NullUser

record asio_client =
  ac_sslCtx :: bool
  ac_worker :: asio_worker
  ac_hb_timer :: bool
  ac_users :: "nat \<Rightarrow> asio_user option"
  ac_next :: nat
  ac_user :: "nat option"
  ac_attempts :: "connect_attempt list"
  ac_fault :: "client_fault option"

definition asio_client_new :: "bool \<Rightarrow> asio_client" where
  "asio_client_new ssl =
    \<lparr>ac_sslCtx = ssl, ac_worker = asio_worker_new 2, ac_hb_timer = False, ac_users = Map.empty, ac_next = 0, ac_user = None,
     ac_attempts = [], ac_fault = None\<rparr>"

definition start_hb_timer :: "asio_client \<Rightarrow> asio_client" where
  "start_hb_timer c = c\<lparr>ac_hb_timer := True\<rparr>"

definition asio_client_start :: "asio_client \<Rightarrow> asio_client" where
  "asio_client_start c = start_hb_timer (c\<lparr>ac_worker := worker_start (ac_worker c)\<rparr>)"

definition asio_client_stop :: "asio_client \<Rightarrow> asio_client" where
  "asio_client_stop c = c\<lparr>ac_hb_timer := False, ac_worker := worker_stop (ac_worker c)\<rparr>"

definition upd_clt_user :: "nat \<Rightarrow> (asio_user \<Rightarrow> asio_user) \<Rightarrow> asio_client \<Rightarrow> asio_client" where
  "upd_clt_user i f c = c\<lparr>ac_users := (ac_users c)(i := map_option f (ac_users c i))\<rparr>"

text \<open>The first lines of both ways to connect, and the construction of a user.\<close>

definition drop_user :: "bool \<Rightarrow> asio_client \<Rightarrow> asio_client" where
  "drop_user ok c = (case ac_user c of None \<Rightarrow> c | Some i \<Rightarrow> (upd_clt_user i (\<lambda>u. snd (asio_stop ok u)) c)\<lparr>ac_user := None\<rparr>)"

definition make_user :: "asio_client \<Rightarrow> asio_client" where
  "make_user c = c\<lparr>ac_users := (ac_users c)(ac_next c \<mapsto> asio_user_new False), ac_user := Some (ac_next c), ac_next := ac_next c + 1\<rparr>"

definition start_user :: "asio_client \<Rightarrow> asio_client" where
  "start_user c = (case ac_user c of None \<Rightarrow> c\<lparr>ac_fault := Some NullUser\<rparr> | Some i \<Rightarrow> upd_clt_user i asio_start c)"

text \<open>\<open>resolve_ok\<close>, \<open>connect_ok\<close> and \<open>handshake_ok\<close>: the three calls of the library return, or throw \<^verbatim>\<open>asio::system_error\<close>.\<close>

definition asio_connect :: "bool \<Rightarrow> bool \<Rightarrow> bool \<Rightarrow> bool \<Rightarrow> asio_client \<Rightarrow> int \<times> asio_client" where
  "asio_connect resolve_ok connect_ok handshake_ok ok c =
    (let c1 = make_user (drop_user ok c) in
     if \<not> resolve_ok \<or> \<not> connect_ok \<or> (ac_sslCtx c1 \<and> \<not> handshake_ok) then (-1, c1\<lparr>ac_user := None\<rparr>)
     else (0, start_user c1))"

definition async_connect :: "bool \<Rightarrow> asio_client \<Rightarrow> asio_client" where
  "async_connect ok c =
    (let c1 = drop_user ok c in
     c1\<lparr>ac_attempts := ac_attempts c1 @ [\<lparr>ca_phase = Resolving, ca_done = False, ca_timer = True, ca_calls = []\<rparr>]\<rparr>)"

definition set_attempt :: "nat \<Rightarrow> connect_attempt \<Rightarrow> asio_client \<Rightarrow> asio_client" where
  "set_attempt k a c = c\<lparr>ac_attempts := (ac_attempts c)[k := a]\<rparr>"

definition finish :: "int \<Rightarrow> connect_attempt \<Rightarrow> connect_attempt" where
  "finish rc a = a\<lparr>ca_done := True, ca_phase := Over, ca_calls := ca_calls a @ [rc]\<rparr>"

text \<open>The callback of the timer cancels the operations of the current socket, which complete later with an error.\<close>

definition on_connect_timer :: "nat \<Rightarrow> asio_client \<Rightarrow> asio_client" where
  "on_connect_timer k c =
    (let a = (ac_attempts c ! k)\<lparr>ca_timer := False\<rparr> in
     if ca_done a then set_attempt k a c else set_attempt k (a\<lparr>ca_done := True\<rparr>) c)"

definition on_resolved :: "nat \<Rightarrow> bool \<Rightarrow> asio_client \<Rightarrow> asio_client" where
  "on_resolved k bad c =
    (let a = ac_attempts c ! k in
     if ca_done a then set_attempt k (a\<lparr>ca_phase := Over\<rparr>) c
     else if bad then set_attempt k (finish (-1) a) c
     else make_user (set_attempt k (a\<lparr>ca_phase := Connecting\<rparr>) c))"

definition on_connected :: "nat \<Rightarrow> bool \<Rightarrow> asio_client \<Rightarrow> asio_client" where
  "on_connected k bad c =
    (let a = ac_attempts c ! k in
     if ca_done a then set_attempt k (a\<lparr>ca_phase := Over\<rparr>) c
     else if bad then set_attempt k (finish (-2) a) (c\<lparr>ac_user := None\<rparr>)
     else if ac_sslCtx c then
       (if ac_user c = None then c\<lparr>ac_fault := Some NullUser\<rparr> else set_attempt k (a\<lparr>ca_phase := Handshaking\<rparr>) c)
     else set_attempt k (finish 0 a) (start_user c))"

definition on_handshaked :: "nat \<Rightarrow> bool \<Rightarrow> asio_client \<Rightarrow> asio_client" where
  "on_handshaked k bad c =
    (let a = ac_attempts c ! k in
     if ca_done a then set_attempt k (a\<lparr>ca_phase := Over\<rparr>) c
     else if bad then set_attempt k (finish (-3) a) (c\<lparr>ac_user := None\<rparr>)
     else set_attempt k (finish 0 a) (start_user c))"

definition asio_disconnect :: "bool \<Rightarrow> asio_client \<Rightarrow> asio_client" where
  "asio_disconnect ok c = (case ac_user c of None \<Rightarrow> c | Some i \<Rightarrow> upd_clt_user i (\<lambda>u. snd (asio_stop ok u)) c)"

definition asio_client_post :: "tcp_message \<Rightarrow> asio_client \<Rightarrow> asio_client" where
  "asio_client_post msg c = (case ac_user c of None \<Rightarrow> c | Some i \<Rightarrow> upd_clt_user i (asio_post msg) c)"

definition on_hb_timer :: "tcp_message_protocol \<Rightarrow> bool \<Rightarrow> int \<Rightarrow> bool \<Rightarrow> asio_client \<Rightarrow> asio_client" where
  "on_hb_timer p bad now ok c =
    (if bad then c\<lparr>ac_hb_timer := False\<rparr>
     else start_hb_timer (case ac_user c of None \<Rightarrow> c | Some i \<Rightarrow> upd_clt_user i (on_tick p now ok) c))"

datatype client_event =
    ClAsync bool
  | ClConnect bool bool bool bool
  | ClTimer nat
  | ClResolved nat bool
  | ClConnected nat bool
  | ClHandshaked nat bool
  | ClDisconnect bool
  | ClPost tcp_message
  | ClHeartbeat bool int bool
  | ClUser nat asio_event

definition in_phase :: "connect_phase \<Rightarrow> nat \<Rightarrow> asio_client \<Rightarrow> bool" where
  "in_phase ph k c \<longleftrightarrow> k < length (ac_attempts c) \<and> ca_phase (ac_attempts c ! k) = ph"

fun client_step :: "tcp_message_protocol \<Rightarrow> client_event \<Rightarrow> asio_client \<Rightarrow> asio_client option" where
  "client_step p e c =
    (if ac_fault c \<noteq> None then None
     else (case e of
       ClAsync ok \<Rightarrow> Some (async_connect ok c)
     | ClConnect rk ck hk ok \<Rightarrow> Some (snd (asio_connect rk ck hk ok c))
     | ClTimer k \<Rightarrow> if k < length (ac_attempts c) \<and> ca_timer (ac_attempts c ! k) then Some (on_connect_timer k c) else None
     | ClResolved k bad \<Rightarrow> if in_phase Resolving k c then Some (on_resolved k bad c) else None
     | ClConnected k bad \<Rightarrow> if in_phase Connecting k c then Some (on_connected k bad c) else None
     | ClHandshaked k bad \<Rightarrow> if in_phase Handshaking k c then Some (on_handshaked k bad c) else None
     | ClDisconnect ok \<Rightarrow> Some (asio_disconnect ok c)
     | ClPost msg \<Rightarrow> Some (asio_client_post msg c)
     | ClHeartbeat bad now ok \<Rightarrow> if ac_hb_timer c then Some (on_hb_timer p bad now ok c) else None
     | ClUser i ev \<Rightarrow>
         (case ac_users c i of None \<Rightarrow> None
          | Some u \<Rightarrow> map_option (\<lambda>u'. c\<lparr>ac_users := (ac_users c)(i \<mapsto> u')\<rparr>) (asio_step p ev u))))"

definition client_started :: "asio_client \<Rightarrow> bool" where
  "client_started c \<longleftrightarrow> (\<exists>ssl. c = asio_client_start (asio_client_new ssl))"

section \<open>TLS settings\<close>

datatype ssl_call = SetOptions | UseCertificateChain bytes | UsePrivateKey bytes | VerifyNone | VerifyPeer | VerifyPeerOrFail | LoadVerifyFile bytes

text \<open>The calls in order; the library throws at the first one that fails, and the exception leaves the function.\<close>

fun ssl_calls :: "(ssl_call \<Rightarrow> bool) \<Rightarrow> ssl_call list \<Rightarrow> ssl_call + ssl_call list" where
  "ssl_calls works [] = Inr []"
| "ssl_calls works (k # ks) = (if works k then map_sum id ((#) k) (ssl_calls works ks) else Inl k)"

definition SslVerifyNone :: int where "SslVerifyNone = 0"
definition SslVerifyDual :: int where "SslVerifyDual = 2"

definition make_ssl_context :: "(ssl_call \<Rightarrow> bool) \<Rightarrow> bytes \<Rightarrow> bytes \<Rightarrow> bytes \<Rightarrow> int \<Rightarrow> bool \<Rightarrow> ssl_call + ssl_call list" where
  "make_ssl_context works crt key ca verify_mode server =
    ssl_calls works (SetOptions #
      (if server then
         [UseCertificateChain crt, UsePrivateKey key] @ (if verify_mode = SslVerifyDual then [VerifyPeerOrFail, LoadVerifyFile ca] else [])
       else if verify_mode = SslVerifyNone then [VerifyNone]
       else [VerifyPeer, LoadVerifyFile ca] @ (if verify_mode = SslVerifyDual then [UseCertificateChain crt, UsePrivateKey key] else [])))"

lemma ssl_calls_Inr: "ssl_calls works ks = Inr ks' \<longleftrightarrow> list_all works ks \<and> ks' = ks"
proof (induction ks arbitrary: ks')
  case (Cons k ks)
  then show ?case by (cases "ssl_calls works ks") auto
qed auto

text \<open>A context that is returned was set up completely, and a client verifies the server unless it asks not to.\<close>

lemma client_context_verifies:
  assumes "make_ssl_context works crt key ca mode False = Inr ks" and "mode \<noteq> SslVerifyNone"
  shows "VerifyPeer \<in> set ks \<and> LoadVerifyFile ca \<in> set ks \<and> VerifyNone \<notin> set ks"
  using assms by (auto simp: make_ssl_context_def ssl_calls_Inr split: if_splits)

section \<open>Handlers\<close>

lemma user_ops_attempts [simp]:
  "ac_attempts (drop_user ok c) = ac_attempts c" "ac_attempts (make_user c) = ac_attempts c" "ac_attempts (start_user c) = ac_attempts c"
  "ac_attempts (asio_disconnect ok c) = ac_attempts c" "ac_attempts (asio_client_post m c) = ac_attempts c"
  "ac_attempts (on_hb_timer p bad now ok c) = ac_attempts c" "ac_attempts (snd (asio_connect rk ck hk ok c)) = ac_attempts c"
  by (auto simp: drop_user_def make_user_def start_user_def asio_disconnect_def asio_client_post_def on_hb_timer_def start_hb_timer_def
      asio_connect_def upd_clt_user_def Let_def split: option.splits)

definition attempt_ok :: "connect_attempt \<Rightarrow> bool" where
  "attempt_ok a \<longleftrightarrow> length (ca_calls a) \<le> 1 \<and> (ca_calls a \<noteq> [] \<longrightarrow> ca_done a) \<and> (ca_done a \<and> ca_calls a = [] \<longrightarrow> \<not> ca_timer a) \<and>
    (ca_phase a = Over \<longrightarrow> ca_done a)"

text \<open>What one event makes of an attempt: it stays, its timer expires, or a callback moves it on.\<close>

definition attempt_step :: "connect_attempt \<Rightarrow> connect_attempt \<Rightarrow> bool" where
  "attempt_step a b \<longleftrightarrow> b = a \<or> b = a\<lparr>ca_timer := False, ca_done := True\<rparr> \<or> (ca_done a \<and> ca_phase b = Over \<and> b = a\<lparr>ca_phase := Over\<rparr>) \<or>
    (\<not> ca_done a \<and> (\<exists>rc ph. b = finish rc a \<or> ph \<noteq> Over \<and> b = a\<lparr>ca_phase := ph\<rparr>))"

lemma attempts_step:
  assumes "client_step p e c = Some c'"
  shows "(\<exists>k < length (ac_attempts c). \<exists>b. attempt_step (ac_attempts c ! k) b \<and> ac_attempts c' = (ac_attempts c)[k := b]) \<or> ac_attempts c' = ac_attempts c \<or>
    ac_attempts c' = ac_attempts c @ [\<lparr>ca_phase = Resolving, ca_done = False, ca_timer = True, ca_calls = []\<rparr>]"
proof -
  let ?a = "ac_attempts c"
  have moved: "\<exists>b. attempt_step (?a ! k) b \<and> ac_attempts (f c) = ?a[k := b]"
    if "f \<in> {on_connect_timer k, on_resolved k bad, on_connected k bad, on_handshaked k bad}" for f k bad
  proof -
    have tm: "attempt_step a a" "attempt_step a (a\<lparr>ca_timer := False, ca_done := True\<rparr>)" "ca_done a \<Longrightarrow> attempt_step a (a\<lparr>ca_timer := False\<rparr>)"
        "\<not> ca_done a \<Longrightarrow> attempt_step a (finish rc a)" "ca_done a \<Longrightarrow> attempt_step a (a\<lparr>ca_phase := Over\<rparr>)"
        "\<not> ca_done a \<Longrightarrow> ph \<noteq> Over \<Longrightarrow> attempt_step a (a\<lparr>ca_phase := ph\<rparr>)" for a rc ph
      by (auto simp: attempt_step_def intro: exI [of _ ph])
    show ?thesis using that
      by (cases "ca_done (?a ! k)"; cases bad; cases "ac_sslCtx c"; cases "ac_user c = None")
        (auto simp: on_connect_timer_def on_resolved_def on_connected_def on_handshaked_def set_attempt_def Let_def list_update_id intro: tm)
  qed
  show ?thesis
  proof (cases e)
    case (ClTimer k)
    then show ?thesis using assms moved [of "on_connect_timer k" k] by (auto split: if_splits)
  next
    case (ClResolved k bad)
    then show ?thesis using assms moved [of "on_resolved k bad" k bad] by (auto simp: in_phase_def split: if_splits)
  next
    case (ClConnected k bad)
    then show ?thesis using assms moved [of "on_connected k bad" k bad] by (auto simp: in_phase_def split: if_splits)
  next
    case (ClHandshaked k bad)
    then show ?thesis using assms moved [of "on_handshaked k bad" k bad] by (auto simp: in_phase_def split: if_splits)
  qed (use assms in \<open>auto simp: async_connect_def Let_def split: if_splits option.splits\<close>)
qed

lemma attempt_ok_step: "attempt_ok a \<Longrightarrow> attempt_step a b \<Longrightarrow> attempt_ok b"
  by (auto simp: attempt_ok_def attempt_step_def finish_def)

lemma attempt_done_step: "attempt_step a b \<Longrightarrow> ca_done a \<Longrightarrow> ca_done b \<and> ca_calls b = ca_calls a"
  by (auto simp: attempt_step_def)

definition attempts_ok :: "asio_client \<Rightarrow> bool" where
  "attempts_ok c \<longleftrightarrow> list_all attempt_ok (ac_attempts c)"

lemma attempts_ok_step:
  assumes "attempts_ok c" and "client_step p e c = Some c'"
  shows "attempts_ok c'"
proof -
  have "list_all attempt_ok ((ac_attempts c)[k := b])" if "k < length (ac_attempts c)" "attempt_step (ac_attempts c ! k) b" for k b
    using that assms(1) attempt_ok_step unfolding attempts_ok_def list_all_length by (metis length_list_update nth_list_update)
  then show ?thesis using attempts_step [OF assms(2)] assms(1) by (auto simp: attempts_ok_def attempt_ok_def)
qed

lemma attempts_ok_start: "client_started c \<Longrightarrow> attempts_ok c"
  by (auto simp: client_started_def asio_client_start_def asio_client_new_def start_hb_timer_def attempts_ok_def)

interpretation attempts: inductive_invariant "client_step p" client_started attempts_ok
  by unfold_locales (rule attempts_ok_start, assumption, rule attempts_ok_step)

definition settled :: "nat \<Rightarrow> int list \<Rightarrow> asio_client \<Rightarrow> bool" where
  "settled k rcs c \<longleftrightarrow> k < length (ac_attempts c) \<and> ca_done (ac_attempts c ! k) \<and> ca_calls (ac_attempts c ! k) = rcs"

lemma settled_step:
  assumes "settled k rcs c" and "client_step p e c = Some c'"
  shows "settled k rcs c'"
  using attempts_step [OF assms(2)] assms(1) attempt_done_step by (auto simp: settled_def nth_list_update nth_append)

interpretation settling: inductive_invariant "client_step p" "settled k rcs" "settled k rcs"
  by unfold_locales (assumption, rule settled_step)

text \<open>
  The handler of an asynchronous connect of the Boost.Asio client is called at most once.  An attempt that has
  been decided stays as it is; so when the timer was the first to decide, the handler is never called, and that
  is the only way an attempt can end without a call.
\<close>
theorem asio_connect_handler_once:
  assumes "reach (client_step p) client_started c" and "k < length (ac_attempts c)"
  shows "length (ca_calls (ac_attempts c ! k)) \<le> 1 \<and>
    (ca_done (ac_attempts c ! k) \<and> run_events (client_step p) es c = Some c' \<longrightarrow> ca_calls (ac_attempts c' ! k) = ca_calls (ac_attempts c ! k)) \<and>
    (ca_phase (ac_attempts c ! k) = Over \<longrightarrow> ca_calls (ac_attempts c ! k) \<noteq> [] \<or> \<not> ca_timer (ac_attempts c ! k))"
proof -
  have "attempt_ok (ac_attempts c ! k)"
    using attempts.holds [OF assms(1)] assms(2) by (simp add: attempts_ok_def list_all_length)
  moreover have "ca_calls (ac_attempts c' ! k) = ca_calls (ac_attempts c ! k)"
    if "ca_done (ac_attempts c ! k) \<and> run_events (client_step p) es c = Some c'"
  proof -
    have "settled k (ca_calls (ac_attempts c ! k)) c'"
      by (rule settling.holds_after) (use that assms(2) in \<open>auto simp: settled_def\<close>)
    then show ?thesis by (simp add: settled_def)
  qed
  ultimately show ?thesis unfolding attempt_ok_def by metis
qed

lemmas client_evaluate = evaluate asio_client_start_def asio_client_new_def start_hb_timer_def worker_start_def asio_worker_new_def async_connect_def
  drop_user_def upd_clt_user_def in_phase_def on_resolved_def on_connected_def on_connect_timer_def set_attempt_def make_user_def start_user_def finish_def
  asio_client_post_def

lemma started_client: "client_started (asio_client_start (asio_client_new ssl))"
  by (auto simp: client_started_def)

theorem asio_connect_handler_once_witness:
  "\<exists>c c'. run_events (client_step default_msg_proto) [ClAsync True, ClResolved 0 False, ClTimer 0] (asio_client_start (asio_client_new False)) = Some c \<and>
    run_events (client_step default_msg_proto) [ClConnected 0 True] c = Some c' \<and> ca_calls (ac_attempts c' ! 0) = []"
proof -
  have "\<exists>c c'. run_events (client_step default_msg_proto) [ClAsync True, ClResolved 0 False, ClTimer 0] (asio_client_start (asio_client_new False)) = Some c \<and>
      run_events (client_step default_msg_proto) [ClConnected 0 True] c = Some c' \<and> 0 < length (ac_attempts c) \<and> ca_done (ac_attempts c ! 0) \<and> ca_calls (ac_attempts c ! 0) = []"
    by (simp add: client_evaluate)
  then obtain c c' where c: "run_events (client_step default_msg_proto) [ClAsync True, ClResolved 0 False, ClTimer 0] (asio_client_start (asio_client_new False)) = Some c"
    "run_events (client_step default_msg_proto) [ClConnected 0 True] c = Some c'" "0 < length (ac_attempts c)" "ca_done (ac_attempts c ! 0)" "ca_calls (ac_attempts c ! 0) = []"
    by blast
  have "reach (client_step default_msg_proto) client_started c" using started_client c(1) by (rule reach_run)
  from asio_connect_handler_once [OF this c(3), of "[ClConnected 0 True]" c'] c show ?thesis by auto
qed

section \<open>One attempt at a time\<close>

fun begins_attempt :: "client_event \<Rightarrow> bool" where
  "begins_attempt (ClAsync ok) = True"
| "begins_attempt (ClConnect rk ck hk ok) = True"
| "begins_attempt _ = False"

definition sequential_step :: "tcp_message_protocol \<Rightarrow> client_event \<Rightarrow> asio_client \<Rightarrow> asio_client option" where
  "sequential_step p e c =
    (if begins_attempt e \<and> \<not> list_all (\<lambda>a. ca_phase a = Over) (ac_attempts c) then None else client_step p e c)"

definition one_attempt :: "asio_client \<Rightarrow> bool" where
  "one_attempt c \<longleftrightarrow> ac_fault c = None \<and> list_all (\<lambda>ph. ph = Over) (butlast (map ca_phase (ac_attempts c))) \<and>
    (\<forall>ph \<in> set (map ca_phase (ac_attempts c)). ph \<in> {Connecting, Handshaking} \<longrightarrow> ac_user c \<noteq> None)"

lemma one_attempt_set:
  assumes "one_attempt c" and "k < length (ac_attempts c)" and "ca_phase (ac_attempts c ! k) \<noteq> Over" and "ac_attempts c' = (ac_attempts c)[k := b]"
    and "ac_fault c' = None" and "ca_phase b \<in> {Connecting, Handshaking} \<longrightarrow> ac_user c' \<noteq> None"
  shows "one_attempt c'"
proof -
  have k: "Suc k = length (ac_attempts c)"
  proof (rule ccontr)
    assume "Suc k \<noteq> length (ac_attempts c)"
    then have "ca_phase (ac_attempts c ! k) = butlast (map ca_phase (ac_attempts c)) ! k" "k < length (butlast (map ca_phase (ac_attempts c)))"
      using assms(2) by (simp_all add: nth_butlast)
    moreover have "list_all (\<lambda>ph. ph = Over) (butlast (map ca_phase (ac_attempts c)))" using assms(1) by (simp add: one_attempt_def)
    ultimately show False using assms(3) by (simp add: list_all_length)
  qed
  then obtain as a where as: "ac_attempts c = as @ [a]" "k = length as"
    by (cases "ac_attempts c" rule: rev_cases) auto
  then show ?thesis using assms(1,4-6) by (auto simp: one_attempt_def list_all_iff butlast_append)
qed

lemma one_attempt_over:
  assumes "list_all (\<lambda>a. ca_phase a = Over) (ac_attempts c)" and "ac_fault c' = None"
    and "ac_attempts c' = ac_attempts c \<or> ac_attempts c' = ac_attempts c @ [\<lparr>ca_phase = Resolving, ca_done = False, ca_timer = True, ca_calls = []\<rparr>]"
  shows "one_attempt c'"
  using assms by (auto simp: one_attempt_def list_all_iff dest: in_set_butlastD)

lemma one_attempt_frame: "one_attempt c \<Longrightarrow> map ca_phase (ac_attempts c') = map ca_phase (ac_attempts c) \<Longrightarrow> ac_fault c' = None \<Longrightarrow> ac_user c' = ac_user c \<Longrightarrow> one_attempt c'"
  unfolding one_attempt_def by metis

lemma user_ops_kept:
  "ac_user (asio_disconnect ok c) = ac_user c" "ac_user (asio_client_post m c) = ac_user c" "ac_user (on_hb_timer p bad now ok c) = ac_user c"
  "ac_fault (asio_disconnect ok c) = ac_fault c" "ac_fault (asio_client_post m c) = ac_fault c" "ac_fault (on_hb_timer p bad now ok c) = ac_fault c"
  "ac_fault (drop_user ok c) = ac_fault c" "ac_fault (snd (asio_connect rk ck hk ok c)) = ac_fault c"
  by (auto simp: drop_user_def make_user_def start_user_def asio_disconnect_def asio_client_post_def on_hb_timer_def start_hb_timer_def
      asio_connect_def upd_clt_user_def Let_def split: option.splits)

lemma one_attempt_step:
  assumes "one_attempt c" and "sequential_step p e c = Some c'"
  shows "one_attempt c'"
proof -
  have st: "client_step p e c = Some c'" and nf: "ac_fault c = None"
    using assms by (auto simp: sequential_step_def one_attempt_def split: if_splits)
  have over: "begins_attempt e \<Longrightarrow> list_all (\<lambda>a. ca_phase a = Over) (ac_attempts c)"
    using assms(2) by (auto simp: sequential_step_def split: if_splits)
  have usr: "ac_user c \<noteq> None" if "in_phase Connecting k c \<or> in_phase Handshaking k c" for k
    using assms(1) that by (auto simp: one_attempt_def in_phase_def)
  show ?thesis
  proof (cases e)
    case (ClAsync ok)
    then show ?thesis using st over nf by (intro one_attempt_over) (auto simp: async_connect_def user_ops_kept Let_def)
  next
    case (ClConnect rk ck hk ok)
    then show ?thesis using st over nf by (intro one_attempt_over) (auto simp: user_ops_kept)
  next
    case (ClTimer k)
    then have k: "k < length (ac_attempts c)" "c' = on_connect_timer k c" using st nf by (auto split: if_splits)
    have "map ca_phase (ac_attempts c') = map ca_phase (ac_attempts c)"
      using k by (auto simp: on_connect_timer_def set_attempt_def Let_def map_update list_update_same_conv)
    then show ?thesis using k nf by (intro one_attempt_frame [OF assms(1)]) (auto simp: on_connect_timer_def set_attempt_def Let_def)
  next
    case (ClResolved k bad)
    then have k: "in_phase Resolving k c" "c' = on_resolved k bad c" using st nf by (auto split: if_splits)
    show ?thesis
      by (rule one_attempt_set [OF assms(1), where b = "ac_attempts c' ! k"])
        (use k nf in \<open>auto simp: in_phase_def on_resolved_def set_attempt_def make_user_def finish_def Let_def\<close>)
  next
    case (ClConnected k bad)
    then have k: "in_phase Connecting k c" "c' = on_connected k bad c" using st nf by (auto split: if_splits)
    show ?thesis
      by (rule one_attempt_set [OF assms(1), where b = "ac_attempts c' ! k"])
        (use k nf usr [of k] in \<open>auto simp: in_phase_def on_connected_def set_attempt_def start_user_def upd_clt_user_def finish_def Let_def\<close>)
  next
    case (ClHandshaked k bad)
    then have k: "in_phase Handshaking k c" "c' = on_handshaked k bad c" using st nf by (auto split: if_splits)
    show ?thesis
      by (rule one_attempt_set [OF assms(1), where b = "ac_attempts c' ! k"])
        (use k nf usr [of k] in \<open>auto simp: in_phase_def on_handshaked_def set_attempt_def start_user_def upd_clt_user_def finish_def Let_def\<close>)
  qed (use st nf one_attempt_frame [OF assms(1)] in \<open>auto simp: user_ops_kept split: if_splits option.splits\<close>)
qed

lemma one_attempt_start: "client_started c \<Longrightarrow> one_attempt c"
  by (auto simp: client_started_def asio_client_start_def asio_client_new_def start_hb_timer_def one_attempt_def)

interpretation single: inductive_invariant "sequential_step p" client_started one_attempt
  by unfold_locales (rule one_attempt_start, assumption, rule one_attempt_step)

text \<open>
  A Boost.Asio client that begins an attempt to connect only when all earlier ones are over never uses an empty user, whatever the
  outcome of the calls and timers; two attempts that overlap can end the program.
\<close>
theorem asio_client_attempts:
  "(reach (sequential_step p) client_started c \<longrightarrow> ac_fault c = None) \<and>
   (\<exists>es c. run_events (client_step p) es (asio_client_start (asio_client_new False)) = Some c \<and> ac_fault c = Some NullUser)"
proof -
  have "\<exists>c. run_events (client_step p) [ClAsync True, ClResolved 0 False, ClAsync True, ClResolved 1 False, ClConnected 0 True, ClConnected 1 False]
      (asio_client_start (asio_client_new False)) = Some c \<and> ac_fault c = Some NullUser"
    by (simp add: client_evaluate)
  moreover have "ac_fault c = None" if "reach (sequential_step p) client_started c"
    using single.holds [OF that] by (simp add: one_attempt_def)
  ultimately show ?thesis by blast
qed

theorem asio_client_attempts_witness:
  "\<exists>c. run_events (sequential_step default_msg_proto) [ClAsync True, ClResolved 0 False, ClTimer 0, ClConnected 0 True, ClAsync True, ClResolved 1 False, ClConnected 1 False]
      (asio_client_start (asio_client_new False)) = Some c \<and> ac_fault c = None \<and> ca_calls (ac_attempts c ! 1) = [0]"
proof -
  have "\<exists>c. run_events (sequential_step default_msg_proto) [ClAsync True, ClResolved 0 False, ClTimer 0, ClConnected 0 True, ClAsync True, ClResolved 1 False, ClConnected 1 False]
      (asio_client_start (asio_client_new False)) = Some c \<and> ca_calls (ac_attempts c ! 1) = [0]"
    by (simp add: client_evaluate sequential_step_def)
  then obtain c where c: "run_events (sequential_step default_msg_proto) [ClAsync True, ClResolved 0 False, ClTimer 0, ClConnected 0 True, ClAsync True, ClResolved 1 False, ClConnected 1 False]
      (asio_client_start (asio_client_new False)) = Some c" "ca_calls (ac_attempts c ! 1) = [0]" by blast
  have "reach (sequential_step default_msg_proto) client_started c" using started_client c(1) by (rule reach_run)
  then show ?thesis using asio_client_attempts [of default_msg_proto c] c by blast
qed

text \<open>A connect that timed out leaves a user that was never started; what is posted to it ends in a disconnect without a connect.\<close>

lemma disconnect_without_connect:
  "\<exists>c u. run_events (client_step p) [ClAsync True, ClResolved 0 False, ClTimer 0, ClConnected 0 True, ClPost m, ClUser 0 (EvIo 1 True),
      ClUser 0 (EvWrite 0 (Some other_error)), ClUser 0 (EvIo 1 True), ClUser 0 EvWorker] (asio_client_start (asio_client_new False)) = Some c \<and>
    ac_users c 0 = Some u \<and> au_calls u = [OnDisconnect]"
  by (simp add: client_evaluate)

end
