(* ===== verification/SocketPoll.thy ===== *)
theory SocketPoll
  imports Prelude
begin

unbundle bit_operations_syntax

text \<open>
  The poller of \<^verbatim>\<open>src/zbf/socket_poll.hpp\<close>, both builds.  The Windows build keeps its own table of descriptors and asks
  \<^verbatim>\<open>WSAPoll\<close>; its state is the static members.  The Linux build passes every call on to the kernel, whose \<^verbatim>\<open>epoll_ctl\<close>
  is an argument, with its documented behaviour as the predicate \<open>epoll_laws\<close>.  The field \<^verbatim>\<open>data\<close> of an \<^verbatim>\<open>epoll_event\<close> is a
  union: storing a descriptor sets its low half and leaves the other one as it was.

  The locale \<open>poller\<close> is the contract that the transport relies on: a table of descriptors with what is waited for.  Both builds
  implement it, so any sequence of calls has the same results and leaves the same table in both.
\<close>

type_synonym fd = u32
type_synonym ptr = u64

record event =
  ev_ud :: ptr
  ev_fd :: fd
  ev_read :: bool
  ev_write :: bool
  ev_error :: bool
  ev_eof :: bool

definition MAX_EVENT :: int where "MAX_EVENT = 64"

section \<open>The contract\<close>

datatype poll_op = Add fd ptr bool | Enable fd ptr bool bool | Del fd

type_synonym interests = "fd \<Rightarrow> (bool \<times> bool) option"

fun abs_op :: "poll_op \<Rightarrow> interests \<Rightarrow> int \<times> interests" where
  "abs_op (Add d ud wr) m = (if m d \<noteq> None then (1, m) else (0, m(d \<mapsto> (True, wr))))"
| "abs_op (Enable d ud rd wr) m = (if m d = None then (1, m) else (0, m(d \<mapsto> (rd, wr))))"
| "abs_op (Del d) m = (0, m(d := None))"

fun run_ops :: "('op \<Rightarrow> 's \<Rightarrow> 'r \<times> 's) \<Rightarrow> 'op list \<Rightarrow> 's \<Rightarrow> 'r list \<times> 's" where
  "run_ops f [] s = ([], s)"
| "run_ops f (x # xs) s = (case f x s of (r, s1) \<Rightarrow> case run_ops f xs s1 of (rs, s2) \<Rightarrow> (r # rs, s2))"

locale poller =
  fixes op :: "poll_op \<Rightarrow> 's \<Rightarrow> int \<times> 's" and interest :: "'s \<Rightarrow> interests" and I :: "'s \<Rightarrow> bool"
  assumes op_inv: "I s \<Longrightarrow> op x s = (r, s') \<Longrightarrow> I s'"
    and op_refines: "I s \<Longrightarrow> op x s = (r, s') \<Longrightarrow> abs_op x (interest s) = (r, interest s')"
begin

lemma run_refines: "I s \<Longrightarrow> run_ops op xs s = (rs, s') \<Longrightarrow> I s' \<and> run_ops abs_op xs (interest s) = (rs, interest s')"
proof (induction xs arbitrary: s rs)
  case (Cons x xs)
  obtain r s1 where x: "op x s = (r, s1)" by (cases "op x s")
  obtain rs1 where xs: "run_ops op xs s1 = (rs1, s')" "rs = r # rs1" using Cons.prems(2) x by (auto split: prod.splits)
  have "I s' \<and> run_ops abs_op xs (interest s1) = (rs1, interest s')" by (rule Cons.IH [OF op_inv [OF Cons.prems(1) x] xs(1)])
  then show ?case using op_refines [OF Cons.prems(1) x] xs(2) by simp
qed auto

end

section \<open>The Windows build\<close>

definition POLLIN :: u16 where "POLLIN = 0x0300"
definition POLLOUT :: u16 where "POLLOUT = 0x0010"
definition POLLERR :: u16 where "POLLERR = 0x0001"
definition POLLHUP :: u16 where "POLLHUP = 0x0002"

record fd_entry =
  fe_fd :: fd
  fe_ud :: ptr
  fe_events :: u16

record socket_poll =
  sp_instances :: "int \<Rightarrow> fd_entry list option"
  sp_next_id :: int

definition find_fd :: "fd \<Rightarrow> fd_entry list \<Rightarrow> fd_entry option" where
  "find_fd d entries = find (\<lambda>e. fe_fd e = d) entries"

definition win_sp_invalid :: "int \<Rightarrow> bool" where
  "win_sp_invalid efd \<longleftrightarrow> efd = 0"

definition win_sp_create :: "socket_poll \<Rightarrow> int \<times> socket_poll" where
  "win_sp_create p = (let i = sp_next_id p + 1 in (i, p\<lparr>sp_next_id := i, sp_instances := (sp_instances p)(i \<mapsto> [])\<rparr>))"

definition win_sp_release :: "int \<Rightarrow> socket_poll \<Rightarrow> socket_poll" where
  "win_sp_release efd p = p\<lparr>sp_instances := (sp_instances p)(efd := None)\<rparr>"

text \<open>\<^verbatim>\<open>_instances[efd]\<close> makes a missing instance.\<close>

definition win_sp_add_ex :: "int \<Rightarrow> fd \<Rightarrow> ptr \<Rightarrow> bool \<Rightarrow> socket_poll \<Rightarrow> int \<times> socket_poll" where
  "win_sp_add_ex efd d ud write_enable p =
    (let entries = (case sp_instances p efd of None \<Rightarrow> [] | Some es \<Rightarrow> es) in
     if find_fd d entries \<noteq> None then (1, p\<lparr>sp_instances := (sp_instances p)(efd \<mapsto> entries)\<rparr>)
     else (0, p\<lparr>sp_instances := (sp_instances p)(efd \<mapsto>
       entries @ [\<lparr>fe_fd = d, fe_ud = ud, fe_events = POLLIN OR (if write_enable then POLLOUT else 0)\<rparr>])\<rparr>))"

definition win_sp_add :: "int \<Rightarrow> fd \<Rightarrow> bool \<Rightarrow> socket_poll \<Rightarrow> int \<times> socket_poll" where
  "win_sp_add efd d write_enable p = win_sp_add_ex efd d 0 write_enable p"

definition win_sp_del :: "int \<Rightarrow> fd \<Rightarrow> socket_poll \<Rightarrow> socket_poll" where
  "win_sp_del efd d p =
    (case sp_instances p efd of None \<Rightarrow> p
     | Some entries \<Rightarrow> p\<lparr>sp_instances := (sp_instances p)(efd \<mapsto> filter (\<lambda>e. fe_fd e \<noteq> d) entries)\<rparr>)"

fun set_entry :: "fd \<Rightarrow> (fd_entry \<Rightarrow> fd_entry) \<Rightarrow> fd_entry list \<Rightarrow> fd_entry list" where
  "set_entry d f [] = []"
| "set_entry d f (e # es) = (if fe_fd e = d then f e # es else e # set_entry d f es)"

definition win_sp_enable_ex :: "int \<Rightarrow> fd \<Rightarrow> ptr \<Rightarrow> bool \<Rightarrow> bool \<Rightarrow> socket_poll \<Rightarrow> int \<times> socket_poll" where
  "win_sp_enable_ex efd d ud read_enable write_enable p =
    (case sp_instances p efd of None \<Rightarrow> (1, p)
     | Some entries \<Rightarrow>
       if find_fd d entries = None then (1, p)
       else (0, p\<lparr>sp_instances := (sp_instances p)(efd \<mapsto> set_entry d
         (\<lambda>e. e\<lparr>fe_events := (if read_enable then POLLIN else 0) OR (if write_enable then POLLOUT else 0),
                 fe_ud := if ud \<noteq> 0 then ud else fe_ud e\<rparr>) entries)\<rparr>))"

definition win_sp_enable :: "int \<Rightarrow> fd \<Rightarrow> bool \<Rightarrow> bool \<Rightarrow> socket_poll \<Rightarrow> int \<times> socket_poll" where
  "win_sp_enable efd d read_enable write_enable p = win_sp_enable_ex efd d 0 read_enable write_enable p"

definition win_event :: "fd_entry \<Rightarrow> u16 \<Rightarrow> event" where
  "win_event e rv =
    \<lparr>ev_ud = fe_ud e, ev_fd = fe_fd e, ev_read = (rv AND POLLIN \<noteq> 0), ev_write = (rv AND POLLOUT \<noteq> 0),
     ev_error = (rv AND POLLERR \<noteq> 0), ev_eof = (rv AND POLLHUP \<noteq> 0)\<rparr>"

fun win_events :: "int \<Rightarrow> (fd_entry \<times> u16) list \<Rightarrow> event list" where
  "win_events mx [] = []"
| "win_events mx ((e, rv) # rest) =
    (if mx \<le> 0 then []
     else if rv = 0 then win_events mx rest
     else win_event e rv # win_events (mx - 1) rest)"

text \<open>\<open>poll\<close> is \<^verbatim>\<open>WSAPoll\<close>: its result and the field \<^verbatim>\<open>revents\<close> of each entry, given descriptors, interests and time-out.\<close>

definition win_sp_wait :: "((fd \<times> u16) list \<Rightarrow> int \<Rightarrow> int \<times> u16 list) \<Rightarrow> int \<Rightarrow> int \<Rightarrow> int \<Rightarrow> socket_poll \<Rightarrow> int \<times> event list" where
  "win_sp_wait poll efd mx timeout p =
    (let mx = (if mx > MAX_EVENT then MAX_EVENT else mx) in
     case sp_instances p efd of
       None \<Rightarrow> (-1, [])
     | Some snapshot \<Rightarrow>
       if snapshot = [] then (0, [])
       else (case poll (map (\<lambda>e. (fe_fd e, fe_events e)) snapshot) (if timeout > 0 then timeout else -1) of
           (n, revents) \<Rightarrow>
             if n \<le> 0 then (n, [])
             else let es = win_events mx (zip snapshot revents) in (int (length es), es)))"

section \<open>The Linux build\<close>

definition EPOLLIN :: u32 where "EPOLLIN = 0x001"
definition EPOLLOUT :: u32 where "EPOLLOUT = 0x004"
definition EPOLLERR :: u32 where "EPOLLERR = 0x008"
definition EPOLLHUP :: u32 where "EPOLLHUP = 0x010"
definition EPOLLRDHUP :: u32 where "EPOLLRDHUP = 0x2000"

record epoll_event =
  ep_events :: u32
  ep_data :: ptr

datatype ctl_op = EPOLL_CTL_ADD | EPOLL_CTL_MOD | EPOLL_CTL_DEL

type_synonym 'k epoll = "int \<Rightarrow> ctl_op \<Rightarrow> fd \<Rightarrow> epoll_event option \<Rightarrow> 'k \<Rightarrow> int \<times> 'k"

definition data_fd :: "u32 \<Rightarrow> fd \<Rightarrow> ptr" where
  "data_fd junk d = push_bit 32 (ucast junk) OR ucast d"

definition sp_invalid :: "int \<Rightarrow> bool" where
  "sp_invalid efd \<longleftrightarrow> efd = -1"

definition ctl_result :: "int \<times> 'k \<Rightarrow> int \<times> 'k" where
  "ctl_result r = (if fst r = -1 then 1 else 0, snd r)"

definition sp_add :: "'k epoll \<Rightarrow> u32 \<Rightarrow> int \<Rightarrow> fd \<Rightarrow> bool \<Rightarrow> 'k \<Rightarrow> int \<times> 'k" where
  "sp_add ctl junk efd d write_enable k =
    (let ev = \<lparr>ep_events = (if write_enable then EPOLLIN OR EPOLLOUT else EPOLLIN), ep_data = data_fd junk d\<rparr> in
     ctl_result (ctl efd EPOLL_CTL_ADD d (Some ev) k))"

definition sp_add_ex :: "'k epoll \<Rightarrow> int \<Rightarrow> fd \<Rightarrow> ptr \<Rightarrow> bool \<Rightarrow> 'k \<Rightarrow> int \<times> 'k" where
  "sp_add_ex ctl efd d ud write_enable k =
    (let ev = \<lparr>ep_events = (if write_enable then EPOLLIN OR EPOLLOUT else EPOLLIN), ep_data = ud\<rparr> in
     ctl_result (ctl efd EPOLL_CTL_ADD d (Some ev) k))"

definition sp_del :: "'k epoll \<Rightarrow> int \<Rightarrow> fd \<Rightarrow> 'k \<Rightarrow> 'k" where
  "sp_del ctl efd d k = snd (ctl efd EPOLL_CTL_DEL d None k)"

definition sp_enable :: "'k epoll \<Rightarrow> u32 \<Rightarrow> int \<Rightarrow> fd \<Rightarrow> bool \<Rightarrow> bool \<Rightarrow> 'k \<Rightarrow> int \<times> 'k" where
  "sp_enable ctl junk efd d read_enable write_enable k =
    (let ev = \<lparr>ep_events = (if read_enable then EPOLLIN else 0) OR (if write_enable then EPOLLOUT else 0), ep_data = data_fd junk d\<rparr> in
     ctl_result (ctl efd EPOLL_CTL_MOD d (Some ev) k))"

definition sp_enable_ex :: "'k epoll \<Rightarrow> int \<Rightarrow> fd \<Rightarrow> ptr \<Rightarrow> bool \<Rightarrow> bool \<Rightarrow> 'k \<Rightarrow> int \<times> 'k" where
  "sp_enable_ex ctl efd d ud read_enable write_enable k =
    (let ev = \<lparr>ep_events = (if read_enable then EPOLLIN else 0) OR (if write_enable then EPOLLOUT else 0), ep_data = ud\<rparr> in
     ctl_result (ctl efd EPOLL_CTL_MOD d (Some ev) k))"

definition sp_event :: "epoll_event \<Rightarrow> event" where
  "sp_event ev =
    (let flag = ep_events ev in
     \<lparr>ev_ud = ep_data ev, ev_fd = ucast (ep_data ev), ev_read = (flag AND EPOLLIN \<noteq> 0), ev_write = (flag AND EPOLLOUT \<noteq> 0),
      ev_error = (flag AND EPOLLERR \<noteq> 0), ev_eof = (flag AND (EPOLLHUP OR EPOLLRDHUP) \<noteq> 0)\<rparr>)"

text \<open>\<open>wait\<close> is \<^verbatim>\<open>epoll_wait\<close>: \<open>None\<close> for an error, else the events, given the bound and the time-out.\<close>

definition sp_wait :: "(int \<Rightarrow> int \<Rightarrow> epoll_event list option) \<Rightarrow> int \<Rightarrow> int \<Rightarrow> int \<times> event list" where
  "sp_wait wait mx timeout =
    (let mx = (if mx > MAX_EVENT then MAX_EVENT else mx) in
     case wait mx timeout of None \<Rightarrow> (-1, []) | Some evs \<Rightarrow> (int (length evs), map sp_event evs))"

section \<open>What the kernel promises\<close>

text \<open>
  The interest list of an epoll instance: adding a descriptor that is there fails, changing or deleting one that is not
  fails, and a call that fails changes nothing.
\<close>

definition epoll_laws :: "'k epoll \<Rightarrow> ('k \<Rightarrow> fd \<Rightarrow> epoll_event option) \<Rightarrow> int \<Rightarrow> bool" where
  "epoll_laws ctl table efd \<longleftrightarrow>
    (\<forall>d ev k. table (snd (ctl efd EPOLL_CTL_ADD d (Some ev) k)) = (if table k d = None then (table k)(d \<mapsto> ev) else table k) \<and>
      (fst (ctl efd EPOLL_CTL_ADD d (Some ev) k) = -1 \<longleftrightarrow> table k d \<noteq> None)) \<and>
    (\<forall>d ev k. table (snd (ctl efd EPOLL_CTL_MOD d (Some ev) k)) = (if table k d = None then table k else (table k)(d \<mapsto> ev)) \<and>
      (fst (ctl efd EPOLL_CTL_MOD d (Some ev) k) = -1 \<longleftrightarrow> table k d = None)) \<and>
    (\<forall>d k. table (snd (ctl efd EPOLL_CTL_DEL d None k)) = (table k)(d := None))"

section \<open>Both builds implement the contract\<close>

text \<open>The calls of a client; one that passes no user data uses the short forms.\<close>

fun win_op :: "int \<Rightarrow> poll_op \<Rightarrow> socket_poll \<Rightarrow> int \<times> socket_poll" where
  "win_op efd (Add d ud wr) p = (if ud = 0 then win_sp_add efd d wr p else win_sp_add_ex efd d ud wr p)"
| "win_op efd (Enable d ud rd wr) p = (if ud = 0 then win_sp_enable efd d rd wr p else win_sp_enable_ex efd d ud rd wr p)"
| "win_op efd (Del d) p = (0, win_sp_del efd d p)"

fun linux_op :: "'k epoll \<Rightarrow> u32 \<Rightarrow> int \<Rightarrow> poll_op \<Rightarrow> 'k \<Rightarrow> int \<times> 'k" where
  "linux_op ctl junk efd (Add d ud wr) k = (if ud = 0 then sp_add ctl junk efd d wr k else sp_add_ex ctl efd d ud wr k)"
| "linux_op ctl junk efd (Enable d ud rd wr) k = (if ud = 0 then sp_enable ctl junk efd d rd wr k else sp_enable_ex ctl efd d ud rd wr k)"
| "linux_op ctl junk efd (Del d) k = (0, sp_del ctl efd d k)"

definition win_flags :: "u16 \<Rightarrow> bool \<times> bool" where
  "win_flags ev = (ev AND POLLIN \<noteq> 0, ev AND POLLOUT \<noteq> 0)"

definition win_interest :: "int \<Rightarrow> socket_poll \<Rightarrow> interests" where
  "win_interest efd p d =
    (case sp_instances p efd of None \<Rightarrow> None | Some es \<Rightarrow> map_option (\<lambda>e. win_flags (fe_events e)) (find_fd d es))"

definition win_inv :: "int \<Rightarrow> socket_poll \<Rightarrow> bool" where
  "win_inv efd p \<longleftrightarrow> (\<exists>es. sp_instances p efd = Some es \<and> distinct (map fe_fd es))"

definition linux_interest :: "('k \<Rightarrow> fd \<Rightarrow> epoll_event option) \<Rightarrow> 'k \<Rightarrow> interests" where
  "linux_interest table k d = map_option (\<lambda>ev. (ep_events ev AND EPOLLIN \<noteq> 0, ep_events ev AND EPOLLOUT \<noteq> 0)) (table k d)"

lemma flag_bits [simp]:
  "win_flags POLLIN = (True, False)" "win_flags (POLLIN OR POLLOUT) = (True, True)" "win_flags POLLOUT = (False, True)" "win_flags 0 = (False, False)"
  by (simp_all add: win_flags_def POLLIN_def POLLOUT_def)

lemma epoll_bits [simp]:
  "(EPOLLIN OR EPOLLOUT) AND EPOLLIN \<noteq> 0" "(EPOLLIN OR EPOLLOUT) AND EPOLLOUT \<noteq> 0" "EPOLLIN AND EPOLLOUT = 0" "EPOLLOUT AND EPOLLIN = 0"
  "EPOLLIN \<noteq> 0" "EPOLLOUT \<noteq> 0"
  by (simp_all add: EPOLLIN_def EPOLLOUT_def)

lemma find_fd_append: "find_fd d (es @ [e]) = (case find_fd d es of None \<Rightarrow> if fe_fd e = d then Some e else None | Some x \<Rightarrow> Some x)"
  unfolding find_fd_def by (induction es) auto

lemma find_fd_filter: "find_fd d (filter (\<lambda>e. fe_fd e \<noteq> d') es) = (if d = d' then None else find_fd d es)"
  unfolding find_fd_def by (induction es) auto

lemma find_fd_set: "(\<And>e. fe_fd (f e) = fe_fd e) \<Longrightarrow> find_fd d (set_entry d' f es) = (if d = d' then map_option f (find_fd d es) else find_fd d es)"
  unfolding find_fd_def by (induction es) auto

lemma set_entry_fds: "(\<And>e. fe_fd (f e) = fe_fd e) \<Longrightarrow> map fe_fd (set_entry d f es) = map fe_fd es"
  by (induction es) auto

lemma find_fd_None: "find_fd d es = None \<longleftrightarrow> d \<notin> fe_fd ` set es"
  unfolding find_fd_def by (induction es) auto

interpretation win: poller "win_op efd" "win_interest efd" "win_inv efd"
proof (unfold_locales, goal_cases)
  case (1 p x r p')
  then show ?case
    by (cases x) (auto simp: win_inv_def win_sp_add_def win_sp_add_ex_def win_sp_enable_def win_sp_enable_ex_def win_sp_del_def find_fd_None
        set_entry_fds distinct_map_filter split: if_splits)
next
  case (2 p x r p')
  then show ?case
    by (cases x) (auto simp: win_inv_def win_interest_def win_sp_add_def win_sp_add_ex_def win_sp_enable_def win_sp_enable_ex_def win_sp_del_def
        find_fd_append find_fd_filter find_fd_set fun_eq_iff split: if_splits option.splits)
qed

definition ep_flags :: "epoll_event \<Rightarrow> bool \<times> bool" where
  "ep_flags ev = (ep_events ev AND EPOLLIN \<noteq> 0, ep_events ev AND EPOLLOUT \<noteq> 0)"

lemma linux_interest_upd:
  "table k' = table k \<Longrightarrow> linux_interest table k' = linux_interest table k"
  "table k' = (table k)(d \<mapsto> ev) \<Longrightarrow> linux_interest table k' = (linux_interest table k)(d \<mapsto> ep_flags ev)"
  "table k' = (table k)(d := None) \<Longrightarrow> linux_interest table k' = (linux_interest table k)(d := None)"
  by (auto simp: linux_interest_def ep_flags_def fun_eq_iff)

lemma epoll_lawsD:
  assumes "epoll_laws ctl table efd"
  shows "table (snd (ctl efd EPOLL_CTL_ADD d (Some ev) k)) = (if table k d = None then (table k)(d \<mapsto> ev) else table k)"
    "fst (ctl efd EPOLL_CTL_ADD d (Some ev) k) = -1 \<longleftrightarrow> table k d \<noteq> None"
    "table (snd (ctl efd EPOLL_CTL_MOD d (Some ev) k)) = (if table k d = None then table k else (table k)(d \<mapsto> ev))"
    "fst (ctl efd EPOLL_CTL_MOD d (Some ev) k) = -1 \<longleftrightarrow> table k d = None"
  using assms unfolding epoll_laws_def by blast+

lemma linux_add: "\<exists>ev. linux_op ctl junk efd (Add d ud wr) k = ctl_result (ctl efd EPOLL_CTL_ADD d (Some ev) k) \<and> ep_flags ev = (True, wr)"
  by (rule exI [of _ "\<lparr>ep_events = (if wr then EPOLLIN OR EPOLLOUT else EPOLLIN), ep_data = (if ud = 0 then data_fd junk d else ud)\<rparr>"])
    (simp add: sp_add_def sp_add_ex_def ep_flags_def)

lemma linux_enable:
  "\<exists>ev. linux_op ctl junk efd (Enable d ud rd wr) k = ctl_result (ctl efd EPOLL_CTL_MOD d (Some ev) k) \<and> ep_flags ev = (rd, wr)"
  by (rule exI [of _ "\<lparr>ep_events = (if rd then EPOLLIN else 0) OR (if wr then EPOLLOUT else 0), ep_data = (if ud = 0 then data_fd junk d else ud)\<rparr>"])
    (simp add: sp_enable_def sp_enable_ex_def ep_flags_def)

lemma linux_poller: "epoll_laws ctl table efd \<Longrightarrow> poller (linux_op ctl junk efd) (linux_interest table) (\<lambda>k. True)"
proof (unfold_locales, goal_cases)
  case (2 k x r k')
  have none: "linux_interest table k d = None \<longleftrightarrow> table k d = None" for d by (simp add: linux_interest_def)
  have ctl: "linux_interest table (snd (ctl efd o' d (Some ev) k)) = linux_interest table k" if "table (snd (ctl efd o' d (Some ev) k)) = table k" for o' d ev
    using that by (rule linux_interest_upd(1))
  have ctl': "linux_interest table (snd (ctl efd o' d (Some ev) k)) = (linux_interest table k)(d \<mapsto> ep_flags ev)"
    if "table (snd (ctl efd o' d (Some ev) k)) = (table k)(d \<mapsto> ev)" for o' d ev
    using that by (rule linux_interest_upd(2))
  have add: "(if table k d \<noteq> None then (1, linux_interest table k) else (0, (linux_interest table k)(d \<mapsto> ep_flags ev))) = (r, linux_interest table k')"
    if "ctl_result (ctl efd EPOLL_CTL_ADD d (Some ev) k) = (r, k')" for d ev
    using that epoll_lawsD(1,2) [OF 2(1), of d ev k] ctl [of EPOLL_CTL_ADD d ev] ctl' [of EPOLL_CTL_ADD d ev]
    by (cases "table k d = None") (auto simp: ctl_result_def)
  have md: "(if table k d = None then (1, linux_interest table k) else (0, (linux_interest table k)(d \<mapsto> ep_flags ev))) = (r, linux_interest table k')"
    if "ctl_result (ctl efd EPOLL_CTL_MOD d (Some ev) k) = (r, k')" for d ev
    using that epoll_lawsD(3,4) [OF 2(1), of d ev k] ctl [of EPOLL_CTL_MOD d ev] ctl' [of EPOLL_CTL_MOD d ev]
    by (cases "table k d = None") (auto simp: ctl_result_def)
  show ?case
  proof (cases x)
    case (Add d ud wr)
    obtain ev where "ctl_result (ctl efd EPOLL_CTL_ADD d (Some ev) k) = (r, k')" "ep_flags ev = (True, wr)"
      using linux_add [of ctl junk efd d ud wr k] 2(3) Add by metis
    with add [of d ev] none Add show ?thesis by (auto split: if_splits)
  next
    case (Enable d ud rd wr)
    obtain ev where "ctl_result (ctl efd EPOLL_CTL_MOD d (Some ev) k) = (r, k')" "ep_flags ev = (rd, wr)"
      using linux_enable [of ctl junk efd d ud rd wr k] 2(3) Enable by metis
    with md [of d ev] none Enable show ?thesis by (auto split: if_splits)
  next
    case (Del d)
    then show ?thesis using 2(1,3) linux_interest_upd(3) [of table k' k d] by (auto simp: sp_del_def epoll_laws_def)
  qed
qed simp


text \<open>A kernel that keeps one interest list.\<close>

fun sample_epoll :: "(fd \<Rightarrow> epoll_event option) epoll" where
  "sample_epoll efd EPOLL_CTL_ADD d (Some ev) k = (if k d = None then (0, k(d \<mapsto> ev)) else (-1, k))"
| "sample_epoll efd EPOLL_CTL_MOD d (Some ev) k = (if k d = None then (-1, k) else (0, k(d \<mapsto> ev)))"
| "sample_epoll efd EPOLL_CTL_DEL d ev k = (if k d = None then (-1, k) else (0, k(d := None)))"
| "sample_epoll efd _ d None k = (-1, k)"

lemma sample_epoll_laws: "epoll_laws sample_epoll (\<lambda>k. k) efd"
  by (auto simp: epoll_laws_def)

definition sample_ops :: "poll_op list" where
  "sample_ops = [Add 5 0 False, Add 5 0 True, Enable 5 0 True True, Add 6 77 False, Del 5, Enable 5 0 True True]"


section \<open>Events\<close>

lemma data_fd_back: "ucast (data_fd junk d) = d"
  by (rule bit_word_eqI) (simp add: data_fd_def bit_simps)

definition ready :: "(fd_entry \<times> u16) list \<Rightarrow> event list" where
  "ready rs = map (\<lambda>(e, rv). win_event e rv) (filter (\<lambda>(e, rv). rv \<noteq> 0) rs)"

lemma win_events_ready: "win_events mx rs = take (nat mx) (ready rs)"
proof (induction mx rs rule: win_events.induct)
  case (2 mx e rv rest)
  then show ?case by (cases "nat mx") (auto simp: ready_def take_Cons' nat_diff_distrib)
qed (simp add: ready_def)

text \<open>
  What a wait reports: the Windows build returns the entries with events in the order of registration, at most as many as asked for and
  never more than 64, each descriptor once with the user data it was registered with; the Linux build returns one event for
  each of the kernel's, with the descriptor when it was registered by descriptor and with the user data
  when it was registered with it.
\<close>
theorem poll_events:
  assumes "win_inv efd p" and "sp_instances p efd = Some es" and "es \<noteq> []" and "length revents = length es"
    and "poll (map (\<lambda>e. (fe_fd e, fe_events e)) es) (if timeout > 0 then timeout else -1) = (n, revents)" and "0 < n"
    and "wait (min mx MAX_EVENT) timeout = Some evs"
  shows "(\<exists>r. win_sp_wait poll efd mx timeout p = (int (length r), r) \<and> r = take (nat (min mx MAX_EVENT)) (ready (zip es revents)) \<and>
      length r \<le> 64 \<and> distinct (map ev_fd r) \<and> (\<forall>ev \<in> set r. \<exists>e \<in> set es. ev_fd ev = fe_fd e \<and> ev_ud ev = fe_ud e)) \<and>
    sp_wait wait mx timeout = (int (length evs), map sp_event evs) \<and>
      ev_fd (sp_event \<lparr>ep_events = fl, ep_data = data_fd junk d\<rparr>) = d \<and> ev_ud (sp_event \<lparr>ep_events = fl, ep_data = ud\<rparr>) = ud"
proof -
  let ?r = "take (nat (min mx MAX_EVENT)) (ready (zip es revents))"
  have m: "(if mx > MAX_EVENT then MAX_EVENT else mx) = min mx MAX_EVENT" by simp
  have fst: "map ev_fd (ready rs) = map (\<lambda>(e, rv). fe_fd e) (filter (\<lambda>(e, rv). rv \<noteq> 0) rs)" for rs
    by (auto simp: ready_def win_event_def)
  have "distinct (map (\<lambda>(e, rv). fe_fd e) (zip es revents))"
    using assms(1,2,4) by (simp add: win_inv_def case_prod_unfold map_map [symmetric, unfolded comp_def, of fe_fd fst] del: map_map)
  then have "distinct (map ev_fd (ready (zip es revents)))" unfolding fst by (rule distinct_map_filter)
  then have "distinct (map ev_fd ?r)" by (metis distinct_take take_map)
  moreover have "\<forall>ev \<in> set ?r. \<exists>e \<in> set es. ev_fd ev = fe_fd e \<and> ev_ud ev = fe_ud e"
    by (fastforce simp: ready_def win_event_def dest!: in_set_takeD set_zip_leftD)
  moreover have "win_sp_wait poll efd mx timeout p = (int (length ?r), ?r)"
    using assms(2,3,5,6) unfolding win_sp_wait_def Let_def m by (simp add: win_events_ready)
  ultimately have "\<exists>r. win_sp_wait poll efd mx timeout p = (int (length r), r) \<and> r = ?r \<and>
      length r \<le> 64 \<and> distinct (map ev_fd r) \<and> (\<forall>ev \<in> set r. \<exists>e \<in> set es. ev_fd ev = fe_fd e \<and> ev_ud ev = fe_ud e)"
    by (intro exI [of _ ?r]) (simp add: MAX_EVENT_def)
  moreover have "sp_wait wait mx timeout = (int (length evs), map sp_event evs) \<and>
      ev_fd (sp_event \<lparr>ep_events = fl, ep_data = data_fd junk d\<rparr>) = d \<and> ev_ud (sp_event \<lparr>ep_events = fl, ep_data = ud\<rparr>) = ud"
    using assms(7) unfolding sp_wait_def Let_def m by (simp add: sp_event_def data_fd_back)
  ultimately show ?thesis by simp
qed

definition sample_poller :: socket_poll where
  "sample_poller = snd (win_sp_add_ex 1 9 44 True (snd (win_sp_add 1 7 False (snd (win_sp_create \<lparr>sp_instances = Map.empty, sp_next_id = 0\<rparr>)))))"

theorem poll_events_witness:
  "\<exists>r. win_sp_wait (\<lambda>_ _. (1, [0, POLLOUT])) 1 100 5 sample_poller = (int (length r), r) \<and> map ev_fd r = [9] \<and> length r \<le> 64 \<and>
    sp_wait (\<lambda>_ _. Some [\<lparr>ep_events = EPOLLIN, ep_data = data_fd 3 9\<rparr>]) 100 5 = (1, [sp_event \<lparr>ep_events = EPOLLIN, ep_data = data_fd 3 9\<rparr>])"
proof -
  let ?es = "[\<lparr>fe_fd = 7, fe_ud = 0, fe_events = POLLIN\<rparr>, \<lparr>fe_fd = 9, fe_ud = 44, fe_events = POLLIN OR POLLOUT\<rparr>]"
  have es: "sp_instances sample_poller 1 = Some ?es"
    by (simp add: sample_poller_def win_sp_create_def win_sp_add_def win_sp_add_ex_def find_fd_def Let_def)
  then have inv: "win_inv 1 sample_poller" by (simp add: win_inv_def)
  have "POLLOUT \<noteq> 0" by (simp add: POLLOUT_def)
  then show ?thesis
    using poll_events [OF inv es, of "[0, POLLOUT]" "\<lambda>_ _. (1, [0, POLLOUT])" 5 1
        "\<lambda>_ _. Some [\<lparr>ep_events = EPOLLIN, ep_data = data_fd 3 9\<rparr>]" 100 "[\<lparr>ep_events = EPOLLIN, ep_data = data_fd 3 9\<rparr>]"]
    by (auto simp: ready_def win_event_def MAX_EVENT_def)
qed

end
