(* ===== verification/MemAlloc.thy ===== *)
theory MemAlloc
  imports EventSystem Prelude
begin

text \<open>
  The tracking allocator of \<^verbatim>\<open>src/zbf/mem_alloc.hpp\<close> in its default build (\<^verbatim>\<open>ZBF_TRACE_MEMORY\<close>).  The table of tracked blocks is
  shared by all threads and changed under its lock; the calls of the C library are not under it.  So an
  allocation is two steps, the library's and the table's, and other threads may come in between; what a thread
  still has to do is in \<open>ma_pending\<close>.  The library's choice of an address is part of the event.  A failed
  allocation ends the process.  The size is recorded as an \<^verbatim>\<open>int\<close>.

  Shown: without \<^verbatim>\<open>realloc\<close>, or with threads that take turns, the table is exactly the set of live blocks whenever no
  call is under way; with \<^verbatim>\<open>realloc\<close> and two threads a live block can be missing from it for good.
\<close>

type_synonym addr = u64

datatype pending_op =
    Track addr u64 bytes
  | Retrack addr addr u64 bytes
  | Release addr

record mem_state =
  ma_table :: "addr \<Rightarrow> (bytes \<times> int) option"
  ma_live :: "addr \<Rightarrow> u64 option"
  ma_pending :: "pending_op list"
  ma_exited :: bool

definition mem_new :: mem_state where
  "mem_new = \<lparr>ma_table = Map.empty, ma_live = Map.empty, ma_pending = [], ma_exited = False\<rparr>"

definition int_size :: "u64 \<Rightarrow> int" where
  "int_size n = sint (ucast n :: u32)"

text \<open>\<^verbatim>\<open>unordered_map::insert\<close> keeps an entry that is there.\<close>

definition tbl_insert :: "addr \<Rightarrow> bytes \<times> int \<Rightarrow> (addr \<Rightarrow> (bytes \<times> int) option) \<Rightarrow> addr \<Rightarrow> (bytes \<times> int) option" where
  "tbl_insert a v t = (if t a = None then t(a \<mapsto> v) else t)"

definition track_mem :: "addr \<Rightarrow> u64 \<Rightarrow> bytes \<Rightarrow> mem_state \<Rightarrow> mem_state" where
  "track_mem a sz tag s = s\<lparr>ma_table := tbl_insert a (tag, int_size sz) (ma_table s)\<rparr>"

definition retrack_mem :: "addr \<Rightarrow> addr \<Rightarrow> u64 \<Rightarrow> bytes \<Rightarrow> mem_state \<Rightarrow> mem_state" where
  "retrack_mem a new_a sz tag s = s\<lparr>ma_table := tbl_insert new_a (tag, int_size sz) ((ma_table s)(a := None))\<rparr>"

definition untrack_mem :: "addr \<Rightarrow> mem_state \<Rightarrow> mem_state" where
  "untrack_mem a s = s\<lparr>ma_table := (ma_table s)(a := None)\<rparr>"

text \<open>The first steps of the functions; the answer of the library is \<open>None\<close> for a null pointer.\<close>

definition mem_malloc :: "u64 \<Rightarrow> bytes \<Rightarrow> addr option \<Rightarrow> mem_state \<Rightarrow> mem_state" where
  "mem_malloc sz tag mem s =
    (case mem of None \<Rightarrow> s\<lparr>ma_exited := True\<rparr>
     | Some a \<Rightarrow> s\<lparr>ma_live := (ma_live s)(a \<mapsto> sz), ma_pending := ma_pending s @ [Track a sz tag]\<rparr>)"

definition mem_calloc :: "u64 \<Rightarrow> u64 \<Rightarrow> bytes \<Rightarrow> addr option \<Rightarrow> mem_state \<Rightarrow> mem_state" where
  "mem_calloc n sz tag mem s = mem_malloc (n * sz) tag mem s"

definition mem_realloc :: "addr \<Rightarrow> u64 \<Rightarrow> bytes \<Rightarrow> addr option \<Rightarrow> mem_state \<Rightarrow> mem_state" where
  "mem_realloc mem sz tag new_mem s =
    (case new_mem of None \<Rightarrow> s\<lparr>ma_exited := True\<rparr>
     | Some a \<Rightarrow> s\<lparr>ma_live := (ma_live s)(mem := None, a \<mapsto> sz), ma_pending := ma_pending s @ [Retrack mem a sz tag]\<rparr>)"

definition mem_free :: "addr \<Rightarrow> mem_state \<Rightarrow> mem_state" where
  "mem_free mem s = (if mem = 0 then s else (untrack_mem mem s)\<lparr>ma_pending := ma_pending s @ [Release mem]\<rparr>)"

text \<open>An object that inherits \<^verbatim>\<open>object_tracker\<close> is tracked by its constructor, after its memory was taken, and untracked by its destructor.\<close>

definition object_construct :: "addr \<Rightarrow> u64 \<Rightarrow> bytes \<Rightarrow> mem_state \<Rightarrow> mem_state" where
  "object_construct self sz name s = mem_malloc sz name (Some self) s"

definition object_destruct :: "addr \<Rightarrow> mem_state \<Rightarrow> mem_state" where
  "object_destruct self s = (untrack_mem self s)\<lparr>ma_pending := ma_pending s @ [Release self]\<rparr>"

fun run_pending :: "pending_op \<Rightarrow> mem_state \<Rightarrow> mem_state" where
  "run_pending (Track a sz tag) s = track_mem a sz tag s"
| "run_pending (Retrack a b sz tag) s = retrack_mem a b sz tag s"
| "run_pending (Release a) s = s\<lparr>ma_live := (ma_live s)(a := None)\<rparr>"

datatype mem_event =
    EMalloc u64 bytes "addr option"
  | ECalloc u64 u64 bytes "addr option"
  | ERealloc addr u64 bytes "addr option"
  | EFree addr
  | EConstruct addr u64 bytes
  | EDestruct addr
  | EFinish nat

fun op_addr :: "pending_op \<Rightarrow> addr" where
  "op_addr (Track a sz tag) = a"
| "op_addr (Retrack a b sz tag) = b"
| "op_addr (Release a) = a"

text \<open>
  A program releases or reallocates a block that is live and that no other call is at work on; the library returns blocks
  that are not live, and \<^verbatim>\<open>realloc\<close> may return the same one.
\<close>

definition owned :: "addr \<Rightarrow> mem_state \<Rightarrow> bool" where
  "owned a s \<longleftrightarrow> a \<noteq> 0 \<and> ma_live s a \<noteq> None \<and> a \<notin> op_addr ` set (ma_pending s)"

definition unused :: "addr \<Rightarrow> mem_state \<Rightarrow> bool" where
  "unused a s \<longleftrightarrow> a \<noteq> 0 \<and> ma_live s a = None"

definition drop_nth :: "nat \<Rightarrow> 'a list \<Rightarrow> 'a list" where
  "drop_nth i xs = take i xs @ drop (Suc i) xs"

fun mem_step :: "mem_event \<Rightarrow> mem_state \<Rightarrow> mem_state option" where
  "mem_step (EMalloc sz tag mem) s = (if \<not> ma_exited s \<and> (\<forall>a \<in> set_option mem. unused a s) then Some (mem_malloc sz tag mem s) else None)"
| "mem_step (ECalloc n sz tag mem) s = (if \<not> ma_exited s \<and> (\<forall>a \<in> set_option mem. unused a s) then Some (mem_calloc n sz tag mem s) else None)"
| "mem_step (ERealloc a sz tag mem) s =
    (if \<not> ma_exited s \<and> owned a s \<and> (\<forall>b \<in> set_option mem. b = a \<or> unused b s) then Some (mem_realloc a sz tag mem s) else None)"
| "mem_step (EFree a) s = (if \<not> ma_exited s \<and> (a = 0 \<or> owned a s) then Some (mem_free a s) else None)"
| "mem_step (EConstruct a sz name) s = (if \<not> ma_exited s \<and> unused a s then Some (object_construct a sz name s) else None)"
| "mem_step (EDestruct a) s = (if \<not> ma_exited s \<and> owned a s then Some (object_destruct a s) else None)"
| "mem_step (EFinish i) s =
    (if \<not> ma_exited s \<and> i < length (ma_pending s)
     then Some (run_pending (ma_pending s ! i) (s\<lparr>ma_pending := drop_nth i (ma_pending s)\<rparr>)) else None)"

section \<open>The table and the live blocks\<close>

fun is_retrack :: "pending_op \<Rightarrow> bool" where
  "is_retrack (Retrack a b sz tag) = True"
| "is_retrack _ = False"

text \<open>The steps of a program in which a reallocation is completed before anything else happens.\<close>

fun quiet_realloc :: "mem_event \<Rightarrow> mem_state \<Rightarrow> bool" where
  "quiet_realloc (EFinish i) s = True"
| "quiet_realloc _ s = list_all (\<lambda>x. \<not> is_retrack x) (ma_pending s)"

fun quiet_finish :: "mem_event \<Rightarrow> mem_state \<Rightarrow> bool" where
  "quiet_finish (EFinish i) s = (list_all (\<lambda>x. \<not> is_retrack x) (ma_pending s) \<or> is_retrack (ma_pending s ! i))"
| "quiet_finish _ s = True"

definition turn_step :: "mem_event \<Rightarrow> mem_state \<Rightarrow> mem_state option" where
  "turn_step e s = (if quiet_realloc e s \<and> quiet_finish e s then mem_step e s else None)"

fun pend_ok :: "mem_state \<Rightarrow> pending_op \<Rightarrow> bool" where
  "pend_ok s (Track a sz tag) \<longleftrightarrow> ma_live s a = Some sz \<and> ma_table s a = None"
| "pend_ok s (Retrack a b sz tag) \<longleftrightarrow> ma_live s b = Some sz \<and> (b \<noteq> a \<longrightarrow> ma_live s a = None \<and> ma_table s b = None)"
| "pend_ok s (Release a) \<longleftrightarrow> ma_live s a \<noteq> None \<and> ma_table s a = None"

lemma split_nth:
  assumes "i < length xs"
  obtains ys zs where "xs = ys @ xs ! i # zs" "drop_nth i xs = ys @ zs"
  using id_take_nth_drop [OF assms] that unfolding drop_nth_def by blast

lemma pend_live: "pend_ok s x \<Longrightarrow> ma_live s (op_addr x) \<noteq> None"
  by (cases x) auto

lemma pend_frame:
  assumes "pend_ok s x" and "\<not> is_retrack x" and "ma_live s' (op_addr x) = ma_live s (op_addr x)" and "ma_table s' (op_addr x) = ma_table s (op_addr x)"
  shows "pend_ok s' x"
  using assms by (cases x) auto

lemma no_retrack: "list_all (\<lambda>x. \<not> is_retrack x) xs \<Longrightarrow> Retrack a b sz tag \<notin> set xs"
  by (auto simp: list_all_iff)

definition settled_at :: "mem_state \<Rightarrow> addr \<Rightarrow> bool" where
  "settled_at s a \<longleftrightarrow> (case ma_live s a of None \<Rightarrow> ma_table s a = None | Some sz \<Rightarrow> \<exists>tag. ma_table s a = Some (tag, int_size sz))"

lemma settled_frame: "ma_live s' a = ma_live s a \<and> ma_table s' a = ma_table s a \<Longrightarrow> settled_at s a \<Longrightarrow> settled_at s' a"
  by (simp only: settled_at_def)

lemma run_effect:
  assumes "pend_ok s x" and "\<not> is_retrack x"
  shows "ma_pending (run_pending x (s\<lparr>ma_pending := ps\<rparr>)) = ps"
    "b \<noteq> op_addr x \<Longrightarrow> ma_live (run_pending x (s\<lparr>ma_pending := ps\<rparr>)) b = ma_live s b \<and> ma_table (run_pending x (s\<lparr>ma_pending := ps\<rparr>)) b = ma_table s b"
    "settled_at (run_pending x (s\<lparr>ma_pending := ps\<rparr>)) (op_addr x)"
  using assms by (cases x; simp add: track_mem_def tbl_insert_def settled_at_def)+

text \<open>The state when no reallocation is under way, which is when anything but its completion may happen.\<close>

definition calm :: "mem_state \<Rightarrow> bool" where
  "calm s \<longleftrightarrow> distinct (map op_addr (ma_pending s)) \<and> list_all (pend_ok s) (ma_pending s) \<and> list_all (\<lambda>x. \<not> is_retrack x) (ma_pending s) \<and>
    (\<forall>a. a \<notin> op_addr ` set (ma_pending s) \<longrightarrow> settled_at s a)"

lemma calm_add:
  assumes "calm s" and "a \<notin> op_addr ` set (ma_pending s)" and "\<And>b. b \<noteq> a \<Longrightarrow> ma_live s' b = ma_live s b \<and> ma_table s' b = ma_table s b"
    and "ma_pending s' = ma_pending s @ [x]" and "op_addr x = a" and "pend_ok s' x" and "\<not> is_retrack x"
  shows "calm s'"
proof -
  have "pend_ok s' y" if "y \<in> set (ma_pending s)" for y
  proof -
    have "op_addr y \<noteq> a" using assms(2) that by blast
    then show ?thesis using pend_frame [of s y s'] assms(1,3) that by (auto simp: calm_def list_all_iff)
  qed
  moreover have "settled_at s' b" if "b \<notin> op_addr ` set (ma_pending s')" for b
  proof -
    have "b \<noteq> a" "settled_at s b" using that assms(1,4,5) by (auto simp: calm_def)
    then show ?thesis using assms(3) [of b] settled_frame by blast
  qed
  ultimately show ?thesis using assms(1,2,4-7) by (auto simp: calm_def list_all_iff)
qed

lemma calm_unused:
  assumes "calm s" and "unused a s"
  shows "a \<notin> op_addr ` set (ma_pending s) \<and> ma_table s a = None"
proof -
  have "ma_live s (op_addr x) \<noteq> None" if "x \<in> set (ma_pending s)" for x
    using assms(1) that pend_live unfolding calm_def list_all_iff by blast
  then have n: "a \<notin> op_addr ` set (ma_pending s)" using assms(2) by (metis imageE unused_def)
  then have "settled_at s a" using assms(1) by (simp add: calm_def)
  then show ?thesis using n assms(2) by (simp add: unused_def settled_at_def)
qed

lemma calm_malloc:
  assumes "calm s" and "unused a s"
  shows "calm (mem_malloc sz tag (Some a) s)"
  by (rule calm_add [OF assms(1), of a _ "Track a sz tag"]) (use calm_unused [OF assms] in \<open>simp_all add: mem_malloc_def\<close>)

lemma calm_release: "calm s \<Longrightarrow> owned a s \<Longrightarrow> calm (object_destruct a s)"
  by (rule calm_add [of s a _ "Release a"]) (auto simp: object_destruct_def untrack_mem_def owned_def)

lemma free_is_release: "a \<noteq> 0 \<Longrightarrow> mem_free a s = object_destruct a s"
  by (simp add: mem_free_def object_destruct_def)

lemma calm_finish:
  assumes "calm s" and "i < length (ma_pending s)"
  shows "calm (run_pending (ma_pending s ! i) (s\<lparr>ma_pending := drop_nth i (ma_pending s)\<rparr>))"
proof -
  let ?x = "ma_pending s ! i" and ?s' = "run_pending (ma_pending s ! i) (s\<lparr>ma_pending := drop_nth i (ma_pending s)\<rparr>)"
  obtain ys zs where p: "ma_pending s = ys @ ?x # zs" "drop_nth i (ma_pending s) = ys @ zs" using split_nth [OF assms(2)] .
  have x: "pend_ok s ?x" "\<not> is_retrack ?x" using assms by (auto simp: calm_def list_all_length)
  have "distinct (map op_addr (ys @ ?x # zs))" using assms(1) p(1) unfolding calm_def by metis
  then have d: "op_addr ?x \<notin> op_addr ` set (ys @ zs)" "distinct (map op_addr (ys @ zs))" by auto
  have set: "set (ma_pending s) = insert ?x (set (ys @ zs))" by (subst p(1)) simp
  have eq: "ma_pending ?s' = ys @ zs" "\<And>b. b \<noteq> op_addr ?x \<Longrightarrow> ma_live ?s' b = ma_live s b \<and> ma_table ?s' b = ma_table s b" "settled_at ?s' (op_addr ?x)"
    using run_effect [OF x, where ps = "drop_nth i (ma_pending s)"] p(2) by simp_all
  have "pend_ok ?s' y" if "y \<in> set (ys @ zs)" for y
  proof -
    have "op_addr y \<noteq> op_addr ?x" using d(1) that by (metis imageI)
    moreover have "pend_ok s y" "\<not> is_retrack y" using that assms(1) set by (auto simp: calm_def list_all_iff)
    ultimately show ?thesis using pend_frame [of s y ?s'] eq(2) by blast
  qed
  moreover have "settled_at ?s' b" if "b \<notin> op_addr ` set (ys @ zs)" for b
  proof (cases "b = op_addr ?x")
    case False
    then have "settled_at s b" using assms(1) that unfolding calm_def set by blast
    then show ?thesis using eq(2) [OF False] settled_frame by blast
  qed (use eq(3) in simp)
  moreover have "list_all (\<lambda>x. \<not> is_retrack x) (ys @ zs)" using assms(1) set by (simp add: calm_def list_all_iff)
  ultimately show ?thesis using d(2) unfolding calm_def eq(1) by (auto simp: list_all_iff)
qed

text \<open>The state while a reallocation is under way is calm once it is completed.\<close>

definition mem_inv :: "mem_state \<Rightarrow> bool" where
  "mem_inv s \<longleftrightarrow> calm s \<or> (\<exists>ps a b sz tag. ma_pending s = ps @ [Retrack a b sz tag] \<and> list_all (\<lambda>x. \<not> is_retrack x) ps \<and>
    calm (retrack_mem a b sz tag (s\<lparr>ma_pending := ps\<rparr>)))"

lemma calm_realloc:
  assumes "calm s" and "owned a s" and "b = a \<or> unused b s"
  shows "mem_inv (mem_realloc a sz tag (Some b) s)"
proof -
  let ?s' = "retrack_mem a b sz tag (s\<lparr>ma_live := (ma_live s)(a := None, b \<mapsto> sz)\<rparr>)"
  have b: "b \<notin> op_addr ` set (ma_pending s)" "a \<notin> op_addr ` set (ma_pending s)" "b \<noteq> a \<longrightarrow> ma_table s b = None"
    using assms calm_unused [of s b] by (auto simp: owned_def)
  have eq: "c \<noteq> a \<Longrightarrow> c \<noteq> b \<Longrightarrow> ma_live ?s' c = ma_live s c \<and> ma_table ?s' c = ma_table s c" for c
    by (simp add: retrack_mem_def tbl_insert_def)
  have ab: "settled_at ?s' a" "settled_at ?s' b" using b(3) by (auto simp: settled_at_def retrack_mem_def tbl_insert_def)
  have p: "ma_pending ?s' = ma_pending s" by (simp add: retrack_mem_def)
  have "pend_ok ?s' y" if "y \<in> set (ma_pending s)" for y
  proof -
    have "op_addr y \<noteq> a" "op_addr y \<noteq> b" "pend_ok s y" "\<not> is_retrack y" using b that assms(1) by (auto simp: calm_def list_all_iff)
    then show ?thesis using pend_frame [of s y ?s'] eq by blast
  qed
  moreover have "settled_at ?s' c" if "c \<notin> op_addr ` set (ma_pending s)" for c
  proof (cases "c = a \<or> c = b")
    case False
    then have "settled_at s c" using assms(1) that by (simp add: calm_def)
    then show ?thesis using eq False settled_frame by blast
  qed (use ab in blast)
  ultimately have "calm ?s'" using assms(1) unfolding calm_def p by (auto simp: list_all_iff)
  moreover have "list_all (\<lambda>x. \<not> is_retrack x) (ma_pending s)" using assms(1) by (simp add: calm_def)
  moreover have "retrack_mem a b sz tag ((mem_realloc a sz tag (Some b) s)\<lparr>ma_pending := ma_pending s\<rparr>) = ?s'"
    by (simp add: mem_realloc_def retrack_mem_def)
  ultimately show ?thesis unfolding mem_inv_def
    by (intro disjI2 exI [of _ "ma_pending s"] exI [of _ a] exI [of _ b] exI [of _ sz] exI [of _ tag]) (simp add: mem_realloc_def)
qed

lemma calm_exited: "calm (s\<lparr>ma_exited := b\<rparr>) \<longleftrightarrow> calm s"
proof -
  have "pend_ok (s\<lparr>ma_exited := b\<rparr>) x \<longleftrightarrow> pend_ok s x" for x by (cases x) auto
  moreover have "settled_at (s\<lparr>ma_exited := b\<rparr>) a \<longleftrightarrow> settled_at s a" for a
    using settled_frame [of "s\<lparr>ma_exited := b\<rparr>" a s] settled_frame [of s a "s\<lparr>ma_exited := b\<rparr>"] by auto
  ultimately show ?thesis by (simp add: calm_def list_all_iff)
qed

lemma calm_no_retrack: "calm s \<Longrightarrow> x \<in> set (ma_pending s) \<Longrightarrow> \<not> is_retrack x"
  by (auto simp: calm_def list_all_iff)

lemma mem_inv_step:
  assumes "mem_inv s" and "turn_step e s = Some s'"
  shows "mem_inv s'"
proof -
  have st: "quiet_realloc e s" "quiet_finish e s" "mem_step e s = Some s'" using assms(2) by (auto simp: turn_step_def split: if_splits)
  consider (calm) "calm s" | (re) ps a b sz tag where "ma_pending s = ps @ [Retrack a b sz tag]" "list_all (\<lambda>x. \<not> is_retrack x) ps"
      "calm (retrack_mem a b sz tag (s\<lparr>ma_pending := ps\<rparr>))" using assms(1) by (auto simp: mem_inv_def)
  then show ?thesis
  proof cases
    case calm
    have m: "mem_inv (mem_malloc sz tag mem s)" if "\<forall>a \<in> set_option mem. unused a s" for sz tag mem
      using calm_malloc [OF calm] that calm_exited calm by (cases mem) (auto simp: mem_inv_def mem_malloc_def)
    show ?thesis
    proof (cases e)
      case (ERealloc a sz tag mem)
      then have "s' = mem_realloc a sz tag mem s" "owned a s" "\<forall>b \<in> set_option mem. b = a \<or> unused b s"
        using st(3) by (simp_all split: if_splits)
      moreover have "mem_inv (mem_realloc a sz tag None s)" using calm calm_exited by (simp add: mem_inv_def mem_realloc_def)
      ultimately show ?thesis using calm_realloc [OF calm, of a _ sz tag] by (cases mem) auto
    next
      case (EFree a)
      then show ?thesis using st(3) calm_release [OF calm] calm free_is_release
        by (auto simp: mem_inv_def mem_free_def object_destruct_def split: if_splits)
    next
      case (EFinish i)
      then show ?thesis using st(3) calm_finish [OF calm] by (auto simp: mem_inv_def split: if_splits)
    next
      case (EDestruct a)
      then show ?thesis using st(3) calm_release [OF calm] by (auto simp: mem_inv_def split: if_splits)
    qed (use st(3) m in \<open>auto simp: mem_calloc_def object_construct_def split: if_splits\<close>)
  next
    case re
    have "\<not> list_all (\<lambda>x. \<not> is_retrack x) (ma_pending s)" using re(1) by simp
    then obtain i where i: "e = EFinish i" "is_retrack (ma_pending s ! i)" "i < length (ma_pending s)"
      using st by (cases e) (auto split: if_splits)
    have "i = length ps"
    proof (rule ccontr)
      assume "i \<noteq> length ps"
      then have "ma_pending s ! i \<in> set ps" using i(3) re(1) by (simp add: nth_append)
      then show False using i(2) re(2) by (auto simp: list_all_iff)
    qed
    then have "s' = retrack_mem a b sz tag (s\<lparr>ma_pending := ps\<rparr>)" using st(3) i re(1) by (simp add: drop_nth_def split: if_splits)
    then show ?thesis using re(3) by (simp add: mem_inv_def)
  qed
qed

interpretation tracking: inductive_invariant turn_step "\<lambda>s. s = mem_new" mem_inv
proof (unfold_locales, goal_cases)
  case (1 s)
  then show ?case by (simp add: mem_inv_def calm_def mem_new_def settled_at_def)
qed (rule mem_inv_step)

text \<open>
  C39: The table of tracked memory: in a program in which nothing else happens while a reallocation is under way, however its other
  allocations, releases and objects interleave, the table has exactly the live blocks, with their sizes as \<^verbatim>\<open>int\<close>, whenever no call is
  under way; and a block that a call has finished with is in it also in between.
\<close>
theorem memory_table_exact:
  assumes "reach turn_step (\<lambda>s. s = mem_new) s" and "list_all (\<lambda>x. \<not> is_retrack x) (ma_pending s)" and "a \<notin> op_addr ` set (ma_pending s)"
  shows "map_option snd (ma_table s a) = map_option int_size (ma_live s a)"
proof -
  have "calm s" using tracking.holds [OF assms(1)] assms(2) by (auto simp: mem_inv_def)
  then have "settled_at s a" using assms(3) by (simp add: calm_def)
  then show ?thesis by (auto simp: settled_at_def split: option.splits)
qed

theorem memory_table_exact_witness:
  "\<exists>s. run_events turn_step [EMalloc 100 [1] (Some 16), EMalloc 5000000000 [2] (Some 32), EFinish 1, EFinish 0, ERealloc 16 300 [3] (Some 48), EFinish 0, EFree 32, EFinish 0] mem_new = Some s \<and>
    map_option snd (ma_table s 48) = Some 300 \<and> ma_table s 16 = None"
proof -
  let ?es = "[EMalloc 100 [1] (Some 16), EMalloc 5000000000 [2] (Some 32), EFinish 1, EFinish 0, ERealloc 16 300 [3] (Some 48), EFinish 0, EFree 32, EFinish 0]"
  have "\<exists>s. run_events turn_step ?es mem_new = Some s \<and> ma_pending s = [] \<and> ma_live s 48 = Some 300 \<and> ma_live s 16 = None"
    by (simp add: turn_step_def mem_new_def mem_malloc_def unused_def drop_nth_def track_mem_def retrack_mem_def mem_realloc_def owned_def mem_free_def
        untrack_mem_def tbl_insert_def)
  then obtain s where s: "run_events turn_step ?es mem_new = Some s" "ma_pending s = []" "ma_live s 48 = Some 300" "ma_live s 16 = None" by blast
  have "reach turn_step (\<lambda>s. s = mem_new) s" using s(1) by (rule reach_run [rotated]) simp
  from memory_table_exact [OF this, of 48] memory_table_exact [OF this, of 16] s show ?thesis by (simp add: int_size_def)
qed

text \<open>
  Reallocation races with allocation: between the library's \<^verbatim>\<open>realloc\<close>, which gives a block back, and the update of the table, another
  thread can be given that block; its entry is then not inserted, because the old one is still there, and the update removes
  the old one, so a live block is missing from the table although no call is under way.
\<close>
theorem realloc_race_loses_block:
  "\<exists>es s. run_events mem_step es mem_new = Some s \<and> ma_pending s = [] \<and> ma_live s 16 = Some 8 \<and> ma_table s 16 = None"
proof -
  let ?es = "[EMalloc 100 [1] (Some 16), EFinish 0, ERealloc 16 300 [3] (Some 48), EMalloc 8 [2] (Some 16), EFinish 1, EFinish 0]"
  have "\<exists>s. run_events mem_step ?es mem_new = Some s \<and> ma_pending s = [] \<and> ma_live s 16 = Some 8 \<and> ma_table s 16 = None"
    by (simp add: mem_new_def mem_malloc_def unused_def drop_nth_def track_mem_def retrack_mem_def mem_realloc_def owned_def tbl_insert_def)
  then show ?thesis by blast
qed

end
