(* ===== verification/MemBuilds.thy ===== *)
theory MemBuilds
  imports MemAlloc
begin

text \<open>
  The allocator of \<^verbatim>\<open>src/zbf/mem_alloc.hpp\<close> without \<^verbatim>\<open>ZBF_TRACE_MEMORY\<close>: the calls of the library alone, and an \<^verbatim>\<open>object_tracker\<close>
  without members.  Shown: the build with the table simulates it, whatever the threads do, so a program cannot tell them apart by
  the blocks it gets; the table is the only difference.
\<close>

record plain_mem =
  pm_live :: "addr \<Rightarrow> u64 option"
  pm_exited :: bool

definition plain_new :: plain_mem where
  "plain_new = \<lparr>pm_live = Map.empty, pm_exited = False\<rparr>"

definition plain_malloc :: "u64 \<Rightarrow> addr option \<Rightarrow> plain_mem \<Rightarrow> plain_mem" where
  "plain_malloc sz mem s = (case mem of None \<Rightarrow> s\<lparr>pm_exited := True\<rparr> | Some a \<Rightarrow> s\<lparr>pm_live := (pm_live s)(a \<mapsto> sz)\<rparr>)"

definition plain_realloc :: "addr \<Rightarrow> u64 \<Rightarrow> addr option \<Rightarrow> plain_mem \<Rightarrow> plain_mem" where
  "plain_realloc mem sz new_mem s =
    (case new_mem of None \<Rightarrow> s\<lparr>pm_exited := True\<rparr> | Some a \<Rightarrow> s\<lparr>pm_live := (pm_live s)(mem := None, a \<mapsto> sz)\<rparr>)"

definition plain_calloc :: "u64 \<Rightarrow> u64 \<Rightarrow> addr option \<Rightarrow> plain_mem \<Rightarrow> plain_mem" where
  "plain_calloc n sz mem s = (case mem of None \<Rightarrow> s\<lparr>pm_exited := True\<rparr> | Some a \<Rightarrow> s\<lparr>pm_live := (pm_live s)(a \<mapsto> n * sz)\<rparr>)"

definition plain_free :: "addr \<Rightarrow> plain_mem \<Rightarrow> plain_mem" where
  "plain_free mem s = (if mem = 0 then s else s\<lparr>pm_live := (pm_live s)(mem := None)\<rparr>)"

text \<open>Objects take and give back their memory with \<^verbatim>\<open>new\<close> and \<^verbatim>\<open>delete\<close>; no call has a second step.\<close>

fun plain_step :: "mem_event \<Rightarrow> plain_mem \<Rightarrow> plain_mem option" where
  "plain_step (EMalloc sz tag mem) s =
    (if \<not> pm_exited s \<and> (\<forall>a \<in> set_option mem. a \<noteq> 0 \<and> pm_live s a = None) then Some (plain_malloc sz mem s) else None)"
| "plain_step (ECalloc n sz tag mem) s =
    (if \<not> pm_exited s \<and> (\<forall>a \<in> set_option mem. a \<noteq> 0 \<and> pm_live s a = None) then Some (plain_calloc n sz mem s) else None)"
| "plain_step (ERealloc a sz tag mem) s =
    (if \<not> pm_exited s \<and> a \<noteq> 0 \<and> pm_live s a \<noteq> None \<and> (\<forall>b \<in> set_option mem. b = a \<or> b \<noteq> 0 \<and> pm_live s b = None)
     then Some (plain_realloc a sz mem s) else None)"
| "plain_step (EFree a) s = (if \<not> pm_exited s \<and> (a = 0 \<or> pm_live s a \<noteq> None) then Some (plain_free a s) else None)"
| "plain_step (EConstruct a sz name) s = (if \<not> pm_exited s \<and> a \<noteq> 0 \<and> pm_live s a = None then Some (s\<lparr>pm_live := (pm_live s)(a \<mapsto> sz)\<rparr>) else None)"
| "plain_step (EDestruct a) s = (if \<not> pm_exited s \<and> a \<noteq> 0 \<and> pm_live s a \<noteq> None then Some (s\<lparr>pm_live := (pm_live s)(a := None)\<rparr>) else None)"
| "plain_step (EFinish i) s = None"

fun visible :: "mem_event \<Rightarrow> bool" where
  "visible (EFinish i) = False"
| "visible _ = True"

text \<open>A block whose release is under way is already given up by the program.\<close>

definition untracked :: "mem_state \<Rightarrow> plain_mem" where
  "untracked s = \<lparr>pm_live = (\<lambda>a. if Release a \<in> set (ma_pending s) then None else ma_live s a), pm_exited = ma_exited s\<rparr>"

fun is_release :: "pending_op \<Rightarrow> bool" where
  "is_release (Release a) = True"
| "is_release _ = False"

definition releases_ok :: "mem_state \<Rightarrow> bool" where
  "releases_ok s \<longleftrightarrow> distinct (filter is_release (ma_pending s)) \<and> (\<forall>a. Release a \<in> set (ma_pending s) \<longrightarrow> ma_live s a \<noteq> None)"

lemma owned_not_released: "owned a s \<Longrightarrow> Release a \<notin> set (ma_pending s)"
  by (force simp: owned_def)

lemma unused_not_released: "releases_ok s \<Longrightarrow> unused a s \<Longrightarrow> Release a \<notin> set (ma_pending s)"
  by (auto simp: releases_ok_def unused_def)

lemma run_pending_cases:
  "ma_pending (run_pending x s) = ma_pending s" "ma_exited (run_pending x s) = ma_exited s"
  "ma_live (run_pending x s) = (case x of Release a \<Rightarrow> (ma_live s)(a := None) | _ \<Rightarrow> ma_live s)"
  by (cases x; simp add: track_mem_def retrack_mem_def)+

lemma finish_sim:
  assumes "releases_ok s" "i < length (ma_pending s)" "s' = run_pending (ma_pending s ! i) (s\<lparr>ma_pending := drop_nth i (ma_pending s)\<rparr>)"
  shows "releases_ok s' \<and> untracked s' = untracked s"
proof -
  obtain ys zs where p: "ma_pending s = ys @ ma_pending s ! i # zs" "drop_nth i (ma_pending s) = ys @ zs" using split_nth [OF assms(2)] .
  have s': "ma_pending s' = ys @ zs" "ma_exited s' = ma_exited s"
    "ma_live s' = (case ma_pending s ! i of Release a \<Rightarrow> (ma_live s)(a := None) | _ \<Rightarrow> ma_live s)"
    using p(2) by (simp_all add: assms(3) run_pending_cases split: pending_op.split)
  have d: "distinct (filter is_release (ys @ ma_pending s ! i # zs))" "\<And>a. Release a \<in> set (ys @ ma_pending s ! i # zs) \<Longrightarrow> ma_live s a \<noteq> None"
    using assms(1) p(1) unfolding releases_ok_def by metis+
  have m: "set (ma_pending s) = set (ys @ ma_pending s ! i # zs)" using p(1) by metis
  show ?thesis
    using d unfolding releases_ok_def untracked_def s' m by (cases "ma_pending s ! i") (auto simp: fun_eq_iff)
qed

lemma sim_unused: "releases_ok s \<Longrightarrow> unused a s \<Longrightarrow> a \<noteq> 0 \<and> pm_live (untracked s) a = None"
  by (simp add: unused_def untracked_def)

lemma sim_owned: "owned a s \<Longrightarrow> a \<noteq> 0 \<and> pm_live (untracked s) a \<noteq> None"
  using owned_not_released [of a s] by (simp add: owned_def untracked_def)

lemma sim_exited: "pm_exited (untracked s) = ma_exited s" "untracked (s\<lparr>ma_exited := b\<rparr>) = (untracked s)\<lparr>pm_exited := b\<rparr>"
    "releases_ok (s\<lparr>ma_exited := b\<rparr>) = releases_ok s"
  by (simp_all add: untracked_def releases_ok_def fun_eq_iff)

lemma sim_malloc:
  assumes "releases_ok s" "unused a s"
  shows "releases_ok (mem_malloc sz tag (Some a) s)"
    "untracked (mem_malloc sz tag (Some a) s) = (untracked s)\<lparr>pm_live := (pm_live (untracked s))(a \<mapsto> sz)\<rparr>"
  using assms unused_not_released [OF assms] by (auto simp: mem_malloc_def releases_ok_def untracked_def fun_eq_iff)

lemma sim_realloc:
  assumes "releases_ok s" "owned a s" "b = a \<or> unused b s"
  shows "releases_ok (mem_realloc a sz tag (Some b) s)"
    "untracked (mem_realloc a sz tag (Some b) s) = (untracked s)\<lparr>pm_live := (pm_live (untracked s))(a := None, b \<mapsto> sz)\<rparr>"
  using assms owned_not_released [OF assms(2)] unused_not_released [OF assms(1), of b]
  by (auto simp: mem_realloc_def releases_ok_def untracked_def fun_eq_iff)

lemma sim_release:
  assumes "releases_ok s" "owned a s"
  shows "releases_ok (object_destruct a s)" "untracked (object_destruct a s) = (untracked s)\<lparr>pm_live := (pm_live (untracked s))(a := None)\<rparr>"
  using assms owned_not_released [OF assms(2)] by (auto simp: object_destruct_def untrack_mem_def releases_ok_def untracked_def owned_def fun_eq_iff)

lemma step_sim:
  assumes "releases_ok s" "mem_step e s = Some s'"
  shows "releases_ok s' \<and> (if visible e then plain_step e (untracked s) = Some (untracked s') else untracked s' = untracked s)"
proof (cases e)
  case (EMalloc sz tag mem)
  then show ?thesis using assms sim_malloc [OF assms(1)] sim_unused [OF assms(1)]
    by (cases mem) (auto simp: plain_malloc_def mem_malloc_def [of _ _ None] sim_exited split: if_splits)
next
  case (ECalloc n sz tag mem)
  then show ?thesis using assms sim_malloc [OF assms(1)] sim_unused [OF assms(1)]
    by (cases mem) (auto simp: plain_calloc_def mem_calloc_def mem_malloc_def [of _ _ None] sim_exited split: if_splits)
next
  case (ERealloc a sz tag mem)
  then show ?thesis using assms sim_realloc [OF assms(1)] sim_unused [OF assms(1)] sim_owned [of a s]
    by (cases mem) (auto simp: plain_realloc_def mem_realloc_def [of _ _ _ None] sim_exited unused_def split: if_splits)
next
  case (EFree a)
  then show ?thesis using assms sim_release [OF assms(1)] sim_owned [of a s]
    by (cases "a = 0") (auto simp: plain_free_def mem_free_def [of 0] free_is_release sim_exited split: if_splits)
next
  case (EConstruct a sz name)
  then show ?thesis using assms sim_malloc [OF assms(1)] sim_unused [OF assms(1)]
    by (auto simp: object_construct_def sim_exited split: if_splits)
next
  case (EDestruct a)
  then show ?thesis using assms sim_release [OF assms(1)] sim_owned [of a s] by (auto simp: sim_exited split: if_splits)
next
  case (EFinish i)
  then show ?thesis using assms(2) finish_sim [OF assms(1) _ refl] by (auto split: if_splits)
qed

interpretation builds: forward_simulation mem_step releases_ok visible plain_step untracked
  by unfold_locales (use step_sim in \<open>metis+\<close>)

text \<open>
  C37: Tracking memory changes nothing a program can see: whatever allocations, reallocations, releases and objects its threads interleave, and
  whenever the table is updated in between, the build without the table accepts the same calls with the same blocks, and has the same
  blocks live (a block whose release is under way is given up) and the same end of the process.
\<close>
theorem memory_builds_agree:
  assumes "run_events mem_step es mem_new = Some s"
  shows "run_events plain_step (filter visible es) plain_new = Some (untracked s) \<and> (ma_pending s = [] \<longrightarrow> pm_live (untracked s) = ma_live s)"
proof -
  have "releases_ok mem_new" "untracked mem_new = plain_new"
    by (simp_all add: releases_ok_def untracked_def mem_new_def plain_new_def)
  then have "run_events plain_step (filter visible es) plain_new = Some (untracked s)"
    using builds.simulates [OF _ assms] by metis
  then show ?thesis by (simp add: untracked_def)
qed

theorem memory_builds_agree_witness:
  "\<exists>s. run_events mem_step [EMalloc 100 [1] (Some 16), EFinish 0, ERealloc 16 300 [3] (Some 48), EMalloc 8 [2] (Some 16), EFinish 1, EFinish 0] mem_new = Some s \<and>
    run_events plain_step [EMalloc 100 [1] (Some 16), ERealloc 16 300 [3] (Some 48), EMalloc 8 [2] (Some 16)] plain_new = Some (untracked s) \<and>
    pm_live (untracked s) = ma_live s"
proof -
  let ?es = "[EMalloc 100 [1] (Some 16), EFinish 0, ERealloc 16 300 [3] (Some 48), EMalloc 8 [2] (Some 16), EFinish 1, EFinish 0]"
  have "\<exists>s. run_events mem_step ?es mem_new = Some s \<and> ma_pending s = []"
    by (simp add: mem_new_def mem_malloc_def unused_def drop_nth_def track_mem_def retrack_mem_def mem_realloc_def owned_def tbl_insert_def)
  then obtain s where "run_events mem_step ?es mem_new = Some s" "ma_pending s = []" by blast
  then show ?thesis using memory_builds_agree [of ?es s] by simp
qed

end
