(* ===== verification/LogUtils.thy ===== *)
theory LogUtils
  imports Prelude EventSystem
begin

text \<open>
  The logger of \<^verbatim>\<open>src/zbf/log_utils.hpp\<close> and \<^verbatim>\<open>src/zbf/signal_utils.hpp\<close>.  A message is put together in a buffer of fixed size at a
  moving offset; the time of day is formatted once per second and kept.  The conversion of a second to local
  time, the clock, thread and process numbers, and what opening a file does are arguments.  A write outside
  the buffer is the value \<open>None\<close>.  The theorems compare the logger with one that has neither buffer nor cache.
\<close>

section \<open>Strings of C\<close>

definition cstr :: "bytes \<Rightarrow> bytes" where
  "cstr = takeWhile (\<lambda>b. b \<noteq> 0)"

definition pad_zeros :: "nat \<Rightarrow> bytes \<Rightarrow> bytes" where
  "pad_zeros w ds = replicate (w - length ds) 48 @ ds"

text \<open>The conversions \<^verbatim>\<open>%0wd\<close> and \<^verbatim>\<open>%0wld\<close>.\<close>

definition fmt_d :: "nat \<Rightarrow> int \<Rightarrow> bytes" where
  "fmt_d w i = (if i < 0 then 45 # pad_zeros (w - 1) (to_string (nat (- i))) else pad_zeros w (to_string (nat i)))"

definition memcpy_at :: "nat \<Rightarrow> bytes \<Rightarrow> bytes \<Rightarrow> bytes option" where
  "memcpy_at at bs buf = (if at + length bs \<le> length buf then Some (take at buf @ bs @ drop (at + length bs) buf) else None)"

text \<open>
  \<^verbatim>\<open>snprintf(buf + at, sizeof(buf) - at, ...)\<close> writes what fits and a final zero, and returns the length of the whole text;
  beyond the end of the buffer the size wraps around.
\<close>

definition snprintf_at :: "nat \<Rightarrow> bytes \<Rightarrow> bytes \<Rightarrow> (bytes \<times> nat) option" where
  "snprintf_at at s buf =
    (if at > length buf then None
     else if at = length buf then Some (buf, length s)
     else map_option (\<lambda>b. (b, length s)) (memcpy_at at (take (length buf - at - 1) s @ [0]) buf))"

section \<open>The logger\<close>

definition Fatal :: u32 where "Fatal = 0"
definition Check :: u32 where "Check = 1"
definition Error :: u32 where "Error = 2"
definition Warn :: u32 where "Warn = 3"
definition Info :: u32 where "Info = 4"
definition Debug :: u32 where "Debug = 5"
definition Trace :: u32 where "Trace = 6"
definition TraceMore :: u32 where "TraceMore = 7"

record log_utils =
  log_level :: u32
  enable_check :: bool
  log_file :: "bytes option"
  log_disk :: "bytes \<Rightarrow> bytes"
  log_stdout :: bytes
  thd2id :: "int \<Rightarrow> 16 word option"
  lastTimeSec :: int
  cachedTimeStr :: bytes
  cachedTimeLen :: nat

definition log_utils_init :: "(bytes \<Rightarrow> bytes) \<Rightarrow> log_utils" where
  "log_utils_init d = \<lparr>log_level = Trace, enable_check = False, log_file = None, log_disk = d, log_stdout = [], thd2id = Map.empty,
     lastTimeSec = 0, cachedTimeStr = replicate 32 0, cachedTimeLen = 0\<rparr>"

definition levelDesc :: "u32 \<Rightarrow> bytes" where
  "levelDesc level = lit
    (if level = Debug then ''[Debug]'' else if level = Error then ''[Error]'' else if level = Info then ''[ Info]''
     else if level = Warn then ''[ Warn]'' else if level = Trace then ''[Trace]'' else if level = TraceMore then ''[ More]''
     else if level = Check then ''[Check]'' else if level = Fatal then ''[Fatal]'' else ''[Trace]'')"

text \<open>\<open>localtime sec\<close> is the text that \<^verbatim>\<open>strftime\<close> has for a second; it is stored when it fits with its final zero.\<close>

definition strftime :: "(int \<Rightarrow> bytes) \<Rightarrow> nat \<Rightarrow> int \<Rightarrow> bytes" where
  "strftime localtime maxsize sec = (let t = localtime sec in if length t < maxsize then t else [])"

definition refresh_time :: "(int \<Rightarrow> bytes) \<Rightarrow> int \<Rightarrow> log_utils \<Rightarrow> log_utils" where
  "refresh_time localtime sec s =
    (if sec \<noteq> lastTimeSec s
     then let t = strftime localtime 32 sec
       in s\<lparr>cachedTimeStr := t @ drop (length t) (cachedTimeStr s), cachedTimeLen := length t, lastTimeSec := sec\<rparr>
     else s)"

definition time_part :: "(int \<Rightarrow> bytes) \<Rightarrow> (int \<times> int) option \<Rightarrow> bytes \<times> nat \<times> log_utils \<Rightarrow> (bytes \<times> nat \<times> log_utils) option" where
  "time_part localtime clock = (\<lambda>(szText, len, s).
    case clock of
      None \<Rightarrow> Some (szText, len, s)
    | Some (sec, nsec) \<Rightarrow> do {
        let s = refresh_time localtime sec s;
        szText \<leftarrow> memcpy_at len (take (cachedTimeLen s) (cachedTimeStr s)) szText;
        let len = len + cachedTimeLen s;
        (szText, n) \<leftarrow> snprintf_at len (lit ''.'' @ fmt_d 3 (nsec div 1000000) @ lit '' '') szText;
        Some (szText, len + n, s)
      })"

definition szTextSize :: nat where "szTextSize = 2048"

definition log_line :: "(int \<Rightarrow> bytes) \<Rightarrow> u32 \<Rightarrow> (int \<times> int) option \<Rightarrow> int \<Rightarrow> bytes \<Rightarrow> log_utils \<Rightarrow> (bytes \<times> log_utils) option" where
  "log_line localtime level clock tid text s = do {
    let title = levelDesc level;
    szText \<leftarrow> memcpy_at 0 title (replicate szTextSize 0);
    szText \<leftarrow> memcpy_at (length title) [32] szText;
    (szText, len, s) \<leftarrow> time_part localtime clock (szText, length title + 1, s);
    (szText, n) \<leftarrow> snprintf_at len (fmt_d 7 tid @ lit '' '') szText;
    (szText, _) \<leftarrow> snprintf_at (len + n) text szText;
    Some (cstr szText, s)
  }"

definition print_line :: "bool \<Rightarrow> bytes \<Rightarrow> log_utils \<Rightarrow> log_utils" where
  "print_line debug_build line s =
    (let out = line @ [10];
         s = (case log_file s of None \<Rightarrow> s | Some p \<Rightarrow> s\<lparr>log_disk := (log_disk s)(p := log_disk s p @ out)\<rparr>)
     in if debug_build then s\<lparr>log_stdout := log_stdout s @ out\<rparr> else s)"

definition log_log :: "(int \<Rightarrow> bytes) \<Rightarrow> bool \<Rightarrow> u32 \<Rightarrow> (int \<times> int) option \<Rightarrow> int \<Rightarrow> bytes \<Rightarrow> log_utils \<Rightarrow> log_utils option" where
  "log_log localtime debug_build level clock tid text s =
    (if level > log_level s then Some s
     else map_option (\<lambda>(line, s). print_line debug_build line s) (log_line localtime level clock tid text s))"

definition SHORT_FILENAME :: "bytes \<Rightarrow> bytes" where
  "SHORT_FILENAME x = rev (takeWhile (\<lambda>c. c \<noteq> 47) (rev x))"

definition win_SHORT_FILENAME :: "bytes \<Rightarrow> bytes" where
  "win_SHORT_FILENAME x = (if 47 \<in> set x then SHORT_FILENAME x else rev (takeWhile (\<lambda>c. c \<noteq> 92) (rev x)))"

text \<open>A place of the source that logs: the name of the file and the line.\<close>

type_synonym place = "bytes \<times> nat"

definition log_text :: "place \<Rightarrow> bytes \<Rightarrow> bytes" where
  "log_text pl msg = SHORT_FILENAME (fst pl) @ lit '' '' @ to_string (snd pl) @ lit '': '' @ msg"

definition LOG_MSG :: "(int \<Rightarrow> bytes) \<Rightarrow> bool \<Rightarrow> u32 \<Rightarrow> place \<Rightarrow> bytes \<Rightarrow> (int \<times> int) option \<Rightarrow> int \<Rightarrow> log_utils \<Rightarrow> log_utils option" where
  "LOG_MSG localtime debug_build level pl msg clock tid s = log_log localtime debug_build level clock tid (log_text pl msg) s"

definition LOG_CHK_MSG :: "(int \<Rightarrow> bytes) \<Rightarrow> bool \<Rightarrow> place \<Rightarrow> bytes \<Rightarrow> (int \<times> int) option \<Rightarrow> int \<Rightarrow> log_utils \<Rightarrow> log_utils option" where
  "LOG_CHK_MSG localtime debug_build pl msg clock tid s =
    (if enable_check s then LOG_MSG localtime debug_build Check pl msg clock tid s else Some s)"

definition fopen_log :: "bytes \<Rightarrow> bool \<Rightarrow> log_utils \<Rightarrow> log_utils" where
  "fopen_log path trunc s =
    s\<lparr>log_file := Some path, log_disk := (if trunc then (log_disk s)(path := []) else log_disk s)\<rparr>"

definition open_msg :: "bytes \<Rightarrow> u32 \<Rightarrow> bytes" where
  "open_msg path level = lit ''logger open, path='' @ path @ lit '', level='' @ levelDesc level"

definition log_open :: "(int \<Rightarrow> bytes) \<Rightarrow> bool \<Rightarrow> bool \<Rightarrow> bytes option \<Rightarrow> u32 \<Rightarrow> bool \<Rightarrow> (int \<times> int) option \<Rightarrow> int \<Rightarrow> log_utils \<Rightarrow> (int \<times> log_utils) option" where
  "log_open localtime debug_build opens path level trunc clock tid s =
    (if log_file s \<noteq> None then Some (1, s)
     else case path of
       None \<Rightarrow> Some (- 1, s)
     | Some p \<Rightarrow>
         if \<not> opens then Some (- 2, s)
         else map_option (Pair 0)
           (LOG_MSG localtime debug_build Info (lit ''log_utils.hpp'', 154) (open_msg p level) clock tid
             (fopen_log p trunc s\<lparr>log_level := level\<rparr>)))"

definition log_close :: "(int \<Rightarrow> bytes) \<Rightarrow> bool \<Rightarrow> (int \<times> int) option \<Rightarrow> int \<Rightarrow> log_utils \<Rightarrow> log_utils option" where
  "log_close localtime debug_build clock tid s =
    map_option (\<lambda>s. s\<lparr>log_file := None\<rparr>)
      (LOG_MSG localtime debug_build Info (lit ''log_utils.hpp'', 159) (lit ''logger close'') clock tid s)"

definition enableChkLog :: "bool \<Rightarrow> log_utils \<Rightarrow> log_utils" where
  "enableChkLog enable s = s\<lparr>enable_check := enable\<rparr>"

definition registerThreadId :: "int \<Rightarrow> 16 word \<Rightarrow> log_utils \<Rightarrow> log_utils" where
  "registerThreadId tid sid s = s\<lparr>thd2id := (thd2id s)(tid \<mapsto> sid)\<rparr>"

definition getShortId :: "int \<Rightarrow> log_utils \<Rightarrow> int" where
  "getShortId tid s = (case thd2id s tid of Some sid \<Rightarrow> sint sid | None \<Rightarrow> 0)"

text \<open>
  \<open>link\<close> is the target of \<^verbatim>\<open>/proc/self/exe\<close>, of which \<^verbatim>\<open>readlink\<close> stores at most \<^verbatim>\<open>PATH_MAX\<close> bytes without a final zero; the string
  is then read from a buffer of that size.
\<close>

definition PATH_MAX :: nat where "PATH_MAX = 4096"

definition getModulePath :: "bytes option \<Rightarrow> bytes option" where
  "getModulePath link =
    (case link of
       None \<Rightarrow> Some []
     | Some l \<Rightarrow>
         let szFilePath = take PATH_MAX l @ replicate (PATH_MAX - length l) 0
         in if min (length l) PATH_MAX = 0 then Some [] else if 0 \<in> set szFilePath then Some (cstr szFilePath) else None)"

lemma PATH_MAX_pos [simp]: "0 < PATH_MAX"
  by (simp add: PATH_MAX_def)

definition createLogPath :: "bytes option \<Rightarrow> nat \<Rightarrow> bool \<Rightarrow> bytes option" where
  "createLogPath link pid appendPid =
    map_option (\<lambda>p. if appendPid then p @ lit ''-'' @ to_string pid @ lit ''.log'' else p @ lit ''.log'') (getModulePath link)"

section \<open>Signals\<close>

text \<open>\<open>accepts\<close> says for which signals \<^verbatim>\<open>::signal\<close> succeeds; its result is not looked at.\<close>

datatype disposition = SIG_DFL | SIG_IGN | SIGNAL_HANDLER nat

type_synonym dispositions = "int \<Rightarrow> disposition"

definition sys_signal :: "(int \<Rightarrow> bool) \<Rightarrow> int \<Rightarrow> disposition \<Rightarrow> dispositions \<Rightarrow> dispositions" where
  "sys_signal accepts sig h t = (if accepts sig then t(sig := h) else t)"

definition handleSignal :: "(int \<Rightarrow> bool) \<Rightarrow> nat \<Rightarrow> int \<Rightarrow> dispositions \<Rightarrow> dispositions" where
  "handleSignal accepts onSignal sig t = sys_signal accepts sig (SIGNAL_HANDLER onSignal) t"

definition handleSignals :: "(int \<Rightarrow> bool) \<Rightarrow> nat \<Rightarrow> int list \<Rightarrow> dispositions \<Rightarrow> dispositions" where
  "handleSignals accepts onSignal sigs t = fold (handleSignal accepts onSignal) sigs t"

text \<open>On Windows \<^verbatim>\<open>SIGPIPE\<close> stands for no signal and is defined as zero.\<close>

definition ignoreSignal :: "bool \<Rightarrow> (int \<Rightarrow> bool) \<Rightarrow> int \<Rightarrow> dispositions \<Rightarrow> dispositions" where
  "ignoreSignal win accepts sig t = (if win \<and> sig = 0 then t else sys_signal accepts sig SIG_IGN t)"

definition ignoreSignals :: "bool \<Rightarrow> (int \<Rightarrow> bool) \<Rightarrow> int list \<Rightarrow> dispositions \<Rightarrow> dispositions" where
  "ignoreSignals win accepts sigs t = fold (ignoreSignal win accepts) sigs t"

definition strsignal :: "bool \<Rightarrow> (int \<Rightarrow> bytes option) \<Rightarrow> int \<Rightarrow> bytes" where
  "strsignal win desc sig =
    (case if win then None else desc sig of Some d \<Rightarrow> d | None \<Rightarrow> lit ''signal '' @ to_string_int sig)"

lemma handleSignals_table: "handleSignals accepts h sigs t s = (if s \<in> set sigs \<and> accepts s then SIGNAL_HANDLER h else t s)"
  by (induction sigs arbitrary: t) (auto simp: handleSignals_def handleSignal_def sys_signal_def)

lemma ignoreSignals_table:
  "ignoreSignals win accepts sigs t s = (if s \<in> set sigs \<and> accepts s \<and> \<not> (win \<and> s = 0) then SIG_IGN else t s)"
  by (induction sigs arbitrary: t) (auto simp: ignoreSignals_def ignoreSignal_def sys_signal_def)

section \<open>Calls of the logger\<close>

text \<open>The calls of a program, each with the clock and the thread it meets.\<close>

datatype log_call =
    CLog u32 place bytes "(int \<times> int) option" int
  | CCheck place bytes "(int \<times> int) option" int
  | COpen bool "bytes option" u32 bool "(int \<times> int) option" int
  | CClose "(int \<times> int) option" int
  | CEnable bool
  | CRegister int "16 word"

fun log_step :: "(int \<Rightarrow> bytes) \<Rightarrow> bool \<Rightarrow> log_call \<Rightarrow> log_utils \<Rightarrow> log_utils option" where
  "log_step lt db (CLog level pl msg clock tid) s = LOG_MSG lt db level pl msg clock tid s"
| "log_step lt db (CCheck pl msg clock tid) s = LOG_CHK_MSG lt db pl msg clock tid s"
| "log_step lt db (COpen opens path level trunc clock tid) s = map_option snd (log_open lt db opens path level trunc clock tid s)"
| "log_step lt db (CClose clock tid) s = log_close lt db clock tid s"
| "log_step lt db (CEnable enable) s = Some (enableChkLog enable s)"
| "log_step lt db (CRegister tid sid) s = Some (registerThreadId tid sid s)"

text \<open>The logger without a buffer and without a cache.\<close>

definition ref_prefix :: "(int \<Rightarrow> bytes) \<Rightarrow> u32 \<Rightarrow> (int \<times> int) option \<Rightarrow> int \<Rightarrow> bytes" where
  "ref_prefix lt level clock tid =
    levelDesc level @ lit '' '' @
    (case clock of None \<Rightarrow> [] | Some (sec, nsec) \<Rightarrow> strftime lt 32 sec @ lit ''.'' @ fmt_d 3 (nsec div 1000000) @ lit '' '') @
    fmt_d 7 tid @ lit '' ''"

definition ref_line :: "(int \<Rightarrow> bytes) \<Rightarrow> u32 \<Rightarrow> (int \<times> int) option \<Rightarrow> int \<Rightarrow> bytes \<Rightarrow> bytes" where
  "ref_line lt level clock tid text =
    (let p = ref_prefix lt level clock tid in p @ take (2047 - length p) (cstr text))"

definition ref_log :: "(int \<Rightarrow> bytes) \<Rightarrow> bool \<Rightarrow> u32 \<Rightarrow> place \<Rightarrow> bytes \<Rightarrow> (int \<times> int) option \<Rightarrow> int \<Rightarrow> log_utils \<Rightarrow> log_utils" where
  "ref_log lt db level pl msg clock tid s =
    (if level > log_level s then s else print_line db (ref_line lt level clock tid (log_text pl msg)) s)"

fun ref_step :: "(int \<Rightarrow> bytes) \<Rightarrow> bool \<Rightarrow> log_call \<Rightarrow> log_utils \<Rightarrow> log_utils" where
  "ref_step lt db (CLog level pl msg clock tid) s = ref_log lt db level pl msg clock tid s"
| "ref_step lt db (CCheck pl msg clock tid) s = (if enable_check s then ref_log lt db Check pl msg clock tid s else s)"
| "ref_step lt db (COpen opens path level trunc clock tid) s =
    (if log_file s = None \<and> path \<noteq> None \<and> opens
     then ref_log lt db Info (lit ''log_utils.hpp'', 154) (open_msg (the path) level) clock tid
       (fopen_log (the path) trunc s\<lparr>log_level := level\<rparr>)
     else s)"
| "ref_step lt db (CClose clock tid) s =
    (ref_log lt db Info (lit ''log_utils.hpp'', 159) (lit ''logger close'') clock tid s)\<lparr>log_file := None\<rparr>"
| "ref_step lt db (CEnable enable) s = s\<lparr>enable_check := enable\<rparr>"
| "ref_step lt db (CRegister tid sid) s = s\<lparr>thd2id := (thd2id s)(tid \<mapsto> sid)\<rparr>"

definition forget :: "log_utils \<Rightarrow> log_utils" where
  "forget s = s\<lparr>lastTimeSec := 0, cachedTimeStr := replicate 32 0, cachedTimeLen := 0\<rparr>"

text \<open>What the system gives: a nanosecond part below one second, a thread number of type \<^verbatim>\<open>int\<close>; the clock is past its first second.\<close>

definition sys_ok :: "(int \<times> int) option \<Rightarrow> int \<Rightarrow> bool" where
  "sys_ok clock tid \<longleftrightarrow> (\<forall>(sec, nsec) \<in> set_option clock. sec \<noteq> 0 \<and> 0 \<le> nsec \<and> nsec < 1000000000) \<and> - (2 ^ 31) \<le> tid \<and> tid < 2 ^ 31"

fun call_ok :: "log_call \<Rightarrow> bool" where
  "call_ok (CLog level pl msg clock tid) = sys_ok clock tid"
| "call_ok (CCheck pl msg clock tid) = sys_ok clock tid"
| "call_ok (COpen opens path level trunc clock tid) = sys_ok clock tid"
| "call_ok (CClose clock tid) = sys_ok clock tid"
| "call_ok (CEnable enable) = True"
| "call_ok (CRegister tid sid) = True"

section \<open>The buffer\<close>

definition szbuf :: "bytes \<Rightarrow> bytes" where
  "szbuf p = p @ replicate (szTextSize - length p) 0"

lemma length_szbuf: "length p \<le> szTextSize \<Longrightarrow> length (szbuf p) = szTextSize"
  by (simp add: szbuf_def)

lemma szbuf_empty: "replicate szTextSize 0 = szbuf []"
  by (simp add: szbuf_def)

lemma memcpy_szbuf: "at = length p \<Longrightarrow> at + length bs \<le> szTextSize \<Longrightarrow> memcpy_at at bs (szbuf p) = Some (szbuf (p @ bs))"
  by (simp add: memcpy_at_def length_szbuf) (simp add: szbuf_def)

lemma snprintf_szbuf:
  assumes "at = length p" "at + length s < szTextSize"
  shows "snprintf_at at s (szbuf p) = Some (szbuf (p @ s), length s)"
proof -
  have "replicate (szTextSize - length (p @ s)) 0 = 0 # replicate (szTextSize - length (p @ s @ [0])) (0::byte)"
    using assms by (cases "szTextSize - length (p @ s)") (auto simp: Suc_diff_Suc)
  then have "szbuf (p @ s @ [0]) = szbuf (p @ s)"
    by (simp add: szbuf_def)
  then show ?thesis
    using assms memcpy_szbuf [of at p "s @ [0]"] by (simp add: snprintf_at_def length_szbuf)
qed

lemma snprintf_szbuf_cut:
  assumes "at = length p" "at < szTextSize"
  shows "\<exists>n. snprintf_at at s (szbuf p) = Some (szbuf (p @ take (szTextSize - 1 - at) s @ [0]), n)"
  using assms by (simp add: snprintf_at_def length_szbuf memcpy_szbuf)

lemma takeWhile_take_comm: "takeWhile P (take n xs) = take n (takeWhile P xs)"
  by (induction xs arbitrary: n) (auto simp: take_Cons split: nat.splits)

lemma cstr_szbuf: "0 \<notin> set p \<Longrightarrow> cstr (szbuf (p @ take n s @ [0])) = p @ take n (cstr s)"
  by (simp add: szbuf_def cstr_def takeWhile_append flip: takeWhile_take_comm) (auto simp: takeWhile_eq_all_conv [THEN iffD2])

section \<open>The pieces of a line\<close>

lemma length_levelDesc [simp]: "length (levelDesc level) = 7"
  by (simp add: levelDesc_def)

lemma levelDesc_nonzero: "0 \<notin> set (levelDesc level)"
  by (simp add: levelDesc_def lit_def)

lemma digit_nonzero: "d < 16 \<Longrightarrow> digit d \<noteq> 0"
  by (auto simp: digit_def word_of_nat_eq_0_iff dest!: dvd_imp_le)

lemma digits_nonzero: "2 \<le> base \<Longrightarrow> base \<le> 16 \<Longrightarrow> 0 \<notin> set (digits base n)"
proof (induction base n rule: digits.induct)
  case (1 base n)
  then show ?case
    using digit_nonzero [of n] digit_nonzero [of "n mod base"]
    by (simp add: digits.simps [of base n] less_le_trans [OF mod_less_divisor] le_less_trans [of "n mod base" n])
qed

lemma fmt_d_nonzero: "0 \<notin> set (fmt_d w i)"
  using digits_nonzero [of 10] by (auto simp: fmt_d_def pad_zeros_def to_string_def)

lemma length_fmt_ms: "0 \<le> i \<Longrightarrow> i < 1000 \<Longrightarrow> length (fmt_d 3 i) = 3"
  using length_to_string [of "nat i" 2] by (simp add: fmt_d_def pad_zeros_def)

lemma length_fmt_tid:
  assumes "- (2 ^ 31) \<le> tid" "tid < 2 ^ 31"
  shows "length (fmt_d 7 tid) \<le> 11"
proof -
  have "length (to_string (nat tid)) \<le> 10" "length (to_string (nat (- tid))) \<le> 10"
    using assms length_to_string [of "nat tid" 9] length_to_string [of "nat (- tid)" 9] by simp_all
  then show ?thesis by (auto simp: fmt_d_def pad_zeros_def)
qed

section \<open>The cache of the time\<close>

definition time_cache_ok :: "(int \<Rightarrow> bytes) \<Rightarrow> log_utils \<Rightarrow> bool" where
  "time_cache_ok lt s \<longleftrightarrow> (lastTimeSec s \<noteq> 0 \<longrightarrow> take (cachedTimeLen s) (cachedTimeStr s) = strftime lt 32 (lastTimeSec s) \<and>
     cachedTimeLen s = length (strftime lt 32 (lastTimeSec s)))"

lemma length_strftime: "length (strftime lt 32 sec) < 32"
  by (simp add: strftime_def Let_def)

lemma refresh_time_cached:
  assumes "sec \<noteq> 0" "time_cache_ok lt s" "refresh_time lt sec s = s'"
  shows "take (cachedTimeLen s') (cachedTimeStr s') = strftime lt 32 sec" "cachedTimeLen s' = length (strftime lt 32 sec)"
    "time_cache_ok lt s'" "forget s' = forget s"
  using assms by (auto simp: refresh_time_def time_cache_ok_def Let_def forget_def split: if_splits)

lemma time_cache_outside:
  "time_cache_ok lt (print_line db line s) = time_cache_ok lt s" "time_cache_ok lt (fopen_log p trunc s) = time_cache_ok lt s"
  "time_cache_ok lt (s\<lparr>log_level := level\<rparr>) = time_cache_ok lt s" "time_cache_ok lt (s\<lparr>log_file := f\<rparr>) = time_cache_ok lt s"
  "time_cache_ok lt (s\<lparr>enable_check := b\<rparr>) = time_cache_ok lt s" "time_cache_ok lt (s\<lparr>thd2id := t\<rparr>) = time_cache_ok lt s"
  by (simp_all add: time_cache_ok_def print_line_def fopen_log_def Let_def split: option.splits)

lemma forget_outside:
  "forget (print_line db line s) = print_line db line (forget s)" "forget (fopen_log p trunc s) = fopen_log p trunc (forget s)"
  "forget (s\<lparr>log_level := level\<rparr>) = (forget s)\<lparr>log_level := level\<rparr>" "forget (s\<lparr>log_file := f\<rparr>) = (forget s)\<lparr>log_file := f\<rparr>"
  "forget (s\<lparr>enable_check := b\<rparr>) = (forget s)\<lparr>enable_check := b\<rparr>" "forget (s\<lparr>thd2id := t\<rparr>) = (forget s)\<lparr>thd2id := t\<rparr>"
  "log_level (forget s) = log_level s" "log_file (forget s) = log_file s" "enable_check (forget s) = enable_check s"
  "thd2id (forget s) = thd2id s"
  by (simp_all add: forget_def print_line_def fopen_log_def Let_def split: option.splits)

lemma time_part_ref:
  assumes "sys_ok clock tid" "time_cache_ok lt s" "length p \<le> 8"
  obtains s' where
    "time_part lt clock (szbuf p, length p, s) =
       (let q = p @ (case clock of None \<Rightarrow> [] | Some (sec, nsec) \<Rightarrow> strftime lt 32 sec @ lit ''.'' @ fmt_d 3 (nsec div 1000000) @ lit '' '')
        in Some (szbuf q, length q, s'))"
    "time_cache_ok lt s'" "forget s' = forget s"
proof (cases clock)
  case None
  with assms that [of s] show ?thesis by (simp add: time_part_def)
next
  case (Some c)
  obtain sec nsec where c: "c = (sec, nsec)" by fastforce
  from assms Some c have ok: "sec \<noteq> 0" "0 \<le> nsec div 1000000" "nsec div 1000000 < 1000" by (auto simp: sys_ok_def)
  define s' where "s' = refresh_time lt sec s"
  note r = refresh_time_cached [OF ok(1) assms(2) s'_def [symmetric]]
  have "length (fmt_d 3 (nsec div 1000000)) = 3"
    using ok length_fmt_ms by simp
  then show ?thesis
    using that [of s'] r length_strftime [of lt sec] Some c assms(3)
    by (simp add: time_part_def s'_def [symmetric] memcpy_szbuf snprintf_szbuf szTextSize_def Let_def)
qed

lemma log_line_ref:
  assumes "\<forall>sec. 0 \<notin> set (lt sec)" "sys_ok clock tid" "time_cache_ok lt s"
  obtains s' where "log_line lt level clock tid text s = Some (ref_line lt level clock tid text, s')"
    "time_cache_ok lt s'" "forget s' = forget s"
proof -
  let ?p = "levelDesc level @ lit '' ''"
  obtain s' where s': "time_part lt clock (szbuf ?p, length ?p, s) =
       (let q = ?p @ (case clock of None \<Rightarrow> [] | Some (sec, nsec) \<Rightarrow> strftime lt 32 sec @ lit ''.'' @ fmt_d 3 (nsec div 1000000) @ lit '' '')
        in Some (szbuf q, length q, s'))" "time_cache_ok lt s'" "forget s' = forget s"
    using time_part_ref [OF assms(2,3), of ?p] by auto
  let ?q = "?p @ (case clock of None \<Rightarrow> [] | Some (sec, nsec) \<Rightarrow> strftime lt 32 sec @ lit ''.'' @ fmt_d 3 (nsec div 1000000) @ lit '' '')"
  let ?r = "?q @ fmt_d 7 tid @ lit '' ''"
  have r: "?r = ref_prefix lt level clock tid" by (simp add: ref_prefix_def)
  have len_q: "length ?q \<le> 44"
    using assms(2) length_strftime [of lt "fst (the clock)"] length_fmt_ms [of "snd (the clock) div 1000000"]
    by (auto simp: sys_ok_def split: option.splits)
  have len_t: "length (fmt_d 7 tid) \<le> 11"
    using assms(2) by (intro length_fmt_tid) (auto simp: sys_ok_def)
  have nz: "0 \<notin> set ?r"
    using assms(1) levelDesc_nonzero [of level] fmt_d_nonzero by (auto simp: lit_def strftime_def Let_def split: option.splits if_splits)
  have t: "snprintf_at (length ?q) (fmt_d 7 tid @ lit '' '') (szbuf ?q) = Some (szbuf ?r, length (fmt_d 7 tid) + 1)"
    using len_q len_t snprintf_szbuf [of "length ?q" ?q "fmt_d 7 tid @ lit '' ''"] by (simp add: szTextSize_def)
  obtain n where x: "snprintf_at (length ?r) text (szbuf ?r) = Some (szbuf (?r @ take (szTextSize - 1 - length ?r) text @ [0]), n)"
    using len_q len_t snprintf_szbuf_cut [of "length ?r" ?r "text"] by (auto simp: szTextSize_def)
  have c: "memcpy_at 0 (levelDesc level) (replicate szTextSize 0) = Some (szbuf (levelDesc level))"
    "memcpy_at (length (levelDesc level)) [32] (szbuf (levelDesc level)) = Some (szbuf ?p)"
    using memcpy_szbuf [of 0 "[]" "levelDesc level"] memcpy_szbuf [of 7 "levelDesc level" "[32]"]
    unfolding szbuf_empty by (simp_all add: szTextSize_def lit_def)
  have "cstr (szbuf (?r @ take (szTextSize - 1 - length ?r) text @ [0])) = ref_line lt level clock tid text"
    using cstr_szbuf [OF nz, of "szTextSize - 1 - length ?r" "text"] unfolding r by (simp add: ref_line_def Let_def szTextSize_def)
  then have "log_line lt level clock tid text s = Some (ref_line lt level clock tid text, s')"
    using c s'(1) t x by (simp add: log_line_def Let_def add.assoc)
  with s' that show thesis by blast
qed

section \<open>The logger and its reference\<close>

lemma LOG_MSG_ref:
  assumes "\<forall>sec. 0 \<notin> set (lt sec)" "sys_ok clock tid" "time_cache_ok lt s"
  obtains s' where "LOG_MSG lt db level pl msg clock tid s = Some s'" "time_cache_ok lt s'"
    "forget s' = ref_log lt db level pl msg clock tid (forget s)"
proof -
  obtain s' where "log_line lt level clock tid (log_text pl msg) s = Some (ref_line lt level clock tid (log_text pl msg), s')"
    "time_cache_ok lt s'" "forget s' = forget s"
    using log_line_ref [OF assms] by blast
  then show thesis
    using that [of "if level > log_level s then s else print_line db (ref_line lt level clock tid (log_text pl msg)) s'"] assms(3)
    by (auto simp: LOG_MSG_def log_log_def ref_log_def forget_outside time_cache_outside)
qed

lemma log_step_ref:
  assumes "\<forall>sec. 0 \<notin> set (lt sec)" "call_ok c" "time_cache_ok lt s"
  obtains s' where "log_step lt db c s = Some s'" "time_cache_ok lt s'" "forget s' = ref_step lt db c (forget s)"
proof (cases c)
  case (CLog level pl msg clock tid)
  with assms that show ?thesis using LOG_MSG_ref [of lt clock tid s db level pl msg] by auto
next
  case (CCheck pl msg clock tid)
  then obtain s' where "LOG_MSG lt db Check pl msg clock tid s = Some s'" "time_cache_ok lt s'"
    "forget s' = ref_log lt db Check pl msg clock tid (forget s)"
    using assms LOG_MSG_ref [of lt clock tid s db Check pl msg] by auto
  with CCheck assms(3) that [of "if enable_check s then s' else s"] show ?thesis by (auto simp: LOG_CHK_MSG_def forget_outside)
next
  case (COpen opens path level trunc clock tid)
  show ?thesis
  proof (cases "log_file s = None \<and> path \<noteq> None \<and> opens")
    case True
    obtain s' where "LOG_MSG lt db Info (lit ''log_utils.hpp'', 154) (open_msg (the path) level) clock tid
        (fopen_log (the path) trunc s\<lparr>log_level := level\<rparr>) = Some s'" "time_cache_ok lt s'"
      "forget s' = ref_log lt db Info (lit ''log_utils.hpp'', 154) (open_msg (the path) level) clock tid
        (forget (fopen_log (the path) trunc s\<lparr>log_level := level\<rparr>))"
      by (rule LOG_MSG_ref [OF assms(1), of clock tid "fopen_log (the path) trunc s\<lparr>log_level := level\<rparr>"])
        (use assms COpen in \<open>auto simp: time_cache_outside\<close>)
    with True COpen that [of s'] show ?thesis by (auto simp: log_open_def forget_outside)
  next
    case False
    with COpen assms that [of s] show ?thesis by (auto simp: log_open_def forget_outside split: option.splits)
  qed
next
  case (CClose clock tid)
  obtain s' where "LOG_MSG lt db Info (lit ''log_utils.hpp'', 159) (lit ''logger close'') clock tid s = Some s'" "time_cache_ok lt s'"
    "forget s' = ref_log lt db Info (lit ''log_utils.hpp'', 159) (lit ''logger close'') clock tid (forget s)"
    by (rule LOG_MSG_ref [OF assms(1), of clock tid s]) (use assms CClose in auto)
  with CClose that [of "s'\<lparr>log_file := None\<rparr>"] show ?thesis by (auto simp: log_close_def forget_outside time_cache_outside)
qed (use assms that in \<open>auto simp: enableChkLog_def registerThreadId_def forget_outside time_cache_outside\<close>)

lemma log_run_ref:
  assumes "\<forall>sec. 0 \<notin> set (lt sec)" "\<forall>c \<in> set calls. call_ok c" "time_cache_ok lt s"
  shows "\<exists>s'. run_events (log_step lt db) calls s = Some s' \<and> forget s' = fold (ref_step lt db) calls (forget s)"
  using assms(2,3)
proof (induction calls arbitrary: s)
  case (Cons c calls)
  obtain s' where "log_step lt db c s = Some s'" "time_cache_ok lt s'" "forget s' = ref_step lt db c (forget s)"
    using log_step_ref [OF assms(1) _ Cons.prems(2), of c db] Cons.prems(1) by auto
  with Cons.IH [of s'] Cons.prems(1) show ?case by auto
qed simp

lemma log_utils_init_ok: "time_cache_ok lt (log_utils_init d)" "forget (log_utils_init d) = log_utils_init d"
  by (simp_all add: time_cache_ok_def log_utils_init_def forget_def)

text \<open>
  C40: Whatever a program logs, opens, closes and registers, in any order and at any times, no line ever leaves the buffer,
  and what ends up in the files and on standard output is what a logger without buffer and cache writes: for every
  call that the level admits one line with the title of the level, the time of that call, the thread, the place
  and as much of the message as two kilobytes hold.
\<close>

theorem log_agrees_with_reference:
  assumes "\<forall>sec. 0 \<notin> set (lt sec)" and "\<forall>c \<in> set calls. call_ok c"
  shows "\<exists>s. run_events (log_step lt db) calls (log_utils_init d) = Some s \<and>
    forget s = fold (ref_step lt db) calls (log_utils_init d) \<and>
    (\<forall>level clock tid text. sys_ok clock tid \<longrightarrow> length (ref_line lt level clock tid text) \<le> 2047)"
proof -
  have "length (ref_line lt level clock tid text) \<le> 2047" if "sys_ok clock tid" for level clock tid "text"
  proof -
    have "length (ref_prefix lt level clock tid) \<le> 56"
      using that length_strftime [of lt "fst (the clock)"] length_fmt_ms [of "snd (the clock) div 1000000"] length_fmt_tid [of tid]
      by (auto simp: sys_ok_def ref_prefix_def split: option.splits)
    then show ?thesis by (simp add: ref_line_def Let_def)
  qed
  then show ?thesis
    using log_run_ref [OF assms log_utils_init_ok(1), of db d] by (simp add: log_utils_init_ok(2))
qed

definition sample_time :: "int \<Rightarrow> bytes" where
  "sample_time sec = lit ''2025/09/01 10:00:0'' @ to_string (nat (sec mod 10))"

definition sample_calls :: "log_call list" where
  "sample_calls =
    [COpen True (Some (lit ''a.log'')) Info False (Some (3, 5000000)) 71, CLog Debug (lit ''src/a.cpp'', 5) (lit ''quiet'') (Some (3, 0)) 71,
     CLog Error (lit ''src/a.cpp'', 9) (lit ''lost'') (Some (4, 12000000)) 72]"

lemma sample_time_nonzero: "0 \<notin> set (sample_time sec)"
  using digits_nonzero [of 10] by (simp add: sample_time_def to_string_def lit_def)

lemma log_disk_forget: "log_disk (forget s) = log_disk s"
  by (simp add: forget_def)

theorem log_agrees_with_reference_witness:
  "\<exists>s. run_events (log_step sample_time True) sample_calls (log_utils_init (\<lambda>_. [])) = Some s \<and>
    log_disk s (lit ''a.log'') =
      lit ''[ Info] 2025/09/01 10:00:03.005 0000071 log_utils.hpp 154: logger open, path=a.log, level=[ Info]'' @ [10] @
      lit ''[Error] 2025/09/01 10:00:04.012 0000072 a.cpp 9: lost'' @ [10]"
proof -
  have ok: "\<forall>c \<in> set sample_calls. call_ok c"
    by (simp add: sample_calls_def sys_ok_def)
  obtain s where s: "run_events (log_step sample_time True) sample_calls (log_utils_init (\<lambda>_. [])) = Some s"
    "forget s = fold (ref_step sample_time True) sample_calls (log_utils_init (\<lambda>_. []))"
    using log_agrees_with_reference [of sample_time sample_calls True "\<lambda>_. []"] sample_time_nonzero ok by auto
  have "log_disk s (lit ''a.log'') = log_disk (fold (ref_step sample_time True) sample_calls (log_utils_init (\<lambda>_. []))) (lit ''a.log'')"
    by (simp flip: s(2) add: log_disk_forget)
  also have "\<dots> = lit ''[ Info] 2025/09/01 10:00:03.005 0000071 log_utils.hpp 154: logger open, path=a.log, level=[ Info]'' @ [10] @
      lit ''[Error] 2025/09/01 10:00:04.012 0000072 a.cpp 9: lost'' @ [10]"
    by code_simp
  finally show ?thesis using s(1) by blast
qed

text \<open>An executable whose path is exactly as long as the buffer is read beyond its end; every shorter path gives the name of its log.\<close>

lemma createLogPath_bound:
  assumes "0 \<notin> set l" "l \<noteq> []"
  shows "createLogPath (Some l) pid True = None \<longleftrightarrow> PATH_MAX \<le> length l"
    and "length l < PATH_MAX \<Longrightarrow> createLogPath (Some l) pid True = Some (l @ lit ''-'' @ to_string pid @ lit ''.log'')"
  using assms by (auto simp: createLogPath_def getModulePath_def cstr_def Let_def takeWhile_eq_all_conv [THEN iffD2] takeWhile_append
      dest: in_set_takeD)

end
