(* ===== verification/CurlHelper.thy ===== *)
theory CurlHelper
  imports Prelude
begin

text \<open>
  The HTTP client of \<^verbatim>\<open>src/fszm/curl_helper.hpp\<close>.  The library libcurl is a parameter: whether a handle can be made, how text is
  escaped, and what a transfer with given options does to the rest of the world, which answers with a result
  code and the pieces of the body that the write function gets.  libcurl copies the strings it is given except
  the posted fields, which it reads during the transfer; the options therefore hold a pointer into a store,
  from which an object disappears when its scope ends.
\<close>

datatype curl_opt =
    URL bytes | NOSIGNAL int | NOPROGRESS int | TIMEOUT_MS int | SSL_VERIFYPEER int | SSL_VERIFYHOST int
  | COOKIEJAR bytes | COOKIEFILE bytes | POST int | HTTPHEADER "bytes list" | POSTFIELDS nat | WRITE_MEMORY | WRITE_FILE

datatype curl_error = UseAfterFree

type_synonym store = "nat \<Rightarrow> bytes option"

record 'w curl_lib =
  curl_init :: bool
  curl_perform :: "curl_opt list \<Rightarrow> bytes option \<Rightarrow> 'w \<Rightarrow> int \<times> bytes list \<times> 'w"
  curl_escape :: "bytes \<Rightarrow> bytes option"

fun post_pointer :: "curl_opt list \<Rightarrow> nat option" where
  "post_pointer [] = None"
| "post_pointer (POSTFIELDS p # opts) = (case post_pointer opts of None \<Rightarrow> Some p | Some q \<Rightarrow> Some q)"
| "post_pointer (_ # opts) = post_pointer opts"

definition perform :: "'w curl_lib \<Rightarrow> curl_opt list \<Rightarrow> store \<Rightarrow> 'w \<Rightarrow> curl_error + (int \<times> bytes list \<times> 'w)" where
  "perform lib opts h w =
    (case post_pointer opts of
       None \<Rightarrow> Inr (curl_perform lib opts None w)
     | Some p \<Rightarrow> (case h p of None \<Rightarrow> Inl UseAfterFree | Some d \<Rightarrow> Inr (curl_perform lib opts (Some d) w)))"

definition SetOptBasic :: "bytes \<Rightarrow> int \<Rightarrow> bool \<Rightarrow> curl_opt list" where
  "SetOptBasic url timeout_ms verify_ssl =
    [URL url, NOSIGNAL 1, NOPROGRESS 1, TIMEOUT_MS timeout_ms, SSL_VERIFYPEER (if verify_ssl then 1 else 0),
     SSL_VERIFYHOST (if verify_ssl then 2 else 0)]"

definition SetOptCookie :: "int \<Rightarrow> curl_opt list" where
  "SetOptCookie cookie_mode =
    (if cookie_mode = 1 then [COOKIEJAR (lit ''cookiestore'')]
     else if cookie_mode = 2 then [COOKIEFILE (lit ''cookiestore'')] else [])"

definition WriteMemoryCallback :: "bytes \<Rightarrow> u64 \<Rightarrow> u64 \<Rightarrow> bytes \<Rightarrow> u64 \<times> bytes" where
  "WriteMemoryCallback d n nmemb str = (n * nmemb, str @ take (unat (n * nmemb)) d)"

text \<open>\<open>fwrite\<close> says how many of the bytes are written.\<close>

definition WriteFileCallback :: "(bytes \<Rightarrow> nat) \<Rightarrow> bytes \<Rightarrow> bytes \<Rightarrow> nat \<times> bytes" where
  "WriteFileCallback fwrite d file = (fwrite d, file @ take (fwrite d) d)"

definition received_body :: "bytes list \<Rightarrow> bytes" where
  "received_body chunks = foldl (\<lambda>str c. snd (WriteMemoryCallback c 1 (of_nat (length c)) str)) [] chunks"

type_synonym curl_args = "int \<times> int \<times> bool \<times> curl_opt list"

text \<open>The arguments with their defaults: time-out, cookie mode, verification, and the options that the caller's function adds.\<close>

definition default_args :: curl_args where
  "default_args = (1000, 0, False, [])"

definition doGet :: "'w curl_lib \<Rightarrow> bytes option \<Rightarrow> curl_args \<Rightarrow> 'w \<Rightarrow> curl_error + (bytes \<times> int \<times> 'w)" where
  "doGet lib url args w = (let (timeout, cookie_mode, verify_ssl, ext) = args in
    case url of
      None \<Rightarrow> Inr ([], - 1, w)
    | Some u \<Rightarrow>
        if u = [] \<or> \<not> curl_init lib then Inr ([], - 1, w)
        else case perform lib (SetOptBasic u timeout verify_ssl @ SetOptCookie cookie_mode @ ext @ [WRITE_MEMORY]) (\<lambda>_. None) w of
            Inl e \<Rightarrow> Inl e
          | Inr (res, chunks, w) \<Rightarrow> Inr (received_body chunks, res, w))"

text \<open>The posted text belongs to the caller and lives during the call.\<close>

definition doPost_json :: "'w curl_lib \<Rightarrow> bytes option \<Rightarrow> bytes option \<Rightarrow> curl_args \<Rightarrow> 'w \<Rightarrow> curl_error + (bytes \<times> int \<times> 'w)" where
  "doPost_json lib url postJson args w = (let (timeout, cookie_mode, verify_ssl, ext) = args in
    case (url, postJson) of
      (Some u, Some d) \<Rightarrow>
        if u = [] \<or> d = [] \<or> \<not> curl_init lib then Inr ([], - 1, w)
        else case perform lib (SetOptBasic u timeout verify_ssl @ SetOptCookie cookie_mode @ ext @
            [POST 1, HTTPHEADER [lit ''Content-Type: application/json''], POSTFIELDS 0, WRITE_MEMORY]) [0 \<mapsto> d] w of
            Inl e \<Rightarrow> Inl e
          | Inr (res, chunks, w) \<Rightarrow> Inr (received_body chunks, res, w)
    | _ \<Rightarrow> Inr ([], - 1, w))"

fun form_loop :: "(bytes \<Rightarrow> bytes option) \<Rightarrow> bool \<Rightarrow> (bytes \<times> bytes) list \<Rightarrow> bytes \<Rightarrow> bytes" where
  "form_loop escape begin [] param = param"
| "form_loop escape begin ((k, v) # kvs) param =
    (case (escape k, escape v) of
       (Some ek, Some ev) \<Rightarrow> form_loop escape False kvs (param @ (if begin then [] else lit ''&'') @ ek @ lit ''='' @ ev)
     | _ \<Rightarrow> form_loop escape False kvs param)"

text \<open>
  The string \<^verbatim>\<open>param\<close> is local to the block that builds it: after the block the store does not have it any more.
\<close>

definition doPost_form :: "'w curl_lib \<Rightarrow> bytes option \<Rightarrow> (bytes \<times> bytes) list \<Rightarrow> curl_args \<Rightarrow> 'w \<Rightarrow> curl_error + (bytes \<times> int \<times> 'w)" where
  "doPost_form lib url postMap args w = (let (timeout, cookie_mode, verify_ssl, ext) = args in
    case url of
      None \<Rightarrow> Inr ([], - 1, w)
    | Some u \<Rightarrow>
        if u = [] \<or> postMap = [] \<or> \<not> curl_init lib then Inr ([], - 1, w)
        else
          let h = [0 \<mapsto> form_loop (curl_escape lib) True postMap []];
              opts = SetOptBasic u timeout verify_ssl @ SetOptCookie cookie_mode @ ext @ [POST 1] @ [POSTFIELDS 0];
              h = h(0 := None)
          in case perform lib (opts @ [WRITE_MEMORY]) h w of
               Inl e \<Rightarrow> Inl e
             | Inr (res, chunks, w) \<Rightarrow> Inr (received_body chunks, res, w))"

text \<open>\<open>disk\<close> holds the files; opening one for writing empties it.\<close>

definition downloadFile :: "'w curl_lib \<Rightarrow> bool \<Rightarrow> (bytes \<Rightarrow> nat) \<Rightarrow> bytes option \<Rightarrow> bytes option \<Rightarrow> int \<Rightarrow> bool \<Rightarrow> curl_opt list \<Rightarrow>
    (bytes \<Rightarrow> bytes option) \<Rightarrow> 'w \<Rightarrow> curl_error + (int \<times> (bytes \<Rightarrow> bytes option) \<times> 'w)" where
  "downloadFile lib opens fwrite url path timeout verify_ssl ext disk w =
    (case (url, path) of
       (Some u, Some p) \<Rightarrow>
         if u = [] \<or> p = [] \<or> \<not> curl_init lib \<or> \<not> opens then Inr (- 1, disk, w)
         else case perform lib (SetOptBasic u timeout verify_ssl @ SetOptCookie 2 @ ext @ [WRITE_FILE]) (\<lambda>_. None) w of
             Inl e \<Rightarrow> Inl e
           | Inr (rc, chunks, w) \<Rightarrow> Inr (rc, disk(p \<mapsto> foldl (\<lambda>f c. snd (WriteFileCallback fwrite c f)) [] chunks), w)
     | _ \<Rightarrow> Inr (- 1, disk, w))"

section \<open>Transfers\<close>

lemma received_from:
  "\<forall>c \<in> set chunks. length c < 2 ^ 64 \<Longrightarrow>
    foldl (\<lambda>str c. snd (WriteMemoryCallback c 1 (of_nat (length c)) str)) acc chunks = acc @ concat chunks"
  by (induction chunks arbitrary: acc) (simp_all add: WriteMemoryCallback_def unat_of_nat take_bit_nat_def)

lemma received_concat: "\<forall>c \<in> set chunks. length c < 2 ^ 64 \<Longrightarrow> received_body chunks = concat chunks"
  using received_from [of chunks "[]"] by (simp add: received_body_def)

lemma post_pointer_append:
  "post_pointer (xs @ ys) = (case post_pointer ys of None \<Rightarrow> post_pointer xs | Some p \<Rightarrow> Some p)"
  by (induction xs rule: post_pointer.induct) (auto split: option.splits)

lemma post_pointer_setup [simp]: "post_pointer (SetOptBasic u t v) = None" "post_pointer (SetOptCookie m) = None"
  by (simp_all add: SetOptBasic_def SetOptCookie_def)

lemma doGet_result:
  assumes "curl_init lib" "u \<noteq> []"
    and "curl_perform lib (SetOptBasic u 1000 False @ [WRITE_MEMORY]) None w = (res, chunks, w')"
    and "\<forall>c \<in> set chunks. length c < 2 ^ 64"
  shows "doGet lib (Some u) default_args w = Inr (concat chunks, res, w')"
  using assms by (simp add: doGet_def default_args_def perform_def post_pointer_append SetOptCookie_def received_concat)

lemma doPost_json_result:
  assumes "curl_init lib" "u \<noteq> []" "d \<noteq> []"
    and "curl_perform lib (SetOptBasic u 1000 False @
      [POST 1, HTTPHEADER [lit ''Content-Type: application/json''], POSTFIELDS 0, WRITE_MEMORY]) (Some d) w = (res, chunks, w')"
    and "\<forall>c \<in> set chunks. length c < 2 ^ 64"
  shows "doPost_json lib (Some u) (Some d) default_args w = Inr (concat chunks, res, w')"
  using assms by (simp add: doPost_json_def default_args_def perform_def post_pointer_append SetOptCookie_def received_concat)

lemma form_loop_pairs:
  assumes "\<forall>(k, v) \<in> set kvs. escape k \<noteq> None \<and> escape v \<noteq> None"
  shows "form_loop escape False kvs param = param @ concat (map (\<lambda>(k, v). lit ''&'' @ the (escape k) @ lit ''='' @ the (escape v)) kvs)"
  using assms by (induction kvs arbitrary: param) auto

text \<open>
  Posting a form uses freed memory: for every address, every form that is not empty and every option, the transfer reads
  the posted fields after the string that holds them is gone.
\<close>

theorem form_post_uses_freed_buffer:
  assumes "curl_init lib" and "u \<noteq> []" and "postMap \<noteq> []"
  shows "doPost_form lib (Some u) postMap args w = Inl UseAfterFree"
  using assms by (cases args) (simp add: doPost_form_def perform_def post_pointer_append)

definition sample_curl :: "unit curl_lib" where
  "sample_curl = \<lparr>curl_init = True, curl_perform = (\<lambda>opts d w. (0, [], w)), curl_escape = Some\<rparr>"

theorem form_post_uses_freed_buffer_witness:
  "doPost_form sample_curl (Some (lit ''http://localhost'')) [(lit ''a'', lit ''1'')] default_args () = Inl UseAfterFree"
  using form_post_uses_freed_buffer [of sample_curl "lit ''http://localhost''" "[(lit ''a'', lit ''1'')]"]
  by (simp add: sample_curl_def lit_def)

end
