(* ===== verification/Central.thy ===== *)
theory Central
  imports CurlHelper
begin

text \<open>
  The configuration of services: \<^verbatim>\<open>src/lygc/lyserver_config.hpp\<close>, \<^verbatim>\<open>src/lygc/central_server.hpp\<close> and \<^verbatim>\<open>src/lygc/central_client.hpp\<close>.  A service asks the
  central server for a text under a name, and reads groups of servers from it.  The JSON library is a parameter,
  a record of the operations the sources call, where \<open>None\<close> is its exception; so are the HTTP server's matching
  of paths, the table of its routes being part of the state, and the HTTP client of \<open>CurlHelper\<close>.
\<close>

section \<open>The JSON library\<close>

record 'j json_lib =
  json_parse :: "bytes \<Rightarrow> 'j option"
  json_dump :: "'j \<Rightarrow> bytes option"
  json_member :: "'j \<Rightarrow> bytes \<Rightarrow> 'j option"
  json_index :: "'j \<Rightarrow> nat \<Rightarrow> 'j option"
  json_size :: "'j \<Rightarrow> nat"
  json_items :: "'j \<Rightarrow> (bytes \<times> 'j) list"
  get_string :: "'j \<Rightarrow> bytes option"
  get_int :: "'j \<Rightarrow> int option"
  json_object :: "(bytes \<times> 'j) list \<Rightarrow> 'j"
  json_array :: "'j list \<Rightarrow> 'j"
  of_string :: "bytes \<Rightarrow> 'j"
  of_number :: "int \<Rightarrow> 'j"

text \<open>
  What the documentation of the library promises: what was written reads back, and values give back what they were
  made of.  Writing can fail, for text that is not UTF-8.
\<close>

definition json_laws :: "'j json_lib \<Rightarrow> bool" where
  "json_laws J \<longleftrightarrow>
    (\<forall>j s. json_dump J j = Some s \<longrightarrow> json_parse J s = Some j \<and> s \<noteq> []) \<and>
    (\<forall>kvs k v. distinct (map fst kvs) \<longrightarrow> map_of kvs k = Some v \<longrightarrow> json_member J (json_object J kvs) k = Some v) \<and>
    (\<forall>kvs. distinct (map fst kvs) \<longrightarrow> distinct (map fst (json_items J (json_object J kvs))) \<and> set (json_items J (json_object J kvs)) = set kvs) \<and>
    (\<forall>js. json_size J (json_array J js) = length js) \<and>
    (\<forall>js i. i < length js \<longrightarrow> json_index J (json_array J js) i = Some (js ! i)) \<and>
    (\<forall>s. get_string J (of_string J s) = Some s) \<and>
    (\<forall>n. - (2 ^ 31) \<le> n \<longrightarrow> n < 2 ^ 31 \<longrightarrow> get_int J (of_number J n) = Some n)"

section \<open>Server configurations\<close>

record ServerConfig =
  sc_name :: bytes
  sc_origin :: u16
  sc_host :: bytes
  sc_port :: u16

definition ServerConfig_new :: ServerConfig where
  "ServerConfig_new = \<lparr>sc_name = [], sc_origin = 0, sc_host = [], sc_port = 0\<rparr>"

definition ServerConfig_make :: "bytes \<Rightarrow> u16 \<Rightarrow> bytes \<Rightarrow> u16 \<Rightarrow> ServerConfig" where
  "ServerConfig_make name origin host port = \<lparr>sc_name = name, sc_origin = origin, sc_host = host, sc_port = port\<rparr>"

text \<open>
  The four assignments in order, as far as they come: the flag says whether an exception ended them.
\<close>

definition assign_string :: "'j json_lib \<Rightarrow> 'j \<Rightarrow> bytes \<Rightarrow> (bytes \<Rightarrow> ServerConfig \<Rightarrow> ServerConfig) \<Rightarrow> bool \<times> ServerConfig \<Rightarrow> bool \<times> ServerConfig" where
  "assign_string J obj key set_field = (\<lambda>(ok, c).
    if \<not> ok then (ok, c)
    else case Option.bind (json_member J obj key) (get_string J) of Some v \<Rightarrow> (True, set_field v c) | None \<Rightarrow> (False, c))"

definition assign_short :: "'j json_lib \<Rightarrow> 'j \<Rightarrow> bytes \<Rightarrow> (u16 \<Rightarrow> ServerConfig \<Rightarrow> ServerConfig) \<Rightarrow> bool \<times> ServerConfig \<Rightarrow> bool \<times> ServerConfig" where
  "assign_short J obj key set_field = (\<lambda>(ok, c).
    if \<not> ok then (ok, c)
    else case Option.bind (json_member J obj key) (get_int J) of Some v \<Rightarrow> (True, set_field (word_of_int v) c) | None \<Rightarrow> (False, c))"

definition assign_server :: "'j json_lib \<Rightarrow> 'j \<Rightarrow> ServerConfig \<Rightarrow> bool \<times> ServerConfig" where
  "assign_server J obj c =
    assign_short J obj (lit ''port'') (\<lambda>v c. c\<lparr>sc_port := v\<rparr>)
      (assign_string J obj (lit ''host'') (\<lambda>v c. c\<lparr>sc_host := v\<rparr>)
        (assign_short J obj (lit ''origin'') (\<lambda>v c. c\<lparr>sc_origin := v\<rparr>)
          (assign_string J obj (lit ''name'') (\<lambda>v c. c\<lparr>sc_name := v\<rparr>) (True, c))))"

text \<open>The numbers of an object made from text are not initialized: \<open>origin0\<close> and \<open>port0\<close> are what its memory held.\<close>

definition ServerConfig_parse :: "'j json_lib \<Rightarrow> u16 \<Rightarrow> u16 \<Rightarrow> bytes \<Rightarrow> ServerConfig" where
  "ServerConfig_parse J origin0 port0 jsonstr =
    (let c = \<lparr>sc_name = [], sc_origin = origin0, sc_host = [], sc_port = port0\<rparr>
     in case json_parse J jsonstr of None \<Rightarrow> c | Some obj \<Rightarrow> snd (assign_server J obj c))"

definition toJson :: "'j json_lib \<Rightarrow> ServerConfig \<Rightarrow> 'j" where
  "toJson J c =
    json_object J [(lit ''name'', of_string J (sc_name c)), (lit ''origin'', of_number J (uint (sc_origin c))),
      (lit ''host'', of_string J (sc_host c)), (lit ''port'', of_number J (uint (sc_port c)))]"

definition toJsonStr :: "'j json_lib \<Rightarrow> ServerConfig \<Rightarrow> bytes option" where
  "toJsonStr J c = json_dump J (toJson J c)"

section \<open>Groups of servers\<close>

type_synonym ServerGroupMap = "bytes \<Rightarrow> ServerConfig list option"

definition push_server :: "bytes \<Rightarrow> ServerConfig \<Rightarrow> ServerGroupMap \<Rightarrow> ServerGroupMap" where
  "push_server servType c g = g(servType \<mapsto> (case g servType of None \<Rightarrow> [] | Some cs \<Rightarrow> cs) @ [c])"

text \<open>The loops of \<^verbatim>\<open>load\<close>: the flag is false after an exception, the groups are what was pushed before it.\<close>

fun load_group :: "'j json_lib \<Rightarrow> bytes \<Rightarrow> 'j \<Rightarrow> nat list \<Rightarrow> ServerGroupMap \<Rightarrow> bool \<times> ServerGroupMap" where
  "load_group J servType jGroup [] g = (True, g)"
| "load_group J servType jGroup (i # is) g =
    (case json_index J jGroup i of
       None \<Rightarrow> (False, g)
     | Some jServ \<Rightarrow>
         (let (ok, servConf) = assign_server J jServ ServerConfig_new
          in if ok then load_group J servType jGroup is (push_server servType servConf g) else (False, g)))"

fun load_items :: "'j json_lib \<Rightarrow> (bytes \<times> 'j) list \<Rightarrow> ServerGroupMap \<Rightarrow> bool \<times> ServerGroupMap" where
  "load_items J [] g = (True, g)"
| "load_items J ((key, jGroup) # kvs) g =
    (let (ok, g) = load_group J key jGroup [0..<json_size J jGroup] g in if ok then load_items J kvs g else (False, g))"

definition load :: "'j json_lib \<Rightarrow> 'j \<Rightarrow> ServerGroupMap \<Rightarrow> bool \<times> ServerGroupMap" where
  "load J jRoot g = load_items J (json_items J jRoot) Map.empty"

definition loadFromString :: "'j json_lib \<Rightarrow> bytes \<Rightarrow> ServerGroupMap \<Rightarrow> int \<times> ServerGroupMap" where
  "loadFromString J str g =
    (case json_parse J str of
       None \<Rightarrow> (- 1, g)
     | Some jRoot \<Rightarrow> (let (ok, g) = load J jRoot g in (if ok then 0 else - 1, g)))"

text \<open>\<open>file\<close> is the contents of the file, \<open>None\<close> when it cannot be opened.\<close>

definition loadFromFile :: "'j json_lib \<Rightarrow> bytes option \<Rightarrow> ServerGroupMap \<Rightarrow> int \<times> ServerGroupMap" where
  "loadFromFile J file g = (case file of None \<Rightarrow> (- 2, g) | Some str \<Rightarrow> loadFromString J str g)"

section \<open>The central server\<close>

datatype route = GetApi | PostRegister

record CentralServer =
  api2data :: "bytes \<Rightarrow> bytes option"
  cs_routes :: "route list"

definition CentralServer_new :: CentralServer where
  "CentralServer_new = \<lparr>api2data = Map.empty, cs_routes = []\<rparr>"

definition central_set :: "bytes \<Rightarrow> bytes \<Rightarrow> CentralServer \<Rightarrow> CentralServer" where
  "central_set api d s = s\<lparr>api2data := (api2data s)(api \<mapsto> d), cs_routes := cs_routes s @ [GetApi]\<rparr>"

definition central_registerApi :: "CentralServer \<Rightarrow> CentralServer" where
  "central_registerApi s = s\<lparr>cs_routes := cs_routes s @ [PostRegister]\<rparr>"

text \<open>A missing member \<^verbatim>\<open>data\<close> is the null value, which the library's operator makes.\<close>

definition extractApiAndData :: "'j json_lib \<Rightarrow> bytes \<Rightarrow> (bytes \<times> bytes) option" where
  "extractApiAndData J jsonstr = do {
    obj \<leftarrow> json_parse J jsonstr;
    api \<leftarrow> Option.bind (json_member J obj (lit ''api'')) (get_string J);
    d \<leftarrow> Option.bind (json_member J obj (lit ''data'')) (json_dump J);
    Some (api, d)
  }"

definition onRegisterApi :: "'j json_lib \<Rightarrow> bytes \<Rightarrow> CentralServer \<Rightarrow> bytes \<times> CentralServer" where
  "onRegisterApi J body s =
    (case extractApiAndData J body of
       Some (api, d) \<Rightarrow> (lit ''OK'', central_set api d s)
     | None \<Rightarrow> (lit ''Fail'', s))"

definition onApi :: "bytes \<Rightarrow> CentralServer \<Rightarrow> bytes" where
  "onApi api s = (case api2data s api of Some d \<Rightarrow> d | None \<Rightarrow> lit ''None'')"

text \<open>
  What the HTTP server does with a request, given how it matches paths with the pattern \<^verbatim>\<open>/api/:api\<close>: the handler of a
  registered route answers, anything else is not found.
\<close>

definition central_serve :: "'j json_lib \<Rightarrow> (bytes \<Rightarrow> bytes option) \<Rightarrow> bytes \<Rightarrow> bytes option \<Rightarrow> CentralServer \<Rightarrow> bytes \<times> CentralServer" where
  "central_serve J match path posted s =
    (case posted of
       None \<Rightarrow> (case match path of
           Some api \<Rightarrow> if GetApi \<in> set (cs_routes s) then (onApi api s, s) else ([], s)
         | None \<Rightarrow> ([], s))
     | Some body \<Rightarrow> if path = lit ''/register/api'' \<and> PostRegister \<in> set (cs_routes s) then onRegisterApi J body s else ([], s))"

section \<open>The client of the central server\<close>

definition serverAddr_default :: bytes where
  "serverAddr_default = lit ''http://localhost:8081''"

definition clt_init :: "bytes \<Rightarrow> bytes \<Rightarrow> bytes" where
  "clt_init addr serverAddr = (if addr = [] then serverAddr else addr)"

definition clt_get :: "'w curl_lib \<Rightarrow> bytes \<Rightarrow> bytes \<Rightarrow> 'w \<Rightarrow> curl_error + (bytes \<times> 'w)" where
  "clt_get lib serverAddr api w =
    map_sum id (\<lambda>(result, _, w). (result, w)) (doGet lib (Some (serverAddr @ lit ''/api/'' @ api)) default_args w)"

text \<open>\<open>None\<close>: the exception of the JSON library leaves the function.\<close>

definition clt_registerApi :: "'j json_lib \<Rightarrow> 'w curl_lib \<Rightarrow> bytes \<Rightarrow> bytes \<Rightarrow> 'j \<Rightarrow> 'w \<Rightarrow> (curl_error + (bytes \<times> 'w)) option" where
  "clt_registerApi J lib serverAddr api jsonobj w =
    map_option (\<lambda>postData. map_sum id (\<lambda>(result, _, w). (result, w))
        (doPost_json lib (Some (serverAddr @ lit ''/register/api'')) (Some postData) default_args w))
      (json_dump J (json_object J [(lit ''api'', of_string J api), (lit ''data'', jsonobj)]))"

definition clt_registerApi_str :: "'j json_lib \<Rightarrow> 'w curl_lib \<Rightarrow> bytes \<Rightarrow> bytes \<Rightarrow> bytes \<Rightarrow> 'w \<Rightarrow> (curl_error + (bytes \<times> 'w)) option" where
  "clt_registerApi_str J lib serverAddr api jsonstr w =
    Option.bind (json_parse J jsonstr) (\<lambda>j. clt_registerApi J lib serverAddr api j w)"

section \<open>Reading what was written\<close>

lemma json_lawsD:
  assumes "json_laws J"
  shows json_parse_dump: "json_dump J j = Some s \<Longrightarrow> json_parse J s = Some j"
    and json_dump_nonempty: "json_dump J j = Some s \<Longrightarrow> s \<noteq> []"
    and json_member_object: "distinct (map fst kvs) \<Longrightarrow> map_of kvs k = Some v \<Longrightarrow> json_member J (json_object J kvs) k = Some v"
    and json_items_distinct: "distinct (map fst kvs) \<Longrightarrow> distinct (map fst (json_items J (json_object J kvs)))"
    and json_items_set: "distinct (map fst kvs) \<Longrightarrow> set (json_items J (json_object J kvs)) = set kvs"
    and json_size_array: "json_size J (json_array J js) = length js"
    and json_index_array: "i < length js \<Longrightarrow> json_index J (json_array J js) i = Some (js ! i)"
    and get_string_of: "get_string J (of_string J t) = Some t"
    and get_int_of: "- (2 ^ 31) \<le> n \<Longrightarrow> n < 2 ^ 31 \<Longrightarrow> get_int J (of_number J n) = Some n"
  using assms by (auto simp: json_laws_def)

lemma get_int_of_short: "json_laws J \<Longrightarrow> get_int J (of_number J (uint (w::u16))) = Some (uint w)"
  using uint_lt2p [of w] by (intro get_int_of) (auto intro: order_trans [OF _ uint_ge_0])

lemma assign_server_toJson:
  assumes "json_laws J"
  shows "assign_server J (toJson J c) c0 = (True, c)"
proof -
  have "distinct (map fst [(lit ''name'', of_string J (sc_name c)), (lit ''origin'', of_number J (uint (sc_origin c))),
      (lit ''host'', of_string J (sc_host c)), (lit ''port'', of_number J (uint (sc_port c)))])"
    by (simp add: lit_def)
  note m = json_member_object [OF assms this]
  have "json_member J (toJson J c) (lit ''name'') = Some (of_string J (sc_name c))"
    "json_member J (toJson J c) (lit ''origin'') = Some (of_number J (uint (sc_origin c)))"
    "json_member J (toJson J c) (lit ''host'') = Some (of_string J (sc_host c))"
    "json_member J (toJson J c) (lit ''port'') = Some (of_number J (uint (sc_port c)))"
    unfolding toJson_def by (rule m; simp add: lit_def)+
  then show ?thesis
    using assms by (simp add: assign_server_def assign_string_def assign_short_def get_string_of get_int_of_short)
qed

lemma ServerConfig_roundtrip:
  "json_laws J \<Longrightarrow> toJsonStr J c = Some t \<Longrightarrow> ServerConfig_parse J origin0 port0 t = c"
  by (simp add: toJsonStr_def ServerConfig_parse_def json_parse_dump assign_server_toJson)

lemma ServerConfig_uninitialized:
  "json_parse J t = None \<Longrightarrow> sc_origin (ServerConfig_parse J origin0 port0 t) = origin0 \<and> sc_port (ServerConfig_parse J origin0 port0 t) = port0"
  by (simp add: ServerConfig_parse_def)

lemma load_group_prefix:
  assumes "json_laws J" "n \<le> length cs"
  shows "load_group J k (json_array J (map (toJson J) cs @ js)) ([n..<length cs] @ is) g =
    load_group J k (json_array J (map (toJson J) cs @ js)) is (fold (push_server k) (drop n cs) g)"
  using assms(2)
proof (induction "length cs - n" arbitrary: n g)
  case 0
  then show ?case by simp
next
  case (Suc m)
  then have n: "n < length cs" by simp
  then have "[n..<length cs] = n # [Suc n..<length cs]"
    by (simp add: upt_conv_Cons)
  moreover have "drop n cs = cs ! n # drop (Suc n) cs"
    using n by (simp add: Cons_nth_drop_Suc)
  moreover have "json_index J (json_array J (map (toJson J) cs @ js)) n = Some (toJson J (cs ! n))"
    using n assms(1) by (simp add: json_index_array nth_append)
  ultimately show ?case
    using Suc.hyps(1) [of "Suc n"] Suc.hyps(2) n by (simp add: assign_server_toJson [OF assms(1)])
qed

text \<open>The groups that a list of named groups stands for; a group without servers is not entered.\<close>

definition groups_json :: "'j json_lib \<Rightarrow> (bytes \<times> ServerConfig list) list \<Rightarrow> 'j" where
  "groups_json J groups = json_object J (map (\<lambda>(k, cs). (k, json_array J (map (toJson J) cs))) groups)"

definition groups_map :: "(bytes \<times> ServerConfig list) list \<Rightarrow> ServerGroupMap" where
  "groups_map groups k = (case map_of groups k of None \<Rightarrow> None | Some cs \<Rightarrow> if cs = [] then None else Some cs)"

lemma push_servers:
  "fold (push_server k) cs g = (if cs = [] then g else g(k \<mapsto> (case g k of None \<Rightarrow> [] | Some ds \<Rightarrow> ds) @ cs))"
  by (induction cs arbitrary: g) (auto simp: push_server_def)

lemma load_group_array:
  assumes "json_laws J"
  shows "load_group J k (json_array J (map (toJson J) cs)) [0..<json_size J (json_array J (map (toJson J) cs))] g =
    (True, fold (push_server k) cs g)"
  using load_group_prefix [OF assms, of 0 cs k "[]" "[]" g] assms by (simp add: json_size_array)

lemma load_items_groups:
  assumes "json_laws J" "distinct (map fst groups)" "\<forall>k \<in> fst ` set groups. g k = None"
  shows "load_items J (map (\<lambda>(k, cs). (k, json_array J (map (toJson J) cs))) groups) g = (True, g ++ groups_map groups)"
  using assms(2,3)
proof (induction groups arbitrary: g)
  case Nil
  then show ?case by (simp add: groups_map_def map_add_def)
next
  case (Cons kcs groups)
  obtain k cs where kcs: "kcs = (k, cs)" by fastforce
  let ?g = "fold (push_server k) cs g"
  have "load_items J (map (\<lambda>(k, cs). (k, json_array J (map (toJson J) cs))) groups) ?g = (True, ?g ++ groups_map groups)"
    using Cons.prems kcs by (intro Cons.IH) (auto simp: push_servers)
  moreover have "?g ++ groups_map groups = g ++ groups_map (kcs # groups)"
    using Cons.prems kcs by (force simp: map_add_def groups_map_def push_servers fun_eq_iff split: option.splits)
  ultimately show ?case
    using kcs by (simp add: load_group_array [OF assms(1)])
qed

text \<open>An entry that cannot be read ends loading: what was read before it stays in the groups.\<close>

lemma load_group_stops:
  assumes "json_laws J" "\<not> fst (assign_server J bad ServerConfig_new)"
  shows "load_group J k (json_array J (map (toJson J) cs @ bad # js)) [0..<json_size J (json_array J (map (toJson J) cs @ bad # js))] g =
    (False, fold (push_server k) cs g)"
proof -
  have "[0..<json_size J (json_array J (map (toJson J) cs @ bad # js))] =
      [0..<length cs] @ length cs # [Suc (length cs)..<Suc (length cs + length js)]"
    using assms(1) upt_add_eq_append [of 0 "length cs" "Suc (length js)"] by (simp add: json_size_array upt_conv_Cons del: upt_Suc)
  then show ?thesis
    using load_group_prefix [OF assms(1), of 0 cs k "bad # js" _ g] assms
    by (simp add: json_index_array nth_append case_prod_beta)
qed

text \<open>Every registration adds another route for the same pattern.\<close>

lemma routes_grow: "length (cs_routes (fold (\<lambda>(api, d). central_set api d) regs s)) = length (cs_routes s) + length regs"
  by (induction regs arbitrary: s) (auto simp: central_set_def)

text \<open>The entries of an object come in the library's order, which does not matter for groups with different names.\<close>

lemma items_are_groups:
  assumes "json_laws J" "distinct (map fst groups)"
  obtains groups' where "json_items J (groups_json J groups) = map (\<lambda>(k, cs). (k, json_array J (map (toJson J) cs))) groups'"
    "distinct (map fst groups')" "set groups' = set groups"
proof -
  let ?f = "\<lambda>(k, cs). (k, json_array J (map (toJson J) cs))"
  let ?items = "json_items J (groups_json J groups)"
  have d: "distinct (map fst (map ?f groups))"
    using assms(2) by (simp add: comp_def case_prod_beta)
  define groups' where "groups' = map (\<lambda>(k, j). (k, the (map_of groups k))) ?items"
  have items: "set ?items = ?f ` set groups" "distinct (map fst ?items)"
    using json_items_set [OF assms(1) d] json_items_distinct [OF assms(1) d] by (simp_all add: groups_json_def)
  have orig: "?f (k, the (map_of groups k)) = (k, j) \<and> (k, the (map_of groups k)) \<in> set groups"
    if "(k, j) \<in> set ?items" for k j
    using that items assms(2) by (auto simp: map_of_is_SomeI)
  have "map ?f groups' = ?items"
    using orig by (auto simp: groups'_def comp_def case_prod_beta intro!: map_idI)
  moreover have "map fst groups' = map fst ?items"
    by (simp add: groups'_def comp_def case_prod_beta)
  moreover have "set groups' = set groups"
    using items(1) orig assms(2) by (force simp: groups'_def map_of_is_SomeI)
  ultimately show thesis using that [of groups'] items(2) by simp
qed

lemma load_groups_json:
  assumes "json_laws J" "distinct (map fst groups)"
  shows "load J (groups_json J groups) g = (True, groups_map groups)"
proof -
  obtain groups' where g': "json_items J (groups_json J groups) = map (\<lambda>(k, cs). (k, json_array J (map (toJson J) cs))) groups'"
    "distinct (map fst groups')" "set groups' = set groups"
    using items_are_groups [OF assms] by blast
  have "map_of groups' = map_of groups"
    using g'(2,3) assms(2) by (simp add: map_of_inject_set)
  then have "groups_map groups' = groups_map groups" by (simp add: groups_map_def fun_eq_iff)
  then show ?thesis
    using load_items_groups [OF assms(1) g'(2), of Map.empty] by (simp add: load_def g'(1))
qed

section \<open>Publishing a configuration\<close>

text \<open>
  The connection between the client library and the central server: a transfer to the server's address succeeds, is
  served, and the answer arrives in pieces.
\<close>

definition http_laws :: "'j json_lib \<Rightarrow> CentralServer curl_lib \<Rightarrow> bytes \<Rightarrow> (bytes \<Rightarrow> bytes option) \<Rightarrow> bool" where
  "http_laws J lib serverAddr match \<longleftrightarrow> curl_init lib \<and>
    (\<forall>path opts posted s. \<exists>chunks.
       curl_perform lib (URL (serverAddr @ path) # opts) posted s = (0, chunks, snd (central_serve J match path posted s)) \<and>
       concat chunks = fst (central_serve J match path posted s) \<and> (\<forall>c \<in> set chunks. length c < 2 ^ 64))"

lemma http_served:
  assumes "http_laws J lib serverAddr match"
  shows "\<exists>chunks. curl_perform lib (SetOptBasic (serverAddr @ path) timeout verify @ opts) posted s =
      (0, chunks, snd (central_serve J match path posted s)) \<and>
    concat chunks = fst (central_serve J match path posted s) \<and> (\<forall>c \<in> set chunks. length c < 2 ^ 64)"
  using assms by (simp add: http_laws_def SetOptBasic_def)

lemma clt_get_served:
  assumes "http_laws J lib serverAddr match"
  shows "clt_get lib serverAddr api s = Inr (central_serve J match (lit ''/api/'' @ api) None s)"
proof -
  obtain chunks where "curl_perform lib (SetOptBasic (serverAddr @ lit ''/api/'' @ api) 1000 False @ [WRITE_MEMORY]) None s =
      (0, chunks, snd (central_serve J match (lit ''/api/'' @ api) None s))"
    "concat chunks = fst (central_serve J match (lit ''/api/'' @ api) None s)" "\<forall>c \<in> set chunks. length c < 2 ^ 64"
    using http_served [OF assms] by blast
  moreover have "serverAddr @ lit ''/api/'' @ api \<noteq> []" by (simp add: lit_def)
  ultimately show ?thesis
    using assms by (simp add: clt_get_def http_laws_def doGet_result)
qed

lemma clt_register_served:
  assumes "http_laws J lib serverAddr match" "json_laws J"
    and "json_dump J (json_object J [(lit ''api'', of_string J api), (lit ''data'', jsonobj)]) = Some postData"
  shows "clt_registerApi J lib serverAddr api jsonobj s = Some (Inr (central_serve J match (lit ''/register/api'') (Some postData) s))"
proof -
  let ?opts = "[POST 1, HTTPHEADER [lit ''Content-Type: application/json''], POSTFIELDS 0, WRITE_MEMORY]"
  obtain chunks where "curl_perform lib (SetOptBasic (serverAddr @ lit ''/register/api'') 1000 False @ ?opts) (Some postData) s =
      (0, chunks, snd (central_serve J match (lit ''/register/api'') (Some postData) s))"
    "concat chunks = fst (central_serve J match (lit ''/register/api'') (Some postData) s)" "\<forall>c \<in> set chunks. length c < 2 ^ 64"
    using http_served [OF assms(1)] by blast
  moreover have "serverAddr @ lit ''/register/api'' \<noteq> []" by (simp add: lit_def)
  ultimately show ?thesis
    using assms json_dump_nonempty [OF assms(2,3)] by (simp add: clt_registerApi_def http_laws_def doPost_json_result)
qed

lemma extract_registration:
  assumes "json_laws J" "json_dump J (json_object J [(lit ''api'', of_string J api), (lit ''data'', jsonobj)]) = Some postData"
    and "json_dump J jsonobj = Some d"
  shows "extractApiAndData J postData = Some (api, d)"
proof -
  let ?kvs = "[(lit ''api'', of_string J api), (lit ''data'', jsonobj)]"
  have "distinct (map fst ?kvs)" by (simp add: lit_def)
  note m = json_member_object [OF assms(1) this]
  have "json_member J (json_object J ?kvs) (lit ''api'') = Some (of_string J api)"
    "json_member J (json_object J ?kvs) (lit ''data'') = Some jsonobj"
    by (rule m; simp add: lit_def)+
  with assms show ?thesis
    by (simp add: extractApiAndData_def json_parse_dump [OF assms(1,2)] get_string_of)
qed

text \<open>
  C32: A configuration that a client registers with the central server under a name is what every service reads under that
  name: the registration is answered with OK, a later request for the name returns the text of the configuration
  and leaves the server as it is, loading that text succeeds and gives exactly the groups that were registered, every
  server with its name, origin, host and port, and what is stored under other names has not changed.
\<close>

theorem config_published:
  assumes "json_laws J" and "http_laws J lib serverAddr match"
    and "match (lit ''/api/'' @ api) = Some api" and "PostRegister \<in> set (cs_routes s)"
    and "distinct (map fst groups)"
    and "json_dump J (json_object J [(lit ''api'', of_string J api), (lit ''data'', groups_json J groups)]) = Some postData"
    and "json_dump J (groups_json J groups) = Some d"
  shows "\<exists>s'. clt_registerApi J lib serverAddr api (groups_json J groups) s = Some (Inr (lit ''OK'', s')) \<and>
    clt_get lib serverAddr api s' = Inr (d, s') \<and>
    loadFromString J d g = (0, groups_map groups) \<and>
    (\<forall>other. other \<noteq> api \<longrightarrow> onApi other s' = onApi other s)"
proof -
  let ?s = "central_set api d s"
  have "clt_registerApi J lib serverAddr api (groups_json J groups) s = Some (Inr (lit ''OK'', ?s))"
    using clt_register_served [OF assms(2,1,6)] extract_registration [OF assms(1,6,7)] assms(4)
    by (simp add: central_serve_def onRegisterApi_def)
  moreover have "clt_get lib serverAddr api ?s = Inr (d, ?s)"
    using clt_get_served [OF assms(2)] assms(3) by (simp add: central_serve_def onApi_def central_set_def)
  moreover have "loadFromString J d g = (0, groups_map groups)"
    using json_parse_dump [OF assms(1,7)] load_groups_json [OF assms(1,5)] by (simp add: loadFromString_def)
  moreover have "onApi other ?s = onApi other s" if "other \<noteq> api" for other
    using that by (simp add: onApi_def central_set_def)
  ultimately show ?thesis by blast
qed

text \<open>A library for the values of one configuration, and a connection that hands over one byte at a time.\<close>

datatype jv = JNull | JStr bytes | JNum int | JObj "(bytes \<times> jv) list" | JArr "jv list"

fun jv_member :: "jv \<Rightarrow> bytes \<Rightarrow> jv option" where
  "jv_member (JObj kvs) k = Some (case map_of kvs k of Some v \<Rightarrow> v | None \<Rightarrow> JNull)"
| "jv_member JNull k = Some JNull"
| "jv_member _ k = None"

fun jv_items :: "jv \<Rightarrow> (bytes \<times> jv) list" where
  "jv_items (JObj kvs) = kvs"
| "jv_items (JArr js) = zip (map to_string [0..<length js]) js"
| "jv_items JNull = []"
| "jv_items j = [([], j)]"

fun jv_size :: "jv \<Rightarrow> nat" where
  "jv_size (JObj kvs) = length kvs"
| "jv_size (JArr js) = length js"
| "jv_size JNull = 0"
| "jv_size _ = 1"

definition sample_groups :: "(bytes \<times> ServerConfig list) list" where
  "sample_groups =
    [(lit ''logic'', [ServerConfig_make (lit ''logic'') 101 (lit ''localhost'') 35101, ServerConfig_make (lit ''logic'') 101 (lit ''127.0.0.1'') 35101]),
     (lit ''gate'', [ServerConfig_make (lit ''gate'') 107 (lit ''localhost'') 35107])]"

definition sample_conf_json :: "ServerConfig \<Rightarrow> jv" where
  "sample_conf_json c = JObj [(lit ''name'', JStr (sc_name c)), (lit ''origin'', JNum (uint (sc_origin c))),
    (lit ''host'', JStr (sc_host c)), (lit ''port'', JNum (uint (sc_port c)))]"

definition sample_root :: jv where
  "sample_root = JObj (map (\<lambda>(k, cs). (k, JArr (map sample_conf_json cs))) sample_groups)"

definition sample_registration :: jv where
  "sample_registration = JObj [(lit ''api'', JStr (lit ''config'')), (lit ''data'', sample_root)]"

definition sample_json :: "jv json_lib" where
  "sample_json =
    \<lparr>json_parse = [lit ''registration'' \<mapsto> sample_registration, lit ''root'' \<mapsto> sample_root],
     json_dump = [sample_registration \<mapsto> lit ''registration'', sample_root \<mapsto> lit ''root''],
     json_member = jv_member, json_index = (\<lambda>j i. case j of JArr js \<Rightarrow> if i < length js then Some (js ! i) else None | _ \<Rightarrow> None),
     json_size = jv_size, json_items = jv_items,
     get_string = (\<lambda>j. case j of JStr s \<Rightarrow> Some s | _ \<Rightarrow> None), get_int = (\<lambda>j. case j of JNum n \<Rightarrow> Some n | _ \<Rightarrow> None),
     json_object = JObj, json_array = JArr, of_string = JStr, of_number = JNum\<rparr>"

definition sample_match :: "bytes \<Rightarrow> bytes option" where
  "sample_match path = (if take 5 path = lit ''/api/'' then Some (drop 5 path) else None)"

definition sample_http :: "CentralServer curl_lib" where
  "sample_http =
    \<lparr>curl_init = True,
     curl_perform = (\<lambda>opts posted s.
       case opts of
         URL u # _ \<Rightarrow> (let (body, s) = central_serve sample_json sample_match (drop (length serverAddr_default) u) posted s
           in (0, map (\<lambda>b. [b]) body, s))
       | _ \<Rightarrow> (3, [], s)),
     curl_escape = Some\<rparr>"

lemma sample_json_laws: "json_laws sample_json"
proof -
  have "sample_registration \<noteq> sample_root"
    by (simp add: sample_registration_def sample_root_def sample_groups_def lit_def)
  then show ?thesis
    by (auto simp: json_laws_def sample_json_def lit_def split: if_splits)
qed

lemma sample_http_laws: "http_laws sample_json sample_http serverAddr_default sample_match"
proof -
  have "concat (map (\<lambda>b. [b]) xs) = xs" for xs :: bytes by (induction xs) auto
  then show ?thesis
    by (auto simp: http_laws_def sample_http_def case_prod_beta)
qed

lemma sample_groups_json: "groups_json sample_json sample_groups = sample_root" "sample_registration \<noteq> sample_root"
  by (simp_all add: groups_json_def sample_root_def sample_groups_def toJson_def sample_conf_json_def sample_json_def sample_registration_def lit_def)

theorem config_published_witness:
  "\<exists>s. clt_registerApi sample_json sample_http serverAddr_default (lit ''config'') (groups_json sample_json sample_groups)
      (central_registerApi CentralServer_new) = Some (Inr (lit ''OK'', s)) \<and>
    clt_get sample_http serverAddr_default (lit ''config'') s = Inr (lit ''root'', s) \<and>
    loadFromString sample_json (lit ''root'') Map.empty = (0, groups_map sample_groups) \<and>
    groups_map sample_groups (lit ''gate'') = Some [ServerConfig_make (lit ''gate'') 107 (lit ''localhost'') 35107]"
proof -
  have reg: "json_object sample_json [(lit ''api'', of_string sample_json (lit ''config'')), (lit ''data'', sample_root)] = sample_registration"
    by (simp add: sample_json_def sample_registration_def)
  show ?thesis
    using config_published [OF sample_json_laws sample_http_laws, of "lit ''config''" "central_registerApi CentralServer_new" sample_groups
        "lit ''registration''" "lit ''root''" Map.empty] sample_groups_json(2)
    unfolding sample_groups_json(1) reg
    by (auto simp: sample_json_def sample_match_def central_registerApi_def CentralServer_new_def sample_groups_def groups_map_def lit_def)
qed

end
