(* ===== verification/NetService.thy ===== *)
theory NetService
  imports NetServer TimerHelper EventSystem Central
begin

text \<open>
  The life cycle of a service, the part of \<^verbatim>\<open>NetServer\<close> in \<^verbatim>\<open>src/lygc/net_server.hpp\<close> that puts the parts together: the TCP server with its
  lanes, the clients of other services and their manager, the timer and the handlers.  A client is named by the
  number of its group of connections; \<open>svc_added\<close> records what was asked for.
\<close>

record net_service =
  svc_config :: ServerConfig
  svc_tcp :: tcpsock_server
  svc_net :: net_server
  svc_mgr :: async_client_manager
  svc_clients :: "nat \<Rightarrow> net_client"
  svc_nextClient :: nat
  svc_startAsyncMgr :: bool
  svc_timer :: timer_helper
  svc_timerRuns :: bool
  svc_added :: "(nat \<times> ServerConfig list) list"

definition service_new ::
  "ServerConfig \<Rightarrow> (nat \<Rightarrow> tcpsock_user) \<Rightarrow> (nat \<Rightarrow> net_user) \<Rightarrow> (nat \<Rightarrow> tcpsock_asynclt) \<Rightarrow> (nat \<Rightarrow> tcpsock_ha_asynclt) \<Rightarrow> net_service" where
  "service_new conf heap users clients has =
    \<lparr>svc_config = conf, svc_tcp = server_new lymsg_protocol heap, svc_net = net_server_new (sc_origin conf) users,
     svc_mgr = manager_new lymsg_protocol clients has, svc_clients = (\<lambda>h. net_client_new h (sc_origin conf)), svc_nextClient = 0,
     svc_startAsyncMgr = False, svc_timer = timer_helper_new TenSecond, svc_timerRuns = False, svc_added = []\<rparr>"

definition service_origin :: "net_service \<Rightarrow> u16" where
  "service_origin v = sc_origin (svc_config v)"

definition service_desc :: "'j json_lib \<Rightarrow> net_service \<Rightarrow> bytes option" where
  "service_desc J v = toJsonStr J (svc_config v)"

text \<open>The connections of a group in order; \<open>envs\<close> are the kernel's answers to the attempts to connect.\<close>

fun connect_all :: "allocator \<Rightarrow> (nat \<Rightarrow> conn_env) \<Rightarrow> nat \<Rightarrow> ServerConfig list \<Rightarrow> async_client_manager \<Rightarrow> async_client_manager" where
  "connect_all al envs h [] m = m"
| "connect_all al envs h (conf # grp) m =
    connect_all al (envs \<circ> Suc) h grp (addConnect al (envs 0) h (sc_host conf) (sc_port conf) m)"

definition addAsynClient_group :: "allocator \<Rightarrow> (nat \<Rightarrow> conn_env) \<Rightarrow> ServerConfig list \<Rightarrow> net_service \<Rightarrow> nat option \<times> net_service" where
  "addAsynClient_group al envs grp v =
    (if grp = [] then (None, v)
     else
       let h = svc_nextClient v;
           m = upd_ha h (ha_asynclt_new (sc_name (hd grp))) (svc_mgr v)
       in (Some h, v\<lparr>svc_clients := (svc_clients v)(h := net_client_new h (service_origin v)), svc_nextClient := Suc h,
             svc_mgr := manageClient h (connect_all al envs h grp m), svc_added := svc_added v @ [(h, grp)]\<rparr>))"

definition addAsynClient :: "allocator \<Rightarrow> conn_env \<Rightarrow> ServerConfig \<Rightarrow> net_service \<Rightarrow> nat \<times> net_service" where
  "addAsynClient al env target v =
    (let h = svc_nextClient v;
         m = upd_ha h (ha_asynclt_new (sc_name target)) (svc_mgr v)
     in (h, v\<lparr>svc_clients := (svc_clients v)(h := net_client_new h (service_origin v)), svc_nextClient := Suc h,
             svc_mgr := manageClient h (addConnect al env h (sc_host target) (sc_port target) m),
             svc_added := svc_added v @ [(h, [target])]\<rparr>))"

definition service_open :: "open_env \<Rightarrow> net_service \<Rightarrow> int \<times> net_service" where
  "service_open e v = (case server_open e (svc_tcp v) of (rc, t) \<Rightarrow> (rc, v\<lparr>svc_tcp := t\<rparr>))"

text \<open>The task \<open>0\<close> of the timer is \<^verbatim>\<open>showStatus\<close>; it is added when the thread of the timer runs already.\<close>

definition service_start :: "int \<Rightarrow> int \<Rightarrow> int \<Rightarrow> message_swimlane list \<Rightarrow> net_service \<Rightarrow> memerr + net_service" where
  "service_start efd serverWorkers cltMgrWorkers lanes v =
    map_sum id (\<lambda>t.
      let v = v\<lparr>svc_tcp := t, svc_startAsyncMgr := cltMgrWorkers > 0\<rparr>;
          v = (if svc_startAsyncMgr v then v\<lparr>svc_mgr := manager_start efd cltMgrWorkers (svc_mgr v)\<rparr> else v);
          v = v\<lparr>svc_timerRuns := True\<rparr>
      in v\<lparr>svc_timer := addTimerTask (5 * 60 div 10) 0 (svc_timer v)\<rparr>)
    (server_start serverWorkers lanes (svc_tcp v))"

definition service_serveUtilStop :: "net_service \<Rightarrow> net_service" where
  "service_serveUtilStop v =
    (let v = v\<lparr>svc_tcp := serveUtilStop (svc_tcp v), svc_timerRuns := False\<rparr>;
         v = (if svc_startAsyncMgr v then v\<lparr>svc_mgr := manager_serveUtilStop (manager_stop (svc_mgr v))\<rparr> else v)
     in v\<lparr>svc_net := (svc_net v)\<lparr>ns_userHandlers := []\<rparr>\<rparr>)"

text \<open>The numbers that \<^verbatim>\<open>status\<close> reports of the manager: monitored connections and all connections.\<close>

definition manager_status :: "async_client_manager \<Rightarrow> nat \<times> nat" where
  "manager_status m = (length (am_fd2client m), sum_list (map (\<lambda>h. length (ha_clients (am_has m h))) (am_haClients m)))"

definition showStatus :: "net_service \<Rightarrow> int \<times> (nat \<times> nat) option" where
  "showStatus v = (currentConnections (svc_tcp v), if svc_startAsyncMgr v then Some (manager_status (svc_mgr v)) else None)"

section \<open>The calls of a program\<close>

datatype service_event =
    SAdd allocator "nat \<Rightarrow> conn_env" "ServerConfig list"
  | SOpen open_env
  | SStart int int int "message_swimlane list"
  | SRegister u16 nat

fun service_step :: "service_event \<Rightarrow> net_service \<Rightarrow> net_service option" where
  "service_step (SAdd al envs grp) v = Some (snd (addAsynClient_group al envs grp v))"
| "service_step (SOpen e) v = Some (snd (service_open e v))"
| "service_step (SStart efd sw cw lanes) v =
    (if efd = -1 then None else case service_start efd sw cw lanes v of Inl _ \<Rightarrow> None | Inr v' \<Rightarrow> Some v')"
| "service_step (SRegister org hid) v = Some (v\<lparr>svc_net := registerUserHandler org hid (svc_net v)\<rparr>)"

text \<open>What a group asked for and what its connections lead to.\<close>

definition targets :: "ServerConfig list \<Rightarrow> (bytes \<times> u16) list" where
  "targets = map (\<lambda>c. (sc_host c, sc_port c))"

definition connections :: "nat \<Rightarrow> async_client_manager \<Rightarrow> (bytes \<times> u16) list" where
  "connections h m = map (\<lambda>i. (cl_serverAddr (ac_client (am_clients m i)), cl_serverPort (ac_client (am_clients m i)))) (ha_clients (am_has m h))"

definition served :: "async_client_manager \<Rightarrow> nat \<Rightarrow> bool" where
  "served m h \<longleftrightarrow> ha_workerIdx (am_has m h) < am_workerNum m \<and> am_recvQueues m ! ha_workerIdx (am_has m h) \<noteq> None"

definition queues_ok :: "async_client_manager \<Rightarrow> bool" where
  "queues_ok m \<longleftrightarrow> length (am_recvQueues m) = 16 \<and> am_workerNum m \<le> 16 \<and> (\<forall>i < am_workerNum m. am_recvQueues m ! i \<noteq> None)"

definition service_inv :: "net_service \<Rightarrow> bool" where
  "service_inv v \<longleftrightarrow>
    map fst (svc_added v) = [0..<svc_nextClient v] \<and> am_haClients (svc_mgr v) = [0..<svc_nextClient v] \<and>
    (\<forall>(h, grp) \<in> set (svc_added v). connections h (svc_mgr v) = targets grp \<and> svc_clients v h = net_client_new h (service_origin v)) \<and>
    (\<forall>h < svc_nextClient v. \<forall>i \<in> set (ha_clients (am_has (svc_mgr v) h)). i < am_nextClient (svc_mgr v)) \<and>
    queues_ok (svc_mgr v) \<and> (svc_startAsyncMgr v \<longrightarrow> 0 < am_workerNum (svc_mgr v)) \<and>
    (0 < am_workerNum (svc_mgr v) \<longrightarrow> (\<forall>h < svc_nextClient v. served (svc_mgr v) h))"

section \<open>Connections\<close>

definition target_of :: "async_client_manager \<Rightarrow> nat \<Rightarrow> bytes \<times> u16" where
  "target_of m i = (cl_serverAddr (ac_client (am_clients m i)), cl_serverPort (ac_client (am_clients m i)))"

lemma connections_target_of: "connections h m = map (target_of m) (ha_clients (am_has m h))"
  by (simp add: connections_def target_of_def)

lemma asynclt_connect_target:
  "cl_serverAddr (ac_client (snd (asynclt_connect e a))) = cl_serverAddr (ac_client a)"
  "cl_serverPort (ac_client (snd (asynclt_connect e a))) = cl_serverPort (ac_client a)"
  by (simp_all add: asynclt_connect_def client_connect_def client_disconnect_def client_flushAlive_def sync_fd_def Let_def split: prod.splits)

lemma addConnect_frame [simp]:
  "am_haClients (addConnect al e h addr port m) = am_haClients m" "am_recvQueues (addConnect al e h addr port m) = am_recvQueues m"
  "am_workerNum (addConnect al e h addr port m) = am_workerNum m" "am_nextClient (addConnect al e h addr port m) = Suc (am_nextClient m)"
  "h' \<noteq> h \<Longrightarrow> am_has (addConnect al e h addr port m) h' = am_has m h'"
  "ha_clients (am_has (addConnect al e h addr port m) h) = ha_clients (am_has m h) @ [am_nextClient m]"
  "ha_workerIdx (am_has (addConnect al e h addr port m) h) = ha_workerIdx (am_has m h)"
  by (simp_all add: addConnect_def upd_ha_def upd_clt_def Let_def)

lemma addConnect_target: "target_of (addConnect al e h addr port m) i = (if i = am_nextClient m then (addr, port) else target_of m i)"
  by (simp add: addConnect_def upd_ha_def upd_clt_def Let_def target_of_def asynclt_connect_target asynclt_new_def client_new_def)

lemma connect_all_frame [simp]:
  "am_haClients (connect_all al envs h grp m) = am_haClients m" "am_recvQueues (connect_all al envs h grp m) = am_recvQueues m"
  "am_workerNum (connect_all al envs h grp m) = am_workerNum m" "am_nextClient (connect_all al envs h grp m) = am_nextClient m + length grp"
  "h' \<noteq> h \<Longrightarrow> am_has (connect_all al envs h grp m) h' = am_has m h'"
  "ha_clients (am_has (connect_all al envs h grp m) h) = ha_clients (am_has m h) @ [am_nextClient m..<am_nextClient m + length grp]"
  by (induction al envs h grp m rule: connect_all.induct) (simp_all add: upt_conv_Cons del: upt_Suc)

lemma connect_all_old: "i < am_nextClient m \<Longrightarrow> target_of (connect_all al envs h grp m) i = target_of m i"
  by (induction al envs h grp m rule: connect_all.induct) (simp_all add: addConnect_target)

lemma connect_all_new:
  "map (target_of (connect_all al envs h grp m)) [am_nextClient m..<am_nextClient m + length grp] = targets grp"
proof (induction al envs h grp m rule: connect_all.induct)
  case (2 al envs h conf grp m)
  then show ?case
    using connect_all_old [of "am_nextClient m" "addConnect al (envs 0) h (sc_host conf) (sc_port conf) m" al "envs \<circ> Suc" h grp]
    by (simp add: addConnect_target upt_conv_Cons targets_def comp_def del: upt_Suc)
qed (simp add: targets_def)

lemma addAsynClient_single: "addAsynClient al env target v = (svc_nextClient v, snd (addAsynClient_group al (\<lambda>_. env) [target] v))"
  by (simp add: addAsynClient_def addAsynClient_group_def Let_def)

section \<open>The invariant\<close>

lemma service_new_inv: "service_inv (service_new conf heap users clients has)"
  by (simp add: service_inv_def service_new_def manager_new_def queues_ok_def)

lemma manageClient_frame [simp]:
  "am_haClients (manageClient h m) = am_haClients m @ [h]" "am_recvQueues (manageClient h m) = am_recvQueues m"
  "am_workerNum (manageClient h m) = am_workerNum m" "am_nextClient (manageClient h m) = am_nextClient m"
  "target_of (manageClient h m) = target_of m" "ha_clients (am_has (manageClient h m) h') = ha_clients (am_has m h')"
  "h' \<noteq> h \<Longrightarrow> am_has (manageClient h m) h' = am_has m h'"
  "0 < am_workerNum m \<Longrightarrow> ha_workerIdx (am_has (manageClient h m) h) = length (am_haClients m) mod am_workerNum m"
  by (auto simp: manageClient_def upd_ha_def Let_def target_of_def fun_eq_iff)

lemma upd_ha_frame [simp]:
  "am_haClients (upd_ha h x m) = am_haClients m" "am_recvQueues (upd_ha h x m) = am_recvQueues m" "am_workerNum (upd_ha h x m) = am_workerNum m"
  "am_nextClient (upd_ha h x m) = am_nextClient m" "target_of (upd_ha h x m) = target_of m" "am_has (upd_ha h x m) = (am_has m)(h := x)"
  by (simp_all add: upd_ha_def target_of_def fun_eq_iff)

lemma add_inv:
  assumes "service_inv v"
  shows "service_inv (snd (addAsynClient_group al envs grp v))"
proof (cases "grp = []")
  case True
  with assms show ?thesis by (simp add: addAsynClient_group_def)
next
  case False
  let ?h = "svc_nextClient v" and ?old = "svc_mgr v"
  let ?m = "upd_ha ?h (ha_asynclt_new (sc_name (hd grp))) ?old"
  let ?m' = "manageClient ?h (connect_all al envs ?h grp ?m)"
  let ?v = "snd (addAsynClient_group al envs grp v)"
  have v: "svc_mgr ?v = ?m'" "svc_nextClient ?v = Suc ?h" "svc_added ?v = svc_added v @ [(?h, grp)]"
    "svc_clients ?v = (svc_clients v)(?h := net_client_new ?h (service_origin v))" "service_origin ?v = service_origin v"
    "svc_startAsyncMgr ?v = svc_startAsyncMgr v"
    using False by (simp_all add: addAsynClient_group_def Let_def service_origin_def)
  have old: "ha_clients (am_has ?m' h) = ha_clients (am_has ?old h)" "ha_workerIdx (am_has ?m' h) = ha_workerIdx (am_has ?old h)" if "h < ?h" for h
    using that by simp_all
  have new: "ha_clients (am_has ?m' ?h) = [am_nextClient ?old..<am_nextClient ?old + length grp]"
    by (simp add: ha_asynclt_new_def)
  have idx: "h < ?h" if "(h, g) \<in> set (svc_added v)" for h g
    using assms that by (metis (no_types, lifting) service_inv_def atLeastLessThan_iff fst_conv image_eqI set_map set_upt)
  have c1: "connections h ?m' = connections h ?old" if "h < ?h" for h
    using assms that connect_all_old [of _ ?m al envs ?h grp] old(1) [OF that] by (auto simp: connections_target_of service_inv_def)
  have c2: "connections ?h ?m' = targets grp"
    using connect_all_new [of al envs ?h grp ?m] new by (simp add: connections_target_of)
  have c: "\<forall>(h, g) \<in> set (svc_added ?v). connections h ?m' = targets g \<and> svc_clients ?v h = net_client_new h (service_origin v)"
  proof (intro ballI, clarify)
    fix h g assume "(h, g) \<in> set (svc_added ?v)"
    then consider "(h, g) \<in> set (svc_added v)" "h < ?h" | "h = ?h" "g = grp"
      using idx unfolding v(3) by auto
    then show "connections h ?m' = targets g \<and> svc_clients ?v h = net_client_new h (service_origin v)"
    proof cases
      case 1
      with assms have "connections h ?old = targets g \<and> svc_clients v h = net_client_new h (service_origin v)"
        by (auto simp: service_inv_def)
      with 1 c1 show ?thesis unfolding v(4) by simp
    next
      case 2
      with c2 show ?thesis unfolding v(4) by simp
    qed
  qed
  have n: "\<forall>h < Suc ?h. \<forall>i \<in> set (ha_clients (am_has ?m' h)). i < am_nextClient ?m'"
  proof (intro allI impI ballI)
    fix h i assume "h < Suc ?h" "i \<in> set (ha_clients (am_has ?m' h))"
    moreover have "\<forall>h < ?h. \<forall>i \<in> set (ha_clients (am_has ?old h)). i < am_nextClient ?old"
      using assms by (simp add: service_inv_def)
    ultimately show "i < am_nextClient ?m'"
      using old(1) [of h] new by (cases "h = ?h") (auto simp: less_Suc_eq dest!: spec)
  qed
  have q: "queues_ok ?m'"
    using assms by (simp add: service_inv_def queues_ok_def)
  have "served ?m' h = served ?old h" if "h < ?h" for h
    using old(2) [OF that] by (simp add: served_def)
  moreover have "served ?m' ?h" if "0 < am_workerNum ?old"
    using assms that by (simp add: served_def service_inv_def queues_ok_def)
  ultimately have "0 < am_workerNum ?m' \<longrightarrow> (\<forall>h < Suc ?h. served ?m' h)"
    using assms by (auto simp: service_inv_def less_Suc_eq)
  with c n q assms show ?thesis
    unfolding service_inv_def v(1-2,5,6) by (simp add: v(3))
qed

lemma assign_workers_frame:
  "am_haClients (assign_workers n m) = am_haClients m" "am_recvQueues (assign_workers n m) = am_recvQueues m"
  "am_workerNum (assign_workers n m) = am_workerNum m" "am_nextClient (assign_workers n m) = am_nextClient m"
  "am_clients (assign_workers n m) = am_clients m" "ha_clients (am_has (assign_workers n m) h) = ha_clients (am_has m h)"
proof -
  have "ha_clients (foldl (\<lambda>f (i, h). f(h := (f h)\<lparr>ha_workerIdx := i mod n\<rparr>)) f xs h) = ha_clients (f h)" for f xs
    by (induction xs arbitrary: f) auto
  then show "ha_clients (am_has (assign_workers n m) h) = ha_clients (am_has m h)" by (simp add: assign_workers_def)
qed (simp_all add: assign_workers_def)

lemma manager_start_served:
  assumes "efd \<noteq> -1" "am_haClients m = [0..<k]" "queues_ok m" "m' = manager_start efd n m"
  shows "am_haClients m' = am_haClients m" "am_nextClient m' = am_nextClient m" "connections h m' = connections h m"
    "ha_clients (am_has m' h) = ha_clients (am_has m h)" "queues_ok m'" "0 < am_workerNum m'" "\<forall>h < k. served m' h"
proof -
  define w where "w = nat (min (max n 1) 16)"
  let ?m = "m\<lparr>am_efd := efd, am_workerNum := w, am_recvQueues := replicate w (Some sq_new) @ drop w (am_recvQueues m)\<rparr>"
  have w: "0 < w" "w \<le> 16" by (auto simp: w_def)
  have m': "m' = assign_workers w ?m"
    using assms(1,4) by (simp add: manager_start_def w_def Let_def)
  show "am_haClients m' = am_haClients m" "am_nextClient m' = am_nextClient m" "connections h m' = connections h m"
    "ha_clients (am_has m' h) = ha_clients (am_has m h)" "queues_ok m'" "0 < am_workerNum m'"
    using w assms(3) by (auto simp: m' assign_workers_frame connections_def queues_ok_def nth_append)
  have "ha_workerIdx (am_has m' i) = i mod w" if "i < k" for i
    using that workerIdx_assigned [OF w(1), of i "[0..<k]" "am_has m"] assms(2) by (simp add: m' assign_workers_def)
  then show "\<forall>h < k. served m' h"
    using w by (auto simp: served_def m' assign_workers_frame nth_append)
qed

lemma start_inv:
  assumes "service_inv v" "efd \<noteq> -1" "service_start efd sw cw lanes v = Inr v'"
  shows "service_inv v'"
proof -
  have v': "svc_added v' = svc_added v" "svc_nextClient v' = svc_nextClient v" "svc_clients v' = svc_clients v"
    "service_origin v' = service_origin v" "svc_startAsyncMgr v' \<longleftrightarrow> 0 < cw"
    "svc_mgr v' = (if 0 < cw then manager_start efd cw (svc_mgr v) else svc_mgr v)"
    using assms(3) by (auto simp: service_start_def Let_def service_origin_def map_sum_def split: sum.splits if_splits)
  have i: "am_haClients (svc_mgr v) = [0..<svc_nextClient v]" "queues_ok (svc_mgr v)"
    using assms(1) by (simp_all add: service_inv_def)
  show ?thesis
  proof (cases "0 < cw")
    case True
    note m = manager_start_served [OF assms(2) i refl, where n = cw]
    from True assms(1) show ?thesis
      unfolding service_inv_def v' by (simp add: m)
  next
    case False
    with assms(1) show ?thesis unfolding service_inv_def v' by simp
  qed
qed

lemma step_inv:
  assumes "service_inv v" "service_step e v = Some v'"
  shows "service_inv v'"
proof (cases e)
  case (SAdd al envs grp)
  with assms add_inv show ?thesis by auto
next
  case (SStart efd sw cw lanes)
  with assms start_inv show ?thesis by (auto split: if_splits sum.splits)
qed (use assms in \<open>auto simp: service_open_def service_inv_def service_origin_def split: prod.splits\<close>)

interpretation svc: inductive_invariant service_step "\<lambda>v. \<exists>conf heap users clients has. v = service_new conf heap users clients has" service_inv
proof unfold_locales
  fix v assume "\<exists>conf heap users clients has. v = service_new conf heap users clients has"
  then show "service_inv v" using service_new_inv by blast
qed (rule step_inv)


definition sample_alloc :: allocator where
  "sample_alloc = \<lparr>alloc_ok = \<lambda>_. True, fresh = \<lambda>_. 0\<rparr>"

definition sample_env :: conn_env where
  "sample_env = \<lparr>ce_addrinfo = True, ce_socket = 9, ce_connect = 0, ce_errno = EAGAIN, ce_select = 1, ce_isset = True,
     ce_getsockopt_ok = True, ce_soerror = 0, ce_now = 5\<rparr>"

definition sample_grp :: "ServerConfig list" where
  "sample_grp = [ServerConfig_make (lit ''logic'') 101 (lit ''localhost'') 35101, ServerConfig_make (lit ''logic'') 101 (lit ''127.0.0.1'') 35101]"

definition sample_service :: net_service where
  "sample_service = service_new (ServerConfig_make (lit ''gate'') 107 (lit ''::'') 35107) (\<lambda>_. user_new sample_alloc)
    (\<lambda>_. \<lparr>nu_user = user_new sample_alloc, nu_baseOrigin = 107, nu_handler = None\<rparr>)
    (\<lambda>_. asynclt_new sample_alloc None [] 0 1 []) (\<lambda>_. ha_asynclt_new [])"


text \<open>
  A service that starts without workers for its clients, which is the default, keeps its clients unserved: the manager has no
  worker, no poller and no monitored connection, and stopping the service does not release the clients.
\<close>

lemma clients_without_manager:
  assumes "service_start efd sw 0 lanes v = Inr v'"
  shows "svc_mgr v' = svc_mgr v \<and> svc_mgr (service_serveUtilStop v') = svc_mgr v"
  using assms by (auto simp: service_start_def service_serveUtilStop_def Let_def map_sum_def split: sum.splits)

lemma stop_releases:
  assumes "svc_startAsyncMgr v"
  shows "am_haClients (svc_mgr (service_serveUtilStop v)) = []" "ns_userHandlers (svc_net (service_serveUtilStop v)) = []"
  using assms by (simp_all add: service_serveUtilStop_def manager_serveUtilStop_def clearClients_def Let_def)

end
