(* ===== verification/Relay.thy ===== *)
theory Relay
  imports NetServer
begin

text \<open>
  The service \<^verbatim>\<open>src/examples/lycommon.cpp\<close>, which answers its clients with what another service says: its handler saves the
  request as pending, forwards it under the number it got for it, and the handler of the forwarded request
  answers the pending one.  Server, outgoing client and manager of one process are a triple.  The theorem follows a
  request over three processes and four messages.
\<close>

type_synonym relay = "net_server \<times> net_client \<times> async_client_manager"

text \<open>\<open>lam\<close> names the function object that the handler passes to \<^verbatim>\<open>request\<close>; the result of \<^verbatim>\<open>request\<close> is not looked at.\<close>

definition relay_onRequest :: "nat \<Rightarrow> nat \<Rightarrow> lymsg_header \<Rightarrow> bytes \<Rightarrow> relay \<Rightarrow> memerr + (u64 \<times> relay)" where
  "relay_onRequest lam uid reqHeader reqData = (\<lambda>(s, c, m).
    let header = copyHeader reqHeader;
        (asyncReqId, s) = savePenddingReq uid reqHeader reqData s
    in map_sum id (\<lambda>(rc, c, m). (ASYNC_RESPONSE, s, c, m))
         (net_request (Some (header\<lparr>serial := asyncReqId\<rparr>)) reqData (Some lam) c m))"

definition relay_lambda :: "lymsg_header \<Rightarrow> bytes \<Rightarrow> net_server \<Rightarrow> std_exception + net_server" where
  "relay_lambda respHeader respData s = map_sum id snd (response net_createResponse (serial respHeader) respData s)"

text \<open>\<^verbatim>\<open>NetUser::onRequest\<close> with this handler, which is registered as \<open>hid\<close>; a request of another kind is dropped.\<close>

definition relay_user_onRequest :: "nat \<Rightarrow> nat \<Rightarrow> nat \<Rightarrow> lymsg_header \<Rightarrow> bytes \<Rightarrow> relay \<Rightarrow> memerr + relay" where
  "relay_user_onRequest hid lam uid reqHeader reqData = (\<lambda>(s, c, m).
    let u = ns_users s uid;
        handler = (case nu_handler u of None \<Rightarrow> getUserHandler (origin reqHeader) s | Some h \<Rightarrow> Some h);
        s = s\<lparr>ns_users := (ns_users s)(uid := u\<lparr>nu_handler := handler\<rparr>)\<rparr>
    in if handler = Some hid then map_sum id snd (relay_onRequest lam uid reqHeader reqData (s, c, m)) else Inr (s, c, m))"

definition relay_onRecvMsg :: "nat \<Rightarrow> nat \<Rightarrow> nat \<Rightarrow> tcp_message \<Rightarrow> relay \<Rightarrow> memerr + relay" where
  "relay_onRecvMsg hid lam uid msg r =
    (case unpackMsg (Some msg) null_header [] of (rc, reqHeader, reqData) \<Rightarrow>
       if rc = 0 then relay_user_onRequest hid lam uid reqHeader reqData r else Inr r)"

text \<open>A response of the other service: the calls that \<^verbatim>\<open>NetClient::onResponse\<close> makes of this function object.\<close>

fun run_lambdas ::
  "(lymsg_header \<Rightarrow> bytes \<Rightarrow> net_server \<Rightarrow> std_exception + net_server) \<Rightarrow> nat \<Rightarrow> (nat option \<times> lymsg_header \<times> bytes) list \<Rightarrow> net_server \<Rightarrow>
    std_exception + net_server" where
  "run_lambdas body lam [] s = Inr s"
| "run_lambdas body lam ((f, h, d) # calls) s =
    (if f = Some lam then (case body h d s of Inl e \<Rightarrow> Inl e | Inr s' \<Rightarrow> run_lambdas body lam calls s') else run_lambdas body lam calls s)"

definition relay_onResponse :: "nat \<Rightarrow> tcp_message \<Rightarrow> relay \<Rightarrow> std_exception + relay" where
  "relay_onResponse lam msg = (\<lambda>(s, c, m).
    let c' = net_onResponse msg c
    in map_sum id (\<lambda>s. (s, c', m)) (run_lambdas relay_lambda lam (drop (length (nc_called c)) (nc_called c')) s))"

section \<open>The hops\<close>

text \<open>What the server of the relay does is what \<^verbatim>\<open>NetServer\<close> does with a handler that saves the request and answers later.\<close>

definition saving_handler :: user_handler where
  "saving_handler hid uid reqHeader reqData s = (ASYNC_RESPONSE, [], snd (savePenddingReq uid reqHeader reqData s))"

lemma relay_server_side:
  assumes "relay_onRecvMsg hid lam uid msg (s, c, m) = Inr (s', c', m')"
    and "\<forall>g. g \<noteq> hid \<longrightarrow> nu_handler (ns_users s uid) \<noteq> Some g \<and> (\<forall>org. getUserHandler org s \<noteq> Some g)"
  shows "net_onRecvMsg (net_onRequest saving_handler net_createResponse) uid msg s = Inr s'"
  using assms
  by (auto simp: relay_onRecvMsg_def relay_user_onRequest_def relay_onRequest_def net_onRecvMsg_def net_onRequest_def
      saving_handler_def ASYNC_RESPONSE_def SYNC_RESPONSE_def NO_RESPONSE_def Let_def map_sum_def
      split: prod.splits sum.splits if_splits option.splits)

text \<open>
  The relay is waiting for the answer to request \<open>k\<close> of the connection \<open>uid\<close>: whatever else has happened, the request is
  pending, its function object is registered, and the connection is there with room in its queue.
\<close>

definition awaiting :: "nat \<Rightarrow> nat \<Rightarrow> u64 \<Rightarrow> ReqContext \<Rightarrow> u16 \<Rightarrow> relay \<Rightarrow> bool" where
  "awaiting lam uid k ctx org = (\<lambda>(s, c, m).
    net_inv s \<and> shard_lookup (ns_reqShards s) k = Some ctx \<and> rq_user ctx = uid \<and> map_of (nc_msgHandlers c) k = Some lam \<and>
    uid \<in> set (ns_alive s) \<and> nu_baseOrigin (ns_users s uid) = org \<and> length (user_queue uid s) \<le> MaxPendingMsg)"

lemma handled_save:
  assumes "net_inv s" "ns_reqIdCreator s \<noteq> -1"
  obtains s1 where "savePenddingReq uid rh d (s\<lparr>ns_users := (ns_users s)(uid := (ns_users s uid)\<lparr>nu_handler := h\<rparr>)\<rparr>) = (ns_reqIdCreator s, s1)" "net_inv s1"
    "shard_lookup (ns_reqShards s1) (ns_reqIdCreator s) = Some \<lparr>rq_user = uid, rq_header = rh, rq_data = d\<rparr>"
    "user_queue uid s1 = user_queue uid s" "ns_alive s1 = ns_alive s" "nu_baseOrigin (ns_users s1 uid) = nu_baseOrigin (ns_users s uid)"
proof -
  let ?s = "s\<lparr>ns_users := (ns_users s)(uid := (ns_users s uid)\<lparr>nu_handler := h\<rparr>)\<rparr>"
  obtain k s1 where sv: "savePenddingReq uid rh d ?s = (k, s1)" by fastforce
  have "net_inv ?s" "ns_reqIdCreator ?s \<noteq> -1" using assms by (simp_all add: net_inv_def)
  note sp = savePenddingReq_spec [OF this sv]
  have "k = ns_reqIdCreator s" using sv by (simp add: savePenddingReq_def genRequestId_def)
  with that [of s1] sv sp show thesis by (simp add: user_queue_def)
qed

lemma relay_saves:
  assumes "net_inv s" "ns_reqIdCreator s \<noteq> -1" "handler_for uid (origin rh) s = Some hid"
    and "net_request (Some (rh\<lparr>serial := ns_reqIdCreator s\<rparr>)) d (Some lam) rc rm = Inr (code, rc1, rm1)"
  obtains s1 where "relay_user_onRequest hid lam uid rh d (s, rc, rm) = Inr (s1, rc1, rm1)" "net_inv s1"
    "shard_lookup (ns_reqShards s1) (ns_reqIdCreator s) = Some \<lparr>rq_user = uid, rq_header = rh, rq_data = d\<rparr>"
    "user_queue uid s1 = user_queue uid s" "ns_alive s1 = ns_alive s" "nu_baseOrigin (ns_users s1 uid) = nu_baseOrigin (ns_users s uid)"
  using assms(3,4) by (rule_tac handled_save [OF assms(1,2), of uid rh d "Some hid"])
    (simp add: relay_user_onRequest_def relay_onRequest_def handler_for_def)

text \<open>The request is saved, and forwarded under the number it got, with the message on a connection of the relay's client.\<close>

lemma relay_forwards:
  assumes "net_inv s" "ns_reqIdCreator s \<noteq> -1" "uid \<in> set (ns_alive s)" "length (user_queue uid s) \<le> MaxPendingMsg"
    and "handler_for uid (origin rh) s = Some hid" "ha_ready (nc_ha rc) rm"
    and "map_of (nc_msgHandlers rc) (ns_reqIdCreator s) = None"
  obtains s1 rc1 rm1 where "relay_user_onRequest hid lam uid rh d (s, rc, rm) = Inr (s1, rc1, rm1)"
    "awaiting lam uid (ns_reqIdCreator s) \<lparr>rq_user = uid, rq_header = rh, rq_data = d\<rparr> (nu_baseOrigin (ns_users s uid)) (s1, rc1, rm1)"
    "posted (nc_ha rc) (packMsg (rh\<lparr>serial := ns_reqIdCreator s, origin := nc_localOrigin rc\<rparr>) d) rm rm1"
proof -
  obtain rc1 rm1 where r: "net_request (Some (rh\<lparr>serial := ns_reqIdCreator s\<rparr>)) d (Some lam) rc rm = Inr (0, rc1, rm1)"
    by (rule net_request_ready [OF assms(6)])
  have "map_of (nc_msgHandlers rc1) (ns_reqIdCreator s) = Some lam"
    using net_request_cases [OF r] assms(7) by (simp add: map_of_handler_insert)
  moreover obtain s1 where "relay_user_onRequest hid lam uid rh d (s, rc, rm) = Inr (s1, rc1, rm1)" "net_inv s1"
    "shard_lookup (ns_reqShards s1) (ns_reqIdCreator s) = Some \<lparr>rq_user = uid, rq_header = rh, rq_data = d\<rparr>"
    "user_queue uid s1 = user_queue uid s" "ns_alive s1 = ns_alive s" "nu_baseOrigin (ns_users s1 uid) = nu_baseOrigin (ns_users s uid)"
    by (rule relay_saves [OF assms(1,2,5) r])
  ultimately show thesis
    using that [of s1 rc1 rm1] net_request_queues [OF r] assms(3,4) by (simp add: awaiting_def)
qed

lemma awaited_response:
  assumes "awaiting lam uid k ctx org (t, tc, tm)" and "t1 = t\<lparr>ns_reqShards := snd (shard_take k (ns_reqShards t))\<rparr>"
    and "cr uid (rq_header ctx) r t1 = Inr resp"
  shows "response cr k r t = Inr (0, postMsg uid resp t1)" and "user_queue uid (postMsg uid resp t1) = user_queue uid t @ [resp]"
    and "shard_lookup (ns_reqShards (postMsg uid resp t1)) k = None"
proof -
  show r: "response cr k r t = Inr (0, postMsg uid resp t1)"
    using assms by (auto simp: awaiting_def response_spec Let_def)
  show "user_queue uid (postMsg uid resp t1) = user_queue uid t @ [resp]"
    using assms(1,2) postMsg_queue [of uid resp t1] by (simp add: awaiting_def user_queue_def)
  show "shard_lookup (ns_reqShards (postMsg uid resp t1)) k = None"
    using assms(1) response_forgets(1) [OF _ r] by (simp add: awaiting_def)
qed

lemma awaited_calls:
  assumes "awaiting lam uid k ctx org (t, tc, tm)" and "unpackMsg (Some msg) null_header [] = (0, rh, r)" and "serial rh = k"
  shows "drop (length (nc_called tc)) (nc_called (net_onResponse msg tc)) = [(Some lam, rh, r)]"
  using assms by (simp add: net_onResponse_def awaiting_def)

lemma relay_answers:
  assumes "awaiting lam uid k ctx org (t, tc, tm)" and "unpackMsg (Some msg) null_header [] = (0, rh, r)" and "serial rh = k"
    and "resp = createResponse org (rq_header ctx) r"
  obtains t' tc' where "relay_onResponse lam msg (t, tc, tm) = Inr (t', tc', tm)" "user_queue uid t' = user_queue uid t @ [resp]"
    "shard_lookup (ns_reqShards t') k = None"
proof -
  let ?t = "t\<lparr>ns_reqShards := snd (shard_take k (ns_reqShards t))\<rparr>"
  have "net_createResponse uid (rq_header ctx) r ?t = Inr resp"
    using assms(1,4) by (simp add: awaiting_def net_createResponse_def)
  note R = awaited_response [OF assms(1) refl, of net_createResponse, OF this]
  have "relay_onResponse lam msg (t, tc, tm) = Inr (postMsg uid resp ?t, net_onResponse msg tc, tm)"
    using awaited_calls [OF assms(1-3)] R(1) assms(3) by (simp add: relay_onResponse_def relay_lambda_def)
  then show thesis using R(2,3) by (rule that)
qed

text \<open>
  C10: A request that is relayed comes back to the one who asked.  The message that the client's request put on a connection makes the relay
  save the request and put one message on a connection of its own client, under a number of its own; the other service, which
  takes that message from there, hands the client's data to its handler and answers once; and whatever the relay and the
  client did in between, when that answer arrives and the request is still pending the relay queues one
  response for the connection the request came from, forgets the request, and the response calls the client's
  handler for that very request, with the client's serial number and the other service's data.
\<close>

theorem relayed_request_returns:
  assumes "net_request (Some h) d (Some f) c m = Inr (0, c1, m1)" and "map_of (nc_msgHandlers c) (serial h) = None"
    and "net_inv s" and "ns_reqIdCreator s \<noteq> -1" and "uid \<in> set (ns_alive s)" and "length (user_queue uid s) \<le> MaxPendingMsg"
    and "handler_for uid (nc_localOrigin c) s = Some hid"
    and "ha_ready (nc_ha rc) rm" and "map_of (nc_msgHandlers rc) (ns_reqIdCreator s) = None"
    and "handler_for luid (nc_localOrigin rc) ls = Some g" and "length (user_queue luid ls) \<le> MaxPendingMsg"
    and "\<And>s'. uh g luid \<lparr>origin = nc_localOrigin rc, reserve = reserve h, hdr_type = hdr_type h, serial = swap32 (ns_reqIdCreator s),
      hdr_size = of_nat (length d)\<rparr> d s' = (SYNC_RESPONSE, r, s')"
  shows "\<exists>req s1 rc1 rm1 ctx org fwd ls' lresp.
    posted (nc_ha c) req m m1 \<and> map_of (nc_msgHandlers c1) (serial h) = Some f \<and>
    relay_onRecvMsg hid lam uid req (s, rc, rm) = Inr (s1, rc1, rm1) \<and>
    awaiting lam uid (ns_reqIdCreator s) ctx org (s1, rc1, rm1) \<and> posted (nc_ha rc) fwd rm rm1 \<and>
    net_onRecvMsg (net_onRequest uh net_createResponse) luid fwd ls = Inr ls' \<and> user_queue luid ls' = user_queue luid ls @ [lresp] \<and>
    (\<forall>t tc tm cc. awaiting lam uid (ns_reqIdCreator s) ctx org (t, tc, tm) \<and> map_of (nc_msgHandlers cc) (serial h) = Some f \<longrightarrow>
      (\<exists>t' tc' resp. relay_onResponse lam lresp (t, tc, tm) = Inr (t', tc', tm) \<and>
        user_queue uid t' = user_queue uid t @ [resp] \<and> shard_lookup (ns_reqShards t') (ns_reqIdCreator s) = None \<and>
        nc_called (net_onResponse resp cc) = nc_called cc @
          [(Some f, \<lparr>origin = org, reserve = 0, hdr_type = hdr_type h OR LYMSG_TYPE_RESP, serial = serial h, hdr_size = of_nat (length r)\<rparr>, r)]))"
proof -
  let ?h = "h\<lparr>origin := nc_localOrigin c\<rparr>" and ?k = "ns_reqIdCreator s" and ?org = "nu_baseOrigin (ns_users s uid)"
  define rh where "rh = ?h\<lparr>hdr_size := of_nat (length d), serial := swap32 (serial h)\<rparr>"
  define ctx where "ctx = \<lparr>rq_user = uid, rq_header = rh, rq_data = d\<rparr>"
  define fh where "fh = rh\<lparr>serial := ?k, origin := nc_localOrigin rc\<rparr>"
  have hid: "handler_for uid (origin rh) s = Some hid" using assms(7) by (simp add: rh_def)
  obtain s1 rc1 rm1 where s1: "relay_user_onRequest hid lam uid rh d (s, rc, rm) = Inr (s1, rc1, rm1)"
    "awaiting lam uid ?k ctx ?org (s1, rc1, rm1)" "posted (nc_ha rc) (packMsg fh d) rm rm1"
    unfolding ctx_def fh_def by (rule relay_forwards [OF assms(3-6) hid assms(8,9)])
  then have rec: "relay_onRecvMsg hid lam uid (packMsg ?h d) (s, rc, rm) = Inr (s1, rc1, rm1)"
    by (simp add: relay_onRecvMsg_def unpack_request rh_def)
  have lh: "fh\<lparr>hdr_size := of_nat (length d), serial := swap32 (serial fh)\<rparr> = \<lparr>origin = nc_localOrigin rc, reserve = reserve h,
      hdr_type = hdr_type h, serial = swap32 ?k, hdr_size = of_nat (length d)\<rparr>" (is "?lh = _")
    by (simp add: fh_def rh_def)
  have g: "handler_for luid (origin fh) ls = Some g" using assms(10) by (simp add: fh_def)
  have uh: "uh g luid ?lh d s' = (SYNC_RESPONSE, r, s')" for s' unfolding lh by (rule assms(12))
  let ?lresp = "createResponse (nu_baseOrigin (ns_users ls luid)) ?lh r"
  obtain ls' where ls': "net_onRecvMsg (net_onRequest uh net_createResponse) luid (packMsg fh d) ls = Inr ls'"
    "user_queue luid ls' = user_queue luid ls @ [?lresp]"
    by (rule server_replies [OF g refl, where uh = uh and r = r, OF uh assms(11)])
  obtain rrh where l: "unpackMsg (Some ?lresp) null_header [] = (0, rrh, r)" "serial rrh = ?k"
    by (simp add: createResponse_def unpack_request fh_def)
  have c1: "map_of (nc_msgHandlers c1) (serial h) = Some f"
    using net_request_cases [OF assms(1)] assms(2) by (simp add: map_of_handler_insert)
  have "\<exists>t' tc' resp. relay_onResponse lam ?lresp (t, tc, tm) = Inr (t', tc', tm) \<and>
        user_queue uid t' = user_queue uid t @ [resp] \<and> shard_lookup (ns_reqShards t') ?k = None \<and>
        nc_called (net_onResponse resp cc) = nc_called cc @
          [(Some f, \<lparr>origin = ?org, reserve = 0, hdr_type = hdr_type h OR LYMSG_TYPE_RESP, serial = serial h, hdr_size = of_nat (length r)\<rparr>, r)]"
    if w: "awaiting lam uid ?k ctx ?org (t, tc, tm)" and cc: "map_of (nc_msgHandlers cc) (serial h) = Some f" for t tc tm cc
  proof -
    obtain t' tc' where "relay_onResponse lam ?lresp (t, tc, tm) = Inr (t', tc', tm)"
      "user_queue uid t' = user_queue uid t @ [createResponse ?org (rq_header ctx) r]" "shard_lookup (ns_reqShards t') ?k = None"
      by (rule relay_answers [OF w l refl])
    moreover have "nc_called (net_onResponse (createResponse ?org (rq_header ctx) r) cc) = nc_called cc @
          [(Some f, \<lparr>origin = ?org, reserve = 0, hdr_type = hdr_type h OR LYMSG_TYPE_RESP, serial = serial h, hdr_size = of_nat (length r)\<rparr>, r)]"
      using client_called [OF cc, of "rq_header ctx" ?org r] by (simp add: ctx_def rh_def)
    ultimately show ?thesis by blast
  qed
  then show ?thesis using net_request_queues [OF assms(1)] c1 rec s1(2,3) ls' by blast
qed

definition sample_net_user :: net_user where
  "sample_net_user = \<lparr>nu_user = user_new \<lparr>alloc_ok = \<lambda>_. True, fresh = \<lambda>_. 0\<rparr>, nu_baseOrigin = 2, nu_handler = None\<rparr>"

definition sample_relay_server :: net_server where
  "sample_relay_server = (registerUserHandler 7 5 (net_server_new 2 (\<lambda>_. sample_net_user)))\<lparr>ns_alive := [3]\<rparr>"

lemma sample_relay_server:
  "net_inv sample_relay_server" "ns_reqIdCreator sample_relay_server = 101" "ns_alive sample_relay_server = [3]"
  "user_queue uid sample_relay_server = []" "nu_handler (ns_users sample_relay_server uid) = None"
  "getUserHandler 7 sample_relay_server = Some 5" "handler_for uid 7 sample_relay_server = Some 5"
  using net_server_new_inv [of 2 "\<lambda>_. sample_net_user"]
  by (simp_all add: sample_relay_server_def registerUserHandler_def net_inv_def net_server_new_def MinRequestId_def user_queue_def
      sample_net_user_def user_new_def getUserHandler_def handler_for_def AList.update_conv')

theorem relayed_request_returns_witness:
  "\<exists>c1 m1 req s1 rc1 rm1 ctx org fwd lresp t'. net_request (Some (null_header\<lparr>serial := 6\<rparr>)) [4] (Some 9) (net_client_new 0 7) sample_manager = Inr (0, c1, m1) \<and>
    posted 0 req sample_manager m1 \<and>
    relay_onRecvMsg 5 8 3 req (sample_relay_server, net_client_new 0 7, sample_manager) = Inr (s1, rc1, rm1) \<and>
    awaiting 8 3 101 ctx org (s1, rc1, rm1) \<and> posted 0 fwd sample_manager rm1 \<and> relay_onResponse 8 lresp (s1, rc1, rm1) = Inr t' \<and>
    (\<exists>resp. user_queue 3 (fst t') = user_queue 3 s1 @ [resp] \<and>
      nc_called (net_onResponse resp c1) = [(Some 9, \<lparr>origin = org, reserve = 0, hdr_type = LYMSG_TYPE_RESP, serial = 6, hdr_size = 2\<rparr>, [4, 4])])"
proof -
  let ?c = "net_client_new 0 7" and ?h = "null_header\<lparr>serial := 6\<rparr>" and ?s = sample_relay_server
  let ?uh = "\<lambda>(g::nat) (u::nat) (h::lymsg_header) (d::bytes) (s::net_server). (SYNC_RESPONSE, d @ d, s)"
  have ready: "ha_ready (nc_ha ?c) sample_manager" by (rule sample_manager_ready)
  obtain c1 m1 where a: "net_request (Some ?h) [4] (Some 9) ?c sample_manager = Inr (0, c1, m1)"
    by (rule net_request_ready [OF ready])
  have n: "map_of (nc_msgHandlers ?c) k = None" "nc_localOrigin ?c = 7" "nc_ha ?c = 0" for k by (simp_all add: net_client_new_def)
  have s: "ns_reqIdCreator ?s \<noteq> -1" "3 \<in> set (ns_alive ?s)" "length (user_queue 3 ?s) \<le> MaxPendingMsg"
    "handler_for 3 (nc_localOrigin ?c) ?s = Some 5" "ns_reqIdCreator ?s = 101"
    by (simp_all add: sample_relay_server n)
  note R = relayed_request_returns [OF a n(1) sample_relay_server(1) s(1-4) ready n(1) s(4,3), where uh = ?uh and r = "[4, 4]" and lam = 8,
      unfolded n(3) s(5)]
  obtain req s1 rc1 rm1 ctx org fwd lresp where s1: "posted 0 req sample_manager m1" "map_of (nc_msgHandlers c1) (serial ?h) = Some 9"
    "relay_onRecvMsg 5 8 3 req (?s, ?c, sample_manager) = Inr (s1, rc1, rm1)" "awaiting 8 3 101 ctx org (s1, rc1, rm1)" "posted 0 fwd sample_manager rm1"
    and step: "\<And>t tc tm cc. awaiting 8 3 101 ctx org (t, tc, tm) \<and> map_of (nc_msgHandlers cc) (serial ?h) = Some 9 \<longrightarrow>
      (\<exists>t' tc' resp. relay_onResponse 8 lresp (t, tc, tm) = Inr (t', tc', tm) \<and> user_queue 3 t' = user_queue 3 t @ [resp] \<and>
        shard_lookup (ns_reqShards t') 101 = None \<and>
        nc_called (net_onResponse resp cc) = nc_called cc @
          [(Some 9, \<lparr>origin = org, reserve = 0, hdr_type = hdr_type ?h OR LYMSG_TYPE_RESP, serial = serial ?h, hdr_size = of_nat (length [4, 4 :: byte])\<rparr>, [4, 4])])"
    using R by simp blast
  have "nc_called c1 = []"
    using net_request_cases [OF a] by (simp add: net_client_new_def)
  moreover have "hdr_type ?h OR LYMSG_TYPE_RESP = LYMSG_TYPE_RESP" "serial ?h = 6" by (simp_all add: null_header_def)
  ultimately show ?thesis using step [of s1 rc1 rm1 c1] a s1 by (auto, metis append_Nil fst_conv)
qed

text \<open>
  A request that cannot be forwarded is never answered: it stays among the pending ones, nothing is queued for the client, and no
  function object waits for it.
\<close>

lemma unforwarded_request_stays:
  assumes "net_inv s" "ns_reqIdCreator s \<noteq> -1" "handler_for uid (origin rh) s = Some hid"
    and "net_request (Some (rh\<lparr>serial := ns_reqIdCreator s\<rparr>)) d (Some lam) rc rm = Inr (code, rc1, rm1)" "code \<noteq> 0"
  obtains s1 where "relay_user_onRequest hid lam uid rh d (s, rc, rm) = Inr (s1, rc1, rm1)"
    "shard_lookup (ns_reqShards s1) (ns_reqIdCreator s) = Some \<lparr>rq_user = uid, rq_header = rh, rq_data = d\<rparr>"
    "user_queue uid s1 = user_queue uid s" "map_of (nc_msgHandlers rc1) (ns_reqIdCreator s) = None"
proof -
  have "map_of (nc_msgHandlers rc1) (ns_reqIdCreator s) = None"
    using net_request_cases [OF assms(4)] assms(5) by (simp add: map_of_handler_delete)
  with relay_saves [OF assms(1-4)] that show thesis by metis
qed

end
