(* ===== verification/GateRelay.thy ===== *)
theory GateRelay
  imports GateServer Relay
begin

text \<open>
  The gateway \<^verbatim>\<open>src/examples/lygate.cpp\<close>: clients with an encrypted session on one side, a plain service on the other.  Its handler is
  that of the relay, on the server part of the gateway; requests are decrypted before it sees them and responses
  are encrypted for the session of the connection they go to.
\<close>

type_synonym gate_relay = "gate_server \<times> net_client \<times> async_client_manager"

definition gate_relay_forward :: "nat \<Rightarrow> nat \<Rightarrow> nat \<Rightarrow> lymsg_header \<Rightarrow> bytes \<Rightarrow> gate_relay \<Rightarrow> (std_exception + memerr) + gate_relay" where
  "gate_relay_forward hid lam uid reqHeader reqData = (\<lambda>(g, c, m).
    map_sum Inr (\<lambda>(s, c, m). (g\<lparr>gs_net := s\<rparr>, c, m)) (relay_user_onRequest hid lam uid reqHeader reqData (gs_net g, c, m)))"

definition gate_relay_onRequest ::
  "openssl \<Rightarrow> nat \<Rightarrow> nat \<Rightarrow> nat \<Rightarrow> nat \<Rightarrow> lymsg_header \<Rightarrow> bytes \<Rightarrow> gate_relay \<Rightarrow> (std_exception + memerr) + gate_relay" where
  "gate_relay_onRequest ssl rnd hid lam uid reqHeader reqData = (\<lambda>(g, c, m).
    if hdr_type reqHeader = LYMSG_TYPE_HANDSHAKE then map_sum Inl (\<lambda>g. (g, c, m)) (gate_handshake ssl rnd uid reqHeader reqData g)
    else if hdr_type reqHeader AND LYMSG_TYPE_ENC \<noteq> 0 then
      if isHandshakeDone (gs_users g uid) then
        (case gate_decrypt ssl (gs_users g uid) reqData of Inl e \<Rightarrow> Inl (Inl e)
         | Inr None \<Rightarrow> Inr (g, c, m)
         | Inr (Some decrypted) \<Rightarrow> gate_relay_forward hid lam uid reqHeader decrypted (g, c, m))
      else Inr (g, c, m)
    else gate_relay_forward hid lam uid reqHeader reqData (g, c, m))"

definition gate_relay_onRecvMsg ::
  "openssl \<Rightarrow> nat \<Rightarrow> nat \<Rightarrow> nat \<Rightarrow> nat \<Rightarrow> tcp_message \<Rightarrow> gate_relay \<Rightarrow> (std_exception + memerr) + gate_relay" where
  "gate_relay_onRecvMsg ssl rnd hid lam uid msg r =
    (case unpackMsg (Some msg) null_header [] of (rc, reqHeader, reqData) \<Rightarrow>
       if rc = 0 then gate_relay_onRequest ssl rnd hid lam uid reqHeader reqData r else Inr r)"

definition gate_relay_lambda :: "openssl \<Rightarrow> (nat \<Rightarrow> gate_user) \<Rightarrow> lymsg_header \<Rightarrow> bytes \<Rightarrow> net_server \<Rightarrow> std_exception + net_server" where
  "gate_relay_lambda ssl gu respHeader respData s =
    map_sum id snd (response (gate_createResponse ssl gu) (serial respHeader) respData s)"

definition gate_relay_onResponse :: "openssl \<Rightarrow> nat \<Rightarrow> tcp_message \<Rightarrow> gate_relay \<Rightarrow> std_exception + gate_relay" where
  "gate_relay_onResponse ssl lam msg = (\<lambda>(g, c, m).
    let c' = net_onResponse msg c
    in map_sum id (\<lambda>s. (g\<lparr>gs_net := s\<rparr>, c', m))
         (run_lambdas (gate_relay_lambda ssl (gs_users g)) lam (drop (length (nc_called c)) (nc_called c')) (gs_net g)))"

section \<open>A request through the gateway\<close>

text \<open>The gateway waits for the answer, and the session of the connection is the one of the request.\<close>

definition gate_awaiting :: "nat \<Rightarrow> nat \<Rightarrow> u64 \<Rightarrow> ReqContext \<Rightarrow> u16 \<Rightarrow> gate_user \<Rightarrow> gate_relay \<Rightarrow> bool" where
  "gate_awaiting lam uid k ctx org u = (\<lambda>(g, c, m). awaiting lam uid k ctx org (gs_net g, c, m) \<and> gs_users g uid = u)"

lemma gate_relay_answers:
  assumes "gate_awaiting lam uid k ctx org u (t, tc, tm)" and "unpackMsg (Some msg) null_header [] = (0, rh, r)" and "serial rh = k"
    and "hdr_type (rq_header ctx) AND LYMSG_TYPE_ENC \<noteq> 0" "isHandshakeDone u" "gate_encrypt ssl u r = Inr (Some body)"
    and "resp = createResponse org (rq_header ctx) body"
  obtains t' tc' where "gate_relay_onResponse ssl lam msg (t, tc, tm) = Inr (t', tc', tm)"
    "user_queue uid (gs_net t') = user_queue uid (gs_net t) @ [resp]" "shard_lookup (ns_reqShards (gs_net t')) k = None"
    "gs_users t' = gs_users t"
proof -
  let ?cr = "gate_createResponse ssl (gs_users t)"
  let ?t = "(gs_net t)\<lparr>ns_reqShards := snd (shard_take k (ns_reqShards (gs_net t)))\<rparr>"
  have w: "awaiting lam uid k ctx org (gs_net t, tc, tm)" "gs_users t uid = u"
    using assms(1) by (simp_all add: gate_awaiting_def)
  have "?cr uid (rq_header ctx) r ?t = Inr resp"
    using w assms(4-7) by (simp add: gate_createResponse_def net_createResponse_def awaiting_def)
  note R = awaited_response [OF w(1) refl, of ?cr, OF this]
  have "gate_relay_onResponse ssl lam msg (t, tc, tm) = Inr (t\<lparr>gs_net := postMsg uid resp ?t\<rparr>, net_onResponse msg tc, tm)"
    using awaited_calls [OF w(1) assms(2,3)] R(1) assms(3) by (simp add: gate_relay_onResponse_def gate_relay_lambda_def)
  then show thesis by (rule that) (use R in simp_all)
qed

text \<open>
  C12: An encrypted request through the gateway: the gateway puts one message on a connection of its own client, and the service that takes it
  from there hands the client's data in the clear to its handler, under a number of the gateway's own; and whatever happens in between, when
  its answer arrives and the request is still pending under
  the same session, the gateway queues one response for that client, which carries the client's serial number
  and decrypts under the session to exactly the answer of the service.
\<close>

theorem gateway_relays_encrypted:
  assumes "gate_inv g" and "aes_laws ssl" and "o_block_size ssl (EVP_aes 128 CFB) = 1"
    and "u = gs_users g uid" and "isHandshakeDone u" and "gu_enctype u = eET_AES_CFB" and "s = gs_net g"
    and "hdr_type h AND LYMSG_TYPE_ENC \<noteq> 0" and "hdr_type h \<noteq> LYMSG_TYPE_HANDSHAKE"
    and "net_inv s" and "ns_reqIdCreator s \<noteq> -1" and "uid \<in> set (ns_alive s)" and "length (user_queue uid s) \<le> MaxPendingMsg"
    and "handler_for uid (origin h) s = Some hid"
    and "length d \<le> 2 ^ 31 - 32" and "gate_encrypt ssl u d = Inr (Some e)"
    and "ha_ready (nc_ha rc) rm" and "map_of (nc_msgHandlers rc) (ns_reqIdCreator s) = None"
    and "handler_for luid (nc_localOrigin rc) ls = Some f" and "length (user_queue luid ls) \<le> MaxPendingMsg"
    and "\<And>s'. uh f luid \<lparr>origin = nc_localOrigin rc, reserve = reserve h, hdr_type = hdr_type h, serial = swap32 (ns_reqIdCreator s),
      hdr_size = of_nat (length d)\<rparr> d s' = (SYNC_RESPONSE, r, s')" and "length r \<le> 2 ^ 31 - 32"
  shows "\<exists>g1 rc1 rm1 ctx org fwd ls' lresp.
    gate_relay_onRecvMsg ssl rnd hid lam uid (packMsg h e) (g, rc, rm) = Inr (g1, rc1, rm1) \<and>
    gate_awaiting lam uid (ns_reqIdCreator s) ctx org u (g1, rc1, rm1) \<and> posted (nc_ha rc) fwd rm rm1 \<and>
    net_onRecvMsg (net_onRequest uh net_createResponse) luid fwd ls = Inr ls' \<and>
    user_queue luid ls' = user_queue luid ls @ [lresp] \<and>
    (\<forall>t tc tm. gate_awaiting lam uid (ns_reqIdCreator s) ctx org u (t, tc, tm) \<longrightarrow>
      (\<exists>t' tc' resp rh body. gate_relay_onResponse ssl lam lresp (t, tc, tm) = Inr (t', tc', tm) \<and>
        user_queue uid (gs_net t') = user_queue uid (gs_net t) @ [resp] \<and>
        shard_lookup (ns_reqShards (gs_net t')) (ns_reqIdCreator s) = None \<and>
        unpackMsg (Some resp) null_header [] = (0, rh, body) \<and> serial rh = serial h \<and> gate_decrypt ssl u body = Inr (Some r)))"
proof -
  let ?k = "ns_reqIdCreator s" and ?org = "nu_baseOrigin (ns_users s uid)"
  define rh where "rh = h\<lparr>hdr_size := of_nat (length e), serial := swap32 (serial h)\<rparr>"
  define ctx where "ctx = \<lparr>rq_user = uid, rq_header = rh, rq_data = d\<rparr>"
  define fh where "fh = rh\<lparr>serial := ?k, origin := nc_localOrigin rc\<rparr>"
  have "session_ok u" using assms(1,4) by (simp add: gate_inv_def)
  note ex = gate_exact [OF assms(2) this assms(5,6,3)]
  have dec: "gate_decrypt ssl u e = Inr (Some d)" using ex [OF assms(15)] assms(16) by auto
  obtain body where b: "gate_encrypt ssl u r = Inr (Some body)" "gate_decrypt ssl u body = Inr (Some r)"
    using ex [OF assms(22)] by auto
  have hid: "handler_for uid (origin rh) s = Some hid" using assms(14) by (simp add: rh_def)
  obtain s1 rc1 rm1 where s1: "relay_user_onRequest hid lam uid rh d (s, rc, rm) = Inr (s1, rc1, rm1)"
    "awaiting lam uid ?k ctx ?org (s1, rc1, rm1)" "posted (nc_ha rc) (packMsg fh d) rm rm1"
    unfolding ctx_def fh_def by (rule relay_forwards [OF assms(10-13) hid assms(17,18)])
  have "gate_relay_onRecvMsg ssl rnd hid lam uid (packMsg h e) (g, rc, rm) = Inr (g\<lparr>gs_net := s1\<rparr>, rc1, rm1)"
    using s1(1) dec assms(4,5,7-9)
    by (simp add: gate_relay_onRecvMsg_def unpack_request gate_relay_onRequest_def gate_relay_forward_def rh_def)
  moreover have "gate_awaiting lam uid ?k ctx ?org u (g\<lparr>gs_net := s1\<rparr>, rc1, rm1)"
    using s1(2) assms(4) by (simp add: gate_awaiting_def)
  moreover have lh: "fh\<lparr>hdr_size := of_nat (length d), serial := swap32 (serial fh)\<rparr> = \<lparr>origin = nc_localOrigin rc, reserve = reserve h,
      hdr_type = hdr_type h, serial = swap32 ?k, hdr_size = of_nat (length d)\<rparr>" (is "?lh = _")
    by (simp add: fh_def rh_def)
  have f: "handler_for luid (origin fh) ls = Some f" using assms(19) by (simp add: fh_def)
  have uh: "uh f luid ?lh d s' = (SYNC_RESPONSE, r, s')" for s' unfolding lh by (rule assms(21))
  let ?lresp = "createResponse (nu_baseOrigin (ns_users ls luid)) ?lh r"
  obtain ls' where "net_onRecvMsg (net_onRequest uh net_createResponse) luid (packMsg fh d) ls = Inr ls'"
    "user_queue luid ls' = user_queue luid ls @ [?lresp]"
    by (rule server_replies [OF f refl, where uh = uh and r = r, OF uh assms(20)])
  moreover obtain rrh where l: "unpackMsg (Some ?lresp) null_header [] = (0, rrh, r)" "serial rrh = ?k"
    by (simp add: createResponse_def unpack_request fh_def)
  have "\<exists>t' tc' resp rh body. gate_relay_onResponse ssl lam ?lresp (t, tc, tm) = Inr (t', tc', tm) \<and>
        user_queue uid (gs_net t') = user_queue uid (gs_net t) @ [resp] \<and> shard_lookup (ns_reqShards (gs_net t')) ?k = None \<and>
        unpackMsg (Some resp) null_header [] = (0, rh, body) \<and> serial rh = serial h \<and> gate_decrypt ssl u body = Inr (Some r)"
    if w: "gate_awaiting lam uid ?k ctx ?org u (t, tc, tm)" for t tc tm
  proof -
    let ?resp = "createResponse ?org (rq_header ctx) body"
    have "hdr_type (rq_header ctx) AND LYMSG_TYPE_ENC \<noteq> 0" using assms(8) by (simp add: ctx_def rh_def)
    then obtain t' tc' where "gate_relay_onResponse ssl lam ?lresp (t, tc, tm) = Inr (t', tc', tm)"
      "user_queue uid (gs_net t') = user_queue uid (gs_net t) @ [?resp]" "shard_lookup (ns_reqShards (gs_net t')) ?k = None"
      using gate_relay_answers [OF w l _ assms(5) b(1) refl] by blast
    moreover obtain rh' where "unpackMsg (Some ?resp) null_header [] = (0, rh', body)" "serial rh' = serial h"
      by (simp add: createResponse_def unpack_request ctx_def rh_def)
    ultimately show ?thesis using b(2) by blast
  qed
  ultimately show ?thesis using s1(3) by blast
qed

definition sample_session :: gate_user where
  "sample_session = setHandshakeSuccess (replicate 32 1) eET_AES_CFB gate_user_new"

definition sample_gate :: gate_server where
  "sample_gate = (gate_server_new sample_relay_server)\<lparr>gs_users := \<lambda>_. sample_session\<rparr>"

lemma sample_session: "isHandshakeDone sample_session" "gu_enctype sample_session = eET_AES_CFB" "session_ok sample_session"
  by (simp_all add: sample_session_def setHandshakeSuccess_def gate_user_new_def isHandshakeDone_def session_ok_def is_AES_def eET_list_def)

theorem gateway_relays_encrypted_witness:
  "\<exists>e g1 rc1 rm1 ctx org fwd lresp t' resp rh body.
    gate_encrypt sample_openssl sample_session [4, 5] = Inr (Some e) \<and>
    gate_relay_onRecvMsg sample_openssl 0 5 8 3 (packMsg (null_header\<lparr>origin := 7, hdr_type := LYMSG_TYPE_ENC\<rparr>) e) (sample_gate, net_client_new 0 7, sample_manager) =
      Inr (g1, rc1, rm1) \<and>
    gate_awaiting 8 3 101 ctx org sample_session (g1, rc1, rm1) \<and> posted 0 fwd sample_manager rm1 \<and>
    gate_relay_onResponse sample_openssl 8 lresp (g1, rc1, rm1) = Inr t' \<and> user_queue 3 (gs_net (fst t')) = user_queue 3 (gs_net g1) @ [resp] \<and>
    unpackMsg (Some resp) null_header [] = (0, rh, body) \<and> gate_decrypt sample_openssl sample_session body = Inr (Some [5, 4])"
proof -
  let ?h = "null_header\<lparr>origin := 7, hdr_type := LYMSG_TYPE_ENC\<rparr>" and ?c = "net_client_new 0 7"
  let ?uh = "\<lambda>(g::nat) (u::nat) (h::lymsg_header) (d::bytes) (s::net_server). (SYNC_RESPONSE, rev d, s)"
  have b: "o_block_size sample_openssl (EVP_aes 128 CFB) = 1" by (simp add: sample_openssl_def)
  obtain e where e: "gate_encrypt sample_openssl sample_session [4, 5] = Inr (Some e)"
    using gate_exact [OF sample_aes_laws sample_session(3,1,2) b, of "[4, 5]"] by auto
  have g: "gate_inv sample_gate" "gs_users sample_gate 3 = sample_session" "gs_net sample_gate = sample_relay_server"
    using sample_session(3) by (simp_all add: sample_gate_def gate_inv_def gate_server_new_def)
  have h: "hdr_type ?h AND LYMSG_TYPE_ENC \<noteq> 0" "hdr_type ?h \<noteq> LYMSG_TYPE_HANDSHAKE"
    by (simp_all add: LYMSG_TYPE_ENC_def LYMSG_TYPE_HANDSHAKE_def)
  have s: "ns_reqIdCreator sample_relay_server \<noteq> -1" "3 \<in> set (ns_alive sample_relay_server)"
    "length (user_queue 3 sample_relay_server) \<le> MaxPendingMsg" "handler_for 3 (origin ?h) sample_relay_server = Some 5"
    "map_of (nc_msgHandlers ?c) (ns_reqIdCreator sample_relay_server) = None" "handler_for 3 (nc_localOrigin ?c) sample_relay_server = Some 5"
    by (simp_all add: sample_relay_server net_client_new_def)
  have k: "ns_reqIdCreator sample_relay_server = 101" "nc_ha ?c = 0" by (simp_all add: sample_relay_server net_client_new_def)
  have l: "length [4, 5 :: byte] \<le> 2 ^ 31 - 32" "length [5, 4 :: byte] \<le> 2 ^ 31 - 32" by simp_all
  have uh: "?uh 5 3 hh [4, 5] s = (SYNC_RESPONSE, [5, 4], s)" for hh s by simp
  note R = gateway_relays_encrypted [OF g(1) sample_aes_laws b g(2) [symmetric] sample_session(1,2) g(3) [symmetric] h sample_relay_server(1) s(1-4)
      l(1) e sample_manager_ready s(5,6,3), where uh = ?uh and r = "[5, 4]" and lam = 8, OF uh l(2), of 0, unfolded k]
  from R obtain g1 rc1 rm1 ctx org fwd ls' lresp where g1: "gate_relay_onRecvMsg sample_openssl 0 5 8 3 (packMsg ?h e) (sample_gate, ?c, sample_manager) = Inr (g1, rc1, rm1)"
    "gate_awaiting 8 3 101 ctx org sample_session (g1, rc1, rm1)" "posted 0 fwd sample_manager rm1"
    and "\<forall>t tc tm. gate_awaiting 8 3 101 ctx org sample_session (t, tc, tm) \<longrightarrow>
      (\<exists>t' tc' resp rh body. gate_relay_onResponse sample_openssl 8 lresp (t, tc, tm) = Inr (t', tc', tm) \<and>
        user_queue 3 (gs_net t') = user_queue 3 (gs_net t) @ [resp] \<and> shard_lookup (ns_reqShards (gs_net t')) 101 = None \<and>
        unpackMsg (Some resp) null_header [] = (0, rh, body) \<and> serial rh = serial ?h \<and>
        gate_decrypt sample_openssl sample_session body = Inr (Some [5, 4]))"
    by (elim exE conjE)
  then show ?thesis using e g1 by (metis fst_conv)
qed

end
