(* ===== verification/GateClient.thy ===== *)
theory GateClient
  imports GateServer Relay
begin

text \<open>
  The client of the gateway, \<^verbatim>\<open>src/examples/lygateclt.cpp\<close>: it shakes hands with the gateway, waits for the end of
  the handshake and then sends ten encrypted requests, whose responses it decrypts and shows.  Members that the
  code leaves uninitialized are arguments (\<open>junk\<close>); the text that the JSON library makes of an object is the function
  \<open>dump\<close>.
\<close>

definition LYGATE_CLIENT_ORGIN :: u16 where "LYGATE_CLIENT_ORGIN = 0x10"

definition NID_X9_62_prime256v1 :: int where "NID_X9_62_prime256v1 = 415"

text \<open>\<open>cc_shown\<close> is what the client has logged of the responses.\<close>

record common_client =
  cc_ha :: nat
  cc_clientSide :: handshake_helper
  cc_hsSuccess :: bool
  cc_hsFail :: bool
  cc_temp_symsec :: bytes
  cc_temp_symsec_type :: eEncryptType
  cc_secret :: bytes
  cc_ivec :: bytes
  cc_enctype :: eEncryptType
  cc_shown :: "(lymsg_header \<times> bytes) list"

definition common_client_new :: "eEncryptType \<Rightarrow> nat \<Rightarrow> common_client" where
  "common_client_new junk ha = \<lparr>cc_ha = ha, cc_clientSide = handshake_helper_new, cc_hsSuccess = False, cc_hsFail = False,
     cc_temp_symsec = [], cc_temp_symsec_type = junk, cc_secret = [], cc_ivec = [], cc_enctype = eET_AES_CFB, cc_shown = []\<rparr>"

text \<open>\<open>None\<close> is a failed operation; a read beyond the key is the exception.\<close>

definition clt_encrypt :: "openssl \<Rightarrow> common_client \<Rightarrow> bytes \<Rightarrow> std_exception + bytes option" where
  "clt_encrypt ssl c d = (if \<not> cc_hsSuccess c then Inr None
    else map_sum mem_error (\<lambda>(rc, out). if rc \<noteq> 0 then None else out) (symmetric_encrypt ssl d (cc_secret c) (cc_ivec c) (cc_enctype c) True))"

definition clt_decrypt :: "openssl \<Rightarrow> common_client \<Rightarrow> bytes \<Rightarrow> std_exception + bytes option" where
  "clt_decrypt ssl c d = (if \<not> cc_hsSuccess c then Inr None
    else map_sum mem_error (\<lambda>(rc, out). if rc \<noteq> 0 then None else out) (symmetric_encrypt ssl d (cc_secret c) (cc_ivec c) (cc_enctype c) False))"

definition handshakeDone :: "common_client \<Rightarrow> bool" where
  "handshakeDone c \<longleftrightarrow> cc_hsSuccess c \<or> cc_hsFail c"

text \<open>
  The handshake in two steps: the first ends with the request in the queue, from where another thread sends it; the second
  stores what the answer is decrypted with.
\<close>

definition handshake_post ::
  "openssl \<Rightarrow> rng \<Rightarrow> nat \<Rightarrow> pkey option \<Rightarrow> lymsg_header \<Rightarrow> common_client \<Rightarrow> async_client_manager \<Rightarrow>
   (std_exception + memerr) + HandshakeReq option \<times> common_client \<times> async_client_manager" where
  "handshake_post ssl r rnd loaded junk c m =
    (case loadRSAKey loaded (cc_clientSide c) of (ok, hh) \<Rightarrow>
       if \<not> ok then Inr (None, c\<lparr>cc_clientSide := hh\<rparr>, m)
       else case creatHSReq ssl r rnd KX_ECDH NID_X9_62_prime256v1 eET_AES_CBC hh of
         Inl e \<Rightarrow> Inl (Inl e)
       | Inr (None, hh1) \<Rightarrow> Inr (None, c\<lparr>cc_clientSide := hh1\<rparr>, m)
       | Inr (Some hsReq, hh1) \<Rightarrow>
         (case encryptHSReq ssl hsReq hh1 of Inl e \<Rightarrow> Inl (Inl e)
          | Inr binHSReq \<Rightarrow>
            if binHSReq = [] then Inr (None, c\<lparr>cc_clientSide := hh1\<rparr>, m)
            else let header = junk\<lparr>origin := LYGATE_CLIENT_ORGIN, hdr_type := LYMSG_TYPE_HANDSHAKE, serial := 0\<rparr> in
              case ha_post (cc_ha c) (packMsg header binHSReq) m of Inl e \<Rightarrow> Inl (Inr e)
              | Inr (rc, m1) \<Rightarrow> Inr (if rc \<noteq> 0 then None else Some hsReq, c\<lparr>cc_clientSide := hh1\<rparr>, m1)))"

definition handshake_keep :: "HandshakeReq \<Rightarrow> common_client \<Rightarrow> common_client" where
  "handshake_keep hsReq c = c\<lparr>cc_temp_symsec := q_temp_symsec hsReq, cc_temp_symsec_type := eET_of_nat (unat (q_temp_symsec_type hsReq))\<rparr>"

definition handshake ::
  "openssl \<Rightarrow> rng \<Rightarrow> nat \<Rightarrow> pkey option \<Rightarrow> lymsg_header \<Rightarrow> common_client \<Rightarrow> async_client_manager \<Rightarrow>
   (std_exception + memerr) + bool \<times> common_client \<times> async_client_manager" where
  "handshake ssl r rnd loaded junk c m =
    map_sum id (\<lambda>(hsReq, c, m). case hsReq of None \<Rightarrow> (False, c, m) | Some q \<Rightarrow> (True, handshake_keep q c, m))
      (handshake_post ssl r rnd loaded junk c m)"

text \<open>\<^verbatim>\<open>substr(16, 16)\<close> throws when the key is shorter than sixteen bytes.\<close>

definition clt_onHandshake :: "openssl \<Rightarrow> bytes \<Rightarrow> common_client \<Rightarrow> std_exception + common_client" where
  "clt_onHandshake ssl binHSResp c =
    (if binHSResp = [] then Inr (c\<lparr>cc_hsFail := True\<rparr>)
     else case decryptHSResp ssl binHSResp (cc_temp_symsec c) (cc_temp_symsec_type c) of Inl e \<Rightarrow> Inl e
       | Inr None \<Rightarrow> Inr (c\<lparr>cc_hsFail := True\<rparr>)
       | Inr (Some hsResp) \<Rightarrow>
         (let shareKey = makeShareKey ssl (resp_getPeerPubkey hsResp) (cc_clientSide c) in
          if length shareKey < 16 then Inl out_of_range
          else Inr (c\<lparr>cc_secret := take 16 shareKey, cc_ivec := take 16 (drop 16 shareKey),
                      cc_enctype := eET_of_nat (unat (s_session_symsec_type hsResp)), cc_hsSuccess := True\<rparr>)))"

definition clt_onResponse :: "openssl \<Rightarrow> lymsg_header \<Rightarrow> tcp_message \<Rightarrow> common_client \<Rightarrow> std_exception + common_client" where
  "clt_onResponse ssl junk msg c =
    (case unpackMsg (Some msg) junk [] of (rc, respHeader, respData) \<Rightarrow>
       if hdr_type respHeader = LYMSG_TYPE_HANDSHAKE OR LYMSG_TYPE_RESP then clt_onHandshake ssl respData c
       else map_sum id (\<lambda>result. c\<lparr>cc_shown := cc_shown c @ [(respHeader, case result of None \<Rightarrow> respData | Some x \<Rightarrow> x)]\<rparr>)
         (clt_decrypt ssl c respData))"

text \<open>One request of the worker: encrypted when it can be, else in the clear.\<close>

definition worker_message :: "openssl \<Rightarrow> bytes \<Rightarrow> u64 \<Rightarrow> common_client \<Rightarrow> std_exception + tcp_message" where
  "worker_message ssl jsonstr i c =
    (let header = null_header\<lparr>origin := LYGATE_CLIENT_ORGIN, hdr_type := 0x20 OR LYMSG_TYPE_ENC, serial := i\<rparr> in
     map_sum id (\<lambda>encrypted. case encrypted of
         None \<Rightarrow> packMsg (header\<lparr>hdr_type := hdr_type header AND NOT LYMSG_TYPE_ENC, hdr_size := of_nat (length jsonstr)\<rparr>) jsonstr
       | Some result \<Rightarrow> packMsg (header\<lparr>hdr_size := of_nat (length result)\<rparr>) result)
       (clt_encrypt ssl c jsonstr))"

fun worker_loop ::
  "openssl \<Rightarrow> bytes \<Rightarrow> u64 list \<Rightarrow> common_client \<Rightarrow> async_client_manager \<Rightarrow> (std_exception + memerr) + async_client_manager" where
  "worker_loop ssl jsonstr [] c m = Inr m"
| "worker_loop ssl jsonstr (i # is) c m =
    (case worker_message ssl jsonstr i c of Inl e \<Rightarrow> Inl (Inl e)
     | Inr msg \<Rightarrow>
       (case ha_post (cc_ha c) msg m of Inl e \<Rightarrow> Inl (Inr e)
        | Inr (rc, m1) \<Rightarrow> worker_loop ssl jsonstr is c m1))"

definition worker ::
  "openssl \<Rightarrow> rng \<Rightarrow> (bytes \<Rightarrow> bytes) \<Rightarrow> nat \<Rightarrow> common_client \<Rightarrow> async_client_manager \<Rightarrow> (std_exception + memerr) + async_client_manager" where
  "worker ssl r dump rnd c m =
    (case randomNumber_between r 16 32 rnd of (len, rnd1) \<Rightarrow>
       case randomString r NumbersAndLetters len rnd1 of Inl e \<Rightarrow> Inl (Inl e)
       | Inr (randstr, _) \<Rightarrow> map_sum id manager_stop (worker_loop ssl (dump randstr) (map of_nat [1..<11]) c m))"

section \<open>The session\<close>

lemma clt_ciphers:
  assumes "cc_hsSuccess c" "cc_secret c = gu_secret u" "cc_ivec c = gu_ivec u" "cc_enctype c = gu_enctype u"
  shows "clt_encrypt ssl c = gate_encrypt ssl u" "clt_decrypt ssl c = gate_decrypt ssl u"
  using assms by (simp_all add: fun_eq_iff clt_encrypt_def clt_decrypt_def gate_encrypt_def gate_decrypt_def)

lemma handshake_posted:
  assumes "handshake ssl r rnd (Some pub) junk c m = Inr (True, c1, m1)" and "hh = snd (loadRSAKey (Some pub) (cc_clientSide c))"
  obtains q hh1 bin where "creatHSReq ssl r rnd KX_ECDH 415 eET_AES_CBC hh = Inr (Some q, hh1)"
    "encryptHSReq ssl q hh1 = Inr bin" "c1 = handshake_keep q (c\<lparr>cc_clientSide := hh1\<rparr>)"
    "ha_post (cc_ha c) (packMsg (junk\<lparr>origin := LYGATE_CLIENT_ORGIN, hdr_type := LYMSG_TYPE_HANDSHAKE, serial := 0\<rparr>) bin) m = Inr (0, m1)"
  using assms
  by (auto simp: handshake_def handshake_post_def loadRSAKey_def NID_X9_62_prime256v1_def Let_def
      split: sum.splits option.splits if_splits prod.splits elim!: map_sum_InrE)

lemma request_size:
  assumes "ec_laws ssl" "rng_ok r" "creatHSReq ssl r rnd KX_ECDH nid t hh = Inr (Some q, hh1)"
  shows "length (HandshakeReq_serialize q) < 2 ^ 17"
proof -
  from assms(3) obtain a sec n where c: "o_ec_keygen ssl nid rnd = Some a" "randomString r NumbersAndLetters 32 rnd = Inr (sec, n)"
      "q = \<lparr>q_kx_type = KX_ECDH, q_dh = no_dh, q_ecdh = \<lparr>eq_curve_nid = word_of_int nid, eq_pubkey = ecc_export_pubkey ssl (Some a)\<rparr>,
         q_temp_symsec = sec, q_temp_symsec_type = of_nat (eET_to_nat t)\<rparr>"
    by (rule creatHSReq_ecdh)
  obtain pa where "o_octet_pub ssl a = Some pa" "length pa < 2 ^ 16"
    using assms(1) c(1) unfolding ec_laws_def by metis
  moreover have "length sec = 32" using randomString_ok [OF assms(2), of NumbersAndLetters 32 rnd] c(2) by auto
  ultimately show ?thesis by (simp add: c(3) req_roundtrip enc_req_def enc_str_def ecc_export_pubkey_def)
qed


lemma unpack_response:
  "unpackMsg (Some (createResponse org h d)) junk [] =
    (0, \<lparr>origin = org, reserve = 0, hdr_type = hdr_type h OR LYMSG_TYPE_RESP, serial = swap32 (serial h), hdr_size = of_nat (length d)\<rparr>, d)"
  by (simp add: createResponse_def unpackMsg_def packMsg_def)

text \<open>The gateway's handling of the client's handshake request, and the client's of the answer.\<close>

lemma handshake_answered:
  assumes "aes_laws ssl" "rsa_laws ssl pub pri L" "ec_laws ssl" "rng_ok r" "L \<le> 2 ^ 14"
    and "p256_laws ssl"
    and "hh_rsaKey (gs_serverSide g) = Some pri" "is_AES (gs_session_symsec_type g)" "o_ec_keygen ssl 415 rnd' = Some kb"
    and "handshake ssl r rnd (Some pub) junk c m = Inr (True, c1, m1)" "length (user_queue uid (gs_net g)) \<le> MaxPendingMsg"
  obtains msg g1 resp c2 where "ha_post (cc_ha c) msg m = Inr (0, m1)" "net_onRecvMsg (gate_onRequest ssl rnd' uh) uid msg g = Inr g1"
    "user_queue uid (gs_net g1) = user_queue uid (gs_net g) @ [resp]" "clt_onResponse ssl junk' resp c1 = Inr c2"
    "isHandshakeDone (gs_users g1 uid)" "gu_enctype (gs_users g1 uid) = gs_session_symsec_type g" "session_ok (gs_users g1 uid)"
    "clt_encrypt ssl c2 = gate_encrypt ssl (gs_users g1 uid)" "clt_decrypt ssl c2 = gate_decrypt ssl (gs_users g1 uid)"
proof -
  let ?hh = "snd (loadRSAKey (Some pub) (cc_clientSide c))" and ?s = "gs_net g" and ?sess = "gs_session_symsec_type g"
  let ?h = "junk\<lparr>origin := LYGATE_CLIENT_ORGIN, hdr_type := LYMSG_TYPE_HANDSHAKE, serial := 0\<rparr>"
  obtain q hh1 bin where q: "creatHSReq ssl r rnd KX_ECDH 415 eET_AES_CBC ?hh = Inr (Some q, hh1)"
    "encryptHSReq ssl q hh1 = Inr bin" "c1 = handshake_keep q (c\<lparr>cc_clientSide := hh1\<rparr>)" "ha_post (cc_ha c) (packMsg ?h bin) m = Inr (0, m1)"
    by (rule handshake_posted [OF assms(10) refl])
  have "length (HandshakeReq_serialize q) * L < 2 ^ 31"
    using mult_less_le_imp_less [OF request_size [OF assms(3,4) q(1)] assms(5)] by (cases "L = 0") simp_all
  then obtain d k srv' resp a p b where o: "onHandshake ssl rnd' ?sess bin (gs_serverSide g) = Inr (d, k, srv')" "d \<noteq> []"
      "decryptHSResp ssl d (q_temp_symsec q) eET_AES_CBC = Inr (Some resp)" "makeShareKey ssl (resp_getPeerPubkey resp) hh1 = k"
      "o_ec_keygen ssl 415 rnd = Some a \<and> o_ec_fromdata ssl 415 p = Some b \<and> o_derive ssl a b = Some k" "eET_of_nat (unat (s_session_symsec_type resp)) = ?sess"
    using handshake_agreement [OF assms(1-4) _ assms(7) q(1) _ _ _ assms(9,8)] q(2) by (auto simp: loadRSAKey_def)
  have k: "length k = 32" using assms(6) o(5) unfolding p256_laws_def by blast
  let ?rh = "?h\<lparr>hdr_size := of_nat (length bin), serial := swap32 (serial ?h)\<rparr>" and ?org = "nu_baseOrigin (ns_users ?s uid)"
  let ?m = "createResponse ?org ?rh d" and ?u = "setHandshakeSuccess k ?sess (gs_users g uid)"
  let ?g1 = "g\<lparr>gs_serverSide := srv', gs_users := (gs_users g)(uid := ?u), gs_net := postMsg uid ?m ?s\<rparr>"
  let ?c2 = "c1\<lparr>cc_secret := take 16 k, cc_ivec := take 16 (drop 16 k), cc_enctype := ?sess, cc_hsSuccess := True\<rparr>"
  have t: "q_temp_symsec_type q = of_nat (eET_to_nat eET_AES_CBC)" using q(1) by (rule creatHSReq_ecdh) simp
  have "net_onRecvMsg (gate_onRequest ssl rnd' uh) uid (packMsg ?h bin) g = Inr ?g1"
    using o(1,2) by (simp add: net_onRecvMsg_def unpack_request gate_onRequest_def gate_handshake_def)
  moreover have "user_queue uid (gs_net ?g1) = user_queue uid ?s @ [?m]" using assms(11) by (simp add: postMsg_queue)
  moreover have "clt_onResponse ssl junk' ?m c1 = Inr ?c2"
    using o(2-4,6) k t unat_enc_type [of eET_AES_CBC]
    by (simp add: clt_onResponse_def unpack_response clt_onHandshake_def q(3) handshake_keep_def is_AES_def eET_list_def)
  moreover have "isHandshakeDone ?u" "gu_enctype ?u = ?sess" "session_ok ?u"
    using k assms(8) by (simp_all add: setHandshakeSuccess_def isHandshakeDone_def session_ok_def)
  moreover have "clt_encrypt ssl ?c2 = gate_encrypt ssl ?u" "clt_decrypt ssl ?c2 = gate_decrypt ssl ?u"
    using k by (simp_all add: clt_ciphers setHandshakeSuccess_def)
  ultimately show thesis using that [OF q(4), of ?g1 ?m ?c2] by simp
qed


section \<open>Requests under the session\<close>



lemma sample_creatHSReq:
  assumes "hh_rsaKey hh = Some 5"
  obtains q hh1 bin where "creatHSReq sample_openssl (\<lambda>_ lo _. lo) 7 KX_ECDH 415 eET_AES_CBC hh = Inr (Some q, hh1)"
    "encryptHSReq sample_openssl q hh1 = Inr bin" "bin \<noteq> []"
proof -
  let ?r = "\<lambda>(_ :: nat) (lo :: int) (_ :: int). lo"
  obtain sec where sec: "randomString ?r NumbersAndLetters 32 7 = Inr (sec, 7 + nat 32)" "length sec = 32"
    using randomString_ok [of ?r NumbersAndLetters 32 7] by (auto simp: rng_ok_def)
  let ?q = "\<lparr>q_kx_type = KX_ECDH, q_dh = no_dh, q_ecdh = \<lparr>eq_curve_nid = 415, eq_pubkey = [7]\<rparr>,
    q_temp_symsec = sec, q_temp_symsec_type = 14\<rparr>"
  let ?c = "(set_ecKey (Some 7) (hh\<lparr>hh_kx_type := KX_ECDH\<rparr>))\<lparr>hh_ec_curve_nid := 415\<rparr>"
  have c: "creatHSReq sample_openssl ?r 7 KX_ECDH 415 eET_AES_CBC hh = Inr (Some ?q, ?c)"
    by (simp add: creatHSReq_def is_AES_def eET_list_def ecc_create_def sec)
      (simp add: sample_openssl_def ecc_export_pubkey_def)
  have q: "ok_req ?q" "length (HandshakeReq_serialize ?q) * 64 < 2 ^ 31"
    using sec(2) by (simp_all add: ok_req_def ok_str_def req_roundtrip enc_req_def enc_str_def)
  have "hh_rsaKey ?c = Some 5" using assms by (simp add: set_ecKey_def)
  then obtain e where e: "encryptHSReq sample_openssl ?q ?c = Inr e" "decryptHSReq sample_openssl e hh = Inr (Some ?q)"
    using hs_request_arrives [OF sample_rsa_laws _ assms q] by blast
  have "e \<noteq> []" using e(2) by (auto simp: decryptHSReq_def rsaEncrypt_def assms sample_openssl_def)
  with c e(1) show thesis by (rule that)
qed

lemma ha_posted_example: "\<exists>m m1. ha_post 0 msg m = Inr (0, m1)"
proof -
  let ?al = "\<lparr>alloc_ok = \<lambda>_. True, fresh = \<lambda>_. 0\<rparr>"
  let ?a = "asynclt_new ?al None [] 80 1 []"
  let ?m = "manager_new lymsg_protocol (\<lambda>_. ?a\<lparr>ac_client := (ac_client ?a)\<lparr>cl_fd := 5\<rparr>\<rparr>)
    (\<lambda>_. (ha_asynclt_new [])\<lparr>ha_clients := [0]\<rparr>)"
  have "\<exists>m1. ha_post 0 msg ?m = Inr (0, m1)"
    by (cases "enableWrite True (ac_chan ?a\<lparr>wrQueue := [msg]\<rparr>)")
      (simp add: ha_post_def getClient_def asynclt_post_def post_def upd_ha_def Let_def manager_new_def ha_asynclt_new_def
        clt_usable_def client_isConnected_def client_isClosed_def asynclt_new_def client_new_def INVALID_SOCK_def)
  then show ?thesis by blast
qed


definition sample_key_gate :: gate_server where
  "sample_key_gate = (gate_server_new (registerUserHandler LYGATE_CLIENT_ORGIN 0 sample_net))
     \<lparr>gs_serverSide := snd (loadRSAKey (Some 5) handshake_helper_new)\<rparr>"

lemma sample_key_gate: "hh_rsaKey (gs_serverSide sample_key_gate) = Some 5" "gs_session_symsec_type sample_key_gate = eET_AES_CFB"
    "user_queue 3 (gs_net sample_key_gate) = []" "handler_for 3 LYGATE_CLIENT_ORGIN (gs_net sample_key_gate) = Some 0"
  using sample_net_queue [of 3] by (simp_all add: sample_key_gate_def gate_server_new_def loadRSAKey_def user_queue_def handler_for_def
      registerUserHandler_def getUserHandler_def sample_net_def net_server_new_def)

lemma sample_handshake_posted:
  "\<exists>m c1 m1. handshake sample_openssl (\<lambda>_ lo _. lo) 7 (Some 5) null_header (common_client_new t 0) m = Inr (True, c1, m1)"
proof -
  let ?hh = "snd (loadRSAKey (Some 5) handshake_helper_new)"
  have "hh_rsaKey ?hh = Some 5" by (simp add: loadRSAKey_def)
  then obtain q hh1 bin where "creatHSReq sample_openssl (\<lambda>_ lo _. lo) 7 KX_ECDH 415 eET_AES_CBC ?hh = Inr (Some q, hh1)"
    "encryptHSReq sample_openssl q hh1 = Inr bin" "bin \<noteq> []" by (rule sample_creatHSReq)
  moreover obtain m m1 where
    "ha_post 0 (packMsg (null_header\<lparr>origin := LYGATE_CLIENT_ORGIN, hdr_type := LYMSG_TYPE_HANDSHAKE, serial := 0\<rparr>) bin) m = Inr (0, m1)"
    using ha_posted_example by blast
  ultimately have "\<exists>c1. handshake sample_openssl (\<lambda>_ lo _. lo) 7 (Some 5) null_header (common_client_new t 0) m = Inr (True, c1, m1)"
    by (simp add: handshake_def handshake_post_def common_client_new_def NID_X9_62_prime256v1_def loadRSAKey_def)
  then show ?thesis by blast
qed


text \<open>The order of the two steps matters: an answer that is handled before the temporary secret is stored ends the client.\<close>

lemma early_response_throws:
  assumes "handshake_post ssl r rnd loaded junk (common_client_new t ha) m = Inr (Some q, c1, m1)"
    and "hdr_type h = LYMSG_TYPE_HANDSHAKE" and "d \<noteq> []"
  shows "clt_onResponse ssl junk' (createResponse org h d) c1 = Inl out_of_range"
proof -
  have "cc_temp_symsec c1 = []"
    using assms(1) by (auto simp: handshake_post_def common_client_new_def Let_def split: sum.splits option.splits if_splits prod.splits)
  then show ?thesis
    using assms(2,3) by (simp add: clt_onResponse_def unpack_response clt_onHandshake_def decryptHSResp_def temp_cipher_def)
qed

text \<open>After a failed handshake the worker goes on, and sends its texts in the clear.\<close>

lemma failed_handshake_sends_plain:
  assumes "\<not> cc_hsSuccess c"
  shows "\<exists>h. worker_message ssl d i c = Inr (packMsg h d) \<and> hdr_type h AND LYMSG_TYPE_ENC = 0"
  using assms by (simp add: worker_message_def clt_encrypt_def Let_def and.assoc) 
    (intro exI conjI, rule refl, simp add: LYMSG_TYPE_ENC_def)

end
