(* ===== verification/Programs.thy ===== *)
theory Programs
  imports NetService GateClient
begin

text \<open>
  The \<^verbatim>\<open>main\<close> functions of the services in \<^verbatim>\<open>src/examples\<close>: they read the configuration from the central server, make the service with its
  handlers and clients, and start it.  Results that the code does not look at are dropped.  The system's answers are in
  \<open>boot_env\<close>.
\<close>

definition LYCOMMON_CLIENT_ORGIN :: u16 where "LYCOMMON_CLIENT_ORGIN = 0x20"
definition LYDBAGENT_CLIENT_ORGIN :: u16 where "LYDBAGENT_CLIENT_ORGIN = 0x30"

record boot_env =
  be_heap :: "nat \<Rightarrow> tcpsock_user"
  be_users :: "nat \<Rightarrow> net_user"
  be_clients :: "nat \<Rightarrow> tcpsock_asynclt"
  be_has :: "nat \<Rightarrow> tcpsock_ha_asynclt"
  be_al :: allocator
  be_envs :: "nat \<Rightarrow> conn_env"
  be_open :: open_env
  be_efd :: int
  be_lanes :: "message_swimlane list"

text \<open>\<^verbatim>\<open>groups[name]\<close> of a missing group is a new empty one; \<^verbatim>\<open>at(0)\<close> of an empty group throws.\<close>

definition groups_at :: "ServerGroupMap \<Rightarrow> bytes \<Rightarrow> ServerConfig list" where
  "groups_at g name = (case g name of None \<Rightarrow> [] | Some cs \<Rightarrow> cs)"

definition first_of :: "ServerGroupMap \<Rightarrow> bytes \<Rightarrow> std_exception + ServerConfig" where
  "first_of g name = (case groups_at g name of [] \<Rightarrow> Inl out_of_range | c # _ \<Rightarrow> Inr c)"

definition read_config :: "'j json_lib \<Rightarrow> 'w curl_lib \<Rightarrow> bytes \<Rightarrow> 'w \<Rightarrow> curl_error + ServerGroupMap" where
  "read_config J lib serverAddr w =
    map_sum id (\<lambda>(conf, w). snd (loadFromString J conf Map.empty)) (clt_get lib serverAddr (lit ''config'') w)"

definition make_service :: "boot_env \<Rightarrow> ServerConfig \<Rightarrow> net_service" where
  "make_service E conf = service_new (conf\<lparr>sc_host := lit ''::''\<rparr>) (be_heap E) (be_users E) (be_clients E) (be_has E)"

definition register_handler :: "u16 \<Rightarrow> nat \<Rightarrow> net_service \<Rightarrow> net_service" where
  "register_handler org hid v = v\<lparr>svc_net := registerUserHandler org hid (svc_net v)\<rparr>"

definition open_and_start :: "boot_env \<Rightarrow> int \<Rightarrow> int \<Rightarrow> net_service \<Rightarrow> std_exception + net_service" where
  "open_and_start E sw cw v = map_sum mem_error id (service_start (be_efd E) sw cw (be_lanes E) (snd (service_open (be_open E) v)))"

text \<open>A service with one handler and one client, which has four workers and one for its client; the client is \<open>None\<close> for a null pointer.\<close>

definition peer_service :: "boot_env \<Rightarrow> ServerConfig \<Rightarrow> ServerConfig list \<Rightarrow> u16 \<Rightarrow> nat \<Rightarrow> std_exception + net_service \<times> nat option" where
  "peer_service E conf grp org hid =
    (case addAsynClient_group (be_al E) (be_envs E) grp (register_handler org hid (make_service E conf)) of (clt, v) \<Rightarrow>
       map_sum id (\<lambda>v. (v, clt)) (open_and_start E 4 1 v))"

definition lycommon_main :: "'j json_lib \<Rightarrow> 'w curl_lib \<Rightarrow> bytes \<Rightarrow> 'w \<Rightarrow> boot_env \<Rightarrow> nat \<Rightarrow> (curl_error + std_exception) + net_service \<times> nat option" where
  "lycommon_main J lib serverAddr w E hid =
    (case read_config J lib serverAddr w of Inl e \<Rightarrow> Inl (Inl e)
     | Inr g \<Rightarrow> (case first_of g (lit ''common'') of Inl e \<Rightarrow> Inl (Inr e)
        | Inr conf \<Rightarrow> map_sum Inr id (peer_service E conf (groups_at g (lit ''logic'')) LYCOMMON_CLIENT_ORGIN hid)))"

definition lydbagent_main :: "'j json_lib \<Rightarrow> 'w curl_lib \<Rightarrow> bytes \<Rightarrow> 'w \<Rightarrow> boot_env \<Rightarrow> nat \<Rightarrow> (curl_error + std_exception) + net_service \<times> nat option" where
  "lydbagent_main J lib serverAddr w E hid =
    (case read_config J lib serverAddr w of Inl e \<Rightarrow> Inl (Inl e)
     | Inr g \<Rightarrow> (case first_of g (lit ''dbagent'') of Inl e \<Rightarrow> Inl (Inr e)
        | Inr conf \<Rightarrow> map_sum Inr id (peer_service E conf (groups_at g (lit ''mysql-proxy'')) LYDBAGENT_CLIENT_ORGIN hid)))"

text \<open>The gateway: \<open>key\<close> is the private key in the file, \<open>None\<close> when it cannot be read.\<close>

definition lygate_main ::
  "'j json_lib \<Rightarrow> 'w curl_lib \<Rightarrow> bytes \<Rightarrow> 'w \<Rightarrow> boot_env \<Rightarrow> pkey option \<Rightarrow> nat \<Rightarrow> (curl_error + std_exception) + gate_server \<times> net_service \<times> nat option" where
  "lygate_main J lib serverAddr w E key hid =
    (case read_config J lib serverAddr w of Inl e \<Rightarrow> Inl (Inl e)
     | Inr g \<Rightarrow> (case first_of g (lit ''gate'') of Inl e \<Rightarrow> Inl (Inr e)
        | Inr conf \<Rightarrow> map_sum Inr (\<lambda>(v, clt).
            (setSessionSecType eET_AES_CFB (snd (loadPrivateKey key (gate_server_new (svc_net v)))), v, clt))
          (peer_service E conf (groups_at g (lit ''logic'')) LYGATE_CLIENT_ORGIN hid)))"

text \<open>The service behind: two handlers, whose origins are those of its clients in the configuration, and no client of its own.\<close>

definition lylogic_main :: "'j json_lib \<Rightarrow> 'w curl_lib \<Rightarrow> bytes \<Rightarrow> 'w \<Rightarrow> boot_env \<Rightarrow> nat \<Rightarrow> nat \<Rightarrow> (curl_error + std_exception) + net_service" where
  "lylogic_main J lib serverAddr w E common_hid gate_hid =
    (case read_config J lib serverAddr w of Inl e \<Rightarrow> Inl (Inl e)
     | Inr g \<Rightarrow>
       (case first_of g (lit ''gate'') of Inl e \<Rightarrow> Inl (Inr e)
        | Inr gateConf \<Rightarrow>
          (case first_of g (lit ''common'') of Inl e \<Rightarrow> Inl (Inr e)
           | Inr commonConf \<Rightarrow>
             (case first_of g (lit ''logic'') of Inl e \<Rightarrow> Inl (Inr e)
              | Inr logicConf \<Rightarrow> map_sum Inr id (open_and_start E 2 0
                  (register_handler (sc_origin gateConf) gate_hid (register_handler (sc_origin commonConf) common_hid (make_service E logicConf))))))))"

section \<open>Starting from the published configuration\<close>

lemma published_read:
  assumes "json_laws J" "http_laws J lib serverAddr match" "match (lit ''/api/config'') = Some (lit ''config'')" "GetApi \<in> set (cs_routes w)"
    and "api2data w (lit ''config'') = Some d" "json_dump J (groups_json J groups) = Some d" "distinct (map fst groups)"
  shows "read_config J lib serverAddr w = Inr (groups_map groups)"
proof -
  have "lit ''/api/'' @ lit ''config'' = lit ''/api/config''" by (simp add: lit_def)
  then have "clt_get lib serverAddr (lit ''config'') w = Inr (d, w)"
    using clt_get_served [OF assms(2), of "lit ''config''" w] assms(3-5) by (simp add: central_serve_def onApi_def)
  then show ?thesis
    using json_parse_dump [OF assms(1,6)] load_groups_json [OF assms(1,7)] by (simp add: read_config_def loadFromString_def)
qed

lemma groups_at_map: "groups_at (groups_map groups) name = (case map_of groups name of None \<Rightarrow> [] | Some cs \<Rightarrow> cs)"
  by (simp add: groups_at_def groups_map_def split: option.split)

lemma start_frame:
  assumes "sum_list (map (\<lambda>l. unat (lane_threads l)) (be_lanes E)) < 2 ^ 31" "sv_workerIds (svc_tcp v) = []" "be_efd E \<noteq> -1" "service_inv v"
  obtains v' where "open_and_start E sw cw v = Inr v'" "service_inv v'" "svc_config v' = svc_config v" "svc_net v' = svc_net v" "svc_added v' = svc_added v"
    "svc_startAsyncMgr v' \<longleftrightarrow> 0 < cw"
proof -
  let ?o = "snd (service_open (be_open E) v)"
  have o: "svc_config ?o = svc_config v" "svc_net ?o = svc_net v" "svc_added ?o = svc_added v" "sv_workerIds (svc_tcp ?o) = []" "service_inv ?o"
    using assms(2) step_inv [OF assms(4), of "SOpen (be_open E)"]
    by (auto simp: service_open_def server_open_def Let_def split: prod.splits)
  obtain t where t: "server_start sw (be_lanes E) (svc_tcp ?o) = Inr t" using server_start_ok [OF assms(1) o(4)] by blast
  then obtain v' where v': "service_start (be_efd E) sw cw (be_lanes E) ?o = Inr v'" "svc_config v' = svc_config ?o" "svc_net v' = svc_net ?o"
      "svc_added v' = svc_added ?o" "svc_startAsyncMgr v' \<longleftrightarrow> 0 < cw"
    by (simp add: service_start_def Let_def)
  with that [of v'] o start_inv [OF o(5) assms(3) v'(1)] show thesis by (simp add: open_and_start_def)
qed

lemma peer_service_ready:
  assumes "sum_list (map (\<lambda>l. unat (lane_threads l)) (be_lanes E)) < 2 ^ 31" "be_efd E \<noteq> -1" "grp \<noteq> []"
  obtains v where "peer_service E conf grp org hid = Inr (v, Some 0)" "svc_config v = conf\<lparr>sc_host := lit ''::''\<rparr>"
    "getUserHandler org (svc_net v) = Some hid" "connections 0 (svc_mgr v) = targets grp" "svc_clients v 0 = net_client_new 0 (sc_origin conf)"
    "served (svc_mgr v) 0"
proof -
  let ?v = "register_handler org hid (make_service E conf)"
  let ?a = "snd (addAsynClient_group (be_al E) (be_envs E) grp ?v)"
  have m: "service_inv (make_service E conf)" unfolding make_service_def by (rule service_new_inv)
  have "service_inv ?v" using step_inv [OF m, of "SRegister org hid"] by (simp add: register_handler_def)
  then have i: "service_inv ?a" by (rule add_inv)
  have a: "fst (addAsynClient_group (be_al E) (be_envs E) grp ?v) = Some 0" "svc_added ?a = [(0, grp)]" "svc_config ?a = conf\<lparr>sc_host := lit ''::''\<rparr>"
    "sv_workerIds (svc_tcp ?a) = []" "getUserHandler org (svc_net ?a) = Some hid"
    using assms(3) by (simp_all add: addAsynClient_group_def Let_def register_handler_def make_service_def service_new_def server_new_def
        registerUserHandler_def net_server_new_def getUserHandler_def AList.update_conv')
  obtain v where v: "open_and_start E 4 1 ?a = Inr v" "service_inv v" "svc_config v = svc_config ?a" "svc_net v = svc_net ?a" "svc_added v = svc_added ?a"
      "svc_startAsyncMgr v"
    by (rule start_frame [OF assms(1) a(4) assms(2) i, of 4 1]) simp
  have "svc_nextClient v = 1" using v(2,5) a(2) by (simp add: service_inv_def) (metis length_map length_upt list.size(3,4) diff_zero One_nat_def add_0)
  then have "connections 0 (svc_mgr v) = targets grp" "svc_clients v 0 = net_client_new 0 (sc_origin conf)" "served (svc_mgr v) 0"
    using v(2,3,5,6) a(2,3) by (auto simp: service_inv_def service_origin_def)
  with that [of v] v a show thesis by (simp add: peer_service_def case_prod_beta)
qed


definition sample_boot :: boot_env where
  "sample_boot = \<lparr>be_heap = \<lambda>_. user_new sample_alloc, be_users = \<lambda>_. \<lparr>nu_user = user_new sample_alloc, nu_baseOrigin = 107, nu_handler = None\<rparr>,
     be_clients = \<lambda>_. asynclt_new sample_alloc None [] 0 1 [], be_has = \<lambda>_. ha_asynclt_new [], be_al = sample_alloc, be_envs = \<lambda>_. sample_env,
     be_open = \<lparr>oe_addrinfo = True, oe_socket = 4, oe_reuseaddr = 0, oe_reuseport = 0, oe_bind = 0, oe_listen = 0, oe_spcreate = 3, oe_spadd_ok = True\<rparr>,
     be_efd = 5, be_lanes = []\<rparr>"


text \<open>A configuration that cannot be read, or has no gateway, ends the program with an exception.\<close>

lemma missing_group_throws:
  assumes "read_config J lib serverAddr w = Inr g" "groups_at g (lit ''gate'') = []"
  shows "lygate_main J lib serverAddr w E key hid = Inl (Inr out_of_range)"
  using assms by (simp add: lygate_main_def first_of_def)

text \<open>Without logic servers the gateway starts, and its handler has a null pointer for a client.\<close>

lemma missing_peers_null:
  assumes "sum_list (map (\<lambda>l. unat (lane_threads l)) (be_lanes E)) < 2 ^ 31" "be_efd E \<noteq> -1"
  shows "\<exists>v. peer_service E conf [] org hid = Inr (v, None)"
proof -
  let ?v = "register_handler org hid (make_service E conf)"
  have m: "service_inv (make_service E conf)" unfolding make_service_def by (rule service_new_inv)
  have "service_inv ?v" using step_inv [OF m, of "SRegister org hid"] by (simp add: register_handler_def)
  moreover have "sv_workerIds (svc_tcp ?v) = []" by (simp add: register_handler_def make_service_def service_new_def server_new_def)
  ultimately obtain v where "open_and_start E 4 1 ?v = Inr v" using start_frame [OF assms(1) _ assms(2)] by metis
  then show ?thesis by (simp add: peer_service_def addAsynClient_group_def)
qed

end
