(* ===== verification/EchoServer.thy ===== *)
theory EchoServer
  imports TcpUser
begin

text \<open>
  The echo server \<^verbatim>\<open>src/examples/tcpserver.cpp\<close>: the handler of a message, on a connection whose protocol is that of the server or none.
  The length of the text is a difference of unsigned numbers: for a message shorter than its header it wraps, and the string cannot be made.
\<close>

definition echo_onRecvMsg :: "tcp_message \<Rightarrow> tcpsock_user \<Rightarrow> std_exception + tcpsock_user \<times> poll_call list" where
  "echo_onRecvMsg msg u =
    (let hdrSz = (case u_protocol u of None \<Rightarrow> 0 | Some p \<Rightarrow> unat (headerSize p)) in
     if length (msg_data msg) < hdrSz then Inl length_error
     else let strText = drop hdrSz (msg_data msg) in
       if takeWhile (\<lambda>b. b \<noteq> 0) strText = lit ''QUIT'' then Inr (u, [])
       else case (if u_protocol u = None then None else genMessage 0x10 (strText @ lit ''_reply'')) of
           None \<Rightarrow> Inr (u, [])
         | Some reply \<Rightarrow> (case user_post reply u of (rc, u, calls) \<Rightarrow> Inr (u, calls)))"

fun echo_all :: "tcp_message list \<Rightarrow> tcpsock_user \<Rightarrow> std_exception + tcpsock_user" where
  "echo_all [] u = Inr u"
| "echo_all (m # ms) u = (case echo_onRecvMsg m u of Inl e \<Rightarrow> Inl e | Inr (u', calls) \<Rightarrow> echo_all ms u')"

definition echo_reply :: "tcp_message \<Rightarrow> tcp_message option" where
  "echo_reply m = (if takeWhile (\<lambda>b. b \<noteq> 0) (drop 4 (msg_data m)) = lit ''QUIT'' then None
    else genMessage 0x10 (drop 4 (msg_data m) @ lit ''_reply''))"

lemma echo_one:
  assumes "u_protocol u = Some default_msg_proto" "wf_msg default_msg_proto m" "length (msg_data m) \<le> unat MaxPendingSize"
    and "length (wrQueue (u_chan u)) \<le> MaxPendingMsg"
  shows "\<exists>u' calls. echo_onRecvMsg m u = Inr (u', calls) \<and> u_protocol u' = u_protocol u \<and>
    wrQueue (u_chan u') = wrQueue (u_chan u) @ (case echo_reply m of None \<Rightarrow> [] | Some x \<Rightarrow> [x]) \<and> (\<forall>x. echo_reply m = Some x \<longrightarrow> wf_msg default_msg_proto x)"
proof -
  have l: "4 \<le> length (msg_data m)" using assms(2) by (simp add: wf_msg_def)
  have "length (drop 4 (msg_data m) @ lit ''_reply'') < 2 ^ 24" using assms(3) by (simp add: MaxPendingSize_def lit_def)
  then have "\<forall>x. echo_reply m = Some x \<longrightarrow> wf_msg default_msg_proto x"
    unfolding echo_reply_def using genMessage_wf by (metis option.distinct(1))
  moreover have "\<exists>u' calls. echo_onRecvMsg m u = Inr (u', calls) \<and> u_protocol u' = u_protocol u \<and>
    wrQueue (u_chan u') = wrQueue (u_chan u) @ (case echo_reply m of None \<Rightarrow> [] | Some x \<Rightarrow> [x])"
    using l assms(1,4) by (auto simp: echo_onRecvMsg_def echo_reply_def user_post_def post_def enableWrite_def split: option.splits prod.splits)
  ultimately show ?thesis by blast
qed

lemma echo_all_replies:
  assumes "u_protocol u = Some default_msg_proto" "list_all (\<lambda>m. wf_msg default_msg_proto m \<and> length (msg_data m) \<le> unat MaxPendingSize) ms"
    and "length (wrQueue (u_chan u)) + length ms \<le> MaxPendingMsg + 1"
  shows "\<exists>u'. echo_all ms u = Inr u' \<and> wrQueue (u_chan u') = wrQueue (u_chan u) @ List.map_filter echo_reply ms \<and>
    list_all (wf_msg default_msg_proto) (List.map_filter echo_reply ms)"
  using assms
proof (induction ms arbitrary: u)
  case (Cons m ms)
  obtain u1 calls where u1: "echo_onRecvMsg m u = Inr (u1, calls)" "u_protocol u1 = u_protocol u"
      "wrQueue (u_chan u1) = wrQueue (u_chan u) @ (case echo_reply m of None \<Rightarrow> [] | Some x \<Rightarrow> [x])"
      "\<forall>x. echo_reply m = Some x \<longrightarrow> wf_msg default_msg_proto x"
    using echo_one [of u m] Cons.prems by auto
  have "length (wrQueue (u_chan u1)) + length ms \<le> MaxPendingMsg + 1"
    using u1(3) Cons.prems(3) by (simp split: option.splits)
  with Cons.IH [of u1] Cons.prems u1 show ?case by (auto simp: map_filter_simps split: option.splits)
qed (simp add: map_filter_simps)

text \<open>
  The echo server on any input: whatever a peer sends within the limits, every message that the framing loop delivers is handled without an
  exception, and the replies are queued in order, well-formed, one for each message that is not the one to quit.
\<close>

theorem echo_serves_any_peer:
  assumes "\<And>n. alloc_ok al n" "cache_ok c" "unat (blocksize c) < 2 ^ 31" "contents c = []"
    and "\<forall>bs \<in> set bss. bs \<noteq> [] \<and> length bs \<le> unat MaxPendingSize"
    and "recv_chunks al (Some default_msg_proto) bss c = Some (Inr (Inr ms, c'))"
    and "u_protocol u = Some default_msg_proto" "length (wrQueue (u_chan u)) + length ms \<le> MaxPendingMsg + 1"
  shows "\<exists>u'. echo_all ms u = Inr u' \<and> wrQueue (u_chan u') = wrQueue (u_chan u) @ List.map_filter echo_reply ms \<and>
    list_all (wf_msg default_msg_proto) (List.map_filter echo_reply ms)"
proof -
  have "msg_protocol default_msg_proto" by unfold_locales
  from messages_typed [OF this assms(1-3) _ assms(5)] have "list_all (\<lambda>m. wf_msg default_msg_proto m \<and> length (msg_data m) \<le> unat MaxPendingSize) ms"
    using assms(4,6) by auto
  with echo_all_replies [OF assms(7) _ assms(8)] show ?thesis by blast
qed

end
