(* ===== verification/DbAgent.thy ===== *)
theory DbAgent
  imports DbProxy Relay
begin

text \<open>
  The database agent \<^verbatim>\<open>src/examples/lydbagent.cpp\<close>: a service that asks the MySQL proxy on behalf of its clients and answers them when
  the proxy has answered.  A request travels over three processes and two stores of pending requests: that of the agent's
  server, and that of the proxy.
\<close>

definition agent_query :: bytes where
  "agent_query = lit ''select * from testdb.student''"

definition agent_onRequest :: "nat \<Rightarrow> nat \<Rightarrow> lymsg_header \<Rightarrow> bytes \<Rightarrow> relay \<Rightarrow> memerr + (u64 \<times> relay)" where
  "agent_onRequest lam uid reqHeader reqData = (\<lambda>(s, c, m).
    let header = copyHeader reqHeader;
        (asyncReqId, s) = savePenddingReq uid reqHeader reqData s
    in case newQueryForResult 0 (Some agent_query) of
         None \<Rightarrow> Inl OutOfBounds
       | Some req \<Rightarrow> map_sum id (\<lambda>(rc, c, m). (ASYNC_RESPONSE, s, c, m)) (mysql_request (header\<lparr>serial := asyncReqId\<rparr>) req lam c m))"

text \<open>The function object that the agent passes on: it shows the response, which changes nothing, and answers the client.\<close>

definition agent_lambda :: "lymsg_header \<Rightarrow> bytes \<Rightarrow> net_server \<Rightarrow> std_exception + net_server" where
  "agent_lambda respHeader respData s = map_sum id snd (response net_createResponse (serial respHeader) (lit ''OK'') s)"

definition agent_user_onRequest :: "nat \<Rightarrow> nat \<Rightarrow> nat \<Rightarrow> lymsg_header \<Rightarrow> bytes \<Rightarrow> relay \<Rightarrow> memerr + relay" where
  "agent_user_onRequest hid lam uid reqHeader reqData = (\<lambda>(s, c, m).
    let u = ns_users s uid;
        handler = (case nu_handler u of None \<Rightarrow> getUserHandler (origin reqHeader) s | Some h \<Rightarrow> Some h);
        s = s\<lparr>ns_users := (ns_users s)(uid := u\<lparr>nu_handler := handler\<rparr>)\<rparr>
    in if handler = Some hid then map_sum id snd (agent_onRequest lam uid reqHeader reqData (s, c, m)) else Inr (s, c, m))"

definition agent_onRecvMsg :: "nat \<Rightarrow> nat \<Rightarrow> nat \<Rightarrow> tcp_message \<Rightarrow> relay \<Rightarrow> memerr + relay" where
  "agent_onRecvMsg hid lam uid msg r =
    (case unpackMsg (Some msg) null_header [] of (rc, reqHeader, reqData) \<Rightarrow>
       if rc = 0 then agent_user_onRequest hid lam uid reqHeader reqData r else Inr r)"

definition agent_onResponse :: "nat \<Rightarrow> tcp_message \<Rightarrow> relay \<Rightarrow> std_exception + relay" where
  "agent_onResponse lam msg = (\<lambda>(s, c, m).
    let c' = net_onResponse msg c
    in map_sum id (\<lambda>s. (s, c', m)) (run_lambdas agent_lambda lam (drop (length (nc_called c)) (nc_called c')) s))"

definition agent_req :: mysql_client_req where
  "agent_req = mysql_client_req_new execQueryForResult 0 agent_query False"

lemma agent_req_ok: "ok_mysql_req agent_req" "mq_db_slot agent_req = 0"
  by (simp_all add: agent_req_def agent_query_def ok_mysql_req_def mysql_client_req_new_def ok_str_def lit_def)

lemma agent_forwards:
  assumes "net_inv s" "ns_reqIdCreator s \<noteq> -1" "uid \<in> set (ns_alive s)" "length (user_queue uid s) \<le> MaxPendingMsg"
    and "handler_for uid (origin rh) s = Some hid" "ha_ready (nc_ha rc) rm"
    and "map_of (nc_msgHandlers rc) (ns_reqIdCreator s) = None"
  obtains s1 rc1 rm1 where "agent_user_onRequest hid lam uid rh d (s, rc, rm) = Inr (s1, rc1, rm1)"
    "awaiting lam uid (ns_reqIdCreator s) \<lparr>rq_user = uid, rq_header = rh, rq_data = d\<rparr> (nu_baseOrigin (ns_users s uid)) (s1, rc1, rm1)"
    "posted (nc_ha rc) (packMsg (rh\<lparr>serial := ns_reqIdCreator s, hdr_type := LYMSG_TYPE_DB_MYSQL, origin := nc_localOrigin rc\<rparr>)
       (mysql_req_serialize agent_req)) rm rm1"
proof -
  let ?h = "rh\<lparr>serial := ns_reqIdCreator s\<rparr>"
  obtain rc1 rm1 where r: "net_request (Some (?h\<lparr>hdr_type := LYMSG_TYPE_DB_MYSQL\<rparr>)) (mysql_req_serialize agent_req) (Some lam) rc rm = Inr (0, rc1, rm1)"
    by (rule net_request_ready [OF assms(6)])
  have h: "map_of (nc_msgHandlers rc1) (ns_reqIdCreator s) = Some lam"
    using net_request_cases [OF r] assms(7) by (simp add: map_of_handler_insert)
  have m: "mysql_request ?h agent_req lam rc rm = Inr (0, rc1, rm1)" using r by (simp add: mysql_request_def)
  have p: "posted (nc_ha rc) (packMsg (rh\<lparr>serial := ns_reqIdCreator s, hdr_type := LYMSG_TYPE_DB_MYSQL, origin := nc_localOrigin rc\<rparr>)
      (mysql_req_serialize agent_req)) rm rm1" using net_request_queues [OF r] by simp
  show thesis
    by (rule handled_save [OF assms(1,2), of uid rh d "Some hid"])
      (use h m p assms(3-5) in \<open>simp add: that agent_user_onRequest_def agent_onRequest_def newQueryForResult_def agent_req_def awaiting_def
        handler_for_def\<close>)
qed

lemma agent_answers:
  assumes "awaiting lam uid k ctx org (t, tc, tm)" and "unpackMsg (Some msg) null_header [] = (0, rh, r)" and "serial rh = k"
    and "resp = createResponse org (rq_header ctx) (lit ''OK'')"
  obtains t' tc' where "agent_onResponse lam msg (t, tc, tm) = Inr (t', tc', tm)" "user_queue uid t' = user_queue uid t @ [resp]"
    "shard_lookup (ns_reqShards t') k = None"
proof -
  let ?t = "t\<lparr>ns_reqShards := snd (shard_take k (ns_reqShards t))\<rparr>"
  have "net_createResponse uid (rq_header ctx) (lit ''OK'') ?t = Inr resp"
    using assms(1,4) by (simp add: awaiting_def net_createResponse_def)
  note R = awaited_response [OF assms(1) refl, of net_createResponse, OF this]
  have "agent_onResponse lam msg (t, tc, tm) = Inr (postMsg uid resp ?t, net_onResponse msg tc, tm)"
    using awaited_calls [OF assms(1-3)] R(1) assms(3) by (simp add: agent_onResponse_def agent_lambda_def)
  then show thesis using R(2,3) by (rule that)
qed

text \<open>
  A message that answers the request of number \<open>k\<close>: in whatever state it reaches the agent while the request is pending, the agent
  queues one response for the connection \<open>uid\<close>, forgets the request, and the response calls the client's function \<open>f\<close>.
\<close>

definition agent_answered :: "nat \<Rightarrow> nat \<Rightarrow> u64 \<Rightarrow> ReqContext \<Rightarrow> u16 \<Rightarrow> lymsg_header \<Rightarrow> nat \<Rightarrow> tcp_message \<Rightarrow> bool" where
  "agent_answered lam uid k ctx org h f msg \<longleftrightarrow>
    (\<forall>t tc tm cc. awaiting lam uid k ctx org (t, tc, tm) \<and> map_of (nc_msgHandlers cc) (serial h) = Some f \<longrightarrow>
      (\<exists>t' tc' resp. agent_onResponse lam msg (t, tc, tm) = Inr (t', tc', tm) \<and> user_queue uid t' = user_queue uid t @ [resp] \<and>
        shard_lookup (ns_reqShards t') k = None \<and>
        nc_called (net_onResponse resp cc) = nc_called cc @
          [(Some f, \<lparr>origin = org, reserve = 0, hdr_type = hdr_type h OR LYMSG_TYPE_RESP, serial = serial h, hdr_size = 2\<rparr>, lit ''OK'')]))"

text \<open>
  C11: A request to the database agent over three processes.  The message of the client's request makes the agent save the request and put one
  message on a connection of its own client; the proxy that takes this message from there submits the
  agent's query to the pool of slot 0 and saves it as pending, whatever its other threads do between the two.
  From then on, in any state in which both are still pending: the worker's step that answers the query's number
  answers that very query, and the proxy queues one message for the agent; when that message arrives, whatever the agent
  did in between, the agent queues one answer for the connection the request came from, forgets the
  request, and the answer calls the client's handler for that very request, under the client's own serial number.
\<close>
theorem agent_request_returns:
  assumes "net_request (Some h) d (Some f) c m = Inr (0, c1, m1)" and "map_of (nc_msgHandlers c) (serial h) = None"
    and "net_inv s" and "ns_reqIdCreator s \<noteq> -1" and "uid \<in> set (ns_alive s)" and "length (user_queue uid s) \<le> MaxPendingMsg"
    and "handler_for uid (nc_localOrigin c) s = Some hid"
    and "ha_ready (nc_ha rc) rm" and "map_of (nc_msgHandlers rc) (ns_reqIdCreator s) = None"
    and "db_open 0 (cp_reqId pool) puid porg p" and "px_pools p ! 0 = Some pool" and "mysql_reach psz pool acc subs pops"
    and "length (sq_queue (cp_queue pool)) < MaxPendingReq" and "cp_reqId pool \<noteq> PoolIsBusy"
    and "\<forall>t. db_open 0 (cp_reqId pool) puid porg t \<longrightarrow> db_open 0 (cp_reqId pool) puid porg (others t)"
  shows "\<exists>req s1 rc1 rm1 ctx org fwd k pool1 ph.
    posted (nc_ha c) req m m1 \<and> map_of (nc_msgHandlers c1) (serial h) = Some f \<and>
    agent_onRecvMsg hid lam uid req (s, rc, rm) = Inr (s1, rc1, rm1) \<and>
    awaiting lam uid (ns_reqIdCreator s) ctx org (s1, rc1, rm1) \<and> posted (nc_ha rc) fwd rm rm1 \<and>
    pool_submit mysql_pool_ops agent_req pool = (k, pool1) \<and> sq_queue (cp_queue pool1) = sq_queue (cp_queue pool) @ [agent_req\<lparr>mq_req_id := k\<rparr>] \<and>
    mysql_onRecvMsg others puid fwd p = db_savePenddingReq k ph puid 0 (others (p\<lparr>px_pools := (px_pools p)[0 := Some pool1]\<rparr>)) \<and>
    db_awaiting 0 k puid ph porg (mysql_onRecvMsg others puid fwd p) \<and>
    (\<forall>q pool2 acc2 subs2 pops2 e i q2 r. db_awaiting 0 k puid ph porg q \<and> px_pools q ! 0 = Some pool2 \<and>
      pool_reach mysql_pool_ops (worker_step mysql_pool_ops) WPop pool1 pool2 acc2 subs2 pops2 \<and> Suc (subs + subs2) \<le> 2 ^ 64 \<and>
      i < length (cp_workers pool2) \<and> cp_responses (worker_step mysql_pool_ops e i pool2) = cp_responses pool2 @ [(q2, r)] \<and>
      mq_req_id q2 = k \<longrightarrow>
      answers e agent_req k q2 r \<and>
      (\<exists>presp. px_queue puid (mysql_pool_step e i 0 q) = px_queue puid q @ [presp] \<and>
        agent_answered lam uid (ns_reqIdCreator s) ctx org h f presp))"
proof -
  let ?h = "h\<lparr>origin := nc_localOrigin c\<rparr>" and ?k = "ns_reqIdCreator s" and ?org = "nu_baseOrigin (ns_users s uid)" and ?n = "cp_reqId pool"
  define rh where "rh = ?h\<lparr>hdr_size := of_nat (length d), serial := swap32 (serial h)\<rparr>"
  define ctx where "ctx = \<lparr>rq_user = uid, rq_header = rh, rq_data = d\<rparr>"
  define fh where "fh = rh\<lparr>serial := ?k, hdr_type := LYMSG_TYPE_DB_MYSQL, origin := nc_localOrigin rc\<rparr>"
  define ph where "ph = fh\<lparr>hdr_size := of_nat (length (mysql_req_serialize agent_req)), serial := swap32 (serial fh)\<rparr>"
  have hid: "handler_for uid (origin rh) s = Some hid" using assms(7) by (simp add: rh_def)
  obtain s1 rc1 rm1 where s1: "agent_user_onRequest hid lam uid rh d (s, rc, rm) = Inr (s1, rc1, rm1)"
    "awaiting lam uid ?k ctx ?org (s1, rc1, rm1)" "posted (nc_ha rc) (packMsg fh (mysql_req_serialize agent_req)) rm rm1"
    unfolding ctx_def fh_def by (rule agent_forwards [OF assms(3-6) hid assms(8,9)])
  then have rec: "agent_onRecvMsg hid lam uid (packMsg ?h d) (s, rc, rm) = Inr (s1, rc1, rm1)"
    by (simp add: agent_onRecvMsg_def unpack_request rh_def)
  obtain pool1 where a: "pool_submit mysql_pool_ops agent_req pool = (?n, pool1)" "sq_queue (cp_queue pool1) = sq_queue (cp_queue pool) @ [agent_req\<lparr>mq_req_id := ?n\<rparr>]"
      "mysql_onRecvMsg others puid (packMsg fh (mysql_req_serialize agent_req)) p =
        db_savePenddingReq ?n ph puid 0 (others (p\<lparr>px_pools := (px_pools p)[0 := Some pool1]\<rparr>))"
      "db_awaiting 0 ?n puid ph porg (mysql_onRecvMsg others puid (packMsg fh (mysql_req_serialize agent_req)) p)"
    by (rule proxy_accepts [where others = others and q = agent_req, unfolded agent_req_ok(2) unat_0, OF assms(10,11,13,14) agent_req_ok(1) _ _ ph_def])
      (use assms(15) in \<open>auto simp: fh_def\<close>)
  have c1: "map_of (nc_msgHandlers c1) (serial h) = Some f"
    using net_request_cases [OF assms(1)] assms(2) by (simp add: map_of_handler_insert)
  have rt: "mq_retry_times agent_req = 0" using agent_req_ok(1) by (simp add: ok_mysql_req_def)
  have ret: "agent_answered lam uid ?k ctx ?org h f (createResponse porg ph (mysql_resp_serialize r))" for r
    unfolding agent_answered_def
  proof (intro allI impI, elim conjE)
    fix t tc tm and cc :: net_client
    assume w: "awaiting lam uid ?k ctx ?org (t, tc, tm)" and cc: "map_of (nc_msgHandlers cc) (serial h) = Some f"
    obtain rrh where l: "unpackMsg (Some (createResponse porg ph (mysql_resp_serialize r))) null_header [] = (0, rrh, mysql_resp_serialize r)" "serial rrh = ?k"
      by (simp add: createResponse_def unpack_request ph_def fh_def)
    obtain t' tc' where "agent_onResponse lam (createResponse porg ph (mysql_resp_serialize r)) (t, tc, tm) = Inr (t', tc', tm)"
      "user_queue uid t' = user_queue uid t @ [createResponse ?org (rq_header ctx) (lit ''OK'')]" "shard_lookup (ns_reqShards t') ?k = None"
      by (rule agent_answers [OF w l refl])
    moreover have "nc_called (net_onResponse (createResponse ?org (rq_header ctx) (lit ''OK'')) cc) = nc_called cc @
          [(Some f, \<lparr>origin = ?org, reserve = 0, hdr_type = hdr_type h OR LYMSG_TYPE_RESP, serial = serial h, hdr_size = 2\<rparr>, lit ''OK'')]"
      using client_called [OF cc, of "rq_header ctx" ?org "lit ''OK''"] by (simp add: ctx_def rh_def lit_def)
    ultimately show "\<exists>t' tc' resp. agent_onResponse lam (createResponse porg ph (mysql_resp_serialize r)) (t, tc, tm) = Inr (t', tc', tm) \<and>
        user_queue uid t' = user_queue uid t @ [resp] \<and> shard_lookup (ns_reqShards t') ?k = None \<and>
        nc_called (net_onResponse resp cc) = nc_called cc @
          [(Some f, \<lparr>origin = ?org, reserve = 0, hdr_type = hdr_type h OR LYMSG_TYPE_RESP, serial = serial h, hdr_size = 2\<rparr>, lit ''OK'')]"
      by blast
  qed
  have D: "answers e agent_req ?n q2 r \<and>
      px_queue puid (mysql_pool_step e i 0 q) = px_queue puid q @ [createResponse porg ph (mysql_resp_serialize r)]"
    if t: "db_awaiting 0 ?n puid ph porg q" "px_pools q ! 0 = Some pool2"
      and w: "pool_reach mysql_pool_ops (worker_step mysql_pool_ops) WPop pool1 pool2 acc2 subs2 pops2" "Suc (subs + subs2) \<le> 2 ^ 64"
        "i < length (cp_workers pool2)"
      and r: "cp_responses (worker_step mysql_pool_ops e i pool2) = cp_responses pool2 @ [(q2, r)]" "mq_req_id q2 = ?n"
    for q pool2 acc2 subs2 pops2 e i q2 r
  proof -
    have an: "answers e agent_req ?n q2 r" by (rule pool_answers [OF assms(12,13) rt a(1) w r])
    then have "mq_db_slot q2 = 0" using agent_req_ok(2) by (auto simp: answers_def)
    with an pool_step_delivers [OF t(1) _ r, unfolded unat_0, OF t(2)] show ?thesis by simp
  qed
  have "\<forall>q pool2 acc2 subs2 pops2 e i q2 r. db_awaiting 0 ?n puid ph porg q \<and> px_pools q ! 0 = Some pool2 \<and>
      pool_reach mysql_pool_ops (worker_step mysql_pool_ops) WPop pool1 pool2 acc2 subs2 pops2 \<and> Suc (subs + subs2) \<le> 2 ^ 64 \<and>
      i < length (cp_workers pool2) \<and> cp_responses (worker_step mysql_pool_ops e i pool2) = cp_responses pool2 @ [(q2, r)] \<and>
      mq_req_id q2 = ?n \<longrightarrow>
      answers e agent_req ?n q2 r \<and>
      (\<exists>presp. px_queue puid (mysql_pool_step e i 0 q) = px_queue puid q @ [presp] \<and> agent_answered lam uid ?k ctx ?org h f presp)"
    using D ret by blast
  with net_request_queues [OF assms(1)] c1 rec s1(2,3) a show ?thesis by blast
qed

theorem agent_request_returns_witness:
  "\<exists>c1 m1 req s1 rc1 rm1 fwd ph q e presp resp t'.
    net_request (Some (null_header\<lparr>serial := 6\<rparr>)) [1] (Some 9) (net_client_new 0 7) sample_manager = Inr (0, c1, m1) \<and>
    posted 0 req sample_manager m1 \<and>
    agent_onRecvMsg 5 8 3 req (sample_relay_server, net_client_new 0 7, sample_manager) = Inr (s1, rc1, rm1) \<and> posted 0 fwd sample_manager rm1 \<and>
    db_awaiting 0 100 3 ph 9 (mysql_onRecvMsg (db_post 4 (packMsg null_header [])) 3 fwd sample_proxy) \<and>
    db_awaiting 0 100 3 ph 9 q \<and> px_queue 3 (mysql_pool_step e 0 0 q) = px_queue 3 q @ [presp] \<and>
    agent_onResponse 8 presp (s1, rc1, rm1) = Inr t' \<and> user_queue 3 (fst t') = user_queue 3 s1 @ [resp] \<and>
    map (\<lambda>(cb, rh, d). (cb, serial rh, d)) (nc_called (net_onResponse resp c1)) = [(Some 9, 6, lit ''OK'')]"
proof -
  let ?h = "null_header\<lparr>serial := 6\<rparr>" and ?c = "net_client_new 0 7" and ?s = sample_relay_server
  let ?pool = "snd (pool_start 1 pool_new) :: mysql_client_pool" and ?others = "db_post 4 (packMsg null_header []) :: DBProxyMySQL \<Rightarrow> _"
  let ?w = "worker_step mysql_pool_ops sample_mysql_env 0"
  let ?pool2 = "?w (?w (?w (fresh_pool agent_req)))"
  have n: "map_of (nc_msgHandlers ?c) k = None" "nc_localOrigin ?c = 7" "nc_ha ?c = 0" "nc_called ?c = []" for k
    by (simp_all add: net_client_new_def)
  have ready: "ha_ready (nc_ha ?c) sample_manager" by (rule sample_manager_ready)
  obtain c1 m1 where a: "net_request (Some ?h) [1] (Some 9) ?c sample_manager = Inr (0, c1, m1)" by (rule net_request_ready [OF ready])
  have nc: "nc_called c1 = []" using net_request_cases [OF a] n(4) by simp
  have s: "ns_reqIdCreator ?s \<noteq> -1" "3 \<in> set (ns_alive ?s)" "length (user_queue 3 ?s) \<le> MaxPendingMsg"
    "handler_for 3 (nc_localOrigin ?c) ?s = Some 5" by (simp_all add: sample_relay_server n)
  have p: "cp_reqId ?pool = 100" "pool_submit mysql_pool_ops agent_req ?pool = (100, fresh_pool agent_req)"
    using fresh_pool_answers(1) by (simp_all add: pool_start_def pool_new_def MinReqId_def Let_def)
  have o: "\<forall>t. db_open 0 100 3 9 t \<longrightarrow> db_open 0 100 3 9 (?others t)" by (intro allI impI db_post_other) simp_all
  obtain req s1 rc1 rm1 ctx org fwd ph where P: "posted 0 req sample_manager m1" "map_of (nc_msgHandlers c1) (serial ?h) = Some 9"
      "agent_onRecvMsg 5 8 3 req (?s, ?c, sample_manager) = Inr (s1, rc1, rm1)"
      "awaiting 8 3 (ns_reqIdCreator ?s) ctx org (s1, rc1, rm1)" "posted 0 fwd sample_manager rm1"
      "db_awaiting 0 100 3 ph 9 (mysql_onRecvMsg ?others 3 fwd sample_proxy)"
    and step: "\<And>q pool2 acc2 subs2 pops2 e i q2 r. db_awaiting 0 100 3 ph 9 q \<and> px_pools q ! 0 = Some pool2 \<and>
      pool_reach mysql_pool_ops (worker_step mysql_pool_ops) WPop (fresh_pool agent_req) pool2 acc2 subs2 pops2 \<and> Suc (0 + subs2) \<le> 2 ^ 64 \<and>
      i < length (cp_workers pool2) \<and> cp_responses (worker_step mysql_pool_ops e i pool2) = cp_responses pool2 @ [(q2, r)] \<and>
      mq_req_id q2 = 100 \<longrightarrow>
      (\<exists>presp. px_queue 3 (mysql_pool_step e i 0 q) = px_queue 3 q @ [presp] \<and> agent_answered 8 3 (ns_reqIdCreator ?s) ctx org ?h 9 presp)"
    using agent_request_returns [where pool = ?pool and puid = 3 and porg = 9 and p = sample_proxy and others = ?others and lam = 8
        and psz = 1 and acc = "[]" and subs = 0 and pops = "[]", OF a n(1) sample_relay_server(1) s ready n(1),
        unfolded p n(3), OF sample_db_open pr_start sample_proxy_serves(3) sample_proxy_serves(4) [unfolded p] o]
    by (elim exE conjE Pair_inject) (hypsubst, rule that, assumption+, blast)
  let ?q = "(mysql_onRecvMsg ?others 3 fwd sample_proxy)\<lparr>px_pools := (replicate MAX_DB_SLOTS None)[0 := Some ?pool2]\<rparr>"
  have q: "db_awaiting 0 100 3 ph 9 ?q" "px_pools ?q ! 0 = Some ?pool2"
    using P(6) by (simp_all add: db_awaiting_def db_ready_def proxy_inv_def pending_def px_queue_def MAX_DB_SLOTS_def)
  obtain r where "cp_responses (?w ?pool2) = cp_responses ?pool2 @ [(agent_req\<lparr>mq_req_id := 100\<rparr>, r)]" using fresh_pool_answers(4) by metis
  then obtain presp where d: "px_queue 3 (mysql_pool_step sample_mysql_env 0 0 ?q) = px_queue 3 ?q @ [presp]"
      "agent_answered 8 3 (ns_reqIdCreator ?s) ctx org ?h 9 presp"
    using step [of ?q ?pool2 "[]" 0 "[100]" 0 sample_mysql_env "agent_req\<lparr>mq_req_id := 100\<rparr>" r] q fresh_pool_answers(2,3) by auto
  then obtain t' tc' resp where e: "agent_onResponse 8 presp (s1, rc1, rm1) = Inr (t', tc', rm1)" "user_queue 3 t' = user_queue 3 s1 @ [resp]"
      "map (\<lambda>(cb, rh, d). (cb, serial rh, d)) (nc_called (net_onResponse resp c1)) = [(Some 9, 6, lit ''OK'')]"
    using P(2,4) nc unfolding agent_answered_def by force
  show ?thesis
    by (rule exI [of _ c1], rule exI [of _ m1], rule exI [of _ req], rule exI [of _ s1], rule exI [of _ rc1], rule exI [of _ rm1],
        rule exI [of _ fwd], rule exI [of _ ph], rule exI [of _ ?q], rule exI [of _ sample_mysql_env], rule exI [of _ presp], rule exI [of _ resp],
        rule exI [of _ "(t', tc', rm1)"], unfold fst_conv) (intro conjI a P q d e)
qed

end
