(* ===== verification/SocketOptions.thy ===== *)
theory SocketOptions
  imports SocketUtils
begin

text \<open>
  The part of \<^verbatim>\<open>src/zbf/socket_utils.hpp\<close> that asks the kernel: resolving and reading addresses, blocking mode, socket options, the
  clock, and \<^verbatim>\<open>create_udp_socket\<close>, which acquires several resources and gives them back when a later step fails.  The
  answers of the system are the record \<open>sock_env\<close>; the calls that acquire, release or configure are logged.
\<close>

definition AF_UNSPEC :: int where "AF_UNSPEC = 0"
definition AF_INET :: int where "AF_INET = 2"
definition AF_INET6 :: int where "AF_INET6 = 10"
definition AI_PASSIVE :: int where "AI_PASSIVE = 1"
definition SOCK_STREAM :: int where "SOCK_STREAM = 1"
definition SOCK_DGRAM :: int where "SOCK_DGRAM = 2"
definition IPPROTO_TCP :: int where "IPPROTO_TCP = 6"
definition IPPROTO_UDP :: int where "IPPROTO_UDP = 17"

datatype sockopt = SO_REUSEADDR | SO_REUSEPORT | SO_KEEPALIVE | SO_RCVBUF | SO_SNDBUF | IPV6_V6ONLY

record addrinfo =
  ai_family :: int
  ai_flags :: int
  ai_socktype :: int
  ai_protocol :: int
  ai_addr :: bytes

datatype sys_call =
    CSocket int
  | CSetsockopt int sockopt int
  | CBind int bytes
  | CClose int
  | CFreeaddrinfo

record sock_env =
  se_getaddrinfo :: "bytes \<Rightarrow> bytes \<Rightarrow> addrinfo \<Rightarrow> addrinfo option"
  se_socket :: int
  se_setsockopt :: "sockopt \<Rightarrow> int \<Rightarrow> bool"
  se_getsockopt :: "sockopt \<Rightarrow> int option"
  se_bind :: bool

section \<open>Addresses\<close>

definition getSockAddrLen :: int where "getSockAddrLen = 128"

definition getPacketMax :: int where "getPacketMax = 65500"

definition getAddrInfo :: "sock_env \<Rightarrow> bytes \<Rightarrow> u16 \<Rightarrow> int \<Rightarrow> addrinfo option" where
  "getAddrInfo e hostname port tcp =
    (let hints = \<lparr>ai_family = AF_UNSPEC, ai_flags = AI_PASSIVE, ai_socktype = if tcp \<noteq> 0 then SOCK_STREAM else SOCK_DGRAM,
           ai_protocol = if tcp \<noteq> 0 then IPPROTO_TCP else IPPROTO_UDP, ai_addr = []\<rparr>;
         szPort = take 7 (to_string (unat port))
     in se_getaddrinfo e hostname szPort hints)"

text \<open>
  \<^verbatim>\<open>parseAddr\<close> reads the address through the type of its family, whatever the length it was given says: \<open>None\<close> is a read outside of
  the buffer.  \<open>ntop\<close> is \<^verbatim>\<open>inet_ntop\<close>.
\<close>

definition parseAddr :: "(int \<Rightarrow> bytes \<Rightarrow> bytes option) \<Rightarrow> bytes option \<Rightarrow> int \<Rightarrow> bytes \<Rightarrow> u16 \<Rightarrow> (int \<times> bytes \<times> u16) option" where
  "parseAddr ntop addrbuf addrlen strIp port =
    (case addrbuf of
       None \<Rightarrow> Some (- 1, strIp, port)
     | Some buf \<Rightarrow>
         if addrlen = 0 then Some (- 1, strIp, port)
         else if length buf < 2 then None
         else
           let family = uint (mem_load (take 2 buf) :: u16); sin_port = mem_load (take 2 (drop 2 buf)) :: u16 in
           if family = AF_INET then
             if length buf < 8 then None
             else (case ntop AF_INET (take 4 (drop 4 buf)) of Some ip \<Rightarrow> Some (0, ip, ntohs sin_port) | None \<Rightarrow> Some (- 2, strIp, port))
           else if family = AF_INET6 then
             if length buf < 24 then None
             else (case ntop AF_INET6 (take 16 (drop 8 buf)) of Some ip \<Rightarrow> Some (0, ip, ntohs sin_port) | None \<Rightarrow> Some (- 2, strIp, port))
           else Some (- 2, strIp, port))"

section \<open>Modes and options\<close>

definition O_NONBLOCK :: u32 where "O_NONBLOCK = 0x800"

text \<open>The flags of a descriptor, \<open>None\<close> when they cannot be read.\<close>

definition set_nonblocking :: "u32 option \<Rightarrow> u32 option" where
  "set_nonblocking flag = map_option (\<lambda>f. f OR O_NONBLOCK) flag"

definition set_blocking :: "u32 option \<Rightarrow> u32 option" where
  "set_blocking flag = map_option (\<lambda>f. f AND NOT O_NONBLOCK) flag"

definition setsockopt :: "sock_env \<Rightarrow> int \<Rightarrow> sockopt \<Rightarrow> int \<Rightarrow> int \<times> sys_call list" where
  "setsockopt e fd opt val = (if se_setsockopt e opt val then 0 else - 1, [CSetsockopt fd opt val])"

definition setReuseAddr :: "sock_env \<Rightarrow> int \<Rightarrow> int \<times> sys_call list" where
  "setReuseAddr e fd = setsockopt e fd SO_REUSEADDR 1"

definition setReusePort :: "bool \<Rightarrow> sock_env \<Rightarrow> int \<Rightarrow> int \<times> sys_call list" where
  "setReusePort win e fd = (if win then (0, []) else setsockopt e fd SO_REUSEPORT 1)"

definition setKeepAlive :: "sock_env \<Rightarrow> int \<Rightarrow> int \<times> sys_call list" where
  "setKeepAlive e fd = setsockopt e fd SO_KEEPALIVE 1"

definition setDualstack :: "sock_env \<Rightarrow> int \<Rightarrow> int \<Rightarrow> int \<times> sys_call list" where
  "setDualstack e fd family = (if family = AF_INET6 then setsockopt e fd IPV6_V6ONLY 0 else (0, []))"

definition getRecvBufSize :: "sock_env \<Rightarrow> int" where
  "getRecvBufSize e = (case se_getsockopt e SO_RCVBUF of Some n \<Rightarrow> n | None \<Rightarrow> - 1)"

definition setRecvBufSize :: "sock_env \<Rightarrow> int \<Rightarrow> int \<Rightarrow> int \<times> sys_call list" where
  "setRecvBufSize e fd n = setsockopt e fd SO_RCVBUF n"

definition getSendBufSize :: "sock_env \<Rightarrow> int" where
  "getSendBufSize e = (case se_getsockopt e SO_SNDBUF of Some n \<Rightarrow> n | None \<Rightarrow> - 1)"

definition setSendBufSize :: "sock_env \<Rightarrow> int \<Rightarrow> int \<Rightarrow> int \<times> sys_call list" where
  "setSendBufSize e fd n = setsockopt e fd SO_SNDBUF n"

text \<open>The clock is seconds and nanoseconds, or an error; an error is the time zero.\<close>

definition currentTimeSecs :: "(int \<times> int) option \<Rightarrow> int" where
  "currentTimeSecs ts = (case ts of None \<Rightarrow> 0 | Some (sec, nsec) \<Rightarrow> sec)"

definition currentTimeMillis :: "(int \<times> int) option \<Rightarrow> int" where
  "currentTimeMillis ts = (case ts of None \<Rightarrow> 0 | Some (sec, nsec) \<Rightarrow> sec * 1000 + nsec div 1000000)"

section \<open>Creating a socket\<close>

text \<open>The code after the label: \<open>addr\<close> says whether an address was obtained.\<close>

definition udp_exit :: "int \<Rightarrow> int \<Rightarrow> bool \<Rightarrow> bool \<Rightarrow> sys_call list \<Rightarrow> int \<times> bool \<times> sys_call list" where
  "udp_exit rc fd addr isV4 calls =
    (rc, isV4, calls @ (if rc < 0 \<and> fd \<noteq> INVALID_SOCK then [CClose fd] else []) @ (if addr then [CFreeaddrinfo] else []))"

definition create_udp_socket :: "bool \<Rightarrow> sock_env \<Rightarrow> bytes \<Rightarrow> u16 \<Rightarrow> int \<times> bool \<times> sys_call list" where
  "create_udp_socket win e serverName port =
    (case getAddrInfo e serverName port 0 of
       None \<Rightarrow> udp_exit (- 1) INVALID_SOCK False False []
     | Some svr_addr \<Rightarrow>
         let fd = se_socket e; opened = (if fd < 0 then [] else [CSocket fd]) in
         if fd < 0 then udp_exit (- 2) fd True False opened
         else
           let (r1, c1) = setReuseAddr e fd in
           if r1 \<noteq> 0 then udp_exit (- 3) fd True False (opened @ c1)
           else
             let (r2, c2) = setReusePort win e fd in
             if r2 \<noteq> 0 then udp_exit (- 3) fd True False (opened @ c1 @ c2)
             else
               let (_, c3) = setDualstack e fd (ai_family svr_addr); calls = opened @ c1 @ c2 @ c3 @ [CBind fd (ai_addr svr_addr)] in
               if \<not> se_bind e then udp_exit (- 4) fd True False calls
               else udp_exit fd fd True (ai_family svr_addr = AF_INET) calls)"

text \<open>The descriptors that are open after a sequence of calls.\<close>

fun open_after :: "int list \<Rightarrow> sys_call list \<Rightarrow> int list" where
  "open_after fds [] = fds"
| "open_after fds (CSocket fd # cs) = open_after (fd # fds) cs"
| "open_after fds (CClose fd # cs) = open_after (remove1 fd fds) cs"
| "open_after fds (_ # cs) = open_after fds cs"

lemma open_after_append: "open_after fds (cs @ ds) = open_after (open_after fds cs) ds"
  by (induction fds cs rule: open_after.induct) auto

section \<open>Facts\<close>

lemma bit_O_NONBLOCK: "bit O_NONBLOCK n \<longleftrightarrow> n = 11"
proof -
  have "O_NONBLOCK = push_bit 11 1" by (simp add: O_NONBLOCK_def)
  then have "bit O_NONBLOCK n = bit (push_bit 11 1 :: u32) n" by simp
  also have "\<dots> \<longleftrightarrow> n = 11" unfolding bit_simps by auto
  finally show ?thesis .
qed

lemma blocking_modes:
  "set_blocking (set_nonblocking f) = set_blocking f" "set_nonblocking (set_blocking f) = set_nonblocking f"
  by (cases f; simp add: set_blocking_def set_nonblocking_def; intro bit_word_eqI; auto simp: bit_simps)+

lemma nonblocking_keeps: "n \<noteq> 11 \<Longrightarrow> bit (the (set_nonblocking (Some w))) n = bit w n" "bit (the (set_nonblocking (Some w))) 11"
  by (auto simp: set_nonblocking_def bit_simps bit_O_NONBLOCK)

lemma port_text: "getAddrInfo e host port tcp = se_getaddrinfo e host (to_string (unat port))
    \<lparr>ai_family = AF_UNSPEC, ai_flags = AI_PASSIVE, ai_socktype = if tcp \<noteq> 0 then SOCK_STREAM else SOCK_DGRAM,
      ai_protocol = if tcp \<noteq> 0 then IPPROTO_TCP else IPPROTO_UDP, ai_addr = []\<rparr>"
  using length_to_string [of "unat port" 4] unat_u16_less [of port] by (simp add: getAddrInfo_def Let_def)

text \<open>An address that the kernel filled in reads back with its port.\<close>

lemma load_short: "mem_load (mem_image 2 (w :: u16)) = w"
  by (simp add: mem_load_image be_word_be_bytes take_bit_word_eq_self)

lemma parseAddr_inet:
  assumes "length a = 4" "ntop AF_INET a = Some ip"
  shows "parseAddr ntop (Some (mem_image 2 (2 :: u16) @ mem_image 2 (htons port) @ a @ rest)) 16 ip0 port0 = Some (0, ip, port)"
  using assms by (simp add: parseAddr_def AF_INET_def load_short Let_def)

lemma setsockopt_open: "open_after fds (snd (setsockopt e fd opt val)) = fds"
  by (simp add: setsockopt_def)

text \<open>
  Whatever the system answers, creating a datagram socket keeps nothing that it cannot hand over: on failure every descriptor
  that was opened is closed again and the code says which step failed; on success exactly the returned descriptor is
  open, it was bound to the resolved address, and the options for reuse were set before; the resolved address is
  released exactly once.
\<close>

theorem udp_socket_released:
  assumes "- 1 \<le> se_socket e" and "create_udp_socket win e name port = (rc, isV4, calls)"
  shows "open_after [] calls = (if rc < 0 then [] else [rc]) \<and>
    count_list calls CFreeaddrinfo = (if getAddrInfo e name port 0 = None then 0 else 1) \<and>
    (rc < 0 \<longrightarrow> rc \<in> {- 1, - 2, - 3, - 4}) \<and>
    (0 \<le> rc \<longrightarrow> (\<exists>a pre post. getAddrInfo e name port 0 = Some a \<and> isV4 = (ai_family a = AF_INET) \<and>
       calls = pre @ CBind rc (ai_addr a) # post \<and> CSetsockopt rc SO_REUSEADDR 1 \<in> set pre \<and>
       (win \<or> CSetsockopt rc SO_REUSEPORT 1 \<in> set pre)))"
proof (cases "getAddrInfo e name port 0")
  case None
  with assms(2) show ?thesis by (auto simp: create_udp_socket_def udp_exit_def)
next
  case (Some a)
  note D = create_udp_socket_def udp_exit_def setReuseAddr_def setReusePort_def setDualstack_def setsockopt_def Let_def INVALID_SOCK_def
  have neg: "open_after [] calls = (if rc < 0 then [] else [rc]) \<and> count_list calls CFreeaddrinfo = 1 \<and> (rc < 0 \<longrightarrow> rc \<in> {- 1, - 2, - 3, - 4})"
    using assms Some by (auto simp: D split: if_splits)
  have "\<exists>pre post. calls = pre @ CBind rc (ai_addr a) # post \<and> CSetsockopt rc SO_REUSEADDR 1 \<in> set pre \<and>
      (win \<or> CSetsockopt rc SO_REUSEPORT 1 \<in> set pre) \<and> isV4 = (ai_family a = AF_INET)" if "0 \<le> rc"
  proof -
    let ?pre = "[CSocket rc, CSetsockopt rc SO_REUSEADDR 1] @ (if win then [] else [CSetsockopt rc SO_REUSEPORT 1]) @
      (if ai_family a = AF_INET6 then [CSetsockopt rc IPV6_V6ONLY 0] else [])"
    have "calls = ?pre @ CBind rc (ai_addr a) # [CFreeaddrinfo]" "isV4 = (ai_family a = AF_INET)"
      using that assms Some by (auto simp: D split: if_splits)
    then show ?thesis by (intro exI [of _ ?pre] exI [of _ "[CFreeaddrinfo]"]) auto
  qed
  with neg Some show ?thesis by auto
qed

definition sample_sock_env :: sock_env where
  "sample_sock_env = \<lparr>se_getaddrinfo = (\<lambda>host port hints. Some (hints\<lparr>ai_family := AF_INET, ai_addr := [1]\<rparr>)), se_socket = 5,
     se_setsockopt = (\<lambda>opt val. opt \<noteq> SO_REUSEPORT), se_getsockopt = (\<lambda>opt. Some 4096), se_bind = True\<rparr>"

theorem udp_socket_released_witness:
  "create_udp_socket False sample_sock_env (lit ''localhost'') 53 =
     (- 3, False, [CSocket 5, CSetsockopt 5 SO_REUSEADDR 1, CSetsockopt 5 SO_REUSEPORT 1, CClose 5, CFreeaddrinfo]) \<and>
   open_after [] [CSocket 5, CSetsockopt 5 SO_REUSEADDR 1, CSetsockopt 5 SO_REUSEPORT 1, CClose 5, CFreeaddrinfo] = []"
proof -
  have "create_udp_socket False sample_sock_env (lit ''localhost'') 53 =
     (- 3, False, [CSocket 5, CSetsockopt 5 SO_REUSEADDR 1, CSetsockopt 5 SO_REUSEPORT 1, CClose 5, CFreeaddrinfo])"
    by (simp add: create_udp_socket_def getAddrInfo_def sample_sock_env_def udp_exit_def setReuseAddr_def setReusePort_def setsockopt_def Let_def INVALID_SOCK_def)
  moreover have "- 1 \<le> se_socket sample_sock_env" by (simp add: sample_sock_env_def)
  ultimately show ?thesis using udp_socket_released by fastforce
qed

end
