(* ===== verification/OpensslKeys.thy ===== *)
theory OpensslKeys
  imports OpensslUtils
begin

text \<open>
  The rest of \<^verbatim>\<open>src/fszm/openssl_utils_v2.hpp\<close>: digests as text, the filters for base64, key files, signatures and the building of
  Diffie-Hellman keys from numbers.  The library's part is again a record of functions, in which \<open>None\<close> is a failure.
\<close>

datatype evp_md = EVP_md5 | EVP_sha1 | EVP_sha224 | EVP_sha256 | EVP_sha384 | EVP_sha512 | EVP_ripemd160

record openssl_keys =
  k_digest :: "evp_md \<Rightarrow> bytes \<Rightarrow> bytes option"
  k_read_pem :: "bool \<Rightarrow> bytes \<Rightarrow> pkey option"
  k_ctx :: bool
  k_init :: "pkey \<Rightarrow> bool"
  k_sign_size :: "pkey \<Rightarrow> bytes \<Rightarrow> nat option"
  k_alloc :: "u32 \<Rightarrow> bool"
  k_sign :: "pkey \<Rightarrow> bytes \<Rightarrow> bytes option"
  k_verify :: "pkey \<Rightarrow> bytes \<Rightarrow> bytes \<Rightarrow> int"
  k_bio_encode :: "bool \<Rightarrow> bytes \<Rightarrow> bytes"
  k_bio_decode :: "bool \<Rightarrow> bytes \<Rightarrow> bytes option"
  k_native :: "bytes \<Rightarrow> bytes option"
  k_fromdata :: "(string \<times> bytes) list \<Rightarrow> bool \<Rightarrow> pkey option"

section \<open>Digests\<close>

text \<open>The results of the three calls are not looked at: when they fail the length stays zero.\<close>

definition evp_digest_op :: "openssl_keys \<Rightarrow> evp_md \<Rightarrow> bytes option \<Rightarrow> bool \<Rightarrow> bytes" where
  "evp_digest_op K md d upper =
    (case d of None \<Rightarrow> [] | Some x \<Rightarrow> hex2string (case k_digest K md x of None \<Rightarrow> [] | Some h \<Rightarrow> h) upper)"

definition md5 :: "openssl_keys \<Rightarrow> bytes option \<Rightarrow> bool \<Rightarrow> bytes" where "md5 K = evp_digest_op K EVP_md5"
definition sha1 :: "openssl_keys \<Rightarrow> bytes option \<Rightarrow> bool \<Rightarrow> bytes" where "sha1 K = evp_digest_op K EVP_sha1"
definition sha224 :: "openssl_keys \<Rightarrow> bytes option \<Rightarrow> bool \<Rightarrow> bytes" where "sha224 K = evp_digest_op K EVP_sha224"
definition sha256 :: "openssl_keys \<Rightarrow> bytes option \<Rightarrow> bool \<Rightarrow> bytes" where "sha256 K = evp_digest_op K EVP_sha256"
definition sha384 :: "openssl_keys \<Rightarrow> bytes option \<Rightarrow> bool \<Rightarrow> bytes" where "sha384 K = evp_digest_op K EVP_sha384"
definition sha512 :: "openssl_keys \<Rightarrow> bytes option \<Rightarrow> bool \<Rightarrow> bytes" where "sha512 K = evp_digest_op K EVP_sha512"
definition ripemd160 :: "openssl_keys \<Rightarrow> bytes option \<Rightarrow> bool \<Rightarrow> bytes" where "ripemd160 K = evp_digest_op K EVP_ripemd160"

definition md5_str :: "openssl_keys \<Rightarrow> bytes \<Rightarrow> bytes" where "md5_str K s = md5 K (Some s) True"
definition sha1_str :: "openssl_keys \<Rightarrow> bytes \<Rightarrow> bytes" where "sha1_str K s = sha1 K (Some s) True"

section \<open>Base64 with filters\<close>

text \<open>The result is a buffer that ends with a zero, and the length; reading back can report less than nothing.\<close>

definition base64Encode :: "openssl_keys \<Rightarrow> bytes option \<Rightarrow> bool \<Rightarrow> bytes option \<times> int" where
  "base64Encode K buf newLine =
    (case buf of None \<Rightarrow> (None, 0) | Some b \<Rightarrow> let out = k_bio_encode K newLine b in (Some (out @ [0]), int (length out)))"

definition base64Decode :: "openssl_keys \<Rightarrow> bytes option \<Rightarrow> bool \<Rightarrow> bytes option \<times> int" where
  "base64Decode K input newLine =
    (case input of
       None \<Rightarrow> (None, 0)
     | Some i \<Rightarrow> (case k_bio_decode K newLine i of
           None \<Rightarrow> (Some (replicate (length i + 1) 0), - 1)
         | Some out \<Rightarrow> (Some (out @ replicate (length i + 1 - length out) 0), int (length out))))"

section \<open>Keys\<close>

text \<open>\<open>file\<close> is the contents of the file, \<open>None\<close> when it cannot be opened.\<close>

definition load_pkey :: "openssl_keys \<Rightarrow> bytes option \<Rightarrow> bytes option \<Rightarrow> bool \<Rightarrow> pkey option" where
  "load_pkey K file_path file public_key =
    (case file_path of None \<Rightarrow> None | Some _ \<Rightarrow> (case file of None \<Rightarrow> None | Some pem \<Rightarrow> k_read_pem K public_key pem))"

definition load_rsa_key :: "openssl_keys \<Rightarrow> bytes option \<Rightarrow> bytes option \<Rightarrow> bool \<Rightarrow> pkey option" where
  "load_rsa_key K file_path file public_key = load_pkey K file_path file public_key"

definition load_dsa_key :: "openssl_keys \<Rightarrow> bytes option \<Rightarrow> bytes option \<Rightarrow> bool \<Rightarrow> pkey option" where
  "load_dsa_key K file_path file public_key = load_pkey K file_path file public_key"

text \<open>The pointer after the call, and the keys that were released.\<close>

definition free_pkey :: "pkey option option \<Rightarrow> pkey option option \<times> pkey list" where
  "free_pkey key = (case key of None \<Rightarrow> (None, []) | Some k \<Rightarrow> (Some None, case k of None \<Rightarrow> [] | Some x \<Rightarrow> [x]))"

definition free_rsa_key :: "pkey option option \<Rightarrow> pkey option option \<times> pkey list" where
  "free_rsa_key key = free_pkey key"

definition free_dsa_key :: "pkey option option \<Rightarrow> pkey option option \<times> pkey list" where
  "free_dsa_key key = free_pkey key"

text \<open>\<^verbatim>\<open>pkey_op\<close> with the operation that signs: the size is asked for, a buffer is made, then the operation runs.\<close>

definition sign_op :: "openssl_keys \<Rightarrow> pkey \<Rightarrow> bytes \<Rightarrow> int \<times> bytes option" where
  "sign_op K key d =
    (case k_sign_size K key d of
       None \<Rightarrow> (- 1, None)
     | Some outlen \<Rightarrow>
         if \<not> k_alloc K (of_nat outlen) then (- 100, None)
         else (case k_sign K key d of None \<Rightarrow> (- 1, None) | Some s \<Rightarrow> (int (length s), Some s)))"

definition pkey_sign :: "openssl_keys \<Rightarrow> bytes option \<Rightarrow> pkey option \<Rightarrow> int \<times> bytes option" where
  "pkey_sign K dgst pk =
    (case (dgst, pk) of
       (Some d, Some key) \<Rightarrow>
         if \<not> k_ctx K then (- 100, None)
         else
           let (rc, s) = (if k_init K key then sign_op K key d else (- 1, None))
           in if rc \<le> 0 then (rc, None) else (1, s)
     | _ \<Rightarrow> (- 1, None))"

definition pkey_verify :: "openssl_keys \<Rightarrow> bytes option \<Rightarrow> pkey option \<Rightarrow> bytes option \<Rightarrow> int" where
  "pkey_verify K dgst pk sig =
    (case (dgst, pk, sig) of
       (Some d, Some key, Some s) \<Rightarrow> if \<not> k_ctx K \<or> \<not> k_init K key then - 1 else k_verify K key s d
     | _ \<Rightarrow> - 1)"

definition dsa_sign where "dsa_sign K dgst dsa_pri = pkey_sign K dgst dsa_pri"
definition dsa_verify where "dsa_verify K dgst dsa_pub sig = pkey_verify K dgst dsa_pub sig"
definition ecc_sign where "ecc_sign K dgst key = pkey_sign K dgst key"
definition ecc_verify where "ecc_verify K dgst key sig = pkey_verify K dgst key sig"

text \<open>
  A number is its bytes, most significant first; \<open>k_native\<close> is its image in the order of the host, \<open>None\<close> when the library
  writes nothing, as for zero.  A key with a public number is built with all its parts, else only its parameters are.
\<close>

definition dh_build_from_bn :: "openssl_keys \<Rightarrow> bytes option \<Rightarrow> bytes option \<Rightarrow> bytes option \<Rightarrow> pkey option" where
  "dh_build_from_bn K p g pub = do {
    p \<leftarrow> p; g \<leftarrow> g;
    p_bin \<leftarrow> k_native K p; g_bin \<leftarrow> k_native K g;
    params \<leftarrow> (case pub of
        None \<Rightarrow> Some [(''p'', p_bin), (''g'', g_bin)]
      | Some b \<Rightarrow> map_option (\<lambda>pub_bin. [(''p'', p_bin), (''g'', g_bin), (''pub'', pub_bin)]) (k_native K b));
    if k_ctx K then k_fromdata K params (pub \<noteq> None) else None
  }"

section \<open>Facts\<close>

lemma unat_hex_digit: "n < 16 \<Longrightarrow> unat (hex_digit upper n) = (if n < 10 then 48 + n else (if upper then 55 else 87) + n)"
  by (auto simp: hex_digit_def unat_of_nat take_bit_nat_def simp del: of_nat_add)

lemma hex_digit_inject:
  assumes "a < 16" "b < 16" "hex_digit upper a = hex_digit upper b"
  shows "a = b"
  using arg_cong [OF assms(3), of unat] assms(1,2) by (simp add: unat_hex_digit split: if_splits)

lemma hex2string_inject: "hex2string x upper = hex2string y upper \<Longrightarrow> x = y"
proof (induction x arbitrary: y)
  case Nil
  then show ?case by (cases y) (simp_all add: hex2string_def)
next
  case (Cons b x)
  then obtain c z where y: "y = c # z" by (cases y) (auto simp: hex2string_def)
  have lt: "unat w div 16 < 16" "unat w mod 16 < 16" for w :: byte
    using unsigned_less [of w, where 'a = nat] by simp_all
  have "unat b div 16 = unat c div 16" "unat b mod 16 = unat c mod 16"
    using Cons.prems y lt by (auto simp: hex2string_def intro: hex_digit_inject)
  then have "unat b = unat c" by (metis div_mult_mod_eq)
  moreover have "x = z" using Cons y by (simp add: hex2string_def)
  ultimately show ?case using y by (simp add: word_unat_eq_iff)
qed

text \<open>Two texts of digests are equal only for equal digests, and have two characters per byte.\<close>

lemma digest_text:
  assumes "k_digest K md x = Some h" "k_digest K md y = Some h'"
  shows "evp_digest_op K md (Some x) upper = evp_digest_op K md (Some y) upper \<longleftrightarrow> h = h'"
    and "length (evp_digest_op K md (Some x) upper) = 2 * length h"
proof -
  have "length (hex2string h upper) = 2 * length h" by (induction h) (simp_all add: hex2string_def)
  then show "length (evp_digest_op K md (Some x) upper) = 2 * length h" using assms by (simp add: evp_digest_op_def)
qed (use assms hex2string_inject in \<open>auto simp: evp_digest_op_def\<close>)

text \<open>
  A signature that the code reports as made is accepted by the code with the matching key, and the result is one in both cases;
  without a digest, a key or a signature the result is an error and nothing is handed out.
\<close>

lemma sign_then_verify:
  assumes "\<And>d s. k_sign K pri d = Some s \<Longrightarrow> k_verify K pub s d = 1" and "k_init K pub"
    and "pkey_sign K (Some d) (Some pri) = (1, sig)"
  shows "pkey_verify K (Some d) (Some pub) sig = 1"
  using assms by (auto simp: pkey_sign_def pkey_verify_def sign_op_def Let_def split: if_splits option.splits dest: sym [of "Some _"])

lemma sign_result: "pkey_sign K dgst pk = (rc, sig) \<Longrightarrow> (rc = 1 \<longleftrightarrow> sig \<noteq> None) \<and> rc \<le> 1"
  by (auto simp: pkey_sign_def sign_op_def Let_def split: option.splits if_splits dest: sym [of "Some _"])

lemma dh_build_parts:
  "dh_build_from_bn K (Some p) (Some g) None = Some key \<longleftrightarrow>
    k_ctx K \<and> (\<exists>a b. k_native K p = Some a \<and> k_native K g = Some b \<and> k_fromdata K [(''p'', a), (''g'', b)] False = Some key)"
  "dh_build_from_bn K (Some p) (Some g) (Some y) = Some key \<longleftrightarrow>
    k_ctx K \<and> (\<exists>a b c. k_native K p = Some a \<and> k_native K g = Some b \<and> k_native K y = Some c \<and>
      k_fromdata K [(''p'', a), (''g'', b), (''pub'', c)] True = Some key)"
  by (auto simp: dh_build_from_bn_def bind_eq_Some_conv split: if_splits)

lemma freed_once: "snd (free_pkey (fst (free_pkey key))) = []"
  by (simp add: free_pkey_def split: option.splits)

end
