(* ===== verification/Spec2Isabelle.thy ===== *)
theory Spec2Isabelle
  imports GateServer DbProxy RequestStat AsioClient SocketPoll MemBuilds LogUtils NetService GateRelay Programs EchoServer DbAgent SocketOptions OpensslKeys
begin

text \<open>
  A verification library for tszy-ult, a C++ framework for networked services.

  \<^bold>\<open>The program.\<close>  The directory \<^verbatim>\<open>src/zbf\<close> is the transport: framed messages over TCP, a server with I/O, monitor and
  worker threads, synchronous and asynchronous clients with pools.  \<^verbatim>\<open>src/fszm\<close> has serialization, random numbers
  and a wrapper of OpenSSL.  \<^verbatim>\<open>src/wjp\<close> wraps the clients of MySQL, Redis and MongoDB and puts a worker pool in
  front of each.  \<^verbatim>\<open>src/lygc\<close> builds services on top: a message header with serial numbers, servers that match
  responses with requests, a gateway with an encrypted handshake, and proxies that give services access to
  the databases.  A database request thus travels: \<^verbatim>\<open>DBClientMySQL::request\<close>, \<^verbatim>\<open>NetClient::request\<close>, an asynchronous
  client, the bytes on the wire, the server's framing loop, \<^verbatim>\<open>DBProxyMySQLUser::onRecvMsg\<close>, the pool's queue, a
  worker with a client of the database, \<^verbatim>\<open>onResponseBase\<close>, the user's write queue, and back to the handler.

  \<^bold>\<open>Conventions.\<close>  Machine integers are words of their width; a \<^verbatim>\<open>std::string\<close> or a byte buffer is a list of bytes.
  Classes are records, methods are functions that return the changed record.  Errors that the code returns are
  return values; undefined behaviour and exceptions are the left side of a sum (\<open>memerr\<close> and the error types of the
  components).  Threads are step functions or \<open>inductive\<close> step relations whose steps are the sections under one
  mutex, and the theorems quantify over all interleavings.  Calls that leave the repository (sockets, the
  poller, clocks, allocation, OpenSSL, the MySQL, Redis and MongoDB libraries, the random engine, conversions
  of floating-point numbers) are arguments: scripts of answers, or records of functions with the documented laws that
  a theorem needs as named hypotheses.  Components do not repeat the lines they log; the logger has its own theory.

  \<^bold>\<open>Theories and what they show.\<close>
  \<^item> \<open>Prelude\<close>: types, byte order, lemmas on lists, words and folds shared by the rest.
  \<^item> \<open>Serialize\<close> (\<^verbatim>\<open>fszm/serialize_helper.hpp\<close>): all writers and readers; every reader inverts its writer and the
    wire format is as documented; truncated input gives defaults.
  \<^item> \<open>Memchunk\<close> (\<^verbatim>\<open>zbf/memchunk.hpp\<close>): the growing buffer with 32-bit sizes on an explicit heap block refines a byte
    queue as long as the sum of the sizes does not wrap.
  \<^item> \<open>TcpMessage\<close>, \<open>LymsgProtocol\<close> (\<^verbatim>\<open>zbf/tcp_message.hpp\<close>, \<^verbatim>\<open>lygc/lymsg_protocol.hpp\<close>): messages, the two framing
    protocols, headers and byte order.  \<open>Framing\<close> (\<^verbatim>\<open>_PopMsg\<close> and the receive loops) has the locale of a framing
    protocol, interpreted on both: the loop ends, stays in bounds, computes a parser specification, and delivers
    exactly the sent messages whatever the chunks are; whatever else a peer sends, only well-formed messages are handed on.
    \<open>EchoServer\<close> (\<^verbatim>\<open>examples/tcpserver.cpp\<close>) is a handler on top of it that no peer can make throw.
  \<^item> \<open>SocketUtils\<close>, \<open>SocketOptions\<close> (\<^verbatim>\<open>zbf/socket_utils.hpp\<close>): return codes and the retry loops of sending and receiving;
    addresses, modes and options, and that creating a datagram socket gives back what it took when it fails.
  \<^item> \<open>SafeQueue\<close> (\<^verbatim>\<open>zbf/safequeue.hpp\<close>): both builds of the bounded queue; concurrent use refines a FIFO queue.
  \<^item> \<open>WriteChannel\<close>, \<open>TcpUser\<close>, \<open>TcpServer\<close>, \<open>TcpClient\<close>, \<open>AsyncClient\<close> (\<^verbatim>\<open>zbf/socket_tcp_v5.hpp\<close>): the write
    queue shared by server users and asynchronous clients, with its three locks and the race between posting and
    draining; users; the server's life cycle, lanes, I/O, monitor and worker steps; the synchronous client, pools
    and groups of pools; asynchronous clients and their manager.
  \<^item> \<open>PendingStore\<close>, \<open>NetServer\<close> (\<^verbatim>\<open>lygc/net_server.hpp\<close>): the sharded maps of pending requests as an interpretation of
    the locale of a store of pending requests, requests, responses, disconnects and client handlers.
  \<^item> \<open>OpensslUtils\<close>, \<open>OpensslKeys\<close>, \<open>RandomUtils\<close>, \<open>Handshake\<close>, \<open>GateServer\<close> (\<^verbatim>\<open>fszm/openssl_utils_v2.hpp\<close>,
    \<^verbatim>\<open>fszm/random_utils.hpp\<close>, \<^verbatim>\<open>lygc/handshake_helper_v2.hpp\<close>, \<^verbatim>\<open>lygc/gate_server.hpp\<close>): ciphers, key agreement, the
    handshake and the gateway; both sides derive the same key, encrypted exchanges reach the handler in the
    clear, sessions stay usable.
  \<^item> \<open>DbReq\<close> (\<^verbatim>\<open>wjp/mysql_client_req.hpp\<close>, \<^verbatim>\<open>wjp/redis_client_req.hpp\<close>, \<^verbatim>\<open>wjp/mongo_client_req.hpp\<close>): requests and
    responses of the three databases; each reads back after serialization.
  \<^item> \<open>DbPool\<close>: the worker pool that the three clients share.  The locale \<open>worker_pool\<close> is the contract of a worker's
    steps; in it are shown exclusive use of clients, at most one answer per request, a bound on retries, and that
    the workers finish.  The locale \<open>pooled\<close> is the contract of requests and clients, a \<open>sublocale\<close> of the former.
  \<^item> \<open>MysqlClient\<close>, \<open>RedisClient\<close>, \<open>MongoClient\<close>, \<open>MongoPool\<close> (\<^verbatim>\<open>wjp/mysql_client.hpp\<close>, \<^verbatim>\<open>wjp/redis_client.hpp\<close>,
    \<^verbatim>\<open>wjp/mongo_client.hpp\<close>): the clients with their transactions, statements, replies and handles, and the pools as
    interpretations of these locales.
  \<^item> \<open>DbProxy\<close> (\<^verbatim>\<open>lygc/dbproxy_*.hpp\<close>, \<^verbatim>\<open>lygc/dbclient_*.hpp\<close>): proxies and their clients; a request end to end, and the
    race between submitting and saving a request.

  \<^item> \<open>TimerHelper\<close>, \<open>RequestStat\<close> (\<^verbatim>\<open>zbf/timer_helper.hpp\<close>, \<^verbatim>\<open>zbf/request_stat.hpp\<close>): the timer's table and ticks against a
    reference schedule, and which intervals drift; histograms, percentiles within their bucket, counts that balance.
  \<^item> \<open>EventSystem\<close>: components driven by events, with the locales \<open>inductive_invariant\<close> and \<open>forward_simulation\<close> that the following ones
    interpret.
  \<^item> \<open>AsioUser\<close>, \<open>AsioWrite\<close>, \<open>AsioServer\<close>, \<open>AsioClient\<close> (\<^verbatim>\<open>zbf/asio_socket_tcp.hpp\<close>, \<^verbatim>\<open>zbf/asio_worker.hpp\<close>): the build on
    Boost.Asio.  Posted handlers are explicit queues and the library's completions are events; messages are read and
    written whole and in order, the listener's calls come in their order, the table of connections keeps its
    limit, and what a client's attempts to connect can do to each other.
  \<^item> \<open>SocketPoll\<close> (\<^verbatim>\<open>zbf/socket_poll.hpp\<close>): the Windows and the Linux build of the poller as implementations of one abstract
    poller, the contract of the locale \<open>poller\<close>.
  \<^item> \<open>MemAlloc\<close>, \<open>MemBuilds\<close> (\<^verbatim>\<open>zbf/mem_alloc.hpp\<close>): the table of allocations under interleaved threads; the build that tracks
    memory simulates the one that does not.
  \<^item> \<open>LogUtils\<close> (\<^verbatim>\<open>zbf/log_utils.hpp\<close>, \<^verbatim>\<open>zbf/signal_utils.hpp\<close>): the logger with its buffer and cached time against a reference
    without them; signal dispositions.
  \<^item> \<open>CurlHelper\<close>, \<open>Central\<close> (\<^verbatim>\<open>fszm/curl_helper.hpp\<close>, \<^verbatim>\<open>lygc/central_*.hpp\<close>, \<^verbatim>\<open>lygc/lyserver_config.hpp\<close>): HTTP transfers, the
    configuration server and its client, groups of servers; a published configuration is read back as it was.
  \<^item> \<open>NetService\<close>, \<open>Relay\<close>, \<open>GateRelay\<close> (\<^verbatim>\<open>lygc/net_server.hpp\<close>, \<^verbatim>\<open>examples/lycommon.cpp\<close>, \<^verbatim>\<open>examples/lygate.cpp\<close>):
    the life cycle that puts a service together, and two services that relay requests, in the clear and behind an
    encrypted session: a request over three processes and back.
  \<^item> \<open>GateClient\<close> (\<^verbatim>\<open>examples/lygateclt.cpp\<close>): the gateway's client; the handshake message by message, and every request
    of the session after it; what happens when the answer overtakes the client's own bookkeeping.
  \<^item> \<open>DbAgent\<close> (\<^verbatim>\<open>examples/lydbagent.cpp\<close>): a service that asks the MySQL proxy for its clients; a request through agent, proxy
    and pool, and back.
  \<^item> \<open>Programs\<close> (\<^verbatim>\<open>examples/lycommon.cpp\<close>, \<^verbatim>\<open>examples/lygate.cpp\<close>, \<^verbatim>\<open>examples/lydbagent.cpp\<close>, \<^verbatim>\<open>examples/lylogic.cpp\<close>): the \<^verbatim>\<open>main\<close>
    functions; a gateway that starts from the published configuration is ready.

  \<^bold>\<open>Loops and bounds.\<close>  Loops over data are structural recursions, or functions with a termination proof (the framing loop,
  whose measure is the number of unread bytes; chains of MongoDB requests).  Loops that depend on the system
  take the list of its answers and end with it; the theorems say what holds at every end.  The loops of
  threads are single steps, and completion is shown by a measure (\<open>work\<close> of \<open>DbPool\<close>) that each step decreases.

  \<^bold>\<open>Not modelled.\<close>  What only passes a call on to a library: the stream classes of the Boost.Asio build, thread objects, the random
  engine and the legacy provider of OpenSSL.  The other examples and the tests only call the libraries in
  order; signals and the final waits of the \<^verbatim>\<open>main\<close> functions are not repeated.
\<close>

end
